(* ===== verification/Prelude.thy ===== *)
theory Prelude
  imports Main "HOL-Library.Word" "HOL-Library.Char_ord" "HOL-Library.List_Lexorder"
    "HOL-Library.Code_Target_Nat"
begin

text \<open>
  Shared vocabulary of the development: machine integers, the result type of fallible Rust code
  and its sequencing operator, and the fragment of the Rust standard library on strings that the
  agent uses. A Rust \<open>String\<close> is a sequence of UTF-8 bytes; it is modelled by Isabelle's
  \<open>string\<close>, whose characters are exactly bytes, so \<open>length\<close> is Rust's \<open>len\<close> and the order on
  strings is Rust's byte order. Operations that Rust defines on code points (\<open>chars().count()\<close>,
  \<open>trim\<close>, \<open>char::is_control\<close>) are written on the UTF-8 encoding.
\<close>

named_theorems result_simps \<open>elimination rules for successful results\<close>
named_theorems string_simps \<open>facts about trimmed and bounded strings\<close>

type_synonym u8 = "8 word"
type_synonym u16 = "16 word"
type_synonym u32 = "32 word"
type_synonym u64 = "64 word"

section \<open>Results\<close>

text \<open>\<open>Result<T, E>\<close> is \<open>'e + 'a\<close>; \<open>rbind\<close> is Rust's \<open>?\<close> operator: the first error is returned.\<close>

fun rbind :: "'e + 'a \<Rightarrow> ('a \<Rightarrow> 'e + 'b) \<Rightarrow> 'e + 'b" where
  "rbind (Inl e) f = Inl e"
| "rbind (Inr x) f = f x"

definition ok_or :: "'e \<Rightarrow> 'a option \<Rightarrow> 'e + 'a" where
  "ok_or e x = (case x of None \<Rightarrow> Inl e | Some y \<Rightarrow> Inr y)"

definition is_err :: "'e + 'a \<Rightarrow> bool" where
  "is_err r = (case r of Inl _ \<Rightarrow> True | Inr _ \<Rightarrow> False)"

text \<open>\<open>Result::ok\<close>.\<close>

definition result_ok :: "'e + 'a \<Rightarrow> 'a option" where
  "result_ok r = (case r of Inl _ \<Rightarrow> None | Inr x \<Rightarrow> Some x)"

text \<open>\<open>Option::unwrap_or\<close>.\<close>

definition unwrap_or :: "'a \<Rightarrow> 'a option \<Rightarrow> 'a" where
  "unwrap_or d x = (case x of None \<Rightarrow> d | Some y \<Rightarrow> y)"

text \<open>\<open>Option::filter\<close>.\<close>

definition opt_filter :: "('a \<Rightarrow> bool) \<Rightarrow> 'a option \<Rightarrow> 'a option" where
  "opt_filter P x = (case x of None \<Rightarrow> None | Some y \<Rightarrow> if P y then Some y else None)"

text \<open>\<open>iter.map(f).collect::<Result<Vec<_>, _>>()\<close>: the first error wins.\<close>

fun traverse :: "('a \<Rightarrow> 'e + 'b) \<Rightarrow> 'a list \<Rightarrow> 'e + 'b list" where
  "traverse f [] = Inr []"
| "traverse f (x # xs) = rbind (f x) (\<lambda>y. rbind (traverse f xs) (\<lambda>ys. Inr (y # ys)))"

lemma rbind_Inr [result_simps]: "rbind m f = Inr y \<longleftrightarrow> (\<exists>x. m = Inr x \<and> f x = Inr y)"
  by (cases m) auto

lemma rbind_Inl: "rbind m f = Inl e \<longleftrightarrow> m = Inl e \<or> (\<exists>x. m = Inr x \<and> f x = Inl e)"
  by (cases m) auto

lemma rbind_right_unit [simp]: "rbind m Inr = m"
  by (cases m) auto

lemma ok_or_Inr [result_simps]: "ok_or e x = Inr y \<longleftrightarrow> x = Some y"
  by (auto simp: ok_or_def split: option.splits)

lemma ok_or_simps [simp]: "ok_or e None = Inl e" "ok_or e (Some y) = Inr y"
  by (simp_all add: ok_or_def)

lemma unwrap_or_simps [simp]: "unwrap_or d None = d" "unwrap_or d (Some y) = y"
  by (simp_all add: unwrap_or_def)

lemma opt_filter_Some [simp]: "opt_filter P x = Some y \<longleftrightarrow> x = Some y \<and> P y"
  by (auto simp: opt_filter_def split: option.splits)

lemma opt_filter_simps [simp]: "opt_filter P None = None"
  "opt_filter P (Some y) = (if P y then Some y else None)"
  by (simp_all add: opt_filter_def)

lemma result_ok_simps [simp]: "result_ok (Inl e) = None" "result_ok (Inr x) = Some x"
  by (simp_all add: result_ok_def)

lemma result_ok_Some: "result_ok r = Some x \<longleftrightarrow> r = Inr x"
  by (cases r) auto

lemma is_err_simps [simp]: "is_err (Inl e)" "\<not> is_err (Inr x)"
  by (simp_all add: is_err_def)

lemma if_Inl_Inr [result_simps]: "(if b then Inl e else m) = Inr y \<longleftrightarrow> \<not> b \<and> m = Inr y"
  by auto

lemma traverse_Inr: "traverse f xs = Inr ys \<longleftrightarrow> list_all2 (\<lambda>x y. f x = Inr y) xs ys"
  by (induction xs arbitrary: ys) (auto simp: rbind_Inr list_all2_Cons1)

lemma traverse_length: "traverse f xs = Inr ys \<Longrightarrow> length ys = length xs"
  by (auto simp: traverse_Inr dest: list_all2_lengthD)

lemma traverse_set: "traverse f xs = Inr ys \<Longrightarrow> y \<in> set ys \<Longrightarrow> \<exists>x \<in> set xs. f x = Inr y"
  by (induction xs arbitrary: ys) (auto simp: rbind_Inr)

section \<open>Bytes, ASCII classes and case\<close>

abbreviation byte :: "char \<Rightarrow> nat" where
  "byte c \<equiv> of_char c"

definition is_ascii_uppercase :: "char \<Rightarrow> bool" where
  "is_ascii_uppercase c \<longleftrightarrow> 65 \<le> byte c \<and> byte c \<le> 90"

definition is_ascii_lowercase :: "char \<Rightarrow> bool" where
  "is_ascii_lowercase c \<longleftrightarrow> 97 \<le> byte c \<and> byte c \<le> 122"

definition is_ascii_digit :: "char \<Rightarrow> bool" where
  "is_ascii_digit c \<longleftrightarrow> 48 \<le> byte c \<and> byte c \<le> 57"

definition is_ascii_alphabetic :: "char \<Rightarrow> bool" where
  "is_ascii_alphabetic c \<longleftrightarrow> is_ascii_uppercase c \<or> is_ascii_lowercase c"

definition is_ascii_alphanumeric :: "char \<Rightarrow> bool" where
  "is_ascii_alphanumeric c \<longleftrightarrow> is_ascii_alphabetic c \<or> is_ascii_digit c"

definition lower_char :: "char \<Rightarrow> char" where
  "lower_char c = (if is_ascii_uppercase c then char_of (byte c + 32) else c)"

definition upper_char :: "char \<Rightarrow> char" where
  "upper_char c = (if is_ascii_lowercase c then char_of (byte c - 32) else c)"

definition to_ascii_lowercase :: "string \<Rightarrow> string" where
  "to_ascii_lowercase = map lower_char"

definition to_ascii_uppercase :: "string \<Rightarrow> string" where
  "to_ascii_uppercase = map upper_char"

definition eq_ignore_ascii_case :: "string \<Rightarrow> string \<Rightarrow> bool" where
  "eq_ignore_ascii_case s t \<longleftrightarrow> to_ascii_lowercase s = to_ascii_lowercase t"

lemma byte_less: "byte c < 256"
  by (metis mod_less_divisor of_char_mod_256 zero_less_numeral)

lemma byte_char_of [simp]: "n < 256 \<Longrightarrow> byte (char_of n) = n"
  by (simp add: of_char_of)

lemma byte_lower_char: "byte (lower_char c) = (if is_ascii_uppercase c then byte c + 32 else byte c)"
  by (auto simp: lower_char_def is_ascii_uppercase_def)

lemma byte_upper_char: "byte (upper_char c) = (if is_ascii_lowercase c then byte c - 32 else byte c)"
  using byte_less [of c] by (auto simp: upper_char_def is_ascii_lowercase_def)

lemma lower_char_idem [simp]: "lower_char (lower_char c) = lower_char c"
proof -
  have "\<not> is_ascii_uppercase (lower_char c)"
    by (auto simp: is_ascii_uppercase_def byte_lower_char)
  then show ?thesis by (simp add: lower_char_def [of "lower_char c"])
qed

lemma upper_char_idem [simp]: "upper_char (upper_char c) = upper_char c"
proof -
  have "\<not> is_ascii_lowercase (upper_char c)"
    by (auto simp: is_ascii_lowercase_def byte_upper_char)
  then show ?thesis by (simp add: upper_char_def [of "upper_char c"])
qed

lemma lowercase_idem [simp]: "to_ascii_lowercase (to_ascii_lowercase s) = to_ascii_lowercase s"
  by (simp add: to_ascii_lowercase_def)

lemma uppercase_idem [simp]: "to_ascii_uppercase (to_ascii_uppercase s) = to_ascii_uppercase s"
  by (simp add: to_ascii_uppercase_def)

lemma length_lowercase [simp]: "length (to_ascii_lowercase s) = length s"
  by (simp add: to_ascii_lowercase_def)

lemma length_uppercase [simp]: "length (to_ascii_uppercase s) = length s"
  by (simp add: to_ascii_uppercase_def)

lemma is_ascii_alphabetic_case [simp]:
  "is_ascii_alphabetic (lower_char c) = is_ascii_alphabetic c"
  "is_ascii_alphabetic (upper_char c) = is_ascii_alphabetic c"
  using byte_less [of c]
  by (auto simp: is_ascii_alphabetic_def is_ascii_uppercase_def is_ascii_lowercase_def
      byte_lower_char byte_upper_char)

section \<open>Characters of a UTF-8 string\<close>

definition is_continuation :: "char \<Rightarrow> bool" where
  "is_continuation c \<longleftrightarrow> 128 \<le> byte c \<and> byte c < 192"

text \<open>\<open>s.chars().count()\<close>: every character has one byte that is no continuation byte.\<close>

definition chars_count :: "string \<Rightarrow> nat" where
  "chars_count s = length (filter (\<lambda>c. \<not> is_continuation c) s)"

text \<open>\<open>s.chars().take(n).collect()\<close>.\<close>

fun chars_take :: "nat \<Rightarrow> string \<Rightarrow> string" where
  "chars_take n [] = []"
| "chars_take n (c # s) =
     (if is_continuation c then c # chars_take n s
      else case n of 0 \<Rightarrow> [] | Suc m \<Rightarrow> c # chars_take m s)"

lemma chars_count_le_length: "chars_count s \<le> length s"
  by (simp add: chars_count_def)

lemma chars_count_append: "chars_count (s @ t) = chars_count s + chars_count t"
  by (simp add: chars_count_def)

lemma chars_count_take: "chars_count (chars_take n s) \<le> n"
  by (induction n s rule: chars_take.induct) (auto simp: chars_count_def split: nat.splits)

text \<open>The encodings of the Unicode \<open>White_Space\<close> characters, which \<open>str::trim\<close> removes.\<close>

definition white_space :: "nat list list" where
  "white_space =
     [[9], [10], [11], [12], [13], [32], [194, 133], [194, 160], [225, 154, 128],
      [226, 128, 128], [226, 128, 129], [226, 128, 130], [226, 128, 131], [226, 128, 132],
      [226, 128, 133], [226, 128, 134], [226, 128, 135], [226, 128, 136], [226, 128, 137],
      [226, 128, 138], [226, 128, 168], [226, 128, 169], [226, 128, 175], [226, 129, 159],
      [227, 128, 128]]"

definition is_ws_char :: "string \<Rightarrow> bool" where
  "is_ws_char s \<longleftrightarrow> map byte s \<in> set white_space"

text \<open>The number of bytes of a white-space character at the front, or at the back, if any.\<close>

definition ws_front :: "string \<Rightarrow> nat option" where
  "ws_front s = find (\<lambda>k. k \<le> length s \<and> is_ws_char (take k s)) [1, 2, 3]"

definition ws_back :: "string \<Rightarrow> nat option" where
  "ws_back s = find (\<lambda>k. k \<le> length s \<and> is_ws_char (drop (length s - k) s)) [1, 2, 3]"

lemma ws_front_bounds: "ws_front s = Some k \<Longrightarrow> 0 < k \<and> k \<le> length s"
  by (auto simp: ws_front_def split: if_splits)

lemma ws_back_bounds: "ws_back s = Some k \<Longrightarrow> 0 < k \<and> k \<le> length s"
  by (auto simp: ws_back_def split: if_splits)

function trim_start :: "string \<Rightarrow> string" where
  "trim_start s = (case ws_front s of None \<Rightarrow> s | Some k \<Rightarrow> trim_start (drop k s))"
  by pat_completeness auto
termination
  by (relation "measure length") (auto dest: ws_front_bounds)

function trim_end :: "string \<Rightarrow> string" where
  "trim_end s = (case ws_back s of None \<Rightarrow> s | Some k \<Rightarrow> trim_end (take (length s - k) s))"
  by pat_completeness auto
termination
  by (relation "measure length") (auto dest!: ws_back_bounds)

declare trim_start.simps [simp del] trim_end.simps [simp del]

definition trim :: "string \<Rightarrow> string" where
  "trim s = trim_end (trim_start s)"

text \<open>A string is trimmed when neither end is white space.\<close>

definition trimmed :: "string \<Rightarrow> bool" where
  "trimmed s \<longleftrightarrow> ws_front s = None \<and> ws_back s = None"

lemma ws_front_trim_start: "ws_front (trim_start s) = None"
proof (induction s rule: trim_start.induct)
  case (1 s)
  then show ?case by (subst trim_start.simps) (auto split: option.splits)
qed

lemma ws_back_trim_end: "ws_back (trim_end s) = None"
proof (induction s rule: trim_end.induct)
  case (1 s)
  then show ?case by (subst trim_end.simps) (auto split: option.splits)
qed

lemma ws_front_None: "ws_front s = None \<longleftrightarrow> (\<forall>k \<in> {1, 2, 3}. k \<le> length s \<longrightarrow> \<not> is_ws_char (take k s))"
  by (auto simp: ws_front_def find_None_iff)

lemma ws_front_take: "ws_front s = None \<Longrightarrow> ws_front (take n s) = None"
  unfolding ws_front_None by (metis length_take min.bounded_iff min_absorb1 take_take)

lemma ws_front_trim_end: "ws_front s = None \<Longrightarrow> ws_front (trim_end s) = None"
proof (induction s rule: trim_end.induct)
  case (1 s)
  then show ?case by (subst trim_end.simps) (auto split: option.splits simp: ws_front_take)
qed

lemma trimmed_trim [simp, string_simps]: "trimmed (trim s)"
  by (simp add: trimmed_def trim_def ws_back_trim_end ws_front_trim_end ws_front_trim_start)

lemma trim_trimmed [string_simps]: "trimmed s \<Longrightarrow> trim s = s"
  by (simp add: trim_def trimmed_def trim_start.simps [of s] trim_end.simps [of s])

lemma trim_idem [simp]: "trim (trim s) = trim s"
  by (simp add: trim_trimmed)

lemma trim_Nil [simp]: "trim [] = []"
  by (simp add: trim_trimmed trimmed_def ws_front_def ws_back_def)

lemma set_trim: "set (trim s) \<subseteq> set s"
proof -
  have a: "set (trim_start s) \<subseteq> set s" for s
  proof (induction s rule: trim_start.induct)
    case (1 s)
    then show ?case
      by (subst trim_start.simps) (auto split: option.splits dest!: in_set_dropD)
  qed
  have b: "set (trim_end s) \<subseteq> set s" for s
  proof (induction s rule: trim_end.induct)
    case (1 s)
    then show ?case
      by (subst trim_end.simps) (auto split: option.splits dest!: in_set_takeD)
  qed
  show ?thesis using a [of s] b [of "trim_start s"] by (auto simp: trim_def)
qed

text \<open>\<open>char::is_control\<close> (U+0000 to U+001F and U+007F to U+009F), tested on every character.\<close>

fun has_control :: "string \<Rightarrow> bool" where
  "has_control [] = False"
| "has_control (c # s) =
     (byte c < 32 \<or> byte c = 127
      \<or> byte c = 194 \<and> (case s of [] \<Rightarrow> False | d # _ \<Rightarrow> 128 \<le> byte d \<and> byte d < 160)
      \<or> has_control s)"

section \<open>Splitting, joining and searching\<close>

text \<open>\<open>s.split(c)\<close> yields at least one part.\<close>

fun split_on :: "char \<Rightarrow> string \<Rightarrow> string list" where
  "split_on c [] = [[]]"
| "split_on c (x # s) =
     (if x = c then [] # split_on c s
      else case split_on c s of [] \<Rightarrow> [[x]] | p # ps \<Rightarrow> (x # p) # ps)"

text \<open>\<open>parts.join(sep)\<close>.\<close>

fun join :: "string \<Rightarrow> string list \<Rightarrow> string" where
  "join sep [] = []"
| "join sep [p] = p"
| "join sep (p # q # ps) = p @ sep @ join sep (q # ps)"

definition replace_char :: "char \<Rightarrow> char \<Rightarrow> string \<Rightarrow> string" where
  "replace_char a b s = map (\<lambda>x. if x = a then b else x) s"

fun starts_with :: "string \<Rightarrow> string \<Rightarrow> bool" where
  "starts_with [] s = True"
| "starts_with (p # ps) [] = False"
| "starts_with (p # ps) (c # s) = (p = c \<and> starts_with ps s)"

fun contains :: "string \<Rightarrow> string \<Rightarrow> bool" where
  "contains p [] = (p = [])"
| "contains p (c # s) = (starts_with p (c # s) \<or> contains p s)"

lemma split_on_not_Nil [simp]: "split_on c s \<noteq> []"
  by (induction s) (auto split: list.splits)

lemma split_on_no_sep: "p \<in> set (split_on c s) \<Longrightarrow> c \<notin> set p"
  by (induction s arbitrary: p) (fastforce split: if_splits list.splits)+

lemma split_on_free: "c \<notin> set p \<Longrightarrow> split_on c p = [p]"
  by (induction p) auto

lemma split_on_append: "c \<notin> set p \<Longrightarrow> split_on c (p @ c # s) = p # split_on c s"
  by (induction p) auto

lemma split_on_join:
  "ps \<noteq> [] \<Longrightarrow> (\<And>p. p \<in> set ps \<Longrightarrow> c \<notin> set p) \<Longrightarrow> split_on c (join [c] ps) = ps"
  by (induction "[c]" ps rule: join.induct) (auto simp: split_on_free split_on_append)

lemma join_split_on: "join [c] (split_on c s) = s"
proof (induction s)
  case (Cons x s)
  then show ?case by (cases "split_on c s" rule: list.exhaust; cases "tl (split_on c s)") auto
qed simp

section \<open>Numbers in decimal and hexadecimal\<close>

definition digit_char :: "nat \<Rightarrow> char" where
  "digit_char d = char_of (if d < 10 then 48 + d else 87 + d)"

text \<open>The digits of \<open>n\<close> in base \<open>Suc (Suc b)\<close>, most significant first, as \<open>Display\<close> prints them.\<close>

function digits_in :: "nat \<Rightarrow> nat \<Rightarrow> nat list" where
  "digits_in b n =
     (if n < Suc (Suc b) then [n] else digits_in b (n div Suc (Suc b)) @ [n mod Suc (Suc b)])"
  by pat_completeness auto
termination
  by (relation "measure snd") auto

declare digits_in.simps [simp del]

definition dec :: "nat \<Rightarrow> string" where
  "dec n = map digit_char (digits_in 8 n)"

text \<open>\<open>format!("{n:0w$x}")\<close>.\<close>

definition hex :: "nat \<Rightarrow> nat \<Rightarrow> string" where
  "hex w n = (let s = map digit_char (digits_in 14 n) in replicate (w - length s) (CHR ''0'') @ s)"

definition digit_val :: "char \<Rightarrow> nat" where
  "digit_val c = (if is_ascii_digit c then byte c - 48 else byte c - 87)"

definition undigits :: "nat \<Rightarrow> string \<Rightarrow> nat" where
  "undigits b s = foldl (\<lambda>acc c. acc * Suc (Suc b) + digit_val c) 0 s"

lemma digit_val_char: "d < 16 \<Longrightarrow> digit_val (digit_char d) = d"
  by (auto simp: digit_val_def digit_char_def is_ascii_digit_def)

lemma digits_in_less: "d \<in> set (digits_in b n) \<Longrightarrow> d < Suc (Suc b)"
proof (induction b n rule: digits_in.induct)
  case (1 b n)
  then show ?case by (subst (asm) digits_in.simps) (auto split: if_splits)
qed

lemma undigits_append: "undigits b (s @ [c]) = undigits b s * Suc (Suc b) + digit_val c"
  by (simp add: undigits_def)

lemma undigits_digits: "b \<le> 14 \<Longrightarrow> undigits b (map digit_char (digits_in b n)) = n"
proof (induction b n rule: digits_in.induct)
  case (1 b n)
  show ?case
  proof (cases "n < Suc (Suc b)")
    case True
    then show ?thesis using 1
      by (subst digits_in.simps) (simp add: undigits_def digit_val_char)
  next
    case False
    have "n mod Suc (Suc b) < Suc (Suc b)" by (rule mod_less_divisor) simp
    with 1(2) have "n mod Suc (Suc b) < 16" by linarith
    then show ?thesis using 1 False
      by (subst digits_in.simps)
        (simp add: undigits_append digit_val_char del: mult_Suc_right)
  qed
qed

lemma undigits_zeros: "undigits b (replicate k (CHR ''0'') @ s) = undigits b s"
  by (induction k) (auto simp: undigits_def digit_val_def is_ascii_digit_def)

lemma undigits_hex: "undigits 14 (hex w n) = n"
  by (simp add: hex_def Let_def undigits_zeros undigits_digits)

lemma hex_inject [simp]: "hex w m = hex w n \<longleftrightarrow> m = n"
  by (metis undigits_hex)

lemma dec_inject [simp]: "dec m = dec n \<longleftrightarrow> m = n"
proof
  assume "dec m = dec n"
  then have "undigits 8 (dec m) = undigits 8 (dec n)" by simp
  then show "m = n" by (simp add: dec_def undigits_digits)
qed simp

section \<open>Lists\<close>

text \<open>\<open>iter.position(P)\<close>, and replacing the first element that satisfies a predicate, which is
  what \<open>iter_mut().find(P)\<close> followed by an assignment does.\<close>

fun position :: "('a \<Rightarrow> bool) \<Rightarrow> 'a list \<Rightarrow> nat option" where
  "position P [] = None"
| "position P (x # xs) = (if P x then Some 0 else map_option Suc (position P xs))"

lemma find_first: "find P xs = Some x \<Longrightarrow> x \<in> set xs \<and> P x"
  by (auto simp: find_Some_iff)

fun modify_first :: "('a \<Rightarrow> bool) \<Rightarrow> ('a \<Rightarrow> 'a) \<Rightarrow> 'a list \<Rightarrow> 'a list" where
  "modify_first P f [] = []"
| "modify_first P f (x # xs) = (if P x then f x # xs else x # modify_first P f xs)"

definition remove_at :: "nat \<Rightarrow> 'a list \<Rightarrow> 'a list" where
  "remove_at i xs = take i xs @ drop (Suc i) xs"

lemma position_Some: "position P xs = Some i \<Longrightarrow> i < length xs \<and> P (xs ! i)"
  by (induction xs arbitrary: i) (auto split: if_splits)

lemma position_None: "position P xs = None \<longleftrightarrow> (\<forall>x \<in> set xs. \<not> P x)"
  by (induction xs) auto

lemma map_modify_first: "(\<And>x. g (f x) = g x) \<Longrightarrow> map g (modify_first P f xs) = map g xs"
  by (induction xs) auto

lemma set_modify_first: "set (modify_first P f xs) \<subseteq> set xs \<union> f ` {x \<in> set xs. P x}"
  by (induction xs) auto

lemma length_modify_first [simp]: "length (modify_first P f xs) = length xs"
  by (induction xs) auto

lemma map_remove_at: "map g (remove_at i xs) = remove_at i (map g xs)"
  by (simp add: remove_at_def take_map drop_map)

lemma set_remove_at: "set (remove_at i xs) \<subseteq> set xs"
  by (auto simp: remove_at_def dest: in_set_takeD in_set_dropD)

lemma remove_at_simps [simp]: "remove_at 0 (x # xs) = xs"
  "remove_at (Suc i) (x # xs) = x # remove_at i xs" "remove_at i [] = []"
  by (simp_all add: remove_at_def)

lemma distinct_remove_at: "distinct xs \<Longrightarrow> distinct (remove_at i xs)"
proof (induction xs arbitrary: i)
  case (Cons x xs)
  then show ?case using set_remove_at [of _ xs] by (cases i) auto
qed simp

text \<open>Keeping the first occurrence of every value, as the insertion-ordered deduplications of the
  code do (\<open>seen.insert(key)\<close> guarding a \<open>push\<close>).\<close>

fun dedup_by :: "('a \<Rightarrow> 'k) \<Rightarrow> 'k list \<Rightarrow> 'a list \<Rightarrow> 'a list" where
  "dedup_by f seen [] = []"
| "dedup_by f seen (x # xs) =
     (if f x \<in> set seen then dedup_by f seen xs else x # dedup_by f (f x # seen) xs)"

lemma dedup_by_distinct:
  "distinct (map f (dedup_by f seen xs)) \<and> set (map f (dedup_by f seen xs)) \<inter> set seen = {}"
  by (induction f seen xs rule: dedup_by.induct) auto

lemma dedup_by_image: "f ` set (dedup_by f seen xs) = f ` set xs - set seen"
  by (induction f seen xs rule: dedup_by.induct) auto

lemma dedup_by_subset: "set (dedup_by f seen xs) \<subseteq> set xs"
  by (induction f seen xs rule: dedup_by.induct) auto

lemma length_dedup_by: "length (dedup_by f seen xs) \<le> length xs"
  by (induction f seen xs rule: dedup_by.induct) (auto simp: le_SucI)

lemma dedup_by_id:
  "distinct (map f xs) \<Longrightarrow> set (map f xs) \<inter> set seen = {} \<Longrightarrow> dedup_by f seen xs = xs"
  by (induction f seen xs rule: dedup_by.induct) auto

section \<open>Step systems\<close>

text \<open>The common shape of the stateful components: operations that keep an invariant. What is
  proved here once for any sequence of operations is used for the operation registry, the state
  reducer and the split-tunnelling engine.\<close>

locale step_system =
  fixes step :: "'op \<Rightarrow> 's \<Rightarrow> 's"
    and inv :: "'s \<Rightarrow> bool"
  assumes step_inv: "inv s \<Longrightarrow> inv (step a s)"
begin

lemma run_inv: "inv s \<Longrightarrow> inv (fold step ops s)"
  by (induction ops arbitrary: s) (auto intro: step_inv)

lemma prefix_inv: "inv s \<Longrightarrow> n \<le> length ops \<Longrightarrow> inv (fold step (take n ops) s)"
  by (rule run_inv)

end

end
