(* ===== verification/Json.thy ===== *)
theory Json
  imports Prelude
begin

text \<open>
  The JSON values the agent exchanges and stores. \<open>serde_json::Value\<close> has six constructors; its
  object type is a \<open>BTreeMap<String, Value>\<close> (the crate is built without \<open>preserve_order\<close>), which
  is an association list with strictly increasing keys here. The accessors are the documented
  projections the agent calls: \<open>as_str\<close>, \<open>as_bool\<close>, \<open>as_u64\<close>, \<open>as_i64\<close>, \<open>as_f64\<close>, \<open>as_array\<close>,
  \<open>as_object\<close> and \<open>get\<close>.
\<close>

section \<open>Values\<close>

datatype jnumber = PosInt u64 | NegInt int | Float u64

text \<open>A 64-bit float is either given by its bits or is the conversion of an integer, which
  \<open>as_f64\<close> performs; no operation of the agent computes with it.\<close>

datatype f64 = F64Bits u64 | F64OfU64 u64 | F64OfI64 int

datatype json =
    JNull
  | JBool bool
  | JNum jnumber
  | JStr string
  | JArr "json list"
  | JObj "(string \<times> json) list"

type_synonym jobject = "(string \<times> json) list"

fun as_str :: "json \<Rightarrow> string option" where
  "as_str (JStr s) = Some s"
| "as_str _ = None"

fun as_bool :: "json \<Rightarrow> bool option" where
  "as_bool (JBool b) = Some b"
| "as_bool _ = None"

fun as_u64 :: "json \<Rightarrow> u64 option" where
  "as_u64 (JNum (PosInt n)) = Some n"
| "as_u64 _ = None"

fun as_i64 :: "json \<Rightarrow> int option" where
  "as_i64 (JNum (PosInt n)) = (if uint n < 2 ^ 63 then Some (uint n) else None)"
| "as_i64 (JNum (NegInt i)) = Some i"
| "as_i64 _ = None"

fun as_f64 :: "json \<Rightarrow> f64 option" where
  "as_f64 (JNum (PosInt n)) = Some (F64OfU64 n)"
| "as_f64 (JNum (NegInt i)) = Some (F64OfI64 i)"
| "as_f64 (JNum (Float b)) = Some (F64Bits b)"
| "as_f64 _ = None"

fun as_array :: "json \<Rightarrow> json list option" where
  "as_array (JArr vs) = Some vs"
| "as_array _ = None"

fun as_object :: "json \<Rightarrow> jobject option" where
  "as_object (JObj m) = Some m"
| "as_object _ = None"

section \<open>Objects\<close>

definition obj_get :: "('k \<times> 'v) list \<Rightarrow> 'k \<Rightarrow> 'v option" where
  "obj_get m = map_of m"

fun obj_insert :: "'k::linorder \<Rightarrow> 'v \<Rightarrow> ('k \<times> 'v) list \<Rightarrow> ('k \<times> 'v) list" where
  "obj_insert k v [] = [(k, v)]"
| "obj_insert k v ((k', v') # m) =
     (if k < k' then (k, v) # (k', v') # m
      else if k = k' then (k, v) # m
      else (k', v') # obj_insert k v m)"

definition obj_remove :: "'k \<Rightarrow> ('k \<times> 'v) list \<Rightarrow> ('k \<times> 'v) list" where
  "obj_remove k m = filter (\<lambda>(k', _). k' \<noteq> k) m"

definition obj_wf :: "('k::linorder \<times> 'v) list \<Rightarrow> bool" where
  "obj_wf m \<longleftrightarrow> sorted_wrt (<) (map fst m)"

text \<open>A literal \<open>json!({ ... })\<close> inserts its members in order.\<close>

definition obj_of :: "('k::linorder \<times> 'v) list \<Rightarrow> ('k \<times> 'v) list" where
  "obj_of kvs = fold (\<lambda>(k, v). obj_insert k v) kvs []"

definition jobj :: "(string \<times> json) list \<Rightarrow> json" where
  "jobj kvs = JObj (obj_of kvs)"

definition jnum :: "u64 \<Rightarrow> json" where
  "jnum n = JNum (PosInt n)"

definition jopt :: "('a \<Rightarrow> json) \<Rightarrow> 'a option \<Rightarrow> json" where
  "jopt f x = (case x of None \<Rightarrow> JNull | Some y \<Rightarrow> f y)"

text \<open>\<open>Value::get\<close> with a string index: \<open>None\<close> on anything but an object.\<close>

definition vget :: "json \<Rightarrow> string \<Rightarrow> json option" where
  "vget v k = Option.bind (as_object v) (\<lambda>m. obj_get m k)"

text \<open>The contract of an ordered map (\<open>BTreeMap\<close>), which every component that builds or reads an object
  or keeps entries per user relies on.\<close>

locale object_map =
  fixes empty :: "'m"
    and lookup :: "'m \<Rightarrow> 'k \<Rightarrow> 'v option"
    and insert :: "'k \<Rightarrow> 'v \<Rightarrow> 'm \<Rightarrow> 'm"
    and remove :: "'k \<Rightarrow> 'm \<Rightarrow> 'm"
    and wf :: "'m \<Rightarrow> bool"
  assumes lookup_empty: "lookup empty k = None"
    and lookup_insert: "lookup (insert k v m) k' = (if k' = k then Some v else lookup m k')"
    and lookup_remove: "lookup (remove k m) k' = (if k' = k then None else lookup m k')"
    and wf_empty: "wf empty"
    and wf_insert: "wf m \<Longrightarrow> wf (insert k v m)"
    and wf_remove: "wf m \<Longrightarrow> wf (remove k m)"
    and ext: "wf m \<Longrightarrow> wf n \<Longrightarrow> (\<And>k. lookup m k = lookup n k) \<Longrightarrow> m = n"
begin

lemma insert_same: "wf m \<Longrightarrow> insert k v (insert k w m) = insert k v m"
  by (rule ext) (auto simp: wf_insert lookup_insert)

lemma insert_commute: "wf m \<Longrightarrow> k \<noteq> l \<Longrightarrow> insert k v (insert l w m) = insert l w (insert k v m)"
  by (rule ext) (auto simp: wf_insert lookup_insert)

lemma insert_id: "wf m \<Longrightarrow> lookup m k = Some v \<Longrightarrow> insert k v m = m"
  by (rule ext) (auto simp: wf_insert lookup_insert)

lemma remove_insert: "wf m \<Longrightarrow> lookup m k = None \<Longrightarrow> remove k (insert k v m) = m"
  by (rule ext) (auto simp: wf_insert wf_remove lookup_insert lookup_remove)

lemma insert_remove: "wf m \<Longrightarrow> lookup m k = Some v \<Longrightarrow> insert k v (remove k m) = m"
  by (rule ext) (auto simp: wf_insert wf_remove lookup_insert lookup_remove)

lemma lookup_fold_insert:
  "lookup (fold (\<lambda>(k, v). insert k v) kvs m) k
     = (case map_of (rev kvs) k of None \<Rightarrow> lookup m k | Some v \<Rightarrow> Some v)"
proof (induction kvs arbitrary: m)
  case (Cons kv kvs)
  then show ?case
    by (cases kv) (auto simp: lookup_insert map_add_def split: option.splits)
qed simp

lemma wf_fold_insert: "wf m \<Longrightarrow> wf (fold (\<lambda>(k, v). insert k v) kvs m)"
  by (induction kvs arbitrary: m) (auto simp: wf_insert)

end

lemma obj_get_insert: "obj_get (obj_insert k v m) k' = (if k' = k then Some v else obj_get m k')"
  unfolding obj_get_def by (induction k v m rule: obj_insert.induct) auto

lemma obj_get_remove: "obj_get (obj_remove k m) k' = (if k' = k then None else obj_get m k')"
  unfolding obj_get_def obj_remove_def by (induction m) auto

lemma keys_insert: "set (map fst (obj_insert k v m)) = Set.insert k (set (map fst m))"
  by (induction k v m rule: obj_insert.induct) auto

lemma obj_wf_insert: "obj_wf m \<Longrightarrow> obj_wf (obj_insert k v m)"
proof (induction k v m rule: obj_insert.induct)
  case (2 k v k' v' m)
  then show ?case using keys_insert [of k v m]
    by (auto simp: obj_wf_def dest: less_trans)
qed (simp add: obj_wf_def)

lemma obj_wf_remove: "obj_wf m \<Longrightarrow> obj_wf (obj_remove k m)"
  unfolding obj_wf_def obj_remove_def by (induction m) auto

lemma obj_ext: "obj_wf m \<Longrightarrow> obj_wf n \<Longrightarrow> (\<And>k. obj_get m k = obj_get n k) \<Longrightarrow> m = n"
proof (induction m arbitrary: n)
  case Nil
  show ?case
  proof (cases n)
    case (Cons q n')
    then show ?thesis using Nil(3) [of "fst q"] by (cases q) (simp add: obj_get_def)
  qed simp
next
  case (Cons p m)
  obtain k v where p: "p = (k, v)" by force
  have above: "k' \<notin> fst ` set m" if "k' \<le> k" for k'
    using Cons.prems(1) that p by (force simp: obj_wf_def)
  obtain q n' where n: "n = q # n'"
    using Cons.prems(3) [of k] p by (cases n) (auto simp: obj_get_def)
  obtain l w where q: "q = (l, w)" by force
  have above': "k' \<notin> fst ` set n'" if "k' \<le> l" for k'
    using Cons.prems(2) that n q by (force simp: obj_wf_def)
  have "k = l"
    using Cons.prems(3) [of k] Cons.prems(3) [of l] p q n above [of l] above' [of k]
    by (cases k l rule: linorder_cases)
      (auto simp: obj_get_def map_of_eq_None_iff [THEN iffD2] split: if_splits)
  moreover from this have "v = w"
    using Cons.prems(3) [of k] p q n by (simp add: obj_get_def)
  moreover have "m = n'"
  proof (rule Cons.IH)
    show "obj_wf m" "obj_wf n'" using Cons.prems(1,2) n by (auto simp: obj_wf_def)
    fix k'
    show "obj_get m k' = obj_get n' k'"
    proof (cases "k' = k")
      case True
      then show ?thesis using above [of k] above' [of k] \<open>k = l\<close>
        by (simp add: obj_get_def map_of_eq_None_iff [THEN iffD2])
    next
      case False
      then show ?thesis using Cons.prems(3) [of k'] p q n \<open>k = l\<close> by (simp add: obj_get_def)
    qed
  qed
  ultimately show ?case using p q n by simp
qed

interpretation obj: object_map "[]" obj_get obj_insert obj_remove obj_wf
  by unfold_locales
    (simp_all add: obj_get_def [of "[]"] obj_get_insert obj_get_remove obj_wf_insert obj_wf_remove
      obj_ext obj_wf_def [of "[]"])

declare obj_get_insert [simp] obj_get_remove [simp]

lemma obj_get_Nil [simp]: "obj_get [] k = None"
  by (simp add: obj_get_def)

lemma obj_wf_Nil [simp]: "obj_wf []"
  by (rule obj.wf_empty)

lemma obj_get_of: "obj_get (obj_of kvs) k = map_of (rev kvs) k"
  by (simp add: obj_of_def obj.lookup_fold_insert split: option.splits)

lemma obj_wf_of [simp]: "obj_wf (obj_of kvs)"
  by (simp add: obj_of_def obj.wf_fold_insert)

lemma as_object_jobj [simp]: "as_object (jobj kvs) = Some (obj_of kvs)"
  by (simp add: jobj_def)

lemma vget_JObj [simp]: "vget (JObj m) k = obj_get m k"
  by (simp add: vget_def)

lemma vget_jobj [simp]: "vget (jobj kvs) k = map_of (rev kvs) k"
  by (simp add: vget_def obj_get_of)

lemma vget_Some_object: "vget v k = Some w \<Longrightarrow> \<exists>m. v = JObj m"
  by (cases v) (auto simp: vget_def)

lemma as_u64_jnum [simp]: "as_u64 (jnum n) = Some n"
  by (simp add: jnum_def)

lemma as_str_Some: "as_str v = Some s \<longleftrightarrow> v = JStr s"
  by (cases v) auto

lemma as_bool_Some: "as_bool v = Some b \<longleftrightarrow> v = JBool b"
  by (cases v) auto

lemma as_object_Some: "as_object v = Some m \<longleftrightarrow> v = JObj m"
  by (cases v) auto

lemma as_array_Some: "as_array v = Some vs \<longleftrightarrow> v = JArr vs"
  by (cases v) auto

section \<open>Typed members\<close>

text \<open>The chains \<open>object.get(k).and_then(Value::as_str)\<close> and \<open>data.get(k).and_then(...)\<close>.\<close>

definition get_str :: "jobject \<Rightarrow> string \<Rightarrow> string option" where
  "get_str m k = Option.bind (obj_get m k) as_str"

definition get_bool :: "jobject \<Rightarrow> string \<Rightarrow> bool option" where
  "get_bool m k = Option.bind (obj_get m k) as_bool"

definition get_u64 :: "jobject \<Rightarrow> string \<Rightarrow> u64 option" where
  "get_u64 m k = Option.bind (obj_get m k) as_u64"

definition vstr :: "json \<Rightarrow> string \<Rightarrow> string option" where
  "vstr v k = Option.bind (vget v k) as_str"

definition vbool :: "json \<Rightarrow> string \<Rightarrow> bool option" where
  "vbool v k = Option.bind (vget v k) as_bool"

definition vu64 :: "json \<Rightarrow> string \<Rightarrow> u64 option" where
  "vu64 v k = Option.bind (vget v k) as_u64"

definition vobj :: "json \<Rightarrow> string \<Rightarrow> jobject option" where
  "vobj v k = Option.bind (vget v k) as_object"

definition varr :: "json \<Rightarrow> string \<Rightarrow> json list option" where
  "varr v k = Option.bind (vget v k) as_array"

lemma vstr_JObj [simp]: "vstr (JObj m) k = get_str m k"
  by (simp add: vstr_def get_str_def)

lemma vbool_JObj [simp]: "vbool (JObj m) k = get_bool m k"
  by (simp add: vbool_def get_bool_def)

lemma vu64_JObj [simp]: "vu64 (JObj m) k = get_u64 m k"
  by (simp add: vu64_def get_u64_def)

lemma get_insert [simp]:
  "get_str (obj_insert k v m) k' = (if k' = k then as_str v else get_str m k')"
  "get_bool (obj_insert k v m) k' = (if k' = k then as_bool v else get_bool m k')"
  "get_u64 (obj_insert k v m) k' = (if k' = k then as_u64 v else get_u64 m k')"
  by (simp_all add: get_str_def get_bool_def get_u64_def)

lemma get_Nil [simp]: "get_str [] k = None" "get_bool [] k = None" "get_u64 [] k = None"
  by (simp_all add: get_str_def get_bool_def get_u64_def)

end
