(* ===== verification/Protocol.thy ===== *)
theory Protocol
  imports Json
begin

text \<open>
  The data of \<^verbatim>\<open>protocol/src/lib.rs\<close>: the frames of the JSON Lines protocol, the operation records and
  the state snapshot that the agent publishes to its clients, with the default values of the
  source. A struct is a record whose field names carry a short prefix, an enum is a datatype. Also
  the error type of \<^verbatim>\<open>agent/src/backend.rs\<close>, which every fallible agent operation returns.
\<close>

section \<open>Errors and frames\<close>

record backend_error =
  be_code :: string
  be_message :: string
  be_details :: "json option"
  be_retryable :: bool

definition backend_error_new :: "string \<Rightarrow> string \<Rightarrow> backend_error" where
  "backend_error_new code message =
     \<lparr>be_code = code, be_message = message, be_details = None, be_retryable = False\<rparr>"

definition with_details :: "json \<Rightarrow> backend_error \<Rightarrow> backend_error" where
  "with_details d e = e\<lparr>be_details := Some d\<rparr>"

definition retryable :: "bool \<Rightarrow> backend_error \<Rightarrow> backend_error" where
  "retryable r e = e\<lparr>be_retryable := r\<rparr>"

type_synonym 'a backend_res = "backend_error + 'a"

definition PROTOCOL_VERSION :: u16 where "PROTOCOL_VERSION = 1"

definition MAX_FRAME_BYTES :: nat where "MAX_FRAME_BYTES = 64 * 1024"

definition STORE_METHODS :: "string list" where
  "STORE_METHODS =
     [''store.get'', ''onboarding.complete'', ''preferences.set'', ''profiles.list'',
      ''profiles.save'', ''profiles.duplicate'', ''profiles.delete'', ''excluded_locations.get'',
      ''excluded_locations.set'', ''recents.list'', ''recents.record'', ''recents.pin'',
      ''recents.delete'', ''default_connection.set'', ''connection.resolve'']"

record request_envelope =
  rq_v :: u16
  rq_id :: string
  rq_message_type :: string
  rq_method :: string
  rq_params :: json

record protocol_error =
  pe_code :: string
  pe_message :: string
  pe_details :: "json option"
  pe_retryable :: bool

datatype server_message =
    Response u16 "string option" bool "json option" "protocol_error option"
  | Event u16 string json

definition msg_ok :: "string \<Rightarrow> json \<Rightarrow> server_message" where
  "msg_ok i result = Response PROTOCOL_VERSION (Some i) True (Some result) None"

definition msg_error_with_details ::
  "string option \<Rightarrow> string \<Rightarrow> string \<Rightarrow> json option \<Rightarrow> bool \<Rightarrow> server_message" where
  "msg_error_with_details i code message details retry =
     Response PROTOCOL_VERSION i False None
       (Some \<lparr>pe_code = code, pe_message = message, pe_details = details, pe_retryable = retry\<rparr>)"

definition msg_error :: "string option \<Rightarrow> string \<Rightarrow> string \<Rightarrow> server_message" where
  "msg_error i code message = msg_error_with_details i code message None False"

definition msg_event :: "string \<Rightarrow> json \<Rightarrow> server_message" where
  "msg_event name data = Event PROTOCOL_VERSION name data"

record hello_params =
  hp_client :: string
  hp_client_version :: string
  hp_client_instance_id :: string

section \<open>Operations\<close>

datatype operation_domain = AuthSession | TunnelConfiguration | Support | Store

datatype operation_status = Queued | Running | Succeeded | Failed | Cancelled

record operation_error =
  oe_code :: string
  oe_details :: "json option"
  oe_retryable :: bool

record operation_record =
  op_id :: string
  op_client :: string
  op_domain :: operation_domain
  op_kind :: string
  op_state :: operation_status
  op_stage :: string
  op_started :: u64
  op_updated :: u64
  op_finished :: "u64 option"
  op_cancelable :: bool
  op_error :: "operation_error option"

record operation_state =
  os_active :: "operation_record list"
  os_recent :: "operation_record list"

fun domain_name :: "operation_domain \<Rightarrow> string" where
  "domain_name AuthSession = ''auth_session''"
| "domain_name TunnelConfiguration = ''tunnel_configuration''"
| "domain_name Support = ''support''"
| "domain_name Store = ''store''"

fun status_name :: "operation_status \<Rightarrow> string" where
  "status_name Queued = ''queued''"
| "status_name Running = ''running''"
| "status_name Succeeded = ''succeeded''"
| "status_name Failed = ''failed''"
| "status_name Cancelled = ''cancelled''"

text \<open>The derived \<open>Serialize\<close> instances: absent \<open>details\<close> are skipped, other options become null.\<close>

definition operation_error_json :: "operation_error \<Rightarrow> json" where
  "operation_error_json e =
     jobj ([(''code'', JStr (oe_code e))]
           @ (case oe_details e of None \<Rightarrow> [] | Some d \<Rightarrow> [(''details'', d)])
           @ [(''retryable'', JBool (oe_retryable e))])"

definition operation_record_json :: "operation_record \<Rightarrow> json" where
  "operation_record_json r =
     jobj [(''id'', JStr (op_id r)),
           (''initiator_client_instance_id'', JStr (op_client r)),
           (''domain'', JStr (domain_name (op_domain r))),
           (''kind'', JStr (op_kind r)),
           (''state'', JStr (status_name (op_state r))),
           (''stage'', JStr (op_stage r)),
           (''started_at_unix_ms'', jnum (op_started r)),
           (''updated_at_unix_ms'', jnum (op_updated r)),
           (''finished_at_unix_ms'', jopt jnum (op_finished r)),
           (''cancelable'', JBool (op_cancelable r)),
           (''error'', jopt operation_error_json (op_error r))]"

section \<open>The state snapshot\<close>

datatype account_status =
  AccountUnknown | Restoring | SignedOut | SigningIn | TwoFactorRequired | SignedIn | AccountError

record account_state =
  acc_status :: account_status
  acc_name :: "string option"
  acc_tier :: "u8 option"
  acc_credentialless :: bool
  acc_two_factor_code_supported :: bool
  acc_two_factor_security_key_supported :: bool
  acc_sso_supported :: bool

definition account_state_default :: account_state where
  "account_state_default =
     \<lparr>acc_status = AccountUnknown, acc_name = None, acc_tier = None, acc_credentialless = False,
      acc_two_factor_code_supported = False, acc_two_factor_security_key_supported = False,
      acc_sso_supported = False\<rparr>"

record backend_state =
  bk_kind :: string
  bk_core_available :: bool
  bk_connection_available :: bool
  bk_connection_availability_known :: bool
  bk_settings_known :: bool
  bk_connector_initialized :: bool
  bk_network_blocked_known :: bool
  bk_network_blocked :: bool
  bk_core_version :: "string option"
  bk_error :: "string option"

definition backend_state_default :: backend_state where
  "backend_state_default =
     \<lparr>bk_kind = ''proton_linux'', bk_core_available = False, bk_connection_available = False,
      bk_connection_availability_known = False, bk_settings_known = False,
      bk_connector_initialized = False, bk_network_blocked_known = False,
      bk_network_blocked = False, bk_core_version = None, bk_error = None\<rparr>"

datatype connection_status = ConnUnknown | Disconnected | Connecting | Connected | ConnError

record connection_state =
  cn_observation_known :: bool
  cn_status :: connection_status
  cn_profile_id :: "string option"
  cn_country_code :: "string option"
  cn_country_name :: "string option"
  cn_host_country_code :: "string option"
  cn_host_country_name :: "string option"
  cn_entry_country_code :: "string option"
  cn_entry_country_name :: "string option"
  cn_state :: "string option"
  cn_city :: "string option"
  cn_server_name :: "string option"
  cn_server_ip :: "string option"
  cn_server_load :: "u8 option"
  cn_p2p :: bool
  cn_tor :: bool
  cn_latency_ms :: "u32 option"
  cn_protocol :: "string option"
  cn_connected_at_unix_ms :: "u64 option"
  cn_error :: "string option"
  cn_error_code :: "string option"
  cn_restriction_reason_code :: "int option"
  cn_network_conflicts :: "string list"

definition connection_state_default :: connection_state where
  "connection_state_default =
     \<lparr>cn_observation_known = False, cn_status = ConnUnknown, cn_profile_id = None,
      cn_country_code = None, cn_country_name = None, cn_host_country_code = None,
      cn_host_country_name = None, cn_entry_country_code = None, cn_entry_country_name = None,
      cn_state = None, cn_city = None, cn_server_name = None, cn_server_ip = None,
      cn_server_load = None, cn_p2p = False, cn_tor = False, cn_latency_ms = None,
      cn_protocol = None, cn_connected_at_unix_ms = None, cn_error = None, cn_error_code = None,
      cn_restriction_reason_code = None, cn_network_conflicts = []\<rparr>"

record device_location_state =
  dl_known :: bool
  dl_ip_address :: "string option"
  dl_country_code :: "string option"
  dl_isp :: "string option"
  dl_latitude :: "f64 option"
  dl_longitude :: "f64 option"

definition device_location_state_default :: device_location_state where
  "device_location_state_default =
     \<lparr>dl_known = False, dl_ip_address = None, dl_country_code = None, dl_isp = None,
      dl_latitude = None, dl_longitude = None\<rparr>"

record network_security_state =
  ns_known :: bool
  ns_wifi_connected :: bool
  ns_insecure_wifi :: bool
  ns_generation :: u64

definition network_security_state_default :: network_security_state where
  "network_security_state_default =
     \<lparr>ns_known = False, ns_wifi_connected = False, ns_insecure_wifi = False, ns_generation = 0\<rparr>"

record canonical_store_state =
  cs_revision :: u64
  cs_ready :: bool
  cs_onboarding_complete :: bool
  cs_locale :: string
  cs_start_with_omarchy :: bool
  cs_auto_connect :: bool
  cs_notifications_enabled :: bool
  cs_port_forwarding_notifications_enabled :: bool
  cs_account_scope_known :: bool
  cs_profile_count :: nat
  cs_recent_count :: nat
  cs_default_connection :: json
  cs_migration_available :: bool

definition canonical_store_state_default :: canonical_store_state where
  "canonical_store_state_default =
     \<lparr>cs_revision = 0, cs_ready = False, cs_onboarding_complete = False, cs_locale = ''en'',
      cs_start_with_omarchy = True, cs_auto_connect = False, cs_notifications_enabled = True,
      cs_port_forwarding_notifications_enabled = True, cs_account_scope_known = False,
      cs_profile_count = 0, cs_recent_count = 0,
      cs_default_connection = jobj [(''type'', JStr ''fastest'')], cs_migration_available = False\<rparr>"

definition canonical_store_state_json :: "canonical_store_state \<Rightarrow> json" where
  "canonical_store_state_json s =
     jobj [(''revision'', jnum (cs_revision s)),
           (''ready'', JBool (cs_ready s)),
           (''onboarding_complete'', JBool (cs_onboarding_complete s)),
           (''locale'', JStr (cs_locale s)),
           (''start_with_omarchy'', JBool (cs_start_with_omarchy s)),
           (''auto_connect'', JBool (cs_auto_connect s)),
           (''notifications_enabled'', JBool (cs_notifications_enabled s)),
           (''port_forwarding_notifications_enabled'',
             JBool (cs_port_forwarding_notifications_enabled s)),
           (''account_scope_known'', JBool (cs_account_scope_known s)),
           (''profile_count'', jnum (of_nat (cs_profile_count s))),
           (''recent_count'', jnum (of_nat (cs_recent_count s))),
           (''default_connection'', cs_default_connection s),
           (''migration_available'', JBool (cs_migration_available s))]"

section \<open>Features\<close>

datatype kill_switch_mode = KsOff | KsStandard | KsAdvanced

datatype split_tunneling_mode = StOff | StStandard | StInverse

record protocol_settings_state =
  ps_selected :: string
  ps_available :: "string list"
  ps_profile_available :: "string list"

record net_shield_state =
  nsh_level :: u8
  nsh_statistics_known :: bool
  nsh_malware_blocked :: u32
  nsh_ads_blocked :: u32
  nsh_trackers_blocked :: u32

record split_tunneling_config_state =
  stc_app_paths :: "string list"
  stc_ip_ranges :: "string list"

record split_tunneling_state =
  st_mode :: split_tunneling_mode
  st_availability_known :: bool
  st_available :: bool
  st_app_paths_supported :: bool
  st_ip_ranges_supported :: bool
  st_standard :: split_tunneling_config_state
  st_inverse :: split_tunneling_config_state

record port_forwarding_state =
  pf_enabled :: bool
  pf_active_port :: "u16 option"

record custom_dns_state =
  cd_enabled :: bool
  cd_servers :: "string list"

record connection_feedback_state =
  cf_available :: bool
  cf_viewed :: bool
  cf_sent :: bool
  cf_auto_dismiss_seconds :: u32

record feature_write_capabilities =
  wr_protocol :: bool
  wr_kill_switch :: bool
  wr_netshield :: bool
  wr_vpn_accelerator :: bool
  wr_anonymous_crash_reports :: bool
  wr_anonymous_usage_statistics :: bool
  wr_moderate_nat :: bool
  wr_ipv6 :: bool
  wr_ipv6_leak_protection :: bool
  wr_alternative_routing :: bool
  wr_allow_lan_connections :: bool
  wr_allow_local_dns :: bool
  wr_custom_dns :: bool
  wr_secure_core :: bool
  wr_split_tunneling :: bool
  wr_port_forwarding :: bool

definition feature_write_capabilities_default :: feature_write_capabilities where
  "feature_write_capabilities_default =
     \<lparr>wr_protocol = False, wr_kill_switch = False, wr_netshield = False,
      wr_vpn_accelerator = False, wr_anonymous_crash_reports = False,
      wr_anonymous_usage_statistics = False, wr_moderate_nat = False, wr_ipv6 = False,
      wr_ipv6_leak_protection = False, wr_alternative_routing = False,
      wr_allow_lan_connections = False, wr_allow_local_dns = False, wr_custom_dns = False,
      wr_secure_core = False, wr_split_tunneling = False, wr_port_forwarding = False\<rparr>"

text \<open>The one-field structs \<open>ToggleFeatureState\<close>, \<open>KillSwitchState\<close>, \<open>VpnAcceleratorState\<close>,
  \<open>AnonymousCrashReportsState\<close> and \<open>AnonymousUsageStatisticsState\<close> are their field.\<close>

record feature_state =
  ft_protocol :: protocol_settings_state
  ft_kill_switch_mode :: kill_switch_mode
  ft_netshield :: net_shield_state
  ft_vpn_accelerator :: bool
  ft_anonymous_crash_reports :: bool
  ft_anonymous_usage_statistics :: bool
  ft_connection_feedback :: connection_feedback_state
  ft_moderate_nat :: bool
  ft_ipv6 :: bool
  ft_ipv6_leak_protection :: bool
  ft_alternative_routing :: bool
  ft_allow_lan_connections :: bool
  ft_allow_local_dns :: bool
  ft_secure_core :: bool
  ft_split_tunneling :: split_tunneling_state
  ft_port_forwarding :: port_forwarding_state
  ft_custom_dns :: custom_dns_state
  ft_writes :: feature_write_capabilities
  ft_known :: bool
  ft_writable :: bool

definition split_tunneling_config_state_default :: split_tunneling_config_state where
  "split_tunneling_config_state_default = \<lparr>stc_app_paths = [], stc_ip_ranges = []\<rparr>"

definition feature_state_default :: feature_state where
  "feature_state_default =
     \<lparr>ft_protocol = \<lparr>ps_selected = [], ps_available = [], ps_profile_available = []\<rparr>,
      ft_kill_switch_mode = KsOff,
      ft_netshield = \<lparr>nsh_level = 0, nsh_statistics_known = False, nsh_malware_blocked = 0,
        nsh_ads_blocked = 0, nsh_trackers_blocked = 0\<rparr>,
      ft_vpn_accelerator = False, ft_anonymous_crash_reports = False,
      ft_anonymous_usage_statistics = False,
      ft_connection_feedback = \<lparr>cf_available = False, cf_viewed = False, cf_sent = False,
        cf_auto_dismiss_seconds = 0\<rparr>,
      ft_moderate_nat = False, ft_ipv6 = True, ft_ipv6_leak_protection = True,
      ft_alternative_routing = True, ft_allow_lan_connections = False,
      ft_allow_local_dns = False, ft_secure_core = False,
      ft_split_tunneling = \<lparr>st_mode = StOff, st_availability_known = False, st_available = False,
        st_app_paths_supported = False, st_ip_ranges_supported = False,
        st_standard = split_tunneling_config_state_default,
        st_inverse = split_tunneling_config_state_default\<rparr>,
      ft_port_forwarding = \<lparr>pf_enabled = False, pf_active_port = None\<rparr>,
      ft_custom_dns = \<lparr>cd_enabled = False, cd_servers = []\<rparr>,
      ft_writes = feature_write_capabilities_default, ft_known = False, ft_writable = False\<rparr>"

record state_snapshot =
  sn_revision :: u64
  sn_account :: account_state
  sn_backend :: backend_state
  sn_connection :: connection_state
  sn_device_location :: device_location_state
  sn_network_security :: network_security_state
  sn_features :: feature_state
  sn_operations :: operation_state
  sn_store :: canonical_store_state

definition state_snapshot_default :: state_snapshot where
  "state_snapshot_default =
     \<lparr>sn_revision = 0, sn_account = account_state_default, sn_backend = backend_state_default,
      sn_connection = connection_state_default,
      sn_device_location = device_location_state_default,
      sn_network_security = network_security_state_default,
      sn_features = feature_state_default,
      sn_operations = \<lparr>os_active = [], os_recent = []\<rparr>,
      sn_store = canonical_store_state_default\<rparr>"

lemma backend_error_new_simps [simp]:
  "be_code (backend_error_new c m) = c" "be_message (backend_error_new c m) = m"
  "be_details (backend_error_new c m) = None" "be_retryable (backend_error_new c m) = False"
  by (simp_all add: backend_error_new_def)

end
