(* ===== verification/Net_Addr.thy ===== *)
theory Net_Addr
  imports Prelude
begin

text \<open>
  IP addresses as the Rust standard library parses and prints them (\<open>std::net\<close>), which the store
  uses to normalise custom DNS servers and the split-tunnelling service to read gateways. An address
  is the list of its four bytes or of its eight 16-bit groups. The parser consumes a prefix and
  returns the rest; \<open>parse_ip\<close> also requires the whole input to be consumed.
\<close>

section \<open>Addresses\<close>

datatype ip_addr = V4 "nat list" | V6 "nat list"

definition ip_wf :: "ip_addr \<Rightarrow> bool" where
  "ip_wf a = (case a of
      V4 bs \<Rightarrow> length bs = 4 \<and> (\<forall>b \<in> set bs. b < 256)
    | V6 gs \<Rightarrow> length gs = 8 \<and> (\<forall>g \<in> set gs. g < 65536))"

fun is_v4 :: "ip_addr \<Rightarrow> bool" where
  "is_v4 (V4 _) = True"
| "is_v4 (V6 _) = False"

section \<open>Parsing\<close>

type_synonym 'a reader = "string \<Rightarrow> ('a \<times> string) option"

text \<open>\<open>char::to_digit(radix)\<close>.\<close>

definition to_digit :: "nat \<Rightarrow> char \<Rightarrow> nat option" where
  "to_digit radix c =
     (let d = (if is_ascii_digit c then byte c - 48
               else if is_ascii_lowercase c then byte c - 87
               else if is_ascii_uppercase c then byte c - 55 else radix)
      in if d < radix then Some d else None)"

text \<open>\<open>read_number(radix, Some(max_digits), allow_zero_prefix)\<close> into an integer below \<open>bound\<close>.\<close>

definition read_number :: "nat \<Rightarrow> nat \<Rightarrow> bool \<Rightarrow> nat \<Rightarrow> nat reader" where
  "read_number radix max_digits zero_prefix bound s =
     (let ds = takeWhile (\<lambda>c. to_digit radix c \<noteq> None) s;
          n = foldl (\<lambda>acc c. acc * radix + the (to_digit radix c)) 0 ds in
      if ds = [] \<or> max_digits < length ds \<or> bound \<le> n
         \<or> \<not> zero_prefix \<and> hd ds = CHR ''0'' \<and> 1 < length ds
      then None else Some (n, drop (length ds) s))"

definition read_given_char :: "char \<Rightarrow> unit reader" where
  "read_given_char c s = (case s of x # r \<Rightarrow> if x = c then Some ((), r) else None | [] \<Rightarrow> None)"

text \<open>\<open>read_separator(sep, index, inner)\<close>: the separator is read before every item but the first.\<close>

definition read_separator :: "char \<Rightarrow> nat \<Rightarrow> 'a reader \<Rightarrow> 'a reader" where
  "read_separator sep i inner s =
     (if 0 < i then Option.bind (read_given_char sep s) (\<lambda>(_, r). inner r) else inner s)"

fun read_ipv4_bytes :: "nat \<Rightarrow> nat \<Rightarrow> nat list reader" where
  "read_ipv4_bytes 0 i s = Some ([], s)"
| "read_ipv4_bytes (Suc n) i s =
     Option.bind (read_separator (CHR ''.'') i (read_number 10 3 False 256) s)
       (\<lambda>(b, r). map_option (\<lambda>(bs, r'). (b # bs, r')) (read_ipv4_bytes n (Suc i) r))"

definition read_ipv4_addr :: "nat list reader" where
  "read_ipv4_addr = read_ipv4_bytes 4 0"

text \<open>\<open>read_groups\<close>: at most \<open>n\<close> more groups; a trailing IPv4 address takes the place of two.\<close>

fun read_groups :: "nat \<Rightarrow> nat \<Rightarrow> string \<Rightarrow> nat list \<times> bool \<times> string" where
  "read_groups 0 i s = ([], False, s)"
| "read_groups (Suc n) i s =
     (case (if 0 < n then read_separator (CHR '':'') i read_ipv4_addr s else None) of
        Some (bs, r) \<Rightarrow> ([bs ! 0 * 256 + bs ! 1, bs ! 2 * 256 + bs ! 3], True, r)
      | None \<Rightarrow>
         (case read_separator (CHR '':'') i (read_number 16 4 True 65536) s of
            None \<Rightarrow> ([], False, s)
          | Some (g, r) \<Rightarrow> (case read_groups n (Suc i) r of (gs, v4, r') \<Rightarrow> (g # gs, v4, r'))))"

definition read_ipv6_addr :: "nat list reader" where
  "read_ipv6_addr s =
     (case read_groups 8 0 s of (head, v4, r) \<Rightarrow>
        if length head = 8 then Some (head, r)
        else if v4 then None
        else Option.bind (read_given_char (CHR '':'') r) (\<lambda>(_, r1).
             Option.bind (read_given_char (CHR '':'') r1) (\<lambda>(_, r2).
               case read_groups (8 - (length head + 1)) 0 r2 of (tail, _, r3) \<Rightarrow>
                 Some (head @ replicate (8 - length head - length tail) 0 @ tail, r3))))"

definition read_ip_addr :: "ip_addr reader" where
  "read_ip_addr s =
     (case read_ipv4_addr s of
        Some (bs, r) \<Rightarrow> Some (V4 bs, r)
      | None \<Rightarrow> map_option (\<lambda>(gs, r). (V6 gs, r)) (read_ipv6_addr s))"

definition parse_ip :: "string \<Rightarrow> ip_addr option" where
  "parse_ip s = (case read_ip_addr s of Some (a, []) \<Rightarrow> Some a | _ \<Rightarrow> None)"

section \<open>Printing\<close>

definition lower_hex :: "nat \<Rightarrow> string" where
  "lower_hex n = hex 0 n"

definition show_ipv4 :: "nat list \<Rightarrow> string" where
  "show_ipv4 bs = join ''.'' (map dec bs)"

text \<open>The first longest run of zero groups, as its start and length.\<close>

fun zero_span :: "nat \<Rightarrow> nat \<times> nat \<Rightarrow> nat \<times> nat \<Rightarrow> nat list \<Rightarrow> nat \<times> nat" where
  "zero_span i longest current [] = longest"
| "zero_span i longest current (g # gs) =
     (if g = 0
      then let current' = (if snd current = 0 then (i, 1) else (fst current, snd current + 1))
           in zero_span (Suc i) (if snd longest < snd current' then current' else longest) current' gs
      else zero_span (Suc i) longest (0, 0) gs)"

definition show_ipv6 :: "nat list \<Rightarrow> string" where
  "show_ipv6 gs =
     (if length gs = 8 \<and> take 6 gs = [0, 0, 0, 0, 0, 65535]
      then ''::ffff:'' @ show_ipv4 [gs ! 6 div 256, gs ! 6 mod 256, gs ! 7 div 256, gs ! 7 mod 256]
      else case zero_span 0 (0, 0) (0, 0) gs of (start, len) \<Rightarrow>
        if 1 < len
        then join '':'' (map lower_hex (take start gs)) @ ''::''
             @ join '':'' (map lower_hex (drop (start + len) gs))
        else join '':'' (map lower_hex gs))"

fun show_ip :: "ip_addr \<Rightarrow> string" where
  "show_ip (V4 bs) = show_ipv4 bs"
| "show_ip (V6 gs) = show_ipv6 gs"

section \<open>Correctness\<close>

lemma read_number_bound: "read_number radix k z bound s = Some (n, r) \<Longrightarrow> n < bound"
  by (auto simp: read_number_def Let_def split: if_splits)

lemma read_ipv4_bytes_wf:
  "read_ipv4_bytes n i s = Some (bs, r) \<Longrightarrow> length bs = n \<and> (\<forall>b \<in> set bs. b < 256)"
proof (induction n arbitrary: i s bs r)
  case (Suc n)
  then obtain b bs' r1 where "read_separator (CHR ''.'') i (read_number 10 3 False 256) s = Some (b, r1)"
    "read_ipv4_bytes n (Suc i) r1 = Some (bs', r)" "bs = b # bs'"
    by (auto simp: bind_eq_Some_conv)
  moreover from this(1) have "b < 256"
    by (auto simp: read_separator_def bind_eq_Some_conv dest: read_number_bound split: if_splits)
  ultimately show ?case using Suc.IH by fastforce
qed simp

lemma read_groups_wf:
  "read_groups n i s = (gs, v4, r) \<Longrightarrow> length gs \<le> n \<and> (\<forall>g \<in> set gs. g < 65536)"
proof (induction n i s arbitrary: gs v4 r rule: read_groups.induct)
  case (2 n i s)
  show ?case
  proof (cases "if 0 < n then read_separator (CHR '':'') i read_ipv4_addr s else None")
    case (Some p)
    obtain bs r' where p: "p = (bs, r')" by force
    have n: "0 < n" using Some by (simp split: if_splits)
    have "length bs = 4 \<and> (\<forall>b \<in> set bs. b < 256)"
      using Some p n
      by (auto simp: read_separator_def read_ipv4_addr_def bind_eq_Some_conv
          dest: read_ipv4_bytes_wf split: if_splits)
    then have "bs ! k < 256" if "k < 4" for k using that by (simp add: all_set_conv_all_nth)
    from this [of 0] this [of 1] this [of 2] this [of 3] show ?thesis
      using 2(2) Some p n by auto
  next
    case None
    have sep: "g < 65536" if "read_separator (CHR '':'') i (read_number 16 4 True 65536) s = Some (g, r')"
      for g r'
      using that
      by (auto simp: read_separator_def bind_eq_Some_conv dest: read_number_bound split: if_splits)
    from None show ?thesis using 2
      by (auto split: option.splits prod.splits dest: sep intro: le_SucI)
  qed
qed simp

lemma read_ipv6_addr_wf:
  "read_ipv6_addr s = Some (gs, r) \<Longrightarrow> length gs = 8 \<and> (\<forall>g \<in> set gs. g < 65536)"
proof -
  assume a: "read_ipv6_addr s = Some (gs, r)"
  obtain head v4 r0 where h: "read_groups 8 0 s = (head, v4, r0)" by (metis prod_cases3)
  note hw = read_groups_wf [OF h]
  show ?thesis
  proof (cases "length head = 8")
    case True
    then show ?thesis using a h hw by (simp add: read_ipv6_addr_def)
  next
    case False
    then obtain r2 where r2: "(case read_groups (8 - (length head + 1)) 0 r2 of (tail, _, r3) \<Rightarrow>
        Some (head @ replicate (8 - length head - length tail) 0 @ tail, r3)) = Some (gs, r)"
      using a h by (auto simp: read_ipv6_addr_def bind_eq_Some_conv split: if_splits)
    obtain tail f r3 where t: "read_groups (8 - (length head + 1)) 0 r2 = (tail, f, r3)"
      by (metis prod_cases3)
    with r2 have "gs = head @ replicate (8 - length head - length tail) 0 @ tail" by simp
    then show ?thesis using hw read_groups_wf [OF t(1)] False by auto
  qed
qed

text \<open>Every address the parser accepts is well formed.\<close>

lemma parse_ip_wf: "parse_ip s = Some a \<Longrightarrow> ip_wf a"
proof (cases a)
  case (V4 bs)
  moreover assume "parse_ip s = Some a"
  ultimately have "read_ipv4_bytes 4 0 s = Some (bs, [])"
    by (auto simp: parse_ip_def read_ip_addr_def read_ipv4_addr_def split: option.splits list.splits)
  then show ?thesis using V4 read_ipv4_bytes_wf by (fastforce simp: ip_wf_def)
next
  case (V6 gs)
  moreover assume "parse_ip s = Some a"
  ultimately have "read_ipv6_addr s = Some (gs, [])"
    by (auto simp: parse_ip_def read_ip_addr_def split: option.splits list.splits)
  then show ?thesis using V6 read_ipv6_addr_wf by (fastforce simp: ip_wf_def)
qed

lemma dec_small:
  "n < 256 \<Longrightarrow> dec n = map digit_char
     (if n < 10 then [n] else if n < 100 then [n div 10, n mod 10]
      else [n div 100, n div 10 mod 10, n mod 10])"
  by (auto simp: dec_def digits_in.simps [of 8 n] digits_in.simps [of 8 "n div 10"]
      digits_in.simps [of 8 "n div 100"] div_mult2_eq [symmetric])

lemma to_digit_char: "d < 10 \<Longrightarrow> to_digit 10 (digit_char d) = Some d"
  by (auto simp: to_digit_def digit_char_def is_ascii_digit_def)

lemma digit_char_zero: "d < 10 \<Longrightarrow> digit_char d = CHR ''0'' \<longleftrightarrow> d = 0"
proof -
  assume d: "d < 10"
  have z: "digit_char 0 = CHR ''0''" by (simp add: digit_char_def char_of_eq_iff)
  show ?thesis
  proof
    assume "digit_char d = CHR ''0''"
    then have "to_digit 10 (digit_char d) = to_digit 10 (digit_char 0)" by (simp add: z)
    then show "d = 0" using d by (simp add: to_digit_char)
  qed (simp add: z)
qed

lemma read_number_digits:
  assumes ds: "ds \<noteq> []" "length ds \<le> 3" "\<forall>d \<in> set ds. d < 10"
    and lead: "hd ds = 0 \<longrightarrow> length ds = 1"
    and num: "foldl (\<lambda>acc d. acc * 10 + d) 0 ds = n" "n < 256"
    and rest: "r = [] \<or> hd r = CHR ''.''"
  shows "read_number 10 3 False 256 (map digit_char ds @ r) = Some (n, r)"
proof -
  have all: "\<forall>c \<in> set (map digit_char ds). to_digit 10 c \<noteq> None"
    using ds(3) by (auto simp: to_digit_char)
  have "takeWhile (\<lambda>c. to_digit 10 c \<noteq> None) r = []"
    using rest by (cases r) (auto simp: to_digit_def is_ascii_digit_def is_ascii_lowercase_def is_ascii_uppercase_def)
  then have tw: "takeWhile (\<lambda>c. to_digit 10 c \<noteq> None) (map digit_char ds @ r) = map digit_char ds"
    using all by (subst takeWhile_append2) (blast, simp)
  have "foldl (\<lambda>acc c. acc * 10 + the (to_digit 10 c)) a (map digit_char ds)
      = foldl (\<lambda>acc d. acc * 10 + d) a ds" for a
    using ds(3) by (induction ds arbitrary: a) (auto simp: to_digit_char)
  moreover have "hd (map digit_char ds) = CHR ''0'' \<Longrightarrow> length ds = 1"
    using ds lead by (auto simp: list.map_sel digit_char_zero)
  ultimately show ?thesis unfolding read_number_def Let_def tw using ds num by auto
qed

lemma read_number_dec:
  assumes "n < 256" "r = [] \<or> hd r = CHR ''.''"
  shows "read_number 10 3 False 256 (dec n @ r) = Some (n, r)"
proof -
  let ?ds = "if n < 10 then [n] else if n < 100 then [n div 10, n mod 10]
      else [n div 100, n div 10 mod 10, n mod 10]"
  have h: "n div 100 = n div 10 div 10" by (simp add: div_mult2_eq [symmetric])
  have "n div 10 div 10 * 10 + n div 10 mod 10 = n div 10" "n div 10 * 10 + n mod 10 = n"
    by (rule div_mult_mod_eq)+
  then have "foldl (\<lambda>acc d. acc * 10 + d) 0 ?ds = n" by (auto simp: h)
  then have "read_number 10 3 False 256 (map digit_char ?ds @ r) = Some (n, r)"
    using assms by (intro read_number_digits) (auto split: if_splits)
  then show ?thesis by (simp only: dec_small [OF assms(1)])
qed

lemma read_separated_dec:
  assumes "n < 256" "r = [] \<or> hd r = CHR ''.''"
  shows "read_separator (CHR ''.'') 0 (read_number 10 3 False 256) (dec n @ r) = Some (n, r)"
    and "read_separator (CHR ''.'') (Suc i) (read_number 10 3 False 256) (CHR ''.'' # dec n @ r) = Some (n, r)"
  using read_number_dec [OF assms] by (simp_all add: read_separator_def read_given_char_def)

text \<open>Printing an IPv4 address and parsing it gives the address back.\<close>

lemma parse_show_ipv4:
  assumes "ip_wf (V4 bs)"
  shows "parse_ip (show_ip (V4 bs)) = Some (V4 bs)"
proof -
  obtain a b c d where bs: "bs = [a, b, c, d]" "a < 256" "b < 256" "c < 256" "d < 256"
    using assms by (auto simp: ip_wf_def length_Suc_conv eval_nat_numeral)
  have "read_ipv4_addr (show_ipv4 bs) = Some (bs, [])"
    using read_separated_dec(1) [OF bs(2), of "CHR ''.'' # dec b @ CHR ''.'' # dec c @ CHR ''.'' # dec d"]
      read_separated_dec(2) [OF bs(3), of "CHR ''.'' # dec c @ CHR ''.'' # dec d" 0]
      read_separated_dec(2) [OF bs(4), of "CHR ''.'' # dec d" "Suc 0"]
      read_separated_dec(2) [OF bs(5), of "[]" "Suc (Suc 0)"]
    by (simp add: read_ipv4_addr_def show_ipv4_def bs(1) eval_nat_numeral)
  then show ?thesis by (simp add: parse_ip_def read_ip_addr_def)
qed

end
