(* ===== verification/Store_Values.thy ===== *)
theory Store_Values
  imports Protocol Net_Addr
begin

text \<open>
  The value layer of \<^verbatim>\<open>agent/src/store.rs\<close>: validation of request parameters and the normalisation
  of profiles, recents and locales. Everything here is a pure function from JSON to JSON or to an
  error; the clock is an argument. \<open>normalize_profile\<close> is split at the section breaks of the
  source into the target, the connection settings, the DNS and LAN policies and Connect and Go.
\<close>

section \<open>Parameters\<close>

definition fail :: "string \<Rightarrow> string \<Rightarrow> 'a backend_res" where
  "fail code message = Inl (backend_error_new code message)"

definition object_params :: "json \<Rightarrow> jobject backend_res" where
  "object_params v =
     ok_or (backend_error_new ''invalid_params'' ''params must be an object'') (as_object v)"

definition string_value :: "json option \<Rightarrow> nat \<Rightarrow> bool \<Rightarrow> string backend_res" where
  "string_value v max_chars do_trim =
     (case v of
        None \<Rightarrow> Inr []
      | Some j \<Rightarrow>
          rbind (ok_or (backend_error_new ''invalid_params'' ''Expected a string value'') (as_str j))
            (\<lambda>s. let raw = (if do_trim then trim s else s) in
               if max_chars < chars_count raw
                  \<or> (\<exists>c \<in> set raw. c = CHR 0x00 \<or> c = CHR 0x0A \<or> c = CHR 0x0D)
               then fail ''invalid_params'' ''String value has an invalid length or characters''
               else Inr raw))"

definition required_string :: "jobject \<Rightarrow> string \<Rightarrow> nat \<Rightarrow> string backend_res" where
  "required_string m k max_chars =
     rbind (string_value (obj_get m k) max_chars True)
       (\<lambda>v. if v = [] then fail ''invalid_params'' (k @ '' is required'') else Inr v)"

definition string_or :: "jobject \<Rightarrow> string \<Rightarrow> string \<Rightarrow> nat \<Rightarrow> string backend_res" where
  "string_or m k fallback max_chars =
     (if obj_get m k = None then Inr fallback
      else rbind (string_value (obj_get m k) max_chars True)
             (\<lambda>v. Inr (if v = [] then fallback else v)))"

definition required_bool :: "jobject \<Rightarrow> string \<Rightarrow> bool backend_res" where
  "required_bool m k =
     ok_or (backend_error_new ''invalid_params'' (k @ '' must be a boolean'')) (get_bool m k)"

definition optional_bool :: "jobject \<Rightarrow> string \<Rightarrow> bool \<Rightarrow> bool backend_res" where
  "optional_bool m k fallback =
     (case obj_get m k of
        Some v \<Rightarrow> ok_or (backend_error_new ''invalid_params'' (k @ '' must be a boolean'')) (as_bool v)
      | None \<Rightarrow> Inr fallback)"

definition bounded_usize :: "json \<Rightarrow> string \<Rightarrow> nat \<Rightarrow> nat \<Rightarrow> nat backend_res" where
  "bounded_usize params k fallback maximum =
     (case vget params k of
        None \<Rightarrow> Inr fallback
      | Some v \<Rightarrow>
          rbind (ok_or (backend_error_new ''invalid_params'' (k @ '' must be an integer'')) (as_u64 v))
            (\<lambda>n. if maximum < unat n then fail ''invalid_params'' (k @ '' exceeds the maximum'')
                 else Inr (unat n)))"

definition nonempty :: "jobject \<Rightarrow> string \<Rightarrow> bool" where
  "nonempty m k = (case get_str m k of None \<Rightarrow> False | Some v \<Rightarrow> trim v \<noteq> [])"

definition all_alphabetic :: "string \<Rightarrow> bool" where
  "all_alphabetic s = list_all is_ascii_alphabetic s"

section \<open>Locales\<close>

definition locale_part_valid :: "string \<Rightarrow> bool" where
  "locale_part_valid p \<longleftrightarrow> p \<noteq> [] \<and> length p \<le> 8 \<and> list_all is_ascii_alphanumeric p"

definition canonical_part :: "string \<Rightarrow> string" where
  "canonical_part p =
     (if length p = 2 \<and> all_alphabetic p then to_ascii_uppercase p
      else if length p = 4 \<and> all_alphabetic p
      then (case to_ascii_lowercase p of [] \<Rightarrow> [] | c # cs \<Rightarrow> upper_char c # cs)
      else to_ascii_lowercase p)"

definition locale_value :: "json option \<Rightarrow> string backend_res" where
  "locale_value v =
     (let raw = replace_char (CHR ''_'') (CHR ''-'') (trim (unwrap_or [] (Option.bind v as_str)));
          parts = split_on (CHR ''-'') raw;
          valid = (raw \<noteq> [] \<and> length raw \<le> 35
            \<and> 2 \<le> length (hd parts) \<and> length (hd parts) \<le> 8 \<and> all_alphabetic (hd parts)
            \<and> list_all locale_part_valid (tl parts)) in
      if \<not> valid
      then fail ''invalid_locale'' ''locale must be a valid bounded BCP 47 language tag''
      else Inr (join ''-'' (to_ascii_lowercase (hd parts) # map canonical_part (tl parts))))"

section \<open>Identifiers\<close>

definition has_id :: "string \<Rightarrow> json \<Rightarrow> bool" where
  "has_id i v \<longleftrightarrow> vstr v ''id'' = Some i"

definition id_format :: "string \<Rightarrow> u64 \<Rightarrow> nat \<Rightarrow> string" where
  "id_format prefix now sequence = prefix @ ''-'' @ hex 16 (unat now) @ ''-'' @ hex 4 sequence"

text \<open>The search of \<open>unique_id\<close> for the first unused sequence number. At most as many identifiers as
  there are values can be taken, so their number is enough fuel.\<close>

fun next_sequence :: "nat \<Rightarrow> nat \<Rightarrow> (nat \<Rightarrow> bool) \<Rightarrow> nat" where
  "next_sequence 0 sequence taken = sequence"
| "next_sequence (Suc fuel) sequence taken =
     (if taken sequence then next_sequence fuel (Suc sequence) taken else sequence)"

definition unique_id :: "u64 \<Rightarrow> string \<Rightarrow> json list \<Rightarrow> string" where
  "unique_id now prefix values =
     id_format prefix now
       (next_sequence (length values) 0 (\<lambda>n. \<exists>v \<in> set values. has_id (id_format prefix now n) v))"

section \<open>Location strings and targets\<close>

text \<open>\<open>insert_profile_string\<close> and \<open>insert_recent_string\<close> have the same body.\<close>

definition insert_string :: "jobject \<Rightarrow> string \<Rightarrow> nat \<Rightarrow> bool \<Rightarrow> jobject \<Rightarrow> jobject backend_res" where
  "insert_string source k max_chars uppercase target =
     rbind (string_value (obj_get source k) max_chars True)
       (\<lambda>v. if v = [] then Inr target
            else if uppercase
            then if length v \<noteq> 2 \<or> \<not> all_alphabetic v
                 then fail ''invalid_params'' (k @ '' must be a two-letter country code'')
                 else Inr (obj_insert k (JStr (to_ascii_uppercase v)) target)
            else Inr (obj_insert k (JStr v) target))"

fun insert_strings :: "jobject \<Rightarrow> (string \<times> nat \<times> bool) list \<Rightarrow> jobject \<Rightarrow> jobject backend_res" where
  "insert_strings source [] target = Inr target"
| "insert_strings source ((k, max_chars, up) # ks) target =
     rbind (insert_string source k max_chars up target) (insert_strings source ks)"

definition profile_strings :: "(string \<times> nat \<times> bool) list" where
  "profile_strings =
     [(''countryCode'', 2, True), (''countryName'', 128, False), (''entryCountryCode'', 2, True),
      (''entryCountryName'', 128, False), (''state'', 128, False), (''city'', 128, False),
      (''serverName'', 128, False), (''gatewayName'', 128, False)]"

definition recent_strings :: "(string \<times> nat \<times> bool) list" where
  "recent_strings =
     [(''profileId'', 128, False), (''header'', 128, False), (''description'', 256, False),
      (''gatewayName'', 128, False), (''countryCode'', 2, True), (''countryName'', 128, False),
      (''entryCountryCode'', 2, True), (''entryCountryName'', 128, False), (''state'', 128, False),
      (''city'', 128, False), (''serverName'', 128, False)]"

definition profile_target_valid :: "string \<Rightarrow> jobject \<Rightarrow> bool" where
  "profile_target_valid kind v =
     (if kind \<in> set [''fastest'', ''random'', ''p2p'', ''tor''] then True
      else if kind = ''secureCore'' then \<not> nonempty v ''entryCountryCode'' \<or> nonempty v ''countryCode''
      else if kind = ''country'' then nonempty v ''countryCode''
      else if kind = ''state'' then nonempty v ''countryCode'' \<and> nonempty v ''state''
      else if kind = ''city'' then nonempty v ''countryCode'' \<and> nonempty v ''city''
      else if kind = ''server'' then nonempty v ''countryCode'' \<and> nonempty v ''serverName''
      else if kind = ''gateway'' then nonempty v ''gatewayName''
      else if kind = ''gatewayServer'' then nonempty v ''gatewayName'' \<and> nonempty v ''serverName''
      else False)"

definition recent_target_valid :: "string \<Rightarrow> jobject \<Rightarrow> bool" where
  "recent_target_valid kind v =
     (if kind = ''profile'' then nonempty v ''profileId''
      else if kind = ''gateway'' then nonempty v ''gatewayName''
      else if kind = ''gatewayServer'' then nonempty v ''gatewayName'' \<and> nonempty v ''serverName''
      else if kind = ''secureCore''
      then nonempty v ''serverName''
           \<or> nonempty v ''countryCode'' \<and> nonempty v ''entryCountryCode''
      else if kind = ''server'' \<or> kind = ''tor'' then nonempty v ''serverName''
      else if kind = ''country'' then nonempty v ''countryCode''
      else if kind = ''state'' then nonempty v ''countryCode'' \<and> nonempty v ''state''
      else if kind = ''city'' then nonempty v ''countryCode'' \<and> nonempty v ''city''
      else False)"

section \<open>Profiles\<close>

definition profile_mode :: "jobject \<Rightarrow> string \<Rightarrow> string list \<Rightarrow> string backend_res" where
  "profile_mode raw k allowed =
     rbind (string_or raw k ''inherit'' 16)
       (\<lambda>v0. let v = to_ascii_lowercase v0 in
          if v \<in> set allowed then Inr v
          else fail ''invalid_params'' (k @ '' contains an unsupported policy''))"

text \<open>One entry of the server list: \<open>None\<close> when it is blank and skipped.\<close>

definition profile_dns_server :: "json \<Rightarrow> string option backend_res" where
  "profile_dns_server v =
     rbind (ok_or (backend_error_new ''invalid_dns'' ''Profile DNS servers must be strings'') (as_str v))
       (\<lambda>s. if trim s = [] then Inr None
            else case parse_ip (trim s) of
                None \<Rightarrow> fail ''invalid_dns'' ''Profile DNS servers must be valid IP addresses''
              | Some a \<Rightarrow> Inr (Some (show_ip a)))"

definition profile_dns_servers :: "json option \<Rightarrow> string list backend_res" where
  "profile_dns_servers v =
     (case v of
        None \<Rightarrow> Inr []
      | Some j \<Rightarrow>
          rbind (ok_or (backend_error_new ''invalid_dns''
                          ''profileCustomDnsServers must be an array of IP addresses'') (as_array j))
            (\<lambda>vs. if 16 < length vs
                  then fail ''invalid_dns'' ''A profile can contain at most 16 custom DNS servers''
                  else rbind (traverse profile_dns_server vs)
                         (\<lambda>servers. Inr (dedup_by (\<lambda>x. x) [] (List.map_filter (\<lambda>x. x) servers)))))"

definition supported_protocols :: "string list" where
  "supported_protocols =
     [''smart'', ''wireguard-udp'', ''wireguard-tcp'', ''wireguard-tls'', ''protun-udp'',
      ''protun-tcp'', ''protun-tls'', ''openvpn-udp'', ''openvpn-tcp'']"

text \<open>The target section: name, kind, strategy and the location strings.\<close>

definition profile_target :: "jobject \<Rightarrow> (string \<times> string \<times> string \<times> jobject) backend_res" where
  "profile_target raw =
     rbind (required_string raw ''name'' 60) (\<lambda>name.
     rbind (string_or raw ''targetKind'' ''fastest'' 32) (\<lambda>target_kind.
     rbind (string_or raw ''selectionStrategy''
              (if target_kind = ''random'' then ''random'' else ''fastest'') 16) (\<lambda>strategy.
     if to_ascii_lowercase strategy \<notin> set [''fastest'', ''random'']
     then fail ''invalid_profile_target'' ''Profile selection strategy is unsupported''
     else rbind (insert_strings raw profile_strings []) (\<lambda>location.
     if \<not> profile_target_valid target_kind location
     then fail ''invalid_profile_target'' ''Profile target is incomplete or unsupported''
     else Inr (name, target_kind, to_ascii_lowercase strategy, location)))))"

definition profile_created :: "u64 \<Rightarrow> jobject \<Rightarrow> jobject option \<Rightarrow> u64" where
  "profile_created now raw existing =
     unwrap_or now
       (opt_filter (\<lambda>v. 0 < v)
         (case Option.bind existing (\<lambda>m. get_u64 m ''createdAtMs'') of
            Some v \<Rightarrow> Some v
          | None \<Rightarrow> get_u64 raw ''createdAtMs''))"

text \<open>The protocol, appearance, NetShield, NAT and port-forwarding section.\<close>

definition profile_settings :: "jobject \<Rightarrow> jobject \<Rightarrow> jobject backend_res" where
  "profile_settings raw profile =
     rbind (optional_bool raw ''excludeMyCountry'' False) (\<lambda>exclude.
     rbind (string_or raw ''iconName'' ''Speed'' 64) (\<lambda>icon.
     rbind (string_or raw ''color'' ''#C857E7'' 32) (\<lambda>color.
     rbind (optional_bool raw ''profileNetShieldEnabled'' True) (\<lambda>netshield.
     rbind (string_or raw ''profileNatType'' ''strict'' 16) (\<lambda>nat0.
     rbind (optional_bool raw ''profilePortForwardingEnabled'' False) (\<lambda>forwarding0.
     let moderate = (to_ascii_lowercase nat0 = ''moderate'');
         forwarding = (if moderate then False else forwarding0);
         level = min (unwrap_or 2 (get_u64 raw ''profileNetShieldLevel'')) 2 in
     Inr (fold (\<lambda>(k, v). obj_insert k v)
       [(''excludeMyCountry'', JBool exclude), (''iconName'', JStr icon), (''color'', JStr color),
        (''profileNetShieldEnabled'', JBool netshield), (''profileNetShieldLevel'', jnum level),
        (''profileNatType'', JStr (if moderate then ''moderate'' else ''strict'')),
        (''profilePortForwardingEnabled'', JBool forwarding)] profile)))))))"

definition profile_policies :: "jobject \<Rightarrow> jobject \<Rightarrow> jobject backend_res" where
  "profile_policies raw profile =
     rbind (profile_mode raw ''profileCustomDnsMode'' [''inherit'', ''off'', ''custom'']) (\<lambda>dns_mode.
     rbind (profile_dns_servers (obj_get raw ''profileCustomDnsServers'')) (\<lambda>servers.
     if dns_mode = ''custom'' \<and> servers = []
     then fail ''invalid_dns'' ''A custom DNS profile requires at least one DNS server''
     else if dns_mode = ''custom'' \<and> unwrap_or True (get_bool profile ''profileNetShieldEnabled'')
     then fail ''profile_settings_conflict''
            ''Custom DNS and NetShield cannot be enabled in the same profile''
     else rbind (profile_mode raw ''profileLanMode'' [''inherit'', ''allow'', ''block'']) (\<lambda>lan.
     rbind (profile_mode raw ''profileLocalDnsMode'' [''inherit'', ''allow'', ''block'']) (\<lambda>local_dns.
     Inr (fold (\<lambda>(k, v). obj_insert k v)
       [(''profileCustomDnsMode'', JStr dns_mode),
        (''profileCustomDnsServers'', JArr (map JStr servers)),
        (''profileLanMode'', JStr lan), (''profileLocalDnsMode'', JStr local_dns)] profile)))))"

definition profile_connect_and_go :: "jobject \<Rightarrow> jobject \<Rightarrow> jobject backend_res" where
  "profile_connect_and_go raw profile =
     rbind (optional_bool raw ''connectAndGoEnabled'' False) (\<lambda>enabled.
     rbind (string_or raw ''connectAndGoMode'' ''website'' 32) (\<lambda>mode0.
     let mode = to_ascii_lowercase mode0 in
     if mode \<notin> set [''website'', ''application'']
     then fail ''invalid_connect_and_go'' ''Connect and Go mode must be website or application''
     else rbind (string_or raw ''connectAndGoUrl'' [] 2048) (\<lambda>url.
     rbind (string_or raw ''connectAndGoAppId'' [] 255) (\<lambda>app_id.
     rbind (string_or raw ''connectAndGoAppPath'' [] 2048) (\<lambda>app_path.
     if enabled \<and> (mode = ''website'' \<and> url = [] \<or> mode = ''application'' \<and> app_id = [])
     then fail ''invalid_connect_and_go''
            ''Connect and Go requires a website or installed application''
     else rbind (optional_bool raw ''connectAndGoUsePrivateBrowsingMode'' False) (\<lambda>private.
     Inr (fold (\<lambda>(k, v). obj_insert k v)
       [(''connectAndGoEnabled'', JBool enabled), (''connectAndGoMode'', JStr mode),
        (''connectAndGoUrl'', JStr url),
        (''connectAndGoUsePrivateBrowsingMode'', JBool private),
        (''connectAndGoAppId'', JStr app_id), (''connectAndGoAppPath'', JStr app_path)] profile)))))))"

definition normalize_profile ::
  "u64 \<Rightarrow> jobject \<Rightarrow> jobject option \<Rightarrow> string \<Rightarrow> jobject backend_res" where
  "normalize_profile now raw existing i =
     rbind (profile_target raw) (\<lambda>(name, target_kind, strategy, location).
     rbind (string_or raw ''profileProtocol'' ''smart'' 32) (\<lambda>protocol0.
     let protocol = to_ascii_lowercase protocol0;
         protocol' = (if protocol \<in> set supported_protocols then protocol else ''smart'') in
     rbind (profile_settings raw
       (fold (\<lambda>(k, v). obj_insert k v)
         [(''id'', JStr i), (''name'', JStr name), (''targetKind'', JStr target_kind),
          (''selectionStrategy'', JStr strategy), (''profileProtocol'', JStr protocol')] location)) (\<lambda>p1.
     rbind (profile_policies raw p1) (\<lambda>p2.
     rbind (profile_connect_and_go raw p2) (\<lambda>p3.
     Inr (obj_insert ''updatedAtMs'' (jnum now)
           (obj_insert ''createdAtMs'' (jnum (profile_created now raw existing)) p3)))))))"

section \<open>Recents\<close>

definition recent_features :: "string list" where
  "recent_features = [''standard'', ''all'', ''secure_core'', ''p2p'', ''tor'']"

definition normalize_recent :: "jobject \<Rightarrow> jobject backend_res" where
  "normalize_recent raw =
     rbind (required_string raw ''kind'' 32) (\<lambda>kind.
     rbind (insert_strings raw recent_strings (obj_insert ''kind'' (JStr kind) [])) (\<lambda>r1.
     rbind (if kind \<in> set [''country'', ''state'', ''city'']
            then rbind (string_or raw ''feature'' ''standard'' 32) (\<lambda>f0.
                 let f = to_ascii_lowercase f0 in
                 if f \<notin> set recent_features
                 then fail ''invalid_recent_target'' ''Recent location feature is unsupported''
                 else Inr (obj_insert ''feature'' (JStr f) r1))
            else Inr r1) (\<lambda>r2.
     rbind (case obj_get raw ''load'' of
              None \<Rightarrow> Inr r2
            | Some v \<Rightarrow>
                rbind (ok_or (backend_error_new ''invalid_params'' ''load must be an unsigned number'')
                         (as_u64 v))
                  (\<lambda>load. Inr (obj_insert ''load'' (jnum (min load 100)) r2))) (\<lambda>r3.
     if \<not> recent_target_valid kind r3
     then fail ''invalid_recent_target'' ''Recent connection target is incomplete or unsupported''
     else Inr r3))))"

definition recent_key :: "jobject \<Rightarrow> string" where
  "recent_key v =
     (let field = (\<lambda>k. unwrap_or [] (get_str v k)); kind = field ''kind'' in
      if kind = ''profile'' then ''profile:'' @ field ''profileId''
      else if kind = ''gateway'' \<or> kind = ''gatewayServer''
      then join '':'' [kind, field ''gatewayName'', field ''serverName'']
      else join '':'' [kind, unwrap_or ''all'' (get_str v ''feature''), field ''entryCountryCode'',
                       field ''countryCode'', field ''state'', field ''city'', field ''serverName''])"

section \<open>Bounded text\<close>

definition text_ok :: "nat \<Rightarrow> string \<Rightarrow> bool" where
  "text_ok n s \<longleftrightarrow> trimmed s \<and> chars_count s \<le> n
     \<and> (\<forall>c \<in> set s. c \<noteq> CHR 0x00 \<and> c \<noteq> CHR 0x0A \<and> c \<noteq> CHR 0x0D)"

lemma fail_not_Inr [simp]: "fail c m \<noteq> Inr x"
  by (simp add: fail_def)

lemma is_err_fail [simp]: "is_err (fail c m)"
  by (simp add: fail_def)

lemma if_fail [result_simps]: "(if b then fail c m else r) = Inr y \<longleftrightarrow> \<not> b \<and> r = Inr y"
  by auto

lemma text_ok_Nil [simp]: "text_ok n []"
  unfolding text_ok_def using trimmed_trim [of "[]"] by (simp only: trim_Nil) (simp add: chars_count_def)

lemma string_value_text_ok: "string_value v n True = Inr s \<Longrightarrow> text_ok n s"
proof (cases v)
  case (Some j)
  assume "string_value v n True = Inr s"
  with Some obtain r where "s = trim r" "\<not> n < chars_count (trim r)"
    "\<not> (\<exists>c \<in> set (trim r). c = CHR 0x00 \<or> c = CHR 0x0A \<or> c = CHR 0x0D)"
    by (simp add: string_value_def Let_def rbind_Inr ok_or_Inr if_fail) blast
  then show ?thesis by (simp add: text_ok_def)
qed (simp add: string_value_def)

lemma string_valueI: "text_ok n s \<Longrightarrow> string_value (Some (JStr s)) n True = Inr s"
  by (auto simp: string_value_def text_ok_def trim_trimmed Let_def)

lemma required_string_text_ok:
  "required_string m k n = Inr s \<Longrightarrow> s \<noteq> [] \<and> text_ok n s"
  by (auto simp: required_string_def result_simps split: if_splits dest: string_value_text_ok)

lemma required_stringI:
  "get_str m k = Some s \<Longrightarrow> s \<noteq> [] \<Longrightarrow> text_ok n s \<Longrightarrow> required_string m k n = Inr s"
  by (cases "obj_get m k") (auto simp: required_string_def get_str_def as_str_Some string_valueI)

lemma string_or_cases:
  "string_or m k d n = Inr s \<Longrightarrow> s = d \<or> s \<noteq> [] \<and> text_ok n s"
  by (auto simp: string_or_def result_simps split: if_splits dest: string_value_text_ok)

lemma string_or_text_ok: "string_or m k d n = Inr s \<Longrightarrow> text_ok n d \<Longrightarrow> text_ok n s"
  using string_or_cases by blast

lemma string_orI:
  "get_str m k = Some s \<Longrightarrow> s \<noteq> [] \<Longrightarrow> text_ok n s \<Longrightarrow> string_or m k d n = Inr s"
  by (cases "obj_get m k") (auto simp: string_or_def get_str_def as_str_Some string_valueI)

lemma nonempty_cong: "get_str m k = get_str m' k \<Longrightarrow> nonempty m k = nonempty m' k"
  by (simp add: nonempty_def)

section \<open>Identifiers are fresh\<close>

lemma next_sequence_search:
  "\<not> taken (next_sequence fuel s taken) \<or> (\<forall>n \<le> fuel. taken (s + n))"
proof (induction fuel arbitrary: s)
  case (Suc fuel)
  show ?case
  proof (cases "taken s")
    case True
    have "taken (s + n)" if "\<forall>n \<le> fuel. taken (Suc s + n)" "n \<le> Suc fuel" for n
      using that True by (cases n) auto
    with Suc [of "Suc s"] True show ?thesis by auto
  qed simp
qed simp

lemma id_format_inject: "id_format p now m = id_format p now n \<longleftrightarrow> m = n"
  by (simp add: id_format_def)

lemma unique_id_free: "v \<in> set vs \<Longrightarrow> \<not> has_id (unique_id now p vs) v"
proof
  fix v
  assume v: "v \<in> set vs" "has_id (unique_id now p vs) v"
  define taken where "taken = (\<lambda>n. \<exists>v \<in> set vs. has_id (id_format p now n) v)"
  have "taken (next_sequence (length vs) 0 taken)"
    using v unfolding unique_id_def taken_def by blast
  then have all: "\<forall>n \<le> length vs. taken n"
    using next_sequence_search [of taken "length vs" 0] by simp
  have "(\<lambda>n. Some (id_format p now n)) ` {..length vs} \<subseteq> (\<lambda>v. vstr v ''id'') ` set vs"
  proof (rule image_subsetI)
    fix n assume "n \<in> {..length vs}"
    with all obtain v where "v \<in> set vs" "vstr v ''id'' = Some (id_format p now n)"
      by (auto simp: taken_def has_id_def)
    then show "Some (id_format p now n) \<in> (\<lambda>v. vstr v ''id'') ` set vs" by force
  qed
  then have "card ((\<lambda>n. Some (id_format p now n)) ` {..length vs})
      \<le> card ((\<lambda>v. vstr v ''id'') ` set vs)"
    by (intro card_mono) auto
  moreover have "inj_on (\<lambda>n. Some (id_format p now n)) {..length vs}"
    by (auto simp: inj_on_def id_format_inject)
  ultimately have "Suc (length vs) \<le> card (set vs)"
    using card_image_le [of "set vs" "\<lambda>v. vstr v ''id''"] by (simp add: card_image)
  then show False using card_length [of vs] by simp
qed


section \<open>Locales are canonical\<close>

lemma list_all_case [simp]:
  "all_alphabetic (to_ascii_lowercase s) = all_alphabetic s"
  "all_alphabetic (to_ascii_uppercase s) = all_alphabetic s"
  by (simp_all add: all_alphabetic_def to_ascii_lowercase_def to_ascii_uppercase_def list_all_iff)

lemma is_ascii_alphanumeric_case [simp]:
  "is_ascii_alphanumeric (lower_char c) = is_ascii_alphanumeric c"
  "is_ascii_alphanumeric (upper_char c) = is_ascii_alphanumeric c"
  using byte_less [of c]
  by (auto simp: is_ascii_alphanumeric_def is_ascii_digit_def is_ascii_alphabetic_def
      is_ascii_uppercase_def is_ascii_lowercase_def byte_lower_char byte_upper_char)

lemma lower_upper_char [simp]:
  "lower_char (upper_char c) = lower_char c" "upper_char (lower_char c) = upper_char c"
proof -
  have "byte (lower_char (upper_char c)) = byte (lower_char c)"
       "byte (upper_char (lower_char c)) = byte (upper_char c)"
    using byte_less [of c]
    by (auto simp: byte_lower_char byte_upper_char is_ascii_uppercase_def is_ascii_lowercase_def)
  then show "lower_char (upper_char c) = lower_char c" "upper_char (lower_char c) = upper_char c"
    by simp_all
qed

lemma length_canonical_part [simp]: "length (canonical_part p) = length p"
  by (auto simp: canonical_part_def split: list.splits dest: arg_cong [of _ _ length])

lemma canonical_part_cases:
  obtains (country) "length p = 2" "all_alphabetic p" "canonical_part p = to_ascii_uppercase p"
  | (script) c cs where "p = c # cs" "length p = 4" "all_alphabetic p"
      "canonical_part p = upper_char c # to_ascii_lowercase cs"
  | (other) "\<not> (length p = 2 \<and> all_alphabetic p)" "\<not> (length p = 4 \<and> all_alphabetic p)"
      "canonical_part p = to_ascii_lowercase p"
proof -
  consider "length p = 2 \<and> all_alphabetic p" | "length p = 4 \<and> all_alphabetic p"
    | "\<not> (length p = 2 \<and> all_alphabetic p)" "\<not> (length p = 4 \<and> all_alphabetic p)" by blast
  then show thesis
  proof cases
    case 2
    then obtain c cs where "p = c # cs" by (cases p) auto
    with 2 script show thesis
      by (auto simp: canonical_part_def to_ascii_lowercase_def)
  qed (auto simp: canonical_part_def intro: country other)
qed

lemma list_all_canonical_part:
  assumes "\<And>c. P (lower_char c) = P c" "\<And>c. P (upper_char c) = P c"
  shows "list_all P (canonical_part p) = list_all P p"
  by (cases p rule: canonical_part_cases)
    (simp_all add: assms to_ascii_lowercase_def to_ascii_uppercase_def list.pred_map comp_def)

lemma all_alphabetic_canonical [simp]: "all_alphabetic (canonical_part p) = all_alphabetic p"
  by (simp add: all_alphabetic_def list_all_canonical_part)

lemma canonical_part_idem [simp]: "canonical_part (canonical_part p) = canonical_part p"
proof (cases p rule: canonical_part_cases)
  case country
  then show ?thesis by (simp add: canonical_part_def)
next
  case (script c cs)
  have "length (canonical_part p) = 4" "all_alphabetic (canonical_part p)"
    using script(2,3) by (simp_all only: length_canonical_part all_alphabetic_canonical)
  then show ?thesis
    by (subst canonical_part_def) (simp add: script(4) to_ascii_lowercase_def)
next
  case other
  then show ?thesis by (subst canonical_part_def) (auto simp: other(3))
qed

lemma canonical_part_Nil [simp]: "canonical_part p = [] \<longleftrightarrow> p = []"
  by (metis length_0_conv length_canonical_part)

lemma locale_part_valid_canonical [simp]: "locale_part_valid (canonical_part p) = locale_part_valid p"
  by (simp add: locale_part_valid_def list_all_canonical_part)

text \<open>A canonical locale: parts of ASCII letters and digits joined by hyphens.\<close>

definition locale_canonical :: "string \<Rightarrow> bool" where
  "locale_canonical l \<longleftrightarrow> length l \<le> 35 \<and>
     (\<exists>p ps. l = join ''-'' (p # ps) \<and> 2 \<le> length p \<and> length p \<le> 8 \<and> all_alphabetic p
        \<and> to_ascii_lowercase p = p \<and> list_all locale_part_valid ps \<and> map canonical_part ps = ps)"

lemma length_join: "length (join ''-'' ps) = sum_list (map length ps) + (length ps - 1)"
  by (induction "''-''" ps rule: join.induct) auto

lemma locale_value_canonical: "locale_value v = Inr l \<Longrightarrow> locale_canonical l"
proof -
  assume a: "locale_value v = Inr l"
  define raw where
    "raw = replace_char (CHR ''_'') (CHR ''-'') (trim (unwrap_or [] (Option.bind v as_str)))"
  obtain p ps where parts: "split_on (CHR ''-'') raw = p # ps"
    by (cases "split_on (CHR ''-'') raw") auto
  have v: "length raw \<le> 35" "2 \<le> length p" "length p \<le> 8" "all_alphabetic p"
    "list_all locale_part_valid ps" "l = join ''-'' (to_ascii_lowercase p # map canonical_part ps)"
    using a parts unfolding locale_value_def Let_def raw_def [symmetric] by (auto simp: if_fail)
  have "raw = join ''-'' (p # ps)" using join_split_on [of "CHR ''-''" raw] parts by simp
  then have "length l \<le> 35"
    using v by (simp add: length_join comp_def)
  with v show ?thesis
    unfolding locale_canonical_def
    by (intro conjI exI [of _ "to_ascii_lowercase p"] exI [of _ "map canonical_part ps"])
      (simp_all add: list_all_iff comp_def)
qed

lemma alnum_not: "is_ascii_alphanumeric c \<Longrightarrow> c \<noteq> CHR ''-'' \<and> c \<noteq> CHR ''_''"
  by (auto simp: is_ascii_alphanumeric_def is_ascii_alphabetic_def is_ascii_uppercase_def
      is_ascii_lowercase_def is_ascii_digit_def)

lemma set_join: "set (join sep ps) \<subseteq> \<Union> (set ` set ps) \<union> set sep"
  by (induction sep ps rule: join.induct) auto


lemma white_space_bytes: "\<forall>w \<in> set white_space. \<exists>b \<in> set w. \<not> (32 < b \<and> b < 128)"
  unfolding white_space_def by simp

lemma graphic_trimmed:
  assumes "\<forall>c \<in> set s. 32 < byte c \<and> byte c < 128" shows "trimmed s"
proof -
  have "\<not> is_ws_char t" if "set t \<subseteq> set s" for t
  proof
    assume "is_ws_char t"
    then have "\<exists>b \<in> set (map byte t). \<not> (32 < b \<and> b < 128)"
      using white_space_bytes unfolding is_ws_char_def by blast
    with that assms show False by auto
  qed
  then show ?thesis
    unfolding trimmed_def ws_front_def ws_back_def find_None_iff
    using set_take_subset [of _ s] set_drop_subset [of _ s] by blast
qed

lemma locale_canonical_fixpoint: "locale_canonical l \<Longrightarrow> locale_value (Some (JStr l)) = Inr l"
proof -
  assume "locale_canonical l"
  then obtain p ps where l: "l = join ''-'' (p # ps)" "length l \<le> 35" "2 \<le> length p" "length p \<le> 8"
    "all_alphabetic p" "to_ascii_lowercase p = p" "list_all locale_part_valid ps"
    "map canonical_part ps = ps"
    by (auto simp: locale_canonical_def)
  have alnum: "is_ascii_alphanumeric c" if "q \<in> set (p # ps)" "c \<in> set q" for q c
    using that l by (auto simp: list_all_iff locale_part_valid_def all_alphabetic_def
        is_ascii_alphanumeric_def)
  have chars: "is_ascii_alphanumeric c \<or> c = CHR ''-''" if "c \<in> set l" for c
    using that set_join [of "''-''" "p # ps"] alnum unfolding l(1) by auto
  have "trim l = l"
    using chars
    by (intro trim_trimmed graphic_trimmed)
      (force simp: is_ascii_alphanumeric_def is_ascii_alphabetic_def is_ascii_uppercase_def
        is_ascii_lowercase_def is_ascii_digit_def)
  moreover have "replace_char (CHR ''_'') (CHR ''-'') l = l"
    unfolding replace_char_def using chars alnum_not by (intro map_idI) auto
  moreover have "split_on (CHR ''-'') l = p # ps"
    unfolding l(1) by (rule split_on_join) (use alnum alnum_not in auto)
  moreover have "l \<noteq> []" using l by (cases ps) auto
  ultimately show ?thesis using l by (simp add: locale_value_def Let_def)
qed

section \<open>Profiles are well formed\<close>

lemma insert_string_frame: "insert_string src k n up t = Inr t' \<Longrightarrow> k' \<noteq> k \<Longrightarrow> obj_get t' k' = obj_get t k'"
  by (auto simp: insert_string_def result_simps split: if_splits)

lemma insert_strings_frame:
  "insert_strings src ks t = Inr t' \<Longrightarrow> k' \<notin> fst ` set ks \<Longrightarrow> obj_get t' k' = obj_get t k'"
  by (induction src ks t rule: insert_strings.induct)
    (auto simp: result_simps dest: insert_string_frame)

lemma insert_strings_get_str:
  "insert_strings src ks t = Inr t' \<Longrightarrow> k' \<notin> fst ` set ks \<Longrightarrow> get_str t' k' = get_str t k'"
  by (simp add: get_str_def insert_strings_frame)

lemma profile_dns_server_ok: "profile_dns_server v = Inr (Some s) \<Longrightarrow> \<exists>a. ip_wf a \<and> s = show_ip a"
  by (auto simp: profile_dns_server_def result_simps split: if_splits option.splits dest: parse_ip_wf)

lemma profile_dns_servers_ok:
  assumes "profile_dns_servers v = Inr servers"
  shows "distinct servers \<and> length servers \<le> 16 \<and> (\<forall>s \<in> set servers. \<exists>a. ip_wf a \<and> s = show_ip a)"
proof (cases v)
  case (Some j)
  have "profile_dns_servers (Some j) = Inr servers" using assms Some by simp
  then obtain vs xs where vs: "as_array j = Some vs" "\<not> 16 < length vs"
    "traverse profile_dns_server vs = Inr xs"
    "servers = dedup_by (\<lambda>x. x) [] (List.map_filter (\<lambda>x. x) xs)"
    by (auto simp only: profile_dns_servers_def option.case rbind_Inr ok_or_Inr if_fail sum.inject)
  have "length (List.map_filter (\<lambda>x. x) xs) \<le> length xs" by (simp add: List.map_filter_def)
  then have "length servers \<le> length xs"
    unfolding vs(4) by (rule order_trans [OF length_dedup_by])
  moreover have "\<exists>a. ip_wf a \<and> s = show_ip a" if "s \<in> set servers" for s
  proof -
    from that have "s \<in> set (List.map_filter (\<lambda>x. x) xs)"
      unfolding vs(4) by (rule subsetD [OF dedup_by_subset])
    then have "Some s \<in> set xs" by (auto simp: List.map_filter_def)
    then obtain v where "profile_dns_server v = Inr (Some s)"
      by (auto dest: traverse_set [OF vs(3)])
    then show ?thesis by (rule profile_dns_server_ok)
  qed
  moreover have dist: "distinct servers"
    using dedup_by_distinct [of "\<lambda>x. x" "[]" "List.map_filter (\<lambda>x. x) xs"] vs(4) by simp
  ultimately show ?thesis
    using vs(2) traverse_length [OF vs(3)] by (intro conjI ballI) simp_all
qed (use assms in \<open>simp add: profile_dns_servers_def\<close>)

text \<open>What a stored profile promises, section by section.\<close>

definition profile_target_ok :: "string \<Rightarrow> jobject \<Rightarrow> bool" where
  "profile_target_ok i p \<longleftrightarrow>
     get_str p ''id'' = Some i
     \<and> (\<exists>name. get_str p ''name'' = Some name \<and> name \<noteq> [] \<and> text_ok 60 name)
     \<and> (\<exists>kind. get_str p ''targetKind'' = Some kind \<and> kind \<noteq> [] \<and> text_ok 32 kind
          \<and> profile_target_valid kind p)
     \<and> get_str p ''selectionStrategy'' \<in> {Some ''fastest'', Some ''random''}"

definition profile_settings_ok :: "jobject \<Rightarrow> bool" where
  "profile_settings_ok p \<longleftrightarrow>
     (\<exists>protocol \<in> set supported_protocols. get_str p ''profileProtocol'' = Some protocol)
     \<and> (\<exists>level. get_u64 p ''profileNetShieldLevel'' = Some level \<and> level \<le> 2)
     \<and> get_str p ''profileNatType'' \<in> {Some ''moderate'', Some ''strict''}
     \<and> (get_str p ''profileNatType'' = Some ''moderate''
          \<longrightarrow> get_bool p ''profilePortForwardingEnabled'' = Some False)"

definition profile_dns_ok :: "jobject \<Rightarrow> bool" where
  "profile_dns_ok p \<longleftrightarrow>
     (\<exists>servers. obj_get p ''profileCustomDnsServers'' = Some (JArr (map JStr servers))
        \<and> distinct servers \<and> length servers \<le> 16
        \<and> (\<forall>s \<in> set servers. \<exists>a. ip_wf a \<and> s = show_ip a)
        \<and> (get_str p ''profileCustomDnsMode'' = Some ''custom'' \<longrightarrow>
             servers \<noteq> [] \<and> get_bool p ''profileNetShieldEnabled'' = Some False))"

definition profile_launch_ok :: "jobject \<Rightarrow> bool" where
  "profile_launch_ok p \<longleftrightarrow>
     get_bool p ''connectAndGoEnabled'' = Some True \<longrightarrow>
       (get_str p ''connectAndGoMode'' = Some ''website''
          \<and> (\<exists>url. get_str p ''connectAndGoUrl'' = Some url \<and> url \<noteq> []))
     \<or> (get_str p ''connectAndGoMode'' = Some ''application''
          \<and> (\<exists>app. get_str p ''connectAndGoAppId'' = Some app \<and> app \<noteq> []))"

definition profile_ok :: "string \<Rightarrow> jobject \<Rightarrow> bool" where
  "profile_ok i p \<longleftrightarrow>
     profile_target_ok i p \<and> profile_settings_ok p \<and> profile_dns_ok p \<and> profile_launch_ok p"

lemma profile_target_facts:
  assumes "profile_target raw = Inr (name, kind, strategy, location)"
  shows "name \<noteq> []" "text_ok 60 name" "kind \<noteq> []" "text_ok 32 kind"
    "strategy \<in> {''fastest'', ''random''}" "profile_target_valid kind location"
    "insert_strings raw profile_strings [] = Inr location"
proof -
  have e: "text_ok 32 ''fastest''"
    by (auto simp: text_ok_def chars_count_def is_continuation_def intro!: graphic_trimmed)
  obtain k where k: "string_or raw ''targetKind'' ''fastest'' 32 = Inr k" "k = kind"
    "required_string raw ''name'' 60 = Inr name"
    "strategy \<in> {''fastest'', ''random''}" "profile_target_valid kind location"
    "insert_strings raw profile_strings [] = Inr location"
    using assms by (auto simp: profile_target_def rbind_Inr if_fail)
  show "name \<noteq> []" "text_ok 60 name" using required_string_text_ok [OF k(3)] by simp_all
  show "kind \<noteq> []" "text_ok 32 kind" using string_or_cases [OF k(1)] e k(2) by auto
  show "strategy \<in> {''fastest'', ''random''}" "profile_target_valid kind location"
    "insert_strings raw profile_strings [] = Inr location" using k by simp_all
qed

lemma profile_target_valid_cong:
  assumes "\<And>k. k \<in> fst ` set profile_strings \<Longrightarrow> get_str m k = get_str m' k"
  shows "profile_target_valid kind m = profile_target_valid kind m'"
proof -
  have "nonempty m k = nonempty m' k" if "k \<in> fst ` set profile_strings" for k
    using assms [OF that] by (rule nonempty_cong)
  then show ?thesis by (simp add: profile_target_valid_def profile_strings_def)
qed

text \<open>Each section of \<open>normalize_profile\<close> writes its own members and leaves the others alone.\<close>

lemma fold_insert_frame:
  "k \<notin> fst ` set kvs \<Longrightarrow> obj_get (fold (\<lambda>(k, v). obj_insert k v) kvs m) k = obj_get m k"
  by (induction kvs arbitrary: m) auto

lemma profile_settings_writes:
  assumes "profile_settings raw p = Inr p'"
  obtains exclude icon color netshield moderate forwarding level where
    "level \<le> 2" "moderate \<longrightarrow> \<not> forwarding"
    "p' = fold (\<lambda>(k, v). obj_insert k v)
       [(''excludeMyCountry'', JBool exclude), (''iconName'', JStr icon), (''color'', JStr color),
        (''profileNetShieldEnabled'', JBool netshield), (''profileNetShieldLevel'', jnum level),
        (''profileNatType'', JStr (if moderate then ''moderate'' else ''strict'')),
        (''profilePortForwardingEnabled'', JBool forwarding)] p"
proof -
  from assms obtain exclude icon color netshield nat0 forwarding where
    "p' = fold (\<lambda>(k, v). obj_insert k v)
       [(''excludeMyCountry'', JBool exclude), (''iconName'', JStr icon), (''color'', JStr color),
        (''profileNetShieldEnabled'', JBool netshield),
        (''profileNetShieldLevel'', jnum (min (unwrap_or 2 (get_u64 raw ''profileNetShieldLevel'')) 2)),
        (''profileNatType'', JStr (if to_ascii_lowercase nat0 = ''moderate'' then ''moderate'' else ''strict'')),
        (''profilePortForwardingEnabled'',
          JBool (if to_ascii_lowercase nat0 = ''moderate'' then False else forwarding))] p"
    unfolding profile_settings_def Let_def by (auto simp only: rbind_Inr sum.inject)
  from that [OF _ _ this] show thesis by (simp only: min.cobounded2) simp
qed

lemma profile_policies_writes:
  assumes "profile_policies raw p = Inr p'"
  obtains mode servers lan dns where
    "profile_dns_servers (obj_get raw ''profileCustomDnsServers'') = Inr servers"
    "mode = ''custom'' \<longrightarrow> servers \<noteq> [] \<and> \<not> unwrap_or True (get_bool p ''profileNetShieldEnabled'')"
    "p' = fold (\<lambda>(k, v). obj_insert k v)
       [(''profileCustomDnsMode'', JStr mode), (''profileCustomDnsServers'', JArr (map JStr servers)),
        (''profileLanMode'', JStr lan), (''profileLocalDnsMode'', JStr dns)] p"
proof -
  from assms obtain mode servers lan dns where
    "profile_dns_servers (obj_get raw ''profileCustomDnsServers'') = Inr servers"
    "\<not> (mode = ''custom'' \<and> servers = [])"
    "\<not> (mode = ''custom'' \<and> unwrap_or True (get_bool p ''profileNetShieldEnabled''))"
    "p' = fold (\<lambda>(k, v). obj_insert k v)
       [(''profileCustomDnsMode'', JStr mode), (''profileCustomDnsServers'', JArr (map JStr servers)),
        (''profileLanMode'', JStr lan), (''profileLocalDnsMode'', JStr dns)] p"
    unfolding profile_policies_def by (auto simp only: rbind_Inr if_fail sum.inject)
  from that [OF this(1) _ this(4)] this(2,3) show thesis by blast
qed

lemma profile_connect_and_go_writes:
  assumes "profile_connect_and_go raw p = Inr p'"
  obtains enabled mode url priv app_id path where
    "mode = ''website'' \<or> mode = ''application''"
    "enabled \<longrightarrow> (mode = ''website'' \<longrightarrow> url \<noteq> []) \<and> (mode = ''application'' \<longrightarrow> app_id \<noteq> [])"
    "p' = fold (\<lambda>(k, v). obj_insert k v)
       [(''connectAndGoEnabled'', JBool enabled), (''connectAndGoMode'', JStr mode),
        (''connectAndGoUrl'', JStr url), (''connectAndGoUsePrivateBrowsingMode'', JBool priv),
        (''connectAndGoAppId'', JStr app_id), (''connectAndGoAppPath'', JStr path)] p"
proof -
  from assms obtain enabled mode0 url priv app_id path where
    "to_ascii_lowercase mode0 \<in> set [''website'', ''application'']"
    "\<not> (enabled \<and> (to_ascii_lowercase mode0 = ''website'' \<and> url = []
        \<or> to_ascii_lowercase mode0 = ''application'' \<and> app_id = []))"
    "p' = fold (\<lambda>(k, v). obj_insert k v)
       [(''connectAndGoEnabled'', JBool enabled), (''connectAndGoMode'', JStr (to_ascii_lowercase mode0)),
        (''connectAndGoUrl'', JStr url), (''connectAndGoUsePrivateBrowsingMode'', JBool priv),
        (''connectAndGoAppId'', JStr app_id), (''connectAndGoAppPath'', JStr path)] p"
    unfolding profile_connect_and_go_def Let_def
    by (simp only: rbind_Inr if_fail sum.inject not_not) blast
  from that [OF _ _ this(3)] this(1,2) show thesis by auto
qed

lemma normalize_profile_parts:
  assumes "normalize_profile now raw existing i = Inr p"
  obtains name kind strategy location protocol p0 p1 p2 p3 where
    "profile_target raw = Inr (name, kind, strategy, location)"
    "protocol \<in> set supported_protocols"
    "p0 = fold (\<lambda>(k, v). obj_insert k v)
         [(''id'', JStr i), (''name'', JStr name), (''targetKind'', JStr kind),
          (''selectionStrategy'', JStr strategy), (''profileProtocol'', JStr protocol)] location"
    "profile_settings raw p0 = Inr p1" "profile_policies raw p1 = Inr p2"
    "profile_connect_and_go raw p2 = Inr p3"
    "p = obj_insert ''updatedAtMs'' (jnum now)
           (obj_insert ''createdAtMs'' (jnum (profile_created now raw existing)) p3)"
proof -
  have sup: "(if q \<in> set supported_protocols then q else ''smart'') \<in> set supported_protocols" for q
    by (simp add: supported_protocols_def)
  from assms obtain name kind strategy location where
    t: "profile_target raw = Inr (name, kind, strategy, location)"
    by (cases "profile_target raw") (auto simp: normalize_profile_def)
  from assms show thesis
    unfolding normalize_profile_def t rbind.simps prod.case Let_def
    apply (simp only: rbind_Inr sum.inject)
    apply (elim exE conjE)
    apply (rule that [OF t sup refl])
       apply assumption+
    apply (erule sym)
    done
qed

lemma normalize_profile_ok:
  assumes "normalize_profile now raw existing i = Inr p"
  shows "profile_ok i p"
proof -
  obtain name kind strategy location protocol p0 p1 p2 p3 where n:
    "profile_target raw = Inr (name, kind, strategy, location)"
    "protocol \<in> set supported_protocols"
    "p0 = fold (\<lambda>(k, v). obj_insert k v)
         [(''id'', JStr i), (''name'', JStr name), (''targetKind'', JStr kind),
          (''selectionStrategy'', JStr strategy), (''profileProtocol'', JStr protocol)] location"
    "profile_settings raw p0 = Inr p1" "profile_policies raw p1 = Inr p2"
    "profile_connect_and_go raw p2 = Inr p3"
    "p = obj_insert ''updatedAtMs'' (jnum now)
           (obj_insert ''createdAtMs'' (jnum (profile_created now raw existing)) p3)"
    by (rule normalize_profile_parts [OF assms])
  note t = profile_target_facts [OF n(1)]
  obtain exclude icon color netshield moderate forwarding level where s:
    "level \<le> 2" "moderate \<longrightarrow> \<not> forwarding" and p1: "p1 = fold (\<lambda>(k, v). obj_insert k v)
       [(''excludeMyCountry'', JBool exclude), (''iconName'', JStr icon), (''color'', JStr color),
        (''profileNetShieldEnabled'', JBool netshield), (''profileNetShieldLevel'', jnum level),
        (''profileNatType'', JStr (if moderate then ''moderate'' else ''strict'')),
        (''profilePortForwardingEnabled'', JBool forwarding)] p0"
    by (rule profile_settings_writes [OF n(4)])
  obtain mode servers lan dns where d:
    "profile_dns_servers (obj_get raw ''profileCustomDnsServers'') = Inr servers"
    "mode = ''custom'' \<longrightarrow> servers \<noteq> [] \<and> \<not> unwrap_or True (get_bool p1 ''profileNetShieldEnabled'')"
    and p2: "p2 = fold (\<lambda>(k, v). obj_insert k v)
       [(''profileCustomDnsMode'', JStr mode), (''profileCustomDnsServers'', JArr (map JStr servers)),
        (''profileLanMode'', JStr lan), (''profileLocalDnsMode'', JStr dns)] p1"
    by (rule profile_policies_writes [OF n(5)])
  obtain enabled gmode url priv app_id path where g:
    "gmode = ''website'' \<or> gmode = ''application''"
    "enabled \<longrightarrow> (gmode = ''website'' \<longrightarrow> url \<noteq> []) \<and> (gmode = ''application'' \<longrightarrow> app_id \<noteq> [])"
    and p3: "p3 = fold (\<lambda>(k, v). obj_insert k v)
       [(''connectAndGoEnabled'', JBool enabled), (''connectAndGoMode'', JStr gmode),
        (''connectAndGoUrl'', JStr url), (''connectAndGoUsePrivateBrowsingMode'', JBool priv),
        (''connectAndGoAppId'', JStr app_id), (''connectAndGoAppPath'', JStr path)] p2"
    by (rule profile_connect_and_go_writes [OF n(6)])
  note writes = n(7) p3 p2 p1 n(3)
  have loc: "get_str p k = get_str location k" if "k \<in> fst ` set profile_strings" for k
  proof -
    have "k \<in> {''countryCode'', ''countryName'', ''entryCountryCode'', ''entryCountryName'', ''state'',
        ''city'', ''serverName'', ''gatewayName''}"
      using that by (simp add: profile_strings_def)
    then show ?thesis unfolding writes by (elim insertE emptyE) simp_all
  qed
  have t1: "get_str p ''id'' = Some i" "get_str p ''name'' = Some name"
    "get_str p ''targetKind'' = Some kind" "get_str p ''selectionStrategy'' = Some strategy"
    unfolding writes by simp_all
  have "profile_target_ok i p"
    unfolding profile_target_ok_def t1
    using t(1-6) profile_target_valid_cong [of p location kind, OF loc] by simp
  moreover
  have s1: "get_str p ''profileProtocol'' = Some protocol"
    "get_u64 p ''profileNetShieldLevel'' = Some level"
    "get_str p ''profileNatType'' = Some (if moderate then ''moderate'' else ''strict'')"
    "get_bool p ''profilePortForwardingEnabled'' = Some forwarding"
    unfolding writes by simp_all
  have "profile_settings_ok p" unfolding profile_settings_ok_def s1 using s n(2) by simp
  moreover
  have d1: "obj_get p ''profileCustomDnsServers'' = Some (JArr (map JStr servers))"
    "get_str p ''profileCustomDnsMode'' = Some mode"
    "get_bool p ''profileNetShieldEnabled'' = Some netshield"
    "get_bool p1 ''profileNetShieldEnabled'' = Some netshield"
    unfolding writes by simp_all
  have "profile_dns_ok p"
    unfolding profile_dns_ok_def d1 using profile_dns_servers_ok [OF d(1)] d(2) d1(4)
    by (intro exI [of _ servers]) simp
  moreover
  have g1: "get_bool p ''connectAndGoEnabled'' = Some enabled" "get_str p ''connectAndGoMode'' = Some gmode"
    "get_str p ''connectAndGoUrl'' = Some url" "get_str p ''connectAndGoAppId'' = Some app_id"
    unfolding writes by simp_all
  have "profile_launch_ok p" unfolding profile_launch_ok_def g1 using g by auto
  ultimately show ?thesis unfolding profile_ok_def by blast
qed

section \<open>Properties\<close>

text \<open>
  Locale tags are canonical: whatever \<open>locale_value\<close> accepts it turns into a tag of at most 35
  bytes that it accepts again unchanged, so storing a locale and validating it on the next start
  cannot change or reject it.
\<close>

theorem locale_value_canonicalizes:
  assumes "locale_value v = Inr l"
  shows "locale_value (Some (JStr l)) = Inr l \<and> length l \<le> 35"
  using locale_canonical_fixpoint [OF locale_value_canonical [OF assms]]
    locale_value_canonical [OF assms]
  by (simp add: locale_canonical_def)

theorem locale_value_canonicalizes_witness:
  "locale_value (Some (JStr ''zh_hant-tw'')) = Inr ''zh-Hant-TW'' \<and>
   locale_value (Some (JStr ''zh-Hant-TW'')) = Inr ''zh-Hant-TW''"
proof -
  have a: "locale_value (Some (JStr ''zh_hant-tw'')) = Inr ''zh-Hant-TW''" by code_simp
  show ?thesis using a locale_value_canonicalizes [OF a] by simp
qed

text \<open>
  A profile that passes \<open>normalize_profile\<close> keeps the rules of the connection settings: it has the
  requested id, a non-blank name of at most 60 characters and a complete target; its protocol is
  supported and its NetShield level at most 2; moderate NAT excludes port forwarding; its DNS
  servers are at most 16 distinct printed IP addresses, and custom DNS has a server and no
  NetShield; and an enabled Connect and Go has something to open.
\<close>

theorem normalized_profile_keeps_rules:
  assumes "normalize_profile now raw existing i = Inr p"
  shows "profile_ok i p"
  using assms by (rule normalize_profile_ok)

definition dns_profile :: jobject where
  "dns_profile =
     obj_of [(''name'', JStr '' Work ''), (''targetKind'', JStr ''country''), (''countryCode'', JStr ''ch''),
       (''profileNetShieldEnabled'', JBool False), (''profileNatType'', JStr ''Moderate''),
       (''profilePortForwardingEnabled'', JBool True), (''profileCustomDnsMode'', JStr ''custom''),
       (''profileCustomDnsServers'', JArr [JStr ''9.9.9.9'', JStr '' 9.9.9.9'', JStr ''1.1.1.1''])]"

theorem normalized_profile_keeps_rules_witness:
  "\<exists>p. normalize_profile 7 dns_profile None ''p1'' = Inr p \<and> profile_ok ''p1'' p
     \<and> get_bool p ''profilePortForwardingEnabled'' = Some False"
proof -
  have "\<not> is_err (normalize_profile 7 dns_profile None ''p1'')"
    "get_bool (unwrap_or [] (result_ok (normalize_profile 7 dns_profile None ''p1'')))
       ''profilePortForwardingEnabled'' = Some False"
    by code_simp+
  then obtain p where p: "normalize_profile 7 dns_profile None ''p1'' = Inr p"
    "get_bool p ''profilePortForwardingEnabled'' = Some False"
    by (cases "normalize_profile 7 dns_profile None ''p1''") auto
  then show ?thesis using normalized_profile_keeps_rules [OF p(1)] by blast
qed

end
