(* ===== verification/Store_Core.thy ===== *)
theory Store_Core
  imports Store_Values
begin

text \<open>
  The canonical store of \<^verbatim>\<open>agent/src/store.rs\<close> in memory: the document \<open>StoreFile\<close> with its accounts, the
  operations on profiles, recents, the default connection, the preferences and the excluded
  locations, connection resolution, the seeding of the default profiles and the import of the
  legacy document. A mutation takes the document and the request parameters and returns the
  document it leaves behind together with its result: the Rust closures work on
  \<open>&mut StoreFile\<close>, so a mutation that fails half way leaves its first assignments in place. The
  readings of \<open>now_ms()\<close> that one request makes are the values of a clock function.
\<close>

section \<open>The document\<close>

record onboarding =
  ob_complete :: bool
  ob_locale :: string
  ob_start_with_omarchy :: bool
  ob_auto_connect :: bool
  ob_notifications_enabled :: bool
  ob_port_forwarding_notifications_enabled :: bool

definition onboarding_default :: onboarding where
  "onboarding_default =
     \<lparr>ob_complete = False, ob_locale = ''en'', ob_start_with_omarchy = True,
      ob_auto_connect = False, ob_notifications_enabled = True,
      ob_port_forwarding_notifications_enabled = True\<rparr>"

record migration_state =
  mg_legacy_qt_store_imported :: bool
  mg_copied_to_account_keys :: "string list"
  mg_official_seeded :: "string list"
  mg_fastest_seeded :: "string list"

definition migration_state_default :: migration_state where
  "migration_state_default =
     \<lparr>mg_legacy_qt_store_imported = False, mg_copied_to_account_keys = [],
      mg_official_seeded = [], mg_fastest_seeded = []\<rparr>"

record excluded_location =
  el_kind :: string
  el_country_code :: string
  el_state :: string
  el_city :: string

record account_store =
  ac_profiles :: "json list"
  ac_recents :: "json list"
  ac_excluded_locations :: "excluded_location list"
  ac_default_connection :: json
  ac_ui_preferences :: json

definition fastest_default_connection :: json where
  "fastest_default_connection = jobj [(''type'', JStr ''fastest'')]"

definition account_store_default :: account_store where
  "account_store_default =
     \<lparr>ac_profiles = [], ac_recents = [], ac_excluded_locations = [],
      ac_default_connection = fastest_default_connection, ac_ui_preferences = jobj []\<rparr>"

record store_file =
  sf_version :: u32
  sf_revision :: u64
  sf_onboarding :: onboarding
  sf_active_account_key :: "string option"
  sf_accounts :: "(string \<times> account_store) list"
  sf_migration :: migration_state

definition STORE_VERSION :: u32 where "STORE_VERSION = 1"
definition MAX_STORE_BYTES :: nat where "MAX_STORE_BYTES = 1024 * 1024"
definition MAX_PROFILES :: nat where "MAX_PROFILES = 128"
definition MAX_EXCLUDED_LOCATIONS :: nat where "MAX_EXCLUDED_LOCATIONS = 256"
definition MAX_UNPINNED_RECENTS :: nat where "MAX_UNPINNED_RECENTS = 6"
definition MAX_PAGE_SIZE :: nat where "MAX_PAGE_SIZE = 100"
definition LEGACY_SCOPE :: string where "LEGACY_SCOPE = ''legacy-unscoped''"

definition OFFICIAL_DEFAULT_PROFILE_IDS :: "string list" where
  "OFFICIAL_DEFAULT_PROFILE_IDS =
     [''proton-default-streaming-v1'', ''proton-default-gaming-v1'', ''proton-default-p2p-v1'',
      ''proton-default-max-security-v1'', ''proton-default-work-school-v1'',
      ''proton-default-random-v1'']"

definition FASTEST_DEFAULT_PROFILE_ID :: string where
  "FASTEST_DEFAULT_PROFILE_ID = ''proton-default-fastest-v1''"

definition store_file_default :: store_file where
  "store_file_default =
     \<lparr>sf_version = STORE_VERSION, sf_revision = 0, sf_onboarding = onboarding_default,
      sf_active_account_key = None, sf_accounts = [], sf_migration = migration_state_default\<rparr>"

type_synonym clock = "nat \<Rightarrow> u64"
type_synonym mutation = "store_file \<Rightarrow> store_file \<times> json backend_res"

section \<open>Accounts\<close>

definition account_ref :: "store_file \<Rightarrow> account_store" where
  "account_ref data =
     (case Option.bind (sf_active_account_key data) (obj_get (sf_accounts data)) of
        Some a \<Rightarrow> a
      | None \<Rightarrow> unwrap_or account_store_default (obj_get (sf_accounts data) LEGACY_SCOPE))"

definition account_key :: "store_file \<Rightarrow> string" where
  "account_key data = unwrap_or LEGACY_SCOPE (sf_active_account_key data)"

text \<open>\<open>account_mut\<close> creates the entry when it is missing; the borrow is the continuation.\<close>

definition account_mut :: "store_file \<Rightarrow> (account_store \<Rightarrow> account_store \<times> 'a) \<Rightarrow> store_file \<times> 'a" where
  "account_mut data f =
     (let key = account_key data;
          (account, result) = f (unwrap_or account_store_default (obj_get (sf_accounts data) key)) in
      (data\<lparr>sf_accounts := obj_insert key account (sf_accounts data)\<rparr>, result))"

text \<open>\<open>?\<close> in a function that holds a mutable reference: the error leaves the state as it is.\<close>

fun bail :: "'s \<Rightarrow> 'a backend_res \<Rightarrow> ('a \<Rightarrow> 's \<times> 'b backend_res) \<Rightarrow> 's \<times> 'b backend_res" where
  "bail s (Inl e) f = (s, Inl e)"
| "bail s (Inr x) f = f x"

section \<open>Default connection\<close>

definition normalize_default :: "jobject \<Rightarrow> account_store \<Rightarrow> json backend_res" where
  "normalize_default selection account =
     rbind (string_or selection ''type'' ''fastest'' 32) (\<lambda>kind.
     if kind \<in> set [''fastest'', ''random'', ''last''] then Inr (jobj [(''type'', JStr kind)])
     else if kind = ''recent''
     then rbind (required_string selection ''recentId'' 128) (\<lambda>i.
            if \<exists>v \<in> set (ac_recents account). has_id i v
            then Inr (jobj [(''type'', JStr ''recent''), (''recentId'', JStr i)])
            else fail ''recent_not_found'' ''Default recent connection was not found'')
     else if kind = ''profile''
     then rbind (required_string selection ''profileId'' 128) (\<lambda>i.
            if \<exists>v \<in> set (ac_profiles account). has_id i v
            then Inr (jobj [(''type'', JStr ''profile''), (''profileId'', JStr i)])
            else fail ''profile_not_found'' ''Default profile was not found'')
     else fail ''invalid_default_connection'' ''Unsupported default connection type'')"

definition validate_default :: "account_store \<Rightarrow> account_store" where
  "validate_default account =
     account\<lparr>ac_default_connection :=
       unwrap_or fastest_default_connection
         (Option.bind (as_object (ac_default_connection account))
           (\<lambda>selection. result_ok (normalize_default selection account)))\<rparr>"

definition set_default_connection :: "json \<Rightarrow> mutation" where
  "set_default_connection params data =
     bail data (rbind (object_params params) (\<lambda>m.
       ok_or (backend_error_new ''invalid_params'' ''selection must be an object'')
         (Option.bind (obj_get m ''selection'') as_object))) (\<lambda>selection.
     account_mut data (\<lambda>account.
       bail account (normalize_default selection account) (\<lambda>d.
         (account\<lparr>ac_default_connection := d\<rparr>, Inr (jobj [(''default_connection'', d)])))))"

definition repair_default_connections :: "store_file \<Rightarrow> store_file \<times> bool" where
  "repair_default_connections data =
     (let accounts = map (\<lambda>(k, a). (k, validate_default a)) (sf_accounts data) in
      (data\<lparr>sf_accounts := accounts\<rparr>,
       \<exists>(k, a) \<in> set (sf_accounts data).
         ac_default_connection (validate_default a) \<noteq> ac_default_connection a))"

section \<open>Preferences and excluded locations\<close>

definition excluded_key :: "excluded_location \<Rightarrow> string" where
  "excluded_key l =
     join '':'' [el_kind l, el_country_code l, to_ascii_lowercase (el_state l),
               to_ascii_lowercase (el_city l)]"

text \<open>One item of the request, before deduplication.\<close>

definition excluded_item :: "json \<Rightarrow> excluded_location backend_res" where
  "excluded_item item =
     rbind (ok_or (backend_error_new ''invalid_params'' ''Each excluded location must be an object'')
              (as_object item)) (\<lambda>m.
     rbind (required_string m ''kind'' 16) (\<lambda>kind0.
     let kind = to_ascii_lowercase kind0 in
     if kind \<notin> set [''country'', ''state'', ''city'']
     then fail ''invalid_excluded_location'' ''Excluded location kind must be country, state or city''
     else rbind (required_string m ''country_code'' 2) (\<lambda>country.
     if length country \<noteq> 2 \<or> \<not> all_alphabetic country
     then fail ''invalid_excluded_location'' ''Excluded locations require a two-letter country code''
     else rbind (string_value (obj_get m ''state'') 128 True) (\<lambda>state.
     rbind (string_value (obj_get m ''city'') 128 True) (\<lambda>city.
     if kind = ''state'' \<and> state = [] \<or> kind = ''city'' \<and> city = []
     then fail ''invalid_excluded_location''
            ''Excluded state and city entries require their location name''
     else Inr \<lparr>el_kind = kind, el_country_code = to_ascii_uppercase country,
               el_state = state, el_city = city\<rparr>)))))"

definition excluded_location_json :: "excluded_location \<Rightarrow> json" where
  "excluded_location_json l =
     jobj [(''kind'', JStr (el_kind l)), (''country_code'', JStr (el_country_code l)),
           (''state'', JStr (el_state l)), (''city'', JStr (el_city l))]"

definition excluded_items :: "json \<Rightarrow> excluded_location list backend_res" where
  "excluded_items params =
     rbind (object_params params) (\<lambda>m.
     rbind (ok_or (backend_error_new ''invalid_params'' ''items must be an array'')
              (Option.bind (obj_get m ''items'') as_array)) (\<lambda>raw.
     if MAX_EXCLUDED_LOCATIONS < length raw
     then fail ''excluded_location_limit_reached'' ''Too many excluded locations''
     else rbind (traverse excluded_item raw) (\<lambda>items. Inr (dedup_by excluded_key [] items))))"

definition set_excluded_locations :: "json \<Rightarrow> mutation" where
  "set_excluded_locations params data =
     bail data (excluded_items params) (\<lambda>locations.
       account_mut data (\<lambda>account.
         (account\<lparr>ac_excluded_locations := locations\<rparr>,
          Inr (jobj [(''items'', JArr (map excluded_location_json locations))]))))"

abbreviation set_onboarding :: "(onboarding \<Rightarrow> onboarding) \<Rightarrow> store_file \<Rightarrow> store_file" where
  "set_onboarding f data \<equiv> data\<lparr>sf_onboarding := f (sf_onboarding data)\<rparr>"

definition complete_onboarding :: "json \<Rightarrow> mutation" where
  "complete_onboarding params data =
     bail data (object_params params) (\<lambda>m.
     bail data (locale_value (obj_get m ''locale'')) (\<lambda>loc.
     let d1 = set_onboarding (ob_locale_update (\<lambda>_. loc)) data in
     bail d1 (required_bool m ''start_with_omarchy'') (\<lambda>start.
     let d2 = set_onboarding (ob_start_with_omarchy_update (\<lambda>_. start)) d1 in
     bail d2 (required_bool m ''auto_connect'') (\<lambda>auto.
     let d3 = set_onboarding (ob_auto_connect_update (\<lambda>_. auto)) d2;
         d4 = (if auto then set_onboarding (ob_start_with_omarchy_update (\<lambda>_. True)) d3 else d3) in
     (set_onboarding (ob_complete_update (\<lambda>_. True)) d4,
      Inr (jobj [(''onboarding_complete'', JBool True)]))))))"

text \<open>One optional boolean preference of \<open>set_preferences\<close>.\<close>

definition set_flag ::
  "jobject \<Rightarrow> string \<Rightarrow> ((bool \<Rightarrow> bool) \<Rightarrow> onboarding \<Rightarrow> onboarding) \<Rightarrow> store_file
     \<Rightarrow> (store_file \<Rightarrow> store_file \<times> 'a backend_res) \<Rightarrow> store_file \<times> 'a backend_res" where
  "set_flag m k upd data cont =
     (case obj_get m k of
        None \<Rightarrow> cont data
      | Some v \<Rightarrow>
          bail data (ok_or (backend_error_new ''invalid_params'' (k @ '' must be a boolean'')) (as_bool v))
            (\<lambda>b. cont (set_onboarding (upd (\<lambda>_. b)) data)))"

definition set_preferences :: "json \<Rightarrow> mutation" where
  "set_preferences params data =
     bail data (object_params params) (\<lambda>m.
     let after_locale = (\<lambda>d0.
       set_flag m ''start_with_omarchy'' ob_start_with_omarchy_update d0 (\<lambda>d1.
       set_flag m ''auto_connect'' ob_auto_connect_update d1 (\<lambda>d2.
       set_flag m ''notifications_enabled'' ob_notifications_enabled_update d2 (\<lambda>d3.
       set_flag m ''port_forwarding_notifications_enabled''
         ob_port_forwarding_notifications_enabled_update d3 (\<lambda>d4.
       let d5 = (if ob_auto_connect (sf_onboarding d4)
                 then set_onboarding (ob_start_with_omarchy_update (\<lambda>_. True)) d4 else d4);
           d6 = (if \<not> ob_start_with_omarchy (sf_onboarding d5)
                 then set_onboarding (ob_auto_connect_update (\<lambda>_. False)) d5 else d5) in
       (d6, Inr (jobj [(''updated'', JBool True)]))))))) in
     case obj_get m ''locale'' of
       None \<Rightarrow> after_locale data
     | Some v \<Rightarrow> bail data (locale_value (Some v))
                  (\<lambda>loc. after_locale (set_onboarding (ob_locale_update (\<lambda>_. loc)) data)))"

section \<open>Profiles\<close>

definition find_id :: "string \<Rightarrow> json list \<Rightarrow> json option" where
  "find_id i vs = find (has_id i) vs"

text \<open>Replace the first value with this id, or append.\<close>

definition upsert :: "string \<Rightarrow> json \<Rightarrow> json list \<Rightarrow> json list" where
  "upsert i v vs =
     (case position (has_id i) vs of Some n \<Rightarrow> vs[n := v] | None \<Rightarrow> vs @ [v])"

definition save_profile_account ::
  "clock \<Rightarrow> jobject \<Rightarrow> account_store \<Rightarrow> account_store \<times> json backend_res" where
  "save_profile_account clk raw account =
     bail account (string_value (obj_get raw ''id'') 128 False) (\<lambda>existing_id.
     bail account
       (if existing_id = []
        then if MAX_PROFILES \<le> length (ac_profiles account)
             then fail ''profile_limit_reached'' ''Maximum profile count reached''
             else Inr (unique_id (clk 0) ''profile'' (ac_profiles account))
        else Inr existing_id) (\<lambda>i.
     bail account
       (normalize_profile (clk 1) raw
         (Option.bind (find_id i (ac_profiles account)) as_object) i) (\<lambda>profile.
     (account\<lparr>ac_profiles := upsert i (JObj profile) (ac_profiles account)\<rparr>,
      Inr (jobj [(''profile'', JObj profile)])))))"

definition save_profile :: "clock \<Rightarrow> json \<Rightarrow> mutation" where
  "save_profile clk params data =
     bail data (rbind (object_params params) (\<lambda>m.
       ok_or (backend_error_new ''invalid_params'' ''profile must be an object'')
         (Option.bind (obj_get m ''profile'') as_object))) (\<lambda>raw.
     account_mut data (save_profile_account clk raw))"

definition has_name :: "string \<Rightarrow> json \<Rightarrow> bool" where
  "has_name candidate v =
     (case vstr v ''name'' of None \<Rightarrow> False | Some name \<Rightarrow> eq_ignore_ascii_case name candidate)"

definition copy_candidate :: "string \<Rightarrow> nat \<Rightarrow> string" where
  "copy_candidate source sequence =
     (let suffix = (if sequence = 1 then '' copy'' else '' copy '' @ dec sequence) in
      chars_take (60 - chars_count suffix) source @ suffix)"

definition copy_name :: "string \<Rightarrow> json list \<Rightarrow> string" where
  "copy_name source profiles =
     (case find (\<lambda>c. \<forall>p \<in> set profiles. \<not> has_name c p)
             (map (copy_candidate source) [1..<MAX_PROFILES + 2]) of
        Some c \<Rightarrow> c
      | None \<Rightarrow> chars_take 60 source)"

definition duplicate_profile_account ::
  "clock \<Rightarrow> jobject \<Rightarrow> string \<Rightarrow> account_store \<Rightarrow> account_store \<times> json backend_res" where
  "duplicate_profile_account clk m source_id account =
     (if MAX_PROFILES \<le> length (ac_profiles account)
      then (account, fail ''profile_limit_reached'' ''Maximum profile count reached'')
      else
      bail account (ok_or (backend_error_new ''profile_not_found'' ''Profile was not found'')
        (Option.bind (find_id source_id (ac_profiles account)) as_object)) (\<lambda>source.
      let d0 = obj_remove ''updatedAtMs'' (obj_remove ''createdAtMs'' (obj_remove ''id'' source)) in
      bail account (string_value (obj_get m ''name'') 60 True) (\<lambda>requested.
      bail account
        (if requested = []
         then rbind (required_string d0 ''name'' 60)
                (\<lambda>name. Inr (copy_name name (ac_profiles account)))
         else Inr requested) (\<lambda>name.
      let i = unique_id (clk 0) ''profile'' (ac_profiles account) in
      bail account (normalize_profile (clk 1) (obj_insert ''name'' (JStr name) d0) None i) (\<lambda>profile.
      (account\<lparr>ac_profiles := ac_profiles account @ [JObj profile]\<rparr>,
       Inr (jobj [(''profile'', JObj profile), (''source_id'', JStr source_id)])))))))"

definition duplicate_profile :: "clock \<Rightarrow> json \<Rightarrow> mutation" where
  "duplicate_profile clk params data =
     bail data (object_params params) (\<lambda>m.
     bail data (required_string m ''id'' 128) (\<lambda>source_id.
     account_mut data (duplicate_profile_account clk m source_id)))"

definition recent_of_profile :: "string \<Rightarrow> json \<Rightarrow> bool" where
  "recent_of_profile i r \<longleftrightarrow> vstr r ''kind'' = Some ''profile'' \<and> vstr r ''profileId'' = Some i"

definition delete_profile :: "json \<Rightarrow> mutation" where
  "delete_profile params data =
     bail data (rbind (object_params params) (\<lambda>m. required_string m ''id'' 128)) (\<lambda>i.
     account_mut data (\<lambda>account.
       let profiles = filter (\<lambda>p. \<not> has_id i p) (ac_profiles account);
           account' = validate_default (account
             \<lparr>ac_profiles := profiles,
              ac_recents := filter (\<lambda>r. \<not> recent_of_profile i r) (ac_recents account)\<rparr>) in
       (account', Inr (jobj [(''deleted'',
          JBool (length profiles \<noteq> length (ac_profiles account)))]))))"

section \<open>Recents\<close>

definition last_time :: "json \<Rightarrow> u64" where
  "last_time v = unwrap_or 0 (vu64 v ''lastConnectionTimeMs'')"

definition pin_time :: "json \<Rightarrow> u64" where
  "pin_time v = unwrap_or 0 (vu64 v ''pinTimeMs'')"

definition is_pinned :: "json \<Rightarrow> bool" where
  "is_pinned v = unwrap_or False (vbool v ''pinned'')"

text \<open>\<open>sort_by_key\<close> is stable, as \<open>sort_key\<close> is; \<open>Reverse\<close> sorts by the negated key.\<close>

definition trim_recents :: "account_store \<Rightarrow> account_store" where
  "trim_recents account =
     account\<lparr>ac_recents :=
       sort_key pin_time (filter is_pinned (ac_recents account))
       @ take MAX_UNPINNED_RECENTS
           (sort_key (\<lambda>v. - uint (last_time v))
             (filter (\<lambda>v. \<not> is_pinned v) (ac_recents account)))\<rparr>"

definition has_key :: "string \<Rightarrow> json \<Rightarrow> bool" where
  "has_key k v \<longleftrightarrow> map_option recent_key (as_object v) = Some k"

text \<open>The time of a new recent: later than every time stored, whatever the clock says.\<close>

definition next_time :: "u64 \<Rightarrow> json list \<Rightarrow> u64" where
  "next_time now recents =
     max now (fold max (List.map_filter (\<lambda>v. vu64 v ''lastConnectionTimeMs'') recents) 0 + 1)"

text \<open>The record that replaces the entry \<open>reused\<close> of the same target.\<close>

definition stamp_recent :: "clock \<Rightarrow> jobject \<Rightarrow> jobject option \<Rightarrow> json list \<Rightarrow> jobject" where
  "stamp_recent clk recent reused others =
     obj_insert ''lastConnectionTimeMs'' (jnum (next_time (clk 1) others))
    (obj_insert ''pinTimeMs'' (jnum (unwrap_or 0 (Option.bind reused (\<lambda>m. get_u64 m ''pinTimeMs''))))
    (obj_insert ''pinned'' (JBool (unwrap_or False (Option.bind reused (\<lambda>m. get_bool m ''pinned''))))
    (obj_insert ''id''
       (JStr (case Option.bind reused (\<lambda>m. get_str m ''id'') of
                Some i \<Rightarrow> i | None \<Rightarrow> unique_id (clk 0) ''recent'' others)) recent)))"

definition record_recent_account ::
  "clock \<Rightarrow> jobject \<Rightarrow> string \<Rightarrow> account_store \<Rightarrow> account_store \<times> json backend_res" where
  "record_recent_account clk recent kind account =
     bail account
       (if kind = ''profile''
        then rbind (required_string recent ''profileId'' 128) (\<lambda>i.
               if \<exists>p \<in> set (ac_profiles account). has_id i p then Inr ()
               else fail ''profile_not_found'' ''Recent profile was not found'')
        else Inr ()) (\<lambda>_.
     let key = recent_key recent;
         reused = Option.bind (find (has_key key) (ac_recents account)) as_object;
         others = filter (\<lambda>v. \<not> has_key key v) (ac_recents account);
         out = JObj (stamp_recent clk recent reused others) in
     (validate_default (trim_recents (account\<lparr>ac_recents := out # others\<rparr>)),
      Inr (jobj [(''recent'', out)])))"

definition record_recent :: "clock \<Rightarrow> json \<Rightarrow> mutation" where
  "record_recent clk params data =
     bail data (rbind (object_params params) (\<lambda>m.
       ok_or (backend_error_new ''invalid_params'' ''recent must be an object'')
         (Option.bind (obj_get m ''recent'') as_object))) (\<lambda>raw.
     bail data (normalize_recent raw) (\<lambda>recent.
     bail data (required_string recent ''kind'' 32) (\<lambda>kind.
     account_mut data (record_recent_account clk recent kind))))"

definition set_pin :: "u64 \<Rightarrow> bool \<Rightarrow> json \<Rightarrow> json" where
  "set_pin now pinned v =
     (case v of
        JObj m \<Rightarrow> JObj (obj_insert ''pinTimeMs'' (jnum (if pinned then now else 0))
                          (obj_insert ''pinned'' (JBool pinned) m))
      | _ \<Rightarrow> v)"

definition pin_recent :: "clock \<Rightarrow> json \<Rightarrow> mutation" where
  "pin_recent clk params data =
     bail data (object_params params) (\<lambda>m.
     bail data (required_string m ''id'' 128) (\<lambda>i.
     bail data (required_bool m ''pinned'') (\<lambda>pinned.
     account_mut data (\<lambda>account.
       if find_id i (ac_recents account) = None
       then (account, fail ''recent_not_found'' ''Recent connection was not found'')
       else (trim_recents (account\<lparr>ac_recents :=
               modify_first (has_id i) (set_pin (clk 0) pinned) (ac_recents account)\<rparr>),
             Inr (jobj [(''updated'', JBool True)]))))))"

definition delete_recent :: "json \<Rightarrow> mutation" where
  "delete_recent params data =
     bail data (rbind (object_params params) (\<lambda>m. required_string m ''id'' 128)) (\<lambda>i.
     account_mut data (\<lambda>account.
       let recents = filter (\<lambda>r. \<not> has_id i r) (ac_recents account) in
       (validate_default (account\<lparr>ac_recents := recents\<rparr>),
        Inr (jobj [(''deleted'', JBool (length recents \<noteq> length (ac_recents account)))]))))"

section \<open>Connection resolution\<close>

text \<open>\<open>max_by_key\<close> returns the last of the greatest elements.\<close>

fun max_by_key :: "('a \<Rightarrow> 'b::linorder) \<Rightarrow> 'a list \<Rightarrow> 'a option" where
  "max_by_key f [] = None"
| "max_by_key f (x # xs) =
     (case max_by_key f xs of
        None \<Rightarrow> Some x
      | Some y \<Rightarrow> if f x \<le> f y then Some y else Some x)"

definition most_recent_connection :: "account_store \<Rightarrow> json option" where
  "most_recent_connection account = max_by_key last_time (ac_recents account)"

definition copy_nonempty_string :: "jobject \<Rightarrow> string \<Rightarrow> string \<Rightarrow> jobject \<Rightarrow> jobject" where
  "copy_nonempty_string source source_name target_name target =
     (case opt_filter (\<lambda>s. s \<noteq> []) (get_str source source_name) of
        Some s \<Rightarrow> obj_insert target_name (JStr s) target
      | None \<Rightarrow> target)"

text \<open>The six copies both resolutions start with.\<close>

definition base_target :: "jobject \<Rightarrow> jobject" where
  "base_target m =
     copy_nonempty_string m ''gatewayName'' ''gateway_name''
    (copy_nonempty_string m ''serverName'' ''server_name''
    (copy_nonempty_string m ''city'' ''city''
    (copy_nonempty_string m ''state'' ''state''
    (copy_nonempty_string m ''entryCountryCode'' ''entry_country_code''
    (copy_nonempty_string m ''countryCode'' ''country_code'' [])))))"

definition profile_policy_value :: "jobject \<Rightarrow> string \<Rightarrow> json" where
  "profile_policy_value m k =
     (let mode = unwrap_or ''inherit'' (get_str m k) in
      if mode = ''allow'' then JBool True else if mode = ''block'' then JBool False else JNull)"

text \<open>The flag a profile kind adds to the target; an unknown kind is an error.\<close>

definition profile_kind_flag :: "string \<Rightarrow> jobject \<Rightarrow> jobject backend_res" where
  "profile_kind_flag kind target =
     (if kind \<in> set [''fastest'', ''country'', ''state'', ''city'', ''server'', ''gateway'',
                     ''gatewayServer''] then Inr target
      else if kind = ''random'' then Inr (obj_insert ''random'' (JBool True) target)
      else if kind = ''p2p'' then Inr (obj_insert ''p2p'' (JBool True) target)
      else if kind = ''secureCore'' then Inr (obj_insert ''secure_core'' (JBool True) target)
      else if kind = ''tor'' then Inr (obj_insert ''tor'' (JBool True) target)
      else fail ''invalid_profile_target'' ''Profile connection target is unsupported'')"

definition profile_strategy_flags :: "jobject \<Rightarrow> string \<Rightarrow> jobject \<Rightarrow> jobject" where
  "profile_strategy_flags m kind target =
     (let strategy = unwrap_or (if kind = ''random'' then ''random'' else ''fastest'')
                       (get_str m ''selectionStrategy'');
          scoped = (\<exists>k \<in> set [''countryCode'', ''state'', ''city'', ''gatewayName'']. nonempty m k);
          t1 = (if strategy = ''random'' \<and> kind \<noteq> ''random''
                then obj_insert (if scoped then ''random_server'' else ''random'') (JBool True) target
                else target) in
      if unwrap_or False (get_bool m ''excludeMyCountry'')
      then obj_insert ''exclude_my_country'' (JBool True) t1 else t1)"

definition profile_settings_json :: "jobject \<Rightarrow> json" where
  "profile_settings_json m =
     jobj [(''protocol'', JStr (unwrap_or ''smart'' (get_str m ''profileProtocol''))),
           (''netshield_enabled'', JBool (unwrap_or True (get_bool m ''profileNetShieldEnabled''))),
           (''netshield_level'', jnum (unwrap_or 2 (get_u64 m ''profileNetShieldLevel''))),
           (''moderate_nat'', JBool (get_str m ''profileNatType'' = Some ''moderate'')),
           (''port_forwarding'', JBool (unwrap_or False (get_bool m ''profilePortForwardingEnabled''))),
           (''custom_dns'', jobj
             [(''mode'', JStr (unwrap_or ''inherit'' (get_str m ''profileCustomDnsMode''))),
              (''servers'', JArr (unwrap_or []
                (Option.bind (obj_get m ''profileCustomDnsServers'') as_array)))]),
           (''allow_lan_connections'', profile_policy_value m ''profileLanMode''),
           (''allow_local_dns'', profile_policy_value m ''profileLocalDnsMode'')]"

definition post_connect_json :: "jobject \<Rightarrow> json" where
  "post_connect_json m =
     (if unwrap_or False (get_bool m ''connectAndGoEnabled'')
      then jobj [(''mode'', JStr (unwrap_or ''website'' (get_str m ''connectAndGoMode''))),
                 (''url'', JStr (unwrap_or [] (get_str m ''connectAndGoUrl''))),
                 (''private_browsing'',
                   JBool (unwrap_or False (get_bool m ''connectAndGoUsePrivateBrowsingMode''))),
                 (''desktop_id'', JStr (unwrap_or [] (get_str m ''connectAndGoAppId'')))]
      else JNull)"

text \<open>The first of three members that is present, read as a non-empty string.\<close>

definition profile_description :: "jobject \<Rightarrow> string" where
  "profile_description m =
     (let member = (case obj_get m ''countryName'' of Some v \<Rightarrow> Some v
                    | None \<Rightarrow> (case obj_get m ''serverName'' of Some v \<Rightarrow> Some v
                               | None \<Rightarrow> obj_get m ''gatewayName'')) in
      unwrap_or ''Profile'' (opt_filter (\<lambda>s. s \<noteq> []) (Option.bind member as_str)))"

definition resolved_profile :: "json \<Rightarrow> string \<Rightarrow> json backend_res" where
  "resolved_profile profile selection_type =
     rbind (ok_or (backend_error_new ''invalid_profile_target''
              ''Profile connection target is invalid'') (as_object profile)) (\<lambda>m.
     rbind (required_string m ''targetKind'' 32) (\<lambda>kind.
     rbind (profile_kind_flag kind (base_target m)) (\<lambda>t0.
     let target = profile_strategy_flags m kind t0 in
     rbind (required_string m ''id'' 128) (\<lambda>i.
     rbind (required_string m ''name'' 60) (\<lambda>name.
     Inr (jobj
       [(''selection'', jobj [(''type'', JStr selection_type)]),
        (''connect_params'', jobj [(''profile_id'', JStr i), (''target'', JObj target),
           (''profile_settings'', profile_settings_json m)]),
        (''recent'', jobj [(''kind'', JStr ''profile''), (''profileId'', JStr i),
           (''header'', JStr name), (''description'', JStr (profile_description m))]),
        (''post_connect'', post_connect_json m)]))))))"

definition recent_kind_flag :: "jobject \<Rightarrow> string \<Rightarrow> jobject \<Rightarrow> jobject backend_res" where
  "recent_kind_flag m kind target =
     (if kind \<in> set [''country'', ''state'', ''city'']
      then let feature = unwrap_or ''all'' (get_str m ''feature'') in
           Inr (if feature = ''p2p'' then obj_insert ''p2p'' (JBool True) target
                else if feature = ''tor'' then obj_insert ''tor'' (JBool True) target
                else if feature = ''secure_core'' then obj_insert ''secure_core'' (JBool True) target
                else target)
      else if kind = ''secureCore'' then Inr (obj_insert ''secure_core'' (JBool True) target)
      else if kind = ''tor'' then Inr (obj_insert ''tor'' (JBool True) target)
      else if kind \<in> set [''server'', ''gateway'', ''gatewayServer''] then Inr target
      else fail ''invalid_recent_target'' ''Recent connection target is unsupported'')"

definition resolved_recent :: "account_store \<Rightarrow> json \<Rightarrow> string \<Rightarrow> json backend_res" where
  "resolved_recent account recent selection_type =
     rbind (ok_or (backend_error_new ''invalid_recent_target''
              ''Recent connection target is invalid'') (as_object recent)) (\<lambda>m.
     rbind (required_string m ''kind'' 32) (\<lambda>kind.
     if kind = ''profile''
     then rbind (required_string m ''profileId'' 128) (\<lambda>i.
          rbind (ok_or (backend_error_new ''profile_not_found'' ''Recent profile was not found'')
                   (find_id i (ac_profiles account))) (\<lambda>profile.
          resolved_profile profile selection_type))
     else rbind (recent_kind_flag m kind (base_target m)) (\<lambda>target.
       Inr (jobj [(''selection'', jobj [(''type'', JStr selection_type)]),
                  (''connect_params'', jobj [(''target'', JObj target)]),
                  (''recent'', recent)]))))"

definition resolve_connection :: "account_store \<Rightarrow> json \<Rightarrow> json backend_res" where
  "resolve_connection account params =
     rbind (ok_or (backend_error_new ''invalid_default_connection''
              ''Default connection selection is invalid'')
       (case Option.bind (vget params ''selection'') as_object of
          Some m \<Rightarrow> Some m
        | None \<Rightarrow> as_object (ac_default_connection account))) (\<lambda>selection.
     let selection_type = unwrap_or ''fastest'' (get_str selection ''type'') in
     if selection_type = ''fastest''
     then Inr (jobj [(''selection'', jobj [(''type'', JStr ''fastest'')]),
                     (''connect_params'', jobj [(''target'', jobj [])])])
     else if selection_type = ''random''
     then Inr (jobj [(''selection'', jobj [(''type'', JStr ''random'')]),
                     (''connect_params'', jobj [(''target'', jobj [(''random'', JBool True)])])])
     else if selection_type = ''last''
     then (case most_recent_connection account of
             Some recent \<Rightarrow> resolved_recent account recent ''last''
           | None \<Rightarrow> Inr (jobj [(''selection'', jobj [(''type'', JStr ''last'')]),
                              (''fallback'', JStr ''fastest''),
                              (''connect_params'', jobj [(''target'', jobj [])])]))
     else if selection_type = ''recent''
     then rbind (required_string selection ''recentId'' 128) (\<lambda>i.
          rbind (ok_or (backend_error_new ''recent_not_found''
                   ''Default recent connection was not found'') (find_id i (ac_recents account)))
            (\<lambda>recent. resolved_recent account recent ''recent''))
     else if selection_type = ''profile''
     then rbind (required_string selection ''profileId'' 128) (\<lambda>i.
          rbind (ok_or (backend_error_new ''profile_not_found'' ''Default profile was not found'')
                   (find_id i (ac_profiles account)))
            (\<lambda>profile. resolved_profile profile ''profile''))
     else fail ''invalid_default_connection'' ''Unsupported default connection type'')"

section \<open>Dispatch\<close>

text \<open>The mutating methods of \<open>request_inner\<close>; the others only read.\<close>

definition mutation_of :: "clock \<Rightarrow> string \<Rightarrow> json \<Rightarrow> mutation option" where
  "mutation_of clk meth params =
     (if meth = ''onboarding.complete'' then Some (complete_onboarding params)
      else if meth = ''preferences.set'' then Some (set_preferences params)
      else if meth = ''profiles.save'' then Some (save_profile clk params)
      else if meth = ''profiles.duplicate'' then Some (duplicate_profile clk params)
      else if meth = ''profiles.delete'' then Some (delete_profile params)
      else if meth = ''excluded_locations.set'' then Some (set_excluded_locations params)
      else if meth = ''recents.record'' then Some (record_recent clk params)
      else if meth = ''recents.pin'' then Some (pin_recent clk params)
      else if meth = ''recents.delete'' then Some (delete_recent params)
      else if meth = ''default_connection.set'' then Some (set_default_connection params)
      else None)"

end
