(* ===== verification/Store_Seed.thy ===== *)
theory Store_Seed
  imports Store_Core
begin

text \<open>
  The parts of \<^verbatim>\<open>agent/src/store.rs\<close> that set an account up: the default profiles and their one-time
  seeding, the import of the legacy document, the account fingerprint and the activation of an
  account; and the views of the document the agent publishes: the snapshot's store section and
  the pages of a collection.
\<close>

section \<open>Default profiles\<close>

definition is_spanish :: "string \<Rightarrow> bool" where
  "is_spanish loc = eq_ignore_ascii_case (hd (split_on (CHR ''-'') (replace_char (CHR ''_'') (CHR ''-'') loc))) ''es''"

definition fastest_template :: "string \<Rightarrow> jobject" where
  "fastest_template loc =
     obj_of [(''name'', JStr (if is_spanish loc
                then ''Servidor m'' @ [CHR 0xC3, CHR 0xA1] @ ''s r'' @ [CHR 0xC3, CHR 0xA1] @ ''pido''
                else ''Fastest server'')),
             (''targetKind'', JStr ''fastest''), (''iconName'', JStr ''Speed'')]"

definition fastest_default_profile :: "u64 \<Rightarrow> string \<Rightarrow> json backend_res" where
  "fastest_default_profile now loc =
     rbind (normalize_profile now (fastest_template loc) None FASTEST_DEFAULT_PROFILE_ID)
       (\<lambda>m. Inr (JObj m))"

definition official_names :: "bool \<Rightarrow> string list" where
  "official_names spanish =
     (if spanish
      then [''Streaming EE. UU.'', ''Juegos'', ''P2P'',
            ''Seguridad m'' @ [CHR 0xC3, CHR 0xA1] @ ''xima'', ''Trabajo/Escuela'',
            ''Conexi'' @ [CHR 0xC3, CHR 0xB3] @ ''n aleatoria'']
      else [''Streaming US'', ''Gaming'', ''P2P'', ''Max security'', ''Work/School'',
            ''Random connection''])"

definition official_templates :: "string \<Rightarrow> jobject list" where
  "official_templates loc =
     (let names = official_names (is_spanish loc) in
      [obj_of [(''name'', JStr (names ! 0)), (''targetKind'', JStr ''country''),
               (''countryCode'', JStr ''US''),
               (''countryName'', JStr (if is_spanish loc then ''Estados Unidos'' else ''United States'')),
               (''iconName'', JStr ''Streaming'')],
       obj_of [(''name'', JStr (names ! 1)), (''targetKind'', JStr ''p2p''),
               (''iconName'', JStr ''Gaming''), (''profileNatType'', JStr ''moderate'')],
       obj_of [(''name'', JStr (names ! 2)), (''targetKind'', JStr ''p2p''),
               (''iconName'', JStr ''Download''), (''profilePortForwardingEnabled'', JBool True)],
       obj_of [(''name'', JStr (names ! 3)), (''targetKind'', JStr ''secureCore''),
               (''iconName'', JStr ''Protection'')],
       obj_of [(''name'', JStr (names ! 4)), (''targetKind'', JStr ''fastest''),
               (''iconName'', JStr ''Business''), (''profileProtocol'', JStr ''protun-tls''),
               (''profileNetShieldEnabled'', JBool True), (''profileNetShieldLevel'', jnum 1),
               (''profileNatType'', JStr ''moderate'')],
       obj_of [(''name'', JStr (names ! 5)), (''targetKind'', JStr ''random''),
               (''iconName'', JStr ''Browsing'')]])"

definition official_default_profiles :: "clock \<Rightarrow> string \<Rightarrow> json list backend_res" where
  "official_default_profiles clk loc =
     traverse (\<lambda>(n, raw, i). rbind (normalize_profile (clk n) raw None i) (\<lambda>m. Inr (JObj m)))
       (zip [0..<6] (zip (official_templates loc) OFFICIAL_DEFAULT_PROFILE_IDS))"

section \<open>Seeding\<close>

text \<open>The entry of an account, created empty when it is missing (\<open>entry(key).or_default()\<close>).\<close>

definition account_of :: "store_file \<Rightarrow> string \<Rightarrow> account_store" where
  "account_of data key = unwrap_or account_store_default (obj_get (sf_accounts data) key)"

abbreviation put_account :: "string \<Rightarrow> account_store \<Rightarrow> store_file \<Rightarrow> store_file" where
  "put_account key account data \<equiv> data\<lparr>sf_accounts := obj_insert key account (sf_accounts data)\<rparr>"

definition seed_profile :: "json \<Rightarrow> json list \<Rightarrow> json list" where
  "seed_profile profile profiles =
     (if (\<exists>p \<in> set profiles. has_id (unwrap_or [] (vstr profile ''id'')) p)
         \<or> MAX_PROFILES \<le> length profiles
      then profiles else profiles @ [profile])"

definition seed_account_with_official_profiles ::
  "clock \<Rightarrow> string \<Rightarrow> store_file \<Rightarrow> store_file \<times> bool backend_res" where
  "seed_account_with_official_profiles clk key data =
     (if key \<in> set (mg_official_seeded (sf_migration data)) then (data, Inr False)
      else
      bail data (official_default_profiles clk (ob_locale (sf_onboarding data))) (\<lambda>templates.
      let account = account_of data key;
          profiles = fold seed_profile templates (ac_profiles account);
          complete = (\<forall>i \<in> set OFFICIAL_DEFAULT_PROFILE_IDS. \<exists>p \<in> set profiles. has_id i p);
          data' = put_account key (account\<lparr>ac_profiles := profiles\<rparr>) data in
      (if complete
       then data'\<lparr>sf_migration := (sf_migration data')
              \<lparr>mg_official_seeded := mg_official_seeded (sf_migration data') @ [key]\<rparr>\<rparr>
       else data',
       Inr (complete \<or> length profiles \<noteq> length (ac_profiles account)))))"

definition seed_account_with_fastest_profile ::
  "clock \<Rightarrow> string \<Rightarrow> store_file \<Rightarrow> store_file \<times> bool backend_res" where
  "seed_account_with_fastest_profile clk key data =
     (if key \<in> set (mg_fastest_seeded (sf_migration data)) then (data, Inr False)
      else
      bail data (fastest_default_profile (clk 0) (ob_locale (sf_onboarding data))) (\<lambda>profile.
      let account = account_of data key;
          exists0 = (\<exists>p \<in> set (ac_profiles account). has_id FASTEST_DEFAULT_PROFILE_ID p);
          added = (\<not> exists0 \<and> length (ac_profiles account) < MAX_PROFILES);
          profiles = (if added then profile # ac_profiles account else ac_profiles account);
          complete = (\<exists>p \<in> set profiles. has_id FASTEST_DEFAULT_PROFILE_ID p);
          default_connection =
            (if complete \<and> vstr (ac_default_connection account) ''type'' = Some ''fastest''
             then jobj [(''type'', JStr ''profile''), (''profileId'', JStr FASTEST_DEFAULT_PROFILE_ID)]
             else ac_default_connection account);
          data' = put_account key (account\<lparr>ac_profiles := profiles,
                    ac_default_connection := default_connection\<rparr>) data in
      (if complete
       then data'\<lparr>sf_migration := (sf_migration data')
              \<lparr>mg_fastest_seeded := mg_fastest_seeded (sf_migration data') @ [key]\<rparr>\<rparr>
       else data',
       Inr (complete \<or> added))))"

text \<open>The two loops over the known accounts: the keys are read before the loop starts.\<close>

fun seed_each ::
  "(string \<Rightarrow> store_file \<Rightarrow> store_file \<times> bool backend_res) \<Rightarrow> string list \<Rightarrow> bool \<Rightarrow> store_file
     \<Rightarrow> store_file \<times> bool backend_res" where
  "seed_each seed [] changed data = (data, Inr changed)"
| "seed_each seed (k # ks) changed data =
     (let (data', r) = seed k data in
      bail data' r (\<lambda>c. seed_each seed ks (changed \<or> c) data'))"

definition seed_known_accounts_with_official_profiles ::
  "clock \<Rightarrow> store_file \<Rightarrow> store_file \<times> bool backend_res" where
  "seed_known_accounts_with_official_profiles clk data =
     seed_each (seed_account_with_official_profiles clk) (map fst (sf_accounts data)) False data"

definition seed_known_accounts_with_fastest_profile ::
  "clock \<Rightarrow> store_file \<Rightarrow> store_file \<times> bool backend_res" where
  "seed_known_accounts_with_fastest_profile clk data =
     seed_each (seed_account_with_fastest_profile clk) (map fst (sf_accounts data)) False data"

section \<open>Legacy import\<close>

text \<open>\<open>root\<close> is what the path holds: \<open>None\<close> when nothing is there, or it is no regular file or
  too large; \<open>Some (Inl e)\<close> when the bytes are no JSON document.\<close>

definition import_legacy ::
  "(string + json) option \<Rightarrow> store_file \<Rightarrow> (string + store_file \<times> bool)" where
  "import_legacy root data =
     (case root of
        None \<Rightarrow> Inr (data, False)
      | Some (Inl e) \<Rightarrow> Inl e
      | Some (Inr (JObj m)) \<Rightarrow>
          (let version = unwrap_or 0 (get_u64 m ''version'') in
           if \<not> (1 \<le> version \<and> version \<le> 4) then Inr (data, False)
           else
           let a0 = account_store_default
                 \<lparr>ac_profiles := take MAX_PROFILES (unwrap_or [] (Option.bind (obj_get m ''profiles'') as_array)),
                  ac_recents := unwrap_or [] (Option.bind (obj_get m ''recents'') as_array),
                  ac_ui_preferences := unwrap_or (jobj []) (obj_get m ''ui_preferences'')\<rparr>;
               a1 = trim_recents a0;
               a2 = (case Option.bind (obj_get m ''default_connection'') as_object of
                       None \<Rightarrow> a1
                     | Some selection \<Rightarrow> a1\<lparr>ac_default_connection :=
                         unwrap_or fastest_default_connection
                           (result_ok (normalize_default selection a1))\<rparr>) in
           Inr ((put_account LEGACY_SCOPE a2 data)
                  \<lparr>sf_migration := (sf_migration data)\<lparr>mg_legacy_qt_store_imported := True\<rparr>,
                   sf_revision := sf_revision data + 1\<rparr>, True))
      | Some (Inr _) \<Rightarrow> Inr (data, False))"

section \<open>Accounts\<close>

text \<open>FNV-1a over the lower-cased name. \<open>str::to_lowercase\<close> is Unicode's case folding table and
  stays a parameter.\<close>

definition fnv_step :: "char \<Rightarrow> u64 \<Rightarrow> u64" where
  "fnv_step c hash = (xor hash (of_nat (byte c))) * 0x100000001b3"

definition account_fingerprint :: "(string \<Rightarrow> string) \<Rightarrow> string \<Rightarrow> string" where
  "account_fingerprint to_lowercase account_name =
     ''account-'' @ hex 16 (unat (fold fnv_step (to_lowercase (trim account_name)) 0xcbf29ce484222325))"

text \<open>The part of \<open>activate_account\<close> that changes the document. \<open>None\<close> when there is nothing to do.\<close>

definition activate_entry :: "string \<Rightarrow> store_file \<Rightarrow> store_file" where
  "activate_entry key data =
     (if obj_get (sf_accounts data) key \<noteq> None then data
      else
      let data' = put_account key (account_of data LEGACY_SCOPE) data in
      if mg_legacy_qt_store_imported (sf_migration data)
         \<and> key \<notin> set (mg_copied_to_account_keys (sf_migration data))
      then data'\<lparr>sf_migration := (sf_migration data')
             \<lparr>mg_copied_to_account_keys := mg_copied_to_account_keys (sf_migration data') @ [key]\<rparr>\<rparr>
      else data')"

definition activate_data :: "clock \<Rightarrow> string \<Rightarrow> store_file \<Rightarrow> store_file \<times> unit backend_res" where
  "activate_data clk key data =
     (let (d1, r1) = seed_account_with_official_profiles clk key (activate_entry key data) in
      bail d1 r1 (\<lambda>_.
      let (d2, r2) = seed_account_with_fastest_profile (\<lambda>n. clk (n + 6)) key d1 in
      bail d2 r2 (\<lambda>_.
      (d2\<lparr>sf_active_account_key := Some key, sf_revision := sf_revision d2 + 1\<rparr>, Inr ()))))"

section \<open>Published views\<close>

definition store_state :: "store_file \<Rightarrow> canonical_store_state" where
  "store_state data =
     (let account = account_ref data; ob = sf_onboarding data in
      \<lparr>cs_revision = sf_revision data, cs_ready = True,
       cs_onboarding_complete = ob_complete ob, cs_locale = ob_locale ob,
       cs_start_with_omarchy = ob_start_with_omarchy ob, cs_auto_connect = ob_auto_connect ob,
       cs_notifications_enabled = ob_notifications_enabled ob,
       cs_port_forwarding_notifications_enabled = ob_port_forwarding_notifications_enabled ob,
       cs_account_scope_known = (sf_active_account_key data \<noteq> None),
       cs_profile_count = length (ac_profiles account),
       cs_recent_count = length (ac_recents account),
       cs_default_connection = ac_default_connection account,
       cs_migration_available = mg_legacy_qt_store_imported (sf_migration data)\<rparr>)"

definition summary_value :: "store_file \<Rightarrow> json" where
  "summary_value data = canonical_store_state_json (store_state data)"

datatype collection = Profiles | Recents

definition items_of :: "collection \<Rightarrow> account_store \<Rightarrow> json list" where
  "items_of c account = (case c of Profiles \<Rightarrow> ac_profiles account | Recents \<Rightarrow> ac_recents account)"

definition USIZE_MAX :: nat where "USIZE_MAX = 2 ^ 64 - 1"

definition list_collection :: "json \<Rightarrow> collection \<Rightarrow> store_file \<Rightarrow> json backend_res" where
  "list_collection params c data =
     rbind (bounded_usize params ''offset'' 0 USIZE_MAX) (\<lambda>offset.
     rbind (bounded_usize params ''limit'' 50 MAX_PAGE_SIZE) (\<lambda>limit.
     let items = items_of c (account_ref data) in
     Inr (jobj
       [(''items'', JArr (take limit (drop offset items))),
        (''offset'', jnum (of_nat offset)), (''limit'', jnum (of_nat limit)),
        (''total'', jnum (of_nat (length items))),
        (''has_more'', JBool (min (offset + limit) USIZE_MAX < length items)),
        (''store_revision'', jnum (sf_revision data))])))"

end
