(* ===== verification/Store_Laws.thy ===== *)
theory Store_Laws
  imports Store_Core "HOL-Library.Multiset"
begin

text \<open>
  The contract of the canonical store: saved profiles resolve, the default connection selects
  something that exists, the last recorded connection is the one \<open>last\<close> resolves to, the history
  policy, fresh names for copies and normalised exclusions; and the places where the code does
  not keep it.
\<close>

section \<open>Accounts and results\<close>

lemma bail_Inr: "bail s m f = (s', Inr y) \<longleftrightarrow> (\<exists>x. m = Inr x \<and> f x = (s', Inr y))"
  by (cases m) auto

lemma bail_state: "P s \<Longrightarrow> (\<And>x. m = Inr x \<Longrightarrow> P (fst (f x))) \<Longrightarrow> P (fst (bail s m f))"
  by (cases m) auto

abbreviation own_account :: "store_file \<Rightarrow> account_store" where
  "own_account data \<equiv> unwrap_or account_store_default (obj_get (sf_accounts data) (account_key data))"

lemma account_mut_result: "snd (account_mut data f) = snd (f (own_account data))"
  by (simp add: account_mut_def Let_def split: prod.splits)

lemma account_mut_ref: "account_ref (fst (account_mut data f)) = fst (f (own_account data))"
  by (cases "sf_active_account_key data")
    (simp_all add: account_mut_def account_ref_def account_key_def Let_def split: prod.splits)

lemma account_mut_eq:
  "account_mut data f = (data', r) \<Longrightarrow>
     r = snd (f (own_account data)) \<and> account_ref data' = fst (f (own_account data))"
  by (metis account_mut_ref account_mut_result fst_conv snd_conv)

section \<open>Lookup by id\<close>

lemma find_id_None: "find_id i vs = None \<longleftrightarrow> \<not> (\<exists>v \<in> set vs. has_id i v)"
  by (auto simp: find_id_def find_None_iff)

lemma find_id_Some: "find_id i vs = Some v \<Longrightarrow> v \<in> set vs \<and> has_id i v"
  by (auto simp: find_id_def find_Some_iff)

lemma find_id_unique_id: "find_id (unique_id now p vs) vs = None"
  by (auto simp: find_id_None dest: unique_id_free)

lemma find_id_append:
  "find_id i (xs @ ys) = (case find_id i xs of None \<Rightarrow> find_id i ys | Some v \<Rightarrow> Some v)"
  unfolding find_id_def by (induction xs) auto

lemma find_id_upsert_same: "has_id i v \<Longrightarrow> find_id i (upsert i v vs) = Some v"
  unfolding upsert_def find_id_def by (induction vs) (auto split: option.splits)

lemma has_id_unique: "has_id i v \<Longrightarrow> has_id j v \<Longrightarrow> i = j"
  by (simp add: has_id_def)

lemma find_id_upsert_other: "i \<noteq> j \<Longrightarrow> has_id i v \<Longrightarrow> find_id j (upsert i v vs) = find_id j vs"
  unfolding upsert_def find_id_def
  by (induction vs) (auto split: option.splits dest: has_id_unique)

lemma length_upsert:
  "length (upsert i v vs) = (if find_id i vs = None then Suc (length vs) else length vs)"
  by (auto simp: upsert_def find_id_None position_None split: option.splits
      dest: position_Some intro: nth_mem)

section \<open>Saved profiles resolve\<close>

lemma required_string_get:
  "text_ok n s \<Longrightarrow> s \<noteq> [] \<Longrightarrow> required_string (obj_insert k (JStr s) m) k n = Inr s"
  by (rule required_stringI) simp_all

lemma target_kind_known: "profile_target_valid kind m \<Longrightarrow> \<exists>t'. profile_kind_flag kind t = Inr t'"
  by (auto simp: profile_target_valid_def profile_kind_flag_def split: if_splits)

lemma resolved_profile_ok:
  assumes "profile_ok i p" "text_ok 128 i" "i \<noteq> []"
  shows "\<exists>target recent. resolved_profile (JObj p) ty = Inr (jobj
       [(''selection'', jobj [(''type'', JStr ty)]),
        (''connect_params'', jobj [(''profile_id'', JStr i), (''target'', JObj target),
           (''profile_settings'', profile_settings_json p)]),
        (''recent'', recent), (''post_connect'', post_connect_json p)])"
proof -
  obtain name kind where n: "get_str p ''name'' = Some name" "name \<noteq> []" "text_ok 60 name"
    "get_str p ''targetKind'' = Some kind" "kind \<noteq> []" "text_ok 32 kind"
    "profile_target_valid kind p" "get_str p ''id'' = Some i"
    using assms(1) by (auto simp: profile_ok_def profile_target_ok_def)
  obtain t where "profile_kind_flag kind (base_target p) = Inr t"
    using target_kind_known [OF n(7)] by blast
  then show ?thesis
    using required_stringI [OF n(1-3)] required_stringI [OF n(4-6)]
      required_stringI [OF n(8) assms(3,2)]
    by (auto simp: resolved_profile_def Let_def)
qed

abbreviation select_profile :: "string \<Rightarrow> json" where
  "select_profile i \<equiv> jobj [(''selection'', jobj [(''type'', JStr ''profile''), (''profileId'', JStr i)])]"

lemma resolve_selected_profile:
  "find_id i (ac_profiles a) = Some p \<Longrightarrow> text_ok 128 i \<Longrightarrow> i \<noteq> [] \<Longrightarrow>
     resolve_connection a (select_profile i) = resolved_profile p ''profile''"
proof -
  assume a: "find_id i (ac_profiles a) = Some p" "text_ok 128 i" "i \<noteq> []"
  let ?m = "obj_of [(''type'', JStr ''profile''), (''profileId'', JStr i)]"
  have "required_string ?m ''profileId'' 128 = Inr i"
    by (rule required_stringI) (use a in \<open>simp_all add: get_str_def obj_get_of\<close>)
  moreover have "get_str ?m ''type'' = Some ''profile''" by (simp add: get_str_def obj_get_of)
  ultimately show ?thesis using a by (simp add: resolve_connection_def Let_def)
qed

lemma account_mut_Inr:
  "account_mut data f = (data', Inr out) \<Longrightarrow> f (own_account data) = (account_ref data', Inr out)"
  by (metis account_mut_eq prod.collapse)

lemma save_profile_result:
  assumes "save_profile clk params data = (data', Inr out)"
  obtains raw existing i p where
    "out = jobj [(''profile'', JObj p)]" "normalize_profile (clk 1) raw existing i = Inr p"
    "ac_profiles (account_ref data') = upsert i (JObj p) (ac_profiles (own_account data))"
proof -
  obtain raw where "account_mut data (save_profile_account clk raw) = (data', Inr out)"
    using assms unfolding save_profile_def bail_Inr by blast
  from account_mut_Inr [OF this]
  have "save_profile_account clk raw (own_account data) = (account_ref data', Inr out)" .
  then obtain existing i p where p: "normalize_profile (clk 1) raw existing i = Inr p"
    "(own_account data)\<lparr>ac_profiles := upsert i (JObj p) (ac_profiles (own_account data))\<rparr> = account_ref data'"
    "jobj [(''profile'', JObj p)] = out"
    unfolding save_profile_account_def bail_Inr prod.inject sum.inject by blast
  from p(2) have "ac_profiles (account_ref data') = upsert i (JObj p) (ac_profiles (own_account data))"
    by (metis account_store.select_convs(1) account_store.surjective account_store.update_convs(1))
  from that [OF p(3) [symmetric] p(1) this] show thesis .
qed

section \<open>The default connection never dangles\<close>

definition default_ok :: "account_store \<Rightarrow> bool" where
  "default_ok a \<longleftrightarrow>
     (case ac_default_connection a of
        JObj m \<Rightarrow> normalize_default m a = Inr (ac_default_connection a)
      | _ \<Rightarrow> False)"

definition store_ok :: "store_file \<Rightarrow> bool" where
  "store_ok data \<longleftrightarrow> list_all (\<lambda>(k, a). default_ok a) (sf_accounts data)"

definition keeps_ids :: "account_store \<Rightarrow> account_store \<Rightarrow> bool" where
  "keeps_ids a b \<longleftrightarrow>
     (\<forall>i. (\<exists>v \<in> set (ac_profiles a). has_id i v) \<longrightarrow> (\<exists>v \<in> set (ac_profiles b). has_id i v))
     \<and> (\<forall>i. (\<exists>v \<in> set (ac_recents a). has_id i v) \<longrightarrow> (\<exists>v \<in> set (ac_recents b). has_id i v))"

lemma keeps_ids_refl [simp]: "keeps_ids a a"
  by (simp add: keeps_ids_def)

lemma text_ok_graphic:
  "(\<forall>c \<in> set s. 32 < byte c \<and> byte c < 128) \<Longrightarrow> length s \<le> n \<Longrightarrow> text_ok n s"
  unfolding text_ok_def using chars_count_le_length [of s]
  by (auto intro: graphic_trimmed)

lemma normalize_default_kinds:
  assumes "normalize_default sel a = Inr d"
  obtains (simple) k where "k \<in> {''fastest'', ''random'', ''last''}" "d = jobj [(''type'', JStr k)]"
  | (recent) i where "i \<noteq> []" "text_ok 128 i" "\<exists>v \<in> set (ac_recents a). has_id i v"
      "d = jobj [(''type'', JStr ''recent''), (''recentId'', JStr i)]"
  | (profile) i where "i \<noteq> []" "text_ok 128 i" "\<exists>v \<in> set (ac_profiles a). has_id i v"
      "d = jobj [(''type'', JStr ''profile''), (''profileId'', JStr i)]"
proof -
  obtain k where k: "string_or sel ''type'' ''fastest'' 32 = Inr k"
    using assms by (auto simp: normalize_default_def rbind_Inr)
  show thesis
  proof (cases "k \<in> {''fastest'', ''random'', ''last''}")
    case True
    then show thesis using assms k simple by (auto simp: normalize_default_def)
  next
    case False
    then consider
      (r) i where "required_string sel ''recentId'' 128 = Inr i" "\<exists>v \<in> set (ac_recents a). has_id i v"
        "d = jobj [(''type'', JStr ''recent''), (''recentId'', JStr i)]"
    | (p) i where "required_string sel ''profileId'' 128 = Inr i" "\<exists>v \<in> set (ac_profiles a). has_id i v"
        "d = jobj [(''type'', JStr ''profile''), (''profileId'', JStr i)]"
      using assms k by (auto simp: normalize_default_def rbind_Inr split: if_splits)
    then show thesis
      by cases (use required_string_text_ok recent profile in blast)+
  qed
qed

lemma string_or_type:
  "get_str m ''type'' = Some k \<Longrightarrow> k \<in> {''fastest'', ''random'', ''last'', ''recent'', ''profile''}
     \<Longrightarrow> string_or m ''type'' ''fastest'' 32 = Inr k"
  by (rule string_orI) (auto intro!: text_ok_graphic)

lemma normalize_default_fixpoint:
  assumes "normalize_default sel a = Inr d" "keeps_ids a b"
  shows "\<exists>m. d = JObj m \<and> normalize_default m b = Inr d"
  using assms(1)
proof (cases rule: normalize_default_kinds)
  case (simple k)
  let ?m = "obj_of [(''type'', JStr k)]"
  have "string_or ?m ''type'' ''fastest'' 32 = Inr k"
    using simple(1) by (intro string_or_type) (auto simp: get_str_def obj_get_of)
  with simple show ?thesis
    by (intro exI [of _ ?m]) (auto simp: normalize_default_def jobj_def)
next
  case (recent i)
  let ?m = "obj_of [(''type'', JStr ''recent''), (''recentId'', JStr i)]"
  have "string_or ?m ''type'' ''fastest'' 32 = Inr ''recent''"
    by (intro string_or_type) (auto simp: get_str_def obj_get_of)
  moreover have "required_string ?m ''recentId'' 128 = Inr i"
    by (rule required_stringI) (use recent in \<open>simp_all add: get_str_def obj_get_of\<close>)
  ultimately show ?thesis using recent assms(2)
    by (intro exI [of _ ?m]) (auto simp: normalize_default_def keeps_ids_def jobj_def)
next
  case (profile i)
  let ?m = "obj_of [(''type'', JStr ''profile''), (''profileId'', JStr i)]"
  have "string_or ?m ''type'' ''fastest'' 32 = Inr ''profile''"
    by (intro string_or_type) (auto simp: get_str_def obj_get_of)
  moreover have "required_string ?m ''profileId'' 128 = Inr i"
    by (rule required_stringI) (use profile in \<open>simp_all add: get_str_def obj_get_of\<close>)
  ultimately show ?thesis using profile assms(2)
    by (intro exI [of _ ?m]) (auto simp: normalize_default_def keeps_ids_def jobj_def)
qed

lemma default_ok_keeps:
  "default_ok a \<Longrightarrow> keeps_ids a b \<Longrightarrow> ac_default_connection b = ac_default_connection a \<Longrightarrow> default_ok b"
proof -
  assume a: "default_ok a" "keeps_ids a b" "ac_default_connection b = ac_default_connection a"
  then obtain m where m: "ac_default_connection a = JObj m"
    "normalize_default m a = Inr (ac_default_connection a)"
    unfolding default_ok_def by (cases "ac_default_connection a") simp_all
  obtain m' where "ac_default_connection a = JObj m'"
    "normalize_default m' b = Inr (ac_default_connection a)"
    using normalize_default_fixpoint [OF m(2) a(2)] by blast
  then show ?thesis using a(3) unfolding default_ok_def by simp
qed

lemma normalize_default_default_ok:
  "normalize_default sel a = Inr d \<Longrightarrow> keeps_ids a b \<Longrightarrow> ac_default_connection b = d \<Longrightarrow> default_ok b"
proof -
  assume a: "normalize_default sel a = Inr d" "keeps_ids a b" "ac_default_connection b = d"
  then obtain m where "d = JObj m" "normalize_default m b = Inr d"
    using normalize_default_fixpoint by blast
  then show ?thesis using a(3) unfolding default_ok_def by simp
qed

lemma fastest_normal: "normalize_default (obj_of [(''type'', JStr ''fastest'')]) a = Inr fastest_default_connection"
proof -
  have "string_or (obj_of [(''type'', JStr ''fastest'')]) ''type'' ''fastest'' 32 = Inr ''fastest''"
    by (intro string_or_type) (auto simp: get_str_def obj_get_of)
  then show ?thesis by (simp add: normalize_default_def fastest_default_connection_def)
qed

lemma default_ok_fastest: "ac_default_connection a = fastest_default_connection \<Longrightarrow> default_ok a"
  by (rule normalize_default_default_ok [OF fastest_normal keeps_ids_refl])

lemma default_ok_default [simp]: "default_ok account_store_default"
  by (rule default_ok_fastest) (simp add: account_store_default_def)

lemma default_ok_validate [simp]: "default_ok (validate_default a)"
proof (cases "Option.bind (as_object (ac_default_connection a))
           (\<lambda>selection. result_ok (normalize_default selection a))")
  case None
  then show ?thesis by (intro default_ok_fastest) (simp add: validate_default_def)
next
  case (Some d)
  then obtain m where m: "normalize_default m a = Inr d"
    by (auto simp: bind_eq_Some_conv result_ok_Some)
  show ?thesis
    by (rule normalize_default_default_ok [OF m])
      (use Some in \<open>simp_all add: validate_default_def keeps_ids_def\<close>)
qed

lemma store_ok_insert: "store_ok data \<Longrightarrow> default_ok a \<Longrightarrow>
   store_ok (data\<lparr>sf_accounts := obj_insert k a (sf_accounts data)\<rparr>)"
proof -
  have "list_all (\<lambda>(k, a). default_ok a) m \<Longrightarrow> default_ok a \<Longrightarrow>
    list_all (\<lambda>(k, a). default_ok a) (obj_insert k a m)" for m
    by (induction k a m rule: obj_insert.induct) auto
  then show "store_ok data \<Longrightarrow> default_ok a \<Longrightarrow>
    store_ok (data\<lparr>sf_accounts := obj_insert k a (sf_accounts data)\<rparr>)"
    by (simp add: store_ok_def)
qed

lemma store_ok_own: "store_ok data \<Longrightarrow> default_ok (own_account data)"
  by (cases "obj_get (sf_accounts data) (account_key data)")
    (auto simp: store_ok_def list_all_iff obj_get_def dest!: map_of_SomeD)

lemma store_ok_account_mut:
  "store_ok data \<Longrightarrow> (default_ok (own_account data) \<Longrightarrow> default_ok (fst (f (own_account data)))) \<Longrightarrow>
     store_ok (fst (account_mut data f))"
  using store_ok_own [of data]
  by (cases "f (own_account data)") (simp add: account_mut_def Let_def store_ok_insert)

lemma store_ok_onboarding [simp]: "store_ok (data\<lparr>sf_onboarding := x\<rparr>) = store_ok data"
  by (simp add: store_ok_def)

lemmas default_ok_bail = bail_state [where P = default_ok]
lemmas store_ok_bail = bail_state [where P = store_ok]

lemma keeps_ids_append: "keeps_ids a (a\<lparr>ac_profiles := ac_profiles a @ vs\<rparr>)"
  by (auto simp: keeps_ids_def)

lemma keeps_ids_upsert: "has_id i v \<Longrightarrow> keeps_ids a (a\<lparr>ac_profiles := upsert i v (ac_profiles a)\<rparr>)"
proof -
  assume i: "has_id i v"
  have "\<exists>w \<in> set (upsert i v (ac_profiles a)). has_id j w" if "\<exists>w \<in> set (ac_profiles a). has_id j w" for j
    using that find_id_upsert_same [OF i] find_id_upsert_other [OF _ i] find_id_None find_id_Some
    by (metis option.exhaust)
  then show ?thesis by (simp add: keeps_ids_def)
qed

lemma profile_ok_has_id: "normalize_profile now raw ex i = Inr p \<Longrightarrow> has_id i (JObj p)"
  by (drule normalize_profile_ok) (simp add: profile_ok_def profile_target_ok_def has_id_def)

lemma default_ok_save_profile:
  assumes "default_ok a" shows "default_ok (fst (save_profile_account clk raw a))"
proof -
  have "default_ok (a\<lparr>ac_profiles := upsert i (JObj p) (ac_profiles a)\<rparr>)"
    if "normalize_profile now raw ex i = Inr p" for now ex i p
    using assms profile_ok_has_id [OF that] by (intro default_ok_keeps [OF _ keeps_ids_upsert]) simp_all
  then show ?thesis
    unfolding save_profile_account_def using assms
    by (intro default_ok_bail) (simp_all only: fst_conv)
qed

lemma default_ok_duplicate: "default_ok a \<Longrightarrow> default_ok (fst (duplicate_profile_account clk m i a))"
proof (cases "MAX_PROFILES \<le> length (ac_profiles a)")
  case False
  assume a: "default_ok a"
  have "default_ok (a\<lparr>ac_profiles := ac_profiles a @ [v]\<rparr>)" for v
    by (rule default_ok_keeps [OF a keeps_ids_append]) simp
  with a False show ?thesis
    unfolding duplicate_profile_account_def Let_def if_not_P [OF False]
    by (intro default_ok_bail) (simp_all only: fst_conv)
qed (simp add: duplicate_profile_account_def)

lemma default_ok_record: "default_ok a \<Longrightarrow> default_ok (fst (record_recent_account clk r k a))"
  unfolding record_recent_account_def Let_def
  by (intro default_ok_bail) (simp_all only: fst_conv default_ok_validate)

lemma default_ok_set_default:
  "default_ok a \<Longrightarrow> default_ok (fst (bail a (normalize_default sel a) (\<lambda>d.
         (a\<lparr>ac_default_connection := d\<rparr>, Inr (jobj [(''default_connection'', d)])))))"
  by (intro default_ok_bail, assumption, simp only: fst_conv)
    (erule normalize_default_default_ok, simp_all add: keeps_ids_def)

lemma default_ok_excluded: "default_ok a \<Longrightarrow> default_ok (a\<lparr>ac_excluded_locations := x\<rparr>)"
  by (erule default_ok_keeps) (simp_all add: keeps_ids_def)

lemma store_ok_set_flag:
  "store_ok data \<Longrightarrow> (\<And>d. store_ok d \<Longrightarrow> store_ok (fst (cont d))) \<Longrightarrow>
     store_ok (fst (set_flag m k upd data cont))"
  by (cases "obj_get m k") (simp_all add: set_flag_def store_ok_bail)

lemma store_ok_if: "store_ok d \<Longrightarrow> store_ok (if b then set_onboarding f d else d)"
  by simp

lemma store_ok_set_preferences:
  assumes "store_ok data" shows "store_ok (fst (set_preferences params data))"
  unfolding set_preferences_def Let_def
  by (intro store_ok_bail, rule assms, split option.split)
    (intro conjI allI impI store_ok_bail store_ok_set_flag;
      (simp add: assms)?)

lemma store_ok_complete_onboarding:
  assumes "store_ok data" shows "store_ok (fst (complete_onboarding params data))"
  unfolding complete_onboarding_def Let_def
  by (intro store_ok_bail; simp add: assms)

lemma store_ok_account_ops:
  assumes "store_ok data"
  shows "store_ok (fst (save_profile clk params data))"
    "store_ok (fst (duplicate_profile clk params data))"
    "store_ok (fst (record_recent clk params data))"
    "store_ok (fst (set_default_connection params data))"
    "store_ok (fst (delete_profile params data))"
    "store_ok (fst (delete_recent params data))"
    "store_ok (fst (set_excluded_locations params data))"
  unfolding save_profile_def duplicate_profile_def record_recent_def set_default_connection_def
    delete_profile_def delete_recent_def set_excluded_locations_def Let_def
  by (intro store_ok_bail assms, rule store_ok_account_mut [OF assms],
      simp only: fst_conv default_ok_save_profile default_ok_duplicate default_ok_record
        default_ok_set_default default_ok_validate default_ok_excluded)+

lemma mutation_of_cases:
  "mutation_of clk meth params = Some f \<Longrightarrow> meth \<noteq> ''recents.pin'' \<Longrightarrow>
     f \<in> {complete_onboarding params, set_preferences params, save_profile clk params,
       duplicate_profile clk params, delete_profile params, set_excluded_locations params,
       record_recent clk params, delete_recent params, set_default_connection params}"
  unfolding mutation_of_def by (simp only: option.inject option.distinct split: if_split_asm) blast+

lemma store_ok_mutation:
  assumes "mutation_of clk meth params = Some f" "meth \<noteq> ''recents.pin''" "store_ok data"
  shows "store_ok (fst (f data))"
  using mutation_of_cases [OF assms(1,2)] store_ok_account_ops [OF assms(3)]
    store_ok_set_preferences [OF assms(3)] store_ok_complete_onboarding [OF assms(3)]
  by blast

section \<open>Recents\<close>

lemma sort_key_head:
  assumes "\<forall>y \<in> set xs. f x \<le> f y" shows "sort_key f (x # xs) = x # sort_key f xs"
  using assms by (simp add: insort_is_Cons)

lemma max_by_key_unique:
  "x \<in> set xs \<Longrightarrow> (\<forall>y \<in> set xs. y = x \<or> f y < f x) \<Longrightarrow> max_by_key f xs = Some x"
proof (induction xs)
  case (Cons z xs)
  have sub: "max_by_key f ys = Some w \<Longrightarrow> w \<in> set ys" for ys w
    by (induction ys arbitrary: w) (auto split: option.splits if_splits)
  show ?case
  proof (cases "x \<in> set xs")
    case True
    then show ?thesis using Cons by (auto simp: less_imp_le)
  next
    case False
    then have "z = x" "\<forall>y \<in> set xs. f y < f x" using Cons.prems by auto
    then show ?thesis using sub by (fastforce split: option.splits)
  qed
qed simp

lemma trim_keeps_newest:
  assumes "\<forall>y \<in> set ys. last_time y < last_time x"
  shows "most_recent_connection (trim_recents (a\<lparr>ac_recents := x # ys\<rparr>)) = Some x"
proof -
  let ?rs = "ac_recents (trim_recents (a\<lparr>ac_recents := x # ys\<rparr>))"
  have sub: "set ?rs \<subseteq> set (x # ys)"
    by (auto simp: trim_recents_def set_insort_key dest!: in_set_takeD split: if_splits)
  have "x \<in> set ?rs"
  proof (cases "is_pinned x")
    case False
    have "\<forall>y \<in> set (filter (\<lambda>v. \<not> is_pinned v) ys). - uint (last_time x) \<le> - uint (last_time y)"
      using assms by (auto simp: word_less_def)
    from sort_key_head [OF this] False show ?thesis
      by (simp add: trim_recents_def MAX_UNPINNED_RECENTS_def)
  qed (simp add: trim_recents_def set_insort_key)
  then show ?thesis
    unfolding most_recent_connection_def by (rule max_by_key_unique) (use sub assms in auto)
qed

lemma fold_max_ge: "x \<in> set xs \<or> x = (a :: 'a::linorder) \<Longrightarrow> x \<le> fold max xs a"
proof (induction xs arbitrary: a x)
  case (Cons y xs)
  have "max y a \<le> fold max xs (max y a)" using Cons(1) [of "max y a" "max y a"] by simp
  then show ?case using Cons(1) [of x "max y a"] Cons.prems by auto
qed simp

lemma fold_max_in: "fold max xs a \<in> set xs \<union> {a :: 'a::linorder}"
  by (induction xs arbitrary: a) (fastforce simp: max_def)+

lemma word_less_succ: "x < - 1 \<Longrightarrow> x < x + (1 :: u64)"
  by unat_arith

lemma next_time_newest:
  assumes "\<forall>y \<in> set ys. last_time y < - 1" "y \<in> set ys"
  shows "last_time y < next_time now ys"
proof -
  let ?ts = "List.map_filter (\<lambda>v. vu64 v ''lastConnectionTimeMs'') ys"
  have "last_time y \<le> fold max ?ts 0"
  proof (cases "vu64 y ''lastConnectionTimeMs''")
    case (Some t)
    then have "t \<in> set ?ts" using assms(2) by (force simp: List.map_filter_def)
    then show ?thesis using Some by (simp add: last_time_def fold_max_ge)
  qed (simp add: last_time_def)
  moreover have "t < - 1" if "t \<in> set ?ts \<union> {0}" for t :: u64
  proof (cases "t = 0")
    case False
    with that obtain v where "v \<in> set ys" "vu64 v ''lastConnectionTimeMs'' = Some t"
      by (auto simp: List.map_filter_def)
    then show ?thesis using assms(1) by (force simp: last_time_def)
  qed (simp add: word_greater_zero_iff)
  then have "fold max ?ts 0 < fold max ?ts 0 + 1"
    using fold_max_in [of ?ts 0] by (intro word_less_succ) blast
  ultimately show ?thesis by (auto simp: next_time_def max_def)
qed

lemma normalize_recent_kind:
  assumes "normalize_recent raw = Inr r"
  obtains kind where "get_str r ''kind'' = Some kind" "kind \<noteq> []" "text_ok 32 kind"
    "recent_target_valid kind r"
proof -
  obtain kind r1 r2 r3 where k: "required_string raw ''kind'' 32 = Inr kind"
    "insert_strings raw recent_strings (obj_insert ''kind'' (JStr kind) []) = Inr r1"
    and feature: "(if kind \<in> set [''country'', ''state'', ''city'']
       then rbind (string_or raw ''feature'' ''standard'' 32) (\<lambda>f0.
          if to_ascii_lowercase f0 \<notin> set recent_features
          then fail ''invalid_recent_target'' ''Recent location feature is unsupported''
          else Inr (obj_insert ''feature'' (JStr (to_ascii_lowercase f0)) r1))
       else Inr r1) = Inr r2"
    and load: "(case obj_get raw ''load'' of
              None \<Rightarrow> Inr r2
            | Some v \<Rightarrow>
                rbind (ok_or (backend_error_new ''invalid_params'' ''load must be an unsigned number'')
                         (as_u64 v))
                  (\<lambda>load. Inr (obj_insert ''load'' (jnum (min load 100)) r2))) = Inr r3"
    and v: "recent_target_valid kind r3" "r3 = r"
    using assms unfolding normalize_recent_def Let_def
    by (simp only: rbind_Inr if_fail sum.inject not_not) blast
  have "r2 = r1 \<or> (\<exists>f. r2 = obj_insert ''feature'' (JStr f) r1)"
    using feature by (cases "kind \<in> set [''country'', ''state'', ''city'']")
      (auto simp only: if_P if_not_P rbind_Inr if_fail sum.inject not_False_eq_True)
  moreover have "r3 = r2 \<or> (\<exists>l. r3 = obj_insert ''load'' (jnum l) r2)"
    using load by (cases "obj_get raw ''load''") (auto simp: rbind_Inr)
  moreover
  have "get_str r1 ''kind'' = Some kind"
    using insert_strings_get_str [OF k(2), of "''kind''"]
    by (simp add: recent_strings_def get_str_def obj_get_def)
  ultimately have "get_str r ''kind'' = Some kind" using v by auto
  with that required_string_text_ok [OF k(1)] v show thesis by blast
qed

lemma recent_kind_known:
  "recent_target_valid kind m \<Longrightarrow> kind \<noteq> ''profile'' \<Longrightarrow> \<exists>t'. recent_kind_flag m' kind t = Inr t'"
  by (auto simp: recent_target_valid_def recent_kind_flag_def Let_def split: if_splits)

lemma get_str_stamp:
  "k \<notin> {''lastConnectionTimeMs'', ''pinTimeMs'', ''pinned'', ''id''} \<Longrightarrow>
     get_str (stamp_recent clk r reused others) k = get_str r k"
  by (simp add: stamp_recent_def)

lemma last_time_stamp: "last_time (JObj (stamp_recent clk r reused others)) = next_time (clk 1) others"
  by (simp add: last_time_def stamp_recent_def)

lemma validate_default_frame [simp]:
  "ac_recents (validate_default a) = ac_recents a" "ac_profiles (validate_default a) = ac_profiles a"
  "most_recent_connection (validate_default a) = most_recent_connection a"
  by (simp_all add: validate_default_def most_recent_connection_def)

lemma record_recent_result:
  assumes "record_recent clk params data = (data', Inr out)"
  obtains raw r reused others where
    "normalize_recent raw = Inr r" "out = jobj [(''recent'', JObj (stamp_recent clk r reused others))]"
    "set others \<subseteq> set (ac_recents (own_account data))"
    "account_ref data' = validate_default (trim_recents ((own_account data)
       \<lparr>ac_recents := JObj (stamp_recent clk r reused others) # others\<rparr>))"
proof -
  obtain raw r kind where r: "normalize_recent raw = Inr r"
    "account_mut data (record_recent_account clk r kind) = (data', Inr out)"
    using assms unfolding record_recent_def bail_Inr by blast
  let ?a = "own_account data"
  let ?others = "filter (\<lambda>v. \<not> has_key (recent_key r) v) (ac_recents ?a)"
  let ?reused = "Option.bind (find (has_key (recent_key r)) (ac_recents ?a)) as_object"
  from account_mut_Inr [OF r(2)] have
    "(validate_default (trim_recents (?a\<lparr>ac_recents := JObj (stamp_recent clk r ?reused ?others) # ?others\<rparr>)),
      Inr (jobj [(''recent'', JObj (stamp_recent clk r ?reused ?others))])) = (account_ref data', Inr out)"
    unfolding record_recent_account_def bail_Inr Let_def by blast
  then show thesis by (intro that [of raw r ?reused ?others] r(1)) auto
qed

lemma record_recent_last:
  assumes "record_recent clk params data = (data', Inr out)"
    "\<forall>r \<in> set (ac_recents (own_account data)). last_time r < - 1"
  shows "\<exists>r. out = jobj [(''recent'', r)] \<and> most_recent_connection (account_ref data') = Some r
     \<and> (vstr r ''kind'' \<noteq> Some ''profile'' \<longrightarrow>
          (\<exists>target. resolve_connection (account_ref data')
             (jobj [(''selection'', jobj [(''type'', JStr ''last'')])])
           = Inr (jobj [(''selection'', jobj [(''type'', JStr ''last'')]),
                  (''connect_params'', jobj [(''target'', JObj target)]), (''recent'', r)])))"
proof -
  obtain raw r reused others where r: "normalize_recent raw = Inr r"
    "out = jobj [(''recent'', JObj (stamp_recent clk r reused others))]"
    "set others \<subseteq> set (ac_recents (own_account data))"
    "account_ref data' = validate_default (trim_recents ((own_account data)
       \<lparr>ac_recents := JObj (stamp_recent clk r reused others) # others\<rparr>))"
    by (rule record_recent_result [OF assms(1)])
  define s where "s = stamp_recent clk r reused others"
  have "\<forall>y \<in> set others. last_time y < last_time (JObj s)"
    unfolding s_def last_time_stamp using next_time_newest [of others] assms(2) r(3) by blast
  then have newest: "most_recent_connection (account_ref data') = Some (JObj s)"
    unfolding r(4) s_def validate_default_frame by (rule trim_keeps_newest)
  obtain kind where k: "get_str r ''kind'' = Some kind" "kind \<noteq> []" "text_ok 32 kind"
    "recent_target_valid kind r"
    by (rule normalize_recent_kind [OF r(1)])
  have sk: "get_str s ''kind'' = Some kind" by (simp add: s_def get_str_stamp k(1))
  have "\<exists>target. resolve_connection (account_ref data')
             (jobj [(''selection'', jobj [(''type'', JStr ''last'')])])
           = Inr (jobj [(''selection'', jobj [(''type'', JStr ''last'')]),
                  (''connect_params'', jobj [(''target'', JObj target)]), (''recent'', JObj s)])"
    if "kind \<noteq> ''profile''"
  proof -
    obtain t where t: "recent_kind_flag s kind (base_target s) = Inr t"
      using recent_kind_known [OF k(4)] \<open>kind \<noteq> ''profile''\<close> by blast
    have "get_str (obj_of [(''type'', JStr ''last'')]) ''type'' = Some ''last''"
      by (simp add: get_str_def obj_get_of)
    then show ?thesis
      using \<open>kind \<noteq> ''profile''\<close> t required_stringI [OF sk k(2,3)]
      by (auto simp: resolve_connection_def Let_def newest resolved_recent_def)
  qed
  with newest sk show ?thesis unfolding r(2) s_def [symmetric] by auto
qed

section \<open>Trimming\<close>

abbreviation pinned_of :: "account_store \<Rightarrow> json list" where
  "pinned_of a \<equiv> filter is_pinned (ac_recents a)"

abbreviation unpinned_of :: "account_store \<Rightarrow> json list" where
  "unpinned_of a \<equiv> filter (\<lambda>v. \<not> is_pinned v) (ac_recents a)"

lemma filter_sort_all: "\<forall>x \<in> set xs. P x \<Longrightarrow> filter P (sort_key f xs) = sort_key f xs"
  by (simp add: filter_id_conv)

lemma filter_take_all: "\<forall>x \<in> set xs. P x \<Longrightarrow> filter P (take n xs) = take n xs"
  by (auto simp: filter_id_conv dest: in_set_takeD)

lemma filter_take_none: "\<forall>x \<in> set xs. \<not> P x \<Longrightarrow> filter P (take n xs) = []"
  by (auto simp: filter_empty_conv dest: in_set_takeD)

lemma trim_parts:
  "pinned_of (trim_recents a) = sort_key pin_time (pinned_of a)"
  "unpinned_of (trim_recents a) = take MAX_UNPINNED_RECENTS (sort_key (\<lambda>v. - uint (last_time v)) (unpinned_of a))"
  by (simp_all add: trim_recents_def filter_sort_all filter_take_all filter_take_none filter_empty_conv)

lemma sorted_take_drop_le:
  "sorted (map f xs) \<Longrightarrow> x \<in> set (take n xs) \<Longrightarrow> y \<in> set (drop n xs) \<Longrightarrow> f x \<le> f y"
  by (metis (no_types, lifting) append_take_drop_id imageI list.set_map map_append sorted_append)

lemma trim_dropped_older:
  assumes "x \<in> set (unpinned_of (trim_recents a))"
    "y \<in># mset (unpinned_of a) - mset (unpinned_of (trim_recents a))"
  shows "last_time y \<le> last_time x"
proof -
  let ?s = "sort_key (\<lambda>v. - uint (last_time v)) (unpinned_of a)"
  have "mset (unpinned_of a) = mset (take MAX_UNPINNED_RECENTS ?s) + mset (drop MAX_UNPINNED_RECENTS ?s)"
    by (metis append_take_drop_id mset_append mset_sort)
  then have "y \<in> set (drop MAX_UNPINNED_RECENTS ?s)"
    using assms(2) unfolding trim_parts by simp
  moreover have "x \<in> set (take MAX_UNPINNED_RECENTS ?s)" using assms(1) unfolding trim_parts .
  ultimately have "- uint (last_time x) \<le> - uint (last_time y)"
    using sorted_take_drop_le [OF sorted_sort_key, where f = "\<lambda>v. - uint (last_time v)"] by blast
  then show ?thesis by (simp add: word_le_def)
qed

section \<open>Copies have fresh names\<close>

lemma takeWhile_digits_dec:
  "\<not> is_ascii_digit c \<Longrightarrow> takeWhile is_ascii_digit (rev (s @ c # dec n)) = rev (dec n)"
proof -
  assume c: "\<not> is_ascii_digit c"
  have "is_ascii_digit (digit_char d)" if "d < 10" for d
    using that by (simp add: digit_char_def is_ascii_digit_def)
  then have "\<forall>x \<in> set (dec n). is_ascii_digit x"
    using digits_in_less [of _ 8 n] by (auto simp: dec_def)
  then have "takeWhile is_ascii_digit (rev (dec n) @ c # rev s) = rev (dec n) @ takeWhile is_ascii_digit (c # rev s)"
    by (intro takeWhile_append2) simp
  then show ?thesis using c by simp
qed

lemma lower_dec: "to_ascii_lowercase (dec n) = dec n"
proof -
  have "lower_char (digit_char d) = digit_char d" if "d < 10" for d
    using that by (simp add: lower_char_def digit_char_def is_ascii_uppercase_def)
  then show ?thesis using digits_in_less [of _ 8 n] by (auto simp: to_ascii_lowercase_def dec_def)
qed

lemma dec_not_Nil [simp]: "dec n \<noteq> []"
  by (simp add: dec_def digits_in.simps [of 8 n])

lemma copy_candidate_tail:
  assumes "0 < n"
  shows "takeWhile is_ascii_digit (rev (to_ascii_lowercase (copy_candidate s n)))
     = (if n = 1 then [] else rev (dec n))"
proof (cases "n = 1")
  case True
  have "is_ascii_digit (lower_char (CHR ''y'')) = False"
    by (simp add: lower_char_def is_ascii_uppercase_def is_ascii_digit_def)
  then show ?thesis using True by (simp add: copy_candidate_def Let_def to_ascii_lowercase_def)
next
  case False
  let ?k = "60 - chars_count ('' copy '' @ dec n)"
  have "\<not> is_ascii_digit (CHR '' '')" by (simp add: is_ascii_digit_def)
  moreover have "to_ascii_lowercase (copy_candidate s n)
      = to_ascii_lowercase (chars_take ?k s @ '' copy'') @ CHR '' '' # dec n"
    using False lower_dec [of n]
    by (simp add: copy_candidate_def Let_def to_ascii_lowercase_def lower_char_def is_ascii_uppercase_def)
  ultimately show ?thesis using False takeWhile_digits_dec by metis
qed

lemma copy_candidate_inject:
  assumes "0 < m" "0 < n"
    "to_ascii_lowercase (copy_candidate s m) = to_ascii_lowercase (copy_candidate s n)"
  shows "m = n"
proof -
  have "(if m = 1 then [] else rev (dec m)) = (if n = 1 then [] else rev (dec n))"
    using copy_candidate_tail [OF assms(1), of s] copy_candidate_tail [OF assms(2), of s]
    unfolding assms(3) by (rule trans [OF sym])
  then show ?thesis by (cases "m = 1"; cases "n = 1") simp_all
qed

lemma copy_name_found:
  assumes "length profiles \<le> MAX_PROFILES"
  shows "\<exists>n \<in> {1..MAX_PROFILES + 1}. copy_name s profiles = copy_candidate s n
     \<and> (\<forall>p \<in> set profiles. \<not> has_name (copy_candidate s n) p)"
proof -
  let ?free = "\<lambda>c. \<forall>p \<in> set profiles. \<not> has_name c p"
  have "\<exists>n \<in> {1..MAX_PROFILES + 1}. ?free (copy_candidate s n)"
  proof (rule ccontr)
    assume none: "\<not> ?thesis"
    let ?lower = "\<lambda>n. Some (to_ascii_lowercase (copy_candidate s n))"
    let ?name = "\<lambda>p. map_option to_ascii_lowercase (vstr p ''name'')"
    have "?lower ` {1..MAX_PROFILES + 1} \<subseteq> ?name ` set profiles"
    proof (rule image_subsetI)
      fix n assume "n \<in> {1..MAX_PROFILES + 1}"
      with none obtain p where "p \<in> set profiles" "has_name (copy_candidate s n) p" by blast
      then show "?lower n \<in> ?name ` set profiles"
        by (force simp: has_name_def eq_ignore_ascii_case_def split: option.splits)
    qed
    moreover have "inj_on ?lower {1..MAX_PROFILES + 1}"
      by (rule inj_onI) (auto intro: copy_candidate_inject)
    ultimately have "card {1..MAX_PROFILES + 1} \<le> card (?name ` set profiles)"
      by (intro card_inj_on_le) simp_all
    also have "\<dots> \<le> card (set profiles)" by (rule card_image_le) simp
    also have "\<dots> \<le> length profiles" by (rule card_length)
    finally show False using assms by simp
  qed
  then obtain n where n: "n \<in> {1..MAX_PROFILES + 1}" "?free (copy_candidate s n)" by blast
  have "copy_candidate s n \<in> set (map (copy_candidate s) [1..<MAX_PROFILES + 2])"
    using n(1) by (simp del: upt_Suc)
  with n(2) have "find ?free (map (copy_candidate s) [1..<MAX_PROFILES + 2]) \<noteq> None"
    unfolding find_None_iff by blast
  then obtain c where c: "find ?free (map (copy_candidate s) [1..<MAX_PROFILES + 2]) = Some c" by blast
  then have "?free c" "c \<in> set (map (copy_candidate s) [1..<MAX_PROFILES + 2])"
    by (auto simp: find_Some_iff simp del: upt_Suc)
  then show ?thesis using c by (auto simp: copy_name_def simp del: upt_Suc)
qed

lemma copy_suffix_short:
  "n \<in> set [1..<130] \<Longrightarrow> chars_count (if n = 1 then '' copy'' else '' copy '' @ dec n) \<le> 60"
proof -
  have "list_all (\<lambda>n. chars_count (if n = 1 then '' copy'' else '' copy '' @ dec n) \<le> 60) [1..<130]"
    by code_simp
  then show "n \<in> set [1..<130] \<Longrightarrow> ?thesis" by (simp only: list_all_iff)
qed

lemma copy_candidate_length: "n \<in> {1..MAX_PROFILES + 1} \<Longrightarrow> chars_count (copy_candidate s n) \<le> 60"
proof -
  assume "n \<in> {1..MAX_PROFILES + 1}"
  then have "chars_count (if n = 1 then '' copy'' else '' copy '' @ dec n) \<le> 60"
    by (intro copy_suffix_short) (auto simp: MAX_PROFILES_def)
  then show ?thesis
    using chars_count_take [of "60 - chars_count (if n = 1 then '' copy'' else '' copy '' @ dec n)" s]
    unfolding copy_candidate_def Let_def chars_count_append by linarith
qed

section \<open>Excluded locations\<close>

definition excluded_ok :: "excluded_location \<Rightarrow> bool" where
  "excluded_ok l \<longleftrightarrow>
     el_kind l \<in> {''country'', ''state'', ''city''}
     \<and> length (el_country_code l) = 2 \<and> all_alphabetic (el_country_code l)
     \<and> to_ascii_uppercase (el_country_code l) = el_country_code l
     \<and> text_ok 128 (el_state l) \<and> text_ok 128 (el_city l)
     \<and> (el_kind l = ''state'' \<longrightarrow> el_state l \<noteq> []) \<and> (el_kind l = ''city'' \<longrightarrow> el_city l \<noteq> [])"

lemma excluded_item_ok:
  assumes "excluded_item item = Inr l" shows "excluded_ok l"
proof -
  obtain m kind0 country state city where i:
    "to_ascii_lowercase kind0 \<in> set [''country'', ''state'', ''city'']"
    "\<not> (length country \<noteq> 2 \<or> \<not> all_alphabetic country)"
    "string_value (obj_get m ''state'') 128 True = Inr state"
    "string_value (obj_get m ''city'') 128 True = Inr city"
    "\<not> (to_ascii_lowercase kind0 = ''state'' \<and> state = [] \<or> to_ascii_lowercase kind0 = ''city'' \<and> city = [])"
    "\<lparr>el_kind = to_ascii_lowercase kind0, el_country_code = to_ascii_uppercase country,
               el_state = state, el_city = city\<rparr> = l"
    using assms unfolding excluded_item_def Let_def
    by (simp only: rbind_Inr ok_or_Inr if_fail sum.inject not_not) blast
  then show ?thesis
    using string_value_text_ok [OF i(3)] string_value_text_ok [OF i(4)]
    unfolding i(6) [symmetric] excluded_ok_def by auto
qed

lemma excluded_items_parts:
  assumes "excluded_items params = Inr ls"
  obtains raw items where "varr params ''items'' = Some raw" "length raw \<le> 256"
    "traverse excluded_item raw = Inr items" "ls = dedup_by excluded_key [] items"
proof -
  obtain m raw items where i: "object_params params = Inr m"
    "Option.bind (obj_get m ''items'') as_array = Some raw" "\<not> MAX_EXCLUDED_LOCATIONS < length raw"
    "traverse excluded_item raw = Inr items" "dedup_by excluded_key [] items = ls"
    using assms unfolding excluded_items_def
    by (simp only: rbind_Inr ok_or_Inr if_fail sum.inject) blast
  have "varr params ''items'' = Some raw"
    using i(1,2) by (auto simp: object_params_def ok_or_Inr varr_def vget_def)
  with that i show thesis by (simp add: MAX_EXCLUDED_LOCATIONS_def)
qed

lemma excluded_kept:
  assumes "traverse excluded_item raw = Inr items" "item \<in> set raw"
  shows "\<exists>l. excluded_item item = Inr l
     \<and> excluded_key l \<in> excluded_key ` set (dedup_by excluded_key [] items)"
proof -
  have "list_all2 (\<lambda>x y. excluded_item x = Inr y) raw items" using assms(1) by (simp add: traverse_Inr)
  then obtain l where "l \<in> set items" "excluded_item item = Inr l"
    using assms(2) unfolding list_all2_conv_all_nth by (metis in_set_conv_nth)
  then show ?thesis by (intro exI [of _ l]) (simp add: dedup_by_image)
qed

section \<open>Properties\<close>

text \<open>
  A saved profile can be connected to: after \<open>profiles.save\<close> succeeds, resolving the
  selection of the returned id, if that id is non-blank, trimmed and of at most 128 characters,
  yields connection parameters for exactly that profile and its settings.
\<close>

theorem saved_profile_connects:
  assumes "save_profile clk params data = (data', Inr out)"
    "vget out ''profile'' = Some (JObj p)" "get_str p ''id'' = Some i" "i \<noteq> []" "text_ok 128 i"
  shows "\<exists>target recent. resolve_connection (account_ref data') (select_profile i) = Inr (jobj
       [(''selection'', jobj [(''type'', JStr ''profile'')]),
        (''connect_params'', jobj [(''profile_id'', JStr i), (''target'', JObj target),
           (''profile_settings'', profile_settings_json p)]),
        (''recent'', recent), (''post_connect'', post_connect_json p)])"
proof -
  obtain raw existing j q where q: "out = jobj [(''profile'', JObj q)]"
    "normalize_profile (clk 1) raw existing j = Inr q"
    "ac_profiles (account_ref data') = upsert j (JObj q) (ac_profiles (own_account data))"
    by (rule save_profile_result [OF assms(1)])
  have "q = p" using assms(2) q(1) by simp
  then have j: "j = i" using profile_ok_has_id [OF q(2)] assms(3) by (simp add: has_id_def)
  have "find_id i (ac_profiles (account_ref data')) = Some (JObj p)"
    unfolding q(3) j \<open>q = p\<close>
    using profile_ok_has_id [OF q(2)] find_id_upsert_same j \<open>q = p\<close> by simp
  from resolve_selected_profile [OF this assms(5,4)] show ?thesis
    using resolved_profile_ok [OF _ assms(5,4)] normalize_profile_ok [OF q(2)] j \<open>q = p\<close> by simp
qed

definition gaming_request :: json where
  "gaming_request = jobj [(''profile'', jobj [(''name'', JStr ''Gaming''), (''targetKind'', JStr ''p2p'')])]"

theorem saved_profile_connects_witness:
  "\<exists>data' out p target recent.
     save_profile (\<lambda>_. 7) gaming_request store_file_default = (data', Inr out)
     \<and> vget out ''profile'' = Some (JObj p)
     \<and> resolve_connection (account_ref data') (select_profile ''profile-0000000000000007-0000'')
       = Inr (jobj
       [(''selection'', jobj [(''type'', JStr ''profile'')]),
        (''connect_params'', jobj [(''profile_id'', JStr ''profile-0000000000000007-0000''),
           (''target'', JObj target), (''profile_settings'', profile_settings_json p)]),
        (''recent'', recent), (''post_connect'', post_connect_json p)])"
proof -
  let ?r = "save_profile (\<lambda>_. 7) gaming_request store_file_default"
  have "\<not> is_err (snd ?r)"
    "Option.bind (result_ok (snd ?r)) (\<lambda>out. vobj out ''profile'') \<noteq> None"
    "Option.bind (Option.bind (result_ok (snd ?r)) (\<lambda>out. vobj out ''profile'')) (\<lambda>p. get_str p ''id'')
       = Some ''profile-0000000000000007-0000''"
    by code_simp+
  then obtain out p where o: "snd ?r = Inr out" "vobj out ''profile'' = Some p"
    "get_str p ''id'' = Some ''profile-0000000000000007-0000''"
    by (cases "snd ?r") auto
  have s: "?r = (fst ?r, Inr out)" using o(1) by (metis prod.collapse)
  have v: "vget out ''profile'' = Some (JObj p)"
    using o(2) by (cases "vget out ''profile''") (auto simp: vobj_def as_object_Some)
  have t: "text_ok 128 ''profile-0000000000000007-0000''" by (rule text_ok_graphic) auto
  show ?thesis using saved_profile_connects [OF s v o(3) _ t] s v by blast
qed

text \<open>
  C31. The default connection never dangles: when every account's default connection is a
  canonical selection of something that exists, every request other than \<open>recents.pin\<close> leaves it so,
  whether the request succeeds or fails.
\<close>

theorem default_connection_never_dangles:
  assumes "mutation_of clk meth params = Some f" "meth \<noteq> ''recents.pin''" "store_ok data"
  shows "store_ok (fst (f data))"
  using assms by (rule store_ok_mutation)

definition profile_default_store :: store_file where
  "profile_default_store = store_file_default\<lparr>sf_accounts := [(LEGACY_SCOPE, account_store_default
     \<lparr>ac_profiles := [jobj [(''id'', JStr ''p1'')]],
      ac_default_connection := jobj [(''type'', JStr ''profile''), (''profileId'', JStr ''p1'')]\<rparr>)]\<rparr>"

theorem default_connection_never_dangles_witness:
  "store_ok profile_default_store
   \<and> store_ok (fst (delete_profile (jobj [(''id'', JStr ''p1'')]) profile_default_store))
   \<and> ac_default_connection (account_ref (fst (delete_profile (jobj [(''id'', JStr ''p1'')]) profile_default_store)))
       = fastest_default_connection"
proof -
  have s: "store_ok profile_default_store" by code_simp
  have m: "mutation_of (\<lambda>_. 7) ''profiles.delete'' (jobj [(''id'', JStr ''p1'')])
      = Some (delete_profile (jobj [(''id'', JStr ''p1'')]))"
    by (simp add: mutation_of_def)
  have "ac_default_connection (account_ref (fst (delete_profile (jobj [(''id'', JStr ''p1'')]) profile_default_store)))
       = fastest_default_connection" by code_simp
  with s default_connection_never_dangles [OF m _ s] show ?thesis by simp
qed

text \<open>
  A recorded connection is the last connection: after \<open>recents.record\<close> succeeds, whatever the
  clock says (as long as no stored time is the greatest 64-bit number), the returned entry is the
  one \<open>most_recent_connection\<close> picks, and unless it is a profile, resolving the selection
  \<open>last\<close> succeeds with it.
\<close>

theorem recorded_recent_is_last:
  assumes "record_recent clk params data = (data', Inr out)"
    "\<forall>r \<in> set (ac_recents (own_account data)). last_time r < - 1"
  shows "\<exists>r. out = jobj [(''recent'', r)] \<and> most_recent_connection (account_ref data') = Some r
     \<and> (vstr r ''kind'' \<noteq> Some ''profile'' \<longrightarrow>
          (\<exists>target. resolve_connection (account_ref data')
             (jobj [(''selection'', jobj [(''type'', JStr ''last'')])])
           = Inr (jobj [(''selection'', jobj [(''type'', JStr ''last'')]),
                  (''connect_params'', jobj [(''target'', JObj target)]), (''recent'', r)])))"
  using assms by (rule record_recent_last)

definition swiss_recent :: json where
  "swiss_recent = jobj [(''recent'', jobj [(''kind'', JStr ''country''), (''countryCode'', JStr ''ch'')])]"

theorem recorded_recent_is_last_witness:
  "\<exists>data' out r. record_recent (\<lambda>_. 7) swiss_recent store_file_default = (data', Inr out)
     \<and> out = jobj [(''recent'', r)] \<and> most_recent_connection (account_ref data') = Some r"
proof -
  let ?r = "record_recent (\<lambda>_. 7) swiss_recent store_file_default"
  have "\<not> is_err (snd ?r)" by code_simp
  then obtain out where "snd ?r = Inr out" by (cases "snd ?r") auto
  then have s: "?r = (fst ?r, Inr out)" by (metis prod.collapse)
  have "\<forall>r \<in> set (ac_recents (own_account store_file_default)). last_time r < - 1"
    by (simp add: store_file_default_def account_store_default_def)
  from recorded_recent_is_last [OF s this] s show ?thesis by blast
qed

text \<open>
  C32. The history policy of \<open>trim_recents\<close>: every pinned entry is kept and the pinned entries come
  out in the order of their pin times; at most six unpinned entries are kept, newest first, and no
  entry that is dropped is newer than an unpinned entry that is kept.
\<close>

theorem trim_recents_policy:
  shows "mset (pinned_of (trim_recents a)) = mset (pinned_of a)
     \<and> sorted (map pin_time (pinned_of (trim_recents a)))
     \<and> mset (unpinned_of (trim_recents a)) \<subseteq># mset (unpinned_of a)
     \<and> length (unpinned_of (trim_recents a)) = min 6 (length (unpinned_of a))
     \<and> sorted_wrt (\<lambda>x y. last_time y \<le> last_time x) (unpinned_of (trim_recents a))
     \<and> (\<forall>x \<in> set (unpinned_of (trim_recents a)).
          \<forall>y \<in># mset (unpinned_of a) - mset (unpinned_of (trim_recents a)). last_time y \<le> last_time x)"
proof (intro conjI ballI)
  show "mset (pinned_of (trim_recents a)) = mset (pinned_of a)"
    "sorted (map pin_time (pinned_of (trim_recents a)))"
    "length (unpinned_of (trim_recents a)) = min 6 (length (unpinned_of a))"
    unfolding trim_parts by (simp_all add: MAX_UNPINNED_RECENTS_def)
  show "mset (unpinned_of (trim_recents a)) \<subseteq># mset (unpinned_of a)"
    unfolding trim_parts by (metis append_take_drop_id mset_append mset_sort mset_subset_eq_add_left)
  show "sorted_wrt (\<lambda>x y. last_time y \<le> last_time x) (unpinned_of (trim_recents a))"
    using sorted_sort_key [of "\<lambda>v. - uint (last_time v)" "unpinned_of a"]
    unfolding trim_parts sorted_map by (intro sorted_wrt_take) (simp add: word_le_def)
qed (rule trim_dropped_older)

definition full_history :: account_store where
  "full_history = account_store_default\<lparr>ac_recents :=
     jobj [(''id'', JStr ''p''), (''pinned'', JBool True), (''pinTimeMs'', jnum 1)]
     # map (\<lambda>t. jobj [(''lastConnectionTimeMs'', jnum t)]) [1, 2, 3, 4, 5, 6, 7]\<rparr>"

theorem trim_recents_policy_witness:
  "length (pinned_of (trim_recents full_history)) = 1
   \<and> map last_time (unpinned_of (trim_recents full_history)) = [7, 6, 5, 4, 3, 2]
   \<and> length (unpinned_of (trim_recents full_history)) = min 6 (length (unpinned_of full_history))"
proof -
  have "length (pinned_of (trim_recents full_history)) = 1"
    "map last_time (unpinned_of (trim_recents full_history)) = [7, 6, 5, 4, 3, 2]" by code_simp+
  with trim_recents_policy [of full_history] show ?thesis by simp
qed

text \<open>
  A duplicated profile gets a free name: with at most 128 profiles the search of \<open>copy_name\<close>
  succeeds, and the name is that of no profile (ignoring ASCII case) and has at most 60
  characters.
\<close>

theorem copy_name_is_free:
  assumes "length profiles \<le> MAX_PROFILES"
  shows "\<not> list_ex (has_name (copy_name source profiles)) profiles
     \<and> chars_count (copy_name source profiles) \<le> 60"
  using copy_name_found [OF assms, of source] copy_candidate_length
  by (metis list_ex_iff)

theorem copy_name_is_free_witness:
  "copy_name ''Work'' [jobj [(''name'', JStr ''work COPY'')]] = ''Work copy 2''
   \<and> \<not> list_ex (has_name ''Work copy 2'') [jobj [(''name'', JStr ''work COPY'')]]"
proof -
  have "copy_name ''Work'' [jobj [(''name'', JStr ''work COPY'')]] = ''Work copy 2''" by code_simp
  with copy_name_is_free [of "[jobj [(''name'', JStr ''work COPY'')]]" "''Work''"]
  show ?thesis by (simp add: MAX_PROFILES_def)
qed

text \<open>
  Excluded locations are normalised: when \<open>excluded_locations.set\<close> succeeds the account holds at
  most 256 entries with pairwise distinct keys, each with a valid kind, an upper-case two-letter
  country code and the name its kind needs, and every requested item is represented by an entry
  with the same key.
\<close>

theorem excluded_locations_normalized:
  assumes "set_excluded_locations params data = (data', Inr out)"
    "ls = ac_excluded_locations (account_ref data')"
  shows "list_all excluded_ok ls \<and> distinct (map excluded_key ls) \<and> length ls \<le> 256
     \<and> (\<exists>raw. varr params ''items'' = Some raw
          \<and> (\<forall>item \<in> set raw. \<exists>l. excluded_item item = Inr l \<and> excluded_key l \<in> excluded_key ` set ls))"
proof -
  obtain xs where xs: "excluded_items params = Inr xs" "account_mut data (\<lambda>account.
         (account\<lparr>ac_excluded_locations := xs\<rparr>,
          Inr (jobj [(''items'', JArr (map excluded_location_json xs))]))) = (data', Inr out :: json backend_res)"
    using assms(1) unfolding set_excluded_locations_def bail_Inr
    by (elim exE conjE) (rule that)
  have "(own_account data)\<lparr>ac_excluded_locations := xs\<rparr> = account_ref data'"
    using account_mut_Inr [OF xs(2)] by (simp only: prod.inject)
  then have ls: "ls = xs" unfolding assms(2) by (metis account_store.select_convs(3) account_store.surjective account_store.update_convs(3))
  obtain raw items where r: "varr params ''items'' = Some raw" "length raw \<le> 256"
    "traverse excluded_item raw = Inr items" "ls = dedup_by excluded_key [] items"
    unfolding ls by (rule excluded_items_parts [OF xs(1)])
  have "list_all excluded_ok ls"
    unfolding list_all_iff
  proof
    fix l assume "l \<in> set ls"
    then have "l \<in> set items" unfolding r(4) by (rule subsetD [OF dedup_by_subset])
    then show "excluded_ok l" using traverse_set [OF r(3)] excluded_item_ok by blast
  qed
  moreover have "distinct (map excluded_key ls)"
    unfolding r(4) by (rule dedup_by_distinct [THEN conjunct1])
  moreover have "length ls \<le> 256"
    using length_dedup_by [of excluded_key "[]" items] traverse_length [OF r(3)] r(2,4) by simp
  moreover have "\<forall>item \<in> set raw. \<exists>l. excluded_item item = Inr l \<and> excluded_key l \<in> excluded_key ` set ls"
    unfolding r(4) using excluded_kept [OF r(3)] by (intro ballI) simp
  ultimately show ?thesis using r(1) by simp
qed

definition city_request :: json where
  "city_request = jobj [(''items'', JArr
     [jobj [(''kind'', JStr ''City''), (''country_code'', JStr ''ch''), (''city'', JStr ''Bern'')],
      jobj [(''kind'', JStr ''city''), (''country_code'', JStr ''CH''), (''city'', JStr ''BERN'')]])]"

theorem excluded_locations_normalized_witness:
  "\<exists>data' out ls. set_excluded_locations city_request store_file_default = (data', Inr out)
     \<and> ls = ac_excluded_locations (account_ref data') \<and> length ls = 1 \<and> list_all excluded_ok ls"
proof -
  let ?r = "set_excluded_locations city_request store_file_default"
  have l: "\<not> is_err (snd ?r)" "length (ac_excluded_locations (account_ref (fst ?r))) = 1"
    by code_simp+
  then obtain out where "snd ?r = Inr out" by (cases "snd ?r") auto
  then have s: "?r = (fst ?r, Inr out)" by (metis prod.collapse)
  from excluded_locations_normalized [OF s refl] s l(2) show ?thesis by blast
qed

section \<open>Where the code falls short of the contract\<close>

definition pinned_default_store :: store_file where
  "pinned_default_store = store_file_default\<lparr>sf_accounts := [(LEGACY_SCOPE, account_store_default
     \<lparr>ac_recents :=
        jobj [(''id'', JStr ''r0''), (''kind'', JStr ''country''), (''pinned'', JBool True)]
        # map (\<lambda>t. jobj [(''lastConnectionTimeMs'', jnum t)]) [6, 5, 4, 3, 2, 1],
      ac_default_connection := jobj [(''type'', JStr ''recent''), (''recentId'', JStr ''r0'')]\<rparr>)]\<rparr>"

text \<open>
  Unpinning trims the history but does not validate the default connection: the default can be
  a recent that \<open>recents.pin\<close> has just dropped, so that resolving the default connection fails.
\<close>

theorem unpin_leaves_dangling_default:
  "store_ok pinned_default_store
   \<and> \<not> store_ok (fst (pin_recent (\<lambda>_. 7) (jobj [(''id'', JStr ''r0''), (''pinned'', JBool False)])
                  pinned_default_store))
   \<and> is_err (resolve_connection (account_ref (fst (pin_recent (\<lambda>_. 7)
        (jobj [(''id'', JStr ''r0''), (''pinned'', JBool False)]) pinned_default_store))) (jobj []))"
  by code_simp

definition blank_id_request :: json where
  "blank_id_request = jobj [(''profile'', jobj [(''id'', JStr '' p1''), (''name'', JStr ''Work'')])]"

text \<open>
  A client-supplied id is stored as it is, but every lookup trims the id it is given: a profile
  saved under an id with a leading blank cannot be resolved.
\<close>

theorem untrimmed_id_is_unreachable:
  "\<not> is_err (snd (save_profile (\<lambda>_. 7) blank_id_request store_file_default))
   \<and> is_err (resolve_connection
        (account_ref (fst (save_profile (\<lambda>_. 7) blank_id_request store_file_default)))
        (select_profile '' p1''))"
  by code_simp

definition full_store :: store_file where
  "full_store = store_file_default\<lparr>sf_accounts := [(LEGACY_SCOPE, account_store_default
     \<lparr>ac_profiles := replicate 128 (jobj [])\<rparr>)]\<rparr>"

text \<open>
  The limit of 128 profiles is only checked when the store chooses the id: with an id of its own
  a client can save a 129th profile.
\<close>

theorem profile_limit_is_bypassed:
  "length (ac_profiles (account_ref full_store)) = MAX_PROFILES
   \<and> length (ac_profiles (account_ref (fst (save_profile (\<lambda>_. 7) blank_id_request full_store)))) = 129"
  by code_simp

end
