(* ===== verification/Atomic_File.thy ===== *)
theory Atomic_File
  imports Json
begin

text \<open>
  The way the program replaces a file: write a temporary beside it, flush it and rename it over
  the target. Three functions do this, the agent's \<open>save_store\<close> and \<open>save_private_bytes\<close>
  (\<^verbatim>\<open>agent/src/store.rs\<close>), the settings writer (\<^verbatim>\<open>agent/src/native_backend/settings_store.rs\<close>) and the daemon's
  \<open>StateStore::save\<close> (\<^verbatim>\<open>splitd/src/store.rs\<close>). A file system is a map from paths to bytes; a script says for every
  call that is still to come whether it fails, and a failing write has written a prefix. What the
  callers rely on is stated as two locales: the target is always the old or the complete new
  content, and, where it holds, a save that reports an error has not changed it.
\<close>

section \<open>Calls of the file system\<close>

record world =
  w_files :: "(string \<times> string) list"
  w_faults :: "nat option list"

datatype io_call =
    CreateDirAll string
  | SetPermissions string
  | CreateNew string
  | WriteAll string string
  | SyncAll string
  | Rename string string
  | SyncDir string
  | RemoveFile string

abbreviation content :: "world \<Rightarrow> string \<Rightarrow> string option" where
  "content w p \<equiv> obj_get (w_files w) p"

abbreviation put_file :: "string \<Rightarrow> string \<Rightarrow> world \<Rightarrow> world" where
  "put_file p bytes w \<equiv> w\<lparr>w_files := obj_insert p bytes (w_files w)\<rparr>"

abbreviation drop_file :: "string \<Rightarrow> world \<Rightarrow> world" where
  "drop_file p w \<equiv> w\<lparr>w_files := obj_remove p (w_files w)\<rparr>"

text \<open>The outcome the script has for the next call; an empty script means success.\<close>

definition next_fault :: "world \<Rightarrow> nat option \<times> world" where
  "next_fault w = (case w_faults w of [] \<Rightarrow> (None, w) | f # fs \<Rightarrow> (f, w\<lparr>w_faults := fs\<rparr>))"

definition perform :: "io_call \<Rightarrow> world \<Rightarrow> world \<times> bool" where
  "perform call w0 =
     (let (fault, w) = next_fault w0 in
      case call of
        CreateNew p \<Rightarrow>
          if fault \<noteq> None \<or> content w p \<noteq> None then (w, False) else (put_file p [] w, True)
      | WriteAll p bytes \<Rightarrow>
          (case content w p of
             None \<Rightarrow> (w, False)
           | Some old \<Rightarrow>
               (case fault of
                  None \<Rightarrow> (put_file p (old @ bytes) w, True)
                | Some n \<Rightarrow> (put_file p (old @ take n bytes) w, False)))
      | Rename p q \<Rightarrow>
          (case content w p of
             None \<Rightarrow> (w, False)
           | Some bytes \<Rightarrow>
               if fault \<noteq> None then (w, False) else (put_file q bytes (drop_file p w), True))
      | RemoveFile p \<Rightarrow>
          if fault \<noteq> None \<or> content w p = None then (w, False) else (drop_file p w, True)
      | _ \<Rightarrow> (w, fault = None))"

text \<open>A sequence of calls joined by \<open>?\<close> stops at the first failure.\<close>

fun perform_all :: "io_call list \<Rightarrow> world \<Rightarrow> world \<times> bool" where
  "perform_all [] w = (w, True)"
| "perform_all (c # cs) w = (let (w', ok) = perform c w in if ok then perform_all cs w' else (w', False))"

text \<open>\<open>if result.is_err() { let _ = fs::remove_file(..); }\<close>\<close>

definition or_remove :: "string \<Rightarrow> world \<times> bool \<Rightarrow> world \<times> bool" where
  "or_remove tmp r = (if snd r then r else (fst (perform (RemoveFile tmp) (fst r)), False))"

definition fill_and_rename :: "string \<Rightarrow> string \<Rightarrow> string \<Rightarrow> io_call list" where
  "fill_and_rename tmp path bytes =
     [WriteAll tmp bytes, WriteAll tmp [CHR 0x0A], SyncAll tmp, Rename tmp path]"

section \<open>The three writers\<close>

text \<open>The agent's writer: the temporary is created before the part that cleans up.
  \<open>limit\<close> is the size check of \<open>save_store\<close>, made after the directory exists.\<close>

definition replace_private ::
  "nat option \<Rightarrow> string \<Rightarrow> string \<Rightarrow> string \<Rightarrow> string \<Rightarrow> world \<Rightarrow> world \<times> bool" where
  "replace_private limit dir tmp path bytes w =
     (let (w1, ok1) = perform_all [CreateDirAll dir, SetPermissions dir] w in
      if \<not> ok1 then (w1, False)
      else if (case limit of None \<Rightarrow> False | Some n \<Rightarrow> n < length bytes) then (w1, False)
      else
      let (w2, ok2) = perform (CreateNew tmp) w1 in
      if \<not> ok2 then (w2, False)
      else or_remove tmp (perform_all (fill_and_rename tmp path bytes) w2))"

text \<open>The settings writer: no permission change on the directory, and the directory is flushed
  without looking at the result.\<close>

definition save_serialized :: "string \<Rightarrow> string \<Rightarrow> string \<Rightarrow> string \<Rightarrow> world \<Rightarrow> world \<times> bool" where
  "save_serialized dir tmp path bytes w =
     (let (w1, ok1) = perform (CreateDirAll dir) w in
      if \<not> ok1 then (w1, False)
      else
      let (w2, ok2) = or_remove tmp (perform_all (CreateNew tmp # fill_and_rename tmp path bytes) w1) in
      if ok2 then (fst (perform (SyncDir dir) w2), True) else (w2, False))"

text \<open>The daemon's writer: a failing flush of the directory is an error.\<close>

definition replace_state ::
  "nat \<Rightarrow> string \<Rightarrow> string \<Rightarrow> string \<Rightarrow> string \<Rightarrow> world \<Rightarrow> world \<times> bool" where
  "replace_state limit dir tmp path bytes w =
     (let (w1, ok1) = perform_all [CreateDirAll dir, SetPermissions dir] w in
      if \<not> ok1 then (w1, False)
      else if limit < length bytes then (w1, False)
      else or_remove tmp
             (perform_all (CreateNew tmp # fill_and_rename tmp path bytes @ [SyncDir dir]) w1))"

section \<open>Contracts\<close>

locale atomic_replace =
  fixes save :: "string \<Rightarrow> string \<Rightarrow> string \<Rightarrow> world \<Rightarrow> world \<times> bool"
  assumes saved: "tmp \<noteq> path \<Longrightarrow> save tmp path bytes w = (w', True) \<Longrightarrow>
        content w' path = Some (bytes @ [CHR 0x0A])"
    and old_or_new: "tmp \<noteq> path \<Longrightarrow>
        content (fst (save tmp path bytes w)) path = content w path
        \<or> content (fst (save tmp path bytes w)) path = Some (bytes @ [CHR 0x0A])"
    and other_files: "p \<noteq> tmp \<Longrightarrow> p \<noteq> path \<Longrightarrow> content (fst (save tmp path bytes w)) p = content w p"
begin

text \<open>A reader that accepted the old content and accepts the new one accepts what it finds after
  any save, whatever failed.\<close>

lemma readable:
  assumes "tmp \<noteq> path" "P (content w path)" "P (Some (bytes @ [CHR 0x0A]))"
  shows "P (content (fst (save tmp path bytes w)) path)"
  using old_or_new [OF assms(1), of bytes w] assms(2,3) by auto

end

locale strict_replace = atomic_replace +
  assumes failed: "tmp \<noteq> path \<Longrightarrow> save tmp path bytes w = (w', False) \<Longrightarrow> content w' path = content w path"
begin

lemma changed_only_on_success:
  assumes "tmp \<noteq> path" "content (fst (save tmp path bytes w)) path \<noteq> content w path"
  shows "snd (save tmp path bytes w)"
  using failed [OF assms(1), of bytes w] assms(2)
  by (metis (full_types) prod.collapse)

end

section \<open>The writers keep the contracts\<close>

lemma next_fault_files [simp]: "w_files (snd (next_fault w)) = w_files w"
  by (simp add: next_fault_def split: list.splits)

lemma perform_other:
  assumes "case c of CreateNew p \<Rightarrow> q \<noteq> p | WriteAll p _ \<Rightarrow> q \<noteq> p | Rename p p' \<Rightarrow> q \<noteq> p \<and> q \<noteq> p'
     | RemoveFile p \<Rightarrow> q \<noteq> p | _ \<Rightarrow> True"
  shows "content (fst (perform c w)) q = content w q"
proof -
  obtain f w' where nf: "next_fault w = (f, w')" by force
  then have "w_files w' = w_files w" using next_fault_files [of w] by simp
  then show ?thesis using assms nf
    by (cases c) (auto simp: perform_def split: option.splits)
qed

lemma perform_fail:
  assumes "perform c w = (w', False)" "case c of WriteAll p _ \<Rightarrow> q \<noteq> p | _ \<Rightarrow> True"
  shows "content w' q = content w q"
proof -
  obtain f v where nf: "next_fault w = (f, v)" by force
  then have "w_files v = w_files w" using next_fault_files [of w] by simp
  then show ?thesis using assms nf
    by (cases c) (auto simp: perform_def split: option.splits if_splits)
qed

lemma perform_all_other:
  assumes "\<forall>c \<in> set cs. (case c of CreateNew p \<Rightarrow> q \<noteq> p | WriteAll p _ \<Rightarrow> q \<noteq> p | Rename p p' \<Rightarrow> q \<noteq> p \<and> q \<noteq> p'
     | RemoveFile p \<Rightarrow> q \<noteq> p | _ \<Rightarrow> True)"
  shows "content (fst (perform_all cs w)) q = content w q"
  using assms
proof (induction cs arbitrary: w)
  case (Cons c cs)
  then show ?case using perform_other [of q c w]
    by (cases "perform c w") auto
qed simp

lemma or_remove_other: "q \<noteq> tmp \<Longrightarrow> content (fst (or_remove tmp r)) q = content (fst r) q"
  using perform_other [of q "RemoveFile tmp" "fst r"] by (simp add: or_remove_def)

lemma or_remove_ok [simp]: "snd (or_remove tmp r) = snd r"
  by (simp add: or_remove_def)

lemma perform_create:
  "perform (CreateNew tmp) w = (w', True) \<Longrightarrow> content w' tmp = Some [] \<and> (q \<noteq> tmp \<longrightarrow> content w' q = content w q)"
  using perform_other [of q "CreateNew tmp" w]
  by (auto simp: perform_def split: prod.splits if_splits)

text \<open>The core: from an empty temporary the target is untouched until the rename.\<close>

lemma fill_and_rename_result:
  assumes "tmp \<noteq> path" "content w tmp = Some []" "perform_all (fill_and_rename tmp path bytes) w = (w', ok)"
  shows "if ok then content w' path = Some (bytes @ [CHR 0x0A]) else content w' path = content w path"
proof -
  have w: "perform (WriteAll tmp bs) v = (v', True) \<Longrightarrow> content v tmp = Some old \<Longrightarrow> content v' tmp = Some (old @ bs)"
    for bs v v' old
    using next_fault_files [of v]
    by (cases "next_fault v") (auto simp: perform_def split: option.splits)
  have s: "perform (SyncAll tmp) v = (v', True) \<Longrightarrow> content v' tmp = content v tmp" for v v'
    using perform_other [of tmp "SyncAll tmp" v] by simp
  have r: "perform (Rename tmp path) v = (v', True) \<Longrightarrow> content v tmp = Some bs \<Longrightarrow> content v' path = Some bs" for v v' bs
    using next_fault_files [of v] assms(1)
    by (cases "next_fault v") (auto simp: perform_def split: option.splits if_splits)
  obtain w1 k1 where 1: "perform (WriteAll tmp bytes) w = (w1, k1)" by force
  obtain w2 k2 where 2: "perform (WriteAll tmp [CHR 0x0A]) w1 = (w2, k2)" by force
  obtain w3 k3 where 3: "perform (SyncAll tmp) w2 = (w3, k3)" by force
  obtain w4 k4 where 4: "perform (Rename tmp path) w3 = (w4, k4)" by force
  have p: "content w1 path = content w path" "content w2 path = content w1 path" "content w3 path = content w2 path"
    "k4 \<or> content w4 path = content w3 path"
    using perform_other [of path "WriteAll tmp bytes" w] perform_other [of path "WriteAll tmp [CHR 0x0A]" w1]
      perform_other [of path "SyncAll tmp" w2] perform_fail [of "Rename tmp path" w3 w4 path] 1 2 3 4 assms(1)
    by auto
  show ?thesis
  proof (cases "k1 \<and> k2 \<and> k3 \<and> k4")
    case True
    then have "ok" "w' = w4" using assms(3) 1 2 3 4 by (auto simp: fill_and_rename_def)
    moreover have "content w3 tmp = Some (bytes @ [CHR 0x0A])"
      using True w [of bytes w w1 "[]"] w [of "[CHR 0x0A]" w1 w2 bytes] s [of w2 w3] 1 2 3 assms(2) by simp
    ultimately show ?thesis using r [of w3 w4] 4 True by simp
  next
    case False
    then have "\<not> ok" "content w' path = content w path"
      using assms(3) 1 2 3 4 p by (auto simp: fill_and_rename_def split: if_splits)
    then show ?thesis by simp
  qed
qed

lemma perform_all_append:
  "perform_all (cs @ ds) w = (let (w', ok) = perform_all cs w in if ok then perform_all ds w' else (w', False))"
  by (induction cs arbitrary: w) (auto split: prod.splits)

lemma create_fill_rename_result:
  assumes "tmp \<noteq> path" "perform_all (CreateNew tmp # fill_and_rename tmp path bytes) w = (w', ok)"
  shows "if ok then content w' path = Some (bytes @ [CHR 0x0A]) else content w' path = content w path"
proof -
  obtain w1 k1 where 1: "perform (CreateNew tmp) w = (w1, k1)" by force
  show ?thesis
  proof (cases k1)
    case True
    then have "content w1 tmp = Some []" "content w1 path = content w path"
      using perform_create [of tmp w w1 path] 1 assms(1) by auto
    then show ?thesis
      using fill_and_rename_result [OF assms(1), of w1 bytes w' ok] assms(2) 1 True by auto
  next
    case False
    then show ?thesis using perform_fail [of "CreateNew tmp" w w1 path] 1 assms(2) by simp
  qed
qed

lemma prepare_files:
  "perform_all [CreateDirAll dir, SetPermissions dir] w = (w', ok) \<Longrightarrow> content w' q = content w q"
  using perform_all_other [of "[CreateDirAll dir, SetPermissions dir]" q w] by simp

lemma replace_private_result:
  assumes "tmp \<noteq> path" "replace_private limit dir tmp path bytes w = (w', ok)"
  shows "if ok then content w' path = Some (bytes @ [CHR 0x0A]) else content w' path = content w path"
proof -
  obtain w1 k1 where 1: "perform_all [CreateDirAll dir, SetPermissions dir] w = (w1, k1)" by force
  obtain w2 k2 where 2: "perform (CreateNew tmp) w1 = (w2, k2)" by force
  obtain w3 k3 where 3: "perform_all (fill_and_rename tmp path bytes) w2 = (w3, k3)" by force
  have p1: "content w1 path = content w path" by (rule prepare_files [OF 1])
  consider "\<not> k1 \<or> (case limit of None \<Rightarrow> False | Some n \<Rightarrow> n < length bytes)" "w' = w1" "\<not> ok"
    | "\<not> k2" "w' = w2" "\<not> ok" | "k2" "(w', ok) = or_remove tmp (w3, k3)"
    using assms(2) unfolding replace_private_def Let_def 1 prod.case 2 3 by (auto split: if_splits)
  then show ?thesis
  proof cases
    case 1
    then show ?thesis using p1 by simp
  next
    case 2
    then show ?thesis using perform_fail [of "CreateNew tmp" w1 w2 path] \<open>perform (CreateNew tmp) w1 = (w2, k2)\<close> p1
      by simp
  next
    case c: 3
    have "content w2 tmp = Some []" "content w2 path = content w path"
      using perform_create [of tmp w1 w2 path] 2 c(1) p1 assms(1) by auto
    then have "if k3 then content w3 path = Some (bytes @ [CHR 0x0A]) else content w3 path = content w path"
      using fill_and_rename_result [OF assms(1) _ 3] by simp
    moreover have "ok = k3" "content w' path = content w3 path"
      using or_remove_ok [of tmp "(w3, k3)"] or_remove_other [of path tmp "(w3, k3)"] assms(1)
      unfolding c(2) [symmetric] by auto
    ultimately show ?thesis by simp
  qed
qed

lemma replace_private_other:
  assumes "q \<noteq> tmp" "q \<noteq> path"
  shows "content (fst (replace_private limit dir tmp path bytes w)) q = content w q"
proof -
  have a: "content (fst (perform_all [CreateDirAll dir, SetPermissions dir] w)) q = content w q"
    by (rule perform_all_other) simp
  have b: "content (fst (perform (CreateNew tmp) v)) q = content v q" for v
    using assms by (intro perform_other) simp
  have c: "content (fst (perform_all (fill_and_rename tmp path bytes) v)) q = content v q" for v
    using assms by (intro perform_all_other) (simp add: fill_and_rename_def)
  show ?thesis
    using a b c assms(1) by (auto simp: replace_private_def Let_def or_remove_other split: prod.splits)
       (metis fst_conv)+
qed

interpretation agent_file: strict_replace "replace_private limit dir" for limit dir
proof
  fix tmp path bytes :: string and w w' :: world
  assume n: "tmp \<noteq> path"
  show "replace_private limit dir tmp path bytes w = (w', True) \<Longrightarrow> content w' path = Some (bytes @ [CHR 0x0A])"
    "replace_private limit dir tmp path bytes w = (w', False) \<Longrightarrow> content w' path = content w path"
    using replace_private_result [OF n, of limit dir bytes w w'] by auto
  show "content (fst (replace_private limit dir tmp path bytes w)) path = content w path
        \<or> content (fst (replace_private limit dir tmp path bytes w)) path = Some (bytes @ [CHR 0x0A])"
    using replace_private_result [OF n, of limit dir bytes w "fst (replace_private limit dir tmp path bytes w)"
        "snd (replace_private limit dir tmp path bytes w)"] by (auto split: if_splits)
qed (rule replace_private_other)

lemma save_serialized_result:
  assumes "tmp \<noteq> path" "save_serialized dir tmp path bytes w = (w', ok)"
  shows "if ok then content w' path = Some (bytes @ [CHR 0x0A]) else content w' path = content w path"
proof -
  obtain w1 k1 where 1: "perform (CreateDirAll dir) w = (w1, k1)" by force
  obtain w2 k2 where 2: "perform_all (CreateNew tmp # fill_and_rename tmp path bytes) w1 = (w2, k2)" by force
  have p1: "content w1 path = content w path" using perform_other [of path "CreateDirAll dir" w] 1 by simp
  have r: "if k2 then content w2 path = Some (bytes @ [CHR 0x0A]) else content w2 path = content w path"
    using create_fill_rename_result [OF assms(1) 2] p1 by simp
  have o: "content (fst (or_remove tmp (w2, k2))) path = content w2 path"
    using or_remove_other [of path tmp "(w2, k2)"] assms(1) by simp
  have s: "content (fst (perform (SyncDir dir) v)) path = content v path" for v
    by (rule perform_other) simp
  show ?thesis
    using assms(2) r o s or_remove_ok [of tmp "(w2, k2)"] p1
    unfolding save_serialized_def Let_def 1 prod.case 2
    by (cases "or_remove tmp (w2, k2)") (auto split: if_splits)
qed

lemma save_serialized_other:
  assumes "q \<noteq> tmp" "q \<noteq> path"
  shows "content (fst (save_serialized dir tmp path bytes w)) q = content w q"
proof -
  have a: "content (fst (perform (CreateDirAll dir) w)) q = content w q" by (rule perform_other) simp
  have b: "content (fst (perform_all (CreateNew tmp # fill_and_rename tmp path bytes) v)) q = content v q" for v
    using assms by (intro perform_all_other) (simp add: fill_and_rename_def)
  have c: "content (fst (perform (SyncDir dir) v)) q = content v q" for v by (rule perform_other) simp
  have d: "content (fst (or_remove tmp r)) q = content (fst r) q" for r
    using assms(1) by (rule or_remove_other)
  show ?thesis
    unfolding save_serialized_def Let_def case_prod_beta using a b c d by simp
qed

interpretation settings_file: strict_replace "save_serialized dir" for dir
proof
  fix tmp path bytes :: string and w w' :: world
  assume n: "tmp \<noteq> path"
  show "save_serialized dir tmp path bytes w = (w', True) \<Longrightarrow> content w' path = Some (bytes @ [CHR 0x0A])"
    "save_serialized dir tmp path bytes w = (w', False) \<Longrightarrow> content w' path = content w path"
    using save_serialized_result [OF n, of dir bytes w w'] by auto
  show "content (fst (save_serialized dir tmp path bytes w)) path = content w path
        \<or> content (fst (save_serialized dir tmp path bytes w)) path = Some (bytes @ [CHR 0x0A])"
    using save_serialized_result [OF n, of dir bytes w "fst (save_serialized dir tmp path bytes w)"
        "snd (save_serialized dir tmp path bytes w)"] by (auto split: if_splits)
qed (rule save_serialized_other)

text \<open>The daemon's writer keeps only the weaker contract.\<close>

lemma replace_state_result:
  assumes "tmp \<noteq> path" "replace_state limit dir tmp path bytes w = (w', ok)"
  shows "content w' path = Some (bytes @ [CHR 0x0A]) \<or> \<not> ok \<and> content w' path = content w path"
proof -
  let ?cs = "CreateNew tmp # fill_and_rename tmp path bytes"
  obtain w1 k1 where 1: "perform_all [CreateDirAll dir, SetPermissions dir] w = (w1, k1)" by force
  obtain w2 k2 where 2: "perform_all ?cs w1 = (w2, k2)" by force
  obtain w3 k3 where 3: "perform (SyncDir dir) w2 = (w3, k3)" by force
  have p1: "content w1 path = content w path" by (rule prepare_files [OF 1])
  have r: "if k2 then content w2 path = Some (bytes @ [CHR 0x0A]) else content w2 path = content w path"
    using create_fill_rename_result [OF assms(1) 2] p1 by simp
  have s: "content w3 path = content w2 path" using perform_other [of path "SyncDir dir" w2] 3 by simp
  have all: "perform_all (?cs @ [SyncDir dir]) w1 = (if k2 then (w3, k3) else (w2, False))"
    unfolding perform_all_append 2 by (simp add: 3)
  have o: "content (fst (or_remove tmp x)) path = content (fst x) path" for x
    using assms(1) by (intro or_remove_other) simp
  have "(w', ok) = (if \<not> k1 \<or> limit < length bytes then (w1, False)
      else or_remove tmp (if k2 then (w3, k3) else (w2, False)))"
    using assms(2) unfolding replace_state_def Let_def 1 prod.case
    using all by (simp split: if_splits)
  then show ?thesis
    using p1 r s o [of "(w3, k3)"] o [of "(w2, False)"]
      or_remove_ok [of tmp "(w3, k3)"] or_remove_ok [of tmp "(w2, False)"]
    by (cases "or_remove tmp (w3, k3)"; cases "or_remove tmp (w2, False)") (auto split: if_splits)
qed

lemma replace_state_other:
  assumes "q \<noteq> tmp" "q \<noteq> path"
  shows "content (fst (replace_state limit dir tmp path bytes w)) q = content w q"
proof -
  have a: "content (fst (perform_all [CreateDirAll dir, SetPermissions dir] w)) q = content w q"
    by (rule perform_all_other) simp
  have b: "content (fst (perform_all (CreateNew tmp # fill_and_rename tmp path bytes @ [SyncDir dir]) v)) q
      = content v q" for v
    using assms by (intro perform_all_other) (simp add: fill_and_rename_def)
  have d: "content (fst (or_remove tmp r)) q = content (fst r) q" for r
    using assms(1) by (rule or_remove_other)
  show ?thesis unfolding replace_state_def Let_def case_prod_beta using a b d by simp
qed

interpretation state_file: atomic_replace "replace_state limit dir" for limit dir
proof
  fix tmp path bytes :: string and w w' :: world
  assume n: "tmp \<noteq> path"
  show "replace_state limit dir tmp path bytes w = (w', True) \<Longrightarrow> content w' path = Some (bytes @ [CHR 0x0A])"
    using replace_state_result [OF n, of limit dir bytes w w' True] by auto
  show "content (fst (replace_state limit dir tmp path bytes w)) path = content w path
        \<or> content (fst (replace_state limit dir tmp path bytes w)) path = Some (bytes @ [CHR 0x0A])"
    using replace_state_result [OF n, of limit dir bytes w "fst (replace_state limit dir tmp path bytes w)"
        "snd (replace_state limit dir tmp path bytes w)"] by auto
qed (rule replace_state_other)

section \<open>Properties\<close>

lemma crash_prefix:
  assumes "tmp \<noteq> path"
  shows "content (fst (perform_all (take n (CreateNew tmp # fill_and_rename tmp path bytes)) w)) path
     \<in> {content w path, Some (bytes @ [CHR 0x0A])}"
proof (cases "n < 5")
  case True
  have sub: "set (take n (CreateNew tmp # fill_and_rename tmp path bytes))
     \<subseteq> {CreateNew tmp, WriteAll tmp bytes, WriteAll tmp [CHR 0x0A], SyncAll tmp}"
  proof -
    have "take n (CreateNew tmp # fill_and_rename tmp path bytes)
        = take n [CreateNew tmp, WriteAll tmp bytes, WriteAll tmp [CHR 0x0A], SyncAll tmp]"
      using True by (auto simp: fill_and_rename_def take_Cons' less_Suc_eq numeral_eq_Suc)
    then show ?thesis using set_take_subset by fastforce
  qed
  have "content (fst (perform_all (take n (CreateNew tmp # fill_and_rename tmp path bytes)) w)) path
     = content w path"
    by (rule perform_all_other) (use sub assms in auto)
  then show ?thesis by simp
next
  case False
  then have t: "take n (CreateNew tmp # fill_and_rename tmp path bytes) = CreateNew tmp # fill_and_rename tmp path bytes"
    by (simp add: fill_and_rename_def)
  show ?thesis
    unfolding t using create_fill_rename_result [OF assms]
    by (cases "perform_all (CreateNew tmp # fill_and_rename tmp path bytes) w") (fastforce split: if_splits)
qed

text \<open>
  C27. Replacing the agent's private files is atomic: whichever of its calls fail, the target ends
  up with exactly the new bytes and a newline when the save reports success and with its old
  content when it reports an error, no other file than the temporary changes, and a crash after
  any number of the calls that touch files leaves the old or the complete new content.
\<close>

theorem private_save_is_atomic:
  assumes "tmp \<noteq> path" "replace_private limit dir tmp path bytes w = (w', ok)"
  shows "content w' path = (if ok then Some (bytes @ [CHR 0x0A]) else content w path)
    \<and> (q \<noteq> tmp \<longrightarrow> q \<noteq> path \<longrightarrow> content w' q = content w q)
    \<and> content (fst (perform_all (take n (CreateNew tmp # fill_and_rename tmp path bytes)) w)) path
        \<in> {content w path, Some (bytes @ [CHR 0x0A])}"
proof (intro conjI impI)
  show "content w' path = (if ok then Some (bytes @ [CHR 0x0A]) else content w path)"
    using assms agent_file.saved [of tmp path limit dir bytes w w']
      agent_file.failed [of tmp path limit dir bytes w w'] by (cases ok) auto
  show "q \<noteq> tmp \<Longrightarrow> q \<noteq> path \<Longrightarrow> content w' q = content w q"
    using agent_file.other_files [of q tmp path limit dir bytes w] assms(2) by simp
qed (rule crash_prefix [OF assms(1)])

definition disk_full :: world where
  "disk_full = \<lparr>w_files = [(''s'', ''old'')], w_faults = [None, None, None, Some 2]\<rparr>"

theorem private_save_is_atomic_witness:
  "content (fst (replace_private None ''d'' ''t'' ''s'' ''fresh'' disk_full)) ''s'' = Some ''old''
   \<and> \<not> snd (replace_private None ''d'' ''t'' ''s'' ''fresh'' disk_full)"
proof -
  have "replace_private None ''d'' ''t'' ''s'' ''fresh'' disk_full
     = (\<lparr>w_files = [(''s'', ''old'')], w_faults = []\<rparr>, False)" by code_simp
  then show ?thesis
    using private_save_is_atomic [of "''t''" "''s''" None "''d''" "''fresh''" disk_full]
    by (simp add: disk_full_def obj_get_def)
qed

text \<open>
  The daemon's writer reports an error when only the last flush of the directory failed, with
  the new content already in place.
\<close>

theorem state_save_fails_after_replacing:
  "\<exists>w'. replace_state 100 ''d'' ''t'' ''s'' ''fresh''
       \<lparr>w_files = [(''s'', ''old'')], w_faults = replicate 7 None @ [Some 0]\<rparr> = (w', False)
     \<and> content w' ''s'' = Some (''fresh'' @ [CHR 0x0A])"
proof -
  have "replace_state 100 ''d'' ''t'' ''s'' ''fresh''
       \<lparr>w_files = [(''s'', ''old'')], w_faults = replicate 7 None @ [Some 0]\<rparr>
     = (\<lparr>w_files = [(''s'', ''fresh'' @ [CHR 0x0A])], w_faults = []\<rparr>, False)" by code_simp
  then show ?thesis by (simp add: obj_get_def)
qed

end
