(* ===== verification/Operations.thy ===== *)
theory Operations
  imports Protocol
begin

text \<open>
  The operation coordinator of \<^verbatim>\<open>agent/src/operations.rs\<close>. Every request that changes the session, the
  tunnel, the store or the support channel first takes a lease from the coordinator, which refuses
  an operation whose domain conflicts with a running one, and hands the lease back when it is done.
  The registry behind the mutex and the snapshot in the watch channel form the state; every public
  method is one function on it, with the clock reading as an argument.

  Proved here: running operations are pairwise compatible, so at most three run at once; operation
  identifiers are distinct; the published snapshot always shows the registry; how \<open>finish\<close>
  classifies an operation; how a control request (cancel, PIN) acts on its target.
\<close>

section \<open>Specifications of the operations\<close>

definition RECENT_OPERATION_LIMIT :: nat where "RECENT_OPERATION_LIMIT = 16"

record control_spec =
  ct_target_kind :: string
  ct_stage :: string
  ct_cancelable :: bool
  ct_failure_stage :: string
  ct_failure_cancelable :: bool
  ct_requires_target :: bool

record op_spec =
  sp_domain :: operation_domain
  sp_stage :: string
  sp_cancelable :: bool
  sp_control :: "control_spec option"

definition mk_spec ::
  "operation_domain \<Rightarrow> string \<Rightarrow> bool \<Rightarrow> control_spec option \<Rightarrow> op_spec" where
  "mk_spec d st c ctl = \<lparr>sp_domain = d, sp_stage = st, sp_cancelable = c, sp_control = ctl\<rparr>"

definition pin_control :: control_spec where
  "pin_control =
     \<lparr>ct_target_kind = ''account.authenticate_fido2'',
      ct_stage = ''auth.submitting_security_key_pin'', ct_cancelable = True,
      ct_failure_stage = ''auth.security_key_pin_failed'', ct_failure_cancelable = True,
      ct_requires_target = True\<rparr>"

definition cancel_fido2_control :: control_spec where
  "cancel_fido2_control =
     \<lparr>ct_target_kind = ''account.authenticate_fido2'',
      ct_stage = ''auth.cancelling_security_key'', ct_cancelable = False,
      ct_failure_stage = ''auth.security_key_cancel_failed'', ct_failure_cancelable = True,
      ct_requires_target = True\<rparr>"

definition cancel_connect_control :: control_spec where
  "cancel_connect_control =
     \<lparr>ct_target_kind = ''connection.connect'', ct_stage = ''tunnel.cancelling'',
      ct_cancelable = False, ct_failure_stage = ''tunnel.cancel_failed'',
      ct_failure_cancelable = True, ct_requires_target = False\<rparr>"

definition store_operations :: "string list" where
  "store_operations =
     [''onboarding.complete'', ''preferences.set'', ''profiles.save'', ''profiles.duplicate'',
      ''profiles.delete'', ''recents.record'', ''recents.pin'', ''recents.delete'',
      ''default_connection.set'']"

text \<open>The \<open>match\<close> on the method name, as a table.\<close>

definition operation_specs :: "(string \<times> op_spec) list" where
  "operation_specs =
     [(''account.login'', mk_spec AuthSession ''auth.submitting_credentials'' False None),
      (''account.submit_2fa'', mk_spec AuthSession ''auth.submitting_two_factor'' False None),
      (''account.authenticate_fido2'',
        mk_spec AuthSession ''auth.scanning_security_keys'' True None),
      (''account.submit_fido2_pin'',
        mk_spec AuthSession ''auth.submitting_security_key_pin'' False (Some pin_control)),
      (''account.cancel_fido2'',
        mk_spec AuthSession ''auth.cancelling_security_key'' False (Some cancel_fido2_control)),
      (''account.logout'', mk_spec AuthSession ''auth.signing_out'' False None),
      (''account.refresh'', mk_spec AuthSession ''auth.loading_account'' False None),
      (''connection.connect'',
        mk_spec TunnelConfiguration ''tunnel.preparing_connection'' True None),
      (''connection.disconnect'',
        mk_spec TunnelConfiguration ''tunnel.disconnecting'' False (Some cancel_connect_control)),
      (''connection.cancel'',
        mk_spec TunnelConfiguration ''tunnel.cancelling'' False (Some cancel_connect_control)),
      (''feature.set'', mk_spec TunnelConfiguration ''settings.applying_feature'' False None),
      (''protocol.set'', mk_spec TunnelConfiguration ''settings.applying_protocol'' False None),
      (''dns.set'', mk_spec TunnelConfiguration ''settings.applying_dns'' False None),
      (''split_tunneling.set'',
        mk_spec TunnelConfiguration ''settings.applying_split_tunneling'' False None),
      (''report_issue.submit'', mk_spec Support ''support.submitting_report'' False None),
      (''connection.feedback'',
        mk_spec Support ''support.submitting_connection_feedback'' False None),
      (''netshield.stats.get'',
        mk_spec Support ''support.requesting_netshield_statistics'' False None)]
     @ map (\<lambda>m. (m, mk_spec Store ''store.saving'' False None)) store_operations"

definition operation_spec :: "string \<Rightarrow> op_spec option" where
  "operation_spec = map_of operation_specs"

fun domains_conflict :: "operation_domain \<Rightarrow> operation_domain \<Rightarrow> bool" where
  "domains_conflict Store Store = True"
| "domains_conflict Store _ = False"
| "domains_conflict _ Store = False"
| "domains_conflict Support TunnelConfiguration = False"
| "domains_conflict TunnelConfiguration Support = False"
| "domains_conflict Support Support = True"
| "domains_conflict AuthSession _ = True"
| "domains_conflict _ AuthSession = True"
| "domains_conflict TunnelConfiguration TunnelConfiguration = True"

definition requires_stable_session :: "string \<Rightarrow> bool" where
  "requires_stable_session m \<longleftrightarrow>
     m \<in> set [''account.upgrade_url'', ''report_issue.categories.get'', ''locations.get'',
              ''servers.get'', ''servers.lookup'', ''apps.get'', ''connection.observe'',
              ''traffic.get'']"

definition completion_stage :: "string \<Rightarrow> string" where
  "completion_stage m =
     (if m \<in> set [''account.login'', ''account.submit_2fa'', ''account.authenticate_fido2'']
      then ''auth.complete''
      else if m = ''account.logout'' then ''auth.signed_out''
      else if m = ''connection.connect'' then ''tunnel.connected''
      else if m \<in> set [''connection.disconnect'', ''connection.cancel''] then ''tunnel.disconnected''
      else if m = ''report_issue.submit'' then ''support.report_submitted''
      else if m \<in> set store_operations then ''store.saved''
      else ''settings.applied'')"

definition failure_stage :: "string \<Rightarrow> string" where
  "failure_stage m =
     (if m = ''account.login'' then ''auth.credentials_failed''
      else if m = ''account.submit_2fa'' then ''auth.two_factor_failed''
      else if m = ''account.authenticate_fido2'' then ''auth.security_key_failed''
      else if m = ''account.logout'' then ''auth.logout_failed''
      else if m = ''connection.connect'' then ''tunnel.connection_failed''
      else if m \<in> set [''connection.disconnect'', ''connection.cancel'']
      then ''tunnel.disconnect_failed''
      else if m = ''report_issue.submit'' then ''support.report_failed''
      else if m \<in> set store_operations then ''store.save_failed''
      else ''settings.apply_failed'')"

definition cancelled_stage :: "string \<Rightarrow> string" where
  "cancelled_stage m =
     (if m = ''account.authenticate_fido2'' then ''auth.security_key_cancelled''
      else ''tunnel.cancelled'')"

definition is_cancelled_error :: "string \<Rightarrow> bool" where
  "is_cancelled_error code \<longleftrightarrow>
     code \<in> set [''cancelled'', ''operation_cancelled'', ''connection_cancelled'',
                 ''fido2_cancelled'']"

definition operation_error_of :: "backend_error \<Rightarrow> operation_error" where
  "operation_error_of e =
     \<lparr>oe_code = be_code e, oe_details = be_details e, oe_retryable = be_retryable e\<rparr>"

section \<open>The coordinator\<close>

record operation_registry =
  rg_next_id :: u64
  rg_active :: "operation_record list"
  rg_recent :: "operation_record list"

record coordinator =
  co_registry :: operation_registry
  co_state :: state_snapshot

record operation_lease =
  ls_id :: string
  ls_owns_completion :: bool
  ls_control_failure_stage :: "string option"
  ls_control_failure_cancelable :: bool

definition coordinator_new :: "state_snapshot \<Rightarrow> coordinator" where
  "coordinator_new s =
     \<lparr>co_registry = \<lparr>rg_next_id = 1, rg_active = [], rg_recent = []\<rparr>, co_state = s\<rparr>"

definition publish :: "operation_registry \<Rightarrow> coordinator \<Rightarrow> coordinator" where
  "publish rg c =
     c\<lparr>co_registry := rg,
       co_state := (co_state c)\<lparr>
         sn_operations := \<lparr>os_active = rg_active rg, os_recent = rg_recent rg\<rparr>,
         sn_revision := sn_revision (co_state c) + 1\<rparr>\<rparr>"

definition conflict_error :: "string \<Rightarrow> operation_record \<Rightarrow> backend_error" where
  "conflict_error message active =
     retryable True
       (with_details (jobj [(''active_operation'', operation_record_json active)])
         (backend_error_new ''operation_conflict'' message))"

definition guard_read :: "string \<Rightarrow> coordinator \<Rightarrow> unit backend_res" where
  "guard_read meth c =
     (if \<not> requires_stable_session meth then Inr ()
      else case find (\<lambda>r. op_domain r = AuthSession) (rg_active (co_registry c)) of
          Some active \<Rightarrow>
            Inl (conflict_error ''Authentication state is changing; retry this request afterwards''
                   active)
        | None \<Rightarrow> Inr ())"

definition op_identifier :: "u64 \<Rightarrow> string" where
  "op_identifier n = ''op-'' @ hex 16 (unat n)"

definition is_control_target :: "op_spec \<Rightarrow> control_spec \<Rightarrow> operation_record \<Rightarrow> bool" where
  "is_control_target spec ctl r \<longleftrightarrow>
     op_domain r = sp_domain spec \<and> op_kind r = ct_target_kind ctl \<and> op_state r = Running"

definition new_operation ::
  "u64 \<Rightarrow> string \<Rightarrow> string \<Rightarrow> op_spec \<Rightarrow> u64 \<Rightarrow> operation_record" where
  "new_operation now client meth spec n =
     \<lparr>op_id = op_identifier n, op_client = client, op_domain = sp_domain spec, op_kind = meth,
      op_state = Running, op_stage = sp_stage spec, op_started = now, op_updated = now,
      op_finished = None, op_cancelable = sp_cancelable spec, op_error = None\<rparr>"

text \<open>\<open>begin\<close> after the control request has been ruled out: the conflict check and the new entry.\<close>

definition begin_new ::
  "u64 \<Rightarrow> string \<Rightarrow> string \<Rightarrow> op_spec \<Rightarrow> coordinator
   \<Rightarrow> coordinator \<times> operation_lease option backend_res" where
  "begin_new now client meth spec c =
     (let rg = co_registry c in
      case find (\<lambda>r. domains_conflict (sp_domain spec) (op_domain r)) (rg_active rg) of
        Some active \<Rightarrow>
          (c, Inl (conflict_error
                     ''Another incompatible Proton VPN operation is already running'' active))
      | None \<Rightarrow>
          (publish (rg\<lparr>rg_next_id := rg_next_id rg + 1,
                       rg_active := rg_active rg
                                    @ [new_operation now client meth spec (rg_next_id rg)]\<rparr>) c,
           Inr (Some \<lparr>ls_id = op_identifier (rg_next_id rg), ls_owns_completion = True,
                      ls_control_failure_stage = None,
                      ls_control_failure_cancelable = False\<rparr>)))"

definition apply_control :: "u64 \<Rightarrow> control_spec \<Rightarrow> operation_record \<Rightarrow> operation_record" where
  "apply_control now ctl r =
     r\<lparr>op_stage := ct_stage ctl, op_updated := now, op_cancelable := ct_cancelable ctl,
       op_error := None\<rparr>"

definition op_begin ::
  "u64 \<Rightarrow> string \<Rightarrow> string \<Rightarrow> coordinator \<Rightarrow> coordinator \<times> operation_lease option backend_res"
where
  "op_begin now client meth c =
     (case operation_spec meth of
        None \<Rightarrow> (c, rbind (guard_read meth c) (\<lambda>_. Inr None))
      | Some spec \<Rightarrow>
         (case sp_control spec of
            None \<Rightarrow> begin_new now client meth spec c
          | Some ctl \<Rightarrow>
             (case find (is_control_target spec ctl) (rg_active (co_registry c)) of
                Some active \<Rightarrow>
                  (publish ((co_registry c)\<lparr>rg_active :=
                      modify_first (is_control_target spec ctl) (apply_control now ctl)
                        (rg_active (co_registry c))\<rparr>) c,
                   Inr (Some \<lparr>ls_id = op_id active, ls_owns_completion = False,
                              ls_control_failure_stage = Some (ct_failure_stage ctl),
                              ls_control_failure_cancelable = ct_failure_cancelable ctl\<rparr>))
              | None \<Rightarrow>
                  if ct_requires_target ctl
                  then (c, Inl (backend_error_new ''operation_not_active''
                                 ''The operation controlled by this request is not active''))
                  else begin_new now client meth spec c)))"

definition cancellation_requested :: "operation_record \<Rightarrow> bool" where
  "cancellation_requested r \<longleftrightarrow>
     op_stage r \<in> set [''tunnel.cancelling'', ''auth.cancelling_security_key'']"

text \<open>The record that \<open>finish\<close> moves to the recent list; the result is \<open>None\<close> for \<open>Ok(())\<close>.\<close>

definition finished_operation ::
  "u64 \<Rightarrow> backend_error option \<Rightarrow> operation_record \<Rightarrow> operation_record" where
  "finished_operation now result r =
     (let r' = r\<lparr>op_updated := now, op_finished := Some now, op_cancelable := False\<rparr> in
      case result of
        None \<Rightarrow>
          if cancellation_requested r
          then r'\<lparr>op_state := Cancelled, op_stage := cancelled_stage (op_kind r)\<rparr>
          else r'\<lparr>op_state := Succeeded, op_stage := completion_stage (op_kind r)\<rparr>
      | Some e \<Rightarrow>
          if cancellation_requested r \<or> is_cancelled_error (be_code e)
          then r'\<lparr>op_state := Cancelled, op_stage := cancelled_stage (op_kind r), op_error := None\<rparr>
          else r'\<lparr>op_state := Failed, op_stage := failure_stage (op_kind r),
                  op_error := Some (operation_error_of e)\<rparr>)"

definition control_failed ::
  "u64 \<Rightarrow> operation_lease \<Rightarrow> backend_error \<Rightarrow> operation_record \<Rightarrow> operation_record" where
  "control_failed now lease e r =
     r\<lparr>op_stage := unwrap_or ''operation.control_failed'' (ls_control_failure_stage lease),
       op_updated := now, op_cancelable := ls_control_failure_cancelable lease,
       op_error := Some (operation_error_of e)\<rparr>"

definition op_finish ::
  "u64 \<Rightarrow> operation_lease option \<Rightarrow> backend_error option \<Rightarrow> coordinator \<Rightarrow> coordinator" where
  "op_finish now lease result c =
     (case lease of
        None \<Rightarrow> c
      | Some l \<Rightarrow>
         (let rg = co_registry c; is_it = (\<lambda>r. op_id r = ls_id l) in
          if \<not> ls_owns_completion l
          then (case (find is_it (rg_active rg), result) of
                  (Some _, Some e) \<Rightarrow>
                    publish (rg\<lparr>rg_active :=
                      modify_first is_it (control_failed now l e) (rg_active rg)\<rparr>) c
                | _ \<Rightarrow> c)
          else (case position is_it (rg_active rg) of
                  None \<Rightarrow> c
                | Some i \<Rightarrow>
                    publish (rg\<lparr>rg_active := remove_at i (rg_active rg),
                      rg_recent := take RECENT_OPERATION_LIMIT
                        (finished_operation now result (rg_active rg ! i) # rg_recent rg)\<rparr>) c)))"

definition set_stage :: "u64 \<Rightarrow> string \<Rightarrow> bool option \<Rightarrow> operation_record \<Rightarrow> operation_record" where
  "set_stage now stage cancelable r =
     r\<lparr>op_stage := stage, op_updated := now,
       op_cancelable := unwrap_or (op_cancelable r) cancelable\<rparr>"

definition update_where ::
  "(operation_record \<Rightarrow> bool) \<Rightarrow> u64 \<Rightarrow> string \<Rightarrow> bool option \<Rightarrow> coordinator \<Rightarrow> coordinator" where
  "update_where P now stage cancelable c =
     (let rg = co_registry c in
      case find P (rg_active rg) of
        None \<Rightarrow> c
      | Some _ \<Rightarrow>
          publish (rg\<lparr>rg_active := modify_first P (set_stage now stage cancelable) (rg_active rg)\<rparr>) c)"

definition update_stage ::
  "u64 \<Rightarrow> string \<Rightarrow> string \<Rightarrow> bool option \<Rightarrow> coordinator \<Rightarrow> coordinator" where
  "update_stage now meth stage cancelable c =
     (if meth = [] \<or> 128 < length meth \<or> stage = [] \<or> 128 < length stage then c
      else update_where (\<lambda>r. op_kind r = meth \<and> op_state r = Running) now stage cancelable c)"

definition update_domain_stage ::
  "u64 \<Rightarrow> operation_domain \<Rightarrow> string \<Rightarrow> bool option \<Rightarrow> coordinator \<Rightarrow> coordinator" where
  "update_domain_stage now domain stage cancelable c =
     (if stage = [] \<or> 128 < length stage then c
      else update_where (\<lambda>r. op_domain r = domain \<and> op_state r = Running) now stage cancelable c)"

definition connection_sequence_interrupted ::
  "state_snapshot \<Rightarrow> string set \<Rightarrow> string \<Rightarrow> bool" where
  "connection_sequence_interrupted s initial initiator \<longleftrightarrow>
     (\<exists>r \<in> set (os_active (sn_operations s) @ os_recent (sn_operations s)).
        op_id r \<notin> initial
        \<and> (op_kind r = ''connection.connect''
            \<and> (op_stage r = ''tunnel.cancelling'' \<or> op_state r = Cancelled)
           \<or> op_client r \<noteq> initiator
            \<and> op_kind r \<in> set [''connection.connect'', ''connection.cancel'',
                ''connection.disconnect'', ''account.logout'']))"

section \<open>Invariants\<close>

definition compatible_domains :: "operation_domain list \<Rightarrow> bool" where
  "compatible_domains ds \<longleftrightarrow> sorted_wrt (\<lambda>a b. \<not> domains_conflict a b) ds"

definition terminal_record :: "operation_record \<Rightarrow> bool" where
  "terminal_record r \<longleftrightarrow>
     op_state r \<in> {Succeeded, Failed, Cancelled} \<and> op_finished r \<noteq> None \<and> \<not> op_cancelable r"

definition running_record :: "operation_record \<Rightarrow> bool" where
  "running_record r \<longleftrightarrow> op_state r = Running \<and> op_finished r = None"

definition registry_inv :: "operation_registry \<Rightarrow> bool" where
  "registry_inv rg \<longleftrightarrow>
     compatible_domains (map op_domain (rg_active rg))
     \<and> (\<forall>r \<in> set (rg_active rg). running_record r)
     \<and> (\<forall>r \<in> set (rg_recent rg). terminal_record r)
     \<and> length (rg_recent rg) \<le> RECENT_OPERATION_LIMIT"

definition published :: "coordinator \<Rightarrow> bool" where
  "published c \<longleftrightarrow>
     sn_operations (co_state c)
       = \<lparr>os_active = rg_active (co_registry c), os_recent = rg_recent (co_registry c)\<rparr>"

text \<open>Identifiers: all come from counter values below the next one.\<close>

definition fresh_ids :: "nat \<Rightarrow> string list \<Rightarrow> bool" where
  "fresh_ids k ids \<longleftrightarrow> distinct ids \<and> set ids \<subseteq> (\<lambda>j. ''op-'' @ hex 16 j) ` {1..k}"

definition ids_inv :: "nat \<Rightarrow> operation_registry \<Rightarrow> bool" where
  "ids_inv n rg \<longleftrightarrow>
     (\<exists>k \<le> n. rg_next_id rg = of_nat (Suc k)
        \<and> fresh_ids k (map op_id (rg_active rg @ rg_recent rg)))"

text \<open>The coordinator's reachable states, with the number of \<open>begin\<close> calls made. Other components
  change the rest of the snapshot, never its operations.\<close>

inductive coord_reach :: "nat \<Rightarrow> coordinator \<Rightarrow> bool" where
  new: "sn_operations s = \<lparr>os_active = [], os_recent = []\<rparr> \<Longrightarrow> coord_reach 0 (coordinator_new s)"
| begin_step: "coord_reach n c \<Longrightarrow> coord_reach (Suc n) (fst (op_begin now client meth c))"
| finish_step: "coord_reach n c \<Longrightarrow> coord_reach n (op_finish now lease result c)"
| stage_step: "coord_reach n c \<Longrightarrow> coord_reach n (update_stage now meth stage cancelable c)"
| domain_step: "coord_reach n c \<Longrightarrow> coord_reach n (update_domain_stage now d stage cancelable c)"
| other_step: "coord_reach n c \<Longrightarrow> sn_operations s = sn_operations (co_state c)
     \<Longrightarrow> coord_reach n (c\<lparr>co_state := s\<rparr>)"

lemma domains_conflict_sym: "domains_conflict a b = domains_conflict b a"
  by (cases a; cases b) auto

lemma domains_conflict_refl [simp]: "domains_conflict a a"
  by (cases a) auto

lemma domains_conflict_auth [simp]: "domains_conflict AuthSession d \<longleftrightarrow> d \<noteq> Store"
  by (cases d) auto

lemma compatible_domains_Nil [simp]: "compatible_domains []"
  by (simp add: compatible_domains_def)

lemma compatible_domains_snoc:
  "compatible_domains (ds @ [d]) \<longleftrightarrow>
     compatible_domains ds \<and> (\<forall>a \<in> set ds. \<not> domains_conflict d a)"
  by (auto simp: compatible_domains_def sorted_wrt_append domains_conflict_sym)

lemma compatible_domains_distinct: "compatible_domains ds \<Longrightarrow> distinct ds"
  unfolding compatible_domains_def by (induction ds) auto

lemma compatible_domains_pair:
  "compatible_domains ds \<Longrightarrow> a \<in> set ds \<Longrightarrow> b \<in> set ds \<Longrightarrow> a \<noteq> b \<Longrightarrow> \<not> domains_conflict a b"
  unfolding compatible_domains_def
  by (induction ds) (auto simp: domains_conflict_sym)

lemma compatible_domains_length: "compatible_domains ds \<Longrightarrow> length ds \<le> 3"
proof -
  assume ds: "compatible_domains ds"
  have "AuthSession \<notin> set ds \<or> TunnelConfiguration \<notin> set ds"
    using compatible_domains_pair [OF ds, of AuthSession TunnelConfiguration] by auto
  moreover have all: "set ds \<subseteq> {AuthSession, TunnelConfiguration, Support, Store}"
    using operation_domain.exhaust by auto
  ultimately have "set ds \<subseteq> {TunnelConfiguration, Support, Store}
      \<or> set ds \<subseteq> {AuthSession, Support, Store}" by auto
  then have "card (set ds) \<le> 3"
    by (auto dest!: card_mono [rotated] simp: card_insert_if)
  then show "length ds \<le> 3"
    by (simp add: distinct_card compatible_domains_distinct [OF ds])
qed

lemma compatible_domains_remove_at:
  "compatible_domains ds \<Longrightarrow> compatible_domains (remove_at i ds)"
  unfolding compatible_domains_def
proof (induction ds arbitrary: i)
  case (Cons d ds)
  then show ?case using set_remove_at [of _ ds] by (cases i) auto
qed simp

lemma publish_simps [simp]:
  "co_registry (publish rg c) = rg"
  "sn_operations (co_state (publish rg c)) = \<lparr>os_active = rg_active rg, os_recent = rg_recent rg\<rparr>"
  "sn_revision (co_state (publish rg c)) = sn_revision (co_state c) + 1"
  by (simp_all add: publish_def)

lemma published_publish [simp]: "published (publish rg c)"
  by (simp add: published_def)

lemma record_field_lemmas [simp]:
  "op_domain (apply_control now ctl r) = op_domain r"
  "op_id (apply_control now ctl r) = op_id r"
  "running_record (apply_control now ctl r) = running_record r"
  "op_domain (control_failed now l e r) = op_domain r"
  "op_id (control_failed now l e r) = op_id r"
  "running_record (control_failed now l e r) = running_record r"
  "op_domain (set_stage now st ca r) = op_domain r"
  "op_id (set_stage now st ca r) = op_id r"
  "running_record (set_stage now st ca r) = running_record r"
  by (simp_all add: apply_control_def control_failed_def set_stage_def running_record_def)

lemma finished_operation_simps [simp]:
  "op_id (finished_operation now res r) = op_id r"
  "op_kind (finished_operation now res r) = op_kind r"
  "op_client (finished_operation now res r) = op_client r"
  "op_domain (finished_operation now res r) = op_domain r"
  "op_finished (finished_operation now res r) = Some now"
  "terminal_record (finished_operation now res r)"
  by (auto simp: finished_operation_def terminal_record_def Let_def split: option.splits)

text \<open>Changing fields other than the domain and the running state of one active record.\<close>

lemma registry_inv_modify:
  assumes "registry_inv rg" "\<And>r. op_domain (f r) = op_domain r"
    "\<And>r. running_record (f r) = running_record r"
  shows "registry_inv (rg\<lparr>rg_active := modify_first P f (rg_active rg)\<rparr>)"
  using assms set_modify_first [of P f "rg_active rg"]
  by (force simp: registry_inv_def map_modify_first)

lemma ids_inv_modify:
  assumes "ids_inv n rg" "\<And>r. op_id (f r) = op_id r"
  shows "ids_inv n (rg\<lparr>rg_active := modify_first P f (rg_active rg)\<rparr>)"
  using assms by (simp add: ids_inv_def map_modify_first)

lemma registry_inv_finish:
  assumes "registry_inv rg"
  shows "registry_inv (rg\<lparr>rg_active := remove_at i (rg_active rg),
    rg_recent := take RECENT_OPERATION_LIMIT (finished_operation now res r # rg_recent rg)\<rparr>)"
  using assms set_remove_at [of i "rg_active rg"]
  by (auto simp: registry_inv_def map_remove_at compatible_domains_remove_at
      RECENT_OPERATION_LIMIT_def dest!: in_set_takeD)

lemma registry_inv_begin:
  assumes "registry_inv rg"
    "find (\<lambda>r. domains_conflict (sp_domain spec) (op_domain r)) (rg_active rg) = None"
  shows "registry_inv (rg\<lparr>rg_next_id := m,
    rg_active := rg_active rg @ [new_operation now client meth spec n]\<rparr>)"
  using assms
  by (auto simp: registry_inv_def find_None_iff compatible_domains_snoc new_operation_def
      running_record_def)

lemma begin_new_cases:
  obtains (conflict) e where "begin_new now client meth spec c = (c, Inl e)"
  | (fresh) l where
      "find (\<lambda>r. domains_conflict (sp_domain spec) (op_domain r)) (rg_active (co_registry c)) = None"
      "begin_new now client meth spec c =
        (publish ((co_registry c)\<lparr>rg_next_id := rg_next_id (co_registry c) + 1,
           rg_active := rg_active (co_registry c)
             @ [new_operation now client meth spec (rg_next_id (co_registry c))]\<rparr>) c,
         Inr (Some l))"
      "ls_id l = op_identifier (rg_next_id (co_registry c))" "ls_owns_completion l"
  by (cases "find (\<lambda>r. domains_conflict (sp_domain spec) (op_domain r)) (rg_active (co_registry c))")
    (auto simp: begin_new_def Let_def)

text \<open>What \<open>begin\<close> can do: nothing, act on the target of a control request, or start an operation.\<close>

lemma op_begin_cases:
  obtains (same) e where "op_begin now client meth c = (c, e)"
  | (control) P ctl l where "op_begin now client meth c =
        (publish ((co_registry c)\<lparr>rg_active :=
           modify_first P (apply_control now ctl) (rg_active (co_registry c))\<rparr>) c, Inr (Some l))"
      "\<not> ls_owns_completion l"
  | (fresh) spec l where "operation_spec meth = Some spec"
      "find (\<lambda>r. domains_conflict (sp_domain spec) (op_domain r)) (rg_active (co_registry c)) = None"
      "op_begin now client meth c =
        (publish ((co_registry c)\<lparr>rg_next_id := rg_next_id (co_registry c) + 1,
           rg_active := rg_active (co_registry c)
             @ [new_operation now client meth spec (rg_next_id (co_registry c))]\<rparr>) c,
         Inr (Some l))"
      "ls_id l = op_identifier (rg_next_id (co_registry c))" "ls_owns_completion l"
proof (cases "operation_spec meth")
  case None
  then show thesis by (intro same) (simp add: op_begin_def)
next
  case (Some spec)
  note started = fresh
  have new: thesis if "op_begin now client meth c = begin_new now client meth spec c"
  proof (cases rule: begin_new_cases [of now client meth spec c])
    case conflict
    then show thesis using that by (intro same) simp
  next
    case (fresh l)
    then show thesis using that Some by (intro started [of spec l]) simp_all
  qed
  show thesis
  proof (cases "sp_control spec")
    case None
    then show thesis using Some by (intro new) (simp add: op_begin_def)
  next
    case ctl: (Some ctl)
    show thesis
    proof (cases "find (is_control_target spec ctl) (rg_active (co_registry c))")
      case None
      then show thesis using Some ctl new same by (cases "ct_requires_target ctl") (auto simp: op_begin_def)
    next
      case (Some r)
      then show thesis using \<open>operation_spec meth = Some spec\<close> ctl
        by - (rule control, simp add: op_begin_def, simp)
    qed
  qed
qed

lemma op_begin_inv:
  assumes "registry_inv (co_registry c)" "published c"
  shows "registry_inv (co_registry (fst (op_begin now client meth c)))
    \<and> published (fst (op_begin now client meth c))"
  using assms
  by (cases rule: op_begin_cases [of now client meth c])
    (simp_all add: registry_inv_modify registry_inv_begin)

lemma op_finish_inv:
  assumes "registry_inv (co_registry c)" "published c"
  shows "registry_inv (co_registry (op_finish now lease result c))
    \<and> published (op_finish now lease result c)"
  using assms
  by (auto simp: op_finish_def Let_def registry_inv_modify registry_inv_finish
      split: option.splits)

lemma update_where_inv:
  assumes "registry_inv (co_registry c)" "published c"
  shows "registry_inv (co_registry (update_where P now stage ca c))
    \<and> published (update_where P now stage ca c)"
  using assms by (auto simp: update_where_def Let_def registry_inv_modify split: option.splits)

lemma coord_reach_inv:
  "coord_reach n c \<Longrightarrow> registry_inv (co_registry c) \<and> published c"
proof (induction rule: coord_reach.induct)
  case (new s)
  then show ?case
    by (simp add: coordinator_new_def registry_inv_def published_def RECENT_OPERATION_LIMIT_def)
next
  case (begin_step n c now client meth)
  then show ?case using op_begin_inv [of c now client meth] by simp
next
  case (finish_step n c now lease result)
  then show ?case using op_finish_inv [of c now lease result] by simp
next
  case (stage_step n c now meth stage cancelable)
  then show ?case by (simp add: update_stage_def update_where_inv)
next
  case (domain_step n c now d stage cancelable)
  then show ?case by (simp add: update_domain_stage_def update_where_inv)
next
  case (other_step n c s)
  then show ?case by (simp add: published_def)
qed

section \<open>Identifiers\<close>

lemma ids_inv_mono: "ids_inv n rg \<Longrightarrow> n \<le> m \<Longrightarrow> ids_inv m rg"
  unfolding ids_inv_def by (meson order_trans)

lemma fresh_ids_snoc:
  assumes "fresh_ids k (xs @ ys)"
  shows "fresh_ids (Suc k) ((xs @ [''op-'' @ hex 16 (Suc k)]) @ ys)"
proof -
  have "''op-'' @ hex 16 (Suc k) \<notin> (\<lambda>j. ''op-'' @ hex 16 j) ` {1..k}" by auto
  then have "''op-'' @ hex 16 (Suc k) \<notin> set (xs @ ys)" using assms by (auto simp: fresh_ids_def)
  then show ?thesis using assms by (auto simp: fresh_ids_def)
qed

lemma fresh_ids_move:
  assumes "fresh_ids k (xs @ ys)" "p < length xs"
  shows "fresh_ids k (remove_at p xs @ take m (xs ! p # ys))"
proof -
  obtain us v vs where xs: "xs = us @ v # vs" "p = length us"
    using id_take_nth_drop [OF assms(2)] assms(2) by (metis length_take min.absorb4)
  have "set (take m (v # ys)) \<subseteq> set (v # ys)" "distinct ys \<Longrightarrow> v \<notin> set ys \<Longrightarrow> distinct (take m (v # ys))"
    using set_take_subset distinct_take [of "v # ys" m] by (fast, simp)
  then show ?thesis using assms(1) xs
    by (auto simp: fresh_ids_def remove_at_def nth_append simp del: take_Suc_Cons)
qed

lemma ids_inv_begin:
  assumes "ids_inv n rg" "Suc n < 2 ^ 64"
  shows "ids_inv (Suc n) (rg\<lparr>rg_next_id := rg_next_id rg + 1,
    rg_active := rg_active rg @ [new_operation now client meth spec (rg_next_id rg)]\<rparr>)"
proof -
  from assms(1) obtain k where k: "k \<le> n" "rg_next_id rg = of_nat (Suc k)"
    "fresh_ids k (map op_id (rg_active rg @ rg_recent rg))"
    unfolding ids_inv_def by blast
  have "unat (rg_next_id rg) = Suc k"
    using k(1) assms(2) by (intro of_nat_inverse [OF k(2) [symmetric]]) simp
  then have "op_id (new_operation now client meth spec (rg_next_id rg)) = ''op-'' @ hex 16 (Suc k)"
    by (simp add: new_operation_def op_identifier_def)
  then show ?thesis
    unfolding ids_inv_def using k fresh_ids_snoc [of k "map op_id (rg_active rg)" "map op_id (rg_recent rg)"]
    by (intro exI [of _ "Suc k"]) simp
qed

lemma ids_inv_finish:
  assumes "ids_inv n rg" "position (\<lambda>r. op_id r = i) (rg_active rg) = Some p"
  shows "ids_inv n (rg\<lparr>rg_active := remove_at p (rg_active rg),
    rg_recent := take m (finished_operation now res (rg_active rg ! p) # rg_recent rg)\<rparr>)"
proof -
  have p: "p < length (map op_id (rg_active rg))" using position_Some [OF assms(2)] by simp
  from assms(1) obtain k where k: "k \<le> n" "rg_next_id rg = of_nat (Suc k)"
    "fresh_ids k (map op_id (rg_active rg) @ map op_id (rg_recent rg))"
    unfolding ids_inv_def by (metis map_append)
  show ?thesis
    unfolding ids_inv_def using k fresh_ids_move [OF k(3) p, of m] p
    by (intro exI [of _ k]) (simp add: map_remove_at take_map [symmetric])
qed

lemma coord_reach_ids: "coord_reach n c \<Longrightarrow> Suc n < 2 ^ 64 \<Longrightarrow> ids_inv n (co_registry c)"
proof (induction rule: coord_reach.induct)
  case (new s)
  then show ?case by (simp add: coordinator_new_def ids_inv_def fresh_ids_def)
next
  case (begin_step n c now client meth)
  then have inv: "ids_inv n (co_registry c)" by simp
  show ?case
    using inv begin_step.prems
    by (cases rule: op_begin_cases [of now client meth c])
      (simp_all add: ids_inv_begin ids_inv_modify ids_inv_mono)
next
  case (finish_step n c now lease result)
  then show ?case
    by (auto simp: op_finish_def Let_def ids_inv_modify ids_inv_finish split: option.splits)
next
  case (stage_step n c now meth stage cancelable)
  then show ?case
    by (auto simp: update_stage_def update_where_def Let_def ids_inv_modify split: option.splits)
next
  case (domain_step n c now d stage cancelable)
  then show ?case
    by (auto simp: update_domain_stage_def update_where_def Let_def ids_inv_modify
        split: option.splits)
qed simp

section \<open>What begin and finish do\<close>

lemma distinct_map_filter_remove_at:
  assumes "distinct (map f xs)" "position (\<lambda>x. f x = a) xs = Some p"
  shows "remove_at p xs = filter (\<lambda>x. f x \<noteq> a) xs \<and> f (xs ! p) = a"
  using assms
proof (induction xs arbitrary: p)
  case (Cons x xs)
  show ?case
  proof (cases "f x = a")
    case True
    then have "\<forall>y \<in> set xs. f y \<noteq> a" using Cons.prems(1) by (auto simp: image_iff)
    then have "filter (\<lambda>y. f y \<noteq> a) xs = xs" by (simp add: filter_id_conv)
    then show ?thesis using Cons.prems True by auto
  next
    case False
    then show ?thesis using Cons by auto
  qed
qed simp

lemma finish_owned:
  assumes "coord_reach n c" "Suc n < 2 ^ 64"
    and r: "r \<in> set (rg_active (co_registry c))"
    and l: "ls_owns_completion l" "ls_id l = op_id r"
  shows "rg_active (co_registry (op_finish now (Some l) res c))
           = filter (\<lambda>x. op_id x \<noteq> op_id r) (rg_active (co_registry c))"
    and "rg_recent (co_registry (op_finish now (Some l) res c))
           = finished_operation now res r # take 15 (rg_recent (co_registry c))"
proof -
  have d: "distinct (map op_id (rg_active (co_registry c)))"
    using coord_reach_ids [OF assms(1,2)] by (auto simp: ids_inv_def fresh_ids_def)
  obtain p where p: "position (\<lambda>x. op_id x = op_id r) (rg_active (co_registry c)) = Some p"
    using r position_None [of "\<lambda>x. op_id x = op_id r" "rg_active (co_registry c)"] by fastforce
  note rem = distinct_map_filter_remove_at [OF d p]
  have "rg_active (co_registry c) ! p = r"
    using d rem r position_Some [OF p] by (metis (no_types, lifting) distinct_map inj_onD nth_mem)
  with p rem l show "rg_active (co_registry (op_finish now (Some l) res c))
           = filter (\<lambda>x. op_id x \<noteq> op_id r) (rg_active (co_registry c))"
    "rg_recent (co_registry (op_finish now (Some l) res c))
           = finished_operation now res r # take 15 (rg_recent (co_registry c))"
    by (simp_all add: op_finish_def RECENT_OPERATION_LIMIT_def Let_def)
qed

text \<open>
  C28. In every reachable state of the coordinator the running operations are pairwise compatible,
  and therefore at most three operations run at once, at most one of them in each domain.
\<close>

theorem running_operations_compatible:
  assumes "coord_reach n c"
    and "i < j" "j < length (rg_active (co_registry c))"
  shows "\<not> domains_conflict (op_domain (rg_active (co_registry c) ! i))
            (op_domain (rg_active (co_registry c) ! j))
         \<and> length (rg_active (co_registry c)) \<le> 3"
proof -
  have inv: "compatible_domains (map op_domain (rg_active (co_registry c)))"
    using coord_reach_inv [OF assms(1)] by (simp add: registry_inv_def)
  then have "length (rg_active (co_registry c)) \<le> 3"
    using compatible_domains_length by fastforce
  moreover have "\<not> domains_conflict (op_domain (rg_active (co_registry c) ! i))
      (op_domain (rg_active (co_registry c) ! j))"
    using inv assms(2,3) unfolding compatible_domains_def by (fastforce simp: sorted_wrt_iff_nth_less)
  ultimately show ?thesis by simp
qed

text \<open>A coordinator in which a client has a store operation and a connection attempt running.\<close>

definition two_running :: coordinator where
  "two_running =
     fst (op_begin 5 ''ui'' ''connection.connect''
       (fst (op_begin 4 ''ui'' ''profiles.save'' (coordinator_new state_snapshot_default))))"

lemma two_running_reach: "coord_reach 2 two_running"
  unfolding two_running_def numeral_2_eq_2
  by (intro coord_reach.intros) (simp add: state_snapshot_default_def)

lemmas operation_eval =
  op_begin_def begin_new_def operation_spec_def operation_specs_def store_operations_def
  coordinator_new_def mk_spec_def new_operation_def publish_def Let_def
  pin_control_def cancel_fido2_control_def cancel_connect_control_def is_control_target_def
  apply_control_def

theorem running_operations_compatible_witness:
  "coord_reach 2 two_running \<and> (0::nat) < 1 \<and> 1 < length (rg_active (co_registry two_running))
   \<and> \<not> domains_conflict (op_domain (rg_active (co_registry two_running) ! 0))
        (op_domain (rg_active (co_registry two_running) ! 1))"
proof -
  have len: "1 < length (rg_active (co_registry two_running))"
    by (simp add: two_running_def operation_eval)
  show ?thesis
    using running_operations_compatible [OF two_running_reach _ len, of 0] two_running_reach len
    by simp
qed

text \<open>
  As long as fewer than \<open>2 ^ 64 - 1\<close> requests have begun, all operations in the registry, running
  or recently finished, have different identifiers, so a lease names one operation.
\<close>

theorem operation_ids_distinct:
  assumes "coord_reach n c" "Suc n < 2 ^ 64"
  shows "distinct (map op_id (rg_active (co_registry c) @ rg_recent (co_registry c)))"
  using coord_reach_ids [OF assms] by (auto simp: ids_inv_def fresh_ids_def)

theorem operation_ids_distinct_witness:
  "coord_reach 2 two_running \<and> Suc 2 < (2::nat) ^ 64
   \<and> distinct (map op_id (rg_active (co_registry two_running) @ rg_recent (co_registry two_running)))"
  using two_running_reach operation_ids_distinct [OF two_running_reach] by simp

text \<open>
  The snapshot that clients see always lists exactly the registry's operations: the running ones
  are in state running and not finished, the recent ones are finished, at most sixteen, and can no
  longer be cancelled.
\<close>

theorem snapshot_shows_registry:
  assumes "coord_reach n c"
  shows "sn_operations (co_state c)
           = \<lparr>os_active = rg_active (co_registry c), os_recent = rg_recent (co_registry c)\<rparr>
         \<and> (\<forall>r \<in> set (os_active (sn_operations (co_state c))).
              op_state r = Running \<and> op_finished r = None)
         \<and> (\<forall>r \<in> set (os_recent (sn_operations (co_state c))).
              op_state r \<in> {Succeeded, Failed, Cancelled} \<and> op_finished r \<noteq> None \<and> \<not> op_cancelable r)
         \<and> length (os_recent (sn_operations (co_state c))) \<le> 16"
  using coord_reach_inv [OF assms]
  by (auto simp: registry_inv_def published_def running_record_def terminal_record_def
      RECENT_OPERATION_LIMIT_def)

theorem snapshot_shows_registry_witness:
  "coord_reach 2 two_running
   \<and> map op_kind (os_active (sn_operations (co_state two_running)))
       = [''profiles.save'', ''connection.connect'']"
  using snapshot_shows_registry [OF two_running_reach] two_running_reach
  by (simp add: two_running_def operation_eval)

text \<open>
  Finishing an operation with the lease that owns it removes exactly that operation from the
  running ones and puts it at the front of the recent ones; it counts as cancelled when its stage
  was a cancelling one or the error is a cancellation, else as succeeded or failed, and exactly a
  failed operation takes the error of the request.
\<close>

theorem finish_moves_operation:
  assumes "coord_reach n c" "Suc n < 2 ^ 64"
    and "r \<in> set (rg_active (co_registry c))"
    and "ls_owns_completion l" "ls_id l = op_id r"
  shows "let rg' = co_registry (op_finish now (Some l) res c);
             cancelled = (cancellation_requested r
               \<or> (\<exists>e. res = Some e \<and> is_cancelled_error (be_code e)))
    in rg_active rg' = filter (\<lambda>x. op_id x \<noteq> op_id r) (rg_active (co_registry c))
    \<and> tl (rg_recent rg') = take 15 (rg_recent (co_registry c))
    \<and> op_id (hd (rg_recent rg')) = op_id r
    \<and> op_state (hd (rg_recent rg'))
        = (if cancelled then Cancelled else if res = None then Succeeded else Failed)
    \<and> op_stage (hd (rg_recent rg'))
        = (if cancelled then cancelled_stage (op_kind r)
           else if res = None then completion_stage (op_kind r) else failure_stage (op_kind r))
    \<and> op_error (hd (rg_recent rg'))
        = (case res of None \<Rightarrow> op_error r
           | Some e \<Rightarrow> if cancelled then None else Some (operation_error_of e))"
  using finish_owned [OF assms(1-5), of now res]
  by (auto simp: finished_operation_def Let_def split: option.splits)

theorem finish_moves_operation_witness:
  "let r = rg_active (co_registry two_running) ! 1;
       l = \<lparr>ls_id = op_id r, ls_owns_completion = True, ls_control_failure_stage = None,
            ls_control_failure_cancelable = False\<rparr>;
       rg' = co_registry (op_finish 9 (Some l) None two_running)
   in op_state (hd (rg_recent rg')) = Succeeded \<and> op_stage (hd (rg_recent rg')) = ''tunnel.connected''"
proof -
  define r where "r = rg_active (co_registry two_running) ! 1"
  define l where "l = \<lparr>ls_id = op_id r, ls_owns_completion = True, ls_control_failure_stage = None,
            ls_control_failure_cancelable = False\<rparr>"
  have r: "r \<in> set (rg_active (co_registry two_running))" "op_kind r = ''connection.connect''"
    "\<not> cancellation_requested r"
    by (simp_all add: r_def two_running_def operation_eval cancellation_requested_def)
  show ?thesis
    using finish_moves_operation [OF two_running_reach _ r(1), of l 9 None] r
    unfolding Let_def r_def [symmetric] l_def [symmetric]
    by (simp add: l_def completion_stage_def Let_def)
qed

lemma begin_cancel_connect:
  assumes "operation_spec m = Some spec" "sp_control spec = Some ctl"
    and "find (is_control_target spec ctl) (rg_active (co_registry c)) = Some r"
  shows "op_begin now client m c =
    (publish ((co_registry c)\<lparr>rg_active :=
       modify_first (is_control_target spec ctl) (apply_control now ctl)
         (rg_active (co_registry c))\<rparr>) c,
     Inr (Some \<lparr>ls_id = op_id r, ls_owns_completion = False,
       ls_control_failure_stage = Some (ct_failure_stage ctl),
       ls_control_failure_cancelable = ct_failure_cancelable ctl\<rparr>))"
  using assms by (simp add: op_begin_def)

lemma modify_first_member:
  "find P xs = Some x \<Longrightarrow> f x \<in> set (modify_first P f xs)"
  by (induction xs) (auto split: if_splits)

lemma cancel_specs:
  "operation_spec ''connection.cancel''
     = Some (mk_spec TunnelConfiguration ''tunnel.cancelling'' False (Some cancel_connect_control))"
  "operation_spec ''connection.disconnect''
     = Some (mk_spec TunnelConfiguration ''tunnel.disconnecting'' False (Some cancel_connect_control))"
  by (simp_all add: operation_spec_def operation_specs_def)

text \<open>
  While a connection attempt runs, a cancel or disconnect request from any client does not
  conflict with it: it gets a lease that does not own the attempt, the attempt enters the cancelling
  stage and can no longer be cancelled again, and whatever result the attempt then finishes with, it
  is recorded as cancelled and without an error of its own.
\<close>

theorem cancel_reaches_running_connect:
  assumes reach: "coord_reach n c" "Suc (Suc n) < 2 ^ 64"
    and m: "m = ''connection.cancel'' \<or> m = ''connection.disconnect''"
    and r: "r \<in> set (rg_active (co_registry c))" "op_kind r = ''connection.connect''"
           "op_domain r = TunnelConfiguration"
    and owner: "ls_owns_completion owner" "ls_id owner = op_id r"
  shows "let (c', res) = op_begin now client m c;
             done = co_registry (op_finish later (Some owner) result c')
         in (\<exists>l. res = Inr (Some l) \<and> \<not> ls_owns_completion l \<and> ls_id l = op_id r)
          \<and> (\<exists>r' \<in> set (rg_active (co_registry c')). op_id r' = op_id r
                \<and> op_stage r' = ''tunnel.cancelling'' \<and> \<not> op_cancelable r')
          \<and> op_id (hd (rg_recent done)) = op_id r
          \<and> op_state (hd (rg_recent done)) = Cancelled
          \<and> op_error (hd (rg_recent done)) = None"
proof -
  obtain spec where spec: "operation_spec m = Some spec" "sp_domain spec = TunnelConfiguration"
    "sp_control spec = Some cancel_connect_control"
    using m cancel_specs by (auto simp: mk_spec_def)
  let ?P = "is_control_target spec cancel_connect_control"
  have inv: "registry_inv (co_registry c)" using coord_reach_inv [OF reach(1)] by simp
  have "?P r"
    using r inv spec(2)
    by (auto simp: is_control_target_def registry_inv_def running_record_def cancel_connect_control_def)
  then obtain q where q: "find ?P (rg_active (co_registry c)) = Some q"
    using r(1) by (metis find_None_iff not_None_eq)
  have "q = r"
  proof -
    have "q \<in> set (rg_active (co_registry c))" "op_domain q = op_domain r"
      using find_first [OF q] r(3) spec(2) by (auto simp: is_control_target_def)
    moreover have "distinct (map op_domain (rg_active (co_registry c)))"
      using inv by (auto simp: registry_inv_def intro: compatible_domains_distinct)
    ultimately show ?thesis using r(1) by (metis distinct_map inj_onD)
  qed
  define c' where "c' = fst (op_begin now client m c)"
  define r' where "r' = apply_control now cancel_connect_control r"
  note eq = begin_cancel_connect [OF spec(1,3) q, of now client]
  have reach': "coord_reach (Suc n) c'" unfolding c'_def by (rule coord_reach.begin_step [OF reach(1)])
  have r': "r' \<in> set (rg_active (co_registry c'))" "ls_id owner = op_id r'"
    using modify_first_member [OF q] owner(2)
    by (simp_all add: c'_def eq r'_def \<open>q = r\<close>)
  have "cancellation_requested r'" "op_error r' = None" "op_id r' = op_id r"
    "op_stage r' = ''tunnel.cancelling''" "\<not> op_cancelable r'"
    by (simp_all add: r'_def apply_control_def cancellation_requested_def cancel_connect_control_def)
  moreover have "rg_recent (co_registry (op_finish later (Some owner) result c'))
      = finished_operation later result r' # take 15 (rg_recent (co_registry c'))"
    by (rule finish_owned(2) [OF reach' reach(2) r'(1) owner(1) r'(2)])
  ultimately show ?thesis
    using r'(1) eq \<open>q = r\<close> c'_def
    by (auto simp: Let_def finished_operation_def split: option.splits intro!: bexI [of _ r'])
qed

theorem cancel_reaches_running_connect_witness:
  "let c = two_running; r = rg_active (co_registry c) ! 1;
       owner = \<lparr>ls_id = op_id r, ls_owns_completion = True, ls_control_failure_stage = None,
                ls_control_failure_cancelable = False\<rparr>;
       (c', res) = op_begin 6 ''tray'' ''connection.cancel'' c
   in op_state (hd (rg_recent (co_registry (op_finish 7 (Some owner) None c')))) = Cancelled"
proof -
  define r where "r = rg_active (co_registry two_running) ! 1"
  define owner where "owner = \<lparr>ls_id = op_id r, ls_owns_completion = True,
    ls_control_failure_stage = None, ls_control_failure_cancelable = False\<rparr>"
  have r: "r \<in> set (rg_active (co_registry two_running))" "op_kind r = ''connection.connect''"
    "op_domain r = TunnelConfiguration"
    by (simp_all add: r_def two_running_def operation_eval)
  show ?thesis
    using cancel_reaches_running_connect
      [OF two_running_reach _ disjI1 [OF refl] r, of owner 6 "''tray''" 7 None]
    unfolding Let_def r_def [symmetric] owner_def [symmetric]
    by (simp add: owner_def Let_def split: prod.splits)
qed

text \<open>
  A cancel request that finds no connection attempt runs as an operation of its own whose
  initial stage is already the cancelling one. When that request fails, the failed operation is
  recorded as cancelled and its error is dropped, whatever the error was.
\<close>

theorem lone_cancel_failure_is_swallowed:
  assumes reach: "coord_reach n c" "Suc (Suc n) < 2 ^ 64"
    and free: "\<forall>r \<in> set (rg_active (co_registry c)). op_domain r = Store"
  shows "\<exists>c' l. op_begin now client ''connection.cancel'' c = (c', Inr (Some l))
     \<and> op_kind (hd (rg_recent (co_registry (op_finish later (Some l) (Some e) c'))))
         = ''connection.cancel''
     \<and> op_state (hd (rg_recent (co_registry (op_finish later (Some l) (Some e) c')))) = Cancelled
     \<and> op_error (hd (rg_recent (co_registry (op_finish later (Some l) (Some e) c')))) = None"
proof -
  let ?spec = "mk_spec TunnelConfiguration ''tunnel.cancelling'' False (Some cancel_connect_control)"
  let ?rg = "co_registry c"
  let ?new = "new_operation now client ''connection.cancel'' ?spec (rg_next_id ?rg)"
  have "find (is_control_target ?spec cancel_connect_control) (rg_active ?rg) = None"
    "find (\<lambda>r. domains_conflict TunnelConfiguration (op_domain r)) (rg_active ?rg) = None"
    using free by (auto simp: find_None_iff is_control_target_def mk_spec_def)
  then obtain c' l where b: "op_begin now client ''connection.cancel'' c = (c', Inr (Some l))"
    "rg_active (co_registry c') = rg_active ?rg @ [?new]"
    "ls_id l = op_identifier (rg_next_id ?rg)" "ls_owns_completion l"
    by (auto simp: op_begin_def cancel_specs begin_new_def Let_def cancel_connect_control_def mk_spec_def)
  have reach': "coord_reach (Suc n) c'"
    using coord_reach.begin_step [OF reach(1), of now client "''connection.cancel''"] b(1) by simp
  have "?new \<in> set (rg_active (co_registry c'))" "ls_id l = op_id ?new"
    using b(2,3) by (simp_all add: new_operation_def)
  from finish_owned(2) [OF reach' reach(2) this(1) b(4) this(2)] b(1) show ?thesis
    by (simp add: finished_operation_def Let_def cancellation_requested_def new_operation_def mk_spec_def)
qed

theorem lone_cancel_failure_is_swallowed_witness:
  "\<exists>c' l. op_begin 1 ''ui'' ''connection.cancel'' (coordinator_new state_snapshot_default)
             = (c', Inr (Some l))
     \<and> op_state (hd (rg_recent (co_registry
           (op_finish 2 (Some l) (Some (backend_error_new ''backend_unavailable'' [])) c')))) = Cancelled
     \<and> op_error (hd (rg_recent (co_registry
           (op_finish 2 (Some l) (Some (backend_error_new ''backend_unavailable'' [])) c')))) = None"
proof -
  have "coord_reach 0 (coordinator_new state_snapshot_default)"
    by (rule coord_reach.new) (simp add: state_snapshot_default_def)
  from lone_cancel_failure_is_swallowed [OF this, of 1 "''ui''" 2
      "backend_error_new ''backend_unavailable'' []"]
  show ?thesis by (auto simp: coordinator_new_def)
qed

end
