(* ===== verification/Reducer.thy ===== *)
theory Reducer
  imports Operations
begin

text \<open>
  The state reducer of \<^verbatim>\<open>agent/src/state_reducer.rs\<close>: how an event of the native backend changes the
  published snapshot. One function per event and per feature object, in the order of the source;
  \<open>reduce_snapshot\<close> is the closure that \<open>apply_event\<close> passes to \<open>send_modify\<close>. The operation-stage
  event and the account activation, which reach other components, are composed in the theory that
  models the store.

  Proved here: an invariant of every snapshot the reducer can produce, the frame of every event,
  and that replaying an event changes nothing but the revision.
\<close>

section \<open>Reading events\<close>

definition flag :: "json \<Rightarrow> string \<Rightarrow> bool" where
  "flag data k = unwrap_or False (vbool data k)"

definition oflag :: "jobject \<Rightarrow> string \<Rightarrow> bool" where
  "oflag m k = unwrap_or False (get_bool m k)"

text \<open>\<open>u8::try_from\<close>, \<open>u16::try_from\<close> and \<open>u32::try_from\<close> on a \<open>u64\<close>, \<open>i32::try_from\<close> on an \<open>i64\<close>.\<close>

definition u8_try :: "u64 \<Rightarrow> u8 option" where
  "u8_try n = (if unat n < 2 ^ 8 then Some (ucast n) else None)"

definition u16_try :: "u64 \<Rightarrow> u16 option" where
  "u16_try n = (if unat n < 2 ^ 16 then Some (ucast n) else None)"

definition u32_try :: "u64 \<Rightarrow> u32 option" where
  "u32_try n = (if unat n < 2 ^ 32 then Some (ucast n) else None)"

definition i32_try :: "int \<Rightarrow> int option" where
  "i32_try i = (if - (2 ^ 31) \<le> i \<and> i < 2 ^ 31 then Some i else None)"

definition string_array :: "jobject \<Rightarrow> string \<Rightarrow> string list" where
  "string_array m k =
     (case Option.bind (obj_get m k) as_array of None \<Rightarrow> [] | Some vs \<Rightarrow> List.map_filter as_str vs)"

definition server_string :: "jobject option \<Rightarrow> string \<Rightarrow> string option" where
  "server_string server k =
     opt_filter (\<lambda>v. v \<noteq> []) (Option.bind server (\<lambda>m. get_str m k))"

section \<open>Backend, account and location events\<close>

definition reduce_backend :: "json \<Rightarrow> backend_state \<Rightarrow> backend_state" where
  "reduce_backend data b =
     b\<lparr>bk_kind := unwrap_or ''proton_linux'' (vstr data ''kind''),
       bk_core_available := flag data ''core_available'',
       bk_connection_available := flag data ''connection_available'',
       bk_connection_availability_known := flag data ''connection_availability_known'',
       bk_settings_known := flag data ''settings_known'',
       bk_connector_initialized := flag data ''connector_initialized'',
       bk_network_blocked_known := flag data ''network_blocked_known'',
       bk_network_blocked := flag data ''network_blocked'',
       bk_core_version := vstr data ''core_version'',
       bk_error := vstr data ''error''\<rparr>"

definition account_status_of :: "string \<Rightarrow> account_status" where
  "account_status_of s =
     (if s = ''restoring'' then Restoring
      else if s = ''signed_out'' then SignedOut
      else if s = ''signing_in'' then SigningIn
      else if s = ''two_factor_required'' then TwoFactorRequired
      else if s = ''signed_in'' then SignedIn
      else if s = ''error'' then AccountError
      else AccountUnknown)"

definition reduce_account :: "json \<Rightarrow> account_state \<Rightarrow> account_state" where
  "reduce_account data a =
     a\<lparr>acc_status := account_status_of (unwrap_or ''unknown'' (vstr data ''status'')),
       acc_name := vstr data ''name'',
       acc_tier := Option.bind (vu64 data ''tier'') u8_try,
       acc_credentialless := flag data ''credentialless'',
       acc_two_factor_code_supported := flag data ''two_factor_code_supported'',
       acc_two_factor_security_key_supported := flag data ''two_factor_security_key_supported'',
       acc_sso_supported := flag data ''sso_supported''\<rparr>"

definition reduce_device_location :: "json \<Rightarrow> device_location_state \<Rightarrow> device_location_state" where
  "reduce_device_location data d =
     d\<lparr>dl_known := flag data ''known'',
       dl_ip_address := opt_filter (\<lambda>v. v \<noteq> []) (vstr data ''ip_address''),
       dl_country_code :=
         map_option to_ascii_uppercase (opt_filter (\<lambda>v. v \<noteq> []) (vstr data ''country_code'')),
       dl_isp := opt_filter (\<lambda>v. v \<noteq> []) (vstr data ''isp''),
       dl_latitude := Option.bind (vget data ''latitude'') as_f64,
       dl_longitude := Option.bind (vget data ''longitude'') as_f64\<rparr>"

section \<open>Feature events\<close>

text \<open>\<open>if let Some(object) = data.get(key).and_then(Value::as_object)\<close> guarding an update.\<close>

definition on_object :: "json \<Rightarrow> string \<Rightarrow> (jobject \<Rightarrow> 'a \<Rightarrow> 'a) \<Rightarrow> 'a \<Rightarrow> 'a" where
  "on_object data k f x = (case vobj data k of None \<Rightarrow> x | Some m \<Rightarrow> f m x)"

definition reduce_protocol :: "jobject \<Rightarrow> protocol_settings_state \<Rightarrow> protocol_settings_state" where
  "reduce_protocol m p =
     p\<lparr>ps_selected := unwrap_or [] (get_str m ''selected''),
       ps_available := string_array m ''available'',
       ps_profile_available := string_array m ''profile_available''\<rparr>"

definition reduce_kill_switch :: "jobject \<Rightarrow> kill_switch_mode \<Rightarrow> kill_switch_mode" where
  "reduce_kill_switch m _ =
     (let mode = unwrap_or ''off'' (get_str m ''mode'') in
      if mode = ''advanced'' then KsAdvanced
      else if mode = ''standard'' then KsStandard else KsOff)"

definition counter_of :: "jobject \<Rightarrow> string \<Rightarrow> u32" where
  "counter_of m k = unwrap_or 0 (Option.bind (get_u64 m k) u32_try)"

definition reduce_netshield :: "jobject \<Rightarrow> net_shield_state \<Rightarrow> net_shield_state" where
  "reduce_netshield m n =
     n\<lparr>nsh_level := unwrap_or 0 (Option.bind (get_u64 m ''level'') u8_try),
       nsh_statistics_known := oflag m ''statistics_known'',
       nsh_malware_blocked := counter_of m ''malware_blocked'',
       nsh_ads_blocked := counter_of m ''ads_blocked'',
       nsh_trackers_blocked := counter_of m ''trackers_blocked''\<rparr>"

definition reduce_toggle :: "jobject \<Rightarrow> bool \<Rightarrow> bool" where
  "reduce_toggle m _ = oflag m ''enabled''"

definition reduce_feedback :: "jobject \<Rightarrow> connection_feedback_state \<Rightarrow> connection_feedback_state" where
  "reduce_feedback m f =
     f\<lparr>cf_available := oflag m ''available'',
       cf_viewed := oflag m ''viewed'',
       cf_auto_dismiss_seconds :=
         ucast (unwrap_or 10
           (opt_filter (\<lambda>s. 1 \<le> s \<and> s \<le> 300) (get_u64 m ''auto_dismiss_seconds''))),
       cf_sent := oflag m ''sent''\<rparr>"

definition reduce_split_config ::
  "jobject \<Rightarrow> split_tunneling_config_state \<Rightarrow> split_tunneling_config_state" where
  "reduce_split_config m c =
     c\<lparr>stc_app_paths := string_array m ''app_paths'', stc_ip_ranges := string_array m ''ip_ranges''\<rparr>"

definition reduce_split :: "jobject \<Rightarrow> split_tunneling_state \<Rightarrow> split_tunneling_state" where
  "reduce_split m s =
     s\<lparr>st_availability_known := oflag m ''availability_known'',
       st_mode :=
         (let mode = unwrap_or ''off'' (get_str m ''mode'') in
          if mode = ''inverse'' then StInverse
          else if mode = ''standard'' then StStandard else StOff),
       st_available := oflag m ''available'',
       st_app_paths_supported := oflag m ''app_paths_supported'',
       st_ip_ranges_supported := oflag m ''ip_ranges_supported'',
       st_standard := on_object (JObj m) ''standard'' reduce_split_config (st_standard s),
       st_inverse := on_object (JObj m) ''inverse'' reduce_split_config (st_inverse s)\<rparr>"

definition reduce_port_forwarding :: "jobject \<Rightarrow> port_forwarding_state \<Rightarrow> port_forwarding_state" where
  "reduce_port_forwarding m p =
     p\<lparr>pf_enabled := oflag m ''enabled'',
       pf_active_port := Option.bind (get_u64 m ''active_port'') u16_try\<rparr>"

definition reduce_custom_dns :: "jobject \<Rightarrow> custom_dns_state \<Rightarrow> custom_dns_state" where
  "reduce_custom_dns m d =
     d\<lparr>cd_enabled := oflag m ''enabled'', cd_servers := string_array m ''servers''\<rparr>"

definition reduce_writes ::
  "jobject \<Rightarrow> feature_write_capabilities \<Rightarrow> feature_write_capabilities" where
  "reduce_writes m w =
     w\<lparr>wr_protocol := oflag m ''protocol'',
       wr_kill_switch := oflag m ''kill_switch'',
       wr_netshield := oflag m ''netshield'',
       wr_vpn_accelerator := oflag m ''vpn_accelerator'',
       wr_anonymous_crash_reports := oflag m ''anonymous_crash_reports'',
       wr_anonymous_usage_statistics := oflag m ''anonymous_usage_statistics'',
       wr_moderate_nat := oflag m ''moderate_nat'',
       wr_ipv6 := oflag m ''ipv6'',
       wr_ipv6_leak_protection := oflag m ''ipv6_leak_protection'',
       wr_alternative_routing := oflag m ''alternative_routing'',
       wr_allow_lan_connections := oflag m ''allow_lan_connections'',
       wr_allow_local_dns := oflag m ''allow_local_dns'',
       wr_custom_dns := oflag m ''custom_dns'',
       wr_secure_core := oflag m ''secure_core'',
       wr_split_tunneling := oflag m ''split_tunneling'',
       wr_port_forwarding := oflag m ''port_forwarding''\<rparr>"

definition reduce_known_features :: "json \<Rightarrow> feature_state \<Rightarrow> feature_state" where
  "reduce_known_features data f =
     f\<lparr>ft_protocol := on_object data ''protocol'' reduce_protocol (ft_protocol f),
       ft_kill_switch_mode :=
         on_object data ''kill_switch'' reduce_kill_switch (ft_kill_switch_mode f),
       ft_netshield := on_object data ''netshield'' reduce_netshield (ft_netshield f),
       ft_vpn_accelerator := on_object data ''vpn_accelerator'' reduce_toggle (ft_vpn_accelerator f),
       ft_anonymous_crash_reports :=
         on_object data ''anonymous_crash_reports'' reduce_toggle (ft_anonymous_crash_reports f),
       ft_anonymous_usage_statistics :=
         on_object data ''anonymous_usage_statistics'' reduce_toggle (ft_anonymous_usage_statistics f),
       ft_connection_feedback :=
         on_object data ''connection_feedback'' reduce_feedback (ft_connection_feedback f),
       ft_moderate_nat := on_object data ''moderate_nat'' reduce_toggle (ft_moderate_nat f),
       ft_ipv6 := on_object data ''ipv6'' reduce_toggle (ft_ipv6 f),
       ft_ipv6_leak_protection :=
         on_object data ''ipv6_leak_protection'' reduce_toggle (ft_ipv6_leak_protection f),
       ft_alternative_routing :=
         on_object data ''alternative_routing'' reduce_toggle (ft_alternative_routing f),
       ft_allow_lan_connections :=
         on_object data ''allow_lan_connections'' reduce_toggle (ft_allow_lan_connections f),
       ft_allow_local_dns := on_object data ''allow_local_dns'' reduce_toggle (ft_allow_local_dns f),
       ft_secure_core := unwrap_or (ft_secure_core f) (vbool data ''secure_core''),
       ft_split_tunneling := on_object data ''split_tunneling'' reduce_split (ft_split_tunneling f),
       ft_port_forwarding :=
         on_object data ''port_forwarding'' reduce_port_forwarding (ft_port_forwarding f),
       ft_custom_dns := on_object data ''custom_dns'' reduce_custom_dns (ft_custom_dns f),
       ft_writes := on_object data ''writes'' reduce_writes (ft_writes f)\<rparr>"

definition reduce_features :: "json \<Rightarrow> feature_state \<Rightarrow> feature_state" where
  "reduce_features data f =
     (let f' = f\<lparr>ft_known := flag data ''known'', ft_writable := flag data ''writable''\<rparr> in
      if \<not> ft_known f' then f'\<lparr>ft_writes := feature_write_capabilities_default\<rparr>
      else reduce_known_features data f')"

section \<open>Connection events\<close>

definition connection_status_of :: "string \<Rightarrow> connection_status" where
  "connection_status_of s =
     (if s = ''disconnected'' then Disconnected
      else if s = ''connecting'' then Connecting
      else if s = ''connected'' then Connected
      else if s = ''error'' then ConnError
      else ConnUnknown)"

definition valid_profile_id :: "string \<Rightarrow> bool" where
  "valid_profile_id v \<longleftrightarrow> v \<noteq> [] \<and> length v \<le> 128 \<and> \<not> has_control v"

definition event_secure_core :: "json \<Rightarrow> bool" where
  "event_secure_core data =
     unwrap_or False
       (case vbool data ''secure_core'' of
          Some b \<Rightarrow> Some b
        | None \<Rightarrow> Option.bind (vobj data ''server'') (\<lambda>m. get_bool m ''secure_core''))"

definition reduce_connection :: "u64 \<Rightarrow> json \<Rightarrow> connection_state \<Rightarrow> connection_state" where
  "reduce_connection now data cn =
     (let status = connection_status_of (unwrap_or ''unknown'' (vstr data ''status''));
          server = vobj data ''server'';
          secure_core = event_secure_core data;
          sstr = (\<lambda>k. Option.bind server (\<lambda>m. get_str m k)) in
      cn\<lparr>cn_observation_known := flag data ''observation_known'',
         cn_status := status,
         cn_profile_id := opt_filter valid_profile_id (vstr data ''profile_id''),
         cn_country_code := sstr ''country_code'',
         cn_country_name := sstr ''country_name'',
         cn_host_country_code := server_string server ''host_country_code'',
         cn_host_country_name := server_string server ''host_country_name'',
         cn_entry_country_code :=
           (if secure_core then server_string server ''entry_country_code'' else None),
         cn_entry_country_name :=
           (if secure_core then server_string server ''entry_country_name'' else None),
         cn_state := opt_filter (\<lambda>v. v \<noteq> []) (sstr ''state''),
         cn_city := sstr ''city'',
         cn_server_name := sstr ''name'',
         cn_server_load :=
           Option.bind (Option.bind server (\<lambda>m. get_u64 m ''load'')) u8_try,
         cn_p2p := unwrap_or False (Option.bind server (\<lambda>m. get_bool m ''p2p'')),
         cn_tor := unwrap_or False (Option.bind server (\<lambda>m. get_bool m ''tor'')),
         cn_server_ip := opt_filter (\<lambda>v. v \<noteq> []) (sstr ''server_ip''),
         cn_latency_ms := None,
         cn_protocol := opt_filter (\<lambda>v. v \<noteq> []) (vstr data ''protocol''),
         cn_error := vstr data ''error'',
         cn_error_code := opt_filter (\<lambda>v. v \<noteq> []) (vstr data ''error_code''),
         cn_restriction_reason_code :=
           Option.bind (Option.bind (vget data ''restriction_reason_code'') as_i64) i32_try,
         cn_network_conflicts :=
           (case varr data ''network_conflicts'' of
              Some vs \<Rightarrow> take 16 (List.map_filter as_str vs)
            | None \<Rightarrow> if status \<in> {Connected, Disconnected} then [] else cn_network_conflicts cn),
         cn_connected_at_unix_ms :=
           (if status = Connected \<and> cn_status cn \<noteq> Connected then Some now
            else if status = Disconnected then None
            else cn_connected_at_unix_ms cn)\<rparr>)"

section \<open>The reducer\<close>

definition reduced_events :: "string list" where
  "reduced_events = [''backend'', ''account'', ''device_location'', ''features'', ''connection'']"

text \<open>The closure given to \<open>send_modify\<close>: an unknown event returns before the revision is bumped.\<close>

definition reduce_snapshot :: "u64 \<Rightarrow> string \<Rightarrow> json \<Rightarrow> state_snapshot \<Rightarrow> state_snapshot" where
  "reduce_snapshot now event data s =
     (let bump = (\<lambda>s. s\<lparr>sn_revision := sn_revision s + 1\<rparr>) in
      if event = ''backend'' then bump (s\<lparr>sn_backend := reduce_backend data (sn_backend s)\<rparr>)
      else if event = ''account'' then bump (s\<lparr>sn_account := reduce_account data (sn_account s)\<rparr>)
      else if event = ''device_location''
      then bump (s\<lparr>sn_device_location := reduce_device_location data (sn_device_location s)\<rparr>)
      else if event = ''features''
      then bump (s\<lparr>sn_features := reduce_features data (sn_features s)\<rparr>)
      else if event = ''connection''
      then bump (s\<lparr>sn_connection := reduce_connection now data (sn_connection s),
                   sn_features := (sn_features s)\<lparr>ft_secure_core := event_secure_core data\<rparr>\<rparr>)
      else s)"

section \<open>The snapshot invariant\<close>

definition connection_inv :: "connection_state \<Rightarrow> bool" where
  "connection_inv cn \<longleftrightarrow>
     (cn_status cn = Connected \<longrightarrow> cn_connected_at_unix_ms cn \<noteq> None)
     \<and> (cn_status cn = Disconnected \<longrightarrow> cn_connected_at_unix_ms cn = None)
     \<and> length (cn_network_conflicts cn) \<le> 16
     \<and> (\<forall>p. cn_profile_id cn = Some p \<longrightarrow> valid_profile_id p)"

definition features_inv :: "feature_state \<Rightarrow> bool" where
  "features_inv f \<longleftrightarrow>
     (\<not> ft_known f \<longrightarrow> ft_writes f = feature_write_capabilities_default)
     \<and> cf_auto_dismiss_seconds (ft_connection_feedback f) \<le> 300"

definition snapshot_inv :: "state_snapshot \<Rightarrow> bool" where
  "snapshot_inv s \<longleftrightarrow> connection_inv (sn_connection s) \<and> features_inv (sn_features s)"

lemma connection_inv_reduce: "connection_inv cn \<Longrightarrow> connection_inv (reduce_connection now data cn)"
  by (auto simp: connection_inv_def reduce_connection_def Let_def split: option.splits)

lemma features_inv_secure_core: "features_inv (f\<lparr>ft_secure_core := b\<rparr>) = features_inv f"
  by (simp add: features_inv_def)

lemma reduce_feedback_bound: "cf_auto_dismiss_seconds (reduce_feedback m f) \<le> 300"
proof -
  have "ucast n \<le> (300 :: u32)" if "n \<le> 300" for n :: u64
  proof -
    have "unat n \<le> 300" using that by (simp add: word_le_nat_alt)
    then have "unat (ucast n :: u32) \<le> 300" by (simp add: unsigned_ucast_eq take_bit_nat_eq_self)
    then show ?thesis by (simp add: word_le_nat_alt)
  qed
  then show ?thesis
    by (auto simp: reduce_feedback_def opt_filter_def split: option.splits)
qed

lemma features_inv_reduce: "features_inv f \<Longrightarrow> features_inv (reduce_features data f)"
  by (auto simp: features_inv_def reduce_features_def reduce_known_features_def Let_def
      on_object_def reduce_feedback_bound split: option.splits)

lemma snapshot_inv_reduce: "snapshot_inv s \<Longrightarrow> snapshot_inv (reduce_snapshot now event data s)"
  by (simp add: snapshot_inv_def reduce_snapshot_def Let_def connection_inv_reduce
      features_inv_reduce features_inv_secure_core)

lemma snapshot_inv_default: "snapshot_inv state_snapshot_default"
  by (simp add: snapshot_inv_def connection_inv_def features_inv_def state_snapshot_default_def
      connection_state_default_def feature_state_default_def)

interpretation reducer: step_system "\<lambda>(now, event, data). reduce_snapshot now event data" snapshot_inv
  by unfold_locales (auto simp: snapshot_inv_reduce)

section \<open>Replaying events\<close>

lemma on_object_idem:
  "(\<And>m x. f m (f m x) = f m x) \<Longrightarrow> on_object data k f (on_object data k f x) = on_object data k f x"
  by (simp add: on_object_def split: option.splits)

lemma reduce_split_config_idem: "reduce_split_config m (reduce_split_config m c) = reduce_split_config m c"
  by (simp add: reduce_split_config_def)

lemma feature_object_idem:
  "reduce_protocol m (reduce_protocol m p) = reduce_protocol m p"
  "reduce_kill_switch m (reduce_kill_switch m k) = reduce_kill_switch m k"
  "reduce_netshield m (reduce_netshield m n) = reduce_netshield m n"
  "reduce_toggle m (reduce_toggle m b) = reduce_toggle m b"
  "reduce_feedback m (reduce_feedback m f) = reduce_feedback m f"
  "reduce_split m (reduce_split m s) = reduce_split m s"
  "reduce_port_forwarding m (reduce_port_forwarding m pf) = reduce_port_forwarding m pf"
  "reduce_custom_dns m (reduce_custom_dns m d) = reduce_custom_dns m d"
  "reduce_writes m (reduce_writes m w) = reduce_writes m w"
  by (simp_all add: reduce_protocol_def reduce_kill_switch_def reduce_netshield_def
      reduce_toggle_def reduce_feedback_def reduce_split_def reduce_port_forwarding_def
      reduce_custom_dns_def reduce_writes_def on_object_idem reduce_split_config_idem)

lemma reduce_features_idem: "reduce_features data (reduce_features data f) = reduce_features data f"
  by (auto simp: reduce_features_def Let_def reduce_known_features_def on_object_idem
      feature_object_idem unwrap_or_def split: option.splits)

lemma reduce_features_secure_core:
  "(f\<lparr>ft_secure_core := b\<rparr>)\<lparr>ft_secure_core := b\<rparr> = f\<lparr>ft_secure_core := b\<rparr>"
  by simp

lemma reduce_connection_idem:
  "reduce_connection now' data (reduce_connection now data cn) = reduce_connection now data cn"
  by (cases "varr data ''network_conflicts''") (simp_all add: reduce_connection_def Let_def)

lemma reduce_idem:
  "reduce_backend data (reduce_backend data b) = reduce_backend data b"
  "reduce_account data (reduce_account data a) = reduce_account data a"
  "reduce_device_location data (reduce_device_location data d) = reduce_device_location data d"
  by (simp_all add: reduce_backend_def reduce_account_def reduce_device_location_def)

text \<open>The reducer's equation for each event.\<close>

lemma reduce_snapshot_events:
  "reduce_snapshot now ''backend'' data s
     = s\<lparr>sn_backend := reduce_backend data (sn_backend s), sn_revision := sn_revision s + 1\<rparr>"
  "reduce_snapshot now ''account'' data s
     = s\<lparr>sn_account := reduce_account data (sn_account s), sn_revision := sn_revision s + 1\<rparr>"
  "reduce_snapshot now ''device_location'' data s
     = s\<lparr>sn_device_location := reduce_device_location data (sn_device_location s),
         sn_revision := sn_revision s + 1\<rparr>"
  "reduce_snapshot now ''features'' data s
     = s\<lparr>sn_features := reduce_features data (sn_features s), sn_revision := sn_revision s + 1\<rparr>"
  "reduce_snapshot now ''connection'' data s
     = s\<lparr>sn_connection := reduce_connection now data (sn_connection s),
         sn_features := (sn_features s)\<lparr>ft_secure_core := event_secure_core data\<rparr>,
         sn_revision := sn_revision s + 1\<rparr>"
  by (simp_all add: reduce_snapshot_def)

lemma reduce_snapshot_other: "event \<notin> set reduced_events \<Longrightarrow> reduce_snapshot now event data s = s"
  by (simp add: reduce_snapshot_def reduced_events_def)

lemma set_listE: "x \<in> set (y # ys) \<Longrightarrow> (x = y \<Longrightarrow> P) \<Longrightarrow> (x \<in> set ys \<Longrightarrow> P) \<Longrightarrow> P"
  "x \<in> set [] \<Longrightarrow> P"
  by auto

section \<open>Properties\<close>

text \<open>
  C29. Whatever events the backend sends, in any order and with any payload, the published snapshot is
  consistent: a connected tunnel has a start time and a disconnected one has none, at most sixteen
  conflicting interfaces are listed, a profile identifier is non-empty, at most 128 bytes and free
  of control characters, no setting is reported writable while the features are unknown, and the
  feedback prompt never stays longer than 300 seconds.
\<close>

theorem snapshot_consistent:
  fixes events :: "(u64 \<times> string \<times> json) list"
  defines "s \<equiv> fold (\<lambda>(now, event, data). reduce_snapshot now event data) events state_snapshot_default"
  shows "(cn_status (sn_connection s) = Connected \<longrightarrow> cn_connected_at_unix_ms (sn_connection s) \<noteq> None)
    \<and> (cn_status (sn_connection s) = Disconnected \<longrightarrow> cn_connected_at_unix_ms (sn_connection s) = None)
    \<and> length (cn_network_conflicts (sn_connection s)) \<le> 16
    \<and> (\<forall>p. cn_profile_id (sn_connection s) = Some p \<longrightarrow> p \<noteq> [] \<and> length p \<le> 128 \<and> \<not> has_control p)
    \<and> (\<not> ft_known (sn_features s) \<longrightarrow> ft_writes (sn_features s) = feature_write_capabilities_default)
    \<and> cf_auto_dismiss_seconds (ft_connection_feedback (sn_features s)) \<le> 300"
  using reducer.run_inv [OF snapshot_inv_default, of events]
  by (simp add: s_def snapshot_inv_def connection_inv_def features_inv_def valid_profile_id_def)

theorem snapshot_consistent_witness:
  "cn_connected_at_unix_ms (sn_connection
     (fold (\<lambda>(now, event, data). reduce_snapshot now event data)
        [(7, ''connection'', jobj [(''status'', JStr ''connected'')])] state_snapshot_default)) \<noteq> None"
proof -
  have "cn_status (sn_connection
     (fold (\<lambda>(now, event, data). reduce_snapshot now event data)
        [(7, ''connection'', jobj [(''status'', JStr ''connected'')])] state_snapshot_default)) = Connected"
    by (simp add: reduce_snapshot_def reduce_connection_def connection_status_of_def vstr_def Let_def)
  with snapshot_consistent [of "[(7, ''connection'', jobj [(''status'', JStr ''connected'')])]"]
  show ?thesis by simp
qed

text \<open>
  Replaying an event of the backend, even at a later time, changes nothing in the snapshot but the
  revision number, so a duplicated or re-sent event is harmless.
\<close>

theorem replay_changes_revision_only:
  "reduce_snapshot later event data (reduce_snapshot now event data s)
     = (reduce_snapshot now event data s)\<lparr>sn_revision :=
          sn_revision s + (if event \<in> set reduced_events then 2 else 0)\<rparr>"
proof (cases "event \<in> set reduced_events")
  case False
  then show ?thesis by (simp add: reduce_snapshot_other)
next
  case True
  then show ?thesis
    unfolding reduced_events_def
    by (elim set_listE) (simp_all add: reduce_snapshot_events reduce_idem reduce_features_idem
        reduce_connection_idem reduced_events_def)
qed

text \<open>
  An event changes only its own section of the snapshot: no event touches the operations, the
  store summary or the network-security section; the revision moves exactly for the five known
  events; and only a connection event changes the connection section.
\<close>

theorem event_frame:
  "let s' = reduce_snapshot now event data s in
   sn_operations s' = sn_operations s \<and> sn_store s' = sn_store s
   \<and> sn_network_security s' = sn_network_security s
   \<and> sn_revision s' = sn_revision s + (if event \<in> set reduced_events then 1 else 0)
   \<and> (sn_backend s' \<noteq> sn_backend s \<longrightarrow> event = ''backend'')
   \<and> (sn_account s' \<noteq> sn_account s \<longrightarrow> event = ''account'')
   \<and> (sn_device_location s' \<noteq> sn_device_location s \<longrightarrow> event = ''device_location'')
   \<and> (sn_connection s' \<noteq> sn_connection s \<longrightarrow> event = ''connection'')
   \<and> (sn_features s' \<noteq> sn_features s \<longrightarrow> event = ''features'' \<or> event = ''connection'')"
  by (simp add: reduce_snapshot_def Let_def reduced_events_def)

theorem event_frame_witness:
  "let s' = reduce_snapshot 0 ''backend'' (jobj [(''kind'', JStr ''proton_rust'')]) state_snapshot_default
   in sn_connection s' = sn_connection state_snapshot_default \<and> bk_kind (sn_backend s') = ''proton_rust''"
  using event_frame [of 0 "''backend''" "jobj [(''kind'', JStr ''proton_rust'')]" state_snapshot_default]
  by (simp add: Let_def reduce_snapshot_def reduce_backend_def vstr_def)

lemma connected_at_step:
  assumes "cn_status (sn_connection s) = Connected"
    and "event = ''connection'' \<longrightarrow> vstr data ''status'' = Some ''connected''"
  shows "cn_status (sn_connection (reduce_snapshot now event data s)) = Connected
    \<and> cn_connected_at_unix_ms (sn_connection (reduce_snapshot now event data s))
        = cn_connected_at_unix_ms (sn_connection s)"
  using assms by (simp add: reduce_snapshot_def Let_def reduce_connection_def connection_status_of_def)

text \<open>
  While the tunnel stays connected, no sequence of events moves its start time, so the session
  duration shown to the user is not reset by refreshes of the connection or of other sections.
\<close>

theorem connected_since_is_stable:
  assumes "cn_status (sn_connection s) = Connected"
    and "\<forall>(now, event, data) \<in> set events.
           event = ''connection'' \<longrightarrow> vstr data ''status'' = Some ''connected''"
  shows "cn_connected_at_unix_ms (sn_connection
           (fold (\<lambda>(now, event, data). reduce_snapshot now event data) events s))
         = cn_connected_at_unix_ms (sn_connection s)"
  using assms
proof (induction events arbitrary: s)
  case (Cons e events)
  obtain now event data where e: "e = (now, event, data)" by (cases e)
  with Cons.prems have "event = ''connection'' \<longrightarrow> vstr data ''status'' = Some ''connected''" by auto
  note step = connected_at_step [OF Cons.prems(1) this, of now]
  then show ?case using Cons.IH [of "reduce_snapshot now event data s"] Cons.prems(2) e by simp
qed simp

theorem connected_since_is_stable_witness:
  "let s = reduce_snapshot 5 ''connection'' (jobj [(''status'', JStr ''connected'')]) state_snapshot_default
   in cn_connected_at_unix_ms (sn_connection
        (fold (\<lambda>(now, event, data). reduce_snapshot now event data)
          [(9, ''connection'', jobj [(''status'', JStr ''connected'')]), (11, ''backend'', JNull)] s)) = Some 5"
proof -
  define s where
    "s = reduce_snapshot 5 ''connection'' (jobj [(''status'', JStr ''connected'')]) state_snapshot_default"
  have s: "cn_status (sn_connection s) = Connected" "cn_connected_at_unix_ms (sn_connection s) = Some 5"
    by (simp_all add: s_def reduce_snapshot_def reduce_connection_def connection_status_of_def
        vstr_def Let_def state_snapshot_default_def connection_state_default_def)
  show ?thesis
    unfolding Let_def s_def [symmetric]
    using connected_since_is_stable [OF s(1),
        of "[(9, ''connection'', jobj [(''status'', JStr ''connected'')]), (11, ''backend'', JNull)]"] s(2)
    by (simp add: vstr_def)
qed

end
