(* ===== verification/Store_Handle.thy ===== *)
theory Store_Handle
  imports Store_Seed Store_Laws Atomic_File Reducer
begin

text \<open>
  \<open>StoreHandle\<close> of \<^verbatim>\<open>agent/src/store.rs\<close>: the document, the two files that mirror it, the autostart link and
  the published snapshot behind one lock; opening, loading and saving; \<open>mutate\<close> with its
  roll-backs; \<open>request\<close> under the operation registry; \<open>activate_account\<close>; and \<open>apply_event\<close> of
  \<^verbatim>\<open>agent/src/state_reducer.rs\<close>, which joins the reducer, the registry and the store. Every method holds the
  lock for its whole body, so a call is one step of the state. \<open>serde_json\<close>'s encoding of the
  document and its decoding are arguments (\<open>codec\<close>); so are the paths. The texts of operating
  system errors are not modelled.
\<close>

section \<open>Configuration and state\<close>

record codec =
  cd_store :: "store_file \<Rightarrow> string"
  cd_json :: "json \<Rightarrow> string"
  cd_parse :: "string \<Rightarrow> store_file option"

record store_config =
  sc_pid :: nat
  sc_store_dir :: string
  sc_store_path :: string
  sc_lifecycle_dir :: string
  sc_lifecycle_path :: string
  sc_codec :: codec

datatype autostart_link = LinkMissing | LinkTo string | LinkOther

record store_handle =
  sh_data :: store_file
  sh_world :: world
  sh_link :: autostart_link
  sh_coord :: coordinator

definition store_io_error :: backend_error where
  "store_io_error = retryable True (backend_error_new ''store_io'' ''Unable to persist canonical state'')"

section \<open>Files\<close>

definition store_tmp :: "store_config \<Rightarrow> u64 \<Rightarrow> string" where
  "store_tmp cfg now =
     sc_store_dir cfg @ ''/.state-v1.'' @ dec (sc_pid cfg) @ ''.'' @ dec (unat now) @ ''.tmp''"

definition lifecycle_tmp :: "store_config \<Rightarrow> u64 \<Rightarrow> string" where
  "lifecycle_tmp cfg now =
     sc_lifecycle_dir cfg @ ''/.lifecycle.'' @ dec (sc_pid cfg) @ ''.'' @ dec (unat now) @ ''.tmp''"

definition load_store :: "store_config \<Rightarrow> world \<Rightarrow> string + store_file" where
  "load_store cfg w =
     (case content w (sc_store_path cfg) of
        None \<Rightarrow> Inl ''not found''
      | Some bytes \<Rightarrow>
          if MAX_STORE_BYTES < length bytes then Inl ''canonical store exceeds the size limit''
          else case cd_parse (sc_codec cfg) bytes of
              None \<Rightarrow> Inl ''invalid canonical store''
            | Some data \<Rightarrow>
                if sf_version data \<noteq> STORE_VERSION then Inl ''unsupported canonical store version''
                else Inr data)"

definition save_store :: "store_config \<Rightarrow> u64 \<Rightarrow> store_file \<Rightarrow> world \<Rightarrow> world \<times> bool" where
  "save_store cfg now data w =
     replace_private (Some MAX_STORE_BYTES) (sc_store_dir cfg) (store_tmp cfg now) (sc_store_path cfg)
       (cd_store (sc_codec cfg) data) w"

definition lifecycle_json :: "onboarding \<Rightarrow> json" where
  "lifecycle_json ob =
     jobj [(''version'', jnum 1), (''onboarding_complete'', JBool (ob_complete ob)),
           (''locale'', JStr (ob_locale ob)),
           (''start_with_omarchy'', JBool (ob_start_with_omarchy ob)),
           (''auto_connect'', JBool (ob_auto_connect ob)),
           (''notifications_enabled'', JBool (ob_notifications_enabled ob)),
           (''port_forwarding_notifications_enabled'',
             JBool (ob_port_forwarding_notifications_enabled ob))]"

definition save_lifecycle :: "store_config \<Rightarrow> u64 \<Rightarrow> onboarding \<Rightarrow> world \<Rightarrow> world \<times> bool" where
  "save_lifecycle cfg now ob w =
     replace_private None (sc_lifecycle_dir cfg) (lifecycle_tmp cfg now) (sc_lifecycle_path cfg)
       (cd_json (sc_codec cfg) (lifecycle_json ob)) w"

definition UNIT_NAME :: string where "UNIT_NAME = ''proton-omarchy-agent.service''"

text \<open>The link in \<open>default.target.wants\<close>; the calls draw on the same script as the files.\<close>

definition sync_autostart_registration ::
  "bool \<Rightarrow> autostart_link \<Rightarrow> world \<Rightarrow> autostart_link \<times> world \<times> bool" where
  "sync_autostart_registration enabled link w =
     (let (f1, w1) = next_fault w in
      if f1 \<noteq> None then (link, w1, False)
      else case link of
          LinkOther \<Rightarrow> (link, w1, False)
        | LinkTo target \<Rightarrow>
            (let (f2, w2) = next_fault w1 in
             if f2 \<noteq> None \<or> target \<noteq> UNIT_NAME then (link, w2, False)
             else if enabled then (link, w2, True)
             else let (f3, w3) = next_fault w2 in
               if f3 \<noteq> None then (link, w3, False) else (LinkMissing, w3, True))
        | LinkMissing \<Rightarrow>
            (if \<not> enabled then (link, w1, True)
             else
             let (f2, w2) = next_fault w1 in
             if f2 \<noteq> None then (link, w2, False)
             else let (f3, w3) = next_fault w2 in
               if f3 \<noteq> None then (link, w3, False) else (LinkTo UNIT_NAME, w3, True)))"

section \<open>Publishing and mutating\<close>

definition publish_locked :: "store_handle \<Rightarrow> store_handle" where
  "publish_locked h =
     h\<lparr>sh_coord := (sh_coord h)\<lparr>co_state := (co_state (sh_coord h))
        \<lparr>sn_store := store_state (sh_data h),
         sn_revision := sn_revision (co_state (sh_coord h)) + 1\<rparr>\<rparr>\<rparr>"

definition lifecycle_changed :: "onboarding \<Rightarrow> onboarding \<Rightarrow> bool" where
  "lifecycle_changed a b \<longleftrightarrow>
     ob_complete a \<noteq> ob_complete b \<or> ob_locale a \<noteq> ob_locale b
     \<or> ob_start_with_omarchy a \<noteq> ob_start_with_omarchy b \<or> ob_auto_connect a \<noteq> ob_auto_connect b"

text \<open>The roll-back of \<open>mutate\<close>: the document is the previous one and both files are written
  again without looking at the outcome.\<close>

definition restore_files :: "store_config \<Rightarrow> clock \<Rightarrow> store_file \<Rightarrow> world \<Rightarrow> world" where
  "restore_files cfg clk previous w =
     fst (save_lifecycle cfg (clk 5) (sf_onboarding previous) (fst (save_store cfg (clk 4) previous w)))"

definition mutate :: "store_config \<Rightarrow> clock \<Rightarrow> mutation \<Rightarrow> store_handle \<Rightarrow> store_handle \<times> json backend_res" where
  "mutate cfg clk mutation h =
     (let previous = sh_data h; (data1, r) = mutation previous in
      case r of
        Inl e \<Rightarrow> (h\<lparr>sh_data := data1\<rparr>, Inl e)
      | Inr result \<Rightarrow>
         (let data = data1\<lparr>sf_revision := sf_revision data1 + 1\<rparr>;
              (w1, ok1) = save_store cfg (clk 2) data (sh_world h) in
          if \<not> ok1 then (h\<lparr>sh_world := w1\<rparr>, Inl store_io_error)
          else
          let (w2, ok2) =
                (if lifecycle_changed (sf_onboarding data) (sf_onboarding previous)
                 then save_lifecycle cfg (clk 3) (sf_onboarding data) w1 else (w1, True)) in
          if \<not> ok2 then (h\<lparr>sh_world := restore_files cfg clk previous w2\<rparr>, Inl store_io_error)
          else
          let start = ob_start_with_omarchy (sf_onboarding data);
              (link, w3, ok3) =
                (if start \<noteq> ob_start_with_omarchy (sf_onboarding previous)
                 then sync_autostart_registration start (sh_link h) w2
                 else (sh_link h, w2, True)) in
          if \<not> ok3
          then let (link', w4, _) = sync_autostart_registration
                     (ob_start_with_omarchy (sf_onboarding previous)) link
                     (restore_files cfg clk previous w3) in
               (h\<lparr>sh_world := w4, sh_link := link'\<rparr>, Inl store_io_error)
          else (publish_locked (h\<lparr>sh_data := data, sh_world := w3, sh_link := link\<rparr>), Inr result)))"

definition activate_account ::
  "store_config \<Rightarrow> clock \<Rightarrow> (string \<Rightarrow> string) \<Rightarrow> string option \<Rightarrow> store_handle
     \<Rightarrow> store_handle \<times> json backend_res" where
  "activate_account cfg clk to_lowercase account_name h =
     (case opt_filter (\<lambda>s. s \<noteq> []) (map_option trim account_name) of
        None \<Rightarrow> (h, Inr (jobj [(''changed'', JBool False)]))
      | Some name \<Rightarrow>
         (let key = account_fingerprint to_lowercase name in
          if sf_active_account_key (sh_data h) = Some key
          then (h, Inr (jobj [(''changed'', JBool False)]))
          else
          let (data, r) = activate_data clk key (sh_data h) in
          case r of
            Inl e \<Rightarrow> (h\<lparr>sh_data := data\<rparr>, Inl e)
          | Inr _ \<Rightarrow>
             (let (w1, ok1) = save_store cfg (clk 7) data (sh_world h) in
              if \<not> ok1 then (h\<lparr>sh_world := w1\<rparr>, Inl store_io_error)
              else (publish_locked (h\<lparr>sh_data := data, sh_world := w1\<rparr>),
                    Inr (jobj [(''changed'', JBool True)])))))"

section \<open>Requests and events\<close>

definition request_inner ::
  "store_config \<Rightarrow> clock \<Rightarrow> string \<Rightarrow> json \<Rightarrow> store_handle \<Rightarrow> store_handle \<times> json backend_res" where
  "request_inner cfg clk meth params h =
     (let data = sh_data h in
      if meth = ''store.get'' then (h, Inr (summary_value data))
      else if meth = ''profiles.list'' then (h, list_collection params Profiles data)
      else if meth = ''recents.list'' then (h, list_collection params Recents data)
      else if meth = ''excluded_locations.get''
      then (h, Inr (jobj [(''items'',
              JArr (map excluded_location_json (ac_excluded_locations (account_ref data))))]))
      else if meth = ''connection.resolve'' then (h, resolve_connection (account_ref data) params)
      else case mutation_of clk meth params of
          Some f \<Rightarrow> mutate cfg clk f h
        | None \<Rightarrow> (h, fail ''method_not_found'' ''Unknown canonical-store method''))"

definition store_request ::
  "store_config \<Rightarrow> clock \<Rightarrow> string \<Rightarrow> string \<Rightarrow> json \<Rightarrow> store_handle \<Rightarrow> store_handle \<times> json backend_res" where
  "store_request cfg clk client meth params h =
     (let (c1, lease) = op_begin (clk 8) client meth (sh_coord h) in
      case lease of
        Inl e \<Rightarrow> (h\<lparr>sh_coord := c1\<rparr>, Inl e)
      | Inr l \<Rightarrow>
         (let (h1, result) = request_inner cfg clk meth params (h\<lparr>sh_coord := c1\<rparr>);
              failure = (case result of Inl e \<Rightarrow> Some e | Inr _ \<Rightarrow> None) in
          (h1\<lparr>sh_coord := op_finish (clk 9) l failure (sh_coord h1)\<rparr>, result)))"

definition apply_event ::
  "store_config \<Rightarrow> clock \<Rightarrow> (string \<Rightarrow> string) \<Rightarrow> string \<Rightarrow> json \<Rightarrow> store_handle \<Rightarrow> store_handle" where
  "apply_event cfg clk to_lowercase event data h =
     (if event = ''operation.stage''
      then h\<lparr>sh_coord := update_stage (clk 8) (unwrap_or [] (vstr data ''method''))
               (unwrap_or [] (vstr data ''stage'')) (vbool data ''cancelable'') (sh_coord h)\<rparr>
      else
      let account = (if event = ''account'' \<and> vstr data ''status'' = Some ''signed_in''
                     then vstr data ''name'' else None);
          h1 = h\<lparr>sh_coord := (sh_coord h)
                 \<lparr>co_state := reduce_snapshot (clk 9) event data (co_state (sh_coord h))\<rparr>\<rparr> in
      case account of
        None \<Rightarrow> h1
      | Some name \<Rightarrow> fst (activate_account cfg clk to_lowercase (Some name) h1))"

section \<open>Opening\<close>

definition io_of :: "'a \<times> 'b backend_res \<Rightarrow> string + ('a \<times> 'b)" where
  "io_of x = (case x of (a, Inl e) \<Rightarrow> Inl (be_message e) | (a, Inr b) \<Rightarrow> Inr (a, b))"

definition store_open ::
  "store_config \<Rightarrow> clock \<Rightarrow> (string + json) option \<Rightarrow> coordinator \<Rightarrow> autostart_link \<Rightarrow> world
     \<Rightarrow> string + store_handle" where
  "store_open cfg clk legacy coord link w =
     (let existed = (content w (sc_store_path cfg) \<noteq> None) in
      rbind (if existed then load_store cfg w else Inr store_file_default) (\<lambda>d0.
      rbind (if \<not> existed then import_legacy legacy d0 else Inr (d0, False)) (\<lambda>(d1, migrated).
      rbind (io_of (seed_known_accounts_with_official_profiles clk d1)) (\<lambda>(d2, seeded).
      rbind (io_of (seed_known_accounts_with_fastest_profile clk d2)) (\<lambda>(d3, fastest).
      let (data, repaired) = repair_default_connections d3;
          (w1, ok1) = (if \<not> existed \<or> migrated \<or> seeded \<or> fastest \<or> repaired
                       then save_store cfg (clk 10) data w else (w, True)) in
      if \<not> ok1 then Inl ''canonical store was not saved''
      else
      let (w2, ok2) = save_lifecycle cfg (clk 11) (sf_onboarding data) w1 in
      if \<not> ok2 then Inl ''lifecycle settings were not saved''
      else
      let (link', w3, ok3) = sync_autostart_registration
            (ob_start_with_omarchy (sf_onboarding data)) link w2 in
      if \<not> ok3 then Inl ''autostart registration failed''
      else Inr (publish_locked
             \<lparr>sh_data = data, sh_world = w3, sh_link = link', sh_coord = coord\<rparr>))))))"

section \<open>What a mutation leaves behind\<close>

definition paths_ok :: "store_config \<Rightarrow> bool" where
  "paths_ok cfg \<longleftrightarrow> sc_store_path cfg \<noteq> sc_lifecycle_path cfg
     \<and> (\<forall>now. store_tmp cfg now \<notin> {sc_store_path cfg, sc_lifecycle_path cfg})
     \<and> (\<forall>now. lifecycle_tmp cfg now \<notin> {sc_store_path cfg, sc_lifecycle_path cfg})"

definition store_on_disk :: "store_config \<Rightarrow> store_handle \<Rightarrow> bool" where
  "store_on_disk cfg h \<longleftrightarrow>
     content (sh_world h) (sc_store_path cfg) = Some (cd_store (sc_codec cfg) (sh_data h) @ [CHR 0x0A])"

definition lifecycle_on_disk :: "store_config \<Rightarrow> store_handle \<Rightarrow> bool" where
  "lifecycle_on_disk cfg h \<longleftrightarrow>
     content (sh_world h) (sc_lifecycle_path cfg)
       = Some (cd_json (sc_codec cfg) (lifecycle_json (sf_onboarding (sh_data h))) @ [CHR 0x0A])"

definition store_published :: "store_handle \<Rightarrow> bool" where
  "store_published h \<longleftrightarrow> sn_store (co_state (sh_coord h)) = store_state (sh_data h)"

lemma save_store_content:
  assumes "paths_ok cfg" "save_store cfg now data w = (w', ok)"
  shows "content w' (sc_store_path cfg)
       = (if ok then Some (cd_store (sc_codec cfg) data @ [CHR 0x0A]) else content w (sc_store_path cfg))"
    "content w' (sc_lifecycle_path cfg) = content w (sc_lifecycle_path cfg)"
proof -
  have n: "store_tmp cfg now \<noteq> sc_store_path cfg" "sc_lifecycle_path cfg \<noteq> store_tmp cfg now"
    "sc_lifecycle_path cfg \<noteq> sc_store_path cfg"
    using assms(1) by (auto simp: paths_ok_def)
  show "content w' (sc_store_path cfg)
       = (if ok then Some (cd_store (sc_codec cfg) data @ [CHR 0x0A]) else content w (sc_store_path cfg))"
    using replace_private_result [OF n(1)] assms(2) unfolding save_store_def by (auto split: if_splits)
  show "content w' (sc_lifecycle_path cfg) = content w (sc_lifecycle_path cfg)"
    using replace_private_other [OF n(2,3)] assms(2) unfolding save_store_def by (metis fst_conv)
qed

lemma save_lifecycle_content:
  assumes "paths_ok cfg" "save_lifecycle cfg now ob w = (w', ok)"
  shows "content w' (sc_lifecycle_path cfg)
       = (if ok then Some (cd_json (sc_codec cfg) (lifecycle_json ob) @ [CHR 0x0A])
          else content w (sc_lifecycle_path cfg))"
    "content w' (sc_store_path cfg) = content w (sc_store_path cfg)"
proof -
  have n: "lifecycle_tmp cfg now \<noteq> sc_lifecycle_path cfg" "sc_store_path cfg \<noteq> lifecycle_tmp cfg now"
    "sc_store_path cfg \<noteq> sc_lifecycle_path cfg"
    using assms(1) unfolding paths_ok_def by (blast, metis insertI1, blast)
  show "content w' (sc_lifecycle_path cfg)
       = (if ok then Some (cd_json (sc_codec cfg) (lifecycle_json ob) @ [CHR 0x0A])
          else content w (sc_lifecycle_path cfg))"
    using replace_private_result [OF n(1)] assms(2) unfolding save_lifecycle_def by (auto split: if_splits)
  show "content w' (sc_store_path cfg) = content w (sc_store_path cfg)"
    using replace_private_other [OF n(2,3)] assms(2) unfolding save_lifecycle_def by (metis fst_conv)
qed

lemma sync_autostart_files:
  "sync_autostart_registration e link w = (link', w', ok) \<Longrightarrow> content w' q = content w q"
proof -
  have nf: "next_fault v = (f, v') \<Longrightarrow> w_files v' = w_files v" for v f v'
    using next_fault_files [of v] by simp
  assume "sync_autostart_registration e link w = (link', w', ok)"
  then show ?thesis
    unfolding sync_autostart_registration_def Let_def
    by (auto split: prod.splits if_splits autostart_link.splits dest!: nf)
qed

text \<open>The four ways a call of \<open>mutate\<close> can end.\<close>

lemma mutate_cases:
  assumes "paths_ok cfg" "mutate cfg clk f h = (h', r)"
  obtains
    (rejected) d e where "f (sh_data h) = (d, Inl e)" "r = Inl e" "h' = h\<lparr>sh_data := d\<rparr>"
  | (io_failed) d out where "f (sh_data h) = (d, Inr out)" "r = Inl store_io_error"
      "sh_data h' = sh_data h" "sh_coord h' = sh_coord h"
  | (committed) d out where "f (sh_data h) = (d, Inr out)" "r = Inr out"
      "sh_data h' = d\<lparr>sf_revision := sf_revision d + 1\<rparr>" "store_published h'" "store_on_disk cfg h'"
      "lifecycle_changed (sf_onboarding d) (sf_onboarding (sh_data h)) \<Longrightarrow> lifecycle_on_disk cfg h'"
      "\<not> lifecycle_changed (sf_onboarding d) (sf_onboarding (sh_data h)) \<Longrightarrow>
         content (sh_world h') (sc_lifecycle_path cfg) = content (sh_world h) (sc_lifecycle_path cfg)"
proof -
  obtain d q where f: "f (sh_data h) = (d, q)" by force
  show thesis
  proof (cases q)
    case (Inl e)
    then have "h' = h\<lparr>sh_data := d\<rparr>" "r = Inl e" using assms(2) f by (auto simp: mutate_def Let_def)
    with rejected [of d e] f Inl show thesis by simp
  next
    case (Inr out)
    let ?d = "d\<lparr>sf_revision := sf_revision d + 1\<rparr>"
    let ?lc = "lifecycle_changed (sf_onboarding d) (sf_onboarding (sh_data h))"
    obtain w1 ok1 where 1: "save_store cfg (clk 2) ?d (sh_world h) = (w1, ok1)" by force
    obtain w2 ok2 where 2: "(if ?lc then save_lifecycle cfg (clk 3) (sf_onboarding d) w1 else (w1, True))
        = (w2, ok2)" by force
    let ?st = "ob_start_with_omarchy (sf_onboarding d)"
    obtain link w3 ok3 where 3: "(if ?st \<noteq> ob_start_with_omarchy (sf_onboarding (sh_data h))
        then sync_autostart_registration ?st (sh_link h) w2 else (sh_link h, w2, True)) = (link, w3, ok3)"
      by (metis prod_cases3)
    obtain link' w4 ok4 where 4: "sync_autostart_registration
        (ob_start_with_omarchy (sf_onboarding (sh_data h))) link (restore_files cfg clk (sh_data h) w3)
        = (link', w4, ok4)" by (metis prod_cases3)
    have ob: "sf_onboarding ?d = sf_onboarding d" by simp
    have m: "mutate cfg clk f h =
       (if \<not> ok1 then (h\<lparr>sh_world := w1\<rparr>, Inl store_io_error)
        else if \<not> ok2 then (h\<lparr>sh_world := restore_files cfg clk (sh_data h) w2\<rparr>, Inl store_io_error)
        else if \<not> ok3 then (h\<lparr>sh_world := w4, sh_link := link'\<rparr>, Inl store_io_error)
        else (publish_locked (h\<lparr>sh_data := ?d, sh_world := w3, sh_link := link\<rparr>), Inr out))"
      unfolding mutate_def Let_def f Inr prod.case sum.case ob 1 2 3 4 by (rule refl)
    show thesis
    proof (cases "ok1 \<and> ok2 \<and> ok3")
      case False
      then show thesis
        using io_failed [of d out] f Inr assms(2) unfolding m by (auto split: if_splits)
    next
      case True
      then have h': "h' = publish_locked (h\<lparr>sh_data := ?d, sh_world := w3, sh_link := link\<rparr>)" "r = Inr out"
        using assms(2) unfolding m by auto
      have p3: "content w3 q = content w2 q" for q
        using 3 sync_autostart_files by (auto split: if_splits)
      have p2: "content w2 (sc_store_path cfg) = content w1 (sc_store_path cfg)"
        using 2 save_lifecycle_content(2) [OF assms(1)] by (auto split: if_splits)
      have "store_on_disk cfg h'"
        using save_store_content(1) [OF assms(1) 1] p2 p3 True
        by (simp add: store_on_disk_def h'(1) publish_locked_def)
      moreover have "store_published h'" by (simp add: h'(1) store_published_def publish_locked_def)
      moreover have "lifecycle_on_disk cfg h'" if ?lc
        using that 2 True p3 save_lifecycle_content(1) [OF assms(1)]
        by (simp add: lifecycle_on_disk_def h'(1) publish_locked_def)
      moreover have "content (sh_world h') (sc_lifecycle_path cfg) = content (sh_world h) (sc_lifecycle_path cfg)"
        if "\<not> ?lc"
        using that 2 p3 save_store_content(2) [OF assms(1) 1] by (simp add: h'(1) publish_locked_def)
      ultimately show thesis
        using committed [of d out] f Inr h' by (simp add: publish_locked_def)
    qed
  qed
qed

section \<open>Properties\<close>

text \<open>
  C25. A store mutation that reports success is durable and visible: the document in memory is what
  the mutation made of it, one revision later; the store file holds its encoding, the lifecycle
  file that of the onboarding section when a field of it changed, and the published snapshot shows
  it. A mutation that fails publishes nothing; and when it failed for an I/O error the
  document in memory is the one from before.
\<close>

theorem mutation_commits_or_reports:
  assumes "paths_ok cfg" "mutate cfg clk f h = (h', r)"
  shows "(\<exists>d out. f (sh_data h) = (d, Inr out) \<and> r = Inr out
            \<and> sh_data h' = d\<lparr>sf_revision := sf_revision d + 1\<rparr>
            \<and> store_published h' \<and> store_on_disk cfg h'
            \<and> (if lifecycle_changed (sf_onboarding d) (sf_onboarding (sh_data h))
               then lifecycle_on_disk cfg h'
               else content (sh_world h') (sc_lifecycle_path cfg)
                    = content (sh_world h) (sc_lifecycle_path cfg)))
     \<or> (\<exists>d e. f (sh_data h) = (d, Inl e) \<and> r = Inl e \<and> h' = h\<lparr>sh_data := d\<rparr>)
     \<or> (\<exists>d out. f (sh_data h) = (d, Inr out) \<and> r = Inl store_io_error
            \<and> sh_data h' = sh_data h \<and> sh_coord h' = sh_coord h)"
  using assms
proof (cases rule: mutate_cases)
  case (committed d out)
  then show ?thesis by auto
qed auto

definition demo_config :: store_config where
  "demo_config = \<lparr>sc_pid = 7, sc_store_dir = ''/d'', sc_store_path = ''/d/state-v1.json'',
     sc_lifecycle_dir = ''/c'', sc_lifecycle_path = ''/c/lifecycle.json'',
     sc_codec = \<lparr>cd_store = (\<lambda>d. dec (unat (sf_revision d))), cd_json = (\<lambda>_. ''lifecycle''),
       cd_parse = (\<lambda>s. if s = [CHR ''1'', CHR 0x0A] then Some (store_file_default\<lparr>sf_revision := 1\<rparr>) else None)\<rparr>\<rparr>"

definition demo_handle :: store_handle where
  "demo_handle = \<lparr>sh_data = store_file_default, sh_world = \<lparr>w_files = [], w_faults = []\<rparr>,
     sh_link = LinkMissing, sh_coord = coordinator_new state_snapshot_default\<rparr>"

lemma demo_paths_ok: "paths_ok demo_config"
  by (simp add: paths_ok_def demo_config_def store_tmp_def lifecycle_tmp_def)

theorem mutation_commits_or_reports_witness:
  "store_on_disk demo_config (fst (mutate demo_config (\<lambda>_. 7) (delete_recent (jobj [(''id'', JStr ''r'')])) demo_handle))"
proof -
  let ?m = "mutate demo_config (\<lambda>_. 7) (delete_recent (jobj [(''id'', JStr ''r'')])) demo_handle"
  have ok: "\<not> is_err (snd ?m)" by code_simp
  have "?m = (fst ?m, snd ?m)" by simp
  from mutation_commits_or_reports [OF demo_paths_ok this] ok show ?thesis by (elim disjE exE conjE) auto
qed

text \<open>
  C26. What was committed survives a restart: if the decoder reads back what the encoder wrote
  followed by a newline, the document has the current version and its encoding is shorter than the
  limit, then loading the store after a successful mutation returns the document in memory.
\<close>

theorem committed_store_reloads:
  assumes "paths_ok cfg" "mutate cfg clk f h = (h', Inr out)"
    "cd_parse (sc_codec cfg) (cd_store (sc_codec cfg) (sh_data h') @ [CHR 0x0A]) = Some (sh_data h')"
    "sf_version (sh_data h') = STORE_VERSION"
    "length (cd_store (sc_codec cfg) (sh_data h')) < MAX_STORE_BYTES"
  shows "load_store cfg (sh_world h') = Inr (sh_data h')"
  using assms(1,2)
proof (cases rule: mutate_cases)
  case (committed d out')
  then show ?thesis using assms(3-5) by (simp add: load_store_def store_on_disk_def)
qed auto

theorem committed_store_reloads_witness:
  "\<exists>h' out. mutate demo_config (\<lambda>_. 7) (\<lambda>d. (d, Inr JNull)) demo_handle = (h', Inr out)
     \<and> load_store demo_config (sh_world h') = Inr (sh_data h')"
proof -
  let ?m = "mutate demo_config (\<lambda>_. 7) (\<lambda>d. (d, Inr JNull)) demo_handle"
  have ok: "\<not> is_err (snd ?m)" by code_simp
  have d: "sh_data (fst ?m) = store_file_default\<lparr>sf_revision := 1\<rparr>" by code_simp
  have dec1: "dec (Suc 0) = ''1''" by code_simp
  obtain out where o: "snd ?m = Inr out" using ok by (cases "snd ?m") auto
  have m: "?m = (fst ?m, Inr out)" using o by (metis prod.collapse)
  have "load_store demo_config (sh_world (fst ?m)) = Inr (sh_data (fst ?m))"
    by (rule committed_store_reloads [OF demo_paths_ok m]; unfold d)
      (simp_all add: demo_config_def dec1 store_file_default_def MAX_STORE_BYTES_def)
  then show ?thesis using m by blast
qed

section \<open>Where the code falls short\<close>

definition largest_config :: store_config where
  "largest_config = \<lparr>sc_pid = 7, sc_store_dir = ''/d'', sc_store_path = ''/d/state-v1.json'',
     sc_lifecycle_dir = ''/c'', sc_lifecycle_path = ''/c/lifecycle.json'',
     sc_codec = \<lparr>cd_store = (\<lambda>_. replicate MAX_STORE_BYTES (CHR ''x'')), cd_json = (\<lambda>_. []),
       cd_parse = (\<lambda>_. None)\<rparr>\<rparr>"

text \<open>
  A document whose encoding has exactly the maximal size is saved, but the newline that is
  written after it makes the file too large to be loaded again.
\<close>

theorem largest_store_cannot_be_reloaded:
  assumes "paths_ok cfg" "save_store cfg now data w = (w', True)"
    "length (cd_store (sc_codec cfg) data) = MAX_STORE_BYTES"
  shows "load_store cfg w' = Inl ''canonical store exceeds the size limit''"
  using save_store_content(1) [OF assms(1,2)] assms(3) by (simp add: load_store_def)

theorem largest_store_cannot_be_reloaded_witness:
  "\<exists>w'. save_store largest_config 7 store_file_default \<lparr>w_files = [], w_faults = []\<rparr> = (w', True)
     \<and> load_store largest_config w' = Inl ''canonical store exceeds the size limit''"
proof -
  have p: "paths_ok largest_config"
    by (simp add: paths_ok_def largest_config_def store_tmp_def lifecycle_tmp_def)
  have "snd (save_store largest_config 7 store_file_default \<lparr>w_files = [], w_faults = []\<rparr>)"
    by (simp add: save_store_def replace_private_def largest_config_def perform_def next_fault_def
        fill_and_rename_def or_remove_def obj_get_def)
  then obtain w' where s: "save_store largest_config 7 store_file_default \<lparr>w_files = [], w_faults = []\<rparr> = (w', True)"
    by (metis prod.collapse)
  have "length (cd_store (sc_codec largest_config) store_file_default) = MAX_STORE_BYTES"
    by (simp add: largest_config_def)
  with largest_store_cannot_be_reloaded [OF p s] s show ?thesis by blast
qed

definition bad_preferences :: json where
  "bad_preferences = jobj [(''start_with_omarchy'', JBool False), (''auto_connect'', JBool True),
     (''notifications_enabled'', JNull)]"

definition after_rejection :: store_handle where
  "after_rejection = fst (mutate demo_config (\<lambda>_. 7) (set_preferences bad_preferences) demo_handle)"

definition after_next_request :: store_handle where
  "after_next_request = fst (mutate demo_config (\<lambda>_. 8)
     (delete_recent (jobj [(''id'', JStr ''r'')])) after_rejection)"

text \<open>
  A rejected \<open>preferences.set\<close> changes the document in memory without publishing it, and the
  next successful request, here one that deletes nothing, saves and publishes the rejected
  values.
\<close>

theorem rejected_preferences_are_published_later:
  "is_err (snd (mutate demo_config (\<lambda>_. 7) (set_preferences bad_preferences) demo_handle))
   \<and> cs_auto_connect (sn_store (co_state (sh_coord after_rejection))) = False
   \<and> cs_auto_connect (sn_store (co_state (sh_coord after_next_request))) = True
   \<and> cs_start_with_omarchy (sn_store (co_state (sh_coord after_next_request))) = False"
  by code_simp

end
