(* ===== verification/Store_Defaults.thy ===== *)
theory Store_Defaults
  imports Store_Seed Store_Laws
begin

text \<open>
  The default profiles: every template passes normalisation in every locale, and an account is
  seeded with them exactly once.
\<close>

section \<open>The templates are valid\<close>

lemma official_templates_cases:
  "official_templates loc = official_templates ''es'' \<or> official_templates loc = official_templates ''en''"
proof -
  have "is_spanish ''es''" "\<not> is_spanish ''en''" by code_simp+
  then show ?thesis by (cases "is_spanish loc") (simp_all add: official_templates_def)
qed

lemma official_es: "list_all (\<lambda>(raw, i). \<not> is_err (normalize_profile now raw None i))
   (zip (official_templates ''es'') OFFICIAL_DEFAULT_PROFILE_IDS)"
  by code_simp

lemma official_en: "list_all (\<lambda>(raw, i). \<not> is_err (normalize_profile now raw None i))
   (zip (official_templates ''en'') OFFICIAL_DEFAULT_PROFILE_IDS)"
  by code_simp

lemma length_official_templates: "length (official_templates loc) = 6"
  by (simp add: official_templates_def Let_def)

lemma official_template_ok:
  assumes "n < 6"
  shows "\<exists>p. normalize_profile now (official_templates loc ! n) None (OFFICIAL_DEFAULT_PROFILE_IDS ! n) = Inr p"
proof -
  have "list_all (\<lambda>(raw, i). \<not> is_err (normalize_profile now raw None i))
      (zip (official_templates loc) OFFICIAL_DEFAULT_PROFILE_IDS)"
    using official_templates_cases [of loc] official_es official_en by metis
  moreover have "(official_templates loc ! n, OFFICIAL_DEFAULT_PROFILE_IDS ! n)
      \<in> set (zip (official_templates loc) OFFICIAL_DEFAULT_PROFILE_IDS)"
    using assms by (auto simp: set_zip length_official_templates OFFICIAL_DEFAULT_PROFILE_IDS_def)
  ultimately have "\<not> is_err (normalize_profile now (official_templates loc ! n) None (OFFICIAL_DEFAULT_PROFILE_IDS ! n))"
    by (auto simp: list_all_iff)
  then show ?thesis by (cases "normalize_profile now (official_templates loc ! n) None (OFFICIAL_DEFAULT_PROFILE_IDS ! n)") auto
qed

lemma traverse_total:
  "(\<And>x. x \<in> set xs \<Longrightarrow> \<exists>y. f x = Inr y) \<Longrightarrow> \<exists>ys. traverse f xs = Inr ys"
proof (induction xs)
  case (Cons x xs)
  obtain y where "f x = Inr y" using Cons.prems [of x] by auto
  moreover obtain ys where "traverse f xs = Inr ys" using Cons by auto
  ultimately show ?case by simp
qed simp

lemma official_profiles_exist:
  obtains ps where "official_default_profiles clk loc = Inr ps" "length ps = 6"
    "\<forall>n < 6. has_id (OFFICIAL_DEFAULT_PROFILE_IDS ! n) (ps ! n)"
    "\<forall>n < 6. \<exists>m. ps ! n = JObj m \<and> profile_ok (OFFICIAL_DEFAULT_PROFILE_IDS ! n) m"
proof -
  let ?f = "\<lambda>(n, raw, i). rbind (normalize_profile (clk n) raw None i) (\<lambda>m. Inr (JObj m))"
  let ?xs = "zip [0..<6] (zip (official_templates loc) OFFICIAL_DEFAULT_PROFILE_IDS)"
  have len: "length OFFICIAL_DEFAULT_PROFILE_IDS = 6" by (simp add: OFFICIAL_DEFAULT_PROFILE_IDS_def)
  have nth: "?xs ! n = (n, official_templates loc ! n, OFFICIAL_DEFAULT_PROFILE_IDS ! n)" if "n < 6" for n
    using that by (simp add: length_official_templates len)
  have lx: "length ?xs = 6" by (simp add: length_official_templates len)
  have ok: "\<exists>m. ?f (?xs ! n) = Inr (JObj m) \<and> profile_ok (OFFICIAL_DEFAULT_PROFILE_IDS ! n) m" if n: "n < 6" for n
  proof -
    obtain p where p: "normalize_profile (clk n) (official_templates loc ! n) None (OFFICIAL_DEFAULT_PROFILE_IDS ! n) = Inr p"
      using official_template_ok [OF n] by blast
    then show ?thesis using normalize_profile_ok [OF p] nth [OF n] by simp
  qed
  have "\<exists>y. ?f x = Inr y" if x: "x \<in> set ?xs" for x
  proof -
    obtain n where n: "n < length ?xs" "?xs ! n = x" using x by (auto simp: in_set_conv_nth)
    from ok [of n] n lx show ?thesis by auto
  qed
  then obtain ps where ps: "traverse ?f ?xs = Inr ps" using traverse_total [of ?xs ?f] by blast
  have l: "length ps = 6" using traverse_length [OF ps] lx by simp
  have each: "?f (?xs ! n) = Inr (ps ! n)" if "n < 6" for n
    using list_all2_nthD [OF iffD1 [OF traverse_Inr ps], of n] that
    by (simp add: nth length_official_templates len)
  have good: "\<forall>n < 6. \<exists>m. ps ! n = JObj m \<and> profile_ok (OFFICIAL_DEFAULT_PROFILE_IDS ! n) m"
  proof (intro allI impI)
    fix n :: nat assume n: "n < 6"
    obtain m where "?f (?xs ! n) = Inr (JObj m)" "profile_ok (OFFICIAL_DEFAULT_PROFILE_IDS ! n) m"
      using ok [OF n] by blast
    with each [OF n] show "\<exists>m. ps ! n = JObj m \<and> profile_ok (OFFICIAL_DEFAULT_PROFILE_IDS ! n) m"
      by (intro exI [of _ m]) simp
  qed
  then have "\<forall>n < 6. has_id (OFFICIAL_DEFAULT_PROFILE_IDS ! n) (ps ! n)"
    by (fastforce simp: profile_ok_def profile_target_ok_def has_id_def)
  with that [OF _ l _ good] ps show thesis by (simp add: official_default_profiles_def)
qed

section \<open>Seeding\<close>

lemma seed_profile_grows: "\<exists>added. seed_profile t ps = ps @ added \<and> length added \<le> 1"
  by (auto simp: seed_profile_def)

lemma seed_profile_present:
  "length ps < MAX_PROFILES \<Longrightarrow> has_id i t \<Longrightarrow> \<exists>p \<in> set (seed_profile t ps). has_id i p"
  by (auto simp: seed_profile_def has_id_def)

lemma seed_fold:
  "length ps + length ts \<le> MAX_PROFILES \<Longrightarrow>
     \<exists>added. fold seed_profile ts ps = ps @ added
       \<and> (\<forall>t \<in> set ts. \<forall>i. has_id i t \<longrightarrow> (\<exists>p \<in> set (ps @ added). has_id i p))"
proof (induction ts arbitrary: ps)
  case (Cons t ts)
  obtain x where x: "seed_profile t ps = ps @ x" "length x \<le> 1" using seed_profile_grows by blast
  have "length (ps @ x) + length ts \<le> MAX_PROFILES" using Cons.prems x(2) by simp
  from Cons.IH [OF this] obtain y where y: "fold seed_profile ts (ps @ x) = (ps @ x) @ y"
    "\<forall>t \<in> set ts. \<forall>i. has_id i t \<longrightarrow> (\<exists>p \<in> set ((ps @ x) @ y). has_id i p)" by blast
  have "\<exists>p \<in> set (ps @ x @ y). has_id i p" if "has_id i t" for i
    using seed_profile_present [OF _ that, of ps] Cons.prems x(1) by auto
  then show ?case using x(1) y by (intro exI [of _ "x @ y"]) auto
qed simp

text \<open>
  The default profiles are seeded once: for every locale, an account that has not been seeded
  and has room for six more profiles keeps its profiles and gets all six default profiles; the
  account is then marked, so that seeding it again, whatever the user did in between with its
  profiles, changes nothing.
\<close>

theorem default_profiles_seeded_once:
  assumes "key \<notin> set (mg_official_seeded (sf_migration data))"
    "length (ac_profiles (account_of data key)) + 6 \<le> MAX_PROFILES"
  shows "\<exists>data' added. seed_account_with_official_profiles clk key data = (data', Inr True)
     \<and> ac_profiles (account_of data' key) = ac_profiles (account_of data key) @ added
     \<and> (\<forall>i \<in> set OFFICIAL_DEFAULT_PROFILE_IDS. find_id i (ac_profiles (account_of data' key)) \<noteq> None)
     \<and> (sf_migration data'' = sf_migration data' \<longrightarrow>
          seed_account_with_official_profiles clk' key data'' = (data'', Inr False))"
proof -
  obtain ps where ps: "official_default_profiles clk (ob_locale (sf_onboarding data)) = Inr ps" "length ps = 6"
    "\<forall>n < 6. has_id (OFFICIAL_DEFAULT_PROFILE_IDS ! n) (ps ! n)"
    by (rule official_profiles_exist) blast
  obtain added where added: "fold seed_profile ps (ac_profiles (account_of data key))
      = ac_profiles (account_of data key) @ added"
    "\<forall>t \<in> set ps. \<forall>i. has_id i t \<longrightarrow> (\<exists>p \<in> set (ac_profiles (account_of data key) @ added). has_id i p)"
    using seed_fold [of "ac_profiles (account_of data key)" ps] assms(2) ps(2) by auto
  have all: "\<exists>p \<in> set (ac_profiles (account_of data key) @ added). has_id i p"
    if i: "i \<in> set OFFICIAL_DEFAULT_PROFILE_IDS" for i
  proof -
    have "length OFFICIAL_DEFAULT_PROFILE_IDS = 6" by (simp add: OFFICIAL_DEFAULT_PROFILE_IDS_def)
    then obtain n where "n < 6" "OFFICIAL_DEFAULT_PROFILE_IDS ! n = i"
      using i by (metis in_set_conv_nth)
    then have "has_id i (ps ! n)" "ps ! n \<in> set ps" using ps(2,3) by auto
    then show ?thesis using added(2) by blast
  qed
  let ?a = "(account_of data key)\<lparr>ac_profiles := ac_profiles (account_of data key) @ added\<rparr>"
  let ?d = "(put_account key ?a data)\<lparr>sf_migration := (sf_migration data)
     \<lparr>mg_official_seeded := mg_official_seeded (sf_migration data) @ [key]\<rparr>\<rparr>"
  have s: "seed_account_with_official_profiles clk key data = (?d, Inr True)"
    using assms(1) ps(1) added(1) all
    by (auto simp: seed_account_with_official_profiles_def Let_def)
  have acc: "ac_profiles (account_of ?d key) = ac_profiles (account_of data key) @ added"
    by (simp add: account_of_def)
  show ?thesis
    using s acc all
    by (intro exI [of _ ?d] exI [of _ added])
      (auto simp: find_id_None seed_account_with_official_profiles_def)
qed

theorem default_profiles_seeded_once_witness:
  "\<exists>data' added. seed_account_with_official_profiles (\<lambda>_. 7) ''k'' store_file_default = (data', Inr True)
     \<and> ac_profiles (account_of data' ''k'') = ac_profiles (account_of store_file_default ''k'') @ added
     \<and> seed_account_with_official_profiles (\<lambda>_. 8) ''k'' data' = (data', Inr False)"
proof -
  have h: "''k'' \<notin> set (mg_official_seeded (sf_migration store_file_default))"
    "length (ac_profiles (account_of store_file_default ''k'')) + 6 \<le> MAX_PROFILES"
    by (simp_all add: store_file_default_def migration_state_default_def account_of_def
        account_store_default_def MAX_PROFILES_def)
  obtain data' where d: "seed_account_with_official_profiles (\<lambda>_. 7) ''k'' store_file_default = (data', Inr True)"
    using default_profiles_seeded_once [OF h] by blast
  show ?thesis
    using default_profiles_seeded_once [OF h, of "\<lambda>_. 7" data' "\<lambda>_. 8"] d by auto
qed

end
