(* ===== verification/Split_Model.thy ===== *)
theory Split_Model
  imports Json Net_Addr
begin

text \<open>
  \<^verbatim>\<open>splitd/src/model.rs\<close>: the split-tunneling configuration of a user, its validation, and the decision
  whether a process belongs to it. The \<open>ipnet\<close> crate, which parses, truncates and prints CIDR ranges, is
  an argument (\<open>ipnet_crate\<close>); \<open>IpAddr::from_str\<close> of the standard library is \<open>parse_ip\<close>.
\<close>

section \<open>Modes and configurations\<close>

definition MAX_CONFIGS :: nat where "MAX_CONFIGS = 64"
definition MAX_PATHS :: nat where "MAX_PATHS = 256"
definition MAX_PATH_BYTES :: nat where "MAX_PATH_BYTES = 4096"
definition MAX_IP_RANGES :: nat where "MAX_IP_RANGES = 256"

datatype split_mode = ModeExclude | ModeInclude

definition split_mode_parse :: "string \<Rightarrow> string + split_mode" where
  "split_mode_parse s =
     (if s = ''exclude'' then Inr ModeExclude
      else if s = ''include'' then Inr ModeInclude
      else Inl (''mode must be '' @ [CHR 0x27] @ ''exclude'' @ [CHR 0x27] @ '' or '' @ [CHR 0x27] @ ''include'' @ [CHR 0x27]))"

fun split_mode_str :: "split_mode \<Rightarrow> string" where
  "split_mode_str ModeExclude = ''exclude''"
| "split_mode_str ModeInclude = ''include''"

record split_config =
  sp_mode :: split_mode
  sp_app_paths :: "string list"
  sp_ip_ranges :: "string list"

type_synonym config_map = "(u16 \<times> split_config) list"
type_synonym policy_map = "(u16 \<times> string list) list"

section \<open>CIDR ranges\<close>

record ip_net =
  net_address :: ip_addr
  net_prefix :: nat

record ipnet_crate =
  ipnet_from_str :: "string \<Rightarrow> ip_net option"
  ipnet_trunc :: "ip_net \<Rightarrow> ip_net"
  ipnet_to_string :: "ip_net \<Rightarrow> string"

definition host_net :: "ip_addr \<Rightarrow> ip_net" where
  "host_net a = \<lparr>net_address = a, net_prefix = (if is_v4 a then 32 else 128)\<rparr>"

definition parse_ip_range :: "ipnet_crate \<Rightarrow> string \<Rightarrow> string + ip_net" where
  "parse_ip_range cr s0 =
     (let s = trim s0 in
      case (case ipnet_from_str cr s of
              Some n \<Rightarrow> Some n
            | None \<Rightarrow> map_option host_net (parse_ip s)) of
        Some n \<Rightarrow> Inr (ipnet_trunc cr n)
      | None \<Rightarrow> Inl (''invalid IP address or CIDR range: '' @ s))"

definition canonical_ip_range :: "ipnet_crate \<Rightarrow> string \<Rightarrow> string + string" where
  "canonical_ip_range cr s = rbind (parse_ip_range cr s) (\<lambda>n. Inr (ipnet_to_string cr n))"

section \<open>Validation\<close>

fun normalize_into :: "string list \<Rightarrow> string list \<Rightarrow> string list" where
  "normalize_into acc [] = acc"
| "normalize_into acc (v # vs) =
     normalize_into (if v \<noteq> [] \<and> v \<notin> set acc then acc @ [v] else acc) vs"

definition normalize_values :: "string list \<Rightarrow> string list" where
  "normalize_values = normalize_into []"

definition bad_value :: "string \<Rightarrow> bool" where
  "bad_value s \<longleftrightarrow> MAX_PATH_BYTES < length s \<or> CHR 0x00 \<in> set s"

abbreviation "too_many_paths \<equiv> ''at most 256 application paths are allowed''"
abbreviation "too_many_ranges \<equiv> ''at most 256 IP ranges are allowed''"
abbreviation "too_long_value \<equiv> ''configuration values must be at most 4096 bytes''"

definition validate_ip_ranges :: "ipnet_crate \<Rightarrow> string list \<Rightarrow> string + string list" where
  "validate_ip_ranges cr vs =
     (if MAX_IP_RANGES < length vs then Inl too_many_ranges
      else if \<exists>v \<in> set vs. bad_value v then Inl too_long_value
      else rbind (traverse (canonical_ip_range cr) (filter (\<lambda>v. trim v \<noteq> []) vs))
             (\<lambda>rs. Inr (normalize_values rs)))"

definition config_validate :: "ipnet_crate \<Rightarrow> split_config \<Rightarrow> string + split_config" where
  "config_validate cr c =
     (if MAX_PATHS < length (sp_app_paths c) then Inl too_many_paths
      else if MAX_IP_RANGES < length (sp_ip_ranges c) then Inl too_many_ranges
      else if \<exists>v \<in> set (sp_app_paths c @ sp_ip_ranges c). bad_value v then Inl too_long_value
      else rbind (validate_ip_ranges cr (sp_ip_ranges c))
             (\<lambda>rs. Inr \<lparr>sp_mode = sp_mode c, sp_app_paths = normalize_values (sp_app_paths c),
                        sp_ip_ranges = rs\<rparr>))"

section \<open>Rules and matching\<close>

definition has_app_rules :: "split_config \<Rightarrow> bool" where
  "has_app_rules c \<longleftrightarrow> (\<exists>p \<in> set (sp_app_paths c). p \<noteq> [])"

definition has_rules :: "split_config \<Rightarrow> bool" where
  "has_rules c \<longleftrightarrow> has_app_rules c \<or> sp_ip_ranges c \<noteq> []"

definition identity_matches_path :: "string \<Rightarrow> string \<Rightarrow> bool" where
  "identity_matches_path identity path \<longleftrightarrow>
     identity = path
     \<or> (starts_with path identity \<and> ws_front (drop (length path) identity) \<noteq> None)"

definition config_matches :: "split_config \<Rightarrow> string list \<Rightarrow> bool" where
  "config_matches c identities \<longleftrightarrow>
     (if sp_mode c = ModeInclude
         \<and> (\<exists>i \<in> set identities. contains ''protonvpn-app'' i \<or> contains ''proton-omarchy-agent'' i)
      then True
      else \<exists>p \<in> set (filter (\<lambda>p. p \<noteq> []) (sp_app_paths c)).
             \<exists>i \<in> set identities. identity_matches_path i p)"

definition config_excludes :: "split_config \<Rightarrow> bool \<Rightarrow> bool" where
  "config_excludes c matched = (case sp_mode c of ModeExclude \<Rightarrow> matched | ModeInclude \<Rightarrow> \<not> matched)"

section \<open>Validated configurations are fixed points\<close>

lemma dedup_by_seen: "set seen = set seen' \<Longrightarrow> dedup_by f seen xs = dedup_by f seen' xs"
proof (induction f seen xs arbitrary: seen' rule: dedup_by.induct)
  case (2 f seen x xs)
  then show ?case using 2(2) [of "f x # seen'"] by auto
qed simp

lemma normalize_into_dedup:
  "normalize_into acc vs = acc @ dedup_by id acc (filter (\<lambda>v. v \<noteq> []) vs)"
proof (induction acc vs rule: normalize_into.induct)
  case (2 acc v vs)
  have "dedup_by id (v # acc) ws = dedup_by id (acc @ [v]) ws" for ws :: "string list"
    by (rule dedup_by_seen) auto
  with 2 show ?case by (auto simp: id_def)
qed simp

lemma normalize_dedup: "normalize_values vs = dedup_by id [] (filter (\<lambda>v. v \<noteq> []) vs)"
  by (simp add: normalize_values_def normalize_into_dedup)

lemma normalize_distinct: "distinct (normalize_values vs)"
  using dedup_by_distinct [of id "[]" "filter (\<lambda>v. v \<noteq> []) vs"] by (simp add: normalize_dedup)

lemma set_normalize: "set (normalize_values vs) = set vs - {[]}"
  using dedup_by_image [of id "[]" "filter (\<lambda>v. v \<noteq> []) vs"] by (auto simp: normalize_dedup)

lemma length_normalize: "length (normalize_values vs) \<le> length vs"
  using length_dedup_by [of id "[]" "filter (\<lambda>v. v \<noteq> []) vs"] length_filter_le [of "\<lambda>v. v \<noteq> []" vs]
  by (simp add: normalize_dedup le_trans)

lemma normalize_idem: "distinct vs \<Longrightarrow> [] \<notin> set vs \<Longrightarrow> normalize_values vs = vs"
  by (metis (mono_tags, lifting) dedup_by_id filter_True inf_bot_right list.map_id list.set(1) normalize_dedup)

text \<open>What the code relies on of the crate for one range text: printing the truncated range and
  reading it again gives the same range, and the text is short, not blank and has no NUL.\<close>

definition canonical_range :: "ipnet_crate \<Rightarrow> string \<Rightarrow> bool" where
  "canonical_range cr s \<longleftrightarrow>
     (case parse_ip_range cr s of
        Inl _ \<Rightarrow> True
      | Inr n \<Rightarrow> ipnet_from_str cr (ipnet_to_string cr n) = Some n \<and> ipnet_trunc cr n = n
               \<and> trimmed (ipnet_to_string cr n) \<and> ipnet_to_string cr n \<noteq> []
               \<and> \<not> bad_value (ipnet_to_string cr n))"

lemma canonical_range_fixed:
  assumes "canonical_range cr s" "canonical_ip_range cr s = Inr t"
  shows "canonical_ip_range cr t = Inr t \<and> trim t = t \<and> t \<noteq> [] \<and> \<not> bad_value t"
  using assms
  by (auto simp: canonical_range_def canonical_ip_range_def rbind_Inr parse_ip_range_def [of cr t]
      trim_trimmed Let_def)

lemma traverse_fixed: "\<forall>x \<in> set xs. f x = Inr x \<Longrightarrow> traverse f xs = Inr xs"
  by (induction xs) auto

lemma validated_ranges:
  assumes "validate_ip_ranges cr vs = Inr rs" "\<forall>v \<in> set vs. canonical_range cr v"
  shows "length rs \<le> length vs" "distinct rs"
    "\<forall>r \<in> set rs. canonical_ip_range cr r = Inr r \<and> trim r = r \<and> r \<noteq> [] \<and> \<not> bad_value r"
proof -
  from assms(1) obtain cs where cs: "traverse (canonical_ip_range cr) (filter (\<lambda>v. trim v \<noteq> []) vs) = Inr cs"
    and rs: "rs = normalize_values cs"
    by (auto simp: validate_ip_ranges_def rbind_Inr split: if_splits)
  show "length rs \<le> length vs"
    using traverse_length [OF cs] length_normalize [of cs] length_filter_le [of "\<lambda>v. trim v \<noteq> []" vs]
    unfolding rs by linarith
  show "distinct rs" by (simp add: rs normalize_distinct)
  show "\<forall>r \<in> set rs. canonical_ip_range cr r = Inr r \<and> trim r = r \<and> r \<noteq> [] \<and> \<not> bad_value r"
    using traverse_set [OF cs] assms(2) canonical_range_fixed by (fastforce simp: rs set_normalize)
qed

lemma validate_ranges_fixed:
  assumes "length rs \<le> MAX_IP_RANGES" "distinct rs"
    and "\<forall>r \<in> set rs. canonical_ip_range cr r = Inr r \<and> trim r = r \<and> r \<noteq> [] \<and> \<not> bad_value r"
  shows "validate_ip_ranges cr rs = Inr rs"
proof -
  have "filter (\<lambda>v. trim v \<noteq> []) rs = rs" using assms(3) by (simp add: filter_id_conv)
  moreover have "traverse (canonical_ip_range cr) rs = Inr rs" using assms(3) by (simp add: traverse_fixed)
  ultimately show ?thesis
    using assms by (auto simp: validate_ip_ranges_def normalize_idem)
qed

lemma config_validate_fixed:
  assumes "config_validate cr c = Inr c'" and "\<forall>r \<in> set (sp_ip_ranges c). canonical_range cr r"
  shows "config_validate cr c' = Inr c'"
    and "c' = \<lparr>sp_mode = sp_mode c, sp_app_paths = normalize_values (sp_app_paths c), sp_ip_ranges = sp_ip_ranges c'\<rparr>"
    and "distinct (sp_ip_ranges c')" "length (sp_app_paths c) \<le> MAX_PATHS" "length (sp_ip_ranges c') \<le> MAX_IP_RANGES"
proof -
  from assms(1) obtain rs where rs: "validate_ip_ranges cr (sp_ip_ranges c) = Inr rs"
    and c': "c' = \<lparr>sp_mode = sp_mode c, sp_app_paths = normalize_values (sp_app_paths c), sp_ip_ranges = rs\<rparr>"
    and ok: "length (sp_app_paths c) \<le> MAX_PATHS" "length (sp_ip_ranges c) \<le> MAX_IP_RANGES"
      "\<forall>v \<in> set (sp_app_paths c). \<not> bad_value v"
    by (auto simp: config_validate_def rbind_Inr split: if_splits)
  note ranges = validated_ranges [OF rs assms(2)]
  have len: "length rs \<le> MAX_IP_RANGES" using ranges(1) ok(2) by simp
  have paths: "normalize_values (normalize_values ps) = normalize_values ps" for ps
    by (rule normalize_idem) (simp_all add: normalize_distinct set_normalize)
  have "length (normalize_values (sp_app_paths c)) \<le> MAX_PATHS"
    using length_normalize [of "sp_app_paths c"] ok(1) by simp
  then show "config_validate cr c' = Inr c'"
    using len ok(3) ranges(3) validate_ranges_fixed [OF len ranges(2,3)]
    by (auto simp: config_validate_def c' paths set_normalize)
  show "c' = \<lparr>sp_mode = sp_mode c, sp_app_paths = normalize_values (sp_app_paths c), sp_ip_ranges = sp_ip_ranges c'\<rparr>"
    "distinct (sp_ip_ranges c')" "length (sp_app_paths c) \<le> MAX_PATHS" "length (sp_ip_ranges c') \<le> MAX_IP_RANGES"
    using c' ok(1) len ranges(2) by simp_all
qed

lemma validate_ranges_idem:
  assumes "validate_ip_ranges cr vs = Inr rs" "\<forall>v \<in> set vs. canonical_range cr v"
  shows "validate_ip_ranges cr rs = Inr rs"
proof -
  have "length vs \<le> MAX_IP_RANGES" using assms(1) by (auto simp: validate_ip_ranges_def split: if_splits)
  then show ?thesis
    using validated_ranges [OF assms] by (intro validate_ranges_fixed) auto
qed

text \<open>The ranges of a validated list can be parsed.\<close>

lemma validated_parses:
  assumes "validate_ip_ranges cr rs = Inr rs" "\<forall>v \<in> set rs. canonical_range cr v" "r \<in> set rs"
  shows "\<not> is_err (parse_ip_range cr r)"
  using validated_ranges(3) [OF assms(1,2)] assms(3) by (fastforce simp: canonical_ip_range_def rbind_Inr)

text \<open>Validation is idempotent: a configuration that passed it is within the limits, has distinct
  non-empty paths and ranges, keeps its mode and its non-empty paths, and passes again unchanged. So a stored
  configuration is not altered when the daemon reads it back.\<close>

theorem validated_config_is_stable:
  assumes "config_validate cr c = Inr c'" and "\<forall>r \<in> set (sp_ip_ranges c). canonical_range cr r"
  shows "config_validate cr c' = Inr c' \<and> sp_mode c' = sp_mode c
    \<and> set (sp_app_paths c') = set (sp_app_paths c) - {[]}
    \<and> distinct (sp_app_paths c') \<and> distinct (sp_ip_ranges c')
    \<and> length (sp_app_paths c') \<le> MAX_PATHS \<and> length (sp_ip_ranges c') \<le> MAX_IP_RANGES"
proof -
  note fixed = config_validate_fixed [OF assms]
  have "sp_mode c' = sp_mode c" "sp_app_paths c' = normalize_values (sp_app_paths c)"
    by (subst fixed(2), simp)+
  then show ?thesis
    using fixed(1,3-5) length_normalize [of "sp_app_paths c"] by (simp add: set_normalize normalize_distinct)
qed

text \<open>A crate that knows one range text and its unaligned variant.\<close>

definition sample_crate :: ipnet_crate where
  "sample_crate =
     (let n = \<lparr>net_address = V4 [192, 0, 2, 0], net_prefix = 24\<rparr> in
      \<lparr>ipnet_from_str = (\<lambda>s. if s \<in> {''192.0.2.0/24'', ''192.0.2.42/24''} then Some n else None),
       ipnet_trunc = (\<lambda>m. m), ipnet_to_string = (\<lambda>m. ''192.0.2.0/24'')\<rparr>)"

definition sample_config :: split_config where
  "sample_config = \<lparr>sp_mode = ModeExclude, sp_app_paths = [''/usr/bin/firefox'', [], ''/usr/bin/firefox''],
     sp_ip_ranges = [''192.0.2.42/24'', ''192.0.2.0/24'']\<rparr>"

theorem validated_config_is_stable_witness:
  "config_validate sample_crate
     \<lparr>sp_mode = ModeExclude, sp_app_paths = [''/usr/bin/firefox''], sp_ip_ranges = [''192.0.2.0/24'']\<rparr>
   = Inr \<lparr>sp_mode = ModeExclude, sp_app_paths = [''/usr/bin/firefox''], sp_ip_ranges = [''192.0.2.0/24'']\<rparr>"
proof -
  have "config_validate sample_crate sample_config
    = Inr \<lparr>sp_mode = ModeExclude, sp_app_paths = [''/usr/bin/firefox''], sp_ip_ranges = [''192.0.2.0/24'']\<rparr>"
    by code_simp
  moreover have "\<forall>r \<in> set (sp_ip_ranges sample_config). canonical_range sample_crate r"
    by code_simp
  ultimately show ?thesis using validated_config_is_stable by blast
qed

end
