(* ===== verification/Bpf.thy ===== *)
theory Bpf
  imports Prelude
begin

text \<open>
  The socket-marking programs of \<^verbatim>\<open>splitd/src/bpf.rs\<close>: the instruction encoding, the small assembler
  \<open>ProgramBuilder\<close> with its labels and fixups, and the two generated programs. They are executed by
  the interpreter of \<^verbatim>\<open>splitd/src/bpf/execution_tests.rs\<close>, translated with its memory layout and its budget of 199
  steps; the kernel's helpers (the identity of the caller, the maps, the socket option) are
  arguments. A panic of the builder or of the interpreter is \<open>None\<close>. Integers are little endian.
\<close>

unbundle bit_operations_syntax

section \<open>Instructions\<close>

record bpf_insn =
  in_code :: u8
  in_registers :: u8
  in_off :: u16
  in_imm :: u32

definition insn_new :: "u8 \<Rightarrow> u8 \<Rightarrow> u8 \<Rightarrow> u16 \<Rightarrow> u32 \<Rightarrow> bpf_insn" where
  "insn_new code dst src off imm =
     \<lparr>in_code = code, in_registers = (dst AND 0x0f) OR push_bit 4 (src AND 0x0f),
      in_off = off, in_imm = imm\<rparr>"

definition FWMARK_VALUE :: u32 where "FWMARK_VALUE = 245447468"

abbreviation "FUNC_MAP_LOOKUP_ELEM \<equiv> (1 :: u32)"
abbreviation "FUNC_GET_CURRENT_PID_TGID \<equiv> (14 :: u32)"
abbreviation "FUNC_GET_CURRENT_UID_GID \<equiv> (15 :: u32)"
abbreviation "FUNC_SETSOCKOPT \<equiv> (49 :: u32)"
abbreviation "FUNC_GETSOCKOPT \<equiv> (57 :: u32)"

section \<open>The program builder\<close>

record builder =
  bd_instructions :: "bpf_insn list"
  bd_labels :: "(string \<times> nat) list"
  bd_fixups :: "(nat \<times> string) list"

type_synonym asm = "builder \<Rightarrow> builder option"

definition builder_default :: builder where
  "builder_default = \<lparr>bd_instructions = [], bd_labels = [], bd_fixups = []\<rparr>"

definition emit :: "bpf_insn \<Rightarrow> asm" where
  "emit i b = Some (b\<lparr>bd_instructions := bd_instructions b @ [i]\<rparr>)"

text \<open>A sequence of builder calls.\<close>

fun asm_seq :: "asm list \<Rightarrow> asm" where
  "asm_seq [] b = Some b"
| "asm_seq (a # as) b = Option.bind (a b) (asm_seq as)"

definition mov_reg :: "u8 \<Rightarrow> u8 \<Rightarrow> asm" where
  "mov_reg dst src = emit (insn_new 0xbf dst src 0 0)"

definition mov_imm :: "u8 \<Rightarrow> u32 \<Rightarrow> asm" where
  "mov_imm dst v = emit (insn_new 0xb7 dst 0 0 v)"

definition rsh_imm :: "u8 \<Rightarrow> u32 \<Rightarrow> asm" where
  "rsh_imm dst bits = emit (insn_new 0x77 dst 0 0 bits)"

definition load32 :: "u8 \<Rightarrow> u8 \<Rightarrow> u16 \<Rightarrow> asm" where
  "load32 dst src offset = emit (insn_new 0x61 dst src offset 0)"

definition load64 :: "u8 \<Rightarrow> u8 \<Rightarrow> u16 \<Rightarrow> asm" where
  "load64 dst src offset = emit (insn_new 0x79 dst src offset 0)"

definition store_imm32 :: "u8 \<Rightarrow> u16 \<Rightarrow> u32 \<Rightarrow> asm" where
  "store_imm32 dst offset v = emit (insn_new 0x62 dst 0 offset v)"

definition store_reg32 :: "u8 \<Rightarrow> u16 \<Rightarrow> u8 \<Rightarrow> asm" where
  "store_reg32 dst offset src = emit (insn_new 0x63 dst src offset 0)"

definition store_reg64 :: "u8 \<Rightarrow> u16 \<Rightarrow> u8 \<Rightarrow> asm" where
  "store_reg64 dst offset src = emit (insn_new 0x7b dst src offset 0)"

definition stack_pointer :: "u8 \<Rightarrow> u32 \<Rightarrow> asm" where
  "stack_pointer dst offset = asm_seq [mov_reg dst 10, emit (insn_new 0x07 dst 0 0 offset)]"

definition load_map :: "u8 \<Rightarrow> u32 \<Rightarrow> asm" where
  "load_map dst map_fd =
     asm_seq [emit (insn_new 0x18 dst 1 0 map_fd), emit (insn_new 0x00 0 0 0 0)]"

definition call :: "u32 \<Rightarrow> asm" where
  "call helper = emit (insn_new 0x85 0 0 0 helper)"

definition socket_option_args :: "u8 \<Rightarrow> u32 \<Rightarrow> asm" where
  "socket_option_args ctx stack_offset =
     asm_seq [mov_reg 1 ctx, mov_imm 2 1, mov_imm 3 36, stack_pointer 4 stack_offset, mov_imm 5 4]"

definition get_socket_mark :: "u8 \<Rightarrow> u32 \<Rightarrow> asm" where
  "get_socket_mark ctx stack_offset =
     asm_seq [socket_option_args ctx stack_offset, call FUNC_GETSOCKOPT]"

definition set_socket_mark :: "u8 \<Rightarrow> u32 \<Rightarrow> u32 \<Rightarrow> asm" where
  "set_socket_mark ctx stack_offset mark =
     asm_seq [store_imm32 10 (ucast stack_offset) mark, socket_option_args ctx stack_offset,
              call FUNC_SETSOCKOPT]"

definition with_fixup :: "string \<Rightarrow> bpf_insn \<Rightarrow> asm" where
  "with_fixup lbl i b =
     emit i (b\<lparr>bd_fixups := bd_fixups b @ [(length (bd_instructions b), lbl)]\<rparr>)"

definition jump_eq_imm :: "u8 \<Rightarrow> u32 \<Rightarrow> string \<Rightarrow> asm" where
  "jump_eq_imm reg v lbl = with_fixup lbl (insn_new 0x15 reg 0 0 v)"

definition jump_ne_imm :: "u8 \<Rightarrow> u32 \<Rightarrow> string \<Rightarrow> asm" where
  "jump_ne_imm reg v lbl = with_fixup lbl (insn_new 0x55 reg 0 0 v)"

definition jump :: "string \<Rightarrow> asm" where
  "jump lbl = with_fixup lbl (insn_new 0x05 0 0 0 0)"

text \<open>A label may be defined once (\<open>assert!\<close>).\<close>

definition asm_label :: "string \<Rightarrow> asm" where
  "asm_label lbl b =
     (if map_of (bd_labels b) lbl \<noteq> None then None
      else Some (b\<lparr>bd_labels := (lbl, length (bd_instructions b)) # bd_labels b\<rparr>))"

definition asm_exit :: asm where
  "asm_exit = emit (insn_new 0x95 0 0 0 0)"

text \<open>One fixup: the label must exist and the distance must fit 16 bits.\<close>

definition fixup :: "(string \<times> nat) list \<Rightarrow> nat \<times> string \<Rightarrow> bpf_insn list \<Rightarrow> bpf_insn list option" where
  "fixup labels f is =
     (case f of (n, lbl) \<Rightarrow>
        Option.bind (map_of labels lbl) (\<lambda>destination.
          let d = int destination - int n - 1 in
          if d < - (2 ^ 15) \<or> 2 ^ 15 \<le> d then None
          else Some (is[n := (is ! n)\<lparr>in_off := word_of_int d\<rparr>])))"

fun apply_fixups ::
  "(string \<times> nat) list \<Rightarrow> (nat \<times> string) list \<Rightarrow> bpf_insn list \<Rightarrow> bpf_insn list option" where
  "apply_fixups labels [] is = Some is"
| "apply_fixups labels (f # fs) is = Option.bind (fixup labels f is) (apply_fixups labels fs)"

definition asm_finish :: "builder \<Rightarrow> bpf_insn list option" where
  "asm_finish b = apply_fixups (bd_labels b) (bd_fixups b) (bd_instructions b)"

definition assemble :: "asm list \<Rightarrow> bpf_insn list option" where
  "assemble as = Option.bind (asm_seq as builder_default) asm_finish"

section \<open>The programs\<close>

definition socket_mark_program :: "u32 \<Rightarrow> bpf_insn list option" where
  "socket_mark_program pid_map_fd = assemble
     [mov_reg 6 1,
      call FUNC_GET_CURRENT_PID_TGID,
      rsh_imm 0 32,
      store_reg32 10 (-4) 0,
      load_map 1 pid_map_fd,
      stack_pointer 2 (-4),
      call FUNC_MAP_LOOKUP_ELEM,
      jump_eq_imm 0 0 ''allow'',
      store_imm32 6 16 FWMARK_VALUE,
      asm_label ''allow'',
      mov_imm 0 1,
      asm_exit]"

definition destination_key :: "bool \<Rightarrow> asm list" where
  "destination_key ipv6 =
     (if ipv6
      then [store_imm32 10 (-24) 160, load32 0 10 (-32), store_reg32 10 (-20) 0,
            load64 0 6 8, store_reg64 10 (-16) 0, load64 0 6 16, store_reg64 10 (-8) 0]
      else [store_imm32 10 (-16) 64, load32 0 10 (-32), store_reg32 10 (-12) 0,
            load32 0 6 4, store_reg32 10 (-8) 0])"

definition destination_mark_program :: "u32 \<Rightarrow> u32 \<Rightarrow> u32 \<Rightarrow> u32 \<Rightarrow> bool \<Rightarrow> bpf_insn list option" where
  "destination_mark_program pid_map_fd mode_map_fd range_map_fd bypass_map_fd ipv6 = assemble
     ([mov_reg 6 1,
       call FUNC_GET_CURRENT_PID_TGID,
       rsh_imm 0 32,
       store_reg32 10 (-36) 0,
       load_map 1 pid_map_fd,
       stack_pointer 2 (-36),
       call FUNC_MAP_LOOKUP_ELEM,
       mov_imm 8 0,
       jump_eq_imm 0 0 ''application_baseline'',
       mov_imm 8 FWMARK_VALUE,
       asm_label ''application_baseline'',
       call FUNC_GET_CURRENT_UID_GID,
       store_reg32 10 (-32) 0]
      @ destination_key ipv6
      @ [load_map 1 bypass_map_fd,
         stack_pointer 2 (if ipv6 then -24 else -16),
         call FUNC_MAP_LOOKUP_ELEM,
         jump_eq_imm 0 0 ''split_policy'',
         jump ''exclude_destination'',
         asm_label ''split_policy'',
         load_map 1 mode_map_fd,
         stack_pointer 2 (-32),
         call FUNC_MAP_LOOKUP_ELEM,
         jump_eq_imm 0 0 ''mark_socket'',
         load32 7 0 0,
         load_map 1 range_map_fd,
         stack_pointer 2 (if ipv6 then -24 else -16),
         call FUNC_MAP_LOOKUP_ELEM,
         jump_eq_imm 0 0 ''mark_socket'',
         jump_eq_imm 7 0 ''exclude_destination'',
         mov_imm 8 0,
         jump ''mark_socket'',
         asm_label ''exclude_destination'',
         mov_imm 8 FWMARK_VALUE,
         asm_label ''mark_socket'',
         jump_eq_imm 8 FWMARK_VALUE ''set_mark'',
         get_socket_mark 6 (-28),
         load32 0 10 (-28),
         jump_ne_imm 0 FWMARK_VALUE ''allow'',
         set_socket_mark 6 (-28) 0,
         jump ''allow'',
         asm_label ''set_mark'',
         set_socket_mark 6 (-28) FWMARK_VALUE,
         asm_label ''allow'',
         mov_imm 0 1,
         asm_exit])"

section \<open>The interpreter\<close>

type_synonym memory = "nat \<Rightarrow> u8"

definition get32 :: "memory \<Rightarrow> nat \<Rightarrow> u32" where
  "get32 m a = (ucast (m a) OR push_bit 8 (ucast (m (a + 1))))
     OR (push_bit 16 (ucast (m (a + 2))) OR push_bit 24 (ucast (m (a + 3))))"

definition get64 :: "memory \<Rightarrow> nat \<Rightarrow> u64" where
  "get64 m a = ucast (get32 m a) OR push_bit 32 (ucast (get32 m (a + 4)))"

definition byte_of :: "nat \<Rightarrow> 'a::len word \<Rightarrow> u8" where
  "byte_of n v = ucast (drop_bit (8 * n) v)"

definition put32 :: "nat \<Rightarrow> u32 \<Rightarrow> memory \<Rightarrow> memory" where
  "put32 a v m = m(a := byte_of 0 v, a + 1 := byte_of 1 v, a + 2 := byte_of 2 v, a + 3 := byte_of 3 v)"

definition put64 :: "nat \<Rightarrow> u64 \<Rightarrow> memory \<Rightarrow> memory" where
  "put64 a v m = put32 (a + 4) (ucast (drop_bit 32 v)) (put32 a (ucast v) m)"

text \<open>A map of the kernel: a hash map from 32-bit keys, or a longest-prefix map whose keys are a
  prefix length, a user and an address of the given number of bytes.\<close>

datatype bpf_map =
    HashMap "u32 \<Rightarrow> u32 option"
  | LpmTrie nat "u32 \<Rightarrow> u32 \<Rightarrow> u8 list \<Rightarrow> u32 option"

record kernel =
  kn_pid_tgid :: u64
  kn_uid_gid :: u64
  kn_map :: "u64 \<Rightarrow> bpf_map option"

record machine =
  mc_registers :: "u64 list"
  mc_memory :: memory
  mc_mark :: u32

definition VALUE_ADDRESS :: nat where "VALUE_ADDRESS = 2048"

definition MEMORY_SIZE :: nat where "MEMORY_SIZE = 4096"

definition in_memory :: "nat \<Rightarrow> nat \<Rightarrow> bool" where
  "in_memory a n \<longleftrightarrow> a + n \<le> MEMORY_SIZE"

definition map_lookup :: "bpf_map \<Rightarrow> memory \<Rightarrow> nat \<Rightarrow> u32 option" where
  "map_lookup mp m p =
     (case mp of
        HashMap f \<Rightarrow> f (get32 m p)
      | LpmTrie n f \<Rightarrow> f (get32 m p) (get32 m (p + 4)) (map (\<lambda>i. m (p + 8 + i)) [0..<n]))"

text \<open>The bytes of a key.\<close>

fun key_size :: "bpf_map \<Rightarrow> nat" where
  "key_size (HashMap f) = 4"
| "key_size (LpmTrie n f) = 8 + n"

definition call_helper :: "kernel \<Rightarrow> u32 \<Rightarrow> machine \<Rightarrow> machine option" where
  "call_helper k helper s =
     (let r = mc_registers s in
      if helper = FUNC_GET_CURRENT_PID_TGID then Some (s\<lparr>mc_registers := r[0 := kn_pid_tgid k]\<rparr>)
      else if helper = FUNC_GET_CURRENT_UID_GID then Some (s\<lparr>mc_registers := r[0 := kn_uid_gid k]\<rparr>)
      else if helper = FUNC_MAP_LOOKUP_ELEM
      then (case kn_map k (r ! 1) of
              None \<Rightarrow> None
            | Some mp \<Rightarrow>
                if \<not> in_memory (unat (r ! 2)) (key_size mp) then None
                else (case map_lookup mp (mc_memory s) (unat (r ! 2)) of
                   None \<Rightarrow> Some (s\<lparr>mc_registers := r[0 := 0]\<rparr>)
                 | Some v \<Rightarrow> Some (s\<lparr>mc_registers := r[0 := of_nat VALUE_ADDRESS],
                                    mc_memory := put32 VALUE_ADDRESS v (mc_memory s)\<rparr>)))
      else if helper = FUNC_GETSOCKOPT
      then (if in_memory (unat (r ! 4)) 4
            then Some (s\<lparr>mc_registers := r[0 := 0],
                         mc_memory := put32 (unat (r ! 4)) (mc_mark s) (mc_memory s)\<rparr>)
            else None)
      else if helper = FUNC_SETSOCKOPT
      then (if in_memory (unat (r ! 4)) 4
            then Some (s\<lparr>mc_registers := r[0 := 0], mc_mark := get32 (mc_memory s) (unat (r ! 4))\<rparr>)
            else None)
      else None)"

text \<open>A jump: the offset is relative to the next instruction; a negative target panics.\<close>

definition jump_to :: "nat \<Rightarrow> bpf_insn \<Rightarrow> nat option" where
  "jump_to pc i = (let t = int pc + sint (in_off i) in if t < 0 then None else Some (nat t + 1))"

text \<open>One instruction: \<open>None\<close> is a panic (an unknown opcode, register, helper or map, or an access outside of
  the memory), \<open>Some (Inl s)\<close> the end of the program and \<open>Some (Inr (pc, s))\<close> the next instruction.\<close>

definition execute :: "kernel \<Rightarrow> nat \<Rightarrow> bpf_insn \<Rightarrow> machine \<Rightarrow> (machine + nat \<times> machine) option" where
  "execute k pc i s =
     (let r = mc_registers s; m = mc_memory s;
          dst = unat (in_registers i AND 15); src = unat (drop_bit 4 (in_registers i));
          imm = (scast (in_imm i) :: u64);
          address = unat (r ! dst + scast (in_off i));
          source_address = unat (r ! src + scast (in_off i));
          set = (\<lambda>v. Some (Inr (pc + 1, s\<lparr>mc_registers := r[dst := v]\<rparr>)));
          read = (\<lambda>n v. if in_memory source_address n then set v else None);
          write = (\<lambda>n m. if in_memory address n then Some (Inr (pc + 1, s\<lparr>mc_memory := m\<rparr>)) else None);
          jump = map_option (\<lambda>pc'. Inr (pc', s)) (jump_to pc i);
          code = in_code i in
      if length r \<le> dst \<or> length r \<le> src then None
      else if code = 0xbf then set (r ! src)
      else if code = 0xb7 then set imm
      else if code = 0x77 then set (drop_bit (unat (in_imm i)) (r ! dst))
      else if code = 0x07 then set (r ! dst + imm)
      else if code = 0x61 then read 4 (ucast (get32 m source_address))
      else if code = 0x79 then read 8 (get64 m source_address)
      else if code = 0x62 then write 4 (put32 address (in_imm i) m)
      else if code = 0x63 then write 4 (put32 address (ucast (r ! src)) m)
      else if code = 0x7b then write 8 (put64 address (r ! src) m)
      else if code = 0x18 then Some (Inr (pc + 2, s\<lparr>mc_registers := r[dst := imm]\<rparr>))
      else if code = 0x15 then (if r ! dst = imm then jump else Some (Inr (pc + 1, s)))
      else if code = 0x55 then (if r ! dst \<noteq> imm then jump else Some (Inr (pc + 1, s)))
      else if code = 0x05 then jump
      else if code = 0x85 then map_option (\<lambda>s'. Inr (pc + 1, s')) (call_helper k (in_imm i) s)
      else if code = 0x95 then Some (Inl s)
      else None)"

text \<open>At most \<open>fuel\<close> instructions are executed; the interpreter allows 199 (\<open>assert!(steps < 200)\<close>).\<close>

fun bpf_run :: "kernel \<Rightarrow> bpf_insn list \<Rightarrow> nat \<Rightarrow> nat \<Rightarrow> machine \<Rightarrow> machine option" where
  "bpf_run k prog 0 pc s = None"
| "bpf_run k prog (Suc fuel) pc s =
     (if length prog \<le> pc then None
      else case execute k pc (prog ! pc) s of
          None \<Rightarrow> None
        | Some (Inl s') \<Rightarrow> Some s'
        | Some (Inr (pc', s')) \<Rightarrow> bpf_run k prog fuel pc' s')"

text \<open>The entry state: the context at 1024 and the stack below 512.\<close>

definition entry :: "memory \<Rightarrow> u32 \<Rightarrow> machine" where
  "entry m mark = \<lparr>mc_registers = [0, 1024, 0, 0, 0, 0, 0, 0, 0, 0, 512], mc_memory = m, mc_mark = mark\<rparr>"

section \<open>What the programs decide\<close>

text \<open>The bytes of the destination address in the context of a connect or sendmsg hook.\<close>

definition socket_address :: "bool \<Rightarrow> memory \<Rightarrow> u8 list" where
  "socket_address six m = (if six then map m [1032..<1048] else map m [1028..<1032])"

text \<open>The mark a socket has after the hook: the kill-switch bypass wins, then the user's range policy (0 excludes
  the listed ranges from the tunnel, any other mode includes them), then the application baseline. A mark
  that is not the split-tunneling mark is left alone.\<close>

definition destination_mark :: "bool \<Rightarrow> bool \<Rightarrow> u32 option \<Rightarrow> bool \<Rightarrow> u32 \<Rightarrow> u32" where
  "destination_mark excluded_app bypass mode in_range mark =
     (let baseline = (if excluded_app then FWMARK_VALUE else 0);
          wanted = (if bypass then FWMARK_VALUE
                    else case mode of
                        None \<Rightarrow> baseline
                      | Some md \<Rightarrow>
                          if \<not> in_range then baseline else if md = 0 then FWMARK_VALUE else 0) in
      if wanted = FWMARK_VALUE then FWMARK_VALUE else if mark = FWMARK_VALUE then 0 else mark)"

end
