(* ===== verification/Split_Marker.thy ===== *)
theory Split_Marker
  imports Split_Model Bpf
begin

text \<open>
  \<open>SocketMarker\<close> of \<^verbatim>\<open>splitd/src/bpf.rs\<close>: the kernel maps the programs read, and the calls that keep them equal to the
  configurations. A script says which of the coming \<open>bpf\<close> calls fail; a failing call changes nothing. A
  longest-prefix map is the list of its keys, since every value stored in one is 1.
\<close>

unbundle bit_operations_syntax

section \<open>Keys\<close>

record lpm_key =
  lk_prefix :: u32
  lk_uid :: u32
  lk_address :: "u8 list"

text \<open>\<open>octets()\<close> of an address.\<close>

fun octets :: "ip_addr \<Rightarrow> u8 list" where
  "octets (V4 bs) = map of_nat bs"
| "octets (V6 gs) = concat (map (\<lambda>g. [of_nat (g div 256), of_nat g]) gs)"

definition ipv4_key :: "u32 \<Rightarrow> ip_addr \<Rightarrow> nat \<Rightarrow> lpm_key" where
  "ipv4_key uid address prefix =
     \<lparr>lk_prefix = 32 + of_nat prefix, lk_uid = uid, lk_address = octets address\<rparr>"

definition ipv6_key :: "u32 \<Rightarrow> ip_addr \<Rightarrow> nat \<Rightarrow> lpm_key" where
  "ipv6_key uid address prefix =
     \<lparr>lk_prefix = 32 + of_nat prefix, lk_uid = uid, lk_address = octets address\<rparr>"

section \<open>The kernel maps\<close>

record marker =
  mk_pid_map :: "u32 list"
  mk_mode_map :: "(u32 \<times> u32) list"
  mk_ipv4_map :: "lpm_key list"
  mk_ipv6_map :: "lpm_key list"
  mk_bypass_ipv4_map :: "lpm_key list"
  mk_bypass_ipv6_map :: "lpm_key list"
  mk_configs :: config_map
  mk_policies :: policy_map

datatype map_call =
    UpdatePid u32 | DeletePid u32
  | UpdateMode u32 u32 | DeleteMode u32
  | UpdateRange bool ip_net u32 | DeleteRange bool ip_net u32

text \<open>The effect of a call that succeeds; deleting a missing key is a success. The first component of a
  range call says whether it is for the bypass maps.\<close>

definition on_range_map :: "bool \<Rightarrow> bool \<Rightarrow> (lpm_key list \<Rightarrow> lpm_key list) \<Rightarrow> marker \<Rightarrow> marker" where
  "on_range_map bypass v4 f mk =
     (if bypass
      then (if v4 then mk\<lparr>mk_bypass_ipv4_map := f (mk_bypass_ipv4_map mk)\<rparr>
            else mk\<lparr>mk_bypass_ipv6_map := f (mk_bypass_ipv6_map mk)\<rparr>)
      else (if v4 then mk\<lparr>mk_ipv4_map := f (mk_ipv4_map mk)\<rparr>
            else mk\<lparr>mk_ipv6_map := f (mk_ipv6_map mk)\<rparr>))"

definition net_key :: "u32 \<Rightarrow> ip_net \<Rightarrow> lpm_key" where
  "net_key uid n =
     (if is_v4 (net_address n) then ipv4_key uid (net_address n) (net_prefix n)
      else ipv6_key uid (net_address n) (net_prefix n))"

fun apply_call :: "map_call \<Rightarrow> marker \<Rightarrow> marker" where
  "apply_call (UpdatePid pid) mk = mk\<lparr>mk_pid_map := List.insert pid (mk_pid_map mk)\<rparr>"
| "apply_call (DeletePid pid) mk = mk\<lparr>mk_pid_map := removeAll pid (mk_pid_map mk)\<rparr>"
| "apply_call (UpdateMode uid v) mk = mk\<lparr>mk_mode_map := obj_insert uid v (mk_mode_map mk)\<rparr>"
| "apply_call (DeleteMode uid) mk = mk\<lparr>mk_mode_map := obj_remove uid (mk_mode_map mk)\<rparr>"
| "apply_call (UpdateRange b n uid) mk =
     on_range_map b (is_v4 (net_address n)) (List.insert (net_key uid n)) mk"
| "apply_call (DeleteRange b n uid) mk =
     on_range_map b (is_v4 (net_address n)) (removeAll (net_key uid n)) mk"

text \<open>The script of failures; an empty script means success.\<close>

type_synonym faults = "bool list"

definition bpf_call :: "map_call \<Rightarrow> marker \<times> faults \<Rightarrow> (marker \<times> faults) \<times> bool" where
  "bpf_call c s =
     (case s of (mk, fs) \<Rightarrow>
        (case fs of
           [] \<Rightarrow> ((apply_call c mk, []), True)
         | f # fs' \<Rightarrow> if f then ((mk, fs'), False) else ((apply_call c mk, fs'), True)))"

definition set_excluded :: "u32 \<Rightarrow> bool \<Rightarrow> marker \<times> faults \<Rightarrow> (marker \<times> faults) \<times> bool" where
  "set_excluded pid excluded = bpf_call (if excluded then UpdatePid pid else DeletePid pid)"

section \<open>Replacing the policies\<close>

text \<open>A step of \<open>replace_maps\<close>: a call whose failure ends it, a call whose failure is ignored (\<open>let _ =\<close>),
  or a range that does not parse.\<close>

datatype map_step = Checked map_call | Ignored map_call | BadRange

fun run_steps :: "map_step list \<Rightarrow> marker \<times> faults \<Rightarrow> (marker \<times> faults) \<times> bool" where
  "run_steps [] s = (s, True)"
| "run_steps (Checked c # ss) s =
     (let (s', ok) = bpf_call c s in if ok then run_steps ss s' else (s', False))"
| "run_steps (Ignored c # ss) s = run_steps ss (fst (bpf_call c s))"
| "run_steps (BadRange # ss) s = (s, False)"

definition range_step :: "ipnet_crate \<Rightarrow> (ip_net \<Rightarrow> map_call) \<Rightarrow> string \<Rightarrow> map_step" where
  "range_step cr f s = (case parse_ip_range cr s of Inl _ \<Rightarrow> BadRange | Inr n \<Rightarrow> Checked (f n))"

definition update_range :: "ipnet_crate \<Rightarrow> u32 \<Rightarrow> string \<Rightarrow> map_step" where
  "update_range cr uid = range_step cr (\<lambda>n. UpdateRange False n uid)"

definition delete_range :: "ipnet_crate \<Rightarrow> u32 \<Rightarrow> string \<Rightarrow> map_step" where
  "delete_range cr uid = range_step cr (\<lambda>n. DeleteRange False n uid)"

definition update_bypass_range :: "ipnet_crate \<Rightarrow> u32 \<Rightarrow> string \<Rightarrow> map_step" where
  "update_bypass_range cr uid = range_step cr (\<lambda>n. UpdateRange True n uid)"

definition delete_bypass_range :: "ipnet_crate \<Rightarrow> u32 \<Rightarrow> string \<Rightarrow> map_step" where
  "delete_bypass_range cr uid = range_step cr (\<lambda>n. DeleteRange True n uid)"

abbreviation wide :: "u16 \<Rightarrow> u32" where "wide \<equiv> ucast"

definition mode_value :: "split_mode \<Rightarrow> u32" where
  "mode_value m = (if m = ModeInclude then 1 else 0)"

definition clear_steps :: "ipnet_crate \<Rightarrow> config_map \<Rightarrow> policy_map \<Rightarrow> map_step list" where
  "clear_steps cr configs policies =
     concat (map (\<lambda>(uid, c). Ignored (DeleteMode (wide uid)) # map (delete_range cr (wide uid)) (sp_ip_ranges c))
       configs)
     @ concat (map (\<lambda>(uid, rs). map (delete_bypass_range cr (wide uid)) rs) policies)"

definition install_steps :: "ipnet_crate \<Rightarrow> config_map \<Rightarrow> policy_map \<Rightarrow> map_step list" where
  "install_steps cr configs policies =
     concat (map (\<lambda>(uid, c). Checked (UpdateMode (wide uid) (mode_value (sp_mode c)))
                     # map (update_range cr (wide uid)) (sp_ip_ranges c))
       (filter (\<lambda>(_, c). has_rules c) configs))
     @ concat (map (\<lambda>(uid, rs). map (update_bypass_range cr (wide uid)) rs) policies)"

definition replace_maps ::
  "ipnet_crate \<Rightarrow> config_map \<Rightarrow> policy_map \<Rightarrow> config_map \<Rightarrow> policy_map
    \<Rightarrow> marker \<times> faults \<Rightarrow> (marker \<times> faults) \<times> bool" where
  "replace_maps cr old_configs old_policies new_configs new_policies =
     run_steps (clear_steps cr old_configs old_policies @ install_steps cr new_configs new_policies)"

definition sync_configs ::
  "ipnet_crate \<Rightarrow> config_map \<Rightarrow> policy_map \<Rightarrow> marker \<times> faults \<Rightarrow> (marker \<times> faults) \<times> bool" where
  "sync_configs cr configs policies s =
     (let mk = fst s in
      if configs = mk_configs mk \<and> policies = mk_policies mk then (s, True)
      else
      let (s1, ok) = replace_maps cr (mk_configs mk) (mk_policies mk) configs policies s in
      if \<not> ok
      then (fst (replace_maps cr configs policies (mk_configs mk) (mk_policies mk) s1), False)
      else (((fst s1)\<lparr>mk_configs := configs, mk_policies := policies\<rparr>, snd s1), True))"

section \<open>The maps a configuration stands for\<close>

definition nets :: "ipnet_crate \<Rightarrow> string list \<Rightarrow> ip_net list" where
  "nets cr rs = List.map_filter (\<lambda>r. result_ok (parse_ip_range cr r)) rs"

definition range_keys :: "ipnet_crate \<Rightarrow> bool \<Rightarrow> (u16 \<times> string list) list \<Rightarrow> lpm_key set" where
  "range_keys cr v4 entries =
     (\<Union>(uid, rs) \<in> set entries. net_key (wide uid) ` {n \<in> set (nets cr rs). is_v4 (net_address n) = v4})"

abbreviation "config_ranges configs \<equiv> map (\<lambda>(uid, c). (uid, sp_ip_ranges c)) configs"

definition range_map :: "bool \<Rightarrow> bool \<Rightarrow> marker \<Rightarrow> lpm_key set" where
  "range_map bypass v4 mk =
     set (if bypass then (if v4 then mk_bypass_ipv4_map mk else mk_bypass_ipv6_map mk)
          else (if v4 then mk_ipv4_map mk else mk_ipv6_map mk))"

definition mirrors :: "ipnet_crate \<Rightarrow> config_map \<Rightarrow> policy_map \<Rightarrow> marker \<Rightarrow> bool" where
  "mirrors cr configs policies mk \<longleftrightarrow>
     (\<forall>v4. range_map False v4 mk = range_keys cr v4 (config_ranges configs)
         \<and> range_map True v4 mk = range_keys cr v4 policies)
     \<and> (\<forall>(uid, c) \<in> set configs. has_rules c \<longrightarrow>
          obj_get (mk_mode_map mk) (wide uid) = Some (mode_value (sp_mode c)))"

section \<open>Running the steps\<close>

text \<open>The effect of a step on one of the range maps.\<close>

fun range_effect :: "bool \<Rightarrow> bool \<Rightarrow> map_step \<Rightarrow> lpm_key set \<Rightarrow> lpm_key set" where
  "range_effect b v4 (Checked (UpdateRange b' n uid)) K =
     (if b' = b \<and> is_v4 (net_address n) = v4 then insert (net_key uid n) K else K)"
| "range_effect b v4 (Checked (DeleteRange b' n uid)) K =
     (if b' = b \<and> is_v4 (net_address n) = v4 then K - {net_key uid n} else K)"
| "range_effect b v4 _ K = K"

text \<open>Steps whose failure is ignored only concern the mode map.\<close>

fun range_safe :: "map_step \<Rightarrow> bool" where
  "range_safe (Ignored (DeleteMode u)) = True"
| "range_safe (Ignored c) = False"
| "range_safe _ = True"

lemma range_map_apply:
  "range_map b v4 (apply_call c mk) = range_effect b v4 (Checked c) (range_map b v4 mk)"
  by (cases c) (auto simp: range_map_def on_range_map_def)

lemma run_steps_ranges:
  assumes "run_steps ss (mk, fs) = ((mk', fs'), ok)" "list_all range_safe ss"
  shows "\<exists>k. range_map b v4 mk' = fold (range_effect b v4) (take k ss) (range_map b v4 mk)
    \<and> (ok \<longrightarrow> k = length ss)"
  using assms
proof (induction ss arbitrary: mk fs)
  case (Cons s ss)
  note IH = Cons.IH and prems = Cons.prems
  show ?case
  proof (cases s)
    case (Checked c)
    obtain mk1 fs1 ok1 where r: "bpf_call c (mk, fs) = ((mk1, fs1), ok1)" by (metis surj_pair)
    show ?thesis
    proof (cases ok1)
      case True
      then have mk1: "mk1 = apply_call c mk" using r by (auto simp: bpf_call_def split: list.splits if_splits)
      have "run_steps ss (mk1, fs1) = ((mk', fs'), ok)" using prems(1) r True Checked by simp
      from IH [OF this] prems(2) obtain k where
        "range_map b v4 mk' = fold (range_effect b v4) (take k ss) (range_map b v4 mk1)" "ok \<longrightarrow> k = length ss"
        by auto
      then show ?thesis
        by (intro exI [of _ "Suc k"]) (simp add: Checked mk1 range_map_apply)
    next
      case False
      then have "mk1 = mk" using r by (auto simp: bpf_call_def split: list.splits if_splits)
      then show ?thesis using prems(1) r False Checked by (intro exI [of _ 0]) auto
    qed
  next
    case (Ignored c)
    then obtain u where c: "c = DeleteMode u" using prems(2) by (cases c) auto
    obtain mk1 fs1 ok1 where r: "bpf_call c (mk, fs) = ((mk1, fs1), ok1)" by (metis surj_pair)
    have "range_map b v4 mk1 = range_map b v4 mk"
      using r c by (auto simp: bpf_call_def range_map_def split: list.splits if_splits)
    moreover have "run_steps ss (mk1, fs1) = ((mk', fs'), ok)" using prems(1) r Ignored by simp
    from IH [OF this] prems(2) obtain k where
      "range_map b v4 mk' = fold (range_effect b v4) (take k ss) (range_map b v4 mk1)" "ok \<longrightarrow> k = length ss"
      by auto
    ultimately show ?thesis by (intro exI [of _ "Suc k"]) (simp add: Ignored)
  next
    case BadRange
    then show ?thesis using prems by (intro exI [of _ 0]) auto
  qed
qed simp

fun updates :: "bool \<Rightarrow> bool \<Rightarrow> map_step \<Rightarrow> lpm_key set" where
  "updates b v4 (Checked (UpdateRange b' n uid)) = (if b' = b \<and> is_v4 (net_address n) = v4 then {net_key uid n} else {})"
| "updates b v4 _ = {}"

fun deletes :: "bool \<Rightarrow> bool \<Rightarrow> map_step \<Rightarrow> lpm_key set" where
  "deletes b v4 (Checked (DeleteRange b' n uid)) = (if b' = b \<and> is_v4 (net_address n) = v4 then {net_key uid n} else {})"
| "deletes b v4 _ = {}"

lemma range_effect_sets: "range_effect b v4 s K = K - deletes b v4 s \<union> updates b v4 s"
  by (cases "(b, v4, s, K)" rule: range_effect.cases) auto

lemma fold_effect_upper: "fold (range_effect b v4) ss K \<subseteq> K \<union> (\<Union>s \<in> set ss. updates b v4 s)"
proof (induction ss arbitrary: K)
  case (Cons s ss)
  have "fold (range_effect b v4) ss (range_effect b v4 s K)
      \<subseteq> range_effect b v4 s K \<union> (\<Union>s \<in> set ss. updates b v4 s)" by (rule Cons)
  then show ?case using range_effect_sets [of b v4 s K] by auto
qed simp

lemma fold_clear:
  "(\<forall>s \<in> set ss. updates b v4 s = {}) \<Longrightarrow> fold (range_effect b v4) ss K = K - (\<Union>s \<in> set ss. deletes b v4 s)"
  by (induction ss arbitrary: K) (auto simp: range_effect_sets)

lemma fold_install:
  "(\<forall>s \<in> set ss. deletes b v4 s = {}) \<Longrightarrow> fold (range_effect b v4) ss K = K \<union> (\<Union>s \<in> set ss. updates b v4 s)"
  by (induction ss arbitrary: K) (auto simp: range_effect_sets)

section \<open>The steps of a configuration\<close>

lemma set_nets: "n \<in> set (nets cr rs) \<longleftrightarrow> (\<exists>r \<in> set rs. parse_ip_range cr r = Inr n)"
  by (auto simp: nets_def List.map_filter_def result_ok_Some image_iff)

lemma in_range_keys:
  "x \<in> range_keys cr v4 entries \<longleftrightarrow>
     (\<exists>uid rs r n. (uid, rs) \<in> set entries \<and> r \<in> set rs \<and> parse_ip_range cr r = Inr n
        \<and> is_v4 (net_address n) = v4 \<and> x = net_key (wide uid) n)"
  by (fastforce simp: range_keys_def set_nets)

lemma range_step_sets:
  "x \<in> updates b v4 (range_step cr (\<lambda>n. UpdateRange b' n uid) r) \<longleftrightarrow>
     b' = b \<and> (\<exists>n. parse_ip_range cr r = Inr n \<and> is_v4 (net_address n) = v4 \<and> x = net_key uid n)"
  "x \<in> deletes b v4 (range_step cr (\<lambda>n. DeleteRange b' n uid) r) \<longleftrightarrow>
     b' = b \<and> (\<exists>n. parse_ip_range cr r = Inr n \<and> is_v4 (net_address n) = v4 \<and> x = net_key uid n)"
  "updates b v4 (range_step cr (\<lambda>n. DeleteRange b' n uid) r) = {}"
  "deletes b v4 (range_step cr (\<lambda>n. UpdateRange b' n uid) r) = {}"
  "range_safe (range_step cr f r)"
  by (auto simp: range_step_def split: sum.splits if_splits)

lemmas step_defs = update_range_def delete_range_def update_bypass_range_def delete_bypass_range_def

lemma in_config_ranges:
  "(uid, rs) \<in> set (config_ranges configs) \<longleftrightarrow> (\<exists>c. (uid, c) \<in> set configs \<and> rs = sp_ip_ranges c)"
  by force

lemma clear_steps_sets:
  "(\<Union>s \<in> set (clear_steps cr configs policies). deletes b v4 s) =
     (if b then range_keys cr v4 policies else range_keys cr v4 (config_ranges configs))" (is "?l = ?r")
proof (rule set_eqI)
  fix x
  have "x \<in> ?l \<longleftrightarrow>
      (\<exists>uid c. (uid, c) \<in> set configs \<and> (\<exists>r \<in> set (sp_ip_ranges c). x \<in> deletes b v4 (delete_range cr (wide uid) r)))
      \<or> (\<exists>uid rs. (uid, rs) \<in> set policies
            \<and> (\<exists>r \<in> set rs. x \<in> deletes b v4 (delete_bypass_range cr (wide uid) r)))"
    unfolding clear_steps_def by (simp add: bex_Un split_beta) force
  also have "\<dots> \<longleftrightarrow> x \<in> ?r"
    unfolding step_defs range_step_sets(2) by (cases b) (simp_all only: in_range_keys in_config_ranges if_True if_False, blast+)
  finally show "x \<in> ?l \<longleftrightarrow> x \<in> ?r" .
qed

lemma clear_steps_safe:
  "\<forall>s \<in> set (clear_steps cr configs policies). updates b v4 s = {} \<and> range_safe s"
  by (auto simp: clear_steps_def step_defs range_step_sets)

lemma install_steps_sets:
  "(\<Union>s \<in> set (install_steps cr configs policies). updates b v4 s) =
     (if b then range_keys cr v4 policies else range_keys cr v4 (config_ranges configs))" (is "?l = ?r")
proof (rule set_eqI)
  fix x
  have rules: "r \<in> set (sp_ip_ranges c) \<Longrightarrow> has_rules c" for r c by (auto simp: has_rules_def)
  have "x \<in> ?l \<longleftrightarrow>
      (\<exists>uid c. (uid, c) \<in> set configs \<and> has_rules c
        \<and> (\<exists>r \<in> set (sp_ip_ranges c). x \<in> updates b v4 (update_range cr (wide uid) r)))
      \<or> (\<exists>uid rs. (uid, rs) \<in> set policies
            \<and> (\<exists>r \<in> set rs. x \<in> updates b v4 (update_bypass_range cr (wide uid) r)))"
    unfolding install_steps_def by (simp add: bex_Un split_beta) force
  also have "\<dots> \<longleftrightarrow>
      (\<exists>uid c. (uid, c) \<in> set configs \<and> (\<exists>r \<in> set (sp_ip_ranges c). x \<in> updates b v4 (update_range cr (wide uid) r)))
      \<or> (\<exists>uid rs. (uid, rs) \<in> set policies
            \<and> (\<exists>r \<in> set rs. x \<in> updates b v4 (update_bypass_range cr (wide uid) r)))"
    using rules by blast
  also have "\<dots> \<longleftrightarrow> x \<in> ?r"
    unfolding step_defs range_step_sets(1) by (cases b) (simp_all only: in_range_keys in_config_ranges if_True if_False, blast+)
  finally show "x \<in> ?l \<longleftrightarrow> x \<in> ?r" .
qed

lemma install_steps_safe:
  "\<forall>s \<in> set (install_steps cr configs policies). deletes b v4 s = {} \<and> range_safe s"
  by (auto simp: install_steps_def step_defs range_step_sets)

lemma replace_maps_ranges:
  assumes "replace_maps cr oc op nc np (mk, fs) = ((mk', fs'), ok)"
  shows "range_map b v4 mk' \<subseteq> range_map b v4 mk \<union> range_keys cr v4 (if b then np else config_ranges nc)"
    and "ok \<Longrightarrow> range_map b v4 mk' =
      range_map b v4 mk - range_keys cr v4 (if b then op else config_ranges oc)
      \<union> range_keys cr v4 (if b then np else config_ranges nc)"
proof -
  let ?ss = "clear_steps cr oc op @ install_steps cr nc np"
  have safe: "list_all range_safe ?ss"
    using clear_steps_safe install_steps_safe by (auto simp: list_all_iff)
  from assms have run: "run_steps ?ss (mk, fs) = ((mk', fs'), ok)" by (simp add: replace_maps_def)
  from run_steps_ranges [OF run safe] obtain k where
    k: "range_map b v4 mk' = fold (range_effect b v4) (take k ?ss) (range_map b v4 mk)" "ok \<longrightarrow> k = length ?ss"
    by blast
  have "range_map b v4 mk' \<subseteq> range_map b v4 mk \<union> (\<Union>s \<in> set ?ss. updates b v4 s)"
    using fold_effect_upper [of b v4 "take k ?ss" "range_map b v4 mk"] set_take_subset [of k ?ss] k(1) by blast
  also have "(\<Union>s \<in> set ?ss. updates b v4 s) = range_keys cr v4 (if b then np else config_ranges nc)"
    using clear_steps_safe [of cr oc op b v4] install_steps_sets [where cr = cr and configs = nc and policies = np and b = b and ?v4.0 = v4]
    by (auto simp: UN_Un)
  finally show "range_map b v4 mk' \<subseteq> range_map b v4 mk \<union> range_keys cr v4 (if b then np else config_ranges nc)" .
  assume ok
  with k have "range_map b v4 mk' = fold (range_effect b v4) (install_steps cr nc np)
      (fold (range_effect b v4) (clear_steps cr oc op) (range_map b v4 mk))" by simp
  then show "range_map b v4 mk' = range_map b v4 mk - range_keys cr v4 (if b then op else config_ranges oc)
      \<union> range_keys cr v4 (if b then np else config_ranges nc)"
    using clear_steps_safe install_steps_safe
    by (simp add: fold_clear fold_install clear_steps_sets install_steps_sets)
qed

fun mode_effect :: "u32 \<Rightarrow> map_step \<Rightarrow> u32 option \<Rightarrow> u32 option" where
  "mode_effect u (Checked (UpdateMode u' v)) x = (if u' = u then Some v else x)"
| "mode_effect u (Checked (DeleteMode u')) x = (if u' = u then None else x)"
| "mode_effect u _ x = x"

fun is_ignored :: "map_step \<Rightarrow> bool" where
  "is_ignored (Ignored c) = True"
| "is_ignored _ = False"

lemma mode_map_apply:
  "obj_get (mk_mode_map (apply_call c mk)) u = mode_effect u (Checked c) (obj_get (mk_mode_map mk) u)"
  by (cases c) (auto simp: on_range_map_def)

lemma run_steps_modes:
  assumes "run_steps ss (mk, fs) = ((mk', fs'), True)" "\<forall>s \<in> set ss. \<not> is_ignored s"
  shows "obj_get (mk_mode_map mk') u = fold (mode_effect u) ss (obj_get (mk_mode_map mk) u)"
  using assms
proof (induction ss arbitrary: mk fs)
  case (Cons s ss)
  then obtain c where s: "s = Checked c" by (cases s) auto
  obtain mk1 fs1 ok1 where r: "bpf_call c (mk, fs) = ((mk1, fs1), ok1)" by (metis surj_pair)
  have ok1: "ok1" using Cons.prems(1) s r by (cases ok1) auto
  then have "mk1 = apply_call c mk" using r by (auto simp: bpf_call_def split: list.splits if_splits)
  moreover have "run_steps ss (mk1, fs1) = ((mk', fs'), True)" using Cons.prems(1) s r ok1 by simp
  ultimately show ?case using Cons.IH [of mk1 fs1] Cons.prems(2) by (simp add: s mode_map_apply)
qed simp

lemma narrow_wide [simp]: "(ucast (wide a) :: u16) = a"
  by (rule bit_word_eqI) (simp add: bit_simps)

lemma wide_inject [simp]: "wide a = wide b \<longleftrightarrow> a = b"
proof
  assume "wide a = wide b"
  then have "(ucast (wide a) :: u16) = ucast (wide b)" by simp
  then show "a = b" by simp
qed simp

lemma mode_effect_range: "mode_effect u (range_step cr (\<lambda>n. UpdateRange b n uid) r) x = x"
  by (simp add: range_step_def split: sum.splits)

lemma fold_mode_ranges:
  "fold (mode_effect u) (map (update_range cr uid) rs) x = x"
  "fold (mode_effect u) (map (update_bypass_range cr uid) rs) x = x"
  by (induction rs) (simp_all add: step_defs mode_effect_range)

lemma fold_mode_policies:
  "fold (mode_effect u) (concat (map (\<lambda>(uid, rs). map (update_bypass_range cr (wide uid)) rs) policies)) x = x"
  by (induction policies) (auto simp: fold_mode_ranges)

lemma fold_mode_configs:
  "distinct (map fst configs) \<Longrightarrow>
   fold (mode_effect (wide uid)) (concat (map (\<lambda>(uid, c). Checked (UpdateMode (wide uid) (mode_value (sp_mode c)))
       # map (update_range cr (wide uid)) (sp_ip_ranges c)) configs)) x =
     (case map_of configs uid of None \<Rightarrow> x | Some c \<Rightarrow> Some (mode_value (sp_mode c)))"
proof (induction configs arbitrary: x)
  case (Cons e configs)
  obtain u c where e: "e = (u, c)" by force
  have "map_of configs u = None" using Cons.prems e by (auto simp: map_of_eq_None_iff)
  then show ?case using Cons by (auto simp: e fold_mode_ranges split: option.splits)
qed simp

lemma install_steps_modes:
  assumes "distinct (map fst configs)" "(uid, c) \<in> set configs" "has_rules c"
  shows "fold (mode_effect (wide uid)) (install_steps cr configs policies) x = Some (mode_value (sp_mode c))"
proof -
  let ?cs = "filter (\<lambda>(_, c). has_rules c) configs"
  have d: "distinct (map fst ?cs)" using assms(1) by (rule distinct_map_filter)
  moreover have "map_of ?cs uid = Some c" using d assms(2,3) by (intro map_of_is_SomeI) auto
  ultimately show ?thesis by (simp add: install_steps_def fold_mode_policies fold_mode_configs)
qed

lemma run_steps_append:
  "run_steps (as @ bs) s = (let (s', ok) = run_steps as s in if ok then run_steps bs s' else (s', False))"
  by (induction as s rule: run_steps.induct) (auto split: prod.splits)

lemma install_not_ignored: "\<forall>s \<in> set (install_steps cr configs policies). \<not> is_ignored s"
  by (auto simp: install_steps_def step_defs range_step_def split: sum.splits)

lemma replace_maps_modes:
  assumes "replace_maps cr oc op nc np (mk, fs) = ((mk', fs'), True)"
    and "distinct (map fst nc)" "(uid, c) \<in> set nc" "has_rules c"
  shows "obj_get (mk_mode_map mk') (wide uid) = Some (mode_value (sp_mode c))"
proof -
  obtain mk1 fs1 ok1 where c: "run_steps (clear_steps cr oc op) (mk, fs) = ((mk1, fs1), ok1)" by (metis surj_pair)
  with assms(1) have "run_steps (install_steps cr nc np) (mk1, fs1) = ((mk', fs'), True)"
    by (auto simp: replace_maps_def run_steps_append split: if_splits)
  from run_steps_modes [OF this install_not_ignored] show ?thesis
    using install_steps_modes [OF assms(2-4)] by simp
qed

text \<open>Success of a replacement, from any state of the maps in which the ranges are at most the old and the new
  ones: this covers both the first replacement and the roll-back of one that stopped half-way.\<close>

lemma replace_maps_mirrors:
  assumes "replace_maps cr oc op nc np (mk, fs) = ((mk', fs'), True)" "distinct (map fst nc)"
    and "\<And>v4. range_map False v4 mk \<subseteq> range_keys cr v4 (config_ranges oc) \<union> range_keys cr v4 (config_ranges nc)"
    and "\<And>v4. range_map True v4 mk \<subseteq> range_keys cr v4 op \<union> range_keys cr v4 np"
  shows "mirrors cr nc np mk'"
  unfolding mirrors_def
  using replace_maps_ranges(2) [OF assms(1), where b = False] replace_maps_ranges(2) [OF assms(1), where b = True]
    replace_maps_modes [OF assms(1,2)] assms(3,4)
  by auto blast+

section \<open>What else a replacement does\<close>

fun is_pid_call :: "map_call \<Rightarrow> bool" where
  "is_pid_call (UpdatePid p) = True"
| "is_pid_call (DeletePid p) = True"
| "is_pid_call _ = False"

fun step_call :: "map_step \<Rightarrow> map_call option" where
  "step_call (Checked c) = Some c"
| "step_call (Ignored c) = Some c"
| "step_call BadRange = None"

abbreviation "policy_step s \<equiv> (\<forall>c. step_call s = Some c \<longrightarrow> \<not> is_pid_call c)"

abbreviation "same_frame mk mk' \<equiv>
  mk_pid_map mk' = mk_pid_map mk \<and> mk_configs mk' = mk_configs mk \<and> mk_policies mk' = mk_policies mk"

lemma apply_call_frame: "\<not> is_pid_call c \<Longrightarrow> same_frame mk (apply_call c mk)"
  by (cases c) (auto simp: on_range_map_def)

lemma bpf_call_frame: "\<not> is_pid_call c \<Longrightarrow> same_frame (fst s) (fst (fst (bpf_call c s)))"
  using apply_call_frame [of c "fst s"] by (cases s) (auto simp: bpf_call_def split: list.splits)

lemma run_steps_frame: "\<forall>s \<in> set ss. policy_step s \<Longrightarrow> same_frame (fst s0) (fst (fst (run_steps ss s0)))"
proof (induction ss s0 rule: run_steps.induct)
  case (2 c ss s)
  then show ?case using bpf_call_frame [of c s] by (auto split: prod.splits if_splits)
next
  case (3 c ss s)
  then show ?case using bpf_call_frame [of c s] by auto
qed auto

lemma replace_maps_frame: "same_frame (fst s) (fst (fst (replace_maps cr oc op nc np s)))"
  unfolding replace_maps_def
  by (rule run_steps_frame)
     (auto simp: clear_steps_def install_steps_def step_defs range_step_def split: sum.splits)

text \<open>Calls and failures: a fault-free run of steps that parse succeeds, and one that fails has used up a failure of the
  script.\<close>

abbreviation "failures fs \<equiv> count_list fs True"

definition parses :: "ipnet_crate \<Rightarrow> config_map \<Rightarrow> policy_map \<Rightarrow> bool" where
  "parses cr configs policies \<longleftrightarrow>
     (\<forall>(uid, c) \<in> set configs. \<forall>r \<in> set (sp_ip_ranges c). \<not> is_err (parse_ip_range cr r))
     \<and> (\<forall>(uid, rs) \<in> set policies. \<forall>r \<in> set rs. \<not> is_err (parse_ip_range cr r))"

lemma steps_parse:
  assumes "parses cr oc op" "parses cr nc np"
  shows "BadRange \<notin> set (clear_steps cr oc op @ install_steps cr nc np)"
  using assms
  by (auto simp: parses_def clear_steps_def install_steps_def step_defs range_step_def is_err_def
      split: sum.splits)

lemma run_steps_failures:
  "BadRange \<notin> set ss \<Longrightarrow> run_steps ss (mk, fs) = ((mk', fs'), ok) \<Longrightarrow>
     failures fs' \<le> failures fs \<and> (\<not> ok \<longrightarrow> failures fs' < failures fs)"
proof (induction ss arbitrary: mk fs)
  case (Cons s ss)
  show ?case
  proof (cases s)
    case (Checked c)
    obtain mk1 fs1 ok1 where r: "bpf_call c (mk, fs) = ((mk1, fs1), ok1)" by (metis surj_pair)
    then have "failures fs1 \<le> failures fs" "\<not> ok1 \<Longrightarrow> failures fs1 < failures fs"
      by (auto simp: bpf_call_def split: list.splits if_splits)
    then show ?thesis using Cons.IH [of mk1 fs1] Cons.prems Checked r by (cases ok1) auto
  next
    case (Ignored c)
    obtain mk1 fs1 ok1 where r: "bpf_call c (mk, fs) = ((mk1, fs1), ok1)" by (metis surj_pair)
    then have "failures fs1 \<le> failures fs"
      by (auto simp: bpf_call_def split: list.splits if_splits)
    then show ?thesis using Cons.IH [of mk1 fs1] Cons.prems Ignored r by auto
  next
    case BadRange
    then show ?thesis using Cons.prems by simp
  qed
qed simp

lemma mirrors_update [simp]:
  "mirrors cr c p (mk\<lparr>mk_configs := x, mk_policies := y\<rparr>) = mirrors cr c p mk"
  "mirrors cr c p (mk\<lparr>mk_pid_map := z\<rparr>) = mirrors cr c p mk"
  by (simp_all add: mirrors_def range_map_def)


text \<open>A marker that mirrors nothing yet takes over a configuration; and one kernel call fails.\<close>

definition empty_marker :: marker where
  "empty_marker = \<lparr>mk_pid_map = [], mk_mode_map = [], mk_ipv4_map = [], mk_ipv6_map = [],
     mk_bypass_ipv4_map = [], mk_bypass_ipv6_map = [], mk_configs = [], mk_policies = []\<rparr>"

lemma empty_marker_mirrors: "mirrors cr [] [] empty_marker"
  by (simp add: mirrors_def range_map_def range_keys_def empty_marker_def)


end
