(* ===== verification/Bpf_Exec.thy ===== *)
theory Bpf_Exec
  imports Bpf
begin

text \<open>
  Symbolic execution of the socket-marking programs. The assembled code is computed once; its three parts
  (the identification of the caller, the key of the destination, the policy) are run for all inputs by rewriting,
  and joined with the monotonicity of the step budget.
\<close>

unbundle bit_operations_syntax


lemma insn_off [simp]: "(insn_new c d s off v)\<lparr>in_off := w\<rparr> = insn_new c d s w v"
  by (simp add: insn_new_def)

lemmas asm_simps =
  assemble_def asm_finish_def builder_default_def emit_def mov_reg_def mov_imm_def rsh_imm_def
  load32_def load64_def store_imm32_def store_reg32_def store_reg64_def stack_pointer_def
  load_map_def call_def socket_option_args_def get_socket_mark_def set_socket_mark_def
  with_fixup_def jump_eq_imm_def jump_ne_imm_def jump_def asm_label_def asm_exit_def fixup_def

lemma socket_mark_code:
  "socket_mark_program fd = Some
     [insn_new 0xbf 6 1 0 0, insn_new 0x85 0 0 0 14, insn_new 0x77 0 0 0 32,
      insn_new 0x63 10 0 (-4) 0, insn_new 0x18 1 1 0 fd, insn_new 0 0 0 0 0,
      insn_new 0xbf 2 10 0 0, insn_new 0x07 2 0 0 (-4), insn_new 0x85 0 0 0 1,
      insn_new 0x15 0 0 1 0, insn_new 0x62 6 0 16 FWMARK_VALUE, insn_new 0xb7 0 0 0 1,
      insn_new 0x95 0 0 0 0]"
  by (simp add: socket_mark_program_def asm_simps)

lemma bpf_run_numeral:
  "bpf_run k prog (numeral n) pc s =
     (if length prog \<le> pc then None
      else case execute k pc (prog ! pc) s of
          None \<Rightarrow> None
        | Some (Inl s') \<Rightarrow> Some s'
        | Some (Inr (pc', s')) \<Rightarrow> bpf_run k prog (pred_numeral n) pc' s')"
  by (simp add: numeral_eq_Suc)

lemma insn_fields [simp]:
  "in_code (insn_new c d s off v) = c" "in_off (insn_new c d s off v) = off" "in_imm (insn_new c d s off v) = v"
  "in_registers (insn_new c d s off v) = (d AND 15) OR push_bit 4 (s AND 15)"
  by (simp_all add: insn_new_def)

lemma get_put32_same [simp]: "get32 (put32 a v m) a = v"
proof (rule bit_word_eqI)
  fix n assume "n < LENGTH(32)"
  then consider "n < 8" | "8 \<le> n" "n < 16" | "16 \<le> n" "n < 24" | "24 \<le> n" "n < 32" by force
  then show "bit (get32 (put32 a v m) a) n = bit v n"
    by cases (auto simp: get32_def put32_def byte_of_def bit_simps)
qed

lemma get32_put32_other: "a + 4 \<le> b \<or> b + 4 \<le> a \<Longrightarrow> get32 (put32 a v m) b = get32 m b"
  by (auto simp: get32_def put32_def)

lemma put32_other: "b < a \<or> a + 4 \<le> b \<Longrightarrow> put32 a v m b = m b"
  by (auto simp: put32_def)

lemma bpf_run_mono: "bpf_run k p n pc s = Some r \<Longrightarrow> n \<le> n' \<Longrightarrow> bpf_run k p n' pc s = Some r"
proof (induction n arbitrary: n' pc s)
  case (Suc n)
  then obtain n'' where n': "n' = Suc n''" "n \<le> n''" by (cases n') auto
  from Suc.prems(1) Suc.IH [OF _ n'(2)] show ?case
    unfolding n'(1) by (auto split: if_splits option.splits sum.splits)
qed simp

abbreviation "tail_code \<equiv>
  [insn_new 0x15 8 0 18 FWMARK_VALUE,
   insn_new 0xbf 1 6 0 0, insn_new 0xb7 2 0 0 1, insn_new 0xb7 3 0 0 36, insn_new 0xbf 4 10 0 0,
   insn_new 0x07 4 0 0 (-28), insn_new 0xb7 5 0 0 4, insn_new 0x85 0 0 0 57,
   insn_new 0x61 0 10 (-28) 0, insn_new 0x55 0 0 17 FWMARK_VALUE,
   insn_new 0x62 10 0 (-28) 0,
   insn_new 0xbf 1 6 0 0, insn_new 0xb7 2 0 0 1, insn_new 0xb7 3 0 0 36, insn_new 0xbf 4 10 0 0,
   insn_new 0x07 4 0 0 (-28), insn_new 0xb7 5 0 0 4, insn_new 0x85 0 0 0 49,
   insn_new 0x05 0 0 8 0,
   insn_new 0x62 10 0 (-28) FWMARK_VALUE,
   insn_new 0xbf 1 6 0 0, insn_new 0xb7 2 0 0 1, insn_new 0xb7 3 0 0 36, insn_new 0xbf 4 10 0 0,
   insn_new 0x07 4 0 0 (-28), insn_new 0xb7 5 0 0 4, insn_new 0x85 0 0 0 49,
   insn_new 0xb7 0 0 0 1, insn_new 0x95 0 0 0 0]"

abbreviation "head_code pid \<equiv>
  [insn_new 0xbf 6 1 0 0, insn_new 0x85 0 0 0 14, insn_new 0x77 0 0 0 32, insn_new 0x63 10 0 (-36) 0,
   insn_new 0x18 1 1 0 pid, insn_new 0 0 0 0 0, insn_new 0xbf 2 10 0 0, insn_new 0x07 2 0 0 (-36),
   insn_new 0x85 0 0 0 1, insn_new 0xb7 8 0 0 0, insn_new 0x15 0 0 1 0,
   insn_new 0xb7 8 0 0 FWMARK_VALUE,
   insn_new 0x85 0 0 0 15, insn_new 0x63 10 0 (-32) 0]"

abbreviation "policy_code md rng byp off \<equiv>
  [insn_new 0x18 1 1 0 byp, insn_new 0 0 0 0 0, insn_new 0xbf 2 10 0 0, insn_new 0x07 2 0 0 off,
   insn_new 0x85 0 0 0 1, insn_new 0x15 0 0 1 0, insn_new 0x05 0 0 16 0,
   insn_new 0x18 1 1 0 md, insn_new 0 0 0 0 0, insn_new 0xbf 2 10 0 0, insn_new 0x07 2 0 0 (-32),
   insn_new 0x85 0 0 0 1, insn_new 0x15 0 0 11 0, insn_new 0x61 7 0 0 0,
   insn_new 0x18 1 1 0 rng, insn_new 0 0 0 0 0, insn_new 0xbf 2 10 0 0, insn_new 0x07 2 0 0 off,
   insn_new 0x85 0 0 0 1, insn_new 0x15 0 0 4 0, insn_new 0x15 7 0 2 0, insn_new 0xb7 8 0 0 0,
   insn_new 0x05 0 0 1 0, insn_new 0xb7 8 0 0 FWMARK_VALUE]"

abbreviation "code4 pid md rng byp \<equiv>
  head_code pid
  @ [insn_new 0x62 10 0 (-16) 64, insn_new 0x61 0 10 (-32) 0, insn_new 0x63 10 0 (-12) 0,
     insn_new 0x61 0 6 4 0, insn_new 0x63 10 0 (-8) 0]
  @ policy_code md rng byp (-16) @ tail_code"

abbreviation "code6 pid md rng byp \<equiv>
  head_code pid
  @ [insn_new 0x62 10 0 (-24) 160, insn_new 0x61 0 10 (-32) 0, insn_new 0x63 10 0 (-20) 0,
     insn_new 0x79 0 6 8 0, insn_new 0x7b 10 0 (-16) 0, insn_new 0x79 0 6 16 0,
     insn_new 0x7b 10 0 (-8) 0]
  @ policy_code md rng byp (-24) @ tail_code"

lemma destination_code4:
  "destination_mark_program pid md rng byp False = Some (code4 pid md rng byp)"
  by (simp add: destination_mark_program_def destination_key_def asm_simps)

lemma destination_code6:
  "destination_mark_program pid md rng byp True = Some (code6 pid md rng byp)"
  by (simp add: destination_mark_program_def destination_key_def asm_simps)

lemmas run_simps = bpf_run_numeral execute_def Let_def call_helper_def jump_to_def in_memory_def MEMORY_SIZE_def

lemma unat_ucast_64 [simp]: "unat (ucast (x :: u32) :: u64) = unat x"
  using unsigned_less [of x, where ?'a = nat]
  by (simp add: unsigned_ucast_eq take_bit_nat_eq_self_iff)

lemma ucast_eq_mark: "(ucast (x :: u32) :: u64) = 245447468 \<longleftrightarrow> x = 245447468"
  using unat_ucast_64 [of x] by (simp add: word_unat_eq_iff)

lemma ucast_eq_zero: "(ucast (x :: u32) :: u64) = 0 \<longleftrightarrow> x = 0"
  using unat_ucast_64 [of x] by (simp add: word_unat_eq_iff)

lemma ucast_back [simp]: "(ucast (ucast (x :: u32) :: u64) :: u32) = x"
  by (rule bit_word_eqI) (simp add: bit_simps)

lemma byte_of_get32:
  "byte_of 0 (get32 m a) = m a" "byte_of 1 (get32 m a) = m (a + 1)"
  "byte_of 2 (get32 m a) = m (a + 2)" "byte_of 3 (get32 m a) = m (a + 3)"
  by (rule bit_word_eqI; auto simp: byte_of_def get32_def bit_simps dest: bit_imp_le_length)+

lemma get64_parts [simp]:
  "(ucast (get64 m a) :: u32) = get32 m a" "(ucast (drop_bit 32 (get64 m a)) :: u32) = get32 m (a + 4)"
  by (rule bit_word_eqI; auto simp: get64_def bit_simps dest: bit_imp_le_length)+

lemma put32_apply: "put32 a v m b =
  (if b = a then byte_of 0 v else if b = a + 1 then byte_of 1 v else if b = a + 2 then byte_of 2 v
   else if b = a + 3 then byte_of 3 v else m b)"
  by (simp add: put32_def)

lemma lookup_hash: "map_lookup (HashMap f) m p = f (get32 m p)"
  by (simp add: map_lookup_def)

lemma lookup_lpm4: "map_lookup (LpmTrie 4 f) m p =
    f (get32 m p) (get32 m (p + 4)) [m (p + 8), m (p + 9), m (p + 10), m (p + 11)]"
  by (simp add: map_lookup_def upt_rec add.commute)

lemma lookup_lpm16: "map_lookup (LpmTrie 16 f) m p =
    f (get32 m p) (get32 m (p + 4))
      [m (p + 8), m (p + 9), m (p + 10), m (p + 11), m (p + 12), m (p + 13), m (p + 14), m (p + 15),
       m (p + 16), m (p + 17), m (p + 18), m (p + 19), m (p + 20), m (p + 21), m (p + 22), m (p + 23)]"
  by (simp add: map_lookup_def upt_rec add.commute)

lemmas key_simps = lookup_hash lookup_lpm4 lookup_lpm16 get32_put32_other put32_apply byte_of_get32
  byte_of_get32(2) [simplified] put64_def VALUE_ADDRESS_def

lemma bpf_run_add:
  "bpf_run k prog (numeral v + n) pc s =
     (if length prog \<le> pc then None
      else case execute k pc (prog ! pc) s of
          None \<Rightarrow> None
        | Some (Inl s') \<Rightarrow> Some s'
        | Some (Inr (pc', s')) \<Rightarrow> bpf_run k prog (pred_numeral v + n) pc' s')"
  by (simp add: numeral_eq_Suc)

lemma lookup_put_value:
  "n \<le> 16 \<Longrightarrow> p \<le> 2024 \<Longrightarrow> map_lookup (LpmTrie n f) (put32 2048 v m) p = map_lookup (LpmTrie n f) m p"
proof -
  assume p: "n \<le> 16" "p \<le> 2024"
  then have "get32 (put32 2048 v m) p = get32 m p" "get32 (put32 2048 v m) (p + 4) = get32 m (p + 4)"
    by (simp_all add: get32_put32_other)
  moreover have "map (\<lambda>i. put32 2048 v m (p + 8 + i)) [0..<n] = map (\<lambda>i. m (p + 8 + i)) [0..<n]"
    using p by (intro map_cong) (auto intro!: put32_other)
  ultimately show ?thesis unfolding map_lookup_def by (simp only: bpf_map.case)
qed

abbreviation "dcode six pid md rng byp \<equiv> if six then code6 pid md rng byp else code4 pid md rng byp"

abbreviation "regs r0 r1 r2 r3 r4 r5 r7 b r9 \<equiv>
  [r0, r1, r2, r3, r4, r5, 1024, r7, if b then 245447468 else 0, r9, 512 :: u64]"

abbreviation "tgid k \<equiv> (ucast (drop_bit 32 (kn_pid_tgid k)) :: u32)"

lemma head_run_miss:
  assumes "kn_map k (scast pid) = Some (HashMap pids)" "pids (tgid k) = None"
  shows "bpf_run k (head_code pid @ rest) (12 + n) 0 (entry m mark) =
      bpf_run k (head_code pid @ rest) n 14
        \<lparr>mc_registers = [kn_uid_gid k, scast pid, 476, 0, 0, 0, 1024, 0, 0, 0, 512],
         mc_memory = put32 480 (ucast (kn_uid_gid k)) (put32 476 (tgid k) m), mc_mark = mark\<rparr>"
  using assms by (simp add: entry_def bpf_run_add run_simps lookup_hash)

lemma head_run_hit:
  assumes "kn_map k (scast pid) = Some (HashMap pids)" "pids (tgid k) = Some v"
  shows "bpf_run k (head_code pid @ rest) (13 + n) 0 (entry m mark) =
      bpf_run k (head_code pid @ rest) n 14
        \<lparr>mc_registers = [kn_uid_gid k, scast pid, 476, 0, 0, 0, 1024, 0, 245447468, 0, 512],
         mc_memory = put32 480 (ucast (kn_uid_gid k)) (put32 2048 v (put32 476 (tgid k) m)), mc_mark = mark\<rparr>"
  using assms
  by (simp add: entry_def bpf_run_add run_simps lookup_hash VALUE_ADDRESS_def FWMARK_VALUE_def)
    (simp add: numeral_eq_Suc)

abbreviation "key4 m \<equiv> put32 504 (get32 m 1028) (put32 500 (get32 m 480) (put32 496 64 m))"

abbreviation "key6 m \<equiv>
  put64 504 (get64 m 1040) (put64 496 (get64 m 1032) (put32 492 (get32 m 480) (put32 488 160 m)))"

lemma key4_run:
  "bpf_run k (code4 pid md rng byp) (5 + n) 14
     \<lparr>mc_registers = [r0, r1, r2, r3, r4, r5, 1024, r7, r8, r9, 512], mc_memory = m, mc_mark = mark\<rparr> =
   bpf_run k (code4 pid md rng byp) n 19
     \<lparr>mc_registers = [ucast (get32 m 1028), r1, r2, r3, r4, r5, 1024, r7, r8, r9, 512],
      mc_memory = key4 m, mc_mark = mark\<rparr>"
  by (simp add: bpf_run_add run_simps get32_put32_other)

lemma get64_put32_other: "a + 4 \<le> b \<or> b + 8 \<le> a \<Longrightarrow> get64 (put32 a v m) b = get64 m b"
  by (auto simp: get64_def get32_put32_other)

lemma get64_put64_other: "a + 8 \<le> b \<or> b + 8 \<le> a \<Longrightarrow> get64 (put64 a v m) b = get64 m b"
  by (auto simp: put64_def get64_put32_other)

lemma key6_run:
  "bpf_run k (code6 pid md rng byp) (7 + n) 14
     \<lparr>mc_registers = [r0, r1, r2, r3, r4, r5, 1024, r7, r8, r9, 512], mc_memory = m, mc_mark = mark\<rparr> =
   bpf_run k (code6 pid md rng byp) n 21
     \<lparr>mc_registers = [get64 m 1040, r1, r2, r3, r4, r5, 1024, r7, r8, r9, 512],
      mc_memory = key6 m, mc_mark = mark\<rparr>"
  by (simp add: bpf_run_add run_simps get32_put32_other get64_put32_other get64_put64_other)

lemma key4_fields:
  "get32 (key4 m) 480 = get32 m 480"
  "map_lookup (LpmTrie 4 f) (key4 m) 496 = f 64 (get32 m 480) [m 1028, m 1029, m 1030, m 1031]"
  by (simp_all add: get32_put32_other lookup_lpm4 put32_apply byte_of_get32 byte_of_get32(2) [simplified])

lemma key6_fields:
  "get32 (key6 m) 480 = get32 m 480"
  "map_lookup (LpmTrie 16 f) (key6 m) 488 = f 160 (get32 m 480) (map m [1032..<1048])"
  by (simp_all add: get32_put32_other lookup_lpm16 put32_apply byte_of_get32 byte_of_get32(2) [simplified] put64_def
    upt_rec)

lemma policy_run:
  assumes maps: "kn_map k (scast md) = Some (HashMap modes)"
      "kn_map k (scast rng) = Some (LpmTrie n ranges)" "kn_map k (scast byp) = Some (LpmTrie n bypass)"
    and n: "n \<le> 16" and x: "map_lookup (LpmTrie n bypass) m (if six then 488 else 496) = x"
    and y: "modes (get32 m 480) = y" and z: "map_lookup (LpmTrie n ranges) m (if six then 488 else 496) = z"
  shows "\<exists>s. bpf_run k (dcode six pid md rng byp) 179 (if six then 21 else 19)
      \<lparr>mc_registers = regs r0 r1 r2 r3 r4 r5 r7 b r9, mc_memory = m, mc_mark = mark\<rparr> = Some s
    \<and> mc_mark s = destination_mark b (x \<noteq> None) y (z \<noteq> None) mark"
proof -
  have size: "n \<le> 3600" "n \<le> 3592" using n by simp_all
  note run = size run_simps maps lookup_hash lookup_put_value n VALUE_ADDRESS_def get32_put32_other
    ucast_eq_mark ucast_eq_zero FWMARK_VALUE_def destination_mark_def
  show ?thesis
  proof (cases x)
    case (Some v)
    with x show ?thesis
      by (cases six; cases b) (simp_all add: run)
  next
    case bypass: None
    show ?thesis
    proof (cases y)
      case None
      with bypass x y show ?thesis
        by (cases six; cases b; cases "mark = FWMARK_VALUE") (simp_all add: run)
    next
      case modes: (Some v)
      show ?thesis
      proof (cases z)
        case None
        with bypass modes x y z show ?thesis
          by (cases six; cases b; cases "mark = FWMARK_VALUE") (simp_all add: run)
      next
        case (Some r)
        with bypass modes x y z show ?thesis
          by (cases six; cases b; cases "v = 0"; cases "mark = FWMARK_VALUE") (simp_all add: run)
      qed
    qed
  qed
qed



lemma policy_run_mono:
  assumes "kn_map k (scast md) = Some (HashMap modes)"
      "kn_map k (scast rng) = Some (LpmTrie n ranges)" "kn_map k (scast byp) = Some (LpmTrie n bypass)"
    and "n \<le> 16" and "179 \<le> fuel"
  shows "\<exists>s. bpf_run k (dcode six pid md rng byp) fuel (if six then 21 else 19)
      \<lparr>mc_registers = regs r0 r1 r2 r3 r4 r5 r7 b r9, mc_memory = m, mc_mark = mark\<rparr> = Some s
    \<and> mc_mark s = destination_mark b
        (map_lookup (LpmTrie n bypass) m (if six then 488 else 496) \<noteq> None) (modes (get32 m 480))
        (map_lookup (LpmTrie n ranges) m (if six then 488 else 496) \<noteq> None) mark"
  using policy_run [OF assms(1-4) refl refl refl] bpf_run_mono [OF _ assms(5)] by meson

lemmas policy_run4 = policy_run_mono [where six = False and n = 4 and m = "key4 m" for m, simplified if_False key4_fields]
lemmas policy_run6 = policy_run_mono [where six = True and n = 16 and m = "key6 m" for m, simplified if_True key6_fields]

lemma destination_run4:
  assumes maps: "kn_map k (scast pid) = Some (HashMap pids)" "kn_map k (scast md) = Some (HashMap modes)"
    "kn_map k (scast rng) = Some (LpmTrie 4 ranges)" "kn_map k (scast byp) = Some (LpmTrie 4 bypass)"
  shows "\<exists>s. bpf_run k (code4 pid md rng byp) 199 0 (entry m mark) = Some s
    \<and> mc_mark s = destination_mark (pids (tgid k) \<noteq> None)
        (bypass 64 (ucast (kn_uid_gid k)) [m 1028, m 1029, m 1030, m 1031] \<noteq> None) (modes (ucast (kn_uid_gid k)))
        (ranges 64 (ucast (kn_uid_gid k)) [m 1028, m 1029, m 1030, m 1031] \<noteq> None) mark"
proof (cases "pids (tgid k)")
  case None
  let ?m = "put32 480 (ucast (kn_uid_gid k)) (put32 476 (tgid k) m)"
  have "bpf_run k (code4 pid md rng byp) (12 + (5 + 182)) 0 (entry m mark) =
      bpf_run k (code4 pid md rng byp) 182 19
        \<lparr>mc_registers = [ucast (get32 ?m 1028), scast pid, 476, 0, 0, 0, 1024, 0, 0, 0, 512],
         mc_memory = key4 ?m, mc_mark = mark\<rparr>"
    by (simp only: head_run_miss [OF maps(1) None] key4_run)
  with policy_run4 [OF maps(2-4), of 182 pid _ _ _ _ _ _ _ False _ ?m] None show ?thesis
    by (simp add: put32_apply)
next
  case (Some v)
  let ?m = "put32 480 (ucast (kn_uid_gid k)) (put32 2048 v (put32 476 (tgid k) m))"
  have "bpf_run k (code4 pid md rng byp) (13 + (5 + 181)) 0 (entry m mark) =
      bpf_run k (code4 pid md rng byp) 181 19
        \<lparr>mc_registers = [ucast (get32 ?m 1028), scast pid, 476, 0, 0, 0, 1024, 0, 245447468, 0, 512],
         mc_memory = key4 ?m, mc_mark = mark\<rparr>"
    by (simp only: head_run_hit [OF maps(1) Some] key4_run)
  with policy_run4 [OF maps(2-4), of 181 pid _ _ _ _ _ _ _ True _ ?m] Some show ?thesis
    by (simp add: put32_apply)
qed

lemma destination_run6:
  assumes maps: "kn_map k (scast pid) = Some (HashMap pids)" "kn_map k (scast md) = Some (HashMap modes)"
    "kn_map k (scast rng) = Some (LpmTrie 16 ranges)" "kn_map k (scast byp) = Some (LpmTrie 16 bypass)"
  shows "\<exists>s. bpf_run k (code6 pid md rng byp) 199 0 (entry m mark) = Some s
    \<and> mc_mark s = destination_mark (pids (tgid k) \<noteq> None)
        (bypass 160 (ucast (kn_uid_gid k)) (map m [1032..<1048]) \<noteq> None) (modes (ucast (kn_uid_gid k)))
        (ranges 160 (ucast (kn_uid_gid k)) (map m [1032..<1048]) \<noteq> None) mark"
proof (cases "pids (tgid k)")
  case None
  let ?m = "put32 480 (ucast (kn_uid_gid k)) (put32 476 (tgid k) m)"
  have "bpf_run k (code6 pid md rng byp) (12 + (7 + 180)) 0 (entry m mark) =
      bpf_run k (code6 pid md rng byp) 180 21
        \<lparr>mc_registers = [get64 ?m 1040, scast pid, 476, 0, 0, 0, 1024, 0, 0, 0, 512],
         mc_memory = key6 ?m, mc_mark = mark\<rparr>"
    by (simp only: head_run_miss [OF maps(1) None] key6_run)
  with policy_run6 [OF maps(2-4), of 180 pid _ _ _ _ _ _ _ False _ ?m] None show ?thesis
    by (simp add: put32_apply upt_rec)
next
  case (Some v)
  let ?m = "put32 480 (ucast (kn_uid_gid k)) (put32 2048 v (put32 476 (tgid k) m))"
  have "bpf_run k (code6 pid md rng byp) (13 + (7 + 179)) 0 (entry m mark) =
      bpf_run k (code6 pid md rng byp) 179 21
        \<lparr>mc_registers = [get64 ?m 1040, scast pid, 476, 0, 0, 0, 1024, 0, 245447468, 0, 512],
         mc_memory = key6 ?m, mc_mark = mark\<rparr>"
    by (simp only: head_run_hit [OF maps(1) Some] key6_run)
  with policy_run6 [OF maps(2-4), of 179 pid _ _ _ _ _ _ _ True _ ?m] Some show ?thesis
    by (simp add: put32_apply upt_rec)
qed


text \<open>A user in include mode whose ranges hold 192.0.2.0/24, and a tracked process.\<close>

definition sample_ranges :: "u32 \<Rightarrow> u32 \<Rightarrow> u8 list \<Rightarrow> u32 option" where
  "sample_ranges p u a = (if u = 1000 \<and> take 3 a = [192, 0, 2] then Some 1 else None)"

definition sample_kernel :: kernel where
  "sample_kernel = \<lparr>kn_pid_tgid = 18219251269632, kn_uid_gid = 1000,
     kn_map = [3 \<mapsto> HashMap [4242 \<mapsto> 1], 4 \<mapsto> HashMap [1000 \<mapsto> 1], 5 \<mapsto> LpmTrie 4 sample_ranges,
       6 \<mapsto> LpmTrie 4 (\<lambda>p u a. None)]\<rparr>"

text \<open>C16. For both address families the destination program assembles, ends within the interpreter's
  199 steps, and leaves the socket with exactly the mark of \<open>destination_mark\<close>, computed from the hit of the process
  in the pid map, of the user and address in the bypass map, of the user in the mode map and of the user and address
  in the range map, whatever the context, the stack and the previous mark of the socket are.\<close>

theorem destination_program_decides:
  assumes "kn_map k (scast pid_fd) = Some (HashMap pids)"
    and "kn_map k (scast mode_fd) = Some (HashMap modes)"
    and "kn_map k (scast range_fd) = Some (LpmTrie (if ipv6 then 16 else 4) ranges)"
    and "kn_map k (scast bypass_fd) = Some (LpmTrie (if ipv6 then 16 else 4) bypass)"
  shows "\<exists>prog s. destination_mark_program pid_fd mode_fd range_fd bypass_fd ipv6 = Some prog
    \<and> bpf_run k prog 199 0 (entry m mark) = Some s
    \<and> mc_mark s = destination_mark (pids (ucast (drop_bit 32 (kn_pid_tgid k))) \<noteq> None)
        (bypass (if ipv6 then 160 else 64) (ucast (kn_uid_gid k)) (socket_address ipv6 m) \<noteq> None)
        (modes (ucast (kn_uid_gid k)))
        (ranges (if ipv6 then 160 else 64) (ucast (kn_uid_gid k)) (socket_address ipv6 m) \<noteq> None) mark"
proof (cases ipv6)
  case True
  with destination_run6 [of k pid_fd pids mode_fd modes range_fd ranges bypass_fd bypass m mark] assms
  show ?thesis by (simp only: destination_code6 socket_address_def if_True option.inject) blast
next
  case False
  with destination_run4 [of k pid_fd pids mode_fd modes range_fd ranges bypass_fd bypass m mark] assms
  show ?thesis by (simp add: destination_code4 socket_address_def upt_rec del: append.simps)
qed

theorem destination_program_decides_witness:
  "\<exists>prog s. destination_mark_program 3 4 5 6 False = Some prog
    \<and> bpf_run sample_kernel prog 199 0
        (entry (\<lambda>a. if a = 1028 then 192 else if a = 1030 then 2 else 0) FWMARK_VALUE) = Some s
    \<and> mc_mark s = 0"
  using destination_program_decides
    [of sample_kernel 3 "[4242 \<mapsto> 1]" 4 "[1000 \<mapsto> 1]" 5 False sample_ranges 6 "\<lambda>p u a. None"
      "\<lambda>a. if a = 1028 then 192 else if a = 1030 then 2 else 0" FWMARK_VALUE]
  by (simp add: sample_kernel_def sample_ranges_def socket_address_def destination_mark_def FWMARK_VALUE_def upt_rec)

text \<open>The socket-creation program assembles, ends within the budget and stores the split-tunneling mark in
  the mark field of the new socket exactly when its thread group is in the pid map; no other byte of the context
  changes and the socket option is not touched.\<close>

theorem socket_program_marks_tracked:
  assumes "kn_map k (scast pid_fd) = Some (HashMap pids)"
  shows "\<exists>prog s. socket_mark_program pid_fd = Some prog
    \<and> bpf_run k prog 199 0 (entry m mark) = Some s \<and> mc_mark s = mark
    \<and> get32 (mc_memory s) (1024 + 16) =
        (if pids (ucast (drop_bit 32 (kn_pid_tgid k))) = None then get32 m (1024 + 16) else FWMARK_VALUE)
    \<and> (\<forall>a \<ge> 1024. a < 1040 \<or> 1044 \<le> a \<and> a < 2048 \<longrightarrow> mc_memory s a = m a)"
  using assms
  by (cases "pids (ucast (drop_bit 32 (kn_pid_tgid k)))")
     (simp_all add: socket_mark_code entry_def run_simps lookup_hash put32_apply get32_put32_other VALUE_ADDRESS_def)

theorem socket_program_marks_tracked_witness:
  "\<exists>prog s. socket_mark_program 3 = Some prog
    \<and> bpf_run sample_kernel prog 199 0 (entry (\<lambda>a. 0) 0) = Some s
    \<and> get32 (mc_memory s) 1040 = FWMARK_VALUE"
  using socket_program_marks_tracked [of sample_kernel 3 "[4242 \<mapsto> 1]" "\<lambda>a. 0" 0]
  by (simp add: sample_kernel_def) blast

end
