(* ===== verification/Split_Policy.thy ===== *)
theory Split_Policy
  imports Split_Marker Bpf_Exec
begin

text \<open>
  From configuration to socket mark: the programs of \<open>Bpf\<close> run on the kernel maps of \<open>Split_Marker\<close>. The kernel's
  longest-prefix lookup is modelled by its documented matching rule: a key is found when some entry is not longer than
  the key's prefix and agrees with it on all bits of the entry's prefix, counted from the first byte of the data.
\<close>

unbundle bit_operations_syntax

section \<open>Lookups\<close>

definition byte_bits :: "u8 \<Rightarrow> bool list" where
  "byte_bits b = map (bit b) [7, 6, 5, 4, 3, 2, 1, 0]"

definition bits_of :: "u8 list \<Rightarrow> bool list" where
  "bits_of bs = concat (map byte_bits bs)"

definition uid_bytes :: "u32 \<Rightarrow> u8 list" where
  "uid_bytes u = [byte_of 0 u, byte_of 1 u, byte_of 2 u, byte_of 3 u]"

definition lpm_match :: "lpm_key \<Rightarrow> u32 \<Rightarrow> u32 \<Rightarrow> u8 list \<Rightarrow> bool" where
  "lpm_match k prefix uid address \<longleftrightarrow>
     lk_prefix k \<le> prefix
     \<and> take (unat (lk_prefix k)) (bits_of (uid_bytes (lk_uid k) @ lk_address k))
       = take (unat (lk_prefix k)) (bits_of (uid_bytes uid @ address))"

definition lpm_lookup :: "lpm_key list \<Rightarrow> u32 \<Rightarrow> u32 \<Rightarrow> u8 list \<Rightarrow> u32 option" where
  "lpm_lookup ks prefix uid address =
     (if \<exists>k \<in> set ks. lpm_match k prefix uid address then Some 1 else None)"

definition pid_lookup :: "marker \<Rightarrow> u32 \<Rightarrow> u32 option" where
  "pid_lookup mk pid = (if pid \<in> set (mk_pid_map mk) then Some 1 else None)"

definition range_lookup :: "bool \<Rightarrow> bool \<Rightarrow> marker \<Rightarrow> u32 \<Rightarrow> u32 \<Rightarrow> u8 list \<Rightarrow> u32 option" where
  "range_lookup bypass v4 mk =
     lpm_lookup (if bypass then (if v4 then mk_bypass_ipv4_map mk else mk_bypass_ipv6_map mk)
                 else (if v4 then mk_ipv4_map mk else mk_ipv6_map mk))"

section \<open>The policy\<close>

definition net_wf :: "ip_net \<Rightarrow> bool" where
  "net_wf n \<longleftrightarrow> ip_wf (net_address n) \<and> net_prefix n \<le> (if is_v4 (net_address n) then 32 else 128)"

definition covers :: "ip_net \<Rightarrow> bool \<Rightarrow> u8 list \<Rightarrow> bool" where
  "covers n v4 address \<longleftrightarrow>
     is_v4 (net_address n) = v4
     \<and> take (net_prefix n) (bits_of (octets (net_address n))) = take (net_prefix n) (bits_of address)"

definition listed :: "ipnet_crate \<Rightarrow> (u16 \<times> string list) list \<Rightarrow> u32 \<Rightarrow> bool \<Rightarrow> u8 list \<Rightarrow> bool" where
  "listed cr entries uid v4 address \<longleftrightarrow>
     (\<exists>(u, rs) \<in> set entries. wide u = uid \<and> (\<exists>n \<in> set (nets cr rs). covers n v4 address))"

text \<open>What the user asked for: policy destinations always leave the tunnel; a listed range leaves it in
  exclude mode and stays in it in include mode; everything else follows the application.\<close>

definition wanted_mark :: "ipnet_crate \<Rightarrow> config_map \<Rightarrow> policy_map \<Rightarrow> u32 \<Rightarrow> bool \<Rightarrow> u8 list \<Rightarrow> bool \<Rightarrow> bool" where
  "wanted_mark cr configs policies uid v4 address excluded_app \<longleftrightarrow>
     (if listed cr policies uid v4 address then True
      else if listed cr (config_ranges configs) uid v4 address
      then (\<exists>(u, c) \<in> set configs. wide u = uid \<and> sp_mode c = ModeExclude)
      else excluded_app)"

definition nets_valid :: "ipnet_crate \<Rightarrow> (u16 \<times> string list) list \<Rightarrow> bool" where
  "nets_valid cr entries \<longleftrightarrow> (\<forall>(u, rs) \<in> set entries. \<forall>n \<in> set (nets cr rs). net_wf n)"

section \<open>Matching\<close>

lemma byte_bits_inject: "byte_bits a = byte_bits b \<longleftrightarrow> a = b"
proof
  assume "byte_bits a = byte_bits b"
  then have "bit a n = bit b n" if "n < 8" for n
    using that by (auto simp: byte_bits_def numeral_eq_Suc less_Suc_eq)
  then show "a = b" by (intro bit_word_eqI) simp
qed simp

lemma length_byte_bits [simp]: "length (byte_bits b) = 8"
  by (simp add: byte_bits_def)

lemma bits_of_inject: "length as = length bs \<Longrightarrow> bits_of as = bits_of bs \<longleftrightarrow> as = bs"
proof (induction as bs rule: list_induct2)
  case (Cons a as b bs)
  then show ?case by (simp add: bits_of_def byte_bits_inject)
qed simp

lemma bits_of_append: "bits_of (as @ bs) = bits_of as @ bits_of bs"
  by (simp add: bits_of_def)

lemma length_bits_of: "length (bits_of bs) = 8 * length bs"
  by (induction bs) (simp_all add: bits_of_def)

lemma uid_bytes_inject: "uid_bytes a = uid_bytes b \<longleftrightarrow> a = b"
proof
  assume eq: "uid_bytes a = uid_bytes b"
  have byte: "bit (byte_of k u) n = bit u (8 * k + n)" if "n < 8" for k u and n :: nat
    using that by (simp add: byte_of_def bit_simps)
  show "a = b"
  proof (rule bit_word_eqI)
    fix n assume "n < LENGTH(32)"
    then have k: "n div 8 \<in> {0, 1, 2, 3}" "n mod 8 < 8" by auto
    then have "byte_of (n div 8) a = byte_of (n div 8) b" using eq by (auto simp: uid_bytes_def)
    then show "bit a n = bit b n"
      using byte [OF k(2), of "n div 8" a] byte [OF k(2), of "n div 8" b] by simp
  qed
qed simp

lemma unat_prefix: "p \<le> 128 \<Longrightarrow> unat (32 + of_nat p :: u32) = 32 + p"
  by (simp add: unat_word_ariths unsigned_of_nat take_bit_nat_eq_self)

lemma net_key_fields:
  "lk_uid (net_key u n) = u" "lk_address (net_key u n) = octets (net_address n)"
  "lk_prefix (net_key u n) = 32 + of_nat (net_prefix n)"
  by (simp_all add: net_key_def ipv4_key_def ipv6_key_def)

lemma net_key_match:
  assumes "net_wf n" "is_v4 (net_address n) = v4"
  shows "lpm_match (net_key u n) (if v4 then 64 else 160) uid address \<longleftrightarrow> u = uid \<and> covers n v4 address"
proof -
  have p: "net_prefix n \<le> (if v4 then 32 else 128)" using assms by (simp add: net_wf_def)
  then have u: "unat (32 + of_nat (net_prefix n) :: u32) = 32 + net_prefix n"
    by (intro unat_prefix) (simp split: if_splits)
  then have le: "(32 + of_nat (net_prefix n) :: u32) \<le> (if v4 then 64 else 160)"
    using p by (auto simp: word_le_nat_alt split: if_splits)
  have len: "length (bits_of (uid_bytes w)) = 32" "length (uid_bytes w) = length (uid_bytes w')" for w w'
    by (simp_all add: length_bits_of uid_bytes_def)
  have split: "take (32 + m) (bits_of (uid_bytes w @ xs)) = bits_of (uid_bytes w) @ take m (bits_of xs)" for w m xs
    by (simp add: bits_of_append len)
  have "lpm_match (net_key u n) (if v4 then 64 else 160) uid address \<longleftrightarrow>
      bits_of (uid_bytes u) = bits_of (uid_bytes uid)
      \<and> take (net_prefix n) (bits_of (octets (net_address n))) = take (net_prefix n) (bits_of address)"
    using le len(1) [of u] len(1) [of uid] by (simp add: lpm_match_def net_key_fields u split)
  then show ?thesis using assms(2) by (simp add: bits_of_inject [OF len(2)] uid_bytes_inject covers_def)
qed

lemma range_lookup_listed:
  assumes "range_map b v4 mk = range_keys cr v4 entries" "nets_valid cr entries"
  shows "range_lookup b v4 mk (if v4 then 64 else 160) uid address \<noteq> None \<longleftrightarrow> listed cr entries uid v4 address"
proof -
  have "range_lookup b v4 mk (if v4 then 64 else 160) uid address \<noteq> None \<longleftrightarrow>
      (\<exists>k \<in> range_map b v4 mk. lpm_match k (if v4 then 64 else 160) uid address)"
    by (simp add: range_lookup_def lpm_lookup_def range_map_def)
  also have "\<dots> \<longleftrightarrow> (\<exists>(u, rs) \<in> set entries. \<exists>n \<in> set (nets cr rs). is_v4 (net_address n) = v4
      \<and> lpm_match (net_key (wide u) n) (if v4 then 64 else 160) uid address)"
    by (auto simp: assms(1) range_keys_def)
  also have "\<dots> \<longleftrightarrow> listed cr entries uid v4 address"
  proof -
    have key: "is_v4 (net_address n) = v4 \<and> lpm_match (net_key (wide u) n) (if v4 then 64 else 160) uid address
        \<longleftrightarrow> wide u = uid \<and> covers n v4 address" if "(u, rs) \<in> set entries" "n \<in> set (nets cr rs)" for u rs n
      using assms(2) that net_key_match [of n v4 "wide u" uid address] by (auto simp: nets_valid_def covers_def)
    show ?thesis unfolding listed_def
    proof (intro bex_cong refl)
      fix e assume "e \<in> set entries"
      moreover obtain u rs where e: "e = (u, rs)" by force
      ultimately show "(case e of (u, rs) \<Rightarrow> \<exists>n \<in> set (nets cr rs). is_v4 (net_address n) = v4
          \<and> lpm_match (net_key (wide u) n) (if v4 then 64 else 160) uid address) =
        (case e of (u, rs) \<Rightarrow> wide u = uid \<and> (\<exists>n \<in> set (nets cr rs). covers n v4 address))"
        unfolding e prod.case using key [of u rs] by blast
    qed
  qed
  finally show ?thesis .
qed

text \<open>C2. From the configuration to the socket: whenever the kernel maps mirror the configurations, a connection or
  datagram of a user leaves its socket with the split-tunneling mark exactly when the policy wants it there, and
  without it otherwise; a mark of another owner survives. Together with the synchronisation this is the daemon's
  contract for destinations.\<close>

theorem configured_destination_is_marked:
  assumes "mirrors cr configs policies mk"
    and "distinct (map fst configs)"
    and "nets_valid cr (config_ranges configs)" "nets_valid cr policies"
    and "kn_map k (scast pid_fd) = Some (HashMap (pid_lookup mk))"
    and "kn_map k (scast mode_fd) = Some (HashMap (obj_get (mk_mode_map mk)))"
    and "kn_map k (scast range_fd) = Some (LpmTrie (if v4 then 4 else 16) (range_lookup False v4 mk))"
    and "kn_map k (scast bypass_fd) = Some (LpmTrie (if v4 then 4 else 16) (range_lookup True v4 mk))"
  shows "\<exists>prog s. destination_mark_program pid_fd mode_fd range_fd bypass_fd (\<not> v4) = Some prog
    \<and> bpf_run k prog 199 0 (entry m mark) = Some s
    \<and> mc_mark s =
        (if wanted_mark cr configs policies (ucast (kn_uid_gid k)) v4 (socket_address (\<not> v4) m)
              (ucast (drop_bit 32 (kn_pid_tgid k)) \<in> set (mk_pid_map mk))
         then FWMARK_VALUE else if mark = FWMARK_VALUE then 0 else mark)"
proof -
  let ?uid = "ucast (kn_uid_gid k) :: u32" and ?addr = "socket_address (\<not> v4) m"
  let ?pid = "ucast (drop_bit 32 (kn_pid_tgid k)) :: u32"
  have maps: "range_map False v4 mk = range_keys cr v4 (config_ranges configs)"
    "range_map True v4 mk = range_keys cr v4 policies"
    using assms(1) by (simp_all add: mirrors_def)
  note hit = range_lookup_listed [OF maps(1) assms(3)] range_lookup_listed [OF maps(2) assms(4)]
  have mode: "\<exists>u c. (u, c) \<in> set configs \<and> wide u = ?uid \<and> obj_get (mk_mode_map mk) ?uid = Some (mode_value (sp_mode c))"
    if "listed cr (config_ranges configs) ?uid v4 ?addr"
  proof -
    from that obtain u c n where c: "(u, c) \<in> set configs" "wide u = ?uid" "n \<in> set (nets cr (sp_ip_ranges c))"
      by (auto simp: listed_def)
    then have "has_rules c" by (auto simp: has_rules_def set_nets)
    then show ?thesis using assms(1) c by (force simp: mirrors_def)
  qed
  have unique: "c = c'" if "(u, c) \<in> set configs" "(u, c') \<in> set configs" for u c c'
    using that assms(2) by (metis eq_key_imp_eq_value)
  have "destination_mark (pid_lookup mk ?pid \<noteq> None) (listed cr policies ?uid v4 ?addr)
      (obj_get (mk_mode_map mk) ?uid) (listed cr (config_ranges configs) ?uid v4 ?addr) mark =
    (if wanted_mark cr configs policies ?uid v4 ?addr (?pid \<in> set (mk_pid_map mk))
     then FWMARK_VALUE else if mark = FWMARK_VALUE then 0 else mark)"
  proof (cases "listed cr policies ?uid v4 ?addr \<or> \<not> listed cr (config_ranges configs) ?uid v4 ?addr")
    case True
    then show ?thesis
      by (auto simp: destination_mark_def wanted_mark_def pid_lookup_def FWMARK_VALUE_def Let_def split: option.splits)
  next
    case False
    with mode obtain u c where c: "(u, c) \<in> set configs" "wide u = ?uid"
      "obj_get (mk_mode_map mk) ?uid = Some (mode_value (sp_mode c))" by blast
    have "(\<exists>(u, c) \<in> set configs. wide u = ?uid \<and> sp_mode c = ModeExclude) \<longleftrightarrow> sp_mode c = ModeExclude"
      using c(1,2) unique by (auto simp flip: c(2))
    with False c(3) show ?thesis
      by (cases "sp_mode c") (auto simp: destination_mark_def wanted_mark_def mode_value_def FWMARK_VALUE_def Let_def)
  qed
  moreover have "\<exists>prog s. destination_mark_program pid_fd mode_fd range_fd bypass_fd (\<not> v4) = Some prog
    \<and> bpf_run k prog 199 0 (entry m mark) = Some s
    \<and> mc_mark s = destination_mark (pid_lookup mk ?pid \<noteq> None) (listed cr policies ?uid v4 ?addr)
        (obj_get (mk_mode_map mk) ?uid) (listed cr (config_ranges configs) ?uid v4 ?addr) mark"
    using destination_program_decides [of k pid_fd "pid_lookup mk" mode_fd "obj_get (mk_mode_map mk)" range_fd
        "\<not> v4" "range_lookup False v4 mk" bypass_fd "range_lookup True v4 mk" m mark] assms(5-8)
      hit(1) [of ?uid ?addr] hit(2) [of ?uid ?addr]
    by (cases v4) simp_all
  ultimately show ?thesis by simp
qed

text \<open>User 1000 excludes 192.0.2.0/24; the process is not marked.\<close>

definition sample_marker :: marker where
  "sample_marker = fst (fst (sync_configs sample_crate [(1000, sample_config)] [] (empty_marker, [])))"

definition marked_kernel :: kernel where
  "marked_kernel = \<lparr>kn_pid_tgid = 18219251269632, kn_uid_gid = 1000,
     kn_map = [3 \<mapsto> HashMap (pid_lookup sample_marker), 4 \<mapsto> HashMap (obj_get (mk_mode_map sample_marker)),
       5 \<mapsto> LpmTrie 4 (range_lookup False True sample_marker), 6 \<mapsto> LpmTrie 4 (range_lookup True True sample_marker)]\<rparr>"

theorem configured_destination_is_marked_witness:
  "\<exists>prog s. destination_mark_program 3 4 5 6 False = Some prog
    \<and> bpf_run marked_kernel prog 199 0
        (entry (\<lambda>a. if a = 1028 then 192 else if a = 1030 then 2 else if a = 1031 then 77 else 0) 0) = Some s
    \<and> mc_mark s = FWMARK_VALUE"
proof -
  let ?m = "\<lambda>a. if a = 1028 then 192 else if a = 1030 then 2 else if a = 1031 then 77 else 0 :: u8"
  have "mirrors sample_crate [(1000, sample_config)] [] sample_marker" by code_simp
  moreover have "nets_valid sample_crate (config_ranges [(1000, sample_config)])" "nets_valid sample_crate []" by code_simp+
  moreover have "wanted_mark sample_crate [(1000, sample_config)] [] 1000 True [192, 0, 2, 77] (4242 \<in> set (mk_pid_map sample_marker))"
    by code_simp
  ultimately show ?thesis
    using configured_destination_is_marked [of sample_crate "[(1000, sample_config)]" "[]" sample_marker marked_kernel 3 4 5 True 6 ?m 0]
    by (simp add: marked_kernel_def socket_address_def upt_rec)
qed

end
