(* ===== verification/Split_Proc.thy ===== *)
theory Split_Proc
  imports Prelude
begin

text \<open>
  What the daemon learns about processes: the entries of \<^verbatim>\<open>/proc\<close> (\<^verbatim>\<open>splitd/src/procfs.rs\<close>) and the frames of the
  kernel's process connector (\<^verbatim>\<open>splitd/src/proc_events.rs\<close>). The files of a process and the received bytes are
  arguments. Integers in a frame are little endian.
\<close>

unbundle bit_operations_syntax

section \<open>Texts of a process\<close>

record process_info =
  pi_uid :: u16
  pi_pid :: u32
  pi_ppid :: u32
  pi_identities :: "string list"

text \<open>\<open>str::parse::<u32>\<close>: an optional plus sign, decimal digits, no overflow.\<close>

definition parse_u32 :: "string \<Rightarrow> u32 option" where
  "parse_u32 s0 =
     (let s = (case s0 of c # r \<Rightarrow> if c = CHR ''+'' then r else s0 | [] \<Rightarrow> s0) in
      if s = [] \<or> \<not> list_all is_ascii_digit s then None
      else let n = undigits 8 s in if n < 2 ^ 32 then Some (of_nat n) else None)"

text \<open>\<open>str::lines\<close>: the parts between line feeds, without a final empty one, each without a trailing
  carriage return.\<close>

definition strip_cr :: "string \<Rightarrow> string" where
  "strip_cr l = (if l \<noteq> [] \<and> last l = CHR 0x0D then butlast l else l)"

definition lines :: "string \<Rightarrow> string list" where
  "lines s =
     (let ps = split_on (CHR 0x0A) s;
          qs = (if last ps = [] then butlast ps else ps) in
      map strip_cr qs)"

text \<open>\<open>str::split_whitespace\<close>.\<close>

fun word_end :: "string \<Rightarrow> nat" where
  "word_end [] = 0"
| "word_end (c # s) = (if ws_front (c # s) \<noteq> None then 0 else Suc (word_end s))"

lemma word_end_le: "word_end s \<le> length s"
  by (induction s) auto

lemma trim_start_Cons: "trim_start s = c # r \<Longrightarrow> 0 < word_end (c # r)"
  using ws_front_trim_start [of s] by simp

lemma length_trim_start: "length (trim_start s) \<le> length s"
proof (induction s rule: trim_start.induct)
  case (1 s)
  show ?case
  proof (cases "ws_front s")
    case None
    then show ?thesis by (simp add: trim_start.simps [of s])
  next
    case (Some k)
    with 1 [of k] show ?thesis by (simp add: trim_start.simps [of s])
  qed
qed

function split_whitespace :: "string \<Rightarrow> string list" where
  "split_whitespace s =
     (case trim_start s of
        [] \<Rightarrow> []
      | c # r \<Rightarrow> take (word_end (c # r)) (c # r) # split_whitespace (drop (word_end (c # r)) (c # r)))"
  by pat_completeness auto
termination
proof (relation "measure length", goal_cases)
  case (2 s c r)
  then show ?case
    using length_trim_start [of s] trim_start_Cons [of s c r] by (auto simp: less_le_trans)
qed simp

declare split_whitespace.simps [simp del]

definition parse_uid :: "string \<Rightarrow> string + u16" where
  "parse_uid status =
     rbind (ok_or ''process UID missing''
             (Option.bind (find (starts_with ''Uid:'') (lines status))
               (\<lambda>l. case split_whitespace (drop 4 l) of [] \<Rightarrow> None | w # _ \<Rightarrow> Some w)))
       (\<lambda>raw. ok_or ''process UID unsupported''
          (Option.bind (parse_u32 raw) (\<lambda>u. if unat u < 2 ^ 16 then Some (ucast u) else None)))"

text \<open>\<open>str::rsplit_once\<close>: the text after the last occurrence of the separator.\<close>

fun after_last :: "string \<Rightarrow> string \<Rightarrow> string option" where
  "after_last sep [] = (if sep = [] then Some [] else None)"
| "after_last sep (c # s) =
     (case after_last sep s of
        Some r \<Rightarrow> Some r
      | None \<Rightarrow> if starts_with sep (c # s) then Some (drop (length sep) (c # s)) else None)"

definition parse_ppid :: "string \<Rightarrow> string + u32" where
  "parse_ppid stat =
     rbind (ok_or ''process stat malformed'' (after_last '') '' stat))
       (\<lambda>suffix. ok_or ''process parent missing''
          (case split_whitespace suffix of _ # w # _ \<Rightarrow> parse_u32 w | _ \<Rightarrow> None))"

text \<open>The joined arguments; \<open>String::from_utf8_lossy\<close> is the identity on UTF-8 text, the only bytes modelled.\<close>

definition parse_cmdline :: "string \<Rightarrow> string" where
  "parse_cmdline bytes = join '' '' (filter (\<lambda>p. p \<noteq> []) (split_on (CHR 0x00) bytes))"

record proc_files =
  pf_status :: "string option"
  pf_stat :: "string option"
  pf_exe :: "string option"
  pf_cmdline :: "string option"

definition read_process :: "(u32 \<Rightarrow> proc_files) \<Rightarrow> u32 \<Rightarrow> string + process_info" where
  "read_process proc pid =
     (let fs = proc pid in
      rbind (ok_or ''status'' (pf_status fs)) (\<lambda>status.
      rbind (parse_uid status) (\<lambda>uid.
      rbind (ok_or ''stat'' (pf_stat fs)) (\<lambda>stat.
      rbind (parse_ppid stat) (\<lambda>ppid.
      let ids1 = (case pf_exe fs of Some exe \<Rightarrow> if exe \<noteq> [] then [exe] else [] | None \<Rightarrow> []);
          ids2 = (case pf_cmdline fs of
                    Some bytes \<Rightarrow>
                      let v = parse_cmdline bytes in
                      if v \<noteq> [] \<and> v \<notin> set ids1 then ids1 @ [v] else ids1
                  | None \<Rightarrow> ids1) in
      Inr \<lparr>pi_uid = uid, pi_pid = pid, pi_ppid = ppid, pi_identities = ids2\<rparr>)))))"

text \<open>The names in \<^verbatim>\<open>/proc\<close>, or \<open>None\<close> when it cannot be read; a name that is not a number and a process that
  cannot be read are skipped.\<close>

definition scan :: "string list option \<Rightarrow> (u32 \<Rightarrow> proc_files) \<Rightarrow> string + process_info list" where
  "scan names proc =
     (case names of
        None \<Rightarrow> Inl ''/proc''
      | Some ns \<Rightarrow> Inr (List.map_filter
          (\<lambda>name. Option.bind (parse_u32 name) (\<lambda>pid. result_ok (read_process proc pid))) ns))"

section \<open>Frames of the process connector\<close>

definition NLMSG_HEADER :: nat where "NLMSG_HEADER = 16"
definition CN_HEADER :: nat where "CN_HEADER = 20"

datatype process_event =
    Fork (fork_parent: u32) (fork_child: u32)
  | Exec u32
  | Exit u32

definition get_u16 :: "u8 list \<Rightarrow> nat \<Rightarrow> u16 option" where
  "get_u16 b off =
     (if off + 2 \<le> length b then Some (ucast (b ! off) OR push_bit 8 (ucast (b ! (off + 1)))) else None)"

definition get_u32 :: "u8 list \<Rightarrow> nat \<Rightarrow> u32 option" where
  "get_u32 b off =
     (if off + 4 \<le> length b
      then Some ((ucast (b ! off) OR push_bit 8 (ucast (b ! (off + 1))))
             OR (push_bit 16 (ucast (b ! (off + 2))) OR push_bit 24 (ucast (b ! (off + 3)))))
      else None)"

abbreviation "u32_at b off \<equiv> unwrap_or 0 (get_u32 b off)"

definition parse_event :: "u8 list \<Rightarrow> nat \<Rightarrow> process_event option" where
  "parse_event b payload =
     (let what = u32_at b payload; data = payload + 16 in
      if what = 0x00000001 then Some (Fork (u32_at b (data + 4)) (u32_at b (data + 12)))
      else if what = 0x00000002 then Some (Exec (u32_at b (data + 4)))
      else if what = 0x80000000 then Some (Exit (u32_at b (data + 4)))
      else None)"

definition align4 :: "nat \<Rightarrow> nat" where
  "align4 n = 4 * ((n + 3) div 4)"

lemma align4_ge: "n \<le> align4 n"
  by (simp add: align4_def)

function parse_from :: "u8 list \<Rightarrow> nat \<Rightarrow> process_event list" where
  "parse_from b off =
     (if length b < off + NLMSG_HEADER + CN_HEADER then []
      else
      let len = unat (u32_at b off) in
      if len < NLMSG_HEADER + CN_HEADER \<or> length b < off + len then []
      else
      let payload = off + NLMSG_HEADER + CN_HEADER;
          cn_len = unat (unwrap_or 0 (get_u16 b (off + NLMSG_HEADER + 16)));
          rest = parse_from b (off + align4 len) in
      if 16 \<le> cn_len \<and> payload + cn_len \<le> off + len
      then (case parse_event b payload of None \<Rightarrow> rest | Some e \<Rightarrow> e # rest)
      else rest)"
  by pat_completeness auto
termination
proof (relation "measure (\<lambda>(b, off). length b - off)", goal_cases)
  case (2 b off len)
  then show ?case
    using align4_ge [of len] by (auto simp: NLMSG_HEADER_def CN_HEADER_def)
qed simp

declare parse_from.simps [simp del]

definition parse_messages :: "u8 list \<Rightarrow> process_event list" where
  "parse_messages b = parse_from b 0"

section \<open>Reading a batch of frames\<close>

text \<open>A complete frame of the kernel that announces an event: the lengths of both headers, the kind
  and the identifiers of the processes are in it.\<close>

definition event_frame :: "process_event \<Rightarrow> u8 list \<Rightarrow> bool" where
  "event_frame e f \<longleftrightarrow>
     36 \<le> length f \<and> length f < 2 ^ 32 \<and> length f mod 4 = 0
     \<and> get_u32 f 0 = Some (of_nat (length f))
     \<and> (case get_u16 f 32 of None \<Rightarrow> False | Some cn \<Rightarrow> 16 \<le> unat cn \<and> 36 + unat cn \<le> length f)
     \<and> (case e of
          Fork p c \<Rightarrow> get_u32 f 36 = Some 1 \<and> get_u32 f 56 = Some p \<and> get_u32 f 64 = Some c
        | Exec p \<Rightarrow> get_u32 f 36 = Some 2 \<and> get_u32 f 56 = Some p
        | Exit p \<Rightarrow> get_u32 f 36 = Some 0x80000000 \<and> get_u32 f 56 = Some p)"

lemma get_append:
  "get_u32 f k = Some v \<Longrightarrow> get_u32 (pre @ f @ post) (length pre + k) = Some v"
  "get_u16 f k = Some w \<Longrightarrow> get_u16 (pre @ f @ post) (length pre + k) = Some w"
  by (auto simp: get_u32_def get_u16_def nth_append split: if_splits)

lemma event_codes: "(0x80000000 :: u32) \<noteq> 1" "(0x80000000 :: u32) \<noteq> 2"
  by code_simp+

lemma frame_event:
  assumes "event_frame e f"
  shows "parse_event (pre @ f @ post) (length pre + 36) = Some e"
proof (cases e)
  case (Fork p c)
  with assms show ?thesis
    using get_append(1) [of f 36 1 pre post] get_append(1) [of f 56 p pre post] get_append(1) [of f 64 c pre post]
    by (simp add: event_frame_def parse_event_def Let_def ac_simps)
next
  case (Exec p)
  with assms show ?thesis
    using get_append(1) [of f 36 2 pre post] get_append(1) [of f 56 p pre post]
    by (simp add: event_frame_def parse_event_def Let_def ac_simps)
next
  case (Exit p)
  with assms show ?thesis
    using get_append(1) [of f 36 "0x80000000" pre post] get_append(1) [of f 56 p pre post]
    by (simp add: event_frame_def parse_event_def Let_def ac_simps event_codes del: word_eq_numeral_iff_iszero)
qed

lemma parse_frame:
  assumes "event_frame e f"
  shows "parse_from (pre @ f @ post) (length pre) = e # parse_from (pre @ f @ post) (length pre + length f)"
proof -
  from assms obtain cn where f: "36 \<le> length f" "length f < 2 ^ 32" "length f mod 4 = 0"
      "get_u32 f 0 = Some (of_nat (length f))" "get_u16 f 32 = Some cn" "16 \<le> unat cn" "36 + unat cn \<le> length f"
    by (auto simp: event_frame_def split: option.splits)
  have len: "unat (u32_at (pre @ f @ post) (length pre)) = length f"
    using get_append(1) [OF f(4), of pre post] f(2) by (simp add: unsigned_of_nat take_bit_nat_eq_self)
  have cn: "get_u16 (pre @ f @ post) (length pre + 32) = Some cn"
    by (rule get_append(2) [OF f(5)])
  have "align4 (length f) = length f"
    using f(3) unfolding align4_def by presburger
  then show ?thesis
    using f cn len frame_event [OF assms, of pre post]
    by (simp add: parse_from.simps [of _ "length pre"] NLMSG_HEADER_def CN_HEADER_def Let_def ac_simps)
qed

lemma parse_frames:
  "list_all2 event_frame es fs \<Longrightarrow> parse_from (pre @ concat fs) (length pre) = es"
proof (induction es fs arbitrary: pre rule: list_all2_induct)
  case Nil
  show ?case by (simp add: parse_from.simps NLMSG_HEADER_def CN_HEADER_def)
next
  case (Cons e es f fs)
  then show ?case using parse_frame [OF Cons(1), of pre "concat fs"] Cons.IH [of "pre @ f"] by simp
qed

lemma parse_from_length:
  "36 * length (parse_from b off) \<le> length b - off"
proof (induction b off rule: parse_from.induct)
  case (1 b off)
  show ?case
  proof (cases "length b < off + 36 \<or> unat (u32_at b off) < 36 \<or> length b < off + unat (u32_at b off)")
    case True
    then show ?thesis by (auto simp: parse_from.simps [of b off] NLMSG_HEADER_def CN_HEADER_def Let_def)
  next
    case False
    let ?n = "unat (u32_at b off)"
    have "36 * length (parse_from b (off + align4 ?n)) \<le> length b - (off + align4 ?n)"
      using 1 [of ?n] False by (simp add: NLMSG_HEADER_def CN_HEADER_def)
    moreover have "length (parse_from b off) \<le> Suc (length (parse_from b (off + align4 ?n)))"
      using False
      by (simp add: parse_from.simps [of b off] NLMSG_HEADER_def CN_HEADER_def Let_def split: option.splits)
    ultimately show ?thesis using False align4_ge [of ?n] by linarith
  qed
qed

text \<open>C30. Every batch of complete frames is read back as exactly its events, in order; and whatever
  bytes arrive, reading them ends and yields at most one event for every 36 bytes.\<close>

theorem connector_frames_roundtrip:
  "(list_all2 event_frame es fs \<longrightarrow> parse_messages (concat fs) = es)
   \<and> 36 * length (parse_messages b) \<le> length b"
  using parse_frames [of es fs "[]"] parse_from_length [of b 0] by (simp add: parse_messages_def)

text \<open>The frame of the repository's test: an exec of process 4242.\<close>

definition sample_frame :: "u8 list" where
  "sample_frame = [60, 0, 0, 0] @ replicate 28 0 @ [24, 0, 0, 0, 2, 0, 0, 0] @ replicate 16 0 @ [146, 16, 0, 0]"

theorem connector_frames_roundtrip_witness:
  "parse_messages (sample_frame @ sample_frame) = [Exec 4242, Exec 4242]"
proof -
  have "list_all2 event_frame [Exec 4242, Exec 4242] [sample_frame, sample_frame]" by code_simp
  with connector_frames_roundtrip [of "[Exec 4242, Exec 4242]" "[sample_frame, sample_frame]" "[]"]
  show ?thesis by simp
qed

section \<open>The parent of a process\<close>

text \<open>The name of a program is between parentheses in \<open>stat\<close> and may contain anything, closing parentheses and
  fake fields included: the text after the last one is read.\<close>

lemma after_last_none: "CHR '')'' \<notin> set r \<Longrightarrow> after_last '') '' r = None"
  by (induction r) auto

lemma after_last_append:
  assumes "CHR '')'' \<notin> set r"
  shows "after_last '') '' (s @ '') '' @ r) = Some r"
  by (induction s) (simp_all add: after_last_none [OF assms])

end
