(* ===== verification/Split_Tracking.thy ===== *)
theory Split_Tracking
  imports Split_Model Split_Proc
begin

text \<open>
  \<open>build_tracking\<close> of \<^verbatim>\<open>splitd/src/engine.rs\<close>: which processes belong to a configured application. A process matches by its
  own identity or because its parent does, and the code propagates along the parents in at most as many rounds as
  there are processes. The result is compared with the inductive definition of descent.
\<close>

section \<open>The code\<close>

record tracked_process =
  tp_uid :: u16
  tp_matched :: bool
  tp_excluded :: bool

type_synonym match_map = "u32 \<rightharpoonup> bool"

definition initial_matches :: "config_map \<Rightarrow> process_info list \<Rightarrow> match_map" where
  "initial_matches configs ps =
     fold (\<lambda>p m. case obj_get configs (pi_uid p) of
                   None \<Rightarrow> m
                 | Some c \<Rightarrow> m(pi_pid p \<mapsto> config_matches c (pi_identities p))) ps Map.empty"

definition inherit :: "process_info \<Rightarrow> match_map \<times> bool \<Rightarrow> match_map \<times> bool" where
  "inherit p s = (case s of (m, changed) \<Rightarrow>
     if m (pi_pid p) = Some False \<and> m (pi_ppid p) = Some True
     then (m(pi_pid p \<mapsto> True), True) else (m, changed))"

definition inherit_round :: "process_info list \<Rightarrow> match_map \<Rightarrow> match_map \<times> bool" where
  "inherit_round ps m = fold inherit ps (m, False)"

text \<open>\<open>for _ in 0..processes.len()\<close>, left as soon as a round changes nothing.\<close>

fun inherit_rounds :: "nat \<Rightarrow> process_info list \<Rightarrow> match_map \<Rightarrow> match_map" where
  "inherit_rounds 0 ps m = m"
| "inherit_rounds (Suc n) ps m =
     (let (m', changed) = inherit_round ps m in if changed then inherit_rounds n ps m' else m')"

definition build_tracking :: "config_map \<Rightarrow> process_info list \<Rightarrow> (u32 \<times> tracked_process) list" where
  "build_tracking configs ps =
     (let m = inherit_rounds (length ps) ps (initial_matches configs ps) in
      fold (\<lambda>p t. case obj_get configs (pi_uid p) of
                    None \<Rightarrow> t
                  | Some c \<Rightarrow>
                      let matched = unwrap_or False (m (pi_pid p)) in
                      obj_insert (pi_pid p)
                        \<lparr>tp_uid = pi_uid p, tp_matched = matched, tp_excluded = config_excludes c matched\<rparr> t)
        ps [])"

section \<open>The specification\<close>

inductive descends :: "config_map \<Rightarrow> process_info list \<Rightarrow> u32 \<Rightarrow> bool" for configs ps where
  matches: "p \<in> set ps \<Longrightarrow> obj_get configs (pi_uid p) = Some c \<Longrightarrow> config_matches c (pi_identities p)
    \<Longrightarrow> descends configs ps (pi_pid p)"
| child: "p \<in> set ps \<Longrightarrow> obj_get configs (pi_uid p) = Some c \<Longrightarrow> descends configs ps (pi_ppid p)
    \<Longrightarrow> descends configs ps (pi_pid p)"

inductive_cases descendsE: "descends configs ps pid"

section \<open>The loop computes descent\<close>

abbreviation "waiting m \<equiv> {pid. m pid = Some False}"

definition closed_under :: "process_info list \<Rightarrow> match_map \<Rightarrow> bool" where
  "closed_under ps m \<longleftrightarrow> (\<forall>p \<in> set ps. m (pi_pid p) = Some False \<longrightarrow> m (pi_ppid p) \<noteq> Some True)"

lemma inherit_pair: "inherit p (m, c) =
    (if m (pi_pid p) = Some False \<and> m (pi_ppid p) = Some True then (m(pi_pid p \<mapsto> True), True) else (m, c))"
  by (simp add: inherit_def)

text \<open>A round only turns waiting processes into matched ones, and reports whether it did.\<close>

definition grows :: "match_map \<Rightarrow> match_map \<Rightarrow> bool" where
  "grows m m' \<longleftrightarrow> dom m' = dom m \<and> (\<forall>pid. m pid = Some True \<longrightarrow> m' pid = Some True)"

lemma grows_refl [simp]: "grows m m"
  by (simp add: grows_def)

lemma grows_trans: "grows m m' \<Longrightarrow> grows m' m'' \<Longrightarrow> grows m m''"
  by (simp add: grows_def)

lemma inherit_grows: "grows m (fst (inherit p (m, c)))"
  by (auto simp: inherit_pair grows_def)

lemma fold_grows: "grows m (fst (fold inherit ps (m, c)))"
proof (induction ps arbitrary: m c)
  case (Cons p ps)
  obtain m' c' where i: "inherit p (m, c) = (m', c')" by force
  then show ?case using Cons [of m' c'] inherit_grows [of m p c] by (auto intro: grows_trans)
qed simp

lemma fold_changed: "snd (fold inherit ps (m, c)) \<Longrightarrow> \<not> c \<Longrightarrow> waiting (fst (fold inherit ps (m, c))) \<subset> waiting m"
proof (induction ps arbitrary: m)
  case (Cons p ps)
  show ?case
  proof (cases "m (pi_pid p) = Some False \<and> m (pi_ppid p) = Some True")
    case True
    let ?m = "m(pi_pid p \<mapsto> True)"
    have "waiting (fst (fold inherit ps (?m, True))) \<subseteq> waiting ?m"
      using fold_grows [of ?m ps True] by (force simp: grows_def)
    moreover have "waiting ?m \<subset> waiting m" using True by auto
    ultimately have "waiting (fst (fold inherit ps (?m, True))) \<subset> waiting m" by (rule subset_psubset_trans)
    then show ?thesis using True by (simp add: inherit_pair)
  next
    case False
    then have "inherit p (m, c) = (m, c)" by (auto simp: inherit_pair)
    then show ?thesis using Cons by simp
  qed
qed simp

lemma fold_unchanged: "\<not> snd (fold inherit ps (m, c)) \<Longrightarrow> fst (fold inherit ps (m, c)) = m \<and> \<not> c \<and> closed_under ps m"
proof (induction ps arbitrary: c)
  case (Cons p ps)
  have stuck: "snd (fold inherit ps (m', True))" for m'
    by (induction ps arbitrary: m') (auto simp: inherit_pair)
  show ?case
  proof (cases "m (pi_pid p) = Some False \<and> m (pi_ppid p) = Some True")
    case True
    then show ?thesis using Cons.prems stuck by (simp add: inherit_pair)
  next
    case False
    then have "inherit p (m, c) = (m, c)" by (auto simp: inherit_pair)
    moreover from this Cons.prems have "\<not> snd (fold inherit ps (m, c))" by simp
    note Cons.IH [OF this]
    ultimately show ?thesis using False by (auto simp: closed_under_def)
  qed
qed (simp add: closed_under_def)

lemma rounds_grow: "grows m (inherit_rounds n ps m)"
proof (induction n arbitrary: m)
  case (Suc n)
  then show ?case using fold_grows [of m ps False]
    by (auto simp: inherit_round_def split: prod.splits intro: grows_trans)
qed simp

lemma rounds_closed: "finite (waiting m) \<Longrightarrow> card (waiting m) \<le> n \<Longrightarrow> closed_under ps (inherit_rounds n ps m)"
proof (induction n arbitrary: m)
  case (Suc n)
  obtain m' ch where r: "inherit_round ps m = (m', ch)" by force
  show ?case
  proof (cases ch)
    case True
    then have "waiting m' \<subset> waiting m" using fold_changed [of ps m False] r by (simp add: inherit_round_def)
    then have "finite (waiting m')" "card (waiting m') < card (waiting m)"
      using finite_subset [OF psubset_imp_subset Suc.prems(1)] psubset_card_mono [OF Suc.prems(1)] by blast+
    then have "finite (waiting m')" "card (waiting m') \<le> n" using Suc.prems(2) by simp_all
    then show ?thesis using Suc.IH r True by simp
  next
    case False
    then show ?thesis using fold_unchanged [of ps m False] r by (auto simp: inherit_round_def)
  qed
qed (simp add: closed_under_def)

lemma fold_sound:
  assumes "\<forall>p \<in> set ps. m (pi_pid p) \<noteq> None \<longrightarrow> P (pi_ppid p) \<longrightarrow> P (pi_pid p)" "\<forall>pid. m pid = Some True \<longrightarrow> P pid"
  shows "\<forall>pid. fst (fold inherit ps (m, c)) pid = Some True \<longrightarrow> P pid"
  using assms
proof (induction ps arbitrary: m c)
  case (Cons p ps)
  obtain m' c' where i: "inherit p (m, c) = (m', c')" by force
  have "dom m' = dom m" using inherit_grows [of m p c] i by (simp add: grows_def)
  then have "m' pid = None \<longleftrightarrow> m pid = None" for pid by blast
  then have "\<forall>q \<in> set ps. m' (pi_pid q) \<noteq> None \<longrightarrow> P (pi_ppid q) \<longrightarrow> P (pi_pid q)"
    using Cons.prems(1) by simp
  moreover have "\<forall>pid. m' pid = Some True \<longrightarrow> P pid"
  proof (intro allI impI)
    fix pid assume "m' pid = Some True"
    then show "P pid" using i Cons.prems(2) Cons.prems(1) [THEN bspec, of p]
      by (auto simp: inherit_pair split: if_splits)
  qed
  ultimately have "\<forall>pid. fst (fold inherit ps (m', c')) pid = Some True \<longrightarrow> P pid" by (rule Cons.IH)
  then show ?case by (simp add: i)
qed simp

lemma rounds_sound:
  assumes "\<forall>p \<in> set ps. m (pi_pid p) \<noteq> None \<longrightarrow> P (pi_ppid p) \<longrightarrow> P (pi_pid p)" "\<forall>pid. m pid = Some True \<longrightarrow> P pid"
  shows "\<forall>pid. inherit_rounds n ps m pid = Some True \<longrightarrow> P pid"
  using assms
proof (induction n arbitrary: m)
  case (Suc n)
  obtain m' ch where r: "inherit_round ps m = (m', ch)" by force
  have "\<forall>pid. m' pid = Some True \<longrightarrow> P pid" using fold_sound [OF Suc.prems, of False] r by (simp add: inherit_round_def)
  moreover have "dom m' = dom m" using fold_grows [of m ps False] r by (simp add: inherit_round_def grows_def)
  then have "m' pid = None \<longleftrightarrow> m pid = None" for pid by blast
  then have "\<forall>q \<in> set ps. m' (pi_pid q) \<noteq> None \<longrightarrow> P (pi_ppid q) \<longrightarrow> P (pi_pid q)"
    using Suc.prems(1) by simp
  ultimately have "\<forall>pid. inherit_rounds n ps m' pid = Some True \<longrightarrow> P pid" using Suc.IH by blast
  with \<open>\<forall>pid. m' pid = Some True \<longrightarrow> P pid\<close> show ?case by (simp add: r)
qed simp

lemma initial_matches_at:
  assumes "distinct (map pi_pid ps)"
  shows "initial_matches configs ps pid =
    (case find (\<lambda>p. pi_pid p = pid) ps of
       None \<Rightarrow> None
     | Some p \<Rightarrow> map_option (\<lambda>c. config_matches c (pi_identities p)) (obj_get configs (pi_uid p)))"
proof -
  have "fold (\<lambda>p m. case obj_get configs (pi_uid p) of
        None \<Rightarrow> m | Some c \<Rightarrow> m(pi_pid p \<mapsto> config_matches c (pi_identities p))) ps m pid =
      (case find (\<lambda>p. pi_pid p = pid) ps of
         None \<Rightarrow> m pid
       | Some p \<Rightarrow> (case obj_get configs (pi_uid p) of
            None \<Rightarrow> m pid | Some c \<Rightarrow> Some (config_matches c (pi_identities p))))" for m
    using assms
  proof (induction ps arbitrary: m)
    case (Cons p ps)
    have "find (\<lambda>q. pi_pid q = pi_pid p) ps = None"
      using Cons.prems by (simp add: find_None_iff) (metis image_eqI)
    then show ?case using Cons by (auto split: option.splits)
  qed simp
  then show ?thesis by (simp add: initial_matches_def split: option.splits)
qed

text \<open>A process of the list, by its identifier.\<close>

lemma initial_matches_of:
  assumes "distinct (map pi_pid ps)" "p \<in> set ps"
  shows "initial_matches configs ps (pi_pid p) =
    map_option (\<lambda>c. config_matches c (pi_identities p)) (obj_get configs (pi_uid p))"
proof -
  have "find (\<lambda>q. pi_pid q = pi_pid p) ps = Some p"
    using assms by (induction ps) (auto simp: image_iff)
  then show ?thesis by (simp add: initial_matches_at [OF assms(1)])
qed

lemma initial_matches_dom:
  assumes "distinct (map pi_pid ps)" "initial_matches configs ps pid = Some b"
  shows "\<exists>p \<in> set ps. pi_pid p = pid \<and> (\<exists>c. obj_get configs (pi_uid p) = Some c)"
  using assms by (auto simp: initial_matches_at [OF assms(1)] find_Some_iff split: option.splits)

lemma rounds_compute_descent:
  assumes d: "distinct (map pi_pid ps)" and p: "p \<in> set ps" "obj_get configs (pi_uid p) = Some c"
  shows "inherit_rounds (length ps) ps (initial_matches configs ps) (pi_pid p) = Some (descends configs ps (pi_pid p))"
proof -
  let ?i = "initial_matches configs ps" and ?P = "descends configs ps"
  let ?m = "inherit_rounds (length ps) ps ?i"
  have wait: "waiting ?i \<subseteq> pi_pid ` set ps" using initial_matches_dom [OF d] by fastforce
  then have "finite (waiting ?i)" by (rule finite_subset) simp
  moreover have "card (waiting ?i) \<le> length ps"
    using card_mono [OF _ wait] card_length [of "map pi_pid ps"] by simp
  ultimately have closed: "closed_under ps ?m" by (rule rounds_closed)
  have dom: "?m pid = None \<longleftrightarrow> ?i pid = None" for pid
    using rounds_grow [of ?i "length ps" ps] by (auto simp: grows_def)
  have tracked: "?m (pi_pid q) \<noteq> None" if "q \<in> set ps" "obj_get configs (pi_uid q) = Some c'" for q c'
    using that by (simp add: dom initial_matches_of [OF d] del: not_None_eq)
  have "\<forall>q \<in> set ps. ?i (pi_pid q) \<noteq> None \<longrightarrow> ?P (pi_ppid q) \<longrightarrow> ?P (pi_pid q)"
    by (auto simp: initial_matches_of [OF d] intro: descends.child)
  moreover have "\<forall>pid. ?i pid = Some True \<longrightarrow> ?P pid"
  proof (intro allI impI)
    fix pid assume i: "?i pid = Some True"
    from initial_matches_dom [OF d i] obtain q c' where "q \<in> set ps" "pi_pid q = pid" "obj_get configs (pi_uid q) = Some c'"
      by blast
    with i show "?P pid" using initial_matches_of [OF d, of q configs] by (auto intro: descends.matches)
  qed
  ultimately have sound: "\<forall>pid. ?m pid = Some True \<longrightarrow> ?P pid" by (rule rounds_sound)
  have complete: "?m pid = Some True" if "?P pid" for pid
    using that
  proof induction
    case (matches q c')
    then have "?i (pi_pid q) = Some True" by (simp add: initial_matches_of [OF d])
    then show ?case using rounds_grow [of ?i "length ps" ps] by (simp add: grows_def)
  next
    case (child q c')
    then show ?case using tracked [of q c'] closed by (cases "?m (pi_pid q)") (auto simp: closed_under_def)
  qed
  show ?thesis
    using tracked [OF p] sound complete by (cases "?m (pi_pid p)") auto
qed

lemma build_tracking_at:
  assumes "distinct (map pi_pid ps)"
  shows "obj_get (fold (\<lambda>p t. case obj_get configs (pi_uid p) of
            None \<Rightarrow> t | Some c \<Rightarrow> obj_insert (pi_pid p) (f p c) t) ps t) pid =
    (case find (\<lambda>p. pi_pid p = pid) ps of
       None \<Rightarrow> obj_get t pid
     | Some p \<Rightarrow> (case obj_get configs (pi_uid p) of None \<Rightarrow> obj_get t pid | Some c \<Rightarrow> Some (f p c)))"
  using assms
proof (induction ps arbitrary: t)
  case (Cons p ps)
  have "find (\<lambda>q. pi_pid q = pi_pid p) ps = None"
    using Cons.prems by (simp add: find_None_iff) (metis image_eqI)
  then show ?case using Cons by (auto split: option.splits)
qed simp

text \<open>C12. The bounded propagation implements descent exactly: with distinct process identifiers, a process is
  tracked if and only if its user has a configuration, it counts as matched if and only if it or an ancestor
  reached through tracked processes matches a configured path, and the exclusion follows the mode. As many rounds as
  there are processes are always enough.\<close>

theorem tracking_is_descent:
  assumes "distinct (map pi_pid ps)"
  shows "obj_get (build_tracking configs ps) pid =
    (case find (\<lambda>p. pi_pid p = pid) ps of
       None \<Rightarrow> None
     | Some p \<Rightarrow> map_option
         (\<lambda>c. \<lparr>tp_uid = pi_uid p, tp_matched = descends configs ps pid,
               tp_excluded = config_excludes c (descends configs ps pid)\<rparr>)
         (obj_get configs (pi_uid p)))"
proof -
  have "inherit_rounds (length ps) ps (initial_matches configs ps) pid = Some (descends configs ps pid)"
    if "find (\<lambda>p. pi_pid p = pid) ps = Some p" "obj_get configs (pi_uid p) = Some c" for p c
    using that rounds_compute_descent [OF assms, of p configs c] by (auto simp: find_Some_iff)
  moreover have "pi_pid p = pid" if "find (\<lambda>p. pi_pid p = pid) ps = Some p" for p
    using that by (auto simp: find_Some_iff)
  ultimately show ?thesis
    unfolding build_tracking_def Let_def build_tracking_at [OF assms] by (auto split: option.splits)
qed

text \<open>A browser, its content process and a process of a user without a configuration.\<close>

definition sample_processes :: "process_info list" where
  "sample_processes =
     [\<lparr>pi_uid = 1000, pi_pid = 11, pi_ppid = 10, pi_identities = [''/usr/lib/firefox/contentproc'']\<rparr>,
      \<lparr>pi_uid = 1000, pi_pid = 10, pi_ppid = 1, pi_identities = [''/usr/bin/firefox'']\<rparr>,
      \<lparr>pi_uid = 0, pi_pid = 1, pi_ppid = 0, pi_identities = [''/sbin/init'']\<rparr>]"

theorem tracking_is_descent_witness:
  "descends [(1000, sample_config)] sample_processes 11"
proof -
  have "distinct (map pi_pid sample_processes)" by code_simp
  moreover have "obj_get (build_tracking [(1000, sample_config)] sample_processes) 11
    = Some \<lparr>tp_uid = 1000, tp_matched = True, tp_excluded = True\<rparr>" by code_simp
  ultimately show ?thesis
    using tracking_is_descent [of sample_processes "[(1000, sample_config)]" 11]
    by (auto split: option.splits)
qed

end
