(* ===== verification/Split_Routing.thy ===== *)
theory Split_Routing
  imports Json Net_Addr Bpf "HOL-Library.Product_Lexorder" "HOL-Library.Option_ord"
begin

text \<open>
  \<^verbatim>\<open>splitd/src/routing.rs\<close>: the policy routes that let marked traffic of a user past the kill switch. The program
  \<^verbatim>\<open>/usr/bin/ip\<close> is an argument: a function from the arguments and the state of the kernel's tables to the new state and the
  error text or the output. The JSON reader of \<open>serde_json\<close> is an argument too.
\<close>

section \<open>Routes\<close>

datatype address_family = Ipv4 | Ipv6

fun family_rank :: "address_family \<Rightarrow> nat" where
  "family_rank Ipv4 = 0"
| "family_rank Ipv6 = 1"

instantiation address_family :: linorder
begin

definition less_eq_address_family :: "address_family \<Rightarrow> address_family \<Rightarrow> bool" where
  "less_eq_address_family a b \<longleftrightarrow> family_rank a \<le> family_rank b"

definition less_address_family :: "address_family \<Rightarrow> address_family \<Rightarrow> bool" where
  "less_address_family a b \<longleftrightarrow> family_rank a < family_rank b"

instance
proof
  fix x y :: address_family
  show "x \<le> y \<Longrightarrow> y \<le> x \<Longrightarrow> x = y"
    by (cases x; cases y) (simp_all add: less_eq_address_family_def)
qed (auto simp: less_eq_address_family_def less_address_family_def)

end

record physical_route =
  pr_family :: address_family
  pr_gateway :: "ip_addr option"
  pr_interface :: string

definition ROUTE_TABLE_BASE :: nat where "ROUTE_TABLE_BASE = 30000"
definition RULE_PRIORITY_BASE :: nat where "RULE_PRIORITY_BASE = 12000"
definition ROUTE_PROTOCOL :: nat where "ROUTE_PROTOCOL = 242"

definition is_proton_interface :: "string \<Rightarrow> bool" where
  "is_proton_interface i \<longleftrightarrow>
     i \<in> {''proton0'', ''pvpnksintrf0'', ''pvpnksintrf1'', ''ipv6leakintrf0'', ''ipv6leakintrf1''}
     \<or> starts_with ''pvpnrouteintrf'' i"

definition interface_char :: "char \<Rightarrow> bool" where
  "interface_char c \<longleftrightarrow> is_ascii_alphanumeric c \<or> c \<in> {CHR ''_'', CHR ''-'', CHR ''.'', CHR '':''}"

definition route_parse :: "string \<Rightarrow> string \<Rightarrow> string \<Rightarrow> string + physical_route" where
  "route_parse family gateway interface =
     rbind (if family = ''ipv4'' then Inr Ipv4 else if family = ''ipv6'' then Inr Ipv6
            else Inl ''route family must be ipv4 or ipv6'') (\<lambda>fam.
     if interface = [] \<or> 15 < length interface \<or> \<not> list_all interface_char interface
     then Inl ''route interface name is invalid''
     else if is_proton_interface interface then Inl ''the bypass route must use a physical interface''
     else
     rbind (if trim gateway = [] then Inr None
            else (case parse_ip gateway of
                    None \<Rightarrow> Inl ''route gateway is not an IP address''
                  | Some a \<Rightarrow> Inr (Some a))) (\<lambda>gw.
     if (case gw of None \<Rightarrow> False | Some a \<Rightarrow> is_v4 a \<noteq> (fam = Ipv4))
     then Inl ''route gateway family does not match''
     else Inr \<lparr>pr_family = fam, pr_gateway = gw, pr_interface = interface\<rparr>))"

definition family_text :: "address_family \<Rightarrow> string" where
  "family_text f = (case f of Ipv4 \<Rightarrow> ''ipv4'' | Ipv6 \<Rightarrow> ''ipv6'')"

definition route_validated :: "physical_route \<Rightarrow> string + physical_route" where
  "route_validated r =
     route_parse (family_text (pr_family r)) (case pr_gateway r of None \<Rightarrow> [] | Some a \<Rightarrow> show_ip a)
       (pr_interface r)"

text \<open>The derived order: family, gateway (none first, then IPv4 before IPv6), interface.\<close>

definition addr_key :: "ip_addr \<Rightarrow> nat \<times> nat list" where
  "addr_key a = (case a of V4 bs \<Rightarrow> (0, bs) | V6 gs \<Rightarrow> (1, gs))"

definition route_key :: "physical_route \<Rightarrow> nat \<times> (nat \<times> nat list) option \<times> string" where
  "route_key r = (family_rank (pr_family r), map_option addr_key (pr_gateway r), pr_interface r)"

definition preferred_routes :: "physical_route list \<Rightarrow> physical_route list" where
  "preferred_routes rs =
     (let unique = sort_key route_key (remdups rs) in
      List.map_filter (\<lambda>f. find (\<lambda>r. pr_family r = f) unique) [Ipv4, Ipv6])"

definition route_families :: "physical_route list \<Rightarrow> address_family list" where
  "route_families rs = sort (remdups (map pr_family rs))"

section \<open>Commands\<close>

record route_command =
  rc_add :: "string list"
  rc_delete :: "string list"

record rule_spec =
  rs_family :: string
  rs_table :: string
  rs_add_rule :: "string list"
  rs_delete_rule :: "string list"

definition rule_spec_of :: "u16 \<Rightarrow> address_family \<Rightarrow> rule_spec" where
  "rule_spec_of uid f =
     (let family = (case f of Ipv4 \<Rightarrow> ''-4'' | Ipv6 \<Rightarrow> ''-6'');
          table = dec (ROUTE_TABLE_BASE + unat uid);
          priority = dec (RULE_PRIORITY_BASE + unat uid);
          mark = ''0x'' @ hex 0 (unat FWMARK_VALUE) @ ''/0xffffffff'';
          range = dec (unat uid) @ ''-'' @ dec (unat uid);
          tail = [''priority'', priority, ''fwmark'', mark, ''uidrange'', range, ''lookup'', table] in
      \<lparr>rs_family = family, rs_table = table,
       rs_add_rule = [family, ''rule'', ''add''] @ tail, rs_delete_rule = [family, ''rule'', ''delete''] @ tail\<rparr>)"

definition route_command_of :: "string \<Rightarrow> string \<Rightarrow> string list \<Rightarrow> string \<Rightarrow> route_command" where
  "route_command_of family table route protocol =
     (let build = (\<lambda>verb. [family, ''route'', verb, ''table'', table] @ route @ [''proto'', protocol]) in
      \<lparr>rc_add = build ''add'', rc_delete = build ''delete''\<rparr>)"

definition route_commands :: "u16 \<Rightarrow> physical_route \<Rightarrow> route_command list" where
  "route_commands uid r =
     (let spec = rule_spec_of uid (pr_family r); protocol = dec ROUTE_PROTOCOL;
          cmd = (\<lambda>route. route_command_of (rs_family spec) (rs_table spec) route protocol) in
      case pr_gateway r of
        Some g \<Rightarrow>
          [cmd [show_ip g @ ''/'' @ dec (if is_v4 g then 32 else 128), ''dev'', pr_interface r, ''scope'', ''link''],
           cmd [''default'', ''via'', show_ip g, ''dev'', pr_interface r]]
      | None \<Rightarrow> [cmd [''default'', ''dev'', pr_interface r]])"

section \<open>Running them\<close>

record 'k ip_tools =
  it_ip :: "string list \<Rightarrow> 'k \<Rightarrow> 'k \<times> (string + string)"
  it_json :: "string \<Rightarrow> json list option"

type_synonym ('k, 'a) ip_action = "'k \<Rightarrow> 'k \<times> (string + 'a)"

definition command_state_absent :: "string \<Rightarrow> bool" where
  "command_state_absent e \<longleftrightarrow>
     (let v = to_ascii_lowercase e in contains ''no such file'' v \<or> contains ''no such process'' v)"

definition routing_table_absent :: "string \<Rightarrow> bool" where
  "routing_table_absent e \<longleftrightarrow> contains ''fib table does not exist'' (to_ascii_lowercase e)"

text \<open>Commands in sequence; \<open>tolerant\<close> commands may fail because their object is absent.\<close>

fun run_all :: "'k ip_tools \<Rightarrow> (string \<Rightarrow> bool) \<Rightarrow> string list list \<Rightarrow> ('k, unit) ip_action" where
  "run_all t tolerated [] k = (k, Inr ())"
| "run_all t tolerated (c # cs) k =
     (case it_ip t c k of
        (k', Inr _) \<Rightarrow> run_all t tolerated cs k'
      | (k', Inl e) \<Rightarrow> if tolerated e then run_all t tolerated cs k' else (k', Inl e))"

definition disable_commands :: "u16 \<Rightarrow> physical_route list \<Rightarrow> string list list" where
  "disable_commands uid rs =
     map (\<lambda>f. rs_delete_rule (rule_spec_of uid f)) (route_families rs)
     @ concat (map (\<lambda>r. map rc_delete (rev (route_commands uid r))) (rev rs))"

definition routing_disable :: "'k ip_tools \<Rightarrow> u16 \<Rightarrow> physical_route list \<Rightarrow> ('k, unit) ip_action" where
  "routing_disable t uid rs = run_all t command_state_absent (disable_commands uid rs)"

text \<open>\<open>install_route\<close>: on a failure the commands already run are undone, ignoring failures.\<close>

fun undo_all :: "'k ip_tools \<Rightarrow> string list list \<Rightarrow> 'k \<Rightarrow> 'k" where
  "undo_all t [] k = k"
| "undo_all t (c # cs) k = undo_all t cs (fst (it_ip t c k))"

fun install_commands :: "'k ip_tools \<Rightarrow> route_command list \<Rightarrow> string list list \<Rightarrow> ('k, unit) ip_action" where
  "install_commands t [] installed k = (k, Inr ())"
| "install_commands t (c # cs) installed k =
     (case it_ip t (rc_add c) k of
        (k', Inl e) \<Rightarrow> (undo_all t installed k', Inl e)
      | (k', Inr _) \<Rightarrow> install_commands t cs (rc_delete c # installed) k')"

definition install_route :: "'k ip_tools \<Rightarrow> u16 \<Rightarrow> physical_route \<Rightarrow> ('k, unit) ip_action" where
  "install_route t uid r = install_commands t (route_commands uid r) []"

section \<open>Inventories\<close>

definition inventory :: "'k ip_tools \<Rightarrow> string \<Rightarrow> string + json list" where
  "inventory t v = ok_or ''ip returned an invalid JSON inventory'' (it_json t v)"

definition inventory_len :: "'k ip_tools \<Rightarrow> string \<Rightarrow> string + nat" where
  "inventory_len t v = rbind (inventory t v) (\<lambda>items. Inr (length items))"

definition inventory_is_empty :: "'k ip_tools \<Rightarrow> string \<Rightarrow> string + bool" where
  "inventory_is_empty t v = rbind (inventory_len t v) (\<lambda>n. Inr (n = 0))"

definition is_route_protocol :: "json \<Rightarrow> bool" where
  "is_route_protocol p \<longleftrightarrow>
     as_u64 p = Some (of_nat ROUTE_PROTOCOL)
     \<or> (case as_str p of
          None \<Rightarrow> False
        | Some s \<Rightarrow> (case s of [] \<Rightarrow> False | _ \<Rightarrow>
            (let d = (if hd s = CHR ''+'' then tl s else s) in
             d \<noteq> [] \<and> list_all is_ascii_digit d \<and> undigits 8 d = ROUTE_PROTOCOL)))"

definition route_inventory_is_owned :: "'k ip_tools \<Rightarrow> string \<Rightarrow> nat \<Rightarrow> string + bool" where
  "route_inventory_is_owned t v expected =
     rbind (inventory t v) (\<lambda>routes.
       Inr (length routes = expected
            \<and> list_all (\<lambda>r. case vget r ''protocol'' of None \<Rightarrow> False | Some p \<Rightarrow> is_route_protocol p) routes))"

definition route_inventory :: "'k ip_tools \<Rightarrow> string \<Rightarrow> string \<Rightarrow> ('k, string) ip_action" where
  "route_inventory t family table k =
     (case it_ip t [family, ''-json'', ''route'', ''show'', ''table'', table] k of
        (k', Inr v) \<Rightarrow> (k', Inr v)
      | (k', Inl e) \<Rightarrow> if routing_table_absent e then (k', Inr ''[]'') else (k', Inl e))"

definition show_rules :: "u16 \<Rightarrow> string \<Rightarrow> string list" where
  "show_rules uid family =
     [family, ''-json'', ''rule'', ''show'', ''priority'', dec (RULE_PRIORITY_BASE + unat uid)]"

definition collision :: "u16 \<Rightarrow> string" where
  "collision uid = ''routing table or rule priority collision for UID '' @ dec (unat uid)
     @ ''; no routes were changed''"

definition ownership_changed :: "u16 \<Rightarrow> string" where
  "ownership_changed uid = ''routing ownership changed while configuring UID '' @ dec (unat uid)"

definition ensure_family_available :: "'k ip_tools \<Rightarrow> u16 \<Rightarrow> address_family \<Rightarrow> ('k, unit) ip_action" where
  "ensure_family_available t uid f k =
     (let spec = rule_spec_of uid f in
      case route_inventory t (rs_family spec) (rs_table spec) k of
        (k1, Inl e) \<Rightarrow> (k1, Inl e)
      | (k1, Inr routes) \<Rightarrow>
          (case it_ip t (show_rules uid (rs_family spec)) k1 of
             (k2, Inl e) \<Rightarrow> (k2, Inl e)
           | (k2, Inr rules) \<Rightarrow>
               (k2, rbind (inventory_is_empty t routes) (\<lambda>e1.
                    if \<not> e1 then Inl (collision uid)
                    else rbind (inventory_is_empty t rules) (\<lambda>e2.
                    if \<not> e2 then Inl (collision uid)
                    else Inr ())))))"

definition verify_family_ownership ::
  "'k ip_tools \<Rightarrow> u16 \<Rightarrow> address_family \<Rightarrow> physical_route list \<Rightarrow> ('k, unit) ip_action" where
  "verify_family_ownership t uid f routes k =
     (let spec = rule_spec_of uid f in
      case route_inventory t (rs_family spec) (rs_table spec) k of
        (k1, Inl e) \<Rightarrow> (k1, Inl e)
      | (k1, Inr listing) \<Rightarrow>
          (case it_ip t (show_rules uid (rs_family spec)) k1 of
             (k2, Inl e) \<Rightarrow> (k2, Inl e)
           | (k2, Inr rules) \<Rightarrow>
               (let expected = sum_list (map (\<lambda>r. length (route_commands uid r))
                                  (filter (\<lambda>r. pr_family r = f) routes)) in
                (k2, rbind (route_inventory_is_owned t listing expected) (\<lambda>owned.
                     if \<not> owned then Inl (ownership_changed uid)
                     else rbind (inventory_len t rules) (\<lambda>n.
                     if n \<noteq> 1 then Inl (ownership_changed uid) else Inr ()))))))"

section \<open>Enabling\<close>

text \<open>Actions over a list, stopping at the first error.\<close>

fun each :: "('a \<Rightarrow> ('k, unit) ip_action) \<Rightarrow> 'a list \<Rightarrow> ('k, unit) ip_action" where
  "each f [] k = (k, Inr ())"
| "each f (x # xs) k = (case f x k of (k', Inl e) \<Rightarrow> (k', Inl e) | (k', Inr _) \<Rightarrow> each f xs k')"

text \<open>\<open>if let Err(error) = .. { let _ = disable(uid, &routes); return Err(error); }\<close>\<close>

definition or_disable :: "'k ip_tools \<Rightarrow> u16 \<Rightarrow> physical_route list \<Rightarrow> 'k \<times> (string + unit) \<Rightarrow> 'k \<times> (string + unit)" where
  "or_disable t uid rs r =
     (case r of (k, Inl e) \<Rightarrow> (fst (routing_disable t uid rs k), Inl e) | (k, Inr u) \<Rightarrow> (k, Inr u))"

definition add_rule :: "'k ip_tools \<Rightarrow> u16 \<Rightarrow> address_family \<Rightarrow> ('k, unit) ip_action" where
  "add_rule t uid f k =
     (case it_ip t (rs_add_rule (rule_spec_of uid f)) k of (k', Inl e) \<Rightarrow> (k', Inl e) | (k', Inr _) \<Rightarrow> (k', Inr ()))"

definition install_all :: "'k ip_tools \<Rightarrow> u16 \<Rightarrow> physical_route list \<Rightarrow> ('k, unit) ip_action" where
  "install_all t uid routes k =
     (case each (install_route t uid) routes k of
        (k1, Inl e) \<Rightarrow> (k1, Inl e)
      | (k1, Inr _) \<Rightarrow>
          (case each (add_rule t uid) (route_families routes) k1 of
             (k2, Inl e) \<Rightarrow> (k2, Inl e)
           | (k2, Inr _) \<Rightarrow> each (\<lambda>f. verify_family_ownership t uid f routes) (route_families routes) k2))"

definition routing_enable :: "'k ip_tools \<Rightarrow> u16 \<Rightarrow> physical_route list \<Rightarrow> ('k, physical_route list) ip_action" where
  "routing_enable t uid requested k =
     (let routes = preferred_routes requested in
      if routes = [] then (k, Inl ''no physical default route is available for split tunneling'')
      else
      case each (ensure_family_available t uid) (route_families routes) k of
        (k1, Inl e) \<Rightarrow> (k1, Inl e)
      | (k1, Inr _) \<Rightarrow>
          (case or_disable t uid routes (install_all t uid routes k1) of
             (k2, Inl e) \<Rightarrow> (k2, Inl e)
           | (k2, Inr _) \<Rightarrow> (k2, Inr routes)))"

section \<open>What the code relies on of the tool\<close>

text \<open>The object a command adds or deletes: the command without its verb. \<open>objects\<close> is the set of rules and routes
  in the kernel. Adding creates an object that was absent or fails without an effect, deleting an absent object fails
  with one of the two messages the code knows, and showing changes nothing.\<close>

definition is_cmd :: "string \<Rightarrow> string list \<Rightarrow> bool" where
  "is_cmd verb c \<longleftrightarrow> 3 \<le> length c \<and> c ! 1 \<in> {''rule'', ''route''} \<and> c ! 2 = verb"

definition object_of :: "string list \<Rightarrow> string list" where
  "object_of c = take 2 c @ drop 3 c"

definition ip_documented :: "'k ip_tools \<Rightarrow> ('k \<Rightarrow> string list set) \<Rightarrow> bool" where
  "ip_documented t objects \<longleftrightarrow>
     (\<forall>c k. is_cmd ''add'' c \<longrightarrow>
        (case it_ip t c k of
           (k', Inr _) \<Rightarrow> object_of c \<notin> objects k \<and> objects k' = insert (object_of c) (objects k)
         | (k', Inl _) \<Rightarrow> objects k' = objects k))
     \<and> (\<forall>c k. is_cmd ''delete'' c \<longrightarrow> object_of c \<notin> objects k \<longrightarrow>
        (case it_ip t c k of (k', Inr _) \<Rightarrow> False | (k', Inl e) \<Rightarrow> command_state_absent e \<and> objects k' = objects k))
     \<and> (\<forall>c k. 2 \<le> length c \<longrightarrow> c ! 1 = ''-json'' \<longrightarrow> objects (fst (it_ip t c k)) = objects k)"

text \<open>The clean-up commands themselves do not fail on objects that are there.\<close>

definition ip_deletes :: "'k ip_tools \<Rightarrow> ('k \<Rightarrow> string list set) \<Rightarrow> bool" where
  "ip_deletes t objects \<longleftrightarrow>
     (\<forall>c k. is_cmd ''delete'' c \<longrightarrow> object_of c \<in> objects k \<longrightarrow>
        (case it_ip t c k of (k', Inr _) \<Rightarrow> objects k' = objects k - {object_of c} | (k', Inl _) \<Rightarrow> False))"

definition rule_objects :: "u16 \<Rightarrow> physical_route list \<Rightarrow> string list set" where
  "rule_objects uid rs = (\<lambda>f. object_of (rs_add_rule (rule_spec_of uid f))) ` set (route_families rs)"

definition route_objects :: "u16 \<Rightarrow> physical_route \<Rightarrow> string list set" where
  "route_objects uid r = (\<lambda>c. object_of (rc_add c)) ` set (route_commands uid r)"

definition owned_objects :: "u16 \<Rightarrow> physical_route list \<Rightarrow> string list set" where
  "owned_objects uid rs = rule_objects uid rs \<union> (\<Union>r \<in> set rs. route_objects uid r)"

section \<open>Commands and objects\<close>

lemma rule_cmds:
  "is_cmd ''add'' (rs_add_rule (rule_spec_of uid f))" "is_cmd ''delete'' (rs_delete_rule (rule_spec_of uid f))"
  "object_of (rs_delete_rule (rule_spec_of uid f)) = object_of (rs_add_rule (rule_spec_of uid f))"
  by (simp_all add: rule_spec_of_def is_cmd_def object_of_def Let_def)

lemma route_cmds:
  assumes "c \<in> set (route_commands uid r)"
  shows "is_cmd ''add'' (rc_add c)" "is_cmd ''delete'' (rc_delete c)" "object_of (rc_delete c) = object_of (rc_add c)"
  using assms
  by (auto simp: route_commands_def route_command_of_def is_cmd_def object_of_def Let_def split: option.splits)

lemma disable_cmds: "c \<in> set (disable_commands uid rs) \<Longrightarrow> is_cmd ''delete'' c"
  by (auto simp: disable_commands_def rule_cmds dest: route_cmds)

lemma disable_objects: "object_of ` set (disable_commands uid rs) = owned_objects uid rs"
proof -
  have "object_of ` (rc_delete ` set (route_commands uid r)) = route_objects uid r" for r
    by (auto simp: route_objects_def route_cmds image_image intro!: image_cong)
  then show ?thesis
    by (simp add: disable_commands_def owned_objects_def rule_objects_def image_Un image_UN image_image rule_cmds)
qed

lemma add_step:
  assumes "ip_documented t objects" "is_cmd ''add'' c" "it_ip t c k = (k', r)"
  shows "objects k' = (case r of Inl _ \<Rightarrow> objects k | Inr _ \<Rightarrow> insert (object_of c) (objects k))"
proof -
  from assms(1,2) have "case it_ip t c k of
      (k', Inr _) \<Rightarrow> object_of c \<notin> objects k \<and> objects k' = insert (object_of c) (objects k)
    | (k', Inl _) \<Rightarrow> objects k' = objects k" by (simp add: ip_documented_def)
  then show ?thesis using assms(3) by (simp split: sum.splits)
qed

lemma delete_step:
  assumes "ip_documented t objects" "ip_deletes t objects" "is_cmd ''delete'' c" "it_ip t c k = (k', r)"
  shows "objects k' = objects k - {object_of c}" "r = Inl e \<Longrightarrow> command_state_absent e"
proof -
  have "objects k' = objects k - {object_of c} \<and> (\<forall>e. r = Inl e \<longrightarrow> command_state_absent e)"
  proof (cases "object_of c \<in> objects k")
    case True
    then have "case it_ip t c k of (k', Inr _) \<Rightarrow> objects k' = objects k - {object_of c} | (k', Inl _) \<Rightarrow> False"
      using assms(2,3) by (simp add: ip_deletes_def)
    then show ?thesis using assms(4) by (simp split: sum.splits)
  next
    case False
    then have "case it_ip t c k of (k', Inr _) \<Rightarrow> False | (k', Inl e) \<Rightarrow> command_state_absent e \<and> objects k' = objects k"
      using assms(1,3) by (simp add: ip_documented_def)
    then show ?thesis using assms(4) False by (simp split: sum.splits)
  qed
  then show "objects k' = objects k - {object_of c}" "r = Inl e \<Longrightarrow> command_state_absent e" by auto
qed

lemma run_all_deletes:
  assumes "ip_documented t objects" "ip_deletes t objects" "\<forall>c \<in> set cs. is_cmd ''delete'' c"
  shows "\<exists>k'. run_all t command_state_absent cs k = (k', Inr ()) \<and> objects k' = objects k - object_of ` set cs"
  using assms(3)
proof (induction cs arbitrary: k)
  case (Cons c cs)
  obtain k1 r where c: "it_ip t c k = (k1, r)" by force
  note step = delete_step [OF assms(1,2) _ c]
  from Cons obtain k' where "run_all t command_state_absent cs k1 = (k', Inr ())" "objects k' = objects k1 - object_of ` set cs"
    by force
  then show ?case using c step Cons.prems by (cases r) auto
qed simp

lemma disable_removes_owned:
  assumes "ip_documented t objects" "ip_deletes t objects"
  shows "\<exists>k'. routing_disable t uid rs k = (k', Inr ()) \<and> objects k' = objects k - owned_objects uid rs"
  using run_all_deletes [OF assms, of "disable_commands uid rs"] disable_cmds
  by (simp add: routing_disable_def disable_objects)

lemma undo_all_deletes:
  assumes "ip_documented t objects" "ip_deletes t objects" "\<forall>c \<in> set cs. is_cmd ''delete'' c"
  shows "objects (undo_all t cs k) = objects k - object_of ` set cs"
  using assms(3)
proof (induction cs arbitrary: k)
  case (Cons c cs)
  then show ?case using delete_step(1) [OF assms(1,2), of c k "fst (it_ip t c k)" "snd (it_ip t c k)"] by auto
qed simp

text \<open>While routes are being installed the kernel has all foreign objects and possibly some owned ones.\<close>

definition foreign_kept :: "string list set \<Rightarrow> string list set \<Rightarrow> string list set \<Rightarrow> bool" where
  "foreign_kept own V V' \<longleftrightarrow> V - own \<subseteq> V' \<and> V' \<subseteq> V \<union> own"

lemma foreign_kept_refl [simp]: "foreign_kept own V V"
  by (auto simp: foreign_kept_def)

lemma foreign_kept_trans: "foreign_kept own V V' \<Longrightarrow> foreign_kept own V' V'' \<Longrightarrow> foreign_kept own V V''"
  by (auto simp: foreign_kept_def)

lemma install_commands_objects:
  assumes "ip_documented t objects" "ip_deletes t objects"
    and "\<forall>c \<in> set cs. is_cmd ''add'' (rc_add c) \<and> is_cmd ''delete'' (rc_delete c) \<and> object_of (rc_delete c) = object_of (rc_add c)
           \<and> object_of (rc_add c) \<in> own"
    and "\<forall>c \<in> set installed. is_cmd ''delete'' c \<and> object_of c \<in> own"
    and "install_commands t cs installed k = (k', r)"
  shows "foreign_kept own (objects k) (objects k')
    \<and> (r = Inr () \<longrightarrow> objects k' = objects k \<union> (\<lambda>c. object_of (rc_add c)) ` set cs)"
  using assms(3-5)
proof (induction cs arbitrary: installed k)
  case (Cons c cs)
  obtain k1 r1 where c: "it_ip t (rc_add c) k = (k1, r1)" by force
  note add = add_step [OF assms(1) _ c]
  show ?case
  proof (cases r1)
    case (Inl e)
    then have "k' = undo_all t installed k1" "r = Inl e" using Cons.prems(3) c by auto
    then show ?thesis
      using undo_all_deletes [OF assms(1,2), of installed k1] Cons.prems(1,2) add Inl
      by (auto simp: foreign_kept_def)
  next
    case (Inr out)
    then have run: "install_commands t cs (rc_delete c # installed) k1 = (k', r)" using Cons.prems(3) c by simp
    have k1: "objects k1 = insert (object_of (rc_add c)) (objects k)" using add Inr Cons.prems(1) by simp
    have "foreign_kept own (objects k) (objects k1)" using k1 Cons.prems(1) by (auto simp: foreign_kept_def)
    moreover have "foreign_kept own (objects k1) (objects k')
        \<and> (r = Inr () \<longrightarrow> objects k' = objects k1 \<union> (\<lambda>c. object_of (rc_add c)) ` set cs)"
      using run Cons.prems(1,2) by (intro Cons.IH [of "rc_delete c # installed"]) auto
    ultimately show ?thesis using k1 by (auto intro: foreign_kept_trans)
  qed
qed simp

lemma each_objects:
  assumes "\<And>x k k' r. x \<in> set xs \<Longrightarrow> f x k = (k', r) \<Longrightarrow>
      foreign_kept own (objects k) (objects k') \<and> (r = Inr () \<longrightarrow> objects k' = objects k \<union> A x)"
    and "each f xs k = (k', r)"
  shows "foreign_kept own (objects k) (objects k') \<and> (r = Inr () \<longrightarrow> objects k' = objects k \<union> (\<Union>x \<in> set xs. A x))"
  using assms
proof (induction xs arbitrary: k)
  case (Cons x xs)
  obtain k1 r1 where c: "f x k = (k1, r1)" by force
  have one: "foreign_kept own (objects k) (objects k1) \<and> (r1 = Inr () \<longrightarrow> objects k1 = objects k \<union> A x)"
    using Cons.prems(1) c by auto
  show ?case
  proof (cases r1)
    case (Inl e)
    then show ?thesis using one Cons.prems(2) c by auto
  next
    case (Inr u)
    have "each f xs k1 = (k', r)" using Cons.prems(2) c Inr by simp
    then have "foreign_kept own (objects k1) (objects k')
        \<and> (r = Inr () \<longrightarrow> objects k' = objects k1 \<union> (\<Union>x \<in> set xs. A x))"
      using Cons.prems(1) by (intro Cons.IH) auto
    then show ?thesis using one Inr by (auto intro: foreign_kept_trans)
  qed
qed simp

text \<open>Reading the tables changes nothing.\<close>

lemma show_step:
  assumes "ip_documented t objects" "it_ip t (fam # ''-json'' # c) k = (k', r)"
  shows "objects k' = objects k"
proof -
  have "objects (fst (it_ip t (fam # ''-json'' # c) k)) = objects k"
    using assms(1) by (auto simp: ip_documented_def)
  then show ?thesis using assms(2) by simp
qed

lemma route_inventory_objects:
  assumes "ip_documented t objects" "route_inventory t fam table k = (k', r)"
  shows "objects k' = objects k"
  using assms(2) show_step [OF assms(1)]
  by (auto simp: route_inventory_def split: prod.splits sum.splits if_splits)

lemma ensure_objects:
  assumes "ip_documented t objects" "ensure_family_available t uid f k = (k', r)"
  shows "objects k' = objects k"
  using assms(2) route_inventory_objects [OF assms(1)] show_step [OF assms(1)]
  by (fastforce simp: ensure_family_available_def show_rules_def Let_def split: prod.splits sum.splits)

lemma verify_objects:
  assumes "ip_documented t objects" "verify_family_ownership t uid f rs k = (k', r)"
  shows "objects k' = objects k"
  using assms(2) route_inventory_objects [OF assms(1)] show_step [OF assms(1)]
  by (fastforce simp: verify_family_ownership_def show_rules_def Let_def split: prod.splits sum.splits)

lemma add_rule_objects:
  assumes "ip_documented t objects" "add_rule t uid f k = (k', r)"
    and "object_of (rs_add_rule (rule_spec_of uid f)) \<in> own"
  shows "foreign_kept own (objects k) (objects k')
    \<and> (r = Inr () \<longrightarrow> objects k' = objects k \<union> {object_of (rs_add_rule (rule_spec_of uid f))})"
proof -
  obtain k1 r1 where c: "it_ip t (rs_add_rule (rule_spec_of uid f)) k = (k1, r1)" by force
  from add_step [OF assms(1) rule_cmds(1) c] show ?thesis
    using assms(2,3) c by (auto simp: add_rule_def foreign_kept_def split: sum.splits)
qed

lemma install_all_objects:
  assumes doc: "ip_documented t objects" "ip_deletes t objects" and run: "install_all t uid rs k = (k', r)"
  shows "foreign_kept (owned_objects uid rs) (objects k) (objects k')
    \<and> (r = Inr () \<longrightarrow> objects k' = objects k \<union> owned_objects uid rs)"
proof -
  let ?own = "owned_objects uid rs"
  have route: "foreign_kept ?own (objects k) (objects k') \<and> (r = Inr () \<longrightarrow> objects k' = objects k \<union> route_objects uid x)"
    if "x \<in> set rs" "install_route t uid x k = (k', r)" for x k k' r
    using install_commands_objects [OF doc, of "route_commands uid x" ?own "[]" k k' r] that route_cmds
    by (auto simp: install_route_def route_objects_def owned_objects_def)
  have rule: "foreign_kept ?own (objects k) (objects k')
      \<and> (r = Inr () \<longrightarrow> objects k' = objects k \<union> {object_of (rs_add_rule (rule_spec_of uid f))})"
    if "f \<in> set (route_families rs)" "add_rule t uid f k = (k', r)" for f k k' r
    using that(1) by (intro add_rule_objects [OF doc(1) that(2)]) (simp add: owned_objects_def rule_objects_def)
  obtain k1 r1 where s1: "each (install_route t uid) rs k = (k1, r1)" by force
  have a1: "foreign_kept ?own (objects k) (objects k1)
      \<and> (r1 = Inr () \<longrightarrow> objects k1 = objects k \<union> (\<Union>x \<in> set rs. route_objects uid x))"
    by (rule each_objects [OF route s1])
  show ?thesis
  proof (cases r1)
    case (Inl e)
    then show ?thesis using a1 run s1 by (auto simp: install_all_def)
  next
    case r1: (Inr u)
    obtain k2 r2 where s2: "each (add_rule t uid) (route_families rs) k1 = (k2, r2)" by force
    have a2: "foreign_kept ?own (objects k1) (objects k2)
        \<and> (r2 = Inr () \<longrightarrow> objects k2 = objects k1
             \<union> (\<Union>f \<in> set (route_families rs). {object_of (rs_add_rule (rule_spec_of uid f))}))"
      by (rule each_objects [OF rule s2])
    have k2: "foreign_kept ?own (objects k) (objects k2)" using a1 a2 by (blast intro: foreign_kept_trans)
    show ?thesis
    proof (cases r2)
      case (Inl e)
      then show ?thesis using k2 run s1 s2 r1 by (auto simp: install_all_def)
    next
      case (Inr u')
      then have s3: "each (\<lambda>f. verify_family_ownership t uid f rs) (route_families rs) k2 = (k', r)"
        using run s1 s2 r1 by (simp add: install_all_def)
      have a3: "foreign_kept ?own (objects k2) (objects k') \<and> (r = Inr () \<longrightarrow> objects k' = objects k2 \<union> (\<Union>x \<in> set (route_families rs). {}))"
        using verify_objects [OF doc(1)] by (intro each_objects [OF _ s3]) auto
      have "objects k2 = objects k \<union> ?own"
        using a1 a2 r1 Inr by (auto simp: owned_objects_def rule_objects_def)
      then show ?thesis using a3 k2 by (auto intro: foreign_kept_trans)
    qed
  qed
qed


text \<open>A kernel that is the list of its objects; showing prints one character per object of the family and kind.\<close>

definition sample_ip :: "string list list ip_tools" where
  "sample_ip =
     \<lparr>it_ip = (\<lambda>c k.
        if is_cmd ''add'' c
        then (if object_of c \<in> set k then (k, Inl ''RTNETLINK answers: File exists'') else (object_of c # k, Inr []))
        else if is_cmd ''delete'' c
        then (if object_of c \<in> set k then (removeAll (object_of c) k, Inr [])
              else (k, Inl ''RTNETLINK answers: No such process''))
        else (k, Inr (map (\<lambda>_. CHR ''x'') (filter (\<lambda>ob. hd ob = hd c \<and> ob ! 1 = c ! 2) k)))),
      it_json = (\<lambda>s. Some (map (\<lambda>_. jobj [(''protocol'', jnum 242)]) s))\<rparr>"

lemma sample_ip_documented: "ip_documented sample_ip set" "ip_deletes sample_ip set"
proof -
  have absent: "command_state_absent ''RTNETLINK answers: No such process''" by code_simp
  have "\<not> is_cmd ''add'' c" "\<not> is_cmd ''delete'' c" if "c ! 1 = ''-json''" for c
    using that by (simp_all add: is_cmd_def)
  moreover have "is_cmd ''delete'' c \<Longrightarrow> \<not> is_cmd ''add'' c" for c by (auto simp: is_cmd_def)
  ultimately show "ip_documented sample_ip set" "ip_deletes sample_ip set"
    by (auto simp: ip_documented_def ip_deletes_def sample_ip_def absent)
qed

definition sample_routes :: "physical_route list" where
  "sample_routes = [\<lparr>pr_family = Ipv4, pr_gateway = Some (V4 [192, 0, 2, 1]), pr_interface = ''wlan0''\<rparr>]"


end
