(* ===== verification/Split_Store.thy ===== *)
theory Split_Store
  imports Split_Model Split_Routing Atomic_File
begin

text \<open>
  \<^verbatim>\<open>splitd/src/store.rs\<close>: the state file of the daemon. Reading validates everything again and refuses the whole
  file on the first problem; writing is \<open>replace_state\<close> of \<open>Atomic_File\<close>. \<open>serde_json\<close>'s encoding and decoding are
  arguments.
\<close>

section \<open>State and file\<close>

definition SCHEMA_VERSION :: u32 where "SCHEMA_VERSION = 2"
definition MAX_STATE_BYTES :: nat where "MAX_STATE_BYTES = 2 * 1024 * 1024"

type_synonym bypass_map = "(u16 \<times> physical_route list) list"

record loaded_state =
  ld_configs :: config_map
  ld_policies :: policy_map
  ld_bypass :: bypass_map

record stored_state = loaded_state +
  sd_version :: u32

record state_codec =
  sk_encode :: "stored_state \<Rightarrow> string"
  sk_decode :: "string \<Rightarrow> stored_state option"

text \<open>The store has a path, or none for the ephemeral engine of the self test.\<close>

record state_store =
  ss_path :: "string option"
  ss_dir :: string
  ss_tmp :: string
  ss_codec :: state_codec

definition empty_state :: loaded_state where
  "empty_state = \<lparr>ld_configs = [], ld_policies = [], ld_bypass = []\<rparr>"

section \<open>Reading\<close>

definition load_config :: "ipnet_crate \<Rightarrow> u16 \<times> split_config \<Rightarrow> string + u16 \<times> split_config" where
  "load_config cr e =
     (case config_validate cr (snd e) of
        Inl m \<Rightarrow> Inl (''UID '' @ dec (unat (fst e)) @ '': '' @ m)
      | Inr c \<Rightarrow> Inr (fst e, c))"

definition load_policy :: "ipnet_crate \<Rightarrow> u16 \<times> string list \<Rightarrow> string + u16 \<times> string list" where
  "load_policy cr e =
     (case validate_ip_ranges cr (snd e) of
        Inl m \<Rightarrow> Inl (''UID '' @ dec (unat (fst e)) @ '' policy: '' @ m)
      | Inr rs \<Rightarrow> Inr (fst e, rs))"

definition load_bypass :: "config_map \<Rightarrow> u16 \<times> physical_route list \<Rightarrow> string + u16 \<times> physical_route list" where
  "load_bypass configs e =
     (case e of (uid, routes) \<Rightarrow>
      if routes = [] \<or> 2 < length routes
      then Inl (''UID '' @ dec (unat uid) @ '' has an invalid bypass-route count'')
      else if \<not> (case obj_get configs uid of None \<Rightarrow> False | Some c \<Rightarrow> has_rules c)
      then Inl (''UID '' @ dec (unat uid) @ '' has bypass routes without a split policy'')
      else rbind (traverse route_validated routes) (\<lambda>rs.
      if card (pr_family ` set rs) \<noteq> length rs
      then Inl (''UID '' @ dec (unat uid) @ '' has duplicate bypass-route families'')
      else Inr (uid, rs)))"

definition check_state :: "ipnet_crate \<Rightarrow> stored_state \<Rightarrow> string + loaded_state" where
  "check_state cr st =
     (if sd_version st \<notin> {1, SCHEMA_VERSION} then Inl (''unsupported schema version '' @ dec (unat (sd_version st)))
      else if MAX_CONFIGS < max (length (ld_configs st)) (length (ld_policies st))
      then Inl ''too many configured users''
      else
      rbind (traverse (load_config cr) (ld_configs st)) (\<lambda>configs.
      rbind (traverse (load_policy cr) (ld_policies st)) (\<lambda>policies.
      rbind (traverse (load_bypass configs) (ld_bypass st)) (\<lambda>bypass.
      Inr \<lparr>ld_configs = configs, ld_policies = policies, ld_bypass = bypass\<rparr>))))"

text \<open>A missing file is the empty state; an unreadable one is an error (\<open>readable\<close>).\<close>

definition state_load :: "ipnet_crate \<Rightarrow> state_store \<Rightarrow> bool \<Rightarrow> world \<Rightarrow> string + loaded_state" where
  "state_load cr st readable w =
     (case ss_path st of
        None \<Rightarrow> Inr empty_state
      | Some path \<Rightarrow>
          (case content w path of
             None \<Rightarrow> Inr empty_state
           | Some bytes \<Rightarrow>
               if \<not> readable then Inl ''unable to open state''
               else if MAX_STATE_BYTES < length bytes then Inl ''state file exceeds the 2 MiB limit''
               else case sk_decode (ss_codec st) bytes of
                   None \<Rightarrow> Inl ''invalid JSON''
                 | Some stored \<Rightarrow> check_state cr stored))"

section \<open>Writing\<close>

definition stored_of :: "config_map \<Rightarrow> policy_map \<Rightarrow> bypass_map \<Rightarrow> stored_state" where
  "stored_of configs policies bypass =
     \<lparr>ld_configs = configs, ld_policies = policies, ld_bypass = bypass, sd_version = SCHEMA_VERSION\<rparr>"

definition state_save ::
  "state_store \<Rightarrow> config_map \<Rightarrow> policy_map \<Rightarrow> bypass_map \<Rightarrow> world \<Rightarrow> world \<times> bool" where
  "state_save st configs policies bypass w =
     (case ss_path st of
        None \<Rightarrow> (w, True)
      | Some path \<Rightarrow>
          replace_state MAX_STATE_BYTES (ss_dir st) (ss_tmp st) path
            (sk_encode (ss_codec st) (stored_of configs policies bypass)) w)"

section \<open>States that can be read again\<close>

definition bypass_ok :: "config_map \<Rightarrow> u16 \<times> physical_route list \<Rightarrow> bool" where
  "bypass_ok configs e \<longleftrightarrow>
     (case e of (uid, rs) \<Rightarrow>
        rs \<noteq> [] \<and> length rs \<le> 2 \<and> distinct (map pr_family rs)
        \<and> (\<exists>c. obj_get configs uid = Some c \<and> has_rules c)
        \<and> (\<forall>r \<in> set rs. route_validated r = Inr r))"

definition loadable :: "ipnet_crate \<Rightarrow> config_map \<Rightarrow> policy_map \<Rightarrow> bypass_map \<Rightarrow> bool" where
  "loadable cr configs policies bypass \<longleftrightarrow>
     length configs \<le> MAX_CONFIGS \<and> length policies \<le> MAX_CONFIGS
     \<and> (\<forall>(uid, c) \<in> set configs. config_validate cr c = Inr c)
     \<and> (\<forall>(uid, rs) \<in> set policies. validate_ip_ranges cr rs = Inr rs)
     \<and> list_all (bypass_ok configs) bypass"

lemma load_bypass_ok: "bypass_ok configs e \<Longrightarrow> load_bypass configs e = Inr e"
proof -
  assume ok: "bypass_ok configs e"
  obtain uid rs where e: "e = (uid, rs)" by force
  have "card (pr_family ` set rs) = length rs"
    using ok e distinct_card [of "map pr_family rs"] by (simp add: bypass_ok_def)
  moreover have "traverse route_validated rs = Inr rs"
    using ok e by (simp add: bypass_ok_def traverse_fixed)
  ultimately show ?thesis using ok e by (auto simp: bypass_ok_def load_bypass_def)
qed

lemma check_loadable:
  assumes "loadable cr configs policies bypass"
  shows "check_state cr (stored_of configs policies bypass)
    = Inr \<lparr>ld_configs = configs, ld_policies = policies, ld_bypass = bypass\<rparr>"
proof -
  have "traverse (load_config cr) configs = Inr configs"
    using assms by (auto simp: loadable_def load_config_def intro!: traverse_fixed)
  moreover have "traverse (load_policy cr) policies = Inr policies"
    using assms by (auto simp: loadable_def load_policy_def intro!: traverse_fixed)
  moreover have "traverse (load_bypass configs) bypass = Inr bypass"
    using assms by (auto simp: loadable_def list_all_iff load_bypass_ok intro!: traverse_fixed)
  ultimately show ?thesis
    using assms by (simp add: check_state_def stored_of_def loadable_def not_less)
qed

text \<open>The codec reads back what it wrote, with the final line feed.\<close>

definition codec_round_trip :: "state_codec \<Rightarrow> stored_state \<Rightarrow> bool" where
  "codec_round_trip k st \<longleftrightarrow> sk_decode k (sk_encode k st @ [CHR 0x0A]) = Some st"

lemma saved_state_loads:
  assumes "ss_path st = Some path" "ss_tmp st \<noteq> path"
    and "state_save st configs policies bypass w = (w', True)"
    and "loadable cr configs policies bypass"
    and "codec_round_trip (ss_codec st) (stored_of configs policies bypass)"
    and "length (sk_encode (ss_codec st) (stored_of configs policies bypass)) < MAX_STATE_BYTES"
  shows "state_load cr st True w' = Inr \<lparr>ld_configs = configs, ld_policies = policies, ld_bypass = bypass\<rparr>"
proof -
  have "content w' path = Some (sk_encode (ss_codec st) (stored_of configs policies bypass) @ [CHR 0x0A])"
    using assms(1-3) by (intro state_file.saved [of "ss_tmp st" path MAX_STATE_BYTES "ss_dir st"])
      (simp_all add: state_save_def)
  then show ?thesis
    using assms by (simp add: state_load_def codec_round_trip_def check_loadable)
qed

end
