(* ===== verification/Split_Engine.thy ===== *)
theory Split_Engine
  imports Split_Tracking Split_Marker Split_Store
begin

text \<open>
  \<open>Engine\<close> of \<^verbatim>\<open>splitd/src/engine.rs\<close>: the configurations of all users, the tracked processes, the marker and the bypass
  routes, with every operation of the service. Each operation holds the lock for its whole body and is one step. The
  outside is part of the state: the files, the script of failing \<open>bpf\<close> calls, the results of the coming scans of
  \<^verbatim>\<open>/proc\<close> and the routing tables. Error texts of the operating system are not modelled: a failure is \<open>False\<close>.
\<close>

section \<open>State\<close>

record 'k engine =
  en_configs :: config_map
  en_policies :: policy_map
  en_marker :: "marker option"
  en_tracked :: "(u32 \<times> tracked_process) list"
  en_bypass :: bypass_map
  en_world :: world
  en_faults :: faults
  en_scans :: "process_info list option list"
  en_net :: 'k

text \<open>What never changes: the CIDR crate, the store, the routing tools and whether this engine routes.\<close>

record 'k engine_setup =
  es_crate :: ipnet_crate
  es_store :: state_store
  es_tools :: "'k ip_tools"
  es_routing :: bool

type_synonym 'k engine_op = "'k engine \<Rightarrow> 'k engine \<times> bool"

section \<open>Reconciliation\<close>

definition needs_process_tracking :: "split_config \<Rightarrow> bool" where
  "needs_process_tracking c \<longleftrightarrow> has_app_rules c \<or> (sp_mode c = ModeInclude \<and> has_rules c)"

definition configured_user_count :: "'k engine \<Rightarrow> nat" where
  "configured_user_count d = card (fst ` set (en_configs d) \<union> fst ` set (en_policies d))"

text \<open>Attaching makes six maps, opens the cgroup and loads and attaches five programs; any of these calls can
  fail, and what was made is dropped.\<close>

definition take_calls :: "nat \<Rightarrow> faults \<Rightarrow> faults \<times> bool" where
  "take_calls n fs =
     (if True \<in> set (take n fs) then (drop (Suc (length (takeWhile Not fs))) fs, False) else (drop n fs, True))"

definition marker_attach :: "faults \<Rightarrow> faults \<times> marker option" where
  "marker_attach fs =
     (case take_calls (6 + 1 + 2 * 5) fs of (fs', ok) \<Rightarrow> (fs', if ok then Some empty_marker else None))"

definition next_scan :: "'k engine \<Rightarrow> 'k engine \<times> process_info list option" where
  "next_scan d = (case en_scans d of [] \<Rightarrow> (d, Some []) | r # rs \<Rightarrow> (d\<lparr>en_scans := rs\<rparr>, r))"

text \<open>Calls on the process map, stopping at the first failure.\<close>

definition mark_calls :: "map_call list \<Rightarrow> marker \<Rightarrow> 'k engine_op" where
  "mark_calls cs mk d =
     (case run_steps (map Checked cs) (mk, en_faults d) of ((mk', fs'), ok) \<Rightarrow>
        (d\<lparr>en_marker := Some mk', en_faults := fs'\<rparr>, ok))"

definition unmark_stale :: "(u32 \<times> tracked_process) list \<Rightarrow> (u32 \<times> tracked_process) list \<Rightarrow> map_call list" where
  "unmark_stale old new =
     map (\<lambda>(pid, _). DeletePid pid)
       (filter (\<lambda>(pid, p). tp_excluded p
          \<and> \<not> (case obj_get new pid of None \<Rightarrow> False | Some q \<Rightarrow> tp_excluded q)) old)"

definition mark_excluded :: "(u32 \<times> tracked_process) list \<Rightarrow> map_call list" where
  "mark_excluded new = map (\<lambda>(pid, _). UpdatePid pid) (filter (\<lambda>(_, p). tp_excluded p) new)"

definition attached :: "'k engine \<Rightarrow> 'k engine \<times> marker option" where
  "attached d =
     (case en_marker d of
        Some mk \<Rightarrow> (d, Some mk)
      | None \<Rightarrow> (case marker_attach (en_faults d) of (fs, m) \<Rightarrow> (d\<lparr>en_faults := fs, en_marker := m\<rparr>, m)))"

definition retrack :: "marker \<Rightarrow> 'k engine_op" where
  "retrack mk d =
     (if \<not> (\<exists>(_, c) \<in> set (en_configs d). needs_process_tracking c)
      then (case mark_calls (unmark_stale (en_tracked d) []) mk d of
              (d', ok) \<Rightarrow> if ok then (d'\<lparr>en_tracked := []\<rparr>, True) else (d', False))
      else
      case next_scan d of
        (d1, None) \<Rightarrow> (d1, False)
      | (d1, Some ps) \<Rightarrow>
          (let new = build_tracking (en_configs d) ps in
           case mark_calls (unmark_stale (en_tracked d) new @ mark_excluded new) mk d1 of
             (d2, ok) \<Rightarrow> if ok then (d2\<lparr>en_tracked := new\<rparr>, True) else (d2, False)))"

definition reconcile :: "ipnet_crate \<Rightarrow> 'k engine_op" where
  "reconcile cr d =
     (if \<not> (\<exists>(_, c) \<in> set (en_configs d). has_rules c) \<and> \<not> (\<exists>(_, rs) \<in> set (en_policies d). rs \<noteq> [])
      then (d\<lparr>en_tracked := [], en_marker := None\<rparr>, True)
      else
      case attached d of
        (d1, None) \<Rightarrow> (d1, False)
      | (d1, Some mk) \<Rightarrow>
          (case sync_configs cr (en_configs d1) (en_policies d1) (mk, en_faults d1) of ((mk1, fs1), ok) \<Rightarrow>
             (let d2 = d1\<lparr>en_marker := Some mk1, en_faults := fs1\<rparr> in
              if \<not> ok then (d2, False) else retrack mk1 d2)))"

section \<open>Process events\<close>

text \<open>\<open>proc\<close> answers \<open>read_process\<close>.\<close>

definition track :: "split_config \<Rightarrow> u16 \<Rightarrow> bool \<Rightarrow> tracked_process" where
  "track c uid matched = \<lparr>tp_uid = uid, tp_matched = matched, tp_excluded = config_excludes c matched\<rparr>"

definition untrack :: "marker \<Rightarrow> u32 \<Rightarrow> 'k engine_op" where
  "untrack mk pid d =
     (let d1 = d\<lparr>en_tracked := obj_remove pid (en_tracked d)\<rparr> in
      case obj_get (en_tracked d) pid of
        Some p \<Rightarrow> if tp_excluded p then mark_calls [DeletePid pid] mk d1 else (d1, True)
      | None \<Rightarrow> (d1, True))"

definition track_as :: "marker \<Rightarrow> u32 \<Rightarrow> tracked_process \<Rightarrow> 'k engine_op" where
  "track_as mk pid p d =
     (case mark_calls [if tp_excluded p then UpdatePid pid else DeletePid pid] mk d of
        (d1, ok) \<Rightarrow> if ok then (d1\<lparr>en_tracked := obj_insert pid p (en_tracked d1)\<rparr>, True) else (d1, False))"

definition forked :: "(u32 \<Rightarrow> process_info option) \<Rightarrow> 'k engine \<Rightarrow> u32 \<Rightarrow> u32 \<Rightarrow> tracked_process option" where
  "forked proc d parent child =
     (case obj_get (en_tracked d) parent of
        Some p \<Rightarrow> map_option (\<lambda>c. track c (tp_uid p) (tp_matched p)) (obj_get (en_configs d) (tp_uid p))
      | None \<Rightarrow> Option.bind (proc child) (\<lambda>i.
                  map_option (\<lambda>c. track c (pi_uid i) (config_matches c (pi_identities i)))
                    (obj_get (en_configs d) (pi_uid i))))"

definition handle_event :: "(u32 \<Rightarrow> process_info option) \<Rightarrow> process_event \<Rightarrow> 'k engine_op" where
  "handle_event proc ev d =
     (case en_marker d of
        None \<Rightarrow> (d, True)
      | Some mk \<Rightarrow>
          (case ev of
             Exit pid \<Rightarrow> untrack mk pid d
           | Fork parent child \<Rightarrow>
               (case forked proc d parent child of
                  None \<Rightarrow> (d, True)
                | Some p \<Rightarrow> track_as mk child p d)
           | Exec pid \<Rightarrow>
               (case proc pid of
                  None \<Rightarrow> (d, True)
                | Some i \<Rightarrow>
                    (case obj_get (en_configs d) (pi_uid i) of
                       None \<Rightarrow> untrack mk pid d
                     | Some c \<Rightarrow>
                         (let matched = (case obj_get (en_tracked d) pid of None \<Rightarrow> False | Some p \<Rightarrow> tp_matched p)
                                        \<or> config_matches c (pi_identities i) in
                          track_as mk pid (track c (pi_uid i) matched) d)))))"

section \<open>Operations of the service\<close>

definition save_engine :: "'k engine_setup \<Rightarrow> 'k engine_op" where
  "save_engine es d =
     (case state_save (es_store es) (en_configs d) (en_policies d) (en_bypass d) (en_world d) of
        (w, ok) \<Rightarrow> (d\<lparr>en_world := w\<rparr>, ok))"

definition reconcile_and_save :: "'k engine_setup \<Rightarrow> 'k engine_op" where
  "reconcile_and_save es d =
     (case reconcile (es_crate es) d of (d1, ok) \<Rightarrow> if ok then save_engine es d1 else (d1, False))"

definition ip_disable :: "'k engine_setup \<Rightarrow> u16 \<Rightarrow> physical_route list \<Rightarrow> 'k engine_op" where
  "ip_disable es uid rs d =
     (case routing_disable (es_tools es) uid rs (en_net d) of (k, r) \<Rightarrow> (d\<lparr>en_net := k\<rparr>, \<not> is_err r))"

definition ip_enable :: "'k engine_setup \<Rightarrow> u16 \<Rightarrow> physical_route list \<Rightarrow> 'k engine \<Rightarrow> 'k engine \<times> physical_route list option" where
  "ip_enable es uid rs d =
     (case routing_enable (es_tools es) uid rs (en_net d) of (k, r) \<Rightarrow> (d\<lparr>en_net := k\<rparr>, result_ok r))"

text \<open>\<open>if let Ok(installed) = routing::enable(..) { kill_switch_bypass.insert(uid, installed); }\<close>\<close>

definition restore_bypass :: "'k engine_setup \<Rightarrow> u16 \<Rightarrow> physical_route list option \<Rightarrow> 'k engine \<Rightarrow> 'k engine" where
  "restore_bypass es uid previous d =
     (case previous of
        None \<Rightarrow> d
      | Some rs \<Rightarrow>
          (case ip_enable es uid rs d of
             (d1, None) \<Rightarrow> d1
           | (d1, Some installed) \<Rightarrow> d1\<lparr>en_bypass := obj_insert uid installed (en_bypass d1)\<rparr>))"

text \<open>Removing the bypass of a user; \<open>None\<close> when the commands failed.\<close>

definition drop_bypass :: "'k engine_setup \<Rightarrow> u16 \<Rightarrow> 'k engine_op" where
  "drop_bypass es uid d =
     (case obj_get (en_bypass d) uid of
        None \<Rightarrow> (d, True)
      | Some rs \<Rightarrow>
          (case ip_disable es uid rs d of
             (d1, ok) \<Rightarrow> if ok then (d1\<lparr>en_bypass := obj_remove uid (en_bypass d1)\<rparr>, True) else (d1, False)))"

definition put_back :: "u16 \<Rightarrow> 'v option \<Rightarrow> (u16 \<times> 'v) list \<Rightarrow> (u16 \<times> 'v) list" where
  "put_back uid previous m = (case previous of Some v \<Rightarrow> obj_insert uid v m | None \<Rightarrow> obj_remove uid m)"

definition user_limit_reached :: "u16 \<Rightarrow> 'k engine \<Rightarrow> bool" where
  "user_limit_reached uid d \<longleftrightarrow>
     obj_get (en_configs d) uid = None \<and> obj_get (en_policies d) uid = None
     \<and> MAX_CONFIGS \<le> configured_user_count d"

definition set_config :: "'k engine_setup \<Rightarrow> u16 \<Rightarrow> split_config \<Rightarrow> 'k engine_op" where
  "set_config es uid c d =
     (if user_limit_reached uid d then (d, False)
      else
      let remove = es_routing es \<and> \<not> has_rules c;
          bypass = (if remove then obj_get (en_bypass d) uid else None) in
      case (if remove then drop_bypass es uid d else (d, True)) of
        (d1, False) \<Rightarrow> (d1, False)
      | (d1, True) \<Rightarrow>
          (let previous = obj_get (en_configs d1) uid in
           case reconcile_and_save es (d1\<lparr>en_configs := obj_insert uid c (en_configs d1)\<rparr>) of
             (d2, True) \<Rightarrow> (d2, True)
           | (d2, False) \<Rightarrow>
               (let d3 = fst (reconcile (es_crate es) (d2\<lparr>en_configs := put_back uid previous (en_configs d2)\<rparr>)) in
                (restore_bypass es uid bypass d3, False))))"

definition clear_config :: "'k engine_setup \<Rightarrow> u16 \<Rightarrow> 'k engine_op" where
  "clear_config es uid d =
     (let bypass = obj_get (en_bypass d) uid in
      case (if es_routing es then drop_bypass es uid d else (d, True)) of
        (d1, False) \<Rightarrow> (d1, False)
      | (d1, True) \<Rightarrow>
          (let previous = obj_get (en_configs d1) uid in
           case reconcile_and_save es (d1\<lparr>en_configs := obj_remove uid (en_configs d1)\<rparr>) of
             (d2, True) \<Rightarrow> (d2, True)
           | (d2, False) \<Rightarrow>
               (let d3 = (case previous of
                            None \<Rightarrow> d2
                          | Some c \<Rightarrow>
                              fst (reconcile (es_crate es) (d2\<lparr>en_configs := obj_insert uid c (en_configs d2)\<rparr>))) in
                (restore_bypass es uid bypass d3, False))))"

definition set_destination_policy :: "'k engine_setup \<Rightarrow> u16 \<Rightarrow> string list \<Rightarrow> 'k engine_op" where
  "set_destination_policy es uid ranges d =
     (if user_limit_reached uid d then (d, False)
      else
      let previous = obj_get (en_policies d) uid;
          d1 = d\<lparr>en_policies := (if ranges = [] then obj_remove uid (en_policies d)
                                 else obj_insert uid ranges (en_policies d))\<rparr> in
      case reconcile_and_save es d1 of
        (d2, True) \<Rightarrow> (d2, True)
      | (d2, False) \<Rightarrow>
          (fst (reconcile (es_crate es) (d2\<lparr>en_policies := put_back uid previous (en_policies d2)\<rparr>)), False))"

definition enable_bypass :: "'k engine_setup \<Rightarrow> u16 \<Rightarrow> physical_route list \<Rightarrow> 'k engine_op" where
  "enable_bypass es uid routes d =
     (if obj_get (en_bypass d) uid = Some routes then (d, True)
      else
      let previous = obj_get (en_bypass d) uid in
      case drop_bypass es uid d of
        (d1, False) \<Rightarrow> (d1, False)
      | (d1, True) \<Rightarrow>
          (case ip_enable es uid routes d1 of
             (d2, None) \<Rightarrow> (restore_bypass es uid previous d2, False)
           | (d2, Some installed) \<Rightarrow>
               (case save_engine es (d2\<lparr>en_bypass := obj_insert uid installed (en_bypass d2)\<rparr>) of
                  (d3, True) \<Rightarrow> (d3, True)
                | (d3, False) \<Rightarrow>
                    (let d4 = d3\<lparr>en_bypass := obj_remove uid (en_bypass d3)\<rparr>;
                         d5 = fst (ip_disable es uid installed d4) in
                     (restore_bypass es uid previous d5, False)))))"

definition disable_bypass :: "'k engine_setup \<Rightarrow> u16 \<Rightarrow> 'k engine_op" where
  "disable_bypass es uid d =
     (case obj_get (en_bypass d) uid of
        None \<Rightarrow> (d, True)
      | Some installed \<Rightarrow>
          (case drop_bypass es uid d of
             (d1, False) \<Rightarrow> (d1, False)
           | (d1, True) \<Rightarrow>
               (case save_engine es d1 of
                  (d2, True) \<Rightarrow> (d2, True)
                | (d2, False) \<Rightarrow> (restore_bypass es uid (Some installed) d2, False))))"

definition set_kill_switch_bypass :: "'k engine_setup \<Rightarrow> u16 \<Rightarrow> bool \<Rightarrow> physical_route list \<Rightarrow> 'k engine_op" where
  "set_kill_switch_bypass es uid enabled routes d =
     (if \<not> es_routing es then (d, False)
      else if enabled \<and> \<not> (case obj_get (en_configs d) uid of None \<Rightarrow> False | Some c \<Rightarrow> has_rules c) then (d, False)
      else if enabled then enable_bypass es uid routes d
      else disable_bypass es uid d)"

section \<open>Start and stop\<close>

fun disable_each :: "'k engine_setup \<Rightarrow> bypass_map \<Rightarrow> 'k engine_op" where
  "disable_each es [] d = (d, True)"
| "disable_each es ((uid, rs) # es') d =
     (case ip_disable es uid rs d of (d1, ok) \<Rightarrow> if ok then disable_each es es' d1 else (d1, False))"

definition engine_start :: "'k engine_setup \<Rightarrow> bool \<Rightarrow> 'k engine \<Rightarrow> ('k engine) option" where
  "engine_start es readable d0 =
     (case state_load (es_crate es) (es_store es) readable (en_world d0) of
        Inl _ \<Rightarrow> None
      | Inr l \<Rightarrow>
          (let d1 = d0\<lparr>en_configs := ld_configs l, en_policies := ld_policies l, en_bypass := [],
                       en_marker := None, en_tracked := []\<rparr>;
               cleaned = (if es_routing es
                          then (case disable_each es (ld_bypass l) d1 of
                                  (d2, False) \<Rightarrow> (d2, False)
                                | (d2, True) \<Rightarrow> if ld_bypass l = [] then (d2, True) else save_engine es d2)
                          else (d1, True)) in
           case cleaned of
             (d2, False) \<Rightarrow> None
           | (d2, True) \<Rightarrow> (case reconcile (es_crate es) d2 of (d3, ok) \<Rightarrow> if ok then Some d3 else None)))"

text \<open>\<open>Drop\<close>: the bypass routes are removed, ignoring failures.\<close>

fun engine_stop :: "'k engine_setup \<Rightarrow> bypass_map \<Rightarrow> 'k engine \<Rightarrow> 'k engine" where
  "engine_stop es [] d = d"
| "engine_stop es ((uid, rs) # m) d =
     (if es_routing es then engine_stop es m (fst (ip_disable es uid rs d)) else d)"

end
