(* ===== verification/Split_Engine_Laws.thy ===== *)
theory Split_Engine_Laws
  imports Split_Engine
begin

section \<open>Marks and tracking\<close>

definition excluded_pids :: "(u32 \<times> tracked_process) list \<Rightarrow> u32 set" where
  "excluded_pids t = {pid. \<exists>p. obj_get t pid = Some p \<and> tp_excluded p}"

definition marks_ok :: "ipnet_crate \<Rightarrow> 'k engine \<Rightarrow> bool" where
  "marks_ok cr d \<longleftrightarrow>
     (case en_marker d of
        None \<Rightarrow> en_tracked d = []
      | Some mk \<Rightarrow>
          mirrors cr (mk_configs mk) (mk_policies mk) mk \<and> parses cr (mk_configs mk) (mk_policies mk)
          \<and> obj_wf (mk_configs mk) \<and> obj_wf (en_tracked d)
          \<and> set (mk_pid_map mk) = excluded_pids (en_tracked d))"

definition has_policy :: "'k engine \<Rightarrow> bool" where
  "has_policy d \<longleftrightarrow> (\<exists>(_, c) \<in> set (en_configs d). has_rules c) \<or> (\<exists>(_, rs) \<in> set (en_policies d). rs \<noteq> [])"

definition synced :: "ipnet_crate \<Rightarrow> 'k engine \<Rightarrow> bool" where
  "synced cr d \<longleftrightarrow> marks_ok cr d
     \<and> (case en_marker d of
          None \<Rightarrow> \<not> has_policy d
        | Some mk \<Rightarrow> mk_configs mk = en_configs d \<and> mk_policies mk = en_policies d)"

lemma wf_distinct: "obj_wf m \<Longrightarrow> distinct (map fst m)"
  by (simp add: obj_wf_def strict_sorted_iff)

lemma run_checked_ok: "run_steps (map Checked cs) (mk, []) = ((fold apply_call cs mk, []), True)"
  by (induction cs arbitrary: mk) (simp_all add: bpf_call_def)

lemma run_steps_no_faults: "run_steps ss (mk, []) = ((mk', fs'), ok) \<Longrightarrow> fs' = []"
proof (induction ss "(mk, [] :: faults)" arbitrary: mk rule: run_steps.induct)
  case (2 c ss)
  then show ?case by (auto simp: bpf_call_def)
next
  case (3 c ss)
  then show ?case by (auto simp: bpf_call_def)
qed auto

lemma mark_calls_ok:
  "en_faults d = [] \<Longrightarrow> mark_calls cs mk d = (d\<lparr>en_marker := Some (fold apply_call cs mk)\<rparr>, True)"
  by (simp add: mark_calls_def run_checked_ok)

lemma fold_pid_calls:
  assumes "\<forall>c \<in> set cs. is_pid_call c"
  shows "\<exists>z. fold apply_call cs mk = mk\<lparr>mk_pid_map := z\<rparr>"
  using assms
proof (induction cs arbitrary: mk)
  case (Cons c cs)
  then obtain z where "apply_call c mk = mk\<lparr>mk_pid_map := z\<rparr>" by (cases c) auto
  moreover from Cons obtain z' where "fold apply_call cs (mk\<lparr>mk_pid_map := z\<rparr>) = (mk\<lparr>mk_pid_map := z\<rparr>)\<lparr>mk_pid_map := z'\<rparr>"
    by fastforce
  ultimately show ?case by auto
next
  case Nil
  show ?case by (intro exI [of _ "mk_pid_map mk"]) simp
qed

lemma fold_delete_pids:
  "set (mk_pid_map (fold apply_call (map (\<lambda>(pid, _). DeletePid pid) t) mk)) = set (mk_pid_map mk) - fst ` set t"
  by (induction t arbitrary: mk) auto

lemma fold_update_pids:
  "set (mk_pid_map (fold apply_call (map (\<lambda>(pid, _). UpdatePid pid) t) mk)) = set (mk_pid_map mk) \<union> fst ` set t"
  by (induction t arbitrary: mk) auto

lemma excluded_pids_alt:
  assumes "obj_wf t"
  shows "fst ` set (filter (\<lambda>(_, p). tp_excluded p) t) = excluded_pids t"
proof -
  have "obj_get t pid = Some p \<longleftrightarrow> (pid, p) \<in> set t" for pid p
    using wf_distinct [OF assms] by (simp add: obj_get_def)
  then show ?thesis by (force simp: excluded_pids_def)
qed

lemma retrack_marks:
  assumes "obj_wf old" "obj_wf new" "set (mk_pid_map mk) = excluded_pids old"
  shows "set (mk_pid_map (fold apply_call (unmark_stale old new @ mark_excluded new) mk)) = excluded_pids new"
proof -
  have stale: "fst ` set (filter (\<lambda>(pid, p). tp_excluded p
      \<and> \<not> (case obj_get new pid of None \<Rightarrow> False | Some q \<Rightarrow> tp_excluded q)) old) = excluded_pids old - excluded_pids new"
  proof -
    have "obj_get old pid = Some p \<longleftrightarrow> (pid, p) \<in> set old" for pid p
      using wf_distinct [OF assms(1)] by (simp add: obj_get_def)
    then show ?thesis by (force simp: excluded_pids_def split: option.splits)
  qed
  have "set (mk_pid_map (fold apply_call (unmark_stale old new @ mark_excluded new) mk)) =
      set (mk_pid_map mk) - (excluded_pids old - excluded_pids new) \<union> excluded_pids new"
    unfolding unmark_stale_def mark_excluded_def fold_append comp_apply fold_update_pids fold_delete_pids stale
      excluded_pids_alt [OF assms(2)] ..
  then show ?thesis using assms(3) by blast
qed

lemma build_tracking_wf: "obj_wf (build_tracking configs ps)"
proof -
  have "obj_wf t \<Longrightarrow> obj_wf (fold (\<lambda>p t. case obj_get configs (pi_uid p) of
      None \<Rightarrow> t | Some c \<Rightarrow> obj_insert (pi_pid p) (f p c) t) ps t)" for f :: "process_info \<Rightarrow> split_config \<Rightarrow> tracked_process" and t
    by (induction ps arbitrary: t) (auto simp: obj.wf_insert split: option.splits)
  then show ?thesis unfolding build_tracking_def Let_def by simp
qed

lemma sync_ok:
  assumes "mirrors cr (mk_configs mk) (mk_policies mk) mk" "obj_wf configs" "obj_wf (mk_configs mk)"
    and "parses cr configs policies" "parses cr (mk_configs mk) (mk_policies mk)"
  shows "\<exists>mk'. sync_configs cr configs policies (mk, []) = ((mk', []), True)
    \<and> mirrors cr configs policies mk' \<and> mk_configs mk' = configs \<and> mk_policies mk' = policies
    \<and> mk_pid_map mk' = mk_pid_map mk"
proof (cases "configs = mk_configs mk \<and> policies = mk_policies mk")
  case True
  then show ?thesis using assms by (simp add: sync_configs_def)
next
  case False
  obtain mk1 fs1 ok1 where r: "replace_maps cr (mk_configs mk) (mk_policies mk) configs policies (mk, []) = ((mk1, fs1), ok1)"
    by (metis surj_pair)
  have "fs1 = []" using run_steps_no_faults r by (simp add: replace_maps_def)
  moreover have ok1
    using run_steps_failures [OF steps_parse [OF assms(5,4)]] r by (force simp: replace_maps_def)
  moreover have "mirrors cr configs policies mk1"
    using r \<open>ok1\<close> assms(1) wf_distinct [OF assms(2)] by (intro replace_maps_mirrors) (auto simp: mirrors_def)
  ultimately show ?thesis
    using False r replace_maps_frame [where s = "(mk, [])" and cr = cr and oc = "mk_configs mk" and op = "mk_policies mk" and nc = configs and np = policies]
    by (auto simp: sync_configs_def)
qed

lemma attached_ok:
  assumes "en_faults d = []" "marks_ok cr d"
  shows "\<exists>mk. attached d = (d\<lparr>en_marker := Some mk\<rparr>, Some mk) \<and> marks_ok cr (d\<lparr>en_marker := Some mk\<rparr>)"
proof (cases "en_marker d")
  case None
  have "marker_attach [] = ([], Some empty_marker)" by (simp add: marker_attach_def take_calls_def)
  then show ?thesis
    using assms None empty_marker_mirrors [of cr]
    by (auto simp: attached_def marks_ok_def empty_marker_def parses_def excluded_pids_def)
next
  case (Some mk)
  then show ?thesis using assms(2) by (intro exI [of _ mk]) (simp add: attached_def marks_ok_def)
qed

lemma retrack_synced:
  assumes "en_faults d = []" "en_marker d = Some mk" "synced cr d"
  shows "synced cr (fst (retrack mk d)) \<and> en_faults (fst (retrack mk d)) = []"
proof -
  from assms(2,3) have mk: "mirrors cr (mk_configs mk) (mk_policies mk) mk" "parses cr (mk_configs mk) (mk_policies mk)"
      "obj_wf (mk_configs mk)" "obj_wf (en_tracked d)" "set (mk_pid_map mk) = excluded_pids (en_tracked d)"
      "mk_configs mk = en_configs d" "mk_policies mk = en_policies d"
    by (auto simp: synced_def marks_ok_def)
  have step: "synced cr (d'\<lparr>en_marker := Some (fold apply_call (unmark_stale (en_tracked d) new @ mark_excluded new) mk),
      en_tracked := new\<rparr>)" if "obj_wf new" "en_configs d' = en_configs d" "en_policies d' = en_policies d" for new and d' :: "'a engine"
  proof -
    have "\<forall>c \<in> set (unmark_stale (en_tracked d) new @ mark_excluded new). is_pid_call c"
      by (auto simp: unmark_stale_def mark_excluded_def)
    then obtain z where z: "fold apply_call (unmark_stale (en_tracked d) new @ mark_excluded new) mk = mk\<lparr>mk_pid_map := z\<rparr>"
      using fold_pid_calls by blast
    moreover have "set z = excluded_pids new" using retrack_marks [OF mk(4) that(1) mk(5)] z by simp
    ultimately show ?thesis using mk that by (simp add: synced_def marks_ok_def)
  qed
  show ?thesis
  proof (cases "\<exists>(_, c) \<in> set (en_configs d). needs_process_tracking c")
    case False
    have "unmark_stale (en_tracked d) [] = unmark_stale (en_tracked d) [] @ mark_excluded []"
      by (simp add: mark_excluded_def)
    then show ?thesis using False step [of "[]" d] assms(1) by (simp add: retrack_def mark_calls_ok del: append_Nil2)
  next
    case True
    show ?thesis
    proof (cases "en_scans d")
      case Nil
      then show ?thesis using True step [OF build_tracking_wf, of d] assms(1)
        by (simp add: retrack_def next_scan_def mark_calls_ok Let_def)
    next
      case (Cons r rs)
      show ?thesis
      proof (cases r)
        case None
        then have "fst (retrack mk d) = d\<lparr>en_scans := rs\<rparr>" using True Cons by (simp add: retrack_def next_scan_def)
        then show ?thesis using assms(1,2) mk by (simp add: synced_def marks_ok_def)
      next
        case (Some ps)
        then show ?thesis using True Cons step [OF build_tracking_wf, of "d\<lparr>en_scans := rs\<rparr>"] assms(1)
          by (simp add: retrack_def next_scan_def mark_calls_ok Let_def)
      qed
    qed
  qed
qed

lemma reconcile_synced:
  assumes "en_faults d = []" "marks_ok cr d" "obj_wf (en_configs d)" "parses cr (en_configs d) (en_policies d)"
  shows "synced cr (fst (reconcile cr d)) \<and> en_faults (fst (reconcile cr d)) = []"
proof (cases "has_policy d")
  case False
  then show ?thesis using assms(1) by (auto simp: reconcile_def has_policy_def synced_def marks_ok_def)
next
  case True
  obtain mk where at: "attached d = (d\<lparr>en_marker := Some mk\<rparr>, Some mk)" "marks_ok cr (d\<lparr>en_marker := Some mk\<rparr>)"
    using attached_ok [OF assms(1,2)] by blast
  then have mk: "mirrors cr (mk_configs mk) (mk_policies mk) mk" "parses cr (mk_configs mk) (mk_policies mk)"
    "obj_wf (mk_configs mk)" by (auto simp: marks_ok_def)
  obtain mk' where s: "sync_configs cr (en_configs d) (en_policies d) (mk, []) = ((mk', []), True)"
    and mk': "mirrors cr (en_configs d) (en_policies d) mk'" "mk_configs mk' = en_configs d" "mk_policies mk' = en_policies d"
      "mk_pid_map mk' = mk_pid_map mk"
    using sync_ok [OF mk(1) assms(3) mk(3) assms(4) mk(2)] by blast
  let ?d = "d\<lparr>en_marker := Some mk', en_faults := []\<rparr>"
  have "synced cr ?d" using at(2) mk' assms(3,4) by (simp add: synced_def marks_ok_def)
  moreover have "reconcile cr d = retrack mk' ?d"
    using True at(1) s assms(1) by (auto simp: reconcile_def has_policy_def)
  ultimately show ?thesis using retrack_synced [of ?d mk' cr] by simp
qed

section \<open>What the operations leave alone\<close>

abbreviation "same_policy d d' \<equiv>
  en_configs d' = en_configs d \<and> en_policies d' = en_policies d \<and> en_bypass d' = en_bypass d
  \<and> en_world d' = en_world d \<and> en_net d' = en_net d"

lemma mark_calls_frame: "same_policy d (fst (mark_calls cs mk d)) \<and> en_tracked (fst (mark_calls cs mk d)) = en_tracked d"
  by (simp add: mark_calls_def split: prod.splits)

lemma mark_calls_case: "mark_calls cs mk d = (d', ok) \<Longrightarrow> same_policy d d'"
  by (auto simp: mark_calls_def split: prod.splits)

lemma retrack_frame: "same_policy d (fst (retrack mk d))"
  by (auto simp: retrack_def next_scan_def Let_def dest: mark_calls_case split: prod.splits list.splits option.splits)

lemma reconcile_frame: "same_policy d (fst (reconcile cr d))"
proof (cases "has_policy d")
  case False
  then show ?thesis by (auto simp: reconcile_def has_policy_def)
next
  case True
  obtain d1 m where a: "attached d = (d1, m)" by force
  then have d1: "same_policy d d1" by (auto simp: attached_def split: option.splits prod.splits)
  show ?thesis
  proof (cases m)
    case None
    then show ?thesis using True a d1 by (auto simp: reconcile_def has_policy_def)
  next
    case (Some mk)
    obtain mk1 fs1 ok where s: "sync_configs cr (en_configs d1) (en_policies d1) (mk, en_faults d1) = ((mk1, fs1), ok)"
      by (metis surj_pair)
    have "fst (reconcile cr d) = (let d2 = d1\<lparr>en_marker := Some mk1, en_faults := fs1\<rparr> in
        if \<not> ok then d2 else fst (retrack mk1 d2))"
      using True a Some s by (auto simp: reconcile_def has_policy_def Let_def)
    then show ?thesis using d1 retrack_frame [where d = "d1\<lparr>en_marker := Some mk1, en_faults := fs1\<rparr>" and mk = mk1]
      by (simp add: Let_def)
  qed
qed

lemma save_frame:
  "save_engine es d = (d', ok) \<Longrightarrow> d' = d\<lparr>en_world := fst (state_save (es_store es) (en_configs d) (en_policies d) (en_bypass d) (en_world d))\<rparr>
    \<and> ok = snd (state_save (es_store es) (en_configs d) (en_policies d) (en_bypass d) (en_world d))"
  by (auto simp: save_engine_def split: prod.splits)

lemma synced_simps [simp]:
  "synced cr (d\<lparr>en_world := w\<rparr>) = synced cr d" "synced cr (d\<lparr>en_net := k\<rparr>) = synced cr d"
  "synced cr (d\<lparr>en_bypass := b\<rparr>) = synced cr d"
  "marks_ok cr (d\<lparr>en_world := w\<rparr>) = marks_ok cr d" "marks_ok cr (d\<lparr>en_net := k\<rparr>) = marks_ok cr d"
  "marks_ok cr (d\<lparr>en_bypass := b\<rparr>) = marks_ok cr d" "marks_ok cr (d\<lparr>en_configs := c\<rparr>) = marks_ok cr d"
  "marks_ok cr (d\<lparr>en_policies := p\<rparr>) = marks_ok cr d"
  by (cases "en_marker d"; simp add: synced_def marks_ok_def has_policy_def)+

lemma synced_marks: "synced cr d \<Longrightarrow> marks_ok cr d"
  by (simp add: synced_def)

section \<open>Process events\<close>

lemma excluded_pids_insert:
  "excluded_pids (obj_insert pid p t) = (if tp_excluded p then insert pid (excluded_pids t) else excluded_pids t - {pid})"
  by (auto simp: excluded_pids_def split: if_splits)

lemma excluded_pids_remove: "excluded_pids (obj_remove pid t) = excluded_pids t - {pid}"
  by (auto simp: excluded_pids_def split: if_splits)

lemma track_as_synced:
  assumes "synced cr d" "en_faults d = []" "en_marker d = Some mk"
  shows "synced cr (fst (track_as mk pid p d)) \<and> en_faults (fst (track_as mk pid p d)) = []"
  using assms
  by (auto simp: track_as_def mark_calls_ok synced_def marks_ok_def excluded_pids_insert obj.wf_insert)

lemma untrack_synced:
  assumes "synced cr d" "en_faults d = []" "en_marker d = Some mk"
  shows "synced cr (fst (untrack mk pid d)) \<and> en_faults (fst (untrack mk pid d)) = []"
proof (cases "obj_get (en_tracked d) pid")
  case None
  then have "pid \<notin> excluded_pids (en_tracked d)" by (simp add: excluded_pids_def)
  then show ?thesis using assms None
    by (auto simp: untrack_def synced_def marks_ok_def excluded_pids_remove obj.wf_remove Let_def)
next
  case (Some p)
  then have "\<not> tp_excluded p \<Longrightarrow> pid \<notin> excluded_pids (en_tracked d)" by (simp add: excluded_pids_def)
  then show ?thesis using assms Some
    by (auto simp: untrack_def mark_calls_ok synced_def marks_ok_def excluded_pids_remove obj.wf_remove Let_def)
qed

lemma handle_event_synced:
  assumes "synced cr d" "en_faults d = []"
  shows "synced cr (fst (handle_event proc ev d)) \<and> en_faults (fst (handle_event proc ev d)) = []"
  using track_as_synced [OF assms] untrack_synced [OF assms] assms
  by (auto simp: handle_event_def Let_def split: option.splits process_event.splits)

lemma track_as_frame: "same_policy d (fst (track_as mk pid p d))"
  by (auto simp: track_as_def dest: mark_calls_case split: prod.splits)

lemma untrack_frame: "same_policy d (fst (untrack mk pid d))"
  by (auto simp: untrack_def Let_def mark_calls_frame split: option.splits)

lemma handle_event_frame: "same_policy d (fst (handle_event proc ev d))"
  by (auto simp: handle_event_def Let_def track_as_frame untrack_frame split: option.splits process_event.splits)

end
