(* ===== verification/Split_Service.thy ===== *)
theory Split_Service
  imports Split_Engine_Laws
begin

text \<open>
  The D-Bus service of \<^verbatim>\<open>splitd/src/main.rs\<close> and the background tasks of \<^verbatim>\<open>splitd/src/engine.rs\<close>. A request carries
  the Unix user the bus reports for its sender (\<open>None\<close> when the sender is missing or the bus does not answer). The
  daemon is the engine with the bounded queue of process events, the flag that asks for a reconciliation and the tick
  counter; its inputs are requests, receptions on the process connector, rounds of the event task and timer ticks. The
  end of the channel at shutdown is not modelled.
\<close>

section \<open>Values of the bus\<close>

datatype dbus_value = DString string | DArray "dbus_value list" | DOther

type_synonym dbus_map = "(string \<times> dbus_value) list"

fun dbus_string :: "dbus_value \<Rightarrow> string option" where
  "dbus_string (DString s) = Some s"
| "dbus_string _ = None"

fun dbus_strings :: "dbus_value \<Rightarrow> string list option" where
  "dbus_strings (DArray vs) = those (map dbus_string vs)"
| "dbus_strings _ = None"

definition required :: "string \<Rightarrow> string \<Rightarrow> (dbus_value \<Rightarrow> 'a option) \<Rightarrow> dbus_map \<Rightarrow> string + 'a" where
  "required key kind read vs =
     (case obj_get vs key of
        None \<Rightarrow> Inl (key @ '' is required'')
      | Some v \<Rightarrow> (case read v of None \<Rightarrow> Inl (key @ '' must be '' @ kind) | Some x \<Rightarrow> Inr x))"

definition config_from_dbus :: "ipnet_crate \<Rightarrow> dbus_map \<Rightarrow> string + split_config" where
  "config_from_dbus cr vs =
     rbind (required ''mode'' ''a string'' dbus_string vs) (\<lambda>mode.
     rbind (required ''app_paths'' ''an array of strings'' dbus_strings vs) (\<lambda>paths.
     rbind (required ''ip_ranges'' ''an array of strings'' dbus_strings vs) (\<lambda>ranges.
     if obj_remove ''ip_ranges'' (obj_remove ''app_paths'' (obj_remove ''mode'' vs)) \<noteq> []
     then Inl ''unknown split-tunneling configuration key''
     else rbind (split_mode_parse mode) (\<lambda>md.
          config_validate cr \<lparr>sp_mode = md, sp_app_paths = paths, sp_ip_ranges = ranges\<rparr>))))"

definition config_to_dbus :: "split_config \<Rightarrow> dbus_map" where
  "config_to_dbus c =
     obj_of [(''mode'', DString (split_mode_str (sp_mode c))),
             (''app_paths'', DArray (map DString (sp_app_paths c))),
             (''ip_ranges'', DArray (map DString (sp_ip_ranges c)))]"

section \<open>Requests\<close>

datatype request =
    SetConfig u16 dbus_map
  | GetConfig u16
  | ClearConfig u16
  | LogStatus
  | SetDestinationPolicy u16 "string list"
  | GetDestinationPolicy u16
  | SetKillSwitchBypass u16 bool "(string \<times> string \<times> string) list"
  | GetAllConfigs

datatype fdo_error = AccessDenied string | InvalidArgs string | Failed | BusError

datatype reply = Done | Config dbus_map | Ranges "string list" | Configs "(u16 \<times> dbus_map) list"

text \<open>The bus's answer about the sender: missing, an error, or a user.\<close>

datatype caller = NoSender | BusFails | User u32

fun caller_uid :: "caller \<Rightarrow> fdo_error + u32" where
  "caller_uid NoSender = Inl (AccessDenied ''D-Bus sender identity missing'')"
| "caller_uid BusFails = Inl BusError"
| "caller_uid (User u) = Inr u"

definition authorize :: "caller \<Rightarrow> u16 \<Rightarrow> fdo_error + unit" where
  "authorize who requested =
     rbind (caller_uid who) (\<lambda>u.
     if u = 0 \<or> u = ucast requested then Inr ()
     else Inl (AccessDenied ''split-tunneling configuration may only target the calling user''))"

definition invalid_args :: "string + 'a \<Rightarrow> fdo_error + 'a" where
  "invalid_args r = (case r of Inl m \<Rightarrow> Inl (InvalidArgs m) | Inr x \<Rightarrow> Inr x)"

text \<open>A handler that changes the engine: a refusal leaves it alone; the engine's own failure is reported as \<open>Failed\<close>.\<close>

definition perform :: "fdo_error + 'k engine_op \<Rightarrow> 'k engine \<Rightarrow> 'k engine \<times> (fdo_error + reply)" where
  "perform r d =
     (case r of
        Inl e \<Rightarrow> (d, Inl e)
      | Inr f \<Rightarrow> (case f d of (d', ok) \<Rightarrow> (d', if ok then Inr Done else Inl Failed)))"

definition parse_routes :: "(string \<times> string \<times> string) list \<Rightarrow> string + physical_route list" where
  "parse_routes rs =
     (if 8 < length rs then Inl ''at most eight physical routes are accepted''
      else traverse (\<lambda>(family, gateway, interface). route_parse family gateway interface) rs)"

definition serve :: "'k engine_setup \<Rightarrow> caller \<Rightarrow> request \<Rightarrow> 'k engine \<Rightarrow> 'k engine \<times> (fdo_error + reply)" where
  "serve es who req d =
     (case req of
        SetConfig uid vs \<Rightarrow>
          perform (rbind (authorize who uid) (\<lambda>_.
                   rbind (invalid_args (config_from_dbus (es_crate es) vs)) (\<lambda>c. Inr (set_config es uid c)))) d
      | GetConfig uid \<Rightarrow>
          (d, rbind (authorize who uid) (\<lambda>_.
              Inr (Config (case obj_get (en_configs d) uid of None \<Rightarrow> [] | Some c \<Rightarrow> config_to_dbus c))))
      | ClearConfig uid \<Rightarrow> perform (rbind (authorize who uid) (\<lambda>_. Inr (clear_config es uid))) d
      | LogStatus \<Rightarrow> (d, Inr Done)
      | SetDestinationPolicy uid ranges \<Rightarrow>
          perform (rbind (authorize who uid) (\<lambda>_.
                   rbind (invalid_args (validate_ip_ranges (es_crate es) ranges)) (\<lambda>rs.
                   Inr (set_destination_policy es uid rs)))) d
      | GetDestinationPolicy uid \<Rightarrow>
          (d, rbind (authorize who uid) (\<lambda>_.
              Inr (Ranges (case obj_get (en_policies d) uid of None \<Rightarrow> [] | Some rs \<Rightarrow> rs))))
      | SetKillSwitchBypass uid enabled routes \<Rightarrow>
          perform (rbind (authorize who uid) (\<lambda>_.
                   rbind (invalid_args (parse_routes routes)) (\<lambda>rs.
                   Inr (set_kill_switch_bypass es uid enabled rs)))) d
      | GetAllConfigs \<Rightarrow>
          (d, rbind (caller_uid who) (\<lambda>u.
              Inr (Configs (map (\<lambda>(uid, c). (uid, config_to_dbus c))
                     (filter (\<lambda>(uid, _). u = 0 \<or> ucast uid = u) (en_configs d)))))))"

section \<open>The daemon\<close>

definition SAFETY_RECONCILE_TICKS :: u8 where "SAFETY_RECONCILE_TICKS = 6"

text \<open>\<open>safety_ticks.saturating_add(1)\<close>\<close>

definition next_tick :: "u8 \<Rightarrow> u8" where
  "next_tick n = (if n = 255 then 255 else n + 1)"

definition PROCESS_EVENT_CAPACITY :: nat where "PROCESS_EVENT_CAPACITY = 4096"
definition RECEIVE_BYTES :: nat where "RECEIVE_BYTES = 16 * 1024"

record 'k daemon =
  dm_engine :: "'k engine"
  dm_queue :: "process_event list"
  dm_dirty :: bool
  dm_ticks :: u8

text \<open>One \<open>recv\<close> of the connector thread: nothing within the timeout, an error, or a datagram.\<close>

datatype received = NothingYet | RecvFails | Datagram "u8 list"

text \<open>\<open>Dispatch\<close> is one round of the event task, with what \<open>read_process\<close> answers at that time.\<close>

datatype input =
    Request caller request
  | Receive received
  | Dispatch "u32 \<Rightarrow> process_info option"
  | Tick

definition try_send :: "process_event \<Rightarrow> 'k daemon \<Rightarrow> 'k daemon" where
  "try_send ev s =
     (if length (dm_queue s) < PROCESS_EVENT_CAPACITY then s\<lparr>dm_queue := dm_queue s @ [ev]\<rparr>
      else s\<lparr>dm_dirty := True\<rparr>)"

definition receive :: "received \<Rightarrow> 'k daemon \<Rightarrow> 'k daemon" where
  "receive r s =
     (case r of
        NothingYet \<Rightarrow> s
      | RecvFails \<Rightarrow> s\<lparr>dm_dirty := True\<rparr>
      | Datagram bytes \<Rightarrow>
          (let buffer = take RECEIVE_BYTES bytes in
           fold try_send (parse_messages buffer)
             (if length buffer = RECEIVE_BYTES then s\<lparr>dm_dirty := True\<rparr> else s)))"

definition dispatch :: "(u32 \<Rightarrow> process_info option) \<Rightarrow> 'k daemon \<Rightarrow> 'k daemon" where
  "dispatch proc s =
     (case dm_queue s of
        [] \<Rightarrow> s
      | ev # evs \<Rightarrow>
          (case handle_event proc ev (dm_engine s) of
             (d, ok) \<Rightarrow> s\<lparr>dm_engine := d, dm_queue := evs, dm_dirty := dm_dirty s \<or> \<not> ok\<rparr>))"

definition tick_due :: "'k daemon \<Rightarrow> bool" where
  "tick_due s \<longleftrightarrow> dm_dirty s \<or> \<not> next_tick (dm_ticks s) < SAFETY_RECONCILE_TICKS"

definition tick :: "'k engine_setup \<Rightarrow> 'k daemon \<Rightarrow> 'k daemon" where
  "tick es s =
     (if \<not> tick_due s then s\<lparr>dm_ticks := next_tick (dm_ticks s), dm_dirty := False\<rparr>
      else case reconcile (es_crate es) (dm_engine s) of
             (d, ok) \<Rightarrow> s\<lparr>dm_engine := d, dm_ticks := 0, dm_dirty := \<not> ok\<rparr>)"

definition daemon_step :: "'k engine_setup \<Rightarrow> input \<Rightarrow> 'k daemon \<Rightarrow> 'k daemon" where
  "daemon_step es i s =
     (case i of
        Request who req \<Rightarrow> s\<lparr>dm_engine := fst (serve es who req (dm_engine s))\<rparr>
      | Receive r \<Rightarrow> receive r s
      | Dispatch proc \<Rightarrow> dispatch proc s
      | Tick \<Rightarrow> tick es s)"

definition daemon_start :: "'k engine_setup \<Rightarrow> bool \<Rightarrow> 'k engine \<Rightarrow> 'k daemon option" where
  "daemon_start es readable d =
     map_option (\<lambda>d'. \<lparr>dm_engine = d', dm_queue = [], dm_dirty = False, dm_ticks = 0\<rparr>)
       (engine_start es readable d)"

end
