(* ===== verification/Net_Roundtrip.thy ===== *)
theory Net_Roundtrip
  imports Net_Addr
begin

text \<open>
  Printing an address and parsing it again gives the address back, for IPv6 too: the routes of the bypass are
  stored as text and validated again when the daemon starts.
\<close>

section \<open>Groups\<close>

lemma digits_in_length: "n < Suc (Suc b) ^ Suc k \<Longrightarrow> length (digits_in b n) \<le> Suc k"
proof (induction k arbitrary: n)
  case 0
  then show ?case by (simp add: digits_in.simps [of b n])
next
  case (Suc k)
  have "n div Suc (Suc b) < Suc (Suc b) ^ Suc k"
    using Suc.prems by (simp add: less_mult_imp_div_less mult.commute)
  then show ?case using Suc.IH [of "n div Suc (Suc b)"] by (simp add: digits_in.simps [of b n])
qed

lemma digits_in_ne [simp]: "digits_in b n \<noteq> []"
  by (simp add: digits_in.simps [of b n])

lemma lower_hex_digits: "lower_hex g = map digit_char (digits_in 14 g)"
  by (simp add: lower_hex_def hex_def Let_def)

lemma to_digit_hex: "d < 16 \<Longrightarrow> to_digit 16 (digit_char d) = Some d"
  by (auto simp: to_digit_def digit_char_def is_ascii_digit_def is_ascii_lowercase_def is_ascii_uppercase_def)

lemma digit_char_plain: "d < 16 \<Longrightarrow> digit_char d \<noteq> CHR ''.''"
proof
  assume "d < 16" "digit_char d = CHR ''.''"
  then have "to_digit 16 (CHR ''.'') = Some d" using to_digit_hex by metis
  then show False by (simp add: to_digit_def is_ascii_digit_def is_ascii_lowercase_def is_ascii_uppercase_def)
qed

lemma lower_hex_plain: "CHR ''.'' \<notin> set (lower_hex g)"
proof
  assume "CHR ''.'' \<in> set (lower_hex g)"
  then obtain d where "d \<in> set (digits_in 14 g)" "digit_char d = CHR ''.''" by (auto simp: lower_hex_digits)
  then show False using digits_in_less [of d 14 g] digit_char_plain [of d] by simp
qed

lemma lower_hex_value:
  "foldl (\<lambda>acc c. acc * 16 + the (to_digit 16 c)) 0 (lower_hex g) = g"
proof -
  have "foldl (\<lambda>acc c. acc * 16 + the (to_digit 16 c)) a (map digit_char ds)
      = foldl (\<lambda>acc c. acc * 16 + digit_val c) a (map digit_char ds)" if "\<forall>d \<in> set ds. d < 16" for ds a
    using that by (induction ds arbitrary: a) (auto simp: to_digit_hex digit_val_char)
  then show ?thesis
    using undigits_digits [of 14 g] digits_in_less [of _ 14 g] by (simp add: lower_hex_digits undigits_def)
qed

lemma read_number_hex:
  assumes "g < 65536" "r = [] \<or> hd r = CHR '':''"
  shows "read_number 16 4 True 65536 (lower_hex g @ r) = Some (g, r)"
proof -
  have "takeWhile (\<lambda>c. to_digit 16 c \<noteq> None) r = []"
    using assms(2) by (cases r) (auto simp: to_digit_def is_ascii_digit_def is_ascii_lowercase_def is_ascii_uppercase_def)
  moreover have "\<forall>c \<in> set (lower_hex g). to_digit 16 c \<noteq> None"
    using digits_in_less [of _ 14 g] by (auto simp: lower_hex_digits to_digit_hex)
  ultimately have tw: "takeWhile (\<lambda>c. to_digit 16 c \<noteq> None) (lower_hex g @ r) = lower_hex g"
    by (subst takeWhile_append2) (blast, simp)
  have "length (lower_hex g) \<le> 4" using digits_in_length [of g 14 3] assms(1) by (simp add: lower_hex_digits)
  moreover have "lower_hex g \<noteq> []" by (simp add: lower_hex_digits)
  ultimately show ?thesis unfolding read_number_def Let_def tw using assms(1) by (simp add: lower_hex_value)
qed

lemma read_separator_missing: "c \<notin> set r \<Longrightarrow> read_separator c (Suc i) rd r = None"
  by (auto simp: read_separator_def read_given_char_def split: list.splits)

lemma read_ipv4_plain: "CHR ''.'' \<notin> set s \<Longrightarrow> read_ipv4_addr s = None"
proof -
  assume s: "CHR ''.'' \<notin> set s"
  have "CHR ''.'' \<notin> set r" if "read_number 10 3 False 256 s = Some (b, r)" for b r
    using that s by (auto simp: read_number_def Let_def dest: in_set_dropD split: if_splits)
  then have "read_ipv4_bytes (Suc (Suc n)) 0 s = None" for n
    by (cases "read_number 10 3 False 256 s") (auto simp: read_separator_def [of _ 0] read_separator_missing)
  from this [of 2] show ?thesis by (simp add: read_ipv4_addr_def)
qed

section \<open>Sequences of groups\<close>

definition colon_groups :: "nat list \<Rightarrow> string" where
  "colon_groups gs = concat (map (\<lambda>g. CHR '':'' # lower_hex g) gs)"

definition stops :: "string \<Rightarrow> bool" where
  "stops r \<longleftrightarrow> r = [] \<or> (\<exists>r'. r = CHR '':'' # CHR '':'' # r')"

lemma join_groups: "join '':'' (map lower_hex (g # gs)) = lower_hex g @ colon_groups gs"
  by (induction gs arbitrary: g) (auto simp: colon_groups_def)

lemma colon_groups_plain: "CHR ''.'' \<notin> set (colon_groups gs)"
  using lower_hex_plain by (auto simp: colon_groups_def)

lemma colon_groups_start: "r = [] \<or> hd r = CHR '':'' \<Longrightarrow> colon_groups gs @ r = [] \<or> hd (colon_groups gs @ r) = CHR '':''"
  by (cases gs) (auto simp: colon_groups_def)

lemma read_number_none: "s = [] \<or> hd s = CHR '':'' \<Longrightarrow> read_number 16 k z b s = None"
  by (cases s) (auto simp: read_number_def to_digit_def is_ascii_digit_def is_ascii_lowercase_def is_ascii_uppercase_def)

lemma stops_start: "stops r \<Longrightarrow> r = [] \<or> hd r = CHR '':''"
  by (auto simp: stops_def)

lemma read_groups_stop:
  assumes "CHR ''.'' \<notin> set r" "stops r"
  shows "read_groups n i r = ([], False, r)"
proof (cases n)
  case (Suc m)
  have "read_separator (CHR '':'') i read_ipv4_addr r = None"
    using assms by (auto simp: read_separator_def read_given_char_def read_ipv4_plain bind_eq_None_conv split: list.splits)
  moreover have "read_separator (CHR '':'') i (read_number 16 4 True 65536) r = None"
    using assms(2) by (auto simp: read_separator_def read_given_char_def read_number_none stops_def)
  ultimately show ?thesis by (simp add: Suc)
qed simp

lemma read_groups_colons:
  assumes "\<forall>g \<in> set gs. g < 65536" "length gs \<le> n" "CHR ''.'' \<notin> set r" "stops r"
  shows "read_groups n (Suc i) (colon_groups gs @ r) = (gs, False, r)"
  using assms
proof (induction gs arbitrary: n i)
  case Nil
  then show ?case by (simp add: colon_groups_def read_groups_stop)
next
  case (Cons g gs)
  then obtain m where n: "n = Suc m" by (cases n) auto
  let ?t = "colon_groups gs @ r"
  have t: "colon_groups (g # gs) @ r = CHR '':'' # lower_hex g @ ?t" by (simp add: colon_groups_def)
  have "CHR ''.'' \<notin> set (lower_hex g @ ?t)" using Cons.prems(3) lower_hex_plain colon_groups_plain by auto
  then have "read_separator (CHR '':'') (Suc i) read_ipv4_addr (CHR '':'' # lower_hex g @ ?t) = None"
    by (simp add: read_separator_def read_given_char_def read_ipv4_plain)
  moreover have "read_separator (CHR '':'') (Suc i) (read_number 16 4 True 65536) (CHR '':'' # lower_hex g @ ?t) = Some (g, ?t)"
    using Cons.prems colon_groups_start [OF stops_start [OF Cons.prems(4)], of gs]
    by (simp add: read_separator_def read_given_char_def read_number_hex)
  moreover have "read_groups m (Suc (Suc i)) ?t = (gs, False, r)" using Cons n by simp
  ultimately show ?case by (simp only: t n read_groups.simps) simp
qed

lemma read_groups_join:
  assumes "\<forall>g \<in> set gs. g < 65536" "length gs \<le> n" "CHR ''.'' \<notin> set r" "stops r"
  shows "read_groups n 0 (join '':'' (map lower_hex gs) @ r) = (gs, False, r)"
proof (cases gs)
  case Nil
  then show ?thesis using assms by (simp add: read_groups_stop)
next
  case (Cons g hs)
  then obtain m where n: "n = Suc m" using assms(2) by (cases n) auto
  let ?t = "colon_groups hs @ r"
  have t: "join '':'' (map lower_hex gs) @ r = lower_hex g @ ?t" by (simp only: Cons join_groups append_assoc)
  have "CHR ''.'' \<notin> set (lower_hex g @ ?t)" using assms(3) lower_hex_plain colon_groups_plain by auto
  then have "read_separator (CHR '':'') 0 read_ipv4_addr (lower_hex g @ ?t) = None"
    by (simp add: read_separator_def read_ipv4_plain)
  moreover have "read_separator (CHR '':'') 0 (read_number 16 4 True 65536) (lower_hex g @ ?t) = Some (g, ?t)"
    using assms Cons colon_groups_start [OF stops_start [OF assms(4)], of hs]
    by (simp add: read_separator_def read_number_hex)
  moreover have "read_groups m (Suc 0) ?t = (hs, False, r)" using assms Cons n by (intro read_groups_colons) auto
  ultimately show ?thesis by (simp only: t n read_groups.simps) (simp add: Cons)
qed

section \<open>The run of zeros\<close>

definition zeros_at :: "nat list \<Rightarrow> nat \<times> nat \<Rightarrow> bool" where
  "zeros_at gs p \<longleftrightarrow> fst p + snd p \<le> length gs \<and> take (snd p) (drop (fst p) gs) = replicate (snd p) 0"

lemma zeros_at_append: "zeros_at gs p \<Longrightarrow> zeros_at (gs @ hs) p"
  by (simp add: zeros_at_def)

lemma zero_span_run:
  assumes "zeros_at pre longest" "zeros_at pre current" "snd current \<noteq> 0 \<longrightarrow> fst current + snd current = length pre"
  shows "zeros_at (pre @ gs) (zero_span (length pre) longest current gs)"
  using assms
proof (induction gs arbitrary: pre longest current)
  case (Cons g gs)
  note longest = zeros_at_append [OF Cons.prems(1), of "[g]"]
  show ?case
  proof (cases "g = 0")
    case False
    then show ?thesis using Cons.IH [OF longest, of "(0, 0)"] by (simp add: zeros_at_def)
  next
    case True
    define c where "c = (if snd current = 0 then (length pre, 1) else (fst current, snd current + 1))"
    have "replicate (snd current) 0 @ [0] = 0 # replicate (snd current) (0 :: nat)"
      by (simp add: replicate_append_same)
    then have c: "zeros_at (pre @ [g]) c" "fst c + snd c = length (pre @ [g])"
      using Cons.prems True by (auto simp: c_def zeros_at_def)
    have "zeros_at (pre @ [g]) (if snd longest < snd c then c else longest)" using c(1) longest by simp
    from Cons.IH [OF this c(1)] c(2)
    have "zeros_at ((pre @ [g]) @ gs) (zero_span (length (pre @ [g])) (if snd longest < snd c then c else longest) c gs)"
      by simp
    then show ?thesis using True unfolding zero_span.simps Let_def c_def [symmetric] by simp
  qed
qed simp

lemma zero_span_split:
  assumes "zero_span 0 (0, 0) (0, 0) gs = (start, len)"
  shows "gs = take start gs @ replicate len 0 @ drop (start + len) gs" "start + len \<le> length gs"
proof -
  have z: "zeros_at gs (start, len)"
    using zero_span_run [where pre = "[]" and longest = "(0, 0)" and current = "(0, 0)" and gs = gs] assms
    by (simp add: zeros_at_def)
  then show "start + len \<le> length gs" by (simp add: zeros_at_def)
  have "gs = take start gs @ take len (drop start gs) @ drop (start + len) gs"
    by (metis add.commute append_take_drop_id drop_drop)
  with z show "gs = take start gs @ replicate len 0 @ drop (start + len) gs" by (simp add: zeros_at_def)
qed

section \<open>Round trip\<close>

lemma read_ipv4_show:
  assumes "length bs = 4" "\<forall>b \<in> set bs. b < 256"
  shows "read_ipv4_addr (show_ipv4 bs) = Some (bs, [])"
  using parse_show_ipv4 [of bs] assms
  by (auto simp: parse_ip_def read_ip_addr_def ip_wf_def split: option.splits list.splits)

lemma read_ipv6_full:
  assumes "\<forall>g \<in> set gs. g < 65536" "length gs = 8"
  shows "read_ipv6_addr (join '':'' (map lower_hex gs)) = Some (gs, [])"
  using read_groups_join [of gs 8 "[]"] assms by (simp add: read_ipv6_addr_def stops_def)

lemma read_ipv6_compressed:
  assumes "\<forall>g \<in> set (a @ b). g < 65536" "length a + k + length b = 8" "1 < k"
  shows "read_ipv6_addr (join '':'' (map lower_hex a) @ ''::'' @ join '':'' (map lower_hex b)) = Some (a @ replicate k 0 @ b, [])"
proof -
  let ?b = "join '':'' (map lower_hex b)"
  have "CHR ''.'' \<notin> set ?b" by (cases b) (use join_groups lower_hex_plain colon_groups_plain in auto)
  then have "read_groups 8 0 (join '':'' (map lower_hex a) @ ''::'' @ ?b) = (a, False, ''::'' @ ?b)"
    using assms by (intro read_groups_join) (auto simp: stops_def)
  moreover have "read_groups (8 - (length a + 1)) 0 (?b @ []) = (b, False, [])"
    using assms by (intro read_groups_join) (auto simp: stops_def)
  ultimately show ?thesis using assms by (auto simp: read_ipv6_addr_def read_given_char_def)
qed

lemma read_ipv4_none: "read_number 10 3 False 256 s = None \<Longrightarrow> read_ipv4_addr s = None"
proof -
  assume "read_number 10 3 False 256 s = None"
  then have "read_ipv4_bytes (Suc n) 0 s = None" for n by (simp add: read_separator_def)
  from this [of 3] show ?thesis by (simp add: read_ipv4_addr_def)
qed

lemma read_ipv4_colon: "read_ipv4_addr (''::'' @ u) = None" "read_ipv4_addr (''ffff:'' @ u) = None"
  by (rule read_ipv4_none, simp add: read_number_def to_digit_def is_ascii_digit_def is_ascii_lowercase_def is_ascii_uppercase_def)+

lemma read_ipv6_mapped:
  assumes "length bs = 4" "\<forall>b \<in> set bs. b < 256"
  shows "read_ipv6_addr (''::ffff:'' @ show_ipv4 bs)
    = Some ([0, 0, 0, 0, 0, 65535, bs ! 0 * 256 + bs ! 1, bs ! 2 * 256 + bs ! 3], [])"
proof -
  let ?s = "show_ipv4 bs"
  have "read_groups (Suc n) 0 (''::ffff:'' @ ?s) = ([], False, ''::ffff:'' @ ?s)" for n
    using read_ipv4_colon(1) [of "''ffff:'' @ ?s"] by (simp add: read_separator_def read_number_none)
  from this [of 7] have head: "read_groups 8 0 (''::ffff:'' @ ?s) = ([], False, ''::ffff:'' @ ?s)" by simp
  have "read_number 16 4 True 65536 (''ffff:'' @ ?s) = Some (65535, CHR '':'' # ?s)"
    by (simp add: read_number_def to_digit_def is_ascii_digit_def is_ascii_lowercase_def is_ascii_uppercase_def)
  then have "read_groups (Suc (Suc (Suc n))) 0 (''ffff:'' @ ?s)
      = ([65535, bs ! 0 * 256 + bs ! 1, bs ! 2 * 256 + bs ! 3], True, [])" for n
    using read_ipv4_colon(2) [of ?s] read_ipv4_show [OF assms]
    by (simp add: read_separator_def read_given_char_def)
  from this [of 4] have "read_groups 7 0 (''ffff:'' @ ?s)
      = ([65535, bs ! 0 * 256 + bs ! 1, bs ! 2 * 256 + bs ! 3], True, [])" by simp
  moreover have "replicate 5 0 = [0, 0, 0, 0, 0 :: nat]" by (simp add: eval_nat_numeral)
  ultimately show ?thesis using head by (simp add: read_ipv6_addr_def read_given_char_def)
qed

lemma read_ipv4_hex_text: "CHR ''.'' \<notin> set (join '':'' (map lower_hex gs))"
  using lower_hex_plain colon_groups_plain by (cases gs) (simp, simp only: join_groups, simp)

lemma read_show_mapped:
  assumes gs: "length gs = 8" "\<forall>g \<in> set gs. g < 65536" and m: "take 6 gs = [0, 0, 0, 0, 0, 65535]"
  shows "read_ipv4_addr (show_ipv6 gs) = None \<and> read_ipv6_addr (show_ipv6 gs) = Some (gs, [])"
proof -
  define bs where "bs = [gs ! 6 div 256, gs ! 6 mod 256, gs ! 7 div 256, gs ! 7 mod 256]"
  have "gs ! 6 < 65536" "gs ! 7 < 65536" using gs by simp_all
  then have "\<forall>b \<in> set bs. b < 256" by (auto simp: bs_def)
  moreover have "bs ! 0 * 256 + bs ! 1 = gs ! 6" "bs ! 2 * 256 + bs ! 3 = gs ! 7" by (simp_all add: bs_def)
  moreover have "length bs = 4" by (simp add: bs_def)
  ultimately have r: "read_ipv6_addr (''::ffff:'' @ show_ipv4 bs) = Some ([0, 0, 0, 0, 0, 65535, gs ! 6, gs ! 7], [])"
    by (metis read_ipv6_mapped)
  have "take 6 gs @ drop 6 gs = gs" by (rule append_take_drop_id)
  moreover have "drop 6 gs = [gs ! 6, gs ! 7]"
    using gs(1) Cons_nth_drop_Suc [of 6 gs] Cons_nth_drop_Suc [of 7 gs] by simp
  ultimately have "[0, 0, 0, 0, 0, 65535, gs ! 6, gs ! 7] = gs" by (simp only: m) simp
  with r have "read_ipv6_addr (''::ffff:'' @ show_ipv4 bs) = Some (gs, [])" by (simp only:)
  moreover have "show_ipv6 gs = ''::ffff:'' @ show_ipv4 bs" by (simp only: show_ipv6_def bs_def gs(1) m simp_thms if_True)
  moreover have "read_ipv4_addr (''::ffff:'' @ show_ipv4 bs) = None"
    using read_ipv4_colon(1) [of "''ffff:'' @ show_ipv4 bs"] by simp
  ultimately show ?thesis by (simp only: simp_thms)
qed

lemma read_show_plain:
  assumes gs: "length gs = 8" "\<forall>g \<in> set gs. g < 65536" and m: "take 6 gs \<noteq> [0, 0, 0, 0, 0, 65535]"
  shows "read_ipv4_addr (show_ipv6 gs) = None \<and> read_ipv6_addr (show_ipv6 gs) = Some (gs, [])"
proof -
  obtain start len where z: "zero_span 0 (0, 0) (0, 0) gs = (start, len)" by force
  note sp = zero_span_split [OF z]
  show ?thesis
  proof (cases "1 < len")
    case True
    let ?a = "take start gs" and ?b = "drop (start + len) gs"
    let ?t = "join '':'' (map lower_hex ?a) @ ''::'' @ join '':'' (map lower_hex ?b)"
    have "read_ipv6_addr ?t = Some (?a @ replicate len 0 @ ?b, [])"
      using gs sp(2) True by (intro read_ipv6_compressed) (auto dest: in_set_takeD in_set_dropD)
    then have "read_ipv6_addr ?t = Some (gs, [])" by (simp only: sp(1) [symmetric])
    moreover have "read_ipv4_addr ?t = None"
      using read_ipv4_hex_text by (intro read_ipv4_plain) auto
    moreover have "show_ipv6 gs = ?t" using True m z by (simp add: show_ipv6_def)
    ultimately show ?thesis by (simp only: simp_thms)
  next
    case len: False
    then have "show_ipv6 gs = join '':'' (map lower_hex gs)" using m z by (simp add: show_ipv6_def)
    then show ?thesis using read_ipv6_full [OF gs(2,1)] read_ipv4_plain [OF read_ipv4_hex_text] by simp
  qed
qed

lemma parse_show_ip:
  assumes "ip_wf a"
  shows "parse_ip (show_ip a) = Some a"
proof (cases a)
  case (V4 bs)
  then show ?thesis using assms parse_show_ipv4 by simp
next
  case (V6 gs)
  then have "length gs = 8" "\<forall>g \<in> set gs. g < 65536" using assms by (simp_all add: ip_wf_def)
  then have "read_ipv4_addr (show_ipv6 gs) = None \<and> read_ipv6_addr (show_ipv6 gs) = Some (gs, [])"
    using read_show_mapped read_show_plain by blast
  then show ?thesis by (simp add: V6 parse_ip_def read_ip_addr_def)
qed

end
