(* ===== verification/Split_Service_Laws.thy ===== *)
theory Split_Service_Laws
  imports Split_Service Net_Roundtrip
begin

text \<open>
  Laws of the split-tunneling service: routes that were parsed once survive being stored, every operation keeps what the
  state file's reader checks (\<open>service_ok\<close>) on all its branches, and without failing \<open>bpf\<close> calls it keeps the kernel maps
  in step (\<open>synced\<close>). The two invariants are interpretations of \<open>step_system\<close> on the daemon's step function.
\<close>

section \<open>Routes survive being stored\<close>

lemma trim_end_empty: "trim_end s = [] \<Longrightarrow> ws_front s = None \<Longrightarrow> s = []"
proof (induction s rule: trim_end.induct)
  case (1 s)
  show ?case
  proof (cases "ws_back s")
    case None
    then show ?thesis using 1 by (simp add: trim_end.simps [of s])
  next
    case (Some k)
    then have "take (length s - k) s = []"
      using 1 ws_front_take [of s] by (simp add: trim_end.simps [of s])
    then have k: "s = [] \<or> k = length s" using ws_back_bounds [OF Some] by auto
    moreover have "k \<in> {1, 2, 3}" "is_ws_char (drop (length s - k) s)"
      using Some by (auto simp: ws_back_def split: if_splits)
    ultimately show ?thesis using 1(3) by (auto simp: ws_front_None)
  qed
qed

lemma trim_not_empty: "ws_front s = None \<Longrightarrow> s \<noteq> [] \<Longrightarrow> trim s \<noteq> []"
  using trim_end_empty [of s] by (auto simp: trim_def trim_start.simps [of s])

lemma white_space_start: "w \<in> set white_space \<Longrightarrow> \<exists>b bs. w = b # bs \<and> (b < 48 \<or> 128 \<le> b)"
  by (auto simp: white_space_def)

lemma ws_front_digit: "to_digit 16 c \<noteq> None \<or> c = CHR '':'' \<Longrightarrow> ws_front (c # s) = None"
proof -
  assume "to_digit 16 c \<noteq> None \<or> c = CHR '':''"
  then have "48 \<le> byte c \<and> byte c < 128"
    by (auto simp: to_digit_def is_ascii_digit_def is_ascii_lowercase_def is_ascii_uppercase_def split: if_splits)
  then have "\<not> is_ws_char (c # t)" for t
    using white_space_start [of "map byte (c # t)"] by (auto simp: is_ws_char_def)
  then show ?thesis by (auto simp: ws_front_None)
qed

lemma read_number_blank: "to_digit radix c = None \<Longrightarrow> read_number radix k z b (c # s) = None"
  by (simp add: read_number_def)

lemma to_digit_16_10: "to_digit 16 c = None \<Longrightarrow> to_digit 10 c = None"
  by (auto simp: to_digit_def Let_def split: if_splits)

lemma parse_ip_blank: "parse_ip s = Some a \<Longrightarrow> trim s \<noteq> []"
proof -
  assume p: "parse_ip s = Some a"
  have "\<exists>c r. s = c # r \<and> (to_digit 16 c \<noteq> None \<or> c = CHR '':'')"
  proof (rule ccontr)
    assume no: "\<not> ?thesis"
    have n: "read_number 16 k z b s = None" "read_number 10 k z b s = None" "read_given_char (CHR '':'') s = None" for k z b
      using no to_digit_16_10 by (cases s; auto simp: read_number_blank read_given_char_def; simp add: read_number_def)+
    have "read_groups (Suc m) 0 s = ([], False, s)" for m
      using n(1,2) read_ipv4_none by (simp add: read_separator_def)
    from this [of 7] have "read_ipv6_addr s = None" using n(3) by (simp add: read_ipv6_addr_def)
    then show False using p n(2) read_ipv4_none by (simp add: parse_ip_def read_ip_addr_def)
  qed
  then show ?thesis using ws_front_digit trim_not_empty by fastforce
qed

lemma route_parse_stable:
  assumes "route_parse family gateway interface = Inr r"
  shows "route_validated r = Inr r"
proof -
  obtain fam where fam: "family = family_text fam" "pr_family r = fam"
    and i: "interface \<noteq> []" "length interface \<le> 15" "list_all interface_char interface" "\<not> is_proton_interface interface"
      "pr_interface r = interface"
    and g: "pr_gateway r = None \<or> (\<exists>a. pr_gateway r = Some a \<and> parse_ip gateway = Some a \<and> (is_v4 a \<longleftrightarrow> fam = Ipv4))"
    using assms by (auto simp: route_parse_def rbind_Inr family_text_def split: if_splits option.splits)
  have ft: "(if family_text fam = ''ipv4'' then Inr Ipv4 else if family_text fam = ''ipv6'' then Inr Ipv6
            else Inl ''route family must be ipv4 or ipv6'') = (Inr fam :: string + address_family)"
    by (cases fam) (simp_all add: family_text_def)
  show ?thesis
  proof (cases "pr_gateway r")
    case None
    then show ?thesis using fam i by (cases r) (simp add: route_validated_def route_parse_def ft not_less [symmetric])
  next
    case (Some a)
    with g have a: "parse_ip gateway = Some a" "is_v4 a \<longleftrightarrow> fam = Ipv4" by auto
    then have "parse_ip (show_ip a) = Some a" using parse_ip_wf parse_show_ip by blast
    moreover from this have "trim (show_ip a) \<noteq> []" by (rule parse_ip_blank)
    ultimately show ?thesis using fam i a(2) Some
      by (cases r) (simp add: route_validated_def route_parse_def ft not_less [symmetric])
  qed
qed

definition routes_ok :: "physical_route list \<Rightarrow> bool" where
  "routes_ok rs \<longleftrightarrow> rs \<noteq> [] \<and> length rs \<le> 2 \<and> distinct (map pr_family rs) \<and> (\<forall>r \<in> set rs. route_validated r = Inr r)"

lemma preferred_routes_alt:
  "preferred_routes rs =
     (case find (\<lambda>r. pr_family r = Ipv4) (sort_key route_key (remdups rs)) of None \<Rightarrow> [] | Some r \<Rightarrow> [r])
     @ (case find (\<lambda>r. pr_family r = Ipv6) (sort_key route_key (remdups rs)) of None \<Rightarrow> [] | Some r \<Rightarrow> [r])"
  by (simp add: preferred_routes_def map_filter_simps split: option.splits)

lemma find_family: "find (\<lambda>r. pr_family r = f) us = Some r \<Longrightarrow> pr_family r = f \<and> r \<in> set us"
  by (auto simp: find_Some_iff)

lemma preferred_routes_ok:
  assumes "\<forall>r \<in> set rs. route_validated r = Inr r" "preferred_routes rs \<noteq> []"
  shows "routes_ok (preferred_routes rs)"
  using assms unfolding preferred_routes_alt routes_ok_def
  by (auto dest!: find_family split: option.splits)

lemma routing_enable_result:
  "routing_enable t uid rs k = (k', Inr rs') \<Longrightarrow> rs' = preferred_routes rs \<and> rs' \<noteq> []"
  by (auto simp: routing_enable_def Let_def split: if_splits prod.splits sum.splits)

lemma ip_enable_ok:
  assumes "ip_enable es uid rs d = (d', Some installed)" "\<forall>r \<in> set rs. route_validated r = Inr r"
  shows "routes_ok installed"
  using assms routing_enable_result preferred_routes_ok
  by (fastforce simp: ip_enable_def result_ok_def split: prod.splits sum.splits)


section \<open>Rules of all users\<close>

text \<open>What holds of the rules in memory at every moment: sorted maps, validated entries, at most 64 users, and bypass
  routes only for users whose rules need them. It is what reading the state file checks.\<close>

definition rules_ok :: "ipnet_crate \<Rightarrow> config_map \<Rightarrow> policy_map \<Rightarrow> bool" where
  "rules_ok cr configs policies \<longleftrightarrow>
     obj_wf configs \<and> obj_wf policies
     \<and> (\<forall>uid c. obj_get configs uid = Some c \<longrightarrow> config_validate cr c = Inr c)
     \<and> (\<forall>uid rs. obj_get policies uid = Some rs \<longrightarrow> validate_ip_ranges cr rs = Inr rs)
     \<and> card (fst ` set configs \<union> fst ` set policies) \<le> MAX_CONFIGS"

definition routes_fit :: "config_map \<Rightarrow> bypass_map \<Rightarrow> bool" where
  "routes_fit configs bypass \<longleftrightarrow>
     obj_wf bypass
     \<and> (\<forall>uid rs. obj_get bypass uid = Some rs \<longrightarrow>
          routes_ok rs \<and> (\<exists>c. obj_get configs uid = Some c \<and> has_rules c))"

definition service_ok :: "'k engine_setup \<Rightarrow> 'k engine \<Rightarrow> bool" where
  "service_ok es d \<longleftrightarrow>
     rules_ok (es_crate es) (en_configs d) (en_policies d) \<and> routes_fit (en_configs d) (en_bypass d)
     \<and> (es_routing es \<or> en_bypass d = [])"

text \<open>The laws of the CIDR crate for every text (see \<open>canonical_range\<close>).\<close>

definition crate_ok :: "ipnet_crate \<Rightarrow> bool" where
  "crate_ok cr \<longleftrightarrow> (\<forall>s. canonical_range cr s)"

lemma obj_mem: "obj_wf m \<Longrightarrow> (k, v) \<in> set m \<longleftrightarrow> obj_get m k = Some v"
  using wf_distinct [of m] by (simp add: obj_get_def)

lemma obj_keys: "fst ` set m = {k. obj_get m k \<noteq> None}"
  by (auto simp: obj_get_def map_of_eq_None_iff)

lemma obj_length: "obj_wf m \<Longrightarrow> length m = card (fst ` set m)"
  using wf_distinct [of m] by (metis distinct_card length_map list.set_map)

lemma service_loadable:
  assumes "service_ok es d"
  shows "loadable (es_crate es) (en_configs d) (en_policies d) (en_bypass d)"
proof -
  have wf: "obj_wf (en_configs d)" "obj_wf (en_policies d)" "obj_wf (en_bypass d)"
    using assms by (auto simp: service_ok_def rules_ok_def routes_fit_def)
  have "card (fst ` set (en_configs d)) \<le> card (fst ` set (en_configs d) \<union> fst ` set (en_policies d))"
    "card (fst ` set (en_policies d)) \<le> card (fst ` set (en_configs d) \<union> fst ` set (en_policies d))"
    by (auto intro: card_mono)
  then have "length (en_configs d) \<le> MAX_CONFIGS" "length (en_policies d) \<le> MAX_CONFIGS"
    using assms wf by (auto simp: service_ok_def rules_ok_def obj_length)
  moreover have "list_all (bypass_ok (en_configs d)) (en_bypass d)"
    unfolding list_all_iff
  proof
    fix e assume e: "e \<in> set (en_bypass d)"
    obtain uid rs where u: "e = (uid, rs)" by force
    with e have "obj_get (en_bypass d) uid = Some rs" using obj_mem [OF wf(3)] by blast
    then show "bypass_ok (en_configs d) e"
      using assms unfolding u bypass_ok_def by (auto simp: service_ok_def routes_fit_def routes_ok_def)
  qed
  ultimately show ?thesis using assms wf by (auto simp: loadable_def service_ok_def rules_ok_def obj_mem)
qed

lemma rules_parse:
  assumes "crate_ok cr" "rules_ok cr configs policies"
  shows "parses cr configs policies"
proof -
  have ok: "\<not> is_err (parse_ip_range cr r)" if "validate_ip_ranges cr rs = Inr rs" "r \<in> set rs" for r rs
    using validated_parses [OF that(1) _ that(2)] assms(1) by (simp add: crate_ok_def)
  have "validate_ip_ranges cr (sp_ip_ranges c) = Inr (sp_ip_ranges c)" if "config_validate cr c = Inr c" for c
    using that by (auto simp: config_validate_def rbind_Inr split: if_splits) (metis split_config.select_convs(3))
  with ok have "config_validate cr c = Inr c \<Longrightarrow> r \<in> set (sp_ip_ranges c) \<Longrightarrow> \<not> is_err (parse_ip_range cr r)" for c r
    by blast
  then show ?thesis using assms(2) ok by (auto simp: parses_def rules_ok_def obj_mem) blast+
qed

lemma limit_insert:
  assumes "card (fst ` set (en_configs d) \<union> fst ` set (en_policies d)) \<le> MAX_CONFIGS" "\<not> user_limit_reached uid d"
  shows "card (insert uid (fst ` set (en_configs d) \<union> fst ` set (en_policies d))) \<le> MAX_CONFIGS"
proof (cases "uid \<in> fst ` set (en_configs d) \<union> fst ` set (en_policies d)")
  case True
  then show ?thesis using assms(1) by (simp add: insert_absorb)
next
  case False
  then show ?thesis
    using assms(2) by (auto simp: user_limit_reached_def configured_user_count_def obj_keys)
qed

lemma keys_insert_image: "fst ` set (obj_insert k v m) = insert k (fst ` set m)"
  using keys_insert [of k v m] by simp

lemma rules_ok_insert:
  assumes "rules_ok cr (en_configs d) (en_policies d)" "\<not> user_limit_reached uid d"
  shows "config_validate cr c = Inr c \<Longrightarrow> rules_ok cr (obj_insert uid c (en_configs d)) (en_policies d)"
    and "validate_ip_ranges cr rs = Inr rs \<Longrightarrow> rules_ok cr (en_configs d) (obj_insert uid rs (en_policies d))"
  using assms limit_insert [of d uid] by (auto simp: rules_ok_def obj.wf_insert keys_insert_image)

lemma rules_ok_remove:
  assumes "rules_ok cr configs policies"
  shows "rules_ok cr (obj_remove uid configs) policies" "rules_ok cr configs (obj_remove uid policies)"
proof -
  have sub: "fst ` set (obj_remove uid m) \<subseteq> fst ` set m" for m :: "(u16 \<times> 'v) list"
    by (auto simp: obj_remove_def)
  have "card (fst ` set (obj_remove uid configs) \<union> fst ` set policies) \<le> card (fst ` set configs \<union> fst ` set policies)"
    "card (fst ` set configs \<union> fst ` set (obj_remove uid policies)) \<le> card (fst ` set configs \<union> fst ` set policies)"
    using sub [of configs] sub [of policies] by (auto intro!: card_mono)
  then show "rules_ok cr (obj_remove uid configs) policies" "rules_ok cr configs (obj_remove uid policies)"
    using assms by (auto simp: rules_ok_def obj.wf_remove)
qed

lemma put_back_insert: "obj_wf m \<Longrightarrow> put_back uid (obj_get m uid) (obj_insert uid v m) = m"
  by (cases "obj_get m uid") (simp_all add: put_back_def obj.remove_insert obj.insert_same obj.insert_id)

lemma remove_absent: "obj_wf m \<Longrightarrow> obj_get m k = None \<Longrightarrow> obj_remove k m = m"
  by (intro obj.ext) (auto simp: obj.wf_remove)

lemma put_back_remove: "obj_wf m \<Longrightarrow> put_back uid (obj_get m uid) (obj_remove uid m) = m"
  by (cases "obj_get m uid") (simp_all add: put_back_def obj.insert_remove remove_absent)

section \<open>What an operation leaves\<close>

lemma reconcile_and_save_frame:
  assumes "reconcile_and_save es d = (d', ok)"
  shows "en_configs d' = en_configs d \<and> en_policies d' = en_policies d \<and> en_bypass d' = en_bypass d"
    and "ok \<Longrightarrow> \<exists>w. state_save (es_store es) (en_configs d') (en_policies d') (en_bypass d') w = (en_world d', True)"
proof -
  obtain d1 ok1 where r: "reconcile (es_crate es) d = (d1, ok1)" by force
  have f: "same_policy d d1" using reconcile_frame [of "es_crate es" d] r by simp
  show "en_configs d' = en_configs d \<and> en_policies d' = en_policies d \<and> en_bypass d' = en_bypass d"
    using assms r f by (auto simp: reconcile_and_save_def save_engine_def split: if_splits prod.splits)
  show "ok \<Longrightarrow> \<exists>w. state_save (es_store es) (en_configs d') (en_policies d') (en_bypass d') w = (en_world d', True)"
    using assms r f by (auto simp: reconcile_and_save_def save_engine_def split: if_splits prod.splits)
qed

lemma reconcile_and_save_synced:
  assumes "en_faults d = []" "marks_ok (es_crate es) d" "crate_ok (es_crate es)"
    and "rules_ok (es_crate es) (en_configs d) (en_policies d)"
  shows "synced (es_crate es) (fst (reconcile_and_save es d)) \<and> en_faults (fst (reconcile_and_save es d)) = []"
proof -
  have "synced (es_crate es) (fst (reconcile (es_crate es) d)) \<and> en_faults (fst (reconcile (es_crate es) d)) = []"
    using assms rules_parse [OF assms(3,4)] by (intro reconcile_synced) (auto simp: rules_ok_def)
  then show ?thesis
    by (auto simp: reconcile_and_save_def save_engine_def split: prod.splits if_splits)
qed


section \<open>Bypass routes of one user\<close>

text \<open>\<open>same_engine\<close>: only the routing tables and the bypass routes differ.\<close>

definition rerouted :: "'k engine \<Rightarrow> bypass_map \<Rightarrow> 'k engine \<Rightarrow> bool" where
  "rerouted d b d' \<longleftrightarrow> (\<exists>k. d' = d\<lparr>en_net := k, en_bypass := b\<rparr>)"

lemma rerouted_fields:
  assumes "rerouted d b d'"
  shows "en_configs d' = en_configs d" "en_policies d' = en_policies d" "en_bypass d' = b" "en_world d' = en_world d"
    "en_faults d' = en_faults d" "synced cr d' = synced cr d" "marks_ok cr d' = marks_ok cr d"
  using assms by (auto simp: rerouted_def)

lemma ip_disable_rerouted: "ip_disable es uid rs d = (d', ok) \<Longrightarrow> rerouted d (en_bypass d) d'"
  by (auto simp: ip_disable_def rerouted_def split: prod.splits)

lemma ip_enable_rerouted: "ip_enable es uid rs d = (d', r) \<Longrightarrow> rerouted d (en_bypass d) d'"
  by (auto simp: ip_enable_def rerouted_def split: prod.splits)

lemma rerouted_trans: "rerouted d b d' \<Longrightarrow> rerouted d' b' d'' \<Longrightarrow> rerouted d b' d''"
  by (auto simp: rerouted_def)

lemma rerouted_self: "rerouted d (en_bypass d) d" "rerouted d b (d\<lparr>en_bypass := b\<rparr>)"
proof -
  have "d = d\<lparr>en_net := en_net d, en_bypass := en_bypass d\<rparr>" "d\<lparr>en_bypass := b\<rparr> = d\<lparr>en_net := en_net d, en_bypass := b\<rparr>"
    by simp_all
  then show "rerouted d (en_bypass d) d" "rerouted d b (d\<lparr>en_bypass := b\<rparr>)" unfolding rerouted_def by blast+
qed

lemma drop_bypass_rerouted:
  assumes "drop_bypass es uid d = (d', ok)" "obj_wf (en_bypass d)"
  shows "rerouted d (if ok then obj_remove uid (en_bypass d) else en_bypass d) d'"
proof (cases "obj_get (en_bypass d) uid")
  case None
  then have "obj_remove uid (en_bypass d) = en_bypass d" using assms(2) by (simp add: remove_absent)
  then show ?thesis using assms(1) None rerouted_self(1) by (auto simp: drop_bypass_def)
next
  case (Some rs)
  obtain d1 ok1 where i: "ip_disable es uid rs d = (d1, ok1)" by force
  note r = ip_disable_rerouted [OF i]
  show ?thesis
    using assms(1) Some i r rerouted_fields(3) [OF r] rerouted_trans [OF r rerouted_self(2)]
    by (auto simp: drop_bypass_def split: if_splits)
qed

definition regained :: "u16 \<Rightarrow> physical_route list option \<Rightarrow> bypass_map \<Rightarrow> bypass_map \<Rightarrow> bool" where
  "regained uid previous b b' \<longleftrightarrow>
     b' = b \<or> (previous \<noteq> None \<and> (\<exists>rs. routes_ok rs \<and> b' = obj_insert uid rs b))"

lemma restore_bypass_rerouted:
  assumes "\<forall>rs. previous = Some rs \<longrightarrow> routes_ok rs"
  shows "\<exists>b. rerouted d b (restore_bypass es uid previous d) \<and> regained uid previous (en_bypass d) b"
proof (cases previous)
  case None
  then show ?thesis using rerouted_self(1) by (auto simp: restore_bypass_def regained_def)
next
  case (Some rs)
  obtain d1 r where e: "ip_enable es uid rs d = (d1, r)" by force
  note re = ip_enable_rerouted [OF e]
  show ?thesis
  proof (cases r)
    case None
    then show ?thesis using Some e re by (auto simp: restore_bypass_def regained_def)
  next
    case ins: (Some installed)
    have "routes_ok installed" using e ins assms Some by (intro ip_enable_ok) (auto simp: routes_ok_def)
    moreover have "rerouted d (obj_insert uid installed (en_bypass d)) (d1\<lparr>en_bypass := obj_insert uid installed (en_bypass d1)\<rparr>)"
      using rerouted_trans [OF re rerouted_self(2)] rerouted_fields(3) [OF re] by simp
    ultimately show ?thesis using Some e ins by (auto simp: restore_bypass_def regained_def)
  qed
qed


section \<open>Effect of an operation\<close>

text \<open>An operation on the rules of one user, with the rules it is to establish: it keeps what must hold of the rules,
  changes nothing but those rules and the bypass routes of that user, changes no rule at all when it fails, has written
  the state file when it succeeds, and keeps the kernel in step when no \<open>bpf\<close> call fails.\<close>

definition effect :: "'k engine_setup \<Rightarrow> u16 \<Rightarrow> config_map \<Rightarrow> policy_map \<Rightarrow> 'k engine \<Rightarrow> 'k engine \<times> bool \<Rightarrow> bool" where
  "effect es uid configs policies d r \<longleftrightarrow>
     service_ok es (fst r)
     \<and> en_configs (fst r) = (if snd r then configs else en_configs d)
     \<and> en_policies (fst r) = (if snd r then policies else en_policies d)
     \<and> (\<forall>v. v \<noteq> uid \<longrightarrow> obj_get (en_bypass (fst r)) v = obj_get (en_bypass d) v)
     \<and> (en_faults d = [] \<and> synced (es_crate es) d \<longrightarrow> en_faults (fst r) = [] \<and> synced (es_crate es) (fst r))"

definition saved :: "'k engine_setup \<Rightarrow> 'k engine \<Rightarrow> bool" where
  "saved es d \<longleftrightarrow> (\<exists>w. state_save (es_store es) (en_configs d) (en_policies d) (en_bypass d) w = (en_world d, True))"

lemma effect_none: "service_ok es d \<Longrightarrow> effect es uid configs policies d (d, False)"
  by (simp add: effect_def)

lemma service_ok_wf:
  "service_ok es d \<Longrightarrow> obj_wf (en_configs d) \<and> obj_wf (en_policies d) \<and> obj_wf (en_bypass d)"
  by (auto simp: service_ok_def rules_ok_def routes_fit_def)

lemma routes_fit_remove:
  assumes "routes_fit configs b" "\<forall>v. v \<noteq> uid \<longrightarrow> obj_get configs' v = obj_get configs v"
  shows "routes_fit configs' (obj_remove uid b)"
  using assms by (auto simp: routes_fit_def obj.wf_remove)

lemma routes_fit_regained:
  assumes "routes_fit configs b" "regained uid previous b b'"
    and "previous \<noteq> None \<longrightarrow> (\<exists>c. obj_get configs uid = Some c \<and> has_rules c)"
  shows "routes_fit configs b'"
  using assms by (auto simp: routes_fit_def regained_def obj.wf_insert split: if_splits)

lemma regained_other: "regained uid previous b b' \<Longrightarrow> v \<noteq> uid \<Longrightarrow> obj_get b' v = obj_get b v"
  by (auto simp: regained_def)

lemma roll_back_synced:
  assumes "en_faults d = []" "synced (es_crate es) d" "crate_ok (es_crate es)" "rules_ok (es_crate es) oc op"
  shows "synced (es_crate es) (fst (reconcile (es_crate es) (d\<lparr>en_configs := oc, en_policies := op\<rparr>)))
    \<and> en_faults (fst (reconcile (es_crate es) (d\<lparr>en_configs := oc, en_policies := op\<rparr>))) = []"
  using assms rules_parse [OF assms(3,4)] by (intro reconcile_synced) (auto simp: rules_ok_def synced_marks)

text \<open>The common middle of the three operations: new rules are put in place, reconciled and saved; on failure the
  old rules are put back and reconciled.\<close>

lemma commit:
  assumes ok: "service_ok es d" "crate_ok (es_crate es)" and new: "rules_ok (es_crate es) configs policies"
    and d1: "rerouted d b d1"
    and run: "reconcile_and_save es (d1\<lparr>en_configs := configs, en_policies := policies\<rparr>) = (d2, fin)"
  shows "en_configs d2 = configs" "en_policies d2 = policies" "en_bypass d2 = b"
    and "fin \<Longrightarrow> saved es d2"
    and "en_faults d = [] \<and> synced (es_crate es) d \<Longrightarrow> en_faults d2 = [] \<and> synced (es_crate es) d2"
proof -
  note f = rerouted_fields [OF d1] reconcile_and_save_frame(1) [OF run]
  show "en_configs d2 = configs" "en_policies d2 = policies" "en_bypass d2 = b" using f by simp_all
  show "fin \<Longrightarrow> saved es d2" using reconcile_and_save_frame(2) [OF run] by (simp add: saved_def)
  show "en_faults d2 = [] \<and> synced (es_crate es) d2" if "en_faults d = [] \<and> synced (es_crate es) d"
    using reconcile_and_save_synced [of "d1\<lparr>en_configs := configs, en_policies := policies\<rparr>" es] run f new ok(2) that
    by (simp add: synced_marks)
qed

lemma restored_fit:
  assumes fit: "routes_fit configs b0" and b: "b = b0 \<or> b = obj_remove uid b0" and r: "regained uid previous b b'"
    and previous: "previous \<noteq> None \<longrightarrow> previous = obj_get b0 uid"
  shows "routes_fit configs b'" "b0 = [] \<longrightarrow> b' = []" "v \<noteq> uid \<Longrightarrow> obj_get b' v = obj_get b0 v"
proof -
  have "routes_fit configs b" using b fit routes_fit_remove [OF fit] by blast
  moreover have "previous \<noteq> None \<longrightarrow> (\<exists>c. obj_get configs uid = Some c \<and> has_rules c)"
    using previous fit unfolding routes_fit_def by (metis not_None_eq)
  ultimately show "routes_fit configs b'" using r routes_fit_regained by blast
  show "b0 = [] \<longrightarrow> b' = []"
    using b r previous by (cases previous) (auto simp: regained_def obj_remove_def)
  show "v \<noteq> uid \<Longrightarrow> obj_get b' v = obj_get b0 v"
    using regained_other [OF r] b by auto
qed

lemma restored_effect:
  assumes ok: "service_ok es d"
    and d3: "en_configs d3 = en_configs d" "en_policies d3 = en_policies d"
      "en_bypass d3 = en_bypass d \<or> en_bypass d3 = obj_remove uid (en_bypass d)"
    and sync: "en_faults d = [] \<and> synced (es_crate es) d \<Longrightarrow> en_faults d3 = [] \<and> synced (es_crate es) d3"
    and previous: "previous \<noteq> None \<longrightarrow> previous = obj_get (en_bypass d) uid"
  shows "effect es uid configs policies d (restore_bypass es uid previous d3, False)"
proof -
  have fit: "routes_fit (en_configs d) (en_bypass d)" using ok by (simp add: service_ok_def)
  have "\<forall>rs. previous = Some rs \<longrightarrow> routes_ok rs"
    using previous fit unfolding routes_fit_def by (metis option.distinct(1))
  then obtain b' where b': "rerouted d3 b' (restore_bypass es uid previous d3)" "regained uid previous (en_bypass d3) b'"
    using restore_bypass_rerouted [of previous d3 es uid] by blast
  note g = rerouted_fields [OF b'(1)]
  note r = restored_fit [OF fit d3(3) b'(2) previous]
  have "service_ok es (restore_bypass es uid previous d3)"
    using ok r(1,2) unfolding service_ok_def g(1-3) d3(1,2) by blast
  then show ?thesis unfolding effect_def using d3(1,2) sync g r(3) by simp
qed

text \<open>Dropping the bypass routes when asked to, then new rules, then the old ones back on failure.\<close>

definition transaction ::
  "'k engine_setup \<Rightarrow> u16 \<Rightarrow> bool \<Rightarrow> config_map \<Rightarrow> policy_map \<Rightarrow> ('k engine \<Rightarrow> 'k engine) \<Rightarrow> 'k engine_op" where
  "transaction es uid remove configs policies undo d =
     (case (if remove then drop_bypass es uid d else (d, True)) of
        (d1, False) \<Rightarrow> (d1, False)
      | (d1, True) \<Rightarrow>
          (case reconcile_and_save es (d1\<lparr>en_configs := configs, en_policies := policies\<rparr>) of
             (d2, True) \<Rightarrow> (d2, True)
           | (d2, False) \<Rightarrow>
               (restore_bypass es uid (if remove then obj_get (en_bypass d) uid else None) (undo d2), False)))"

definition reverts :: "'k engine_setup \<Rightarrow> 'k engine \<Rightarrow> config_map \<Rightarrow> policy_map \<Rightarrow> ('k engine \<Rightarrow> 'k engine) \<Rightarrow> bool" where
  "reverts es d configs policies undo \<longleftrightarrow>
     (\<forall>d2. en_configs d2 = configs \<and> en_policies d2 = policies \<longrightarrow>
        undo d2 = fst (reconcile (es_crate es) (d2\<lparr>en_configs := en_configs d, en_policies := en_policies d\<rparr>))
        \<or> undo d2 = d2 \<and> configs = en_configs d \<and> policies = en_policies d)"

lemma reverts_back:
  assumes "reverts es d configs policies undo" "crate_ok (es_crate es)" "rules_ok (es_crate es) (en_configs d) (en_policies d)"
    and d2: "en_configs d2 = configs" "en_policies d2 = policies"
  shows "en_configs (undo d2) = en_configs d" "en_policies (undo d2) = en_policies d" "en_bypass (undo d2) = en_bypass d2"
    and "en_faults d2 = [] \<and> synced (es_crate es) d2 \<Longrightarrow> en_faults (undo d2) = [] \<and> synced (es_crate es) (undo d2)"
proof -
  consider "undo d2 = fst (reconcile (es_crate es) (d2\<lparr>en_configs := en_configs d, en_policies := en_policies d\<rparr>))"
    | "undo d2 = d2 \<and> configs = en_configs d \<and> policies = en_policies d"
    using assms(1) d2 unfolding reverts_def by blast
  note c = this
  note fr = reconcile_frame [of "es_crate es" "d2\<lparr>en_configs := en_configs d, en_policies := en_policies d\<rparr>"]
  show "en_configs (undo d2) = en_configs d" "en_policies (undo d2) = en_policies d" "en_bypass (undo d2) = en_bypass d2"
    by (cases rule: c; use fr d2 in simp)+
  show "en_faults (undo d2) = [] \<and> synced (es_crate es) (undo d2)" if "en_faults d2 = [] \<and> synced (es_crate es) d2"
    by (cases rule: c; use that roll_back_synced [of d2 es "en_configs d" "en_policies d"] assms(2,3) in simp)
qed

lemma drop_if:
  assumes "(if remove then drop_bypass es uid d else (d, True)) = (d1, ok1)" "obj_wf (en_bypass d)"
  shows "rerouted d (if remove \<and> ok1 then obj_remove uid (en_bypass d) else en_bypass d) d1"
  using assms drop_bypass_rerouted [of es uid d d1 ok1] rerouted_self(1) [of d] by (auto split: if_splits)

lemma transaction_effect:
  assumes ok: "service_ok es d" "crate_ok (es_crate es)" and new: "rules_ok (es_crate es) configs policies"
    and fit: "routes_fit configs (if remove then obj_remove uid (en_bypass d) else en_bypass d)"
    and rv: "reverts es d configs policies undo" and t: "transaction es uid remove configs policies undo d = r"
  shows "effect es uid configs policies d r \<and> (snd r \<longrightarrow> saved es (fst r))"
proof -
  obtain d1 ok1 where dr: "(if remove then drop_bypass es uid d else (d, True)) = (d1, ok1)" by force
  note d1 = drop_if [OF dr service_ok_wf [OF ok(1), THEN conjunct2, THEN conjunct2]]
  note f1 = rerouted_fields [OF d1]
  obtain d2 fin where run: "reconcile_and_save es (d1\<lparr>en_configs := configs, en_policies := policies\<rparr>) = (d2, fin)" by force
  note d2 = commit [OF ok new d1 run]
  have rules: "rules_ok (es_crate es) (en_configs d) (en_policies d)" using ok(1) by (simp add: service_ok_def)
  note bk = reverts_back [OF rv ok(2) rules d2(1,2)]
  consider "\<not> ok1" | "ok1" "fin" | "ok1" "\<not> fin" by blast
  then show ?thesis
  proof cases
    case 1
    then have "r = (d1, False)" using t dr by (auto simp: transaction_def)
    then show ?thesis using ok(1) f1 1 by (simp add: effect_def service_ok_def)
  next
    case 2
    then have "r = (d2, True)" using t dr run by (auto simp: transaction_def)
    moreover have "es_routing es \<or> (if remove then obj_remove uid (en_bypass d) else en_bypass d) = []"
      using ok(1) by (auto simp: service_ok_def obj_remove_def)
    ultimately show ?thesis using d2 2 new fit by (auto simp: effect_def service_ok_def)
  next
    case 3
    let ?previous = "if remove then obj_get (en_bypass d) uid else None"
    have "r = (restore_bypass es uid ?previous (undo d2), False)" using t dr run 3 by (auto simp: transaction_def)
    moreover have "effect es uid configs policies d (restore_bypass es uid ?previous (undo d2), False)"
      using bk d2(3,5) 3 by (intro restored_effect [OF ok(1)]) (auto split: if_splits)
    ultimately show ?thesis by simp
  qed
qed

section \<open>The operations\<close>

lemma keep_policies: "en_policies d = p \<Longrightarrow> d\<lparr>en_configs := x, en_policies := p\<rparr> = d\<lparr>en_configs := x\<rparr>"
  by auto

lemma keep_configs: "en_configs d = x \<Longrightarrow> d\<lparr>en_configs := x, en_policies := p\<rparr> = d\<lparr>en_policies := p\<rparr>"
  by auto

lemma drop_if_rules:
  assumes "service_ok es d" "(if remove then drop_bypass es uid d else (d, True)) = (d1, ok1)"
  shows "en_configs d1 = en_configs d" "en_policies d1 = en_policies d"
  using rerouted_fields(1,2) [OF drop_if [OF assms(2)]] service_ok_wf [OF assms(1)] by auto

lemma reverts_configs:
  assumes "put_back uid (obj_get (en_configs d) uid) configs = en_configs d"
  shows "reverts es d configs (en_policies d)
    (\<lambda>d2. fst (reconcile (es_crate es) (d2\<lparr>en_configs := put_back uid (obj_get (en_configs d) uid) (en_configs d2)\<rparr>)))"
  using assms by (auto simp: reverts_def keep_policies)

lemma set_config_transaction:
  assumes "service_ok es d" "\<not> user_limit_reached uid d"
  shows "set_config es uid c d
    = transaction es uid (es_routing es \<and> \<not> has_rules c) (obj_insert uid c (en_configs d)) (en_policies d)
        (\<lambda>d2. fst (reconcile (es_crate es) (d2\<lparr>en_configs := put_back uid (obj_get (en_configs d) uid) (en_configs d2)\<rparr>))) d"
proof -
  obtain d1 ok1 where dr: "(if es_routing es \<and> \<not> has_rules c then drop_bypass es uid d else (d, True)) = (d1, ok1)" by force
  note f1 = drop_if_rules [OF assms(1) dr]
  show ?thesis
    unfolding set_config_def transaction_def Let_def if_not_P [OF assms(2)] dr
    using f1 by (simp add: keep_policies split: bool.splits prod.splits)
qed

lemma set_config_effect:
  assumes ok: "service_ok es d" "crate_ok (es_crate es)" and c: "config_validate (es_crate es) c = Inr c"
  shows "effect es uid (obj_insert uid c (en_configs d)) (en_policies d) d (set_config es uid c d)
    \<and> (snd (set_config es uid c d) \<longrightarrow> saved es (fst (set_config es uid c d)))"
proof (cases "user_limit_reached uid d")
  case True
  then show ?thesis using effect_none [OF ok(1)] by (simp add: set_config_def)
next
  case False
  let ?remove = "es_routing es \<and> \<not> has_rules c"
  have fit: "routes_fit (en_configs d) (en_bypass d)" "es_routing es \<or> en_bypass d = []"
    and rules: "rules_ok (es_crate es) (en_configs d) (en_policies d)" using ok(1) by (auto simp: service_ok_def)
  have "routes_fit (obj_insert uid c (en_configs d)) (if ?remove then obj_remove uid (en_bypass d) else en_bypass d)"
  proof (cases ?remove)
    case True
    then show ?thesis using routes_fit_remove [OF fit(1)] by simp
  next
    case False
    then show ?thesis using fit by (auto simp: routes_fit_def)
  qed
  then show ?thesis
    using put_back_insert [of "en_configs d" uid c] service_ok_wf [OF ok(1)]
    by (intro transaction_effect [OF ok rules_ok_insert(1) [OF rules False c] _ reverts_configs])
      (simp_all add: set_config_transaction [OF ok(1) False])
qed

lemma clear_config_transaction:
  assumes "service_ok es d"
  shows "clear_config es uid d
    = transaction es uid (es_routing es) (obj_remove uid (en_configs d)) (en_policies d)
        (\<lambda>d2. case obj_get (en_configs d) uid of None \<Rightarrow> d2
           | Some c \<Rightarrow> fst (reconcile (es_crate es) (d2\<lparr>en_configs := obj_insert uid c (en_configs d2)\<rparr>))) d"
proof -
  obtain d1 ok1 where dr: "(if es_routing es then drop_bypass es uid d else (d, True)) = (d1, ok1)" by force
  note f1 = drop_if_rules [OF assms dr]
  have b: "obj_get (en_bypass d) uid = (if es_routing es then obj_get (en_bypass d) uid else None)"
    using assms by (auto simp: service_ok_def)
  show ?thesis
    unfolding clear_config_def transaction_def Let_def dr b [symmetric]
    using f1 by (simp add: keep_policies split: bool.splits prod.splits)
qed

lemma clear_config_effect:
  assumes ok: "service_ok es d" "crate_ok (es_crate es)"
  shows "effect es uid (obj_remove uid (en_configs d)) (en_policies d) d (clear_config es uid d)
    \<and> (snd (clear_config es uid d) \<longrightarrow> saved es (fst (clear_config es uid d)))"
proof -
  have fit: "routes_fit (en_configs d) (en_bypass d)" "es_routing es \<or> en_bypass d = []"
    and rules: "rules_ok (es_crate es) (en_configs d) (en_policies d)" using ok(1) by (auto simp: service_ok_def)
  have wf: "obj_wf (en_configs d)" using service_ok_wf [OF ok(1)] by simp
  have "reverts es d (obj_remove uid (en_configs d)) (en_policies d)
      (\<lambda>d2. case obj_get (en_configs d) uid of None \<Rightarrow> d2
         | Some c \<Rightarrow> fst (reconcile (es_crate es) (d2\<lparr>en_configs := obj_insert uid c (en_configs d2)\<rparr>)))"
    using put_back_remove [OF wf, of uid]
    by (cases "obj_get (en_configs d) uid") (auto simp: reverts_def keep_policies put_back_def remove_absent [OF wf])
  moreover have "routes_fit (obj_remove uid (en_configs d)) (if es_routing es then obj_remove uid (en_bypass d) else en_bypass d)"
  proof (cases "es_routing es")
    case True
    then show ?thesis using routes_fit_remove [OF fit(1), of uid "obj_remove uid (en_configs d)"] by simp
  next
    case False
    then show ?thesis using fit(2) by (simp add: routes_fit_def)
  qed
  ultimately show ?thesis
    by (intro transaction_effect [OF ok rules_ok_remove(1) [OF rules]]) (simp_all add: clear_config_transaction [OF ok(1)])
qed

lemma set_destination_policy_effect:
  assumes ok: "service_ok es d" "crate_ok (es_crate es)" and c: "validate_ip_ranges (es_crate es) rs = Inr rs"
    and new_def: "new = (if rs = [] then obj_remove uid (en_policies d) else obj_insert uid rs (en_policies d))"
  shows "effect es uid (en_configs d) new d (set_destination_policy es uid rs d)
    \<and> (snd (set_destination_policy es uid rs d) \<longrightarrow> saved es (fst (set_destination_policy es uid rs d)))"
proof (cases "user_limit_reached uid d")
  case True
  then show ?thesis using effect_none [OF ok(1)] by (simp add: set_destination_policy_def)
next
  case False
  let ?undo = "\<lambda>d2. fst (reconcile (es_crate es) (d2\<lparr>en_policies := put_back uid (obj_get (en_policies d) uid) (en_policies d2)\<rparr>))"
  have fit: "routes_fit (en_configs d) (en_bypass d)"
    and rules: "rules_ok (es_crate es) (en_configs d) (en_policies d)" using ok(1) by (auto simp: service_ok_def)
  have wf: "obj_wf (en_policies d)" using service_ok_wf [OF ok(1)] by simp
  have "rules_ok (es_crate es) (en_configs d) new"
    using rules_ok_insert(2) [OF rules False c] rules_ok_remove(2) [OF rules] by (simp add: new_def)
  moreover have "reverts es d (en_configs d) new ?undo"
    using put_back_remove [OF wf] put_back_insert [OF wf] by (auto simp: reverts_def keep_configs new_def)
  moreover have "set_destination_policy es uid rs d = transaction es uid False (en_configs d) new ?undo d"
    unfolding set_destination_policy_def transaction_def if_not_P [OF False] Let_def new_def
    by (simp add: keep_configs restore_bypass_def split: prod.splits bool.splits)
  ultimately show ?thesis using fit by (intro transaction_effect [OF ok]) simp_all
qed

section \<open>Bypass operations\<close>

lemma save_engine_world:
  assumes "save_engine es d = (d', ok)"
  shows "\<exists>w. d' = d\<lparr>en_world := w\<rparr>" "ok \<Longrightarrow> saved es d'"
  using save_frame [OF assms] by (auto simp: saved_def) (metis surjective_pairing)+

text \<open>An operation on the bypass routes of one user, allowed when enabling only with rules.\<close>

lemma bypass_effect:
  assumes ok: "service_ok es d" and r: "rerouted d b d'" and fit: "routes_fit (en_configs d) b"
    and routing: "es_routing es \<or> b = []" and other: "\<forall>v. v \<noteq> uid \<longrightarrow> obj_get b v = obj_get (en_bypass d) v"
  shows "effect es uid (en_configs d) (en_policies d) d (d'\<lparr>en_world := w\<rparr>, fin)"
  using ok fit routing other rerouted_fields [OF r] by (simp add: effect_def service_ok_def)

lemma disable_bypass_effect:
  assumes ok: "service_ok es d"
  shows "effect es uid (en_configs d) (en_policies d) d (disable_bypass es uid d)"
proof (cases "obj_get (en_bypass d) uid")
  case None
  then show ?thesis using ok by (simp add: disable_bypass_def effect_def)
next
  case (Some installed)
  have fit: "routes_fit (en_configs d) (en_bypass d)" "es_routing es \<or> en_bypass d = []" using ok by (auto simp: service_ok_def)
  obtain d1 ok1 where dr: "drop_bypass es uid d = (d1, ok1)" by force
  obtain d2 ok2 where sv: "save_engine es d1 = (d2, ok2)" by force
  then obtain w where w: "d2 = d1\<lparr>en_world := w\<rparr>" using save_engine_world(1) by blast
  have d1: "rerouted d (if ok1 then obj_remove uid (en_bypass d) else en_bypass d) d1"
    using drop_bypass_rerouted [OF dr] service_ok_wf [OF ok] by blast
  note f1 = rerouted_fields [OF d1]
  have e1: "effect es uid (en_configs d) (en_policies d) d (d1\<lparr>en_world := u\<rparr>, fin)" for u fin
    using fit routes_fit_remove [OF fit(1)]
    by (intro bypass_effect [OF ok d1]) (auto simp: obj_remove_def [of _ "[]"])
  consider "\<not> ok1" | "ok1" "ok2" | "ok1" "\<not> ok2" by blast
  then show ?thesis
  proof cases
    case 1
    then show ?thesis using Some dr e1 [of "en_world d1" False] by (simp add: disable_bypass_def)
  next
    case 2
    then show ?thesis using Some dr sv w e1 [of w True] by (simp add: disable_bypass_def)
  next
    case 3
    have "effect es uid (en_configs d) (en_policies d) d (restore_bypass es uid (Some installed) d2, False)"
      using f1 w Some 3 by (intro restored_effect [OF ok]) auto
    then show ?thesis using Some dr sv 3 by (simp add: disable_bypass_def)
  qed
qed

lemma ip_disable_net: "\<exists>k. fst (ip_disable es uid rs d) = d\<lparr>en_net := k\<rparr>"
  by (auto simp: ip_disable_def split: prod.splits)

lemma install_effect:
  assumes ok: "service_ok es d" and routing: "es_routing es"
    and rules: "obj_get (en_configs d) uid = Some c" "has_rules c" and good: "routes_ok installed"
    and d2: "rerouted d (obj_remove uid (en_bypass d)) d2"
  shows "effect es uid (en_configs d) (en_policies d) d
    (case save_engine es (d2\<lparr>en_bypass := obj_insert uid installed (en_bypass d2)\<rparr>) of
       (d3, True) \<Rightarrow> (d3, True)
     | (d3, False) \<Rightarrow>
         (restore_bypass es uid (obj_get (en_bypass d) uid)
            (fst (ip_disable es uid installed (d3\<lparr>en_bypass := obj_remove uid (en_bypass d3)\<rparr>))), False))"
proof -
  let ?d2 = "d2\<lparr>en_bypass := obj_insert uid installed (en_bypass d2)\<rparr>"
  note f2 = rerouted_fields [OF d2]
  obtain d3 ok3 where sv: "save_engine es ?d2 = (d3, ok3)" by force
  then obtain w where w: "d3 = ?d2\<lparr>en_world := w\<rparr>" using save_engine_world(1) by blast
  have d2': "rerouted d (obj_insert uid installed (obj_remove uid (en_bypass d))) ?d2"
    using rerouted_trans [OF d2 rerouted_self(2)] f2(3) by simp
  show ?thesis
  proof (cases ok3)
    case True
    have fit: "routes_fit (en_configs d) (en_bypass d)" using ok by (auto simp: service_ok_def)
    have "effect es uid (en_configs d) (en_policies d) d (?d2\<lparr>en_world := w\<rparr>, True)"
      using routing fit good rules by (intro bypass_effect [OF ok d2']) (auto simp: routes_fit_def obj.wf_insert obj.wf_remove)
    then show ?thesis using sv True w by simp
  next
    case False
    have same: "obj_remove uid (obj_insert uid installed (obj_remove uid (en_bypass d))) = obj_remove uid (en_bypass d)"
      using service_ok_wf [OF ok] by (intro obj.ext) (auto simp: obj.wf_insert obj.wf_remove)
    obtain k where k: "fst (ip_disable es uid installed (d3\<lparr>en_bypass := obj_remove uid (en_bypass d3)\<rparr>))
        = d3\<lparr>en_bypass := obj_remove uid (en_bypass d3), en_net := k\<rparr>"
      using ip_disable_net [of es uid installed "d3\<lparr>en_bypass := obj_remove uid (en_bypass d3)\<rparr>"] by blast
    have "effect es uid (en_configs d) (en_policies d) d (restore_bypass es uid (obj_get (en_bypass d) uid)
        (d3\<lparr>en_bypass := obj_remove uid (en_bypass d3), en_net := k\<rparr>), False)"
      using f2 w same by (intro restored_effect [OF ok]) auto
    then show ?thesis using sv False k by simp
  qed
qed

lemma enable_bypass_effect:
  assumes ok: "service_ok es d" and routing: "es_routing es"
    and rules: "obj_get (en_configs d) uid = Some c" "has_rules c"
    and routes: "\<forall>r \<in> set routes. route_validated r = Inr r"
  shows "effect es uid (en_configs d) (en_policies d) d (enable_bypass es uid routes d)"
proof (cases "obj_get (en_bypass d) uid = Some routes")
  case True
  then show ?thesis using ok by (simp add: enable_bypass_def effect_def)
next
  case False
  have fit: "routes_fit (en_configs d) (en_bypass d)" using ok by (auto simp: service_ok_def)
  obtain d1 ok1 where dr: "drop_bypass es uid d = (d1, ok1)" by force
  have d1: "rerouted d (if ok1 then obj_remove uid (en_bypass d) else en_bypass d) d1"
    using drop_bypass_rerouted [OF dr] service_ok_wf [OF ok] by blast
  obtain d2 r where en: "ip_enable es uid routes d1 = (d2, r)" by force
  consider "\<not> ok1" | "ok1" "r = None" | installed where "ok1" "r = Some installed" by (cases r) auto
  then show ?thesis
  proof cases
    case 1
    then have "effect es uid (en_configs d) (en_policies d) d (d1\<lparr>en_world := en_world d1\<rparr>, False)"
      using fit routing d1 by (intro bypass_effect [OF ok]) auto
    then show ?thesis using False dr 1 by (simp add: enable_bypass_def)
  next
    case 2
    have d2: "rerouted d (obj_remove uid (en_bypass d)) d2"
      using rerouted_trans [OF d1 ip_enable_rerouted [OF en]] rerouted_fields(3) [OF d1] 2 by simp
    have "effect es uid (en_configs d) (en_policies d) d (restore_bypass es uid (obj_get (en_bypass d) uid) d2, False)"
      using rerouted_fields [OF d2] by (intro restored_effect [OF ok]) auto
    then show ?thesis using False dr en 2 by (simp add: enable_bypass_def Let_def)
  next
    case 3
    have d2: "rerouted d (obj_remove uid (en_bypass d)) d2"
      using rerouted_trans [OF d1 ip_enable_rerouted [OF en]] rerouted_fields(3) [OF d1] 3 by simp
    have "routes_ok installed" using en 3 routes by (intro ip_enable_ok) auto
    from install_effect [OF ok routing rules this d2] show ?thesis
      using False dr en 3 by (simp add: enable_bypass_def Let_def)
  qed
qed

lemma set_kill_switch_bypass_effect:
  assumes ok: "service_ok es d" and routes: "\<forall>r \<in> set routes. route_validated r = Inr r"
  shows "effect es uid (en_configs d) (en_policies d) d (set_kill_switch_bypass es uid enabled routes d)"
  using assms enable_bypass_effect [OF ok _ _ _ routes] disable_bypass_effect [OF ok]
  by (auto simp: set_kill_switch_bypass_def effect_none split: option.splits)

section \<open>Requests\<close>

lemma config_from_dbus_valid:
  assumes "config_from_dbus cr vs = Inr c" "crate_ok cr"
  shows "config_validate cr c = Inr c"
  using assms config_validate_fixed(1) by (auto simp: config_from_dbus_def rbind_Inr crate_ok_def split: if_splits)

lemma parse_routes_valid:
  assumes "parse_routes rs = Inr routes"
  shows "\<forall>r \<in> set routes. route_validated r = Inr r"
  using assms by (auto simp: parse_routes_def split: if_splits dest!: traverse_set intro: route_parse_stable)

text \<open>The user a request is about.\<close>

fun subject :: "request \<Rightarrow> u16 option" where
  "subject (SetConfig uid _) = Some uid"
| "subject (ClearConfig uid) = Some uid"
| "subject (SetDestinationPolicy uid _) = Some uid"
| "subject (SetKillSwitchBypass uid _ _) = Some uid"
| "subject _ = None"

text \<open>The rules a request asks for, when it is accepted.\<close>

definition asked :: "ipnet_crate \<Rightarrow> request \<Rightarrow> 'k engine \<Rightarrow> config_map \<times> policy_map" where
  "asked cr req d =
     (case req of
        SetConfig uid vs \<Rightarrow>
          (case config_from_dbus cr vs of Inr c \<Rightarrow> (obj_insert uid c (en_configs d), en_policies d)
           | Inl _ \<Rightarrow> (en_configs d, en_policies d))
      | ClearConfig uid \<Rightarrow> (obj_remove uid (en_configs d), en_policies d)
      | SetDestinationPolicy uid ranges \<Rightarrow>
          (case validate_ip_ranges cr ranges of
             Inr rs \<Rightarrow> (en_configs d, if rs = [] then obj_remove uid (en_policies d) else obj_insert uid rs (en_policies d))
           | Inl _ \<Rightarrow> (en_configs d, en_policies d))
      | _ \<Rightarrow> (en_configs d, en_policies d))"

lemma perform_effect:
  assumes "service_ok es d" "\<And>f. r = Inr f \<Longrightarrow> effect es uid configs policies d (f d)"
  shows "effect es uid configs policies d (fst (perform r d), snd (perform r d) = Inr Done)"
  using assms by (cases r) (auto simp: perform_def effect_none split: prod.splits)

lemma serve_effect:
  assumes ok: "service_ok es d" "crate_ok (es_crate es)" and uid: "subject req = Some uid"
  shows "effect es uid (fst (asked (es_crate es) req d)) (snd (asked (es_crate es) req d)) d
    (fst (serve es who req d), snd (serve es who req d) = Inr Done)"
proof (cases req)
  case (SetConfig u vs)
  then show ?thesis using uid set_config_effect [OF ok config_from_dbus_valid [OF _ ok(2)]]
    by (auto simp: serve_def asked_def rbind_Inr invalid_args_def split: sum.splits intro!: perform_effect [OF ok(1)])
next
  case (ClearConfig u)
  then show ?thesis using uid clear_config_effect [OF ok]
    by (auto simp: serve_def asked_def rbind_Inr intro!: perform_effect [OF ok(1)])
next
  case (SetDestinationPolicy u ranges)
  have "validate_ip_ranges (es_crate es) ranges = Inr rs \<Longrightarrow> validate_ip_ranges (es_crate es) rs = Inr rs" for rs
    using validate_ranges_idem ok(2) by (simp add: crate_ok_def)
  then show ?thesis using SetDestinationPolicy uid set_destination_policy_effect [OF ok _ refl]
    by (auto simp: serve_def asked_def rbind_Inr invalid_args_def split: sum.splits split del: if_split
        intro!: perform_effect [OF ok(1)])
next
  case (SetKillSwitchBypass u enabled routes)
  then show ?thesis using uid set_kill_switch_bypass_effect [OF ok(1)] parse_routes_valid
    by (auto simp: serve_def asked_def rbind_Inr invalid_args_def split: sum.splits intro!: perform_effect [OF ok(1)])
qed (use uid in simp_all)

lemma serve_read: "subject req = None \<Longrightarrow> fst (serve es who req d) = d"
  by (cases req) (auto simp: serve_def)

lemma perform_Done: "perform r d = (d', Inr Done) \<Longrightarrow> \<exists>f. r = Inr f \<and> f d = (d', True)"
  by (auto simp: perform_def split: sum.splits prod.splits if_splits)

lemma serve_saved:
  assumes ok: "service_ok es d" "crate_ok (es_crate es)" and r: "serve es who req d = (d', Inr Done)"
    and uid: "subject req = Some uid" and rules: "\<forall>u e rs. req \<noteq> SetKillSwitchBypass u e rs"
  shows "saved es d'"
proof (cases req)
  case (SetConfig u vs)
  with r obtain c where "config_from_dbus (es_crate es) vs = Inr c" "set_config es u c d = (d', True)"
    by (auto simp: serve_def rbind_Inr invalid_args_def split: sum.splits dest!: perform_Done)
  then show ?thesis using set_config_effect [OF ok config_from_dbus_valid [OF _ ok(2)], of vs c u] by simp
next
  case (ClearConfig u)
  with r have "clear_config es u d = (d', True)" by (auto simp: serve_def rbind_Inr dest!: perform_Done)
  then show ?thesis using clear_config_effect [OF ok, of u] by simp
next
  case (SetDestinationPolicy u ranges)
  with r obtain rs where rs: "validate_ip_ranges (es_crate es) ranges = Inr rs" "set_destination_policy es u rs d = (d', True)"
    by (auto simp: serve_def rbind_Inr invalid_args_def split: sum.splits dest!: perform_Done)
  then have "validate_ip_ranges (es_crate es) rs = Inr rs"
    using validate_ranges_idem ok(2) by (simp add: crate_ok_def)
  then show ?thesis using rs(2) set_destination_policy_effect [OF ok _ refl, of rs u] by simp
qed (use uid rules in simp_all)

lemma refused_unchanged:
  assumes "subject req = Some uid" "who \<noteq> User 0" "who \<noteq> User (ucast uid)"
  shows "fst (serve es who req d) = d"
proof -
  have "\<not> authorize who uid = Inr ()" using assms(2,3) by (cases who) (auto simp: authorize_def)
  then have "\<exists>e. authorize who uid = Inl e" by (cases "authorize who uid") auto
  then show ?thesis using assms(1) by (cases req) (auto simp: serve_def perform_def)
qed

lemma asked_other:
  assumes "subject req = Some uid" "v \<noteq> uid"
  shows "obj_get (fst (asked cr req d)) v = obj_get (en_configs d) v
    \<and> obj_get (snd (asked cr req d)) v = obj_get (en_policies d) v"
  using assms by (cases req) (auto simp: asked_def split: sum.splits)

section \<open>The daemon\<close>

definition rules_inv :: "'k engine_setup \<Rightarrow> 'k daemon \<Rightarrow> bool" where
  "rules_inv es s \<longleftrightarrow> crate_ok (es_crate es) \<and> service_ok es (dm_engine s)"

definition daemon_ok :: "'k engine_setup \<Rightarrow> 'k daemon \<Rightarrow> bool" where
  "daemon_ok es s \<longleftrightarrow> rules_inv es s \<and> en_faults (dm_engine s) = [] \<and> synced (es_crate es) (dm_engine s)"

lemma service_ok_cong:
  "same_policy d d' \<Longrightarrow> service_ok es d' = service_ok es d"
  by (simp add: service_ok_def)

lemma fold_try_send: "dm_engine (fold try_send evs s) = dm_engine s \<and> dm_ticks (fold try_send evs s) = dm_ticks s
    \<and> (dm_dirty s \<longrightarrow> dm_dirty (fold try_send evs s))"
  by (induction evs arbitrary: s) (auto simp: try_send_def)

lemma receive_frame: "dm_engine (receive r s) = dm_engine s" "dm_ticks (receive r s) = dm_ticks s"
  "dm_dirty s \<Longrightarrow> dm_dirty (receive r s)"
  by (auto simp: receive_def fold_try_send Let_def split: received.splits)

lemma dispatch_engine:
  "dm_engine (dispatch proc s) = dm_engine s \<or> (\<exists>ev. dm_engine (dispatch proc s) = fst (handle_event proc ev (dm_engine s)))"
  by (auto simp: dispatch_def split: list.splits prod.splits) (metis fst_conv)

lemma tick_engine:
  "dm_engine (tick es s) = (if tick_due s then fst (reconcile (es_crate es) (dm_engine s)) else dm_engine s)"
  by (auto simp: tick_def split: prod.splits)

lemma serve_rules: "rules_inv es s \<Longrightarrow> service_ok es (fst (serve es who req (dm_engine s)))"
  using serve_effect [of es "dm_engine s" req] serve_read [of req es who "dm_engine s"]
  by (cases "subject req") (auto simp: rules_inv_def effect_def)

lemma rules_inv_step: "rules_inv es s \<Longrightarrow> rules_inv es (daemon_step es i s)"
proof (cases i)
  case (Request who req)
  moreover assume "rules_inv es s"
  ultimately show ?thesis using serve_rules [of es s who req] by (simp add: daemon_step_def rules_inv_def)
next
  case (Dispatch proc)
  moreover assume "rules_inv es s"
  ultimately show ?thesis
    using dispatch_engine [of proc s] by (auto simp: daemon_step_def rules_inv_def service_ok_cong [OF handle_event_frame])
qed (auto simp: daemon_step_def rules_inv_def receive_frame tick_engine service_ok_cong [OF reconcile_frame])

lemma daemon_ok_step: "daemon_ok es s \<Longrightarrow> daemon_ok es (daemon_step es i s)"
proof -
  assume s: "daemon_ok es s"
  have r: "rules_inv es (daemon_step es i s)" using s by (simp add: daemon_ok_def rules_inv_step)
  let ?d = "dm_engine s"
  have ok: "service_ok es ?d" "crate_ok (es_crate es)" "en_faults ?d = []" "synced (es_crate es) ?d"
    using s by (auto simp: daemon_ok_def rules_inv_def)
  have "en_faults (dm_engine (daemon_step es i s)) = [] \<and> synced (es_crate es) (dm_engine (daemon_step es i s))"
  proof (cases i)
    case (Request who req)
    then show ?thesis using ok serve_effect [OF ok(1,2), of req] serve_read [of req es who ?d]
      by (cases "subject req") (auto simp: daemon_step_def effect_def)
  next
    case (Dispatch proc)
    then show ?thesis using ok dispatch_engine [of proc s] handle_event_synced [OF ok(4,3)] by (auto simp: daemon_step_def)
  next
    case Tick
    have "rules_ok (es_crate es) (en_configs ?d) (en_policies ?d)" using ok(1) by (simp add: service_ok_def)
    then have "synced (es_crate es) (fst (reconcile (es_crate es) ?d)) \<and> en_faults (fst (reconcile (es_crate es) ?d)) = []"
      using ok rules_parse [OF ok(2)] by (intro reconcile_synced) (auto simp: rules_ok_def synced_marks)
    then show ?thesis using Tick ok by (simp add: daemon_step_def tick_engine)
  qed (use ok in \<open>simp add: daemon_step_def receive_frame\<close>)
  with r show ?thesis by (simp add: daemon_ok_def)
qed

interpretation rules: step_system "daemon_step es" "rules_inv es" for es
  by unfold_locales (rule rules_inv_step)

interpretation kernel: step_system "daemon_step es" "daemon_ok es" for es
  by unfold_locales (rule daemon_ok_step)

lemma disable_each_net: "\<exists>k. fst (disable_each es m d) = d\<lparr>en_net := k\<rparr>"
proof (induction es m d rule: disable_each.induct)
  case (1 es d)
  show ?case by (intro exI [of _ "en_net d"]) simp
next
  case (2 es uid rs m d)
  obtain k where k: "fst (ip_disable es uid rs d) = d\<lparr>en_net := k\<rparr>"
    using ip_disable_net [of es uid rs d] by blast
  obtain d1 ok where i: "ip_disable es uid rs d = (d1, ok)" by force
  show ?case using 2 [OF i [symmetric]] i k by (cases ok) auto
qed

definition fresh_engine :: "loaded_state \<Rightarrow> 'k engine \<Rightarrow> 'k engine \<Rightarrow> bool" where
  "fresh_engine l d0 d \<longleftrightarrow>
     en_configs d = ld_configs l \<and> en_policies d = ld_policies l \<and> en_bypass d = [] \<and> en_marker d = None
     \<and> en_tracked d = [] \<and> en_faults d = en_faults d0"

lemma engine_start_fresh:
  assumes "engine_start es readable d0 = Some d" "state_load (es_crate es) (es_store es) readable (en_world d0) = Inr l"
  shows "\<exists>c. fresh_engine l d0 c \<and> d = fst (reconcile (es_crate es) c)"
proof -
  let ?d1 = "d0\<lparr>en_configs := ld_configs l, en_policies := ld_policies l, en_bypass := [], en_marker := None, en_tracked := []\<rparr>"
  obtain e f where e: "disable_each es (ld_bypass l) ?d1 = (e, f)" by force
  obtain k where k: "fst (disable_each es (ld_bypass l) ?d1) = ?d1\<lparr>en_net := k\<rparr>"
    using disable_each_net [of es "ld_bypass l" ?d1] by blast
  have fe: "fresh_engine l d0 e" using e k by (simp add: fresh_engine_def)
  obtain g h where g: "save_engine es e = (g, h)" by force
  have fg: "fresh_engine l d0 g" using fe save_engine_world(1) [OF g] by (auto simp: fresh_engine_def)
  have "fresh_engine l d0 ?d1" by (simp add: fresh_engine_def)
  then show ?thesis using assms e g fe fg
    by (auto simp: engine_start_def Let_def split: if_splits bool.splits prod.splits)
qed

lemma started:
  assumes start: "daemon_start es readable d0 = Some s" and cr: "crate_ok (es_crate es)"
    and l: "state_load (es_crate es) (es_store es) readable (en_world d0) = Inr l"
    and rules: "rules_ok (es_crate es) (ld_configs l) (ld_policies l)"
  shows "rules_inv es s" "en_faults d0 = [] \<Longrightarrow> daemon_ok es s"
proof -
  obtain c where c: "fresh_engine l d0 c" "dm_engine s = fst (reconcile (es_crate es) c)"
    using start engine_start_fresh [OF _ l] by (auto simp: daemon_start_def)
  have "service_ok es c" using rules c(1) by (simp add: service_ok_def routes_fit_def fresh_engine_def)
  then show r: "rules_inv es s" using cr c(2) by (simp add: rules_inv_def service_ok_cong [OF reconcile_frame])
  show "daemon_ok es s" if "en_faults d0 = []"
    using that rules rules_parse [OF cr rules] c r reconcile_synced [of c "es_crate es"]
    by (auto simp: daemon_ok_def fresh_engine_def rules_ok_def marks_ok_def)
qed

section \<open>Repair\<close>

fun is_tick :: "input \<Rightarrow> bool" where
  "is_tick Tick = True"
| "is_tick _ = False"

abbreviation "ticks is \<equiv> length (filter is_tick is)"

lemma is_tick_iff: "is_tick i \<longleftrightarrow> i = Tick"
  by (cases i) auto

lemma step_tick: "daemon_step es Tick s = tick es s"
  by (simp add: daemon_step_def)

lemma step_ticks:
  assumes "\<not> is_tick i"
  shows "dm_ticks (daemon_step es i s) = dm_ticks s" "dm_dirty s \<Longrightarrow> dm_dirty (daemon_step es i s)"
  using assms by (cases i; auto simp: daemon_step_def receive_frame dispatch_def split: list.splits prod.splits)+

lemma idle_tick:
  assumes "\<not> tick_due s"
  shows "dm_ticks (tick es s) < 6" "unat (dm_ticks (tick es s)) = unat (dm_ticks s) + 1"
proof -
  have less: "next_tick (dm_ticks s) < 6" using assms by (simp add: tick_due_def SAFETY_RECONCILE_TICKS_def)
  then show "dm_ticks (tick es s) < 6" using assms by (simp add: tick_def)
  have n: "dm_ticks s \<noteq> 255" using less by (auto simp: next_tick_def)
  then have "1 + dm_ticks s \<noteq> 0" by (auto simp: add_eq_0_iff)
  then have "unat (dm_ticks s + 1) = unat (dm_ticks s) + 1" using unatSuc [of "dm_ticks s"] by (simp add: add.commute)
  then show "unat (dm_ticks (tick es s)) = unat (dm_ticks s) + 1" using assms n by (simp add: tick_def next_tick_def)
qed

text \<open>While no tick is due the counter counts them, so at most five ticks in a row are not due.\<close>

lemma idle_ticks:
  assumes "\<And>pre post. is = pre @ Tick # post \<Longrightarrow> \<not> tick_due (fold (daemon_step es) pre s)"
  shows "unat (dm_ticks (fold (daemon_step es) is s)) = unat (dm_ticks s) + ticks is
    \<and> (0 < ticks is \<longrightarrow> dm_ticks (fold (daemon_step es) is s) < 6)"
  using assms
proof (induction "is" rule: rev_induct)
  case (snoc i js)
  then have IH: "unat (dm_ticks (fold (daemon_step es) js s)) = unat (dm_ticks s) + ticks js"
    "0 < ticks js \<longrightarrow> dm_ticks (fold (daemon_step es) js s) < 6" by (metis append.assoc append_Cons)+
  show ?case
  proof (cases "is_tick i")
    case False
    then show ?thesis using IH by (simp add: step_ticks)
  next
    case True
    then have "\<not> tick_due (fold (daemon_step es) js s)" using snoc.prems [of js "[]"] by (simp add: is_tick_iff)
    from idle_tick [OF this, of es] show ?thesis using IH(1) True by (cases i) (simp_all add: step_tick)
  qed
qed simp

lemma dirty_until_tick:
  "dm_dirty s \<Longrightarrow> \<forall>i \<in> set is. \<not> is_tick i \<Longrightarrow> dm_dirty (fold (daemon_step es) is s)"
  by (induction "is" arbitrary: s) (auto simp: step_ticks)

lemma some_tick_due:
  assumes "6 \<le> ticks is \<or> dm_dirty s \<and> 0 < ticks is"
  shows "\<exists>pre post. is = pre @ Tick # post \<and> tick_due (fold (daemon_step es) pre s)"
proof (rule ccontr)
  assume no: "\<not> ?thesis"
  then have "unat (dm_ticks (fold (daemon_step es) is s)) = unat (dm_ticks s) + ticks is
    \<and> (0 < ticks is \<longrightarrow> dm_ticks (fold (daemon_step es) is s) < 6)" by (intro idle_ticks) blast
  moreover have "unat (dm_ticks (fold (daemon_step es) is s)) < 6" if "dm_ticks (fold (daemon_step es) is s) < 6"
    using that by (simp add: word_less_nat_alt)
  ultimately have "\<not> 6 \<le> ticks is" by fastforce
  with assms have d: "dm_dirty s" "Tick \<in> set is" by (auto simp: is_tick_iff filter_empty_conv)
  then obtain pre post where "is = pre @ Tick # post" "Tick \<notin> set pre" by (meson split_list_first)
  then show False using no dirty_until_tick [OF d(1), of pre es] by (auto simp: tick_due_def is_tick_iff)
qed

lemma retrack_fresh:
  assumes "en_faults d = []" "\<exists>(_, c) \<in> set (en_configs d). needs_process_tracking c" "snd (next_scan d) = Some ps"
  shows "en_tracked (fst (retrack mk d)) = build_tracking (en_configs d) ps"
proof -
  obtain d1 where n: "next_scan d = (d1, Some ps)" using assms(3) by (cases "next_scan d") simp
  then have "en_faults d1 = []" using assms(1) by (auto simp: next_scan_def split: list.splits)
  then show ?thesis using assms(2) n by (simp add: retrack_def mark_calls_ok Let_def)
qed

lemma reconcile_fresh:
  assumes d: "en_faults d = []" "synced cr d" "obj_wf (en_configs d)" "parses cr (en_configs d) (en_policies d)"
    and needs: "\<exists>(_, c) \<in> set (en_configs d). needs_process_tracking c" and scan: "snd (next_scan d) = Some ps"
  shows "en_tracked (fst (reconcile cr d)) = build_tracking (en_configs d) ps"
proof -
  have pol: "has_policy d" using needs by (auto simp: has_policy_def needs_process_tracking_def has_rules_def)
  then obtain mk where m: "en_marker d = Some mk" "mk_configs mk = en_configs d" "mk_policies mk = en_policies d"
    using d(2) by (auto simp: synced_def split: option.splits)
  then have "sync_configs cr (en_configs d) (en_policies d) (mk, en_faults d) = ((mk, en_faults d), True)"
    by (simp add: sync_configs_def)
  then have "reconcile cr d = retrack mk (d\<lparr>en_marker := Some mk, en_faults := en_faults d\<rparr>)"
    using pol m(1) by (auto simp: reconcile_def has_policy_def attached_def)
  moreover have "d\<lparr>en_marker := Some mk, en_faults := en_faults d\<rparr> = d" using m(1) by simp
  ultimately show ?thesis using retrack_fresh [OF d(1) needs scan] by simp
qed

definition reported :: "received \<Rightarrow> process_event list" where
  "reported r = (case r of Datagram bytes \<Rightarrow> parse_messages bytes | _ \<Rightarrow> [])"

lemma fold_try_send_queue:
  "dm_dirty (fold try_send evs s) \<or> dm_queue (fold try_send evs s) = dm_queue s @ evs"
proof (induction evs arbitrary: s)
  case (Cons ev evs)
  show ?case
  proof (cases "length (dm_queue s) < PROCESS_EVENT_CAPACITY")
    case True
    then have "try_send ev s = s\<lparr>dm_queue := dm_queue s @ [ev]\<rparr>" by (simp add: try_send_def)
    then show ?thesis using Cons [of "s\<lparr>dm_queue := dm_queue s @ [ev]\<rparr>"] by simp
  next
    case False
    then have "try_send ev s = s\<lparr>dm_dirty := True\<rparr>" by (simp add: try_send_def)
    then show ?thesis using fold_try_send [of evs "s\<lparr>dm_dirty := True\<rparr>"] by simp
  qed
qed simp

lemma receive_reports: "dm_dirty (receive r s) \<or> dm_queue (receive r s) = dm_queue s @ reported r"
proof (cases r)
  case (Datagram bytes)
  show ?thesis
  proof (cases "length bytes < RECEIVE_BYTES")
    case True
    then show ?thesis using Datagram fold_try_send_queue [of "parse_messages bytes" s] by (simp add: receive_def reported_def)
  next
    case False
    then show ?thesis using Datagram fold_try_send [of _ "s\<lparr>dm_dirty := True\<rparr>"] by (simp add: receive_def Let_def)
  qed
qed (simp_all add: receive_def reported_def)

end
