(* ===== verification/Catalog.thy ===== *)
theory Catalog
  imports Store_Core Net_Addr Complex_Main
begin

text \<open>
  The server catalog of the agent: \<^verbatim>\<open>native_backend/models.rs\<close> (servers and their features),
  \<^verbatim>\<open>native_backend/server_validation.rs\<close> (the signature of an endpoint) and the selection of a server in
  \<^verbatim>\<open>native_backend/catalog.rs\<close>. Scores are the rational numbers the finite floats of the catalog stand for. The
  random generator is a list of draws; the crates for base64, Ed25519 and country names are arguments.
\<close>

unbundle bit_operations_syntax

section \<open>Errors\<close>

record native_error =
  ne_code :: string
  ne_message :: string
  ne_details :: "json option"
  ne_retryable :: bool
  ne_source :: "string option"

type_synonym 'a native_res = "native_error + 'a"

definition native_error_new :: "string \<Rightarrow> string \<Rightarrow> native_error" where
  "native_error_new code message =
     \<lparr>ne_code = code, ne_message = message, ne_details = None, ne_retryable = False, ne_source = None\<rparr>"

abbreviation may_retry :: "native_error \<Rightarrow> native_error" where
  "may_retry e \<equiv> e\<lparr>ne_retryable := True\<rparr>"

definition native_backend_error :: "native_error \<Rightarrow> backend_error" where
  "native_backend_error e =
     (let base = retryable (ne_retryable e) (backend_error_new (ne_code e) (ne_message e));
          details = unwrap_or [] (Option.bind (ne_details e) as_object);
          details' = (case ne_source e of None \<Rightarrow> details | Some s \<Rightarrow> obj_insert ''source'' (JStr s) details) in
      if details' = [] then base else with_details (JObj details') base)"

section \<open>Servers\<close>

definition FEATURE_SECURE_CORE :: u32 where "FEATURE_SECURE_CORE = push_bit 0 1"
definition FEATURE_TOR :: u32 where "FEATURE_TOR = push_bit 1 1"
definition FEATURE_P2P :: u32 where "FEATURE_P2P = push_bit 2 1"
definition FEATURE_STREAMING :: u32 where "FEATURE_STREAMING = push_bit 3 1"
definition FEATURE_IPV6 :: u32 where "FEATURE_IPV6 = push_bit 4 1"
definition FEATURE_RESTRICTED :: u32 where "FEATURE_RESTRICTED = push_bit 5 1"
definition FEATURE_PARTNER :: u32 where "FEATURE_PARTNER = push_bit 6 1"
definition FEATURE_DOUBLE_RESTRICTED :: u32 where "FEATURE_DOUBLE_RESTRICTED = push_bit 7 1"
definition FEATURE_B2B :: u32 where "FEATURE_B2B = FEATURE_RESTRICTED OR FEATURE_DOUBLE_RESTRICTED"
definition FEATURE_NON_STANDARD :: u32 where
  "FEATURE_NON_STANDARD =
     (((FEATURE_SECURE_CORE OR FEATURE_TOR) OR FEATURE_RESTRICTED) OR FEATURE_PARTNER) OR FEATURE_DOUBLE_RESTRICTED"

record physical_server =
  ps_id :: string
  ps_entry_ip :: string
  ps_exit_ip :: string
  ps_domain :: string
  ps_status :: u8
  ps_x25519_public_key :: string
  ps_label :: "string option"
  ps_signature :: "string option"
  ps_extra :: jobject

record server_location =
  sl_lat :: "u64 option"
  sl_long :: "u64 option"

record logical_server =
  lg_id :: string
  lg_name :: string
  lg_entry_country :: string
  lg_exit_country :: string
  lg_host_country :: "string option"
  lg_city :: string
  lg_state :: string
  lg_region :: "string option"
  lg_domain :: string
  lg_tier :: u8
  lg_features :: u32
  lg_load :: u8
  lg_score :: rat
  lg_status :: u8
  lg_location :: server_location
  lg_servers :: "physical_server list"
  lg_vpn_gateway_id :: "string option"
  lg_gateway_name :: string
  lg_extra :: jobject

record server_catalog =
  sv_expiration_time :: rat
  sv_loads_expiration_time :: rat
  sv_max_tier :: u8
  sv_logical_servers :: "logical_server list"
  sv_extra :: jobject

definition has_feature :: "u32 \<Rightarrow> logical_server \<Rightarrow> bool" where
  "has_feature f s \<longleftrightarrow> lg_features s AND f \<noteq> 0"

definition enabled :: "logical_server \<Rightarrow> bool" where
  "enabled s \<longleftrightarrow> lg_status s = 1 \<and> (\<exists>p \<in> set (lg_servers s). ps_status p = 1)"

definition maintenance :: "logical_server \<Rightarrow> bool" where
  "maintenance s \<longleftrightarrow> \<not> enabled s"

definition standard :: "logical_server \<Rightarrow> bool" where
  "standard s \<longleftrightarrow> lg_features s AND FEATURE_NON_STANDARD = 0"

definition gateway_name :: "logical_server \<Rightarrow> string" where
  "gateway_name s =
     (if lg_gateway_name s \<noteq> [] then lg_gateway_name s
      else unwrap_or [] (Option.bind (obj_get (lg_extra s) ''GatewayName'') as_str))"

definition host_country_code :: "logical_server \<Rightarrow> string option" where
  "host_country_code s = opt_filter (\<lambda>c. c \<noteq> []) (map_option trim (lg_host_country s))"

text \<open>\<open>names\<close> is the crate's table of country names, without regard to case.\<close>

definition country_name :: "(string \<Rightarrow> string option) \<Rightarrow> string \<Rightarrow> string" where
  "country_name names code = unwrap_or (to_ascii_uppercase code) (names code)"

definition serialized :: "(string \<Rightarrow> string option) \<Rightarrow> logical_server \<Rightarrow> json" where
  "serialized names s =
     jobj [(''id'', JStr (lg_id s)), (''name'', JStr (lg_name s)),
       (''country_code'', JStr (lg_exit_country s)),
       (''country_name'', JStr (country_name names (lg_exit_country s))),
       (''entry_country_code'', JStr (lg_entry_country s)),
       (''entry_country_name'', JStr (country_name names (lg_entry_country s))),
       (''state'', JStr (lg_state s)),
       (''city'', JStr (if lg_city s = [] then lg_state s else lg_city s)),
       (''latitude'', jopt (\<lambda>b. JNum (Float b)) (sl_lat (lg_location s))),
       (''longitude'', jopt (\<lambda>b. JNum (Float b)) (sl_long (lg_location s))),
       (''load'', jnum (ucast (lg_load s))), (''tier'', jnum (ucast (lg_tier s))),
       (''enabled'', JBool (enabled s)), (''maintenance'', JBool (maintenance s)),
       (''secure_core'', JBool (has_feature FEATURE_SECURE_CORE s)),
       (''tor'', JBool (has_feature FEATURE_TOR s)), (''p2p'', JBool (has_feature FEATURE_P2P s)),
       (''streaming'', JBool (has_feature FEATURE_STREAMING s)),
       (''ipv6'', JBool (has_feature FEATURE_IPV6 s)),
       (''restricted'', JBool (has_feature FEATURE_B2B s)),
       (''partner'', JBool (has_feature FEATURE_PARTNER s)),
       (''smart_routing'', JBool (host_country_code s \<noteq> None)),
       (''host_country_code'', jopt JStr (host_country_code s)),
       (''host_country_name'', jopt JStr (map_option (country_name names) (host_country_code s))),
       (''gateway_name'', JStr (gateway_name s))]"

section \<open>Signed endpoints\<close>

definition escape_char :: "char \<Rightarrow> string" where
  "escape_char c =
     (if c = CHR 0x22 then [CHR 0x5C, CHR 0x22]
      else if c = CHR 0x5C then [CHR 0x5C, CHR 0x5C]
      else if c = CHR 0x08 then [CHR 0x5C, CHR ''b'']
      else if c = CHR 0x0C then [CHR 0x5C, CHR ''f'']
      else if c = CHR 0x0A then [CHR 0x5C, CHR ''n'']
      else if c = CHR 0x0D then [CHR 0x5C, CHR ''r'']
      else if c = CHR 0x09 then [CHR 0x5C, CHR ''t'']
      else if byte c < 32
      then [CHR 0x5C, CHR ''u'', CHR ''0'', CHR ''0'', digit_char (byte c div 16), digit_char (byte c mod 16)]
      else [c])"

definition json_text :: "string \<Rightarrow> string" where
  "json_text s = CHR 0x22 # concat (map escape_char s) @ [CHR 0x22]"

definition signed_payload :: "physical_server \<Rightarrow> string" where
  "signed_payload p =
     ''{'' @ json_text ''Server'' @ '':{'' @ json_text ''EntryIP'' @ '':'' @ json_text (ps_entry_ip p) @ '',''
     @ json_text ''Label'' @ '':'' @ (case ps_label p of None \<Rightarrow> ''null'' | Some l \<Rightarrow> json_text l) @ ''}}''"

record crypto =
  cy_base64_decode :: "string \<Rightarrow> string option"
  cy_verify_strict :: "string \<Rightarrow> string \<Rightarrow> bool"

definition invalid :: native_error where
  "invalid = may_retry (native_error_new ''server_validation_failed''
     ''The VPN server could not be verified. Refresh the server list and try again.'')"

definition validate_with_key :: "crypto \<Rightarrow> physical_server \<Rightarrow> unit native_res" where
  "validate_with_key cy p =
     (if parse_ip (ps_entry_ip p) = None
         \<or> (case ps_label p of None \<Rightarrow> False | Some l \<Rightarrow> \<not> (\<forall>c \<in> set l. byte c < 128))
         \<or> length (ps_x25519_public_key p) \<noteq> 44
         \<or> (case cy_base64_decode cy (ps_x25519_public_key p) of None \<Rightarrow> True | Some k \<Rightarrow> length k \<noteq> 32)
      then Inl invalid
      else
      rbind (ok_or invalid (opt_filter (\<lambda>s. length s = 88) (ps_signature p))) (\<lambda>text.
      rbind (ok_or invalid (cy_base64_decode cy text)) (\<lambda>signature.
      if length signature \<noteq> 64 then Inl invalid
      else if cy_verify_strict cy (signed_payload p) signature then Inr () else Inl invalid)))"

text \<open>An old cache is migrated when every active endpoint has a signature.\<close>

definition has_endpoint_signatures :: "server_catalog \<Rightarrow> bool" where
  "has_endpoint_signatures cat =
     (let endpoints = filter (\<lambda>p. ps_status p = 1) (concat (map lg_servers (sv_logical_servers cat))) in
      endpoints \<noteq> [] \<and> list_all (\<lambda>p. case ps_signature p of None \<Rightarrow> False | Some s \<Rightarrow> s \<noteq> []) endpoints)"

section \<open>States of cities\<close>

text \<open>\<open>city_states\<close> as the set of states seen for a country and city.\<close>

definition city_states :: "logical_server list \<Rightarrow> string \<times> string \<Rightarrow> string list" where
  "city_states ss key =
     sort (remdups (map lg_state (filter (\<lambda>s. lg_city s \<noteq> [] \<and> trim (lg_state s) \<noteq> [] \<and> (lg_exit_country s, lg_city s) = key) ss)))"

definition canonical_state :: "logical_server list \<Rightarrow> logical_server \<Rightarrow> string" where
  "canonical_state ss s =
     (if trim (lg_state s) \<noteq> [] then lg_state s
      else case city_states ss (lg_exit_country s, lg_city s) of [state] \<Rightarrow> state | _ \<Rightarrow> [])"

section \<open>Selection\<close>

record connection_target =
  ct_logical :: logical_server
  ct_physical :: physical_server

text \<open>The members of the \<open>target\<close> object.\<close>

record target =
  tg_server_name :: string
  tg_country_code :: string
  tg_entry_country_code :: string
  tg_state :: string
  tg_city :: string
  tg_gateway_name :: string
  tg_secure_core :: bool
  tg_p2p :: bool
  tg_tor :: bool
  tg_random :: bool
  tg_random_server :: bool
  tg_exclude_my_country :: bool
  tg_free_random :: bool
  tg_exclude_server_name :: string

definition object_string :: "jobject \<Rightarrow> string \<Rightarrow> string" where
  "object_string m k = trim (unwrap_or [] (Option.bind (obj_get m k) as_str))"

definition object_bool :: "jobject \<Rightarrow> string \<Rightarrow> bool" where
  "object_bool m k = unwrap_or False (Option.bind (obj_get m k) as_bool)"

definition read_target :: "jobject \<Rightarrow> target" where
  "read_target m =
     \<lparr>tg_server_name = object_string m ''server_name'',
      tg_country_code = to_ascii_uppercase (object_string m ''country_code''),
      tg_entry_country_code = to_ascii_uppercase (object_string m ''entry_country_code''),
      tg_state = object_string m ''state'', tg_city = object_string m ''city'',
      tg_gateway_name = object_string m ''gateway_name'',
      tg_secure_core = object_bool m ''secure_core'', tg_p2p = object_bool m ''p2p'', tg_tor = object_bool m ''tor'',
      tg_random = object_bool m ''random'', tg_random_server = object_bool m ''random_server'',
      tg_exclude_my_country = object_bool m ''exclude_my_country'',
      tg_free_random = object_bool m ''free_random'',
      tg_exclude_server_name = object_string m ''exclude_server_name''\<rparr>"

definition feature_count :: "target \<Rightarrow> nat" where
  "feature_count t = of_bool (tg_secure_core t) + of_bool (tg_p2p t) + of_bool (tg_tor t)"

definition check_target :: "target \<Rightarrow> string \<Rightarrow> unit native_res" where
  "check_target t device =
     (if 1 < feature_count t \<or> tg_gateway_name t \<noteq> [] \<and> 0 < feature_count t
      then Inl (native_error_new ''invalid_params'' ''Gateway, Secure Core, P2P and Tor target modes cannot be combined'')
      else if (tg_state t \<noteq> [] \<or> tg_city t \<noteq> []) \<and> tg_country_code t = []
      then Inl (native_error_new ''invalid_params'' ''State/city connection targets require country_code'')
      else if tg_entry_country_code t \<noteq> [] \<and> \<not> tg_secure_core t
      then Inl (native_error_new ''invalid_params'' ''Secure Core entry-country targets require secure_core'')
      else if tg_random t \<and> tg_random_server t
      then Inl (native_error_new ''invalid_params'' ''Country-random and server-random selection cannot be combined'')
      else if tg_exclude_my_country t \<and> device = []
      then Inl (may_retry (native_error_new ''device_location_unavailable''
             ''The current country is unavailable, so it cannot be excluded''))
      else Inr ())"

text \<open>The chain of filters on the servers, in its order.\<close>

definition fits :: "logical_server list \<Rightarrow> target \<Rightarrow> string \<Rightarrow> logical_server \<Rightarrow> bool" where
  "fits ss t device s \<longleftrightarrow>
     (tg_gateway_name t = [] \<or> gateway_name s = tg_gateway_name t)
     \<and> (tg_country_code t = [] \<or> lg_exit_country s = tg_country_code t)
     \<and> (\<not> tg_exclude_my_country t \<or> \<not> eq_ignore_ascii_case (lg_exit_country s) device)
     \<and> (tg_entry_country_code t = [] \<or> eq_ignore_ascii_case (lg_entry_country s) (tg_entry_country_code t))
     \<and> (tg_state t = [] \<or> eq_ignore_ascii_case (canonical_state ss s) (tg_state t))
     \<and> (tg_city t = [] \<or> eq_ignore_ascii_case (lg_city s) (tg_city t))
     \<and> (\<not> tg_secure_core t \<or> has_feature FEATURE_SECURE_CORE s)
     \<and> (\<not> tg_p2p t \<or> has_feature FEATURE_P2P s)
     \<and> (\<not> tg_tor t \<or> has_feature FEATURE_TOR s)
     \<and> (tg_secure_core t \<or> tg_p2p t \<or> tg_tor t \<or> tg_gateway_name t \<noteq> [] \<or> standard s)
     \<and> (\<not> tg_free_random t \<or> lg_tier s = 0)
     \<and> (tg_exclude_server_name t = [] \<or> \<not> eq_ignore_ascii_case (lg_name s) (tg_exclude_server_name t))"

definition explicit_location :: "target \<Rightarrow> bool" where
  "explicit_location t \<longleftrightarrow>
     tg_server_name t \<noteq> [] \<or> tg_country_code t \<noteq> [] \<or> tg_entry_country_code t \<noteq> [] \<or> tg_state t \<noteq> []
     \<or> tg_city t \<noteq> [] \<or> tg_gateway_name t \<noteq> []"

definition excluded_location_matches :: "excluded_location \<Rightarrow> logical_server \<Rightarrow> string \<Rightarrow> bool" where
  "excluded_location_matches l s state =
     (if has_feature FEATURE_SECURE_CORE s \<and> el_kind l = ''country''
         \<and> eq_ignore_ascii_case (lg_entry_country s) (el_country_code l) then True
      else if \<not> eq_ignore_ascii_case (lg_exit_country s) (el_country_code l) then False
      else if el_kind l = ''country'' then True
      else if el_kind l = ''state'' then eq_ignore_ascii_case state (el_state l)
      else if el_kind l = ''city''
      then (el_state l = [] \<or> eq_ignore_ascii_case state (el_state l)) \<and> eq_ignore_ascii_case (lg_city s) (el_city l)
      else False)"

text \<open>A request: the catalog's servers, the target, the tier, the exclusions, the device's country and the check of an
  endpoint's signature.\<close>

record selection =
  se_servers :: "logical_server list"
  se_target :: target
  se_tier :: u8
  se_excluded :: "excluded_location list"
  se_device :: string
  se_verified :: "physical_server \<Rightarrow> bool"

definition applies_exclusions :: "selection \<Rightarrow> bool" where
  "applies_exclusions q \<longleftrightarrow> 0 < se_tier q \<and> \<not> explicit_location (se_target q) \<and> se_excluded q \<noteq> []"

definition is_excluded :: "selection \<Rightarrow> logical_server \<Rightarrow> bool" where
  "is_excluded q s \<longleftrightarrow>
     (\<exists>l \<in> set (se_excluded q). excluded_location_matches l s (canonical_state (se_servers q) s))"

text \<open>\<open>choose\<close> takes the next draw; there is none to take for an empty slice.\<close>

definition choose_draw :: "nat list \<Rightarrow> 'a list \<Rightarrow> 'a option \<times> nat list" where
  "choose_draw draws xs =
     (if xs = [] then (None, draws)
      else (Some (xs ! ((case draws of [] \<Rightarrow> 0 | n # _ \<Rightarrow> n) mod length xs)), drop 1 draws))"

type_synonym candidate = "nat \<times> logical_server"

definition among_countries :: "target \<Rightarrow> candidate list \<Rightarrow> nat list \<Rightarrow> candidate list \<times> nat list" where
  "among_countries t cs draws =
     (if tg_random t \<or> tg_free_random t
      then case choose_draw draws (sort (remdups (map (lg_exit_country \<circ> snd) cs))) of
             (country, draws') \<Rightarrow> (filter (\<lambda>(_, s). country = Some (lg_exit_country s)) cs, draws')
      else (cs, draws))"

definition best_of :: "target \<Rightarrow> candidate list \<Rightarrow> nat list \<Rightarrow> candidate option \<times> nat list" where
  "best_of t cs draws =
     (if tg_random_server t then choose_draw draws cs
      else (case sort_key (lg_score \<circ> snd) cs of [] \<Rightarrow> None | e # _ \<Rightarrow> Some e, draws))"

definition validation_failed :: native_error where
  "validation_failed = may_retry (native_error_new ''server_validation_failed''
     ''No verified endpoint is available for this connection'')"

definition not_found :: native_error where
  "not_found = native_error_new ''server_not_found'' ''No available Proton server matches this target''"

definition all_excluded :: native_error where
  "all_excluded = native_error_new ''all_candidates_excluded''
     ''Every available server for this connection is in Excluded locations''"

definition pick :: "selection \<Rightarrow> candidate list \<Rightarrow> nat list \<Rightarrow> candidate option native_res \<times> nat list" where
  "pick q available draws =
     (let t = se_target q in
      if tg_server_name t \<noteq> []
      then (Inr (find (\<lambda>(_, s). eq_ignore_ascii_case (lg_name s) (tg_server_name t)) available), draws)
      else
      let candidates = filter (\<lambda>(_, s). fits (se_servers q) t (se_device q) s) available;
          kept = (if applies_exclusions q then filter (\<lambda>(_, s). \<not> is_excluded q s) candidates else candidates) in
      if candidates \<noteq> [] \<and> kept = []
      then (Inl all_excluded, draws)
      else case among_countries t kept draws of
             (cs, draws') \<Rightarrow> (case best_of t cs draws' of (e, draws'') \<Rightarrow> (Inr e, draws'')))"

definition feature_mismatch :: "target \<Rightarrow> logical_server \<Rightarrow> bool" where
  "feature_mismatch t s \<longleftrightarrow>
     tg_secure_core t \<and> \<not> has_feature FEATURE_SECURE_CORE s \<or> tg_p2p t \<and> \<not> has_feature FEATURE_P2P s
     \<or> tg_tor t \<and> \<not> has_feature FEATURE_TOR s"

definition endpoints :: "selection \<Rightarrow> logical_server \<Rightarrow> physical_server list" where
  "endpoints q s = filter (\<lambda>p. ps_status p = 1 \<and> se_verified q p) (lg_servers s)"

lemma choose_draw_mem: "choose_draw draws xs = (Some x, draws') \<Longrightarrow> x \<in> set xs"
  by (auto simp: choose_draw_def split: if_splits)

lemma best_of_mem: "best_of t cs draws = (Some e, draws') \<Longrightarrow> e \<in> set cs"
  by (auto simp: best_of_def split: if_splits list.splits dest: choose_draw_mem) (metis list.set_intros(1) set_sort)

lemma among_countries_sub: "among_countries t cs draws = (cs', draws') \<Longrightarrow> set cs' \<subseteq> set cs"
  by (auto simp: among_countries_def split: if_splits prod.splits)

lemma pick_mem: "pick q available draws = (Inr (Some e), draws') \<Longrightarrow> e \<in> set available"
  by (auto simp: pick_def Let_def split: if_splits prod.splits
      dest!: best_of_mem among_countries_sub find_first)

text \<open>\<open>available.retain\<close>: a server whose endpoints were all rejected is not tried again.\<close>

definition without :: "nat \<Rightarrow> candidate list \<Rightarrow> candidate list" where
  "without i available = filter (\<lambda>(j, _). j \<noteq> i) available"

lemma without_shorter: "(i, s) \<in> set available \<Longrightarrow> length (without i available) < length available"
  by (auto simp: without_def intro!: length_filter_less)

function select_loop :: "selection \<Rightarrow> candidate list \<Rightarrow> bool \<Rightarrow> nat list \<Rightarrow> connection_target native_res" where
  "select_loop q available rejected draws =
     (case pick q available draws of
        (Inl e, _) \<Rightarrow> Inl e
      | (Inr None, _) \<Rightarrow>
          Inl (if rejected then validation_failed else not_found)
      | (Inr (Some (i, s)), draws') \<Rightarrow>
          if feature_mismatch (se_target q) s
          then Inl (native_error_new ''server_feature_mismatch'' ''Selected server does not provide the requested feature'')
          else
          case choose_draw draws' (endpoints q s) of
            (Some p, _) \<Rightarrow> Inr \<lparr>ct_logical = s\<lparr>lg_state := canonical_state (se_servers q) s\<rparr>, ct_physical = p\<rparr>
          | (None, draws'') \<Rightarrow>
              (if tg_server_name (se_target q) \<noteq> [] \<or> without i available = [] then Inl validation_failed
               else select_loop q (without i available) True draws''))"
  by pat_completeness auto
termination
proof (relation "measure (\<lambda>(_, available, _, _). length available)")
qed (auto intro!: without_shorter dest!: pick_mem [OF sym])


declare select_loop.simps [simp del]

definition available :: "u8 \<Rightarrow> logical_server list \<Rightarrow> candidate list" where
  "available tier ss = enumerate 0 (filter (\<lambda>s. enabled s \<and> lg_tier s \<le> tier) ss)"

definition selection_of ::
  "server_catalog \<Rightarrow> target \<Rightarrow> u8 \<Rightarrow> excluded_location list \<Rightarrow> string \<Rightarrow> (physical_server \<Rightarrow> bool) \<Rightarrow> selection" where
  "selection_of cat t tier excluded device verified =
     \<lparr>se_servers = sv_logical_servers cat, se_target = t, se_tier = tier, se_excluded = excluded,
      se_device = device, se_verified = verified\<rparr>"

definition select_validated ::
  "server_catalog \<Rightarrow> json \<Rightarrow> u8 \<Rightarrow> excluded_location list \<Rightarrow> string
    \<Rightarrow> (physical_server \<Rightarrow> unit native_res) \<Rightarrow> nat list \<Rightarrow> connection_target native_res" where
  "select_validated cat params tier excluded device_country validate draws =
     rbind (ok_or (native_error_new ''invalid_params'' ''target must be a JSON object'')
              (Option.bind (vget params ''target'') as_object)) (\<lambda>members.
     let t = read_target members; device = to_ascii_uppercase (trim device_country) in
     rbind (check_target t device) (\<lambda>_.
     select_loop (selection_of cat t tier excluded device (\<lambda>p. \<not> isl (validate p)))
       (available tier (sv_logical_servers cat)) False draws))"

definition select ::
  "crypto \<Rightarrow> server_catalog \<Rightarrow> json \<Rightarrow> u8 \<Rightarrow> excluded_location list \<Rightarrow> string \<Rightarrow> nat list
    \<Rightarrow> connection_target native_res" where
  "select cy cat params tier excluded device_country draws =
     select_validated cat params tier excluded device_country (validate_with_key cy) draws"

section \<open>Samples\<close>

definition demo_endpoint :: "string \<Rightarrow> physical_server" where
  "demo_endpoint ip =
     \<lparr>ps_id = ''p'' @ ip, ps_entry_ip = ip, ps_exit_ip = ip, ps_domain = ''node.example'', ps_status = 1,
      ps_x25519_public_key = replicate 44 (CHR ''A''), ps_label = Some ''7'',
      ps_signature = Some (replicate 88 (CHR ''S'')), ps_extra = []\<rparr>"

definition demo_logical :: "string \<Rightarrow> string \<Rightarrow> rat \<Rightarrow> physical_server list \<Rightarrow> logical_server" where
  "demo_logical name country score ps =
     \<lparr>lg_id = name, lg_name = name, lg_entry_country = country, lg_exit_country = country, lg_host_country = None,
      lg_city = ''City'', lg_state = [], lg_region = None, lg_domain = ''node.example'', lg_tier = 0, lg_features = 0,
      lg_load = 10, lg_score = score, lg_status = 1, lg_location = \<lparr>sl_lat = None, sl_long = None\<rparr>,
      lg_servers = ps, lg_vpn_gateway_id = None, lg_gateway_name = [], lg_extra = []\<rparr>"

definition demo_catalog :: server_catalog where
  "demo_catalog =
     \<lparr>sv_expiration_time = 100, sv_loads_expiration_time = 100, sv_max_tier = 2,
      sv_logical_servers =
        [demo_logical ''CH#1'' ''CH'' 1 [demo_endpoint ''bad''],
         demo_logical ''CH#2'' ''CH'' 3 [demo_endpoint ''10.1.0.2''],
         demo_logical ''SE#1'' ''SE'' 2 [demo_endpoint ''10.1.0.3'']],
      sv_extra = []\<rparr>"

text \<open>A signature check that accepts what was signed for the endpoints of \<open>demo_catalog\<close>.\<close>

definition demo_issued :: "(physical_server \<times> string) set" where
  "demo_issued = {(demo_endpoint ''10.1.0.2'', replicate 64 (CHR 0x01)), (demo_endpoint ''10.1.0.3'', replicate 64 (CHR 0x01))}"

definition demo_crypto :: crypto where
  "demo_crypto =
     \<lparr>cy_base64_decode = (\<lambda>s. Some (replicate (length s div 4 * 3 - (if length s = 44 then 1 else 2)) (CHR 0x01))),
      cy_verify_strict = (\<lambda>message sig. (message = signed_payload (demo_endpoint ''10.1.0.2'')
          \<or> message = signed_payload (demo_endpoint ''10.1.0.3'')) \<and> sig = replicate 64 (CHR 0x01))\<rparr>"

definition demo_selection_request :: "string \<Rightarrow> json" where
  "demo_selection_request country = jobj [(''target'', jobj [(''country_code'', JStr country)])]"

end
