(* ===== verification/Catalog_Laws.thy ===== *)
theory Catalog_Laws
  imports Catalog Net_Roundtrip
begin

text \<open>
  The promises of server selection (\<^verbatim>\<open>select_validated\<close> of \<^verbatim>\<open>native_backend/catalog.rs\<close>). The loop removes a
  server whose endpoints fail the signature check and starts over; \<open>outcome_ok\<close> says what it returns without a
  loop: the first of the eligible servers with a verified endpoint, or the error that tells why there is none.
\<close>

section \<open>The abstract selection\<close>

text \<open>A server the request admits; one that has an endpoint to connect to; and the order among the admitted.\<close>


definition eligible :: "selection \<Rightarrow> logical_server \<Rightarrow> bool" where
  "eligible q s \<longleftrightarrow> fits (se_servers q) (se_target q) (se_device q) s \<and> (applies_exclusions q \<longrightarrow> \<not> is_excluded q s)"

definition connectable :: "selection \<Rightarrow> logical_server \<Rightarrow> bool" where
  "connectable q s \<longleftrightarrow> endpoints q s \<noteq> []"

definition preferred :: "target \<Rightarrow> logical_server \<Rightarrow> logical_server \<Rightarrow> bool" where
  "preferred t s s' \<longleftrightarrow>
     tg_random_server t \<or> (tg_random t \<or> tg_free_random t) \<and> lg_exit_country s' \<noteq> lg_exit_country s
     \<or> lg_score s \<le> lg_score s'"

lemma sort_key_Nil [simp]: "sort_key f xs = [] \<longleftrightarrow> xs = []"
  by (metis length_0_conv length_sort)

lemma choose_draw_None: "fst (choose_draw draws xs) = None \<longleftrightarrow> xs = []"
  by (simp add: choose_draw_def)

lemma best_of_None: "fst (best_of t cs draws) = None \<longleftrightarrow> cs = []"
  by (auto simp: best_of_def choose_draw_None split: list.split)

lemma best_of_score:
  assumes "best_of t cs draws = (Some e, draws')" "\<not> tg_random_server t" "e' \<in> set cs"
  shows "lg_score (snd e) \<le> lg_score (snd e')"
proof -
  obtain es where es: "sort_key (lg_score \<circ> snd) cs = e # es"
    using assms(1,2) by (auto simp: best_of_def split: list.splits)
  have "sorted (map (lg_score \<circ> snd) (e # es))"
    by (metis es sorted_sort_key)
  moreover have "e' \<in> set (e # es)"
    by (metis assms(3) es set_sort)
  ultimately show ?thesis by auto
qed

lemma among_countries_elems:
  assumes "among_countries t cs draws = (cs', draws')" "e \<in> set cs'" "e' \<in> set cs"
    "tg_random t \<or> tg_free_random t \<Longrightarrow> lg_exit_country (snd e') = lg_exit_country (snd e)"
  shows "e' \<in> set cs'"
  using assms by (auto simp: among_countries_def split: if_splits prod.splits)

lemma among_countries_empty:
  assumes "among_countries t cs draws = (cs', draws')"
  shows "cs' = [] \<longleftrightarrow> cs = []"
proof (cases "tg_random t \<or> tg_free_random t")
  case True
  let ?countries = "sort (remdups (map (lg_exit_country \<circ> snd) cs))"
  obtain c draws'' where c: "choose_draw draws ?countries = (c, draws'')"
    by fastforce
  show ?thesis
  proof (cases c)
    case None
    then show ?thesis using choose_draw_None [of draws ?countries] c assms True
      by (auto simp: among_countries_def)
  next
    case (Some country)
    then have "country \<in> set (map (lg_exit_country \<circ> snd) cs)"
      using choose_draw_mem c by fastforce
    moreover have "cs' = filter (\<lambda>(_, s). Some country = Some (lg_exit_country s)) cs"
      using Some c assms True by (simp add: among_countries_def)
    ultimately show ?thesis by (fastforce simp: filter_empty_conv)
  qed
qed (use assms in \<open>simp add: among_countries_def\<close>)

lemma pick_cases:
  assumes "tg_server_name (se_target q) = []"
  obtains (excluded) draws' where "pick q av draws = (Inl all_excluded, draws')"
      "applies_exclusions q" "\<exists>x \<in> set av. fits (se_servers q) (se_target q) (se_device q) (snd x)"
      "\<not> (\<exists>x \<in> set av. eligible q (snd x))"
  | (none) draws' where "pick q av draws = (Inr None, draws')"
      "\<not> (\<exists>x \<in> set av. fits (se_servers q) (se_target q) (se_device q) (snd x))"
  | (some) i s draws' where "pick q av draws = (Inr (Some (i, s)), draws')" "(i, s) \<in> set av" "eligible q s"
      "\<And>x. x \<in> set av \<Longrightarrow> eligible q (snd x) \<Longrightarrow> preferred (se_target q) s (snd x)"
proof -
  let ?fits = "\<lambda>(_, s). fits (se_servers q) (se_target q) (se_device q) s"
  let ?candidates = "filter ?fits av"
  define kept where "kept = (if applies_exclusions q then filter (\<lambda>(_, s). \<not> is_excluded q s) ?candidates else ?candidates)"
  have kept: "set kept = {x \<in> set av. eligible q (snd x)}"
    by (auto simp: kept_def eligible_def)
  show thesis
  proof (cases "?candidates \<noteq> [] \<and> kept = []")
    case True
    then have "pick q av draws = (Inl all_excluded, draws)"
      using assms by (simp add: pick_def Let_def kept_def)
    moreover have "applies_exclusions q" using True by (simp add: kept_def split: if_splits)
    moreover have "\<exists>x \<in> set av. fits (se_servers q) (se_target q) (se_device q) (snd x)"
      using True by (force simp: filter_empty_conv)
    moreover have "\<not> (\<exists>x \<in> set av. eligible q (snd x))"
      using True kept by auto
    ultimately show thesis by (rule excluded)
  next
    case False
    obtain cs draws1 where cs: "among_countries (se_target q) kept draws = (cs, draws1)" by fastforce
    obtain e draws2 where e: "best_of (se_target q) cs draws1 = (e, draws2)" by fastforce
    have pick: "pick q av draws = (Inr e, draws2)"
      using False assms cs e by (auto simp: pick_def Let_def kept_def)
    show thesis
    proof (cases e)
      case None
      then have "kept = []"
        using best_of_None [of "se_target q" cs draws1] e among_countries_empty [OF cs] by simp
      with False have "?candidates = []" by blast
      then have "\<not> (\<exists>x \<in> set av. fits (se_servers q) (se_target q) (se_device q) (snd x))"
        by (auto simp: filter_empty_conv)
      with None pick none show thesis by simp
    next
      case (Some x0)
      obtain i s where x0: "x0 = (i, s)" by fastforce
      have mem: "(i, s) \<in> set cs" using best_of_mem e Some x0 by simp
      then have el: "(i, s) \<in> set kept" using among_countries_sub [OF cs] by blast
      have "preferred (se_target q) s (snd x)" if "x \<in> set av" "eligible q (snd x)" for x
        using among_countries_elems [OF cs mem, of x] best_of_score [of "se_target q" cs draws1 "(i, s)" draws2 x] that kept e
        by (auto simp: preferred_def Some x0)
      then show thesis using some pick Some x0 el kept by auto
    qed
  qed
qed


lemma without_mem:
  assumes "distinct (map fst av)" "(i, s) \<in> set av"
  shows "set (without i av) = set av - {(i, s)}"
  using assms by (auto simp: without_def dest: eq_key_imp_eq_value)

lemma without_distinct [simp]: "distinct (map fst av) \<Longrightarrow> distinct (map fst (without i av))"
  by (simp add: without_def distinct_map_filter)

lemma eligible_features: "eligible q s \<Longrightarrow> \<not> feature_mismatch (se_target q) s"
  by (auto simp: eligible_def fits_def feature_mismatch_def)

text \<open>What a round does for a request that names no server, and the whole loop as a function of the entries.\<close>

definition outcome_ok :: "selection \<Rightarrow> candidate list \<Rightarrow> bool \<Rightarrow> connection_target native_res \<Rightarrow> bool" where
  "outcome_ok q av rejected r \<longleftrightarrow>
     (if \<exists>x \<in> set av. eligible q (snd x) \<and> connectable q (snd x)
      then \<exists>i s p. (i, s) \<in> set av \<and> eligible q s \<and> p \<in> set (endpoints q s)
             \<and> (\<forall>x \<in> set av. eligible q (snd x) \<and> connectable q (snd x) \<longrightarrow> preferred (se_target q) s (snd x))
             \<and> r = Inr \<lparr>ct_logical = s\<lparr>lg_state := canonical_state (se_servers q) s\<rparr>, ct_physical = p\<rparr>
      else r = Inl (if \<exists>x \<in> set av. fits (se_servers q) (se_target q) (se_device q) (snd x) \<and> \<not> eligible q (snd x)
                    then all_excluded
                    else if rejected \<or> (\<exists>x \<in> set av. eligible q (snd x)) then validation_failed
                    else not_found))"

lemma outcome_ok_none: "outcome_ok q [] True (Inl validation_failed)"
  by (simp add: outcome_ok_def)

lemma outcome_ok_without:
  assumes "distinct (map fst av)" "(i, s) \<in> set av" "eligible q s" "\<not> connectable q s"
    and "outcome_ok q (without i av) True r"
  shows "outcome_ok q av rejected r"
proof -
  have av: "set av = insert (i, s) (set (without i av))"
    using without_mem [OF assms(1,2)] assms(2) by auto
  show ?thesis
    using assms(3-5) unfolding outcome_ok_def av by (auto split: if_splits)
qed

lemma select_loop_outcome:
  assumes "tg_server_name (se_target q) = []"
  shows "distinct (map fst av) \<Longrightarrow> outcome_ok q av rejected (select_loop q av rejected draws)"
proof (induction av arbitrary: rejected draws rule: measure_induct_rule [of length])
  case (less av)
  show ?case
  proof (rule pick_cases [OF assms, of av draws], goal_cases excluded none some)
    case (excluded draws')
    then show ?thesis
      by (subst select_loop.simps) (auto simp: outcome_ok_def)
  next
    case (none draws')
    then show ?thesis
      by (subst select_loop.simps) (auto simp: outcome_ok_def eligible_def)
  next
    case (some i s draws')
    obtain p draws'' where p: "choose_draw draws' (endpoints q s) = (p, draws'')" by fastforce
    show ?thesis
    proof (cases p)
      case (Some e)
      then have e: "e \<in> set (endpoints q s)" using choose_draw_mem p by fastforce
      then have con: "connectable q s" by (auto simp: connectable_def)
      have r: "select_loop q av rejected draws =
          Inr \<lparr>ct_logical = s\<lparr>lg_state := canonical_state (se_servers q) s\<rparr>, ct_physical = e\<rparr>"
        using some(1) p Some eligible_features [OF some(3)] by (subst select_loop.simps) simp
      have "\<exists>x \<in> set av. eligible q (snd x) \<and> connectable q (snd x)"
        using some(2,3) con by force
      then show ?thesis
        using some(2-4) e unfolding outcome_ok_def r by (simp only: if_True) blast
    next
      case None
      then have none: "\<not> connectable q s"
        using choose_draw_None [of draws' "endpoints q s"] p by (simp add: connectable_def)
      have "outcome_ok q (without i av) True (if without i av = [] then Inl validation_failed
              else select_loop q (without i av) True draws'')"
        using less.IH [OF without_shorter [OF some(2)], of True draws''] less.prems
        by (simp add: outcome_ok_none)
      moreover have "select_loop q av rejected draws = (if without i av = [] then Inl validation_failed
              else select_loop q (without i av) True draws'')"
        using some(1) p None eligible_features [OF some(3)] assms by (subst select_loop.simps) simp
      ultimately show ?thesis
        using outcome_ok_without [OF less.prems some(2,3) none] by simp
    qed
  qed
qed


lemma pick_named:
  assumes "tg_server_name (se_target q) \<noteq> []"
  shows "pick q av draws = (Inr (find (\<lambda>(_, s). eq_ignore_ascii_case (lg_name s) (tg_server_name (se_target q))) av), draws)"
  using assms by (simp add: pick_def Let_def)

lemma select_loop_named:
  assumes "tg_server_name (se_target q) \<noteq> []"
    and "select_loop q av rejected draws = Inr t"
  obtains i s where "(i, s) \<in> set av" "eq_ignore_ascii_case (lg_name s) (tg_server_name (se_target q))"
    "\<not> feature_mismatch (se_target q) s" "ct_physical t \<in> set (endpoints q s)"
    "ct_logical t = s\<lparr>lg_state := canonical_state (se_servers q) s\<rparr>"
  using assms(2)
  by (subst (asm) select_loop.simps)
     (auto simp: pick_named [OF assms(1)] assms(1) split: option.splits if_splits prod.splits
       dest!: find_first choose_draw_mem)

lemma available_distinct [simp]: "distinct (map fst (available tier ss))"
  by (simp add: available_def)

lemma set_available: "snd ` set (available tier ss) = {s \<in> set ss. enabled s \<and> lg_tier s \<le> tier}"
proof -
  have "map snd (available tier ss) = filter (\<lambda>s. enabled s \<and> lg_tier s \<le> tier) ss"
    by (simp add: available_def)
  then have "set (map snd (available tier ss)) = {s \<in> set ss. enabled s \<and> lg_tier s \<le> tier}"
    by simp
  then show ?thesis by simp
qed

lemma bex_available:
  "(\<exists>x \<in> set (available tier ss). P (snd x)) \<longleftrightarrow> (\<exists>s \<in> set (filter (\<lambda>s. enabled s \<and> lg_tier s \<le> tier) ss). P s)"
  using set_available [of tier ss] by (simp add: set_eq_iff image_iff) metis

lemma ball_available:
  "(\<forall>x \<in> set (available tier ss). P (snd x)) \<longleftrightarrow> (\<forall>s \<in> set (filter (\<lambda>s. enabled s \<and> lg_tier s \<le> tier) ss). P s)"
  using bex_available [of tier ss "\<lambda>s. \<not> P s"] by blast

lemma available_mem: "(i, s) \<in> set (available tier ss) \<Longrightarrow> s \<in> set ss \<and> enabled s \<and> lg_tier s \<le> tier"
  using set_available [of tier ss] by force

text \<open>The request \<open>select\<close> runs the loop on.\<close>

definition request_of :: "crypto \<Rightarrow> server_catalog \<Rightarrow> jobject \<Rightarrow> u8 \<Rightarrow> excluded_location list \<Rightarrow> string \<Rightarrow> selection" where
  "request_of cy cat m tier excluded device_country =
     selection_of cat (read_target m) tier excluded (to_ascii_uppercase (trim device_country))
       (\<lambda>p. \<not> isl (validate_with_key cy p))"

lemma request_of_simps [simp]:
  "se_servers (request_of cy cat m tier excluded d) = sv_logical_servers cat"
  "se_target (request_of cy cat m tier excluded d) = read_target m"
  "se_tier (request_of cy cat m tier excluded d) = tier"
  "se_excluded (request_of cy cat m tier excluded d) = excluded"
  "se_device (request_of cy cat m tier excluded d) = to_ascii_uppercase (trim d)"
  "se_verified (request_of cy cat m tier excluded d) = (\<lambda>p. \<not> isl (validate_with_key cy p))"
  by (simp_all add: request_of_def selection_of_def)

lemma select_request:
  assumes "vget params ''target'' = Some (JObj m)"
    and "check_target (read_target m) (to_ascii_uppercase (trim device)) = Inr ()"
  shows "select cy cat params tier excluded device draws =
    select_loop (request_of cy cat m tier excluded device) (available tier (sv_logical_servers cat)) False draws"
  using assms by (simp add: select_def select_validated_def request_of_def ok_or_def)

lemma select_Inr:
  assumes "select cy cat params tier excluded device draws = Inr t"
  obtains m where "vget params ''target'' = Some (JObj m)"
    "check_target (read_target m) (to_ascii_uppercase (trim device)) = Inr ()"
    "select_loop (request_of cy cat m tier excluded device) (available tier (sv_logical_servers cat)) False draws = Inr t"
  using assms
  by (auto simp: select_def select_validated_def request_of_def ok_or_def rbind_Inr Let_def as_object_Some bind_eq_Some_conv
      split: option.splits)

section \<open>Properties\<close>

text \<open>C11. A server that \<open>select\<close> returns is one of the catalog, switched on and within the user's tier; its endpoint is
  active and carries a valid signature; it has the features asked for. When the request names no server it also
  satisfies every filter and no exclusion, and no other such server with a verified endpoint has a better score (in
  its country, for a random country). Only the state of the city is filled in.\<close>

theorem selected_server_is_verified_and_best:
  assumes "select cy cat params tier excluded device draws = Inr t"
  shows "\<exists>m s. let q = request_of cy cat m tier excluded device; offered = (\<lambda>s. enabled s \<and> lg_tier s \<le> tier) in
     vget params ''target'' = Some (JObj m) \<and> s \<in> set (sv_logical_servers cat) \<and> offered s
     \<and> ct_logical t = s\<lparr>lg_state := canonical_state (sv_logical_servers cat) s\<rparr>
     \<and> ct_physical t \<in> set (lg_servers s) \<and> ps_status (ct_physical t) = 1
     \<and> validate_with_key cy (ct_physical t) = Inr ()
     \<and> \<not> feature_mismatch (read_target m) s
     \<and> (if tg_server_name (read_target m) \<noteq> [] then eq_ignore_ascii_case (lg_name s) (tg_server_name (read_target m))
        else eligible q s
          \<and> (\<forall>s' \<in> set (sv_logical_servers cat).
               offered s' \<and> eligible q s' \<and> connectable q s' \<longrightarrow> preferred (read_target m) s s'))"
proof -
  obtain m where m: "vget params ''target'' = Some (JObj m)"
      "select_loop (request_of cy cat m tier excluded device) (available tier (sv_logical_servers cat)) False draws = Inr t"
    using select_Inr [OF assms] by metis
  let ?q = "request_of cy cat m tier excluded device" and ?av = "available tier (sv_logical_servers cat)"
  have ep: "p \<in> set (lg_servers s) \<and> ps_status p = 1 \<and> validate_with_key cy p = Inr ()"
    if "p \<in> set (endpoints ?q s)" for p s
    using that by (auto simp: endpoints_def) (metis isl_def old.unit.exhaust sum.exhaust_sel)
  show ?thesis
  proof (cases "tg_server_name (read_target m) = []")
    case False
    then obtain i s where "(i, s) \<in> set ?av" "eq_ignore_ascii_case (lg_name s) (tg_server_name (read_target m))"
      "\<not> feature_mismatch (read_target m) s" "ct_physical t \<in> set (endpoints ?q s)"
      "ct_logical t = s\<lparr>lg_state := canonical_state (sv_logical_servers cat) s\<rparr>"
      using select_loop_named [OF _ m(2)] by auto
    then show ?thesis
      using m(1) False ep available_mem by (intro exI [of _ m] exI [of _ s]) (simp add: Let_def)
  next
    case True
    have "outcome_ok ?q ?av False (Inr t)"
      using select_loop_outcome [of ?q ?av False draws] True m(2) by simp
    then obtain i s p where s: "(i, s) \<in> set ?av" "eligible ?q s" "p \<in> set (endpoints ?q s)"
      "\<forall>x \<in> set ?av. eligible ?q (snd x) \<and> connectable ?q (snd x) \<longrightarrow> preferred (read_target m) s (snd x)"
      "t = \<lparr>ct_logical = s\<lparr>lg_state := canonical_state (sv_logical_servers cat) s\<rparr>, ct_physical = p\<rparr>"
      by (auto simp: outcome_ok_def split: if_splits)
    have "preferred (read_target m) s s'"
      if "s' \<in> set (sv_logical_servers cat)" "enabled s'" "lg_tier s' \<le> tier" "eligible ?q s'" "connectable ?q s'" for s'
      using s(4) [unfolded ball_available
          [where P = "\<lambda>x. eligible ?q x \<and> connectable ?q x \<longrightarrow> preferred (read_target m) s x"]] that by simp
    then show ?thesis
      using m(1) True s available_mem [OF s(1)] ep [OF s(3)] eligible_features [OF s(2)]
      by (intro exI [of _ m] exI [of _ s]) (simp add: Let_def)
  qed
qed

lemma demo_select:
  "select demo_crypto demo_catalog (demo_selection_request '' ch'') 2 [] [] [5, 7] =
     Inr \<lparr>ct_logical = demo_logical ''CH#2'' ''CH'' 3 [demo_endpoint ''10.1.0.2''], ct_physical = demo_endpoint ''10.1.0.2''\<rparr>"
  by code_simp


theorem selected_server_is_verified_and_best_witness:
  "\<exists>s \<in> set (sv_logical_servers demo_catalog).
     ct_logical (projr (select demo_crypto demo_catalog (demo_selection_request '' ch'') 2 [] [] [5, 7]))
       = s\<lparr>lg_state := canonical_state (sv_logical_servers demo_catalog) s\<rparr> \<and> enabled s"
  using selected_server_is_verified_and_best [OF demo_select] unfolding demo_select Let_def by fastforce





section \<open>Signatures\<close>

lemma digit_char_inj: "a < 16 \<Longrightarrow> b < 16 \<Longrightarrow> digit_char a = digit_char b \<longleftrightarrow> a = b"
  by (metis option.inject to_digit_hex)

lemma byte_inj: "byte c = byte d \<longleftrightarrow> c = d"
  by simp

lemma escape_char_prefix:
  assumes "escape_char c @ u = escape_char d @ v"
  shows "c = d \<and> u = v"
proof (cases "byte c < 32 \<and> byte d < 32")
  case True
  then have "byte c = byte d \<longleftrightarrow> byte c div 16 = byte d div 16 \<and> byte c mod 16 = byte d mod 16"
    by (metis div_mult_mod_eq)
  moreover have "byte c div 16 < 16" "byte d div 16 < 16" using True by auto
  ultimately have "digit_char (byte c div 16) = digit_char (byte d div 16) \<and>
      digit_char (byte c mod 16) = digit_char (byte d mod 16) \<longleftrightarrow> c = d"
    using True by (simp add: digit_char_inj byte_inj)
  then show ?thesis
    using assms by (auto simp: escape_char_def split: if_splits)
next
  case False
  then show ?thesis
    using assms by (auto simp: escape_char_def split: if_splits)
qed

lemma escape_char_head: "hd (escape_char c) \<noteq> CHR 0x22" "escape_char c \<noteq> []"
  by (auto simp: escape_char_def)

lemma json_text_prefix: "json_text a @ u = json_text b @ v \<longleftrightarrow> a = b \<and> u = v"
proof
  have "concat (map escape_char a) @ CHR 0x22 # u = concat (map escape_char b) @ CHR 0x22 # v \<Longrightarrow> a = b \<and> u = v"
  proof (induction a arbitrary: b)
    case Nil
    then show ?case using escape_char_head by (cases b) (auto simp: Cons_eq_append_conv, metis list.sel(1))
  next
    case (Cons c a)
    show ?case
    proof (cases b)
      case Nil
      then show ?thesis using Cons.prems escape_char_head [of c] by (auto simp: append_eq_Cons_conv)
    next
      case (Cons d b')
      then have "escape_char c @ (concat (map escape_char a) @ CHR 0x22 # u)
          = escape_char d @ (concat (map escape_char b') @ CHR 0x22 # v)"
        using Cons.prems by simp
      then show ?thesis using Cons.IH Cons by (metis escape_char_prefix)
    qed
  qed
  then show "json_text a @ u = json_text b @ v \<Longrightarrow> a = b \<and> u = v" by (simp add: json_text_def)
qed auto

lemma label_text_inj:
  "(case a of None \<Rightarrow> ''null'' | Some l \<Rightarrow> json_text l) = (case b of None \<Rightarrow> ''null'' | Some l \<Rightarrow> json_text l)
    \<longleftrightarrow> a = b"
  using json_text_prefix [of _ "[]" _ "[]"] by (auto split: option.splits) (simp_all add: json_text_def)

lemma signed_payload_inj:
  "signed_payload p = signed_payload p' \<longleftrightarrow> ps_entry_ip p = ps_entry_ip p' \<and> ps_label p = ps_label p'"
  by (simp add: signed_payload_def json_text_prefix label_text_inj)


lemma validated_signature:
  assumes "validate_with_key cy p = Inr ()"
  obtains enc sig where "ps_signature p = Some enc" "cy_base64_decode cy enc = Some sig" "length sig = 64"
    "cy_verify_strict cy (signed_payload p) sig"
  using assms
  by (auto simp: validate_with_key_def rbind_Inr ok_or_def opt_filter_def split: if_splits option.splits)

lemma validated_endpoint:
  assumes "validate_with_key cy p = Inr ()"
  shows "parse_ip (ps_entry_ip p) \<noteq> None" "\<exists>k. cy_base64_decode cy (ps_x25519_public_key p) = Some k \<and> length k = 32"
  using assms by (auto simp: validate_with_key_def split: if_splits option.splits)

lemma select_loop_endpoint: "select_loop q av rejected draws = Inr t \<Longrightarrow> se_verified q (ct_physical t)"
proof (induction q av rejected draws rule: select_loop.induct)
  case (1 q av rejected draws)
  from "1.prems" show ?case
    unfolding select_loop.simps [of q av]
    by (auto simp: endpoints_def split: sum.splits option.splits if_splits prod.splits dest!: choose_draw_mem
        intro: "1.IH")
qed

lemma select_validates: "select cy cat params tier excluded device draws = Inr t \<Longrightarrow> validate_with_key cy (ct_physical t) = Inr ()"
  by (erule select_Inr, drule select_loop_endpoint) (auto simp: isl_def split: sum.splits, metis old.unit.exhaust sum.exhaust)

text \<open>C13. A signature cannot be moved to another endpoint. If the check accepts only the messages Proton signed, the endpoint
  of a selected server has the address and the label of an endpoint Proton signed, with that signature: the signed
  text determines both, whatever characters they hold.\<close>

theorem selected_endpoint_was_issued:
  assumes "\<And>message sig. cy_verify_strict cy message sig \<Longrightarrow> (message, sig) \<in> (\<lambda>(p, sig). (signed_payload p, sig)) ` issued"
    and "select cy cat params tier excluded device draws = Inr t"
  shows "\<exists>(p, sig) \<in> issued. ps_entry_ip p = ps_entry_ip (ct_physical t) \<and> ps_label p = ps_label (ct_physical t)
      \<and> Option.bind (ps_signature (ct_physical t)) (cy_base64_decode cy) = Some sig
      \<and> parse_ip (ps_entry_ip p) \<noteq> None"
proof -
  have ok: "validate_with_key cy (ct_physical t) = Inr ()"
    using assms(2) by (rule select_validates)
  then obtain enc sig where sig: "ps_signature (ct_physical t) = Some enc" "cy_base64_decode cy enc = Some sig"
    and "cy_verify_strict cy (signed_payload (ct_physical t)) sig"
    by (rule validated_signature)
  then obtain p where "(p, sig) \<in> issued" "signed_payload (ct_physical t) = signed_payload p"
    using assms(1) by fastforce
  then show ?thesis
    using sig validated_endpoint(1) [OF ok] by (intro bexI [of _ "(p, sig)"]) (simp_all add: signed_payload_inj)
qed

theorem selected_endpoint_was_issued_witness:
  "\<exists>(p, sig) \<in> demo_issued.
     ps_entry_ip p = ps_entry_ip (ct_physical (projr (select demo_crypto demo_catalog (demo_selection_request '' ch'') 2 [] [] [5, 7])))
     \<and> ps_label p = Some ''7''"
proof -
  have verify: "(message, sig) \<in> (\<lambda>(p, sig). (signed_payload p, sig)) ` demo_issued"
    if "cy_verify_strict demo_crypto message sig" for message sig
    using that by (auto simp: demo_crypto_def demo_issued_def)
  show ?thesis
    using selected_endpoint_was_issued [OF verify demo_select] unfolding demo_select
    by (auto simp: demo_endpoint_def demo_issued_def)
qed

end
