(* ===== verification/Catalog_Pages.thy ===== *)
theory Catalog_Pages
  imports Catalog "HOL-Library.Product_Lexorder" "HOL-Library.Option_ord" "HOL-Library.Multiset"
begin

text \<open>
  The lists the user interface shows, of \<^verbatim>\<open>native_backend/catalog.rs\<close>: a page of the servers that match a
  search (\<open>servers_page\<close>), the countries, gateways and cities (\<open>locations\<close>) and the name of a server as it is
  asked of the server (\<open>canonical_server_lookup_query\<close>). \<open>fold_case\<close> stands for the crate that decomposes,
  drops combining marks and lowers the case of a text; \<open>names\<close> for the crate of country names.
\<close>

section \<open>Names of servers\<close>

type_synonym folding = "string \<Rightarrow> string"

definition normalize_search :: "folding \<Rightarrow> string \<Rightarrow> string" where
  "normalize_search fold_case v = fold_case (trim v)"

text \<open>The characters of \<open>compact_server_name\<close>: white space may have up to three bytes.\<close>

function strip_marks :: "string \<Rightarrow> string" where
  "strip_marks s =
     (case s of [] \<Rightarrow> []
      | c # s' \<Rightarrow>
          (case ws_front s of Some k \<Rightarrow> strip_marks (drop k s)
           | None \<Rightarrow> if c = CHR ''#'' \<or> c = CHR ''-'' then strip_marks s' else c # strip_marks s'))"
  by pat_completeness auto
termination
  by (relation "measure length") (auto dest: ws_front_bounds)

declare strip_marks.simps [simp del]

definition compact_server_name :: "folding \<Rightarrow> string \<Rightarrow> string" where
  "compact_server_name fold_case v = strip_marks (normalize_search fold_case v)"

text \<open>\<open>match_indices\<close>: the matches of a non-empty pattern, from the left and without overlap.\<close>

function match_indices :: "string \<Rightarrow> nat \<Rightarrow> string \<Rightarrow> nat list" where
  "match_indices p i s =
     (if p = [] \<or> s = [] then []
      else if starts_with p s then i # match_indices p (i + length p) (drop (length p) s)
      else match_indices p (i + 1) (tl s))"
  by pat_completeness auto
termination
  by (relation "measure (\<lambda>(_, _, s). length s)") (auto simp: neq_Nil_conv)

declare match_indices.simps [simp del]

definition after_boundary :: "string \<Rightarrow> bool" where
  "after_boundary before \<longleftrightarrow>
     before = [] \<or> ws_back before \<noteq> None \<or> last before = CHR ''#'' \<or> last before = CHR ''-''"

definition server_name_match_rank :: "folding \<Rightarrow> string \<Rightarrow> string \<Rightarrow> string \<Rightarrow> u8 option" where
  "server_name_match_rank fold_case name query compact_query =
     (if query = [] then Some 0
      else
      let normalized = normalize_search fold_case name;
          compact = compact_server_name fold_case normalized in
      if normalized = query \<or> compact_query \<noteq> [] \<and> compact = compact_query then Some 0
      else if starts_with query normalized \<or> compact_query \<noteq> [] \<and> starts_with compact_query compact then Some 1
      else if \<exists>i \<in> set (match_indices query 0 normalized). after_boundary (take i normalized) then Some 2
      else None)"

definition lookup_char :: "char \<Rightarrow> bool" where
  "lookup_char c \<longleftrightarrow> is_ascii_alphanumeric c \<or> c = CHR ''#'' \<or> c = CHR ''-''"

definition canonical_server_lookup_query :: "string \<Rightarrow> string option" where
  "canonical_server_lookup_query v =
     (let trimmed = trim v in
      if trimmed = [] \<or> 128 < length trimmed \<or> \<not> list_all lookup_char trimmed then None
      else
      let canonical = to_ascii_uppercase trimmed in
      Option.bind (position is_ascii_digit canonical) (\<lambda>d.
      let prefix = take d canonical in
      if length (filter is_ascii_alphabetic prefix) < 2
         \<or> \<not> list_all (\<lambda>c. is_ascii_alphabetic c \<or> c = CHR ''#'' \<or> c = CHR ''-'') prefix
      then None
      else if CHR ''#'' \<notin> set prefix
      then if prefix \<noteq> [] \<and> last prefix = CHR ''-''
           then Some (take (d - 1) canonical @ ''#'' @ drop d canonical)
           else Some (take d canonical @ ''#'' @ drop d canonical)
      else Some canonical))"

section \<open>A page of servers\<close>

definition MAX_SERVER_QUERY_BYTES :: nat where "MAX_SERVER_QUERY_BYTES = 256"

definition bounded_u64 :: "json option \<Rightarrow> u64 \<Rightarrow> u64 \<Rightarrow> u64 native_res" where
  "bounded_u64 value fallback maximum =
     (let n = unwrap_or fallback (Option.bind value as_u64) in
      if maximum < n then Inl (native_error_new ''invalid_params'' ''Numeric request parameter is out of range'')
      else Inr n)"

definition param_string :: "json \<Rightarrow> string \<Rightarrow> string" where
  "param_string params key = trim (unwrap_or [] (Option.bind (vget params key) as_str))"

record page_query =
  pq_offset :: u64
  pq_limit :: u64
  pq_query :: string
  pq_country_code :: string
  pq_gateway_name :: string
  pq_feature :: string
  pq_scope :: string

text \<open>The parameters of \<open>servers_page\<close>, up to its last early return.\<close>

definition read_page_query :: "folding \<Rightarrow> json \<Rightarrow> page_query native_res" where
  "read_page_query fold_case params =
     rbind (bounded_u64 (vget params ''offset'') 0 1000000) (\<lambda>offset.
     rbind (bounded_u64 (vget params ''limit'') 100 100) (\<lambda>limit.
     let raw_query = param_string params ''query'' in
     if MAX_SERVER_QUERY_BYTES < length raw_query
     then Inl (native_error_new ''invalid_params'' ''query must be at most 256 bytes'')
     else
     let gateway = param_string params ''gateway_name'';
         feature = to_ascii_lowercase (param_string params ''feature'');
         scope = to_ascii_lowercase (param_string params ''scope'') in
     if feature \<notin> set ['''', ''all'', ''standard'', ''secure_core'', ''p2p'', ''tor'']
     then Inl (native_error_new ''invalid_params'' ''Unknown server feature filter'')
     else if gateway \<noteq> [] \<and> feature \<notin> set ['''', ''all'']
     then Inl (native_error_new ''invalid_params'' ''Gateway and consumer feature filters cannot be combined'')
     else if scope \<notin> set ['''', ''all'', ''consumer'', ''gateways'']
     then Inl (native_error_new ''invalid_params'' ''Unknown server search scope'')
     else Inr \<lparr>pq_offset = offset, pq_limit = limit, pq_query = normalize_search fold_case raw_query,
                pq_country_code = to_ascii_uppercase (param_string params ''country_code''),
                pq_gateway_name = gateway, pq_feature = feature, pq_scope = scope\<rparr>))"

definition name_rank :: "folding \<Rightarrow> page_query \<Rightarrow> logical_server \<Rightarrow> u8 option" where
  "name_rank fold_case q s =
     server_name_match_rank fold_case (lg_name s) (pq_query q) (compact_server_name fold_case (pq_query q))"

definition on_page :: "folding \<Rightarrow> page_query \<Rightarrow> u8 \<Rightarrow> logical_server \<Rightarrow> bool" where
  "on_page fold_case q tier s \<longleftrightarrow>
     lg_tier s \<le> tier
     \<and> (pq_country_code q = [] \<or> lg_exit_country s = pq_country_code q)
     \<and> (pq_gateway_name q = [] \<or> gateway_name s = pq_gateway_name q)
     \<and> (if pq_scope q = ''consumer'' then gateway_name s = []
        else if pq_scope q = ''gateways'' then gateway_name s \<noteq> [] else True)
     \<and> (if pq_feature q = ''standard'' then standard s
        else if pq_feature q = ''secure_core'' then has_feature FEATURE_SECURE_CORE s
        else if pq_feature q = ''p2p'' then has_feature FEATURE_P2P s
        else if pq_feature q = ''tor'' then has_feature FEATURE_TOR s else True)
     \<and> (pq_query q = [] \<or> name_rank fold_case q s \<noteq> None)"

definition page_key ::
  "folding \<Rightarrow> (string \<Rightarrow> string option) \<Rightarrow> page_query \<Rightarrow> logical_server
    \<Rightarrow> u8 option \<times> string \<times> bool \<times> string \<times> string \<times> string" where
  "page_key fold_case names q s =
     (name_rank fold_case q s, country_name names (lg_exit_country s), \<not> has_feature FEATURE_SECURE_CORE s,
      country_name names (lg_entry_country s), lg_city s, lg_name s)"

definition page_servers ::
  "folding \<Rightarrow> (string \<Rightarrow> string option) \<Rightarrow> page_query \<Rightarrow> u8 \<Rightarrow> logical_server list \<Rightarrow> logical_server list" where
  "page_servers fold_case names q tier ss =
     sort_key (page_key fold_case names q) (filter (on_page fold_case q tier) ss)"

definition page_row :: "(string \<Rightarrow> string option) \<Rightarrow> logical_server list \<Rightarrow> logical_server \<Rightarrow> json" where
  "page_row names ss s =
     (case serialized names s of
        JObj m \<Rightarrow> JObj (obj_insert ''state'' (JStr (canonical_state ss s)) m)
      | v \<Rightarrow> v)"

definition servers_page ::
  "folding \<Rightarrow> (string \<Rightarrow> string option) \<Rightarrow> server_catalog \<Rightarrow> json \<Rightarrow> u8 \<Rightarrow> json native_res" where
  "servers_page fold_case names cat params tier =
     rbind (read_page_query fold_case params) (\<lambda>q.
     let ss = sv_logical_servers cat; servers = page_servers fold_case names q tier ss in
     Inr (jobj [(''offset'', jnum (pq_offset q)), (''limit'', jnum (pq_limit q)),
            (''total'', jnum (of_nat (length servers))), (''query'', JStr (pq_query q)),
            (''country_code'', JStr (pq_country_code q)), (''gateway_name'', JStr (pq_gateway_name q)),
            (''feature'', JStr (pq_feature q)), (''scope'', JStr (pq_scope q)),
            (''servers'', JArr (map (page_row names ss) (take (unat (pq_limit q)) (drop (unat (pq_offset q)) servers))))]))"

section \<open>Countries, gateways and cities\<close>

text \<open>A \<open>BTreeMap\<close> is an association list in the order of its keys, a \<open>BTreeSet\<close> a sorted list.\<close>

type_synonym 'v btree = "(string \<times> 'v) list"

text \<open>\<open>entry(k).or_insert(d)\<close> and a change of the value.\<close>

definition btree_upsert :: "string \<Rightarrow> 'v \<Rightarrow> ('v \<Rightarrow> 'v) \<Rightarrow> 'v btree \<Rightarrow> 'v btree" where
  "btree_upsert k d f m = obj_insert k (f (unwrap_or d (obj_get m k))) m"

type_synonym subdivisions = "string list btree btree"

definition insert_subdivision :: "string \<Rightarrow> logical_server \<Rightarrow> string \<Rightarrow> subdivisions \<Rightarrow> subdivisions" where
  "insert_subdivision code s state =
     btree_upsert code [] (btree_upsert state [] (\<lambda>cities. if lg_city s = [] then cities else insort_insert (lg_city s) cities))"

definition serialized_subdivisions :: "string list btree \<Rightarrow> json list \<times> string list" where
  "serialized_subdivisions m =
     (map (\<lambda>(state, cities). jobj [(''name'', JStr state), (''cities'', JArr (map JStr cities))])
        (filter (\<lambda>(state, _). state \<noteq> []) m),
      concat (map snd (filter (\<lambda>(state, _). state = []) m)))"

definition increment :: "string \<Rightarrow> jobject \<Rightarrow> jobject" where
  "increment key m = obj_insert key (jnum (unwrap_or 0 (Option.bind (obj_get m key) as_u64) + 1)) m"

definition set_feature :: "string \<Rightarrow> bool \<Rightarrow> jobject \<Rightarrow> jobject" where
  "set_feature key on m = (if on then obj_insert key (JBool True) m else m)"

record location_index =
  li_countries :: "jobject btree"
  li_gateways :: "jobject btree"
  li_subdivisions :: subdivisions
  li_p2p_subdivisions :: subdivisions
  li_host_countries :: "string list btree"
  li_secure_core_entries :: "string list btree"

definition count_server :: "logical_server \<Rightarrow> jobject \<Rightarrow> jobject" where
  "count_server s m =
     (let m' = increment ''server_count'' m in if enabled s then increment ''available_server_count'' m' else m')"

definition new_gateway :: "string \<Rightarrow> jobject" where
  "new_gateway name = obj_of [(''name'', JStr name), (''server_count'', jnum 0), (''available_server_count'', jnum 0)]"

definition new_country :: "(string \<Rightarrow> string option) \<Rightarrow> string \<Rightarrow> logical_server \<Rightarrow> jobject" where
  "new_country names code s =
     obj_of [(''code'', JStr code), (''name'', JStr (country_name names (lg_exit_country s))),
       (''server_count'', jnum 0), (''available_server_count'', jnum 0), (''standard'', JBool False),
       (''secure_core'', JBool False), (''p2p'', JBool False), (''tor'', JBool False), (''streaming'', JBool False)]"

definition mark_features :: "logical_server \<Rightarrow> jobject \<Rightarrow> jobject" where
  "mark_features s m =
     set_feature ''streaming'' (has_feature FEATURE_STREAMING s)
       (set_feature ''tor'' (has_feature FEATURE_TOR s)
         (set_feature ''p2p'' (has_feature FEATURE_P2P s)
           (set_feature ''secure_core'' (has_feature FEATURE_SECURE_CORE s)
             (set_feature ''standard'' (standard s) m))))"

text \<open>One turn of the loop over the servers.\<close>

definition index_server ::
  "(string \<Rightarrow> string option) \<Rightarrow> logical_server list \<Rightarrow> logical_server \<Rightarrow> location_index \<Rightarrow> location_index" where
  "index_server names ss s ix =
     (if gateway_name s \<noteq> []
      then ix\<lparr>li_gateways := btree_upsert (gateway_name s) (new_gateway (gateway_name s)) (count_server s) (li_gateways ix)\<rparr>
      else if has_feature FEATURE_B2B s \<or> has_feature FEATURE_PARTNER s \<or> lg_exit_country s = [] then ix
      else
      let code = to_ascii_uppercase (lg_exit_country s); state = canonical_state ss s in
      ix\<lparr>li_host_countries :=
           (case host_country_code s of None \<Rightarrow> li_host_countries ix
            | Some host \<Rightarrow> btree_upsert code [] (insort_insert host) (li_host_countries ix)),
         li_secure_core_entries :=
           (if has_feature FEATURE_SECURE_CORE s \<and> lg_entry_country s \<noteq> []
            then btree_upsert code [] (insort_insert (to_ascii_uppercase (lg_entry_country s))) (li_secure_core_entries ix)
            else li_secure_core_entries ix),
         li_subdivisions :=
           (if standard s then insert_subdivision code s state (li_subdivisions ix) else li_subdivisions ix),
         li_p2p_subdivisions :=
           (if has_feature FEATURE_P2P s then insert_subdivision code s state (li_p2p_subdivisions ix)
            else li_p2p_subdivisions ix),
         li_countries :=
           btree_upsert code (new_country names code s) (mark_features s \<circ> count_server s) (li_countries ix)\<rparr>)"

definition empty_index :: location_index where
  "empty_index = \<lparr>li_countries = [], li_gateways = [], li_subdivisions = [], li_p2p_subdivisions = [],
     li_host_countries = [], li_secure_core_entries = []\<rparr>"

definition location_index_of :: "(string \<Rightarrow> string option) \<Rightarrow> u8 \<Rightarrow> logical_server list \<Rightarrow> location_index" where
  "location_index_of names tier ss = fold (index_server names ss) (filter (\<lambda>s. lg_tier s \<le> tier) ss) empty_index"

definition named_code :: "(string \<Rightarrow> string option) \<Rightarrow> string \<Rightarrow> json" where
  "named_code names code = jobj [(''code'', JStr code), (''name'', JStr (country_name names code))]"

definition finish_country :: "(string \<Rightarrow> string option) \<Rightarrow> location_index \<Rightarrow> string \<Rightarrow> jobject \<Rightarrow> jobject" where
  "finish_country names ix code m =
     (let (states, cities) = serialized_subdivisions (unwrap_or [] (obj_get (li_subdivisions ix) code));
          (p2p_states, p2p_cities) = serialized_subdivisions (unwrap_or [] (obj_get (li_p2p_subdivisions ix) code)) in
      fold (\<lambda>(k, v). obj_insert k v)
        [(''smart_routing_countries'',
            JArr (map (named_code names) (unwrap_or [] (obj_get (li_host_countries ix) code)))),
         (''cities'', JArr (map JStr cities)), (''states'', JArr states),
         (''p2p_cities'', JArr (map JStr p2p_cities)), (''p2p_states'', JArr p2p_states),
         (''secure_core_entries'',
            JArr (map (named_code names) (unwrap_or [] (obj_get (li_secure_core_entries ix) code))))] m)"

definition locations_of :: "(string \<Rightarrow> string option) \<Rightarrow> location_index \<Rightarrow> json" where
  "locations_of names ix =
     jobj [(''countries'',
         JArr (map JObj (sort_key (\<lambda>m. get_str m ''name'')
            (map (\<lambda>(code, m). finish_country names ix code m) (li_countries ix))))),
       (''gateways'', JArr (map (JObj \<circ> snd) (li_gateways ix)))]"

definition catalog_locations :: "(string \<Rightarrow> string option) \<Rightarrow> server_catalog \<Rightarrow> u8 \<Rightarrow> json" where
  "catalog_locations names cat tier = locations_of names (location_index_of names tier (sv_logical_servers cat))"


section \<open>Paging\<close>

lemma concat_slices: "concat (map (\<lambda>k. take l (drop (k * l) xs)) [0..<n]) = take (n * l) xs"
  by (induction n) (simp_all add: take_add [symmetric] add.commute)

definition page_rows :: "json \<Rightarrow> json list" where
  "page_rows page = unwrap_or [] (varr page ''servers'')"

lemma vget_insert: "vget (JObj (obj_insert k v m)) k' = (if k' = k then Some v else vget (JObj m) k')"
  by (simp add: vget_def)

lemma bounded_u64_given: "k \<le> maximum \<Longrightarrow> bounded_u64 (Some (jnum k)) d maximum = Inr k"
  by (simp add: bounded_u64_def jnum_def unwrap_or_def)

text \<open>The checks of \<open>read_page_query\<close> after the numbers.\<close>

lemma read_page_query_offset:
  assumes "read_page_query f (JObj m) = Inr q" "k \<le> 1000000"
  shows "read_page_query f (JObj (obj_insert ''offset'' (jnum k) m)) = Inr (q\<lparr>pq_offset := k\<rparr>)"
proof -
  have same: "param_string (JObj (obj_insert ''offset'' v m)) key = param_string (JObj m) key"
    if "key \<noteq> ''offset''" for v key
    using that by (simp add: param_string_def vget_insert)
  show ?thesis
    using assms(1) unfolding read_page_query_def Let_def
    by (simp add: same vget_insert bounded_u64_given [OF assms(2)] rbind_Inr split: if_splits del: set_simps) auto
qed

lemma page_servers_offset [simp]:
  "page_servers f names (q\<lparr>pq_offset := k\<rparr>) tier ss = page_servers f names q tier ss"
proof -
  have "name_rank f (q\<lparr>pq_offset := k\<rparr>) = name_rank f q" by (simp add: name_rank_def fun_eq_iff)
  then have "page_key f names (q\<lparr>pq_offset := k\<rparr>) = page_key f names q"
      "on_page f (q\<lparr>pq_offset := k\<rparr>) tier = on_page f q tier"
    by (auto simp: page_key_def on_page_def fun_eq_iff)
  then show ?thesis by (simp add: page_servers_def)
qed

lemma servers_page_rows:
  assumes "read_page_query f params = Inr q"
  shows "page_rows (projr (servers_page f names cat params tier)) = map (page_row names (sv_logical_servers cat))
      (take (unat (pq_limit q)) (drop (unat (pq_offset q)) (page_servers f names q tier (sv_logical_servers cat))))"
  using assms
  by (simp add: servers_page_def Let_def page_rows_def varr_def vget_def jobj_def obj_get_of unwrap_or_def)

lemma concat_pages:
  assumes q: "read_page_query f (JObj m) = Inr q"
    and n: "n * unat (pq_limit q) \<le> 1000000"
  shows "concat (map (\<lambda>k. page_rows (projr (servers_page f names cat
            (JObj (obj_insert ''offset'' (jnum (of_nat (k * unat (pq_limit q)))) m)) tier))) [0..<n])
      = map (page_row names (sv_logical_servers cat))
          (take (n * unat (pq_limit q)) (page_servers f names q tier (sv_logical_servers cat)))"
    (is "concat (map ?page _) = map ?row (take _ ?all)")
proof -
  let ?l = "unat (pq_limit q)"
  have "?page k = map ?row (take ?l (drop (k * ?l) ?all))" if "k < n" for k
  proof -
    have le: "k * ?l \<le> 1000000" using that n by (meson le_trans less_imp_le_nat mult_le_mono1)
    then have unat: "unat (of_nat (k * ?l) :: u64) = k * ?l"
      by (simp add: unat_of_nat take_bit_nat_eq_self_iff del: of_nat_mult)
    moreover have "of_nat (k * ?l) \<le> (1000000 :: u64)"
      using le by (simp add: word_le_nat_alt unat del: of_nat_mult)
    ultimately show ?thesis
      using read_page_query_offset [OF q, of "of_nat (k * ?l)"]
      by (simp add: servers_page_rows del: of_nat_mult)
  qed
  then have "map ?page [0..<n] = map (\<lambda>k. map ?row (take ?l (drop (k * ?l) ?all))) [0..<n]" by simp
  also have "concat \<dots> = map ?row (concat (map (\<lambda>k. take ?l (drop (k * ?l) ?all)) [0..<n]))"
    by (simp add: map_concat comp_def)
  finally show ?thesis by (simp add: concat_slices)
qed

section \<open>Counting locations\<close>

lemma obj_get_upsert [simp]:
  "obj_get (btree_upsert k d f m) c = (if c = k then Some (f (unwrap_or d (obj_get m k))) else obj_get m c)"
  by (simp add: btree_upsert_def)

definition in_country :: "string \<Rightarrow> logical_server \<Rightarrow> bool" where
  "in_country c s \<longleftrightarrow> gateway_name s = [] \<and> \<not> has_feature FEATURE_B2B s \<and> \<not> has_feature FEATURE_PARTNER s
     \<and> lg_exit_country s \<noteq> [] \<and> to_ascii_uppercase (lg_exit_country s) = c"

definition counted :: "logical_server list \<Rightarrow> jobject \<Rightarrow> bool" where
  "counted xs m \<longleftrightarrow> get_u64 m ''server_count'' = Some (of_nat (length xs))
     \<and> get_u64 m ''available_server_count'' = Some (of_nat (length (filter enabled xs)))"

definition entry_for :: "logical_server list \<Rightarrow> jobject option \<Rightarrow> bool" where
  "entry_for xs e \<longleftrightarrow> (case e of None \<Rightarrow> xs = [] | Some m \<Rightarrow> xs \<noteq> [] \<and> counted xs m)"

lemma get_u64_increment:
  "get_u64 (increment key m) k = (if k = key then Some (unwrap_or 0 (get_u64 m key) + 1) else get_u64 m k)"
  by (simp add: increment_def get_u64_def jnum_def)

lemma get_str_increment: "k \<noteq> key \<Longrightarrow> get_str (increment key m) k = get_str m k"
  by (simp add: increment_def)

lemma get_u64_mark_features [simp]: "k \<notin> {''streaming'', ''tor'', ''p2p'', ''secure_core'', ''standard''} \<Longrightarrow>
    get_u64 (mark_features s m) k = get_u64 m k \<and> get_str (mark_features s m) k = get_str m k"
  by (simp add: mark_features_def set_feature_def)

lemma counted_count_server:
  assumes "counted xs m"
  shows "counted (xs @ [s]) (count_server s m)"
  using assms by (simp add: counted_def count_server_def Let_def get_u64_increment unwrap_or_def)

lemma counted_mark_features [simp]: "counted xs (mark_features s m) = counted xs m"
  by (simp add: counted_def)

lemma counted_new: "counted [] (new_country names code s)" "counted [] (new_gateway g)"
  by (simp_all add: counted_def new_country_def new_gateway_def get_u64_def obj_get_of jnum_def)

lemma entry_for_grow:
  assumes "entry_for xs e" "counted [] d" "\<And>m. counted xs m \<Longrightarrow> counted (xs @ [s]) (g m)"
  shows "entry_for (xs @ [s]) (Some (g (unwrap_or d e)))"
  using assms by (auto simp: entry_for_def unwrap_or_def split: option.splits)

lemma index_countries:
  "entry_for (filter (in_country c) xs) (obj_get (li_countries (fold (index_server names ss) xs empty_index)) c)"
proof (induction xs rule: rev_induct)
  case Nil
  then show ?case by (simp add: empty_index_def entry_for_def)
next
  case (snoc s xs)
  let ?ix = "fold (index_server names ss) xs empty_index"
  show ?case
  proof (cases "in_country c s")
    case True
    then have "obj_get (li_countries (index_server names ss s ?ix)) c
        = Some ((mark_features s \<circ> count_server s) (unwrap_or (new_country names c s) (obj_get (li_countries ?ix) c)))"
      by (auto simp: index_server_def in_country_def Let_def)
    then show ?thesis
      using entry_for_grow [OF snoc counted_new(1), where g = "mark_features s \<circ> count_server s"] True
      by (simp add: counted_count_server)
  next
    case False
    then have "obj_get (li_countries (index_server names ss s ?ix)) c = obj_get (li_countries ?ix) c"
      by (auto simp: index_server_def in_country_def Let_def)
    then show ?thesis using snoc False by simp
  qed
qed

lemma index_gateways:
  assumes "g \<noteq> []"
  shows "entry_for (filter (\<lambda>s. gateway_name s = g) xs) (obj_get (li_gateways (fold (index_server names ss) xs empty_index)) g)"
proof (induction xs rule: rev_induct)
  case Nil
  then show ?case by (simp add: empty_index_def entry_for_def)
next
  case (snoc s xs)
  let ?ix = "fold (index_server names ss) xs empty_index"
  show ?case
  proof (cases "gateway_name s = g")
    case True
    then have "obj_get (li_gateways (index_server names ss s ?ix)) g
        = Some (count_server s (unwrap_or (new_gateway g) (obj_get (li_gateways ?ix) g)))"
      using assms by (simp add: index_server_def)
    then show ?thesis
      using entry_for_grow [OF snoc counted_new(2), where g = "count_server s"] True
      by (simp add: counted_count_server)
  next
    case False
    then have "obj_get (li_gateways (index_server names ss s ?ix)) g = obj_get (li_gateways ?ix) g"
      by (auto simp: index_server_def Let_def)
    then show ?thesis using snoc False by simp
  qed
qed


lemma finish_country_gets:
  assumes "k \<in> {''code'', ''server_count'', ''available_server_count''}"
  shows "obj_get (finish_country names ix code m) k = obj_get m k"
  using assms by (auto simp: finish_country_def split: prod.splits)

lemma obj_wf_upsert: "obj_wf m \<Longrightarrow> obj_wf (btree_upsert k d f m)"
  by (simp add: btree_upsert_def obj_wf_insert)

lemma index_wf: "obj_wf (li_countries (fold (index_server names ss) xs empty_index))
    \<and> obj_wf (li_gateways (fold (index_server names ss) xs empty_index))"
  by (induction xs rule: rev_induct) (auto simp: empty_index_def index_server_def Let_def obj_wf_upsert)

lemma obj_wf_get: "obj_wf m \<Longrightarrow> (k, v) \<in> set m \<longleftrightarrow> obj_get m k = Some v"
  unfolding obj_wf_def obj_get_def by (simp add: strict_sorted_iff)

lemma index_codes:
  "obj_get (li_countries (fold (index_server names ss) xs empty_index)) c = Some m \<Longrightarrow> get_str m ''code'' = Some c"
proof (induction xs arbitrary: m rule: rev_induct)
  case (snoc s xs)
  have new: "get_str (new_country names code s) ''code'' = Some code" for code
    by (simp add: new_country_def get_str_def obj_get_of)
  have "get_str (count_server s m) ''code'' = get_str m ''code''" for m
    by (simp add: count_server_def Let_def get_str_increment)
  then show ?case
    using snoc by (auto simp: index_server_def Let_def unwrap_or_def new split: if_splits option.splits)
qed (simp add: empty_index_def)

lemma location_index_entry:
  assumes "(c, m) \<in> set (li_countries (location_index_of names tier ss))"
  shows "get_str m ''code'' = Some c" "counted (filter (in_country c) (filter (\<lambda>s. lg_tier s \<le> tier) ss)) m"
proof -
  have "obj_get (li_countries (location_index_of names tier ss)) c = Some m"
    using assms index_wf by (simp add: obj_wf_get location_index_of_def)
  then show "get_str m ''code'' = Some c" "counted (filter (in_country c) (filter (\<lambda>s. lg_tier s \<le> tier) ss)) m"
    using index_codes index_countries [of c "filter (\<lambda>s. lg_tier s \<le> tier) ss" names ss]
    by (auto simp: location_index_of_def entry_for_def split: option.splits)
qed

lemma location_index_keys:
  "c \<in> fst ` set (li_countries (location_index_of names tier ss))
     \<longleftrightarrow> (\<exists>s \<in> set ss. lg_tier s \<le> tier \<and> in_country c s)"
proof -
  let ?countries = "li_countries (location_index_of names tier ss)"
  have "c \<in> fst ` set ?countries \<longleftrightarrow> obj_get ?countries c \<noteq> None"
    by (simp add: obj_get_def map_of_eq_None_iff)
  also have "\<dots> \<longleftrightarrow> filter (in_country c) (filter (\<lambda>s. lg_tier s \<le> tier) ss) \<noteq> []"
    using index_countries [of c "filter (\<lambda>s. lg_tier s \<le> tier) ss" names ss]
    by (auto simp: location_index_of_def entry_for_def split: option.splits)
  finally show ?thesis by (auto simp: filter_empty_conv)
qed

lemma distinct_map_sort_key: "distinct (map g (sort_key f xs)) \<longleftrightarrow> distinct (map g xs)"
  by (simp add: distinct_map)

text \<open>The list of locations counts every server once: it has one entry for each country with a server the user's tier
  offers, gateways and partner servers left out, and its counts are the numbers of those servers and of the ones
  switched on; a gateway is listed exactly when a server belongs to it, with its own counts.\<close>

theorem locations_count_every_server:
  "\<exists>countries gateways. catalog_locations names cat tier =
        jobj [(''countries'', JArr (map JObj countries)), (''gateways'', JArr (map (JObj \<circ> snd) gateways))]
      \<and> (let offered = filter (\<lambda>s. lg_tier s \<le> tier) (sv_logical_servers cat) in
         distinct (map (\<lambda>m. get_str m ''code'') countries)
         \<and> (\<forall>c. Some c \<in> set (map (\<lambda>m. get_str m ''code'') countries) \<longleftrightarrow> (\<exists>s \<in> set offered. in_country c s))
         \<and> (\<forall>m \<in> set countries. \<exists>c. get_str m ''code'' = Some c \<and> counted (filter (in_country c) offered) m)
         \<and> (\<forall>g. g \<noteq> [] \<longrightarrow> entry_for (filter (\<lambda>s. gateway_name s = g) offered) (obj_get gateways g)))"
proof -
  let ?offered = "filter (\<lambda>s. lg_tier s \<le> tier) (sv_logical_servers cat)"
  let ?ix = "location_index_of names tier (sv_logical_servers cat)"
  let ?finish = "\<lambda>(code, m). finish_country names ?ix code m"
  let ?code = "\<lambda>m. get_str m ''code''"
  define countries where "countries = sort_key (\<lambda>m. get_str m ''name'') (map ?finish (li_countries ?ix))"
  have finished: "get_str (finish_country names ?ix c m) ''code'' = get_str m ''code''"
      "counted xs (finish_country names ?ix c m) = counted xs m" for c m xs
    by (simp_all add: get_str_def get_u64_def counted_def finish_country_gets)
  have "map (?code \<circ> ?finish) (li_countries ?ix) = map Some (map fst (li_countries ?ix))"
    using location_index_entry(1) by (auto simp: finished)
  then have codes: "map ?code (map ?finish (li_countries ?ix)) = map Some (map fst (li_countries ?ix))"
    by simp
  have "obj_wf (li_countries ?ix)" using index_wf by (simp add: location_index_of_def)
  then have "distinct (map ?code countries)"
    unfolding countries_def distinct_map_sort_key codes by (simp add: distinct_map obj_wf_def strict_sorted_iff inj_on_def)
  moreover have "Some c \<in> set (map ?code countries) \<longleftrightarrow> (\<exists>s \<in> set ?offered. in_country c s)" for c
  proof -
    have "set (map ?code countries) = set (map ?code (map ?finish (li_countries ?ix)))"
      by (simp add: countries_def image_image)
    then show ?thesis
      unfolding codes using location_index_keys [of c names tier "sv_logical_servers cat"]
      by (simp add: image_iff) blast
  qed
  moreover have "\<exists>c. ?code m = Some c \<and> counted (filter (in_country c) ?offered) m" if "m \<in> set countries" for m
    using that location_index_entry by (fastforce simp: countries_def finished)
  moreover have "entry_for (filter (\<lambda>s. gateway_name s = g) ?offered) (obj_get (li_gateways ?ix) g)" if "g \<noteq> []" for g
    unfolding location_index_of_def by (rule index_gateways [OF that])
  ultimately show ?thesis
    by (intro exI [of _ countries] exI [of _ "li_gateways ?ix"])
       (simp add: catalog_locations_def locations_of_def countries_def)
qed

theorem locations_count_every_server_witness:
  "\<exists>countries (gateways :: jobject btree). catalog_locations (\<lambda>_. None) demo_catalog 2 =
      jobj [(''countries'', JArr (map JObj countries)), (''gateways'', JArr (map (JObj \<circ> snd) gateways))]
    \<and> Some ''CH'' \<in> set (map (\<lambda>m. get_str m ''code'') countries)
    \<and> distinct (map (\<lambda>m. get_str m ''code'') countries)"
proof -
  have "in_country ''CH'' (demo_logical ''CH#2'' ''CH'' 3 [demo_endpoint ''10.1.0.2''])" by code_simp
  moreover have "demo_logical ''CH#2'' ''CH'' 3 [demo_endpoint ''10.1.0.2'']
      \<in> set (filter (\<lambda>s. lg_tier s \<le> 2) (sv_logical_servers demo_catalog))"
    by (simp add: demo_catalog_def demo_logical_def)
  ultimately have ch: "\<exists>s \<in> set (filter (\<lambda>s. lg_tier s \<le> 2) (sv_logical_servers demo_catalog)). in_country ''CH'' s"
    by (rule bexI)
  from locations_count_every_server [of "\<lambda>_. None" demo_catalog 2, unfolded Let_def] show ?thesis
  proof (elim exE conjE, goal_cases)
    case (1 countries gateways)
    have "Some ''CH'' \<in> set (map (\<lambda>m. get_str m ''code'') countries)"
      using ch by (subst 1(3) [THEN spec])
    with 1(1,2) show ?case by (intro exI [of _ countries] exI [of _ gateways]) simp
  qed
qed

text \<open>C36. The pages of a search show every matching server once, in the order of the search: the rows of the pages at
  offsets 0, l, 2l, ... are the rows of one list, which holds exactly the servers that pass the filters, sorted by the
  rank of the match, the country and the name.\<close>

theorem pages_cover_all_results:
  assumes "read_page_query f (JObj m) = Inr q"
    and "length (page_servers f names q tier (sv_logical_servers cat)) \<le> n * unat (pq_limit q)"
    and "n * unat (pq_limit q) \<le> 1000000"
  shows "\<exists>servers. mset servers = filter_mset (on_page f q tier) (mset (sv_logical_servers cat))
      \<and> sorted (map (page_key f names q) servers)
      \<and> concat (map (\<lambda>k. page_rows (projr (servers_page f names cat
            (JObj (obj_insert ''offset'' (jnum (of_nat (k * unat (pq_limit q)))) m)) tier))) [0..<n])
        = map (page_row names (sv_logical_servers cat)) servers"
  using concat_pages [OF assms(1,3), of names cat tier] assms(2)
  by (intro exI [of _ "page_servers f names q tier (sv_logical_servers cat)"])
     (simp add: page_servers_def del: of_nat_mult)

definition demo_page_request :: jobject where
  "demo_page_request = obj_of [(''limit'', jnum 2)]"

lemma demo_page_query:
  "read_page_query to_ascii_lowercase (JObj demo_page_request) =
     Inr \<lparr>pq_offset = 0, pq_limit = 2, pq_query = [], pq_country_code = [], pq_gateway_name = [], pq_feature = [], pq_scope = []\<rparr>"
  by code_simp

theorem pages_cover_all_results_witness:
  "\<exists>servers. mset servers = mset (sv_logical_servers demo_catalog)
     \<and> page_rows (projr (servers_page to_ascii_lowercase (\<lambda>_. None) demo_catalog
           (JObj (obj_insert ''offset'' (jnum 0) demo_page_request)) 2))
       @ page_rows (projr (servers_page to_ascii_lowercase (\<lambda>_. None) demo_catalog
           (JObj (obj_insert ''offset'' (jnum 2) demo_page_request)) 2))
       = map (page_row (\<lambda>_. None) (sv_logical_servers demo_catalog)) servers"
proof -
  let ?q = "\<lparr>pq_offset = 0, pq_limit = 2, pq_query = [], pq_country_code = [], pq_gateway_name = [], pq_feature = [], pq_scope = []\<rparr>"
  have "on_page to_ascii_lowercase ?q 2 s" if "s \<in> set (sv_logical_servers demo_catalog)" for s
    using that by (auto simp: on_page_def demo_catalog_def demo_logical_def)
  then have "filter_mset (on_page to_ascii_lowercase ?q 2) (mset (sv_logical_servers demo_catalog)) = mset (sv_logical_servers demo_catalog)"
    by (auto intro!: multiset_eqI)
  moreover have "length (page_servers to_ascii_lowercase (\<lambda>_. None) ?q 2 (sv_logical_servers demo_catalog)) \<le> 2 * unat (pq_limit ?q)"
    by (simp add: page_servers_def demo_catalog_def)
  moreover have "[0..<2] = [0, 1 :: nat]" by code_simp
  ultimately show ?thesis
    using pages_cover_all_results [OF demo_page_query, of "\<lambda>_. None" 2 demo_catalog 2] by auto
qed

end
