(* ===== verification/Backend_Settings.thy ===== *)
theory Backend_Settings
  imports Catalog Split_Model
begin

text \<open>
  The settings of the agent's backend (\<^verbatim>\<open>native_backend/models.rs\<close>) and the functions of
  \<^verbatim>\<open>native_backend/mod.rs\<close> that read, check and combine them: protocol names, the kill switch modes, the settings of a
  profile on top of the global ones, custom DNS, split-tunneling requests and the ranges that bypass the tunnel. Which
  descriptor files are installed and the \<open>ipnet\<close> crate are arguments.
\<close>

section \<open>Settings\<close>

record custom_dns =
  cu_enabled :: bool
  cu_ip_list :: "json list"
  cu_extra :: jobject

record split_tunneling_config =
  sc_mode :: string
  sc_app_paths :: "string list"
  sc_ip_ranges :: "string list"
  sc_extra :: jobject

record split_tunneling_settings =
  ss_enabled :: bool
  ss_mode :: string
  ss_config_by_mode :: "(string \<times> split_tunneling_config) list"
  ss_extra :: jobject

record settings_features =
  sf_netshield :: u8
  sf_moderate_nat :: bool
  sf_vpn_accelerator :: bool
  sf_port_forwarding :: bool
  sf_split_tunneling :: split_tunneling_settings
  sf_extra :: jobject

record native_settings =
  ns_protocol :: string
  ns_killswitch :: u8
  ns_custom_dns :: custom_dns
  ns_ipv6 :: bool
  ns_ipv6_leak_protection :: bool
  ns_alternative_routing :: bool
  ns_allow_lan_connections :: bool
  ns_allow_local_dns :: bool
  ns_anonymous_crash_reports :: bool
  ns_share_statistics :: bool
  ns_privacy_consent_version :: u8
  ns_features :: settings_features
  ns_extra :: jobject

definition default_protocol :: string where "default_protocol = ''wireguard''"

definition current_privacy_consent_version :: u8 where "current_privacy_consent_version = 1"

definition custom_dns_default :: custom_dns where
  "custom_dns_default = \<lparr>cu_enabled = False, cu_ip_list = [], cu_extra = []\<rparr>"

definition split_config_new :: "string \<Rightarrow> split_tunneling_config" where
  "split_config_new mode = \<lparr>sc_mode = mode, sc_app_paths = [], sc_ip_ranges = [], sc_extra = []\<rparr>"

definition default_split_mode :: string where "default_split_mode = ''exclude''"

definition default_split_configs :: "(string \<times> split_tunneling_config) list" where
  "default_split_configs = obj_of [(''exclude'', split_config_new ''exclude''), (''include'', split_config_new ''include'')]"

definition split_tunneling_default :: split_tunneling_settings where
  "split_tunneling_default =
     \<lparr>ss_enabled = False, ss_mode = default_split_mode, ss_config_by_mode = default_split_configs, ss_extra = []\<rparr>"

definition settings_features_default :: settings_features where
  "settings_features_default =
     \<lparr>sf_netshield = 0, sf_moderate_nat = False, sf_vpn_accelerator = True, sf_port_forwarding = False,
      sf_split_tunneling = split_tunneling_default, sf_extra = []\<rparr>"

definition native_settings_default :: native_settings where
  "native_settings_default =
     \<lparr>ns_protocol = default_protocol, ns_killswitch = 0, ns_custom_dns = custom_dns_default, ns_ipv6 = True,
      ns_ipv6_leak_protection = True, ns_alternative_routing = True, ns_allow_lan_connections = False,
      ns_allow_local_dns = False, ns_anonymous_crash_reports = False, ns_share_statistics = False,
      ns_privacy_consent_version = current_privacy_consent_version, ns_features = settings_features_default,
      ns_extra = []\<rparr>"

definition split_settings_config :: "split_tunneling_settings \<Rightarrow> string \<Rightarrow> split_tunneling_config" where
  "split_settings_config s mode = unwrap_or (split_config_new mode) (obj_get (ss_config_by_mode s) mode)"

text \<open>The switch of an older release cannot be told from consent and is reset once.\<close>

definition migrate_legacy_privacy_defaults :: "native_settings \<Rightarrow> bool \<times> native_settings" where
  "migrate_legacy_privacy_defaults s =
     (if 1 \<le> ns_privacy_consent_version s then (False, s)
      else (True, s\<lparr>ns_anonymous_crash_reports := False, ns_share_statistics := False, ns_privacy_consent_version := 1\<rparr>))"

section \<open>Protocols and names\<close>

definition PROTUN_DESCRIPTOR :: string where
  "PROTUN_DESCRIPTOR = ''/usr/lib/NetworkManager/VPN/nm-protun.name''"

definition OPENVPN_DESCRIPTOR :: string where
  "OPENVPN_DESCRIPTOR = ''/usr/lib/NetworkManager/VPN/nm-openvpn-service.name''"

definition normalized_protocol :: "string \<Rightarrow> string" where
  "normalized_protocol v0 =
     (let v = to_ascii_lowercase (trim v0) in
      if v \<in> set [''smart'', ''protun-smart''] then ''protun-smart''
      else if v \<in> set [''wireguard'', ''wireguard-udp'', ''protun-udp''] then ''protun-udp''
      else if v \<in> set [''wireguard-tcp'', ''protun-tcp''] then ''protun-tcp''
      else if v \<in> set [''wireguard-tls'', ''stealth'', ''protun-tls''] then ''protun-tls''
      else v)"

definition available_protocol :: "(string \<Rightarrow> bool) \<Rightarrow> string \<Rightarrow> bool" where
  "available_protocol installed protocol =
     (if protocol \<in> set [''protun-smart'', ''protun-udp'', ''protun-tcp'', ''protun-tls''] then installed PROTUN_DESCRIPTOR
      else if protocol \<in> set [''openvpn-udp'', ''openvpn-tcp''] then installed OPENVPN_DESCRIPTOR
      else False)"

definition available_protocols :: "(string \<Rightarrow> bool) \<Rightarrow> string list" where
  "available_protocols installed =
     (if installed PROTUN_DESCRIPTOR then [''protun-smart'', ''protun-udp'', ''protun-tcp'', ''protun-tls''] else [])
     @ (if installed OPENVPN_DESCRIPTOR then [''openvpn-udp'', ''openvpn-tcp''] else [])"

definition kill_switch_name :: "u8 \<Rightarrow> string" where
  "kill_switch_name v = (if v = 2 then ''advanced'' else if v = 1 then ''standard'' else ''off'')"

definition kill_switch_value :: "string \<Rightarrow> u8 option" where
  "kill_switch_value v0 =
     (let v = to_ascii_lowercase (trim v0) in
      if v = ''off'' then Some 0
      else if v = ''standard'' \<or> v = ''on'' then Some 1
      else if v = ''advanced'' \<or> v = ''permanent'' then Some 2
      else None)"

definition dns_value :: "json \<Rightarrow> string option" where
  "dns_value v =
     (case v of
        JStr s \<Rightarrow> Some s
      | JObj m \<Rightarrow>
          if unwrap_or True (get_bool m ''enabled'')
          then Option.bind (case obj_get m ''ip'' of None \<Rightarrow> obj_get m ''address'' | Some x \<Rightarrow> Some x) as_str
          else None
      | _ \<Rightarrow> None)"

definition split_state :: "split_tunneling_settings \<Rightarrow> bool \<Rightarrow> bool \<Rightarrow> json" where
  "split_state s is_available ip_ranges_supported =
     (let lists = (\<lambda>mode. let c = split_settings_config s mode in
            jobj [(''app_paths'', JArr (map JStr (sc_app_paths c))), (''ip_ranges'', JArr (map JStr (sc_ip_ranges c)))]) in
      jobj [(''mode'', JStr (if \<not> ss_enabled s then ''off'' else if ss_mode s = ''include'' then ''inverse'' else ''standard'')),
        (''availability_known'', JBool True), (''available'', JBool is_available),
        (''app_paths_supported'', JBool is_available), (''ip_ranges_supported'', JBool ip_ranges_supported),
        (''standard'', lists ''exclude''), (''inverse'', lists ''include'')])"

section \<open>Parameters of a request\<close>

abbreviation invalid_params :: "string \<Rightarrow> native_error" where
  "invalid_params \<equiv> native_error_new ''invalid_params''"

abbreviation with_source :: "string \<Rightarrow> native_error \<Rightarrow> native_error" where
  "with_source s e \<equiv> e\<lparr>ne_source := Some s\<rparr>"

text \<open>The text of \<open>AddrParseError\<close>.\<close>

abbreviation "addr_parse_error \<equiv> ''invalid IP address syntax''"

definition bool_feature_value :: "json \<Rightarrow> string \<Rightarrow> bool native_res" where
  "bool_feature_value params feature =
     ok_or (invalid_params (feature @ '' value must be boolean'')) (vbool params ''value'')"

definition require_paid_feature :: "u8 \<Rightarrow> string \<Rightarrow> unit native_res" where
  "require_paid_feature tier feature =
     (if tier = 0 then Inl (native_error_new ''feature_restricted'' (feature @ '' requires a paid Proton VPN plan''))
      else Inr ())"

definition optional_profile_policy :: "jobject \<Rightarrow> string \<Rightarrow> bool option native_res" where
  "optional_profile_policy m key =
     (case obj_get m key of
        None \<Rightarrow> Inr None
      | Some JNull \<Rightarrow> Inr None
      | Some v \<Rightarrow> rbind (ok_or (invalid_params (''profile '' @ key @ '' must be boolean or null'')) (as_bool v))
                   (\<lambda>b. Inr (Some b)))"

definition optional_profile_bool :: "jobject \<Rightarrow> string \<Rightarrow> bool \<Rightarrow> bool native_res" where
  "optional_profile_bool m key fallback =
     (case obj_get m key of
        None \<Rightarrow> Inr fallback
      | Some v \<Rightarrow> ok_or (invalid_params (''profile '' @ key @ '' must be boolean'')) (as_bool v))"

definition connection_trigger :: "json \<Rightarrow> string" where
  "connection_trigger params =
     (if vget params ''profile_settings'' \<noteq> None then ''profile''
      else case vobj params ''target'' of
        None \<Rightarrow> ''connection_card''
      | Some t \<Rightarrow>
          let given = (\<lambda>k. case get_str t k of None \<Rightarrow> False | Some v \<Rightarrow> v \<noteq> []) in
          if given ''gateway_name'' \<and> given ''server_name'' then ''gateways_server''
          else if given ''gateway_name'' then ''gateways_gateway''
          else if given ''server_name'' then ''countries_server''
          else if given ''country_code'' then ''countries_country''
          else ''connection_card'')"

definition connection_profile_id :: "json \<Rightarrow> string option native_res" where
  "connection_profile_id params =
     (case vget params ''profile_id'' of
        None \<Rightarrow> Inr None
      | Some JNull \<Rightarrow> Inr None
      | Some v \<Rightarrow>
          rbind (ok_or (invalid_params ''profile_id must be a string'') (as_str v)) (\<lambda>i.
          if i = [] \<or> 128 < length i \<or> has_control i
          then Inl (invalid_params ''profile_id must contain 1 to 128 non-control bytes'')
          else Inr (Some i)))"

section \<open>Custom DNS\<close>

text \<open>The loop over the servers of a request: blanks are skipped, the first error is returned, an address is kept
  once.\<close>

fun dns_addresses :: "native_error \<Rightarrow> native_error \<Rightarrow> string list \<Rightarrow> json list \<Rightarrow> string list native_res" where
  "dns_addresses not_string not_ip seen [] = Inr []"
| "dns_addresses not_string not_ip seen (v # vs) =
     rbind (ok_or not_string (as_str v)) (\<lambda>s.
     if trim s = [] then dns_addresses not_string not_ip seen vs
     else rbind (ok_or (with_source addr_parse_error not_ip) (parse_ip (trim s))) (\<lambda>a.
       let t = show_ip a in
       if t \<in> set seen then dns_addresses not_string not_ip seen vs
       else rbind (dns_addresses not_string not_ip (t # seen) vs) (\<lambda>ts. Inr (t # ts))))"

definition dns_entry :: "string \<Rightarrow> json" where
  "dns_entry t = jobj [(''ip'', JStr t), (''enabled'', JBool True)]"

abbreviation invalid_dns :: "string \<Rightarrow> native_error" where
  "invalid_dns \<equiv> native_error_new ''invalid_dns''"

definition profile_custom_dns :: "json option \<Rightarrow> custom_dns option native_res" where
  "profile_custom_dns v0 =
     (case v0 of None \<Rightarrow> Inr None
      | Some v \<Rightarrow>
          rbind (ok_or (invalid_params ''profile custom_dns must be an object'') (as_object v)) (\<lambda>m.
          let mode = to_ascii_lowercase (trim (unwrap_or ''inherit'' (get_str m ''mode''))) in
          if mode = ''inherit'' then Inr None
          else if mode = ''off'' then Inr (Some custom_dns_default)
          else if mode \<noteq> ''custom''
          then Inl (invalid_params ''profile custom DNS mode must be inherit, off or custom'')
          else
          rbind (ok_or (invalid_dns ''A custom DNS profile requires an array of DNS server IPs'')
                   (Option.bind (obj_get m ''servers'') as_array)) (\<lambda>servers.
          if 16 < length servers
          then Inl (invalid_dns ''A profile can contain at most 16 custom DNS servers'')
          else
          rbind (dns_addresses (invalid_dns ''Profile DNS servers must be strings'')
                   (invalid_dns ''Invalid profile DNS IP'') [] servers) (\<lambda>ips.
          if ips = [] then Inl (invalid_dns ''A custom DNS profile requires at least one DNS server'')
          else Inr (Some \<lparr>cu_enabled = True, cu_ip_list = map dns_entry ips, cu_extra = []\<rparr>)))))"

section \<open>Settings of a profile\<close>

definition profile_netshield_level :: "jobject \<Rightarrow> u8 native_res" where
  "profile_netshield_level m =
     (case obj_get m ''netshield_level'' of
        None \<Rightarrow> Inr 2
      | Some v \<Rightarrow>
          rbind (ok_or (invalid_params ''profile netshield_level must be an integer from 0 through 2'')
                   (opt_filter (\<lambda>n. n \<le> 2) (as_u64 v))) (\<lambda>n. Inr (ucast n)))"

definition protocol_unavailable :: "string \<Rightarrow> native_error" where
  "protocol_unavailable protocol = native_error_new ''protocol_unavailable'' (''VPN protocol is unavailable: '' @ protocol)"

text \<open>The conflicts a profile is refused for, and the settings it gives.\<close>

definition check_profile :: "u8 \<Rightarrow> bool \<Rightarrow> bool \<Rightarrow> bool \<Rightarrow> custom_dns option \<Rightarrow> unit native_res" where
  "check_profile tier netshield_enabled moderate_nat port_forwarding dns =
     (if tier = 0 \<and> (netshield_enabled \<or> moderate_nat \<or> port_forwarding)
      then Inl (native_error_new ''feature_unavailable''
             ''Profile NetShield, Moderate NAT and port forwarding require a paid plan'')
      else if moderate_nat \<and> port_forwarding
      then Inl (native_error_new ''profile_settings_conflict''
             ''Moderate NAT and port forwarding cannot be enabled together'')
      else if netshield_enabled \<and> (case dns of None \<Rightarrow> False | Some d \<Rightarrow> cu_enabled d)
      then Inl (native_error_new ''profile_settings_conflict''
             ''Custom DNS and NetShield cannot be enabled in the same profile'')
      else Inr ())"

definition merge_profile ::
  "native_settings \<Rightarrow> string \<Rightarrow> bool \<Rightarrow> u8 \<Rightarrow> bool \<Rightarrow> bool \<Rightarrow> custom_dns option \<Rightarrow> bool option \<Rightarrow> bool option
    \<Rightarrow> native_settings" where
  "merge_profile global protocol netshield_enabled netshield_level moderate_nat port_forwarding dns lan local_dns =
     global\<lparr>ns_protocol := protocol,
       ns_features := (ns_features global)\<lparr>sf_netshield := (if netshield_enabled then netshield_level else 0),
         sf_moderate_nat := moderate_nat, sf_port_forwarding := port_forwarding\<rparr>,
       ns_custom_dns :=
         (case dns of Some d \<Rightarrow> d
          | None \<Rightarrow> if netshield_enabled then (ns_custom_dns global)\<lparr>cu_enabled := False\<rparr> else ns_custom_dns global),
       ns_allow_lan_connections := unwrap_or (ns_allow_lan_connections global) lan,
       ns_allow_local_dns := unwrap_or (ns_allow_local_dns global) local_dns\<rparr>"

definition effective_connection_settings ::
  "(string \<Rightarrow> bool) \<Rightarrow> json \<Rightarrow> native_settings \<Rightarrow> u8 \<Rightarrow> (native_settings \<times> string \<times> bool) native_res" where
  "effective_connection_settings installed params global tier =
     (case vget params ''profile_settings'' of
        None \<Rightarrow>
          (let protocol = normalized_protocol (ns_protocol global) in
           if \<not> available_protocol installed protocol then Inl (protocol_unavailable protocol)
           else Inr (global, protocol, False))
      | Some raw0 \<Rightarrow>
          rbind (ok_or (invalid_params ''profile_settings must be a JSON object'') (as_object raw0)) (\<lambda>raw.
          let protocol = (case get_str raw ''protocol'' of None \<Rightarrow> ''protun-smart'' | Some p \<Rightarrow> normalized_protocol p) in
          if \<not> available_protocol installed protocol then Inl (protocol_unavailable protocol)
          else
          rbind (optional_profile_bool raw ''netshield_enabled'' True) (\<lambda>netshield_enabled.
          rbind (profile_netshield_level raw) (\<lambda>netshield_level.
          rbind (optional_profile_bool raw ''moderate_nat'' False) (\<lambda>moderate_nat.
          rbind (optional_profile_bool raw ''port_forwarding'' False) (\<lambda>port_forwarding.
          rbind (profile_custom_dns (obj_get raw ''custom_dns'')) (\<lambda>dns.
          rbind (optional_profile_policy raw ''allow_lan_connections'') (\<lambda>lan.
          rbind (optional_profile_policy raw ''allow_local_dns'') (\<lambda>local_dns.
          rbind (check_profile tier netshield_enabled moderate_nat port_forwarding dns) (\<lambda>_.
          Inr (merge_profile global protocol netshield_enabled netshield_level moderate_nat port_forwarding dns lan local_dns,
               protocol, True)))))))))))"

section \<open>Split-tunneling requests\<close>

definition MAX_SPLIT_APPS :: nat where "MAX_SPLIT_APPS = 128"
definition MAX_SPLIT_APP_PATH_BYTES :: nat where "MAX_SPLIT_APP_PATH_BYTES = 4096"
definition MAX_SPLIT_IP_RANGES :: nat where "MAX_SPLIT_IP_RANGES = 256"

abbreviation invalid_split_apps :: "string \<Rightarrow> native_error" where
  "invalid_split_apps \<equiv> native_error_new ''invalid_split_apps''"

abbreviation invalid_split_ip_ranges :: "string \<Rightarrow> native_error" where
  "invalid_split_ip_ranges \<equiv> native_error_new ''invalid_split_ip_ranges''"

fun split_app_paths :: "string list \<Rightarrow> json list \<Rightarrow> string list native_res" where
  "split_app_paths seen [] = Inr []"
| "split_app_paths seen (v # vs) =
     rbind (ok_or (invalid_split_apps ''App entries must be strings'') (as_str v)) (\<lambda>s.
     let p = trim s in
     if p = [] then split_app_paths seen vs
     else if (\<exists>c \<in> set p. c = CHR 0x00 \<or> c = CHR 0x0A \<or> c = CHR 0x0D) \<or> MAX_SPLIT_APP_PATH_BYTES < length p
     then Inl (invalid_split_apps ''App entry contains invalid characters or is too long'')
     else if p \<in> set seen then split_app_paths seen vs
     else rbind (split_app_paths (p # seen) vs) (\<lambda>ps. Inr (p # ps)))"

definition split_network :: "ipnet_crate \<Rightarrow> string \<Rightarrow> string native_res" where
  "split_network cr v =
     (case (case ipnet_from_str cr v of Some n \<Rightarrow> Some n | None \<Rightarrow> map_option host_net (parse_ip v)) of
        None \<Rightarrow> Inl (with_source addr_parse_error
               (invalid_split_ip_ranges (''Invalid IP address or CIDR range: '' @ v)))
      | Some n \<Rightarrow> Inr (ipnet_to_string cr (ipnet_trunc cr n)))"

fun split_ip_ranges :: "ipnet_crate \<Rightarrow> string list \<Rightarrow> json list \<Rightarrow> string list native_res" where
  "split_ip_ranges cr seen [] = Inr []"
| "split_ip_ranges cr seen (v # vs) =
     rbind (ok_or (invalid_split_ip_ranges ''IP range entries must be strings'') (as_str v)) (\<lambda>s.
     let r = trim s in
     if r = [] then split_ip_ranges cr seen vs
     else rbind (split_network cr r) (\<lambda>n.
       if n \<in> set seen then split_ip_ranges cr seen vs
       else rbind (split_ip_ranges cr (n # seen) vs) (\<lambda>ns. Inr (n # ns))))"

definition split_request_config ::
  "ipnet_crate \<Rightarrow> json \<Rightarrow> string \<Rightarrow> string \<Rightarrow> split_tunneling_config \<Rightarrow> split_tunneling_config native_res" where
  "split_request_config cr params request_name mode previous =
     rbind (ok_or (invalid_params ''standard/inverse configs must be objects'')
              (as_object (unwrap_or (JObj []) (vget params request_name)))) (\<lambda>m.
     rbind (ok_or (invalid_split_apps ''app_paths must be an array'')
              (as_array (unwrap_or (JArr []) (obj_get m ''app_paths'')))) (\<lambda>apps.
     if MAX_SPLIT_APPS < length apps
     then Inl (invalid_split_apps ''app_paths must contain at most 128 entries'')
     else
     rbind (split_app_paths [] apps) (\<lambda>app_paths.
     rbind (ok_or (invalid_split_ip_ranges ''ip_ranges must be an array'')
              (as_array (unwrap_or (JArr (map JStr (sc_ip_ranges previous))) (obj_get m ''ip_ranges'')))) (\<lambda>ranges.
     if MAX_SPLIT_IP_RANGES < length ranges
     then Inl (invalid_split_ip_ranges ''ip_ranges must contain at most 256 entries'')
     else
     rbind (split_ip_ranges cr [] ranges) (\<lambda>ip_ranges.
     Inr (previous\<lparr>sc_mode := mode, sc_app_paths := app_paths, sc_ip_ranges := ip_ranges\<rparr>))))))"

section \<open>Ranges that bypass the tunnel\<close>

definition LAN_BYPASS_RANGES :: "string list" where
  "LAN_BYPASS_RANGES =
     [''10.128.0.0/9'', ''10.64.0.0/10'', ''10.32.0.0/11'', ''10.16.0.0/12'', ''10.8.0.0/13'', ''10.4.0.0/14'',
      ''10.0.0.0/15'', ''10.3.0.0/16'', ''10.2.128.0/17'', ''10.2.64.0/18'', ''10.2.32.0/19'', ''10.2.16.0/20'',
      ''10.2.8.0/21'', ''10.2.4.0/22'', ''10.2.2.0/23'', ''10.2.1.0/24'', ''10.2.0.128/25'', ''10.2.0.64/26'',
      ''10.2.0.32/27'', ''10.2.0.16/28'', ''10.2.0.8/29'', ''10.2.0.4/30'', ''10.2.0.2/31'', ''10.2.0.0/32'',
      ''172.16.0.0/12'', ''192.168.0.0/16'', ''169.254.0.0/16'', ''fc00::/7'', ''fe80::/10'']"

definition LOCAL_NAME_BYPASS_RANGES :: "string list" where
  "LOCAL_NAME_BYPASS_RANGES = [''224.0.0.251/32'', ''224.0.0.252/32'', ''ff02::fb/128'', ''ff02::1:3/128'']"

text \<open>The ranges of \<open>apply_destination_policy\<close>: a set, sorted. \<open>dns_servers\<close> is what NetworkManager lists.\<close>

definition dns_host_range :: "string \<Rightarrow> string native_res" where
  "dns_host_range server =
     rbind (ok_or (with_source addr_parse_error
              (native_error_new ''local_dns_invalid'' ''NetworkManager returned an invalid physical DNS server''))
            (parse_ip server)) (\<lambda>a.
     Inr (show_ip a @ ''/'' @ dec (if is_v4 a then 32 else 128)))"

definition destination_ranges :: "native_settings \<Rightarrow> string list native_res \<Rightarrow> string list native_res" where
  "destination_ranges s dns_servers =
     (let lan = (if ns_allow_lan_connections s then LAN_BYPASS_RANGES else []) in
      if ns_allow_local_dns s
      then rbind dns_servers (\<lambda>servers.
           rbind (traverse dns_host_range servers) (\<lambda>hosts.
           Inr (sort (remdups (lan @ LOCAL_NAME_BYPASS_RANGES @ hosts)))))
      else Inr (sort (remdups lan)))"

section \<open>Errors\<close>

definition with_network_conflicts :: "native_error \<Rightarrow> string list \<Rightarrow> native_error" where
  "with_network_conflicts e conflicts =
     (if conflicts = [] then e
      else may_retry ((native_error_new ''network_conflict_detected''
             ''Another active VPN or tunnel interface might be preventing Proton VPN from connecting'')
             \<lparr>ne_details := Some (jobj [(''interfaces'', JArr (map JStr conflicts)),
                (''underlying_code'', JStr (ne_code e)), (''underlying_error'', JStr (ne_message e))])\<rparr>))"

definition login_error :: "native_error \<Rightarrow> string \<Rightarrow> native_error" where
  "login_error e stage =
     (let code =
        (if ne_code e \<in> set [''human_verification_required'', ''sso_required''] then ne_code e
         else if stage = ''two_factor'' \<and> ne_code e = ''authentication_expired'' then ''two_factor_session_expired''
         else if stage = ''two_factor'' \<and> ne_code e = ''authentication_failed'' then ''two_factor_failed''
         else if stage = ''credentials'' \<and> ne_code e = ''authentication_failed'' then ''login_failed''
         else ne_code e);
          details = obj_insert ''auth_stage'' (JStr stage) (unwrap_or [] (Option.bind (ne_details e) as_object)) in
      e\<lparr>ne_code := code, ne_details := Some (JObj details),
        ne_retryable := (if code = ''login_failed'' \<or> code = ''two_factor_failed'' then True else ne_retryable e)\<rparr>)"

definition upgrade_url :: "string \<Rightarrow> string \<Rightarrow> string" where
  "upgrade_url selector modal_source =
     (let redirect = ''proton-vpn://refresh-account'' @ (if modal_source = [] then [] else ''?modal-source='' @ modal_source) in
      ''https://account.proton.me/lite?action=subscribe-account&fullscreen=off&redirect='' @ redirect
      @ ''&start=compare&type=upgrade&app=vpn#selector='' @ selector)"

end
