(* ===== verification/Backend_Action.thy ===== *)
theory Backend_Action
  imports Catalog
begin

text \<open>
  Actions: functions that may fail and change a state, the way the handlers of the agent's backend are written, with
  \<open>abind\<close> for the operator \<open>?\<close> and \<open>arescue\<close> for a handled error; and rules for them: \<open>holds\<close> for results and errors,
  \<open>keeps\<close> for what an action leaves alone.
\<close>

section \<open>Actions\<close>

type_synonym ('s, 'a) action = "'s \<Rightarrow> 'a native_res \<times> 's"

definition aret :: "'a \<Rightarrow> ('s, 'a) action" where
  "aret x s = (Inr x, s)"

definition afail :: "native_error \<Rightarrow> ('s, 'a) action" where
  "afail e s = (Inl e, s)"

definition alift :: "'a native_res \<Rightarrow> ('s, 'a) action" where
  "alift r s = (r, s)"

text \<open>The operator \<open>?\<close> on a call, \<open>let _ = call\<close>, and a call whose error is handled.\<close>

definition abind :: "('s, 'a) action \<Rightarrow> ('a \<Rightarrow> ('s, 'b) action) \<Rightarrow> ('s, 'b) action" where
  "abind m f s = (case m s of (Inl e, s') \<Rightarrow> (Inl e, s') | (Inr x, s') \<Rightarrow> f x s')"

definition aignore :: "('s, 'a) action \<Rightarrow> ('s, unit) action" where
  "aignore m s = (Inr (), snd (m s))"

definition arescue :: "('s, 'a) action \<Rightarrow> (native_error \<Rightarrow> ('s, 'a) action) \<Rightarrow> ('s, 'a) action" where
  "arescue m h s = (case m s of (Inl e, s') \<Rightarrow> h e s' | (Inr x, s') \<Rightarrow> (Inr x, s'))"

text \<open>A check that returns early with an error.\<close>

definition aguard :: "bool \<Rightarrow> native_error \<Rightarrow> ('s, unit) action" where
  "aguard b e = (if b then aret () else afail e)"

abbreviation areads :: "('s \<Rightarrow> 'a) \<Rightarrow> ('s, 'a) action" where
  "areads f \<equiv> (\<lambda>s. (Inr (f s), s))"

abbreviation awrites :: "('s \<Rightarrow> 's) \<Rightarrow> ('s, unit) action" where
  "awrites f \<equiv> (\<lambda>s. (Inr (), f s))"

section \<open>Rules for actions\<close>

text \<open>\<open>holds P m Q E\<close>: from a state with \<open>P\<close> a result of \<open>m\<close> satisfies \<open>Q\<close> and an error \<open>E\<close>.\<close>

definition holds ::
  "('s \<Rightarrow> bool) \<Rightarrow> ('s, 'a) action \<Rightarrow> ('a \<Rightarrow> 's \<Rightarrow> bool) \<Rightarrow> (native_error \<Rightarrow> 's \<Rightarrow> bool) \<Rightarrow> bool" where
  "holds P m Q E \<longleftrightarrow> (\<forall>s. P s \<longrightarrow> (case m s of (Inl e, s') \<Rightarrow> E e s' | (Inr x, s') \<Rightarrow> Q x s'))"

definition keeps :: "('s \<Rightarrow> 'b) \<Rightarrow> ('s, 'a) action \<Rightarrow> bool" where
  "keeps f m \<longleftrightarrow> (\<forall>s. f (snd (m s)) = f s)"

named_theorems action_rules

lemma holds_ret [action_rules]: "(\<And>s. P s \<Longrightarrow> Q x s) \<Longrightarrow> holds P (aret x) Q E"
  by (simp add: holds_def aret_def)

lemma holds_fail [action_rules]: "(\<And>s. P s \<Longrightarrow> E e s) \<Longrightarrow> holds P (afail e) Q E"
  by (simp add: holds_def afail_def)

lemma holds_lift [action_rules]:
  "(\<And>x s. r = Inr x \<Longrightarrow> P s \<Longrightarrow> Q x s) \<Longrightarrow> (\<And>e s. r = Inl e \<Longrightarrow> P s \<Longrightarrow> E e s) \<Longrightarrow> holds P (alift r) Q E"
  by (auto simp: holds_def alift_def split: sum.splits)

lemma holds_guard [action_rules]:
  "(\<And>s. b \<Longrightarrow> P s \<Longrightarrow> Q () s) \<Longrightarrow> (\<And>s. \<not> b \<Longrightarrow> P s \<Longrightarrow> E e s) \<Longrightarrow> holds P (aguard b e) Q E"
  by (auto simp: holds_def aguard_def aret_def afail_def)

lemma holds_reads [action_rules]: "(\<And>s. P s \<Longrightarrow> Q (f s) s) \<Longrightarrow> holds P (areads f) Q E"
  by (simp add: holds_def)

lemma holds_writes [action_rules]: "(\<And>s. P s \<Longrightarrow> Q () (g s)) \<Longrightarrow> holds P (awrites g) Q E"
  by (simp add: holds_def)

lemma holds_bind: "holds P m R E \<Longrightarrow> (\<And>x. holds (R x) (f x) Q E) \<Longrightarrow> holds P (abind m f) Q E"
  unfolding holds_def abind_def by (fastforce split: sum.splits prod.splits)

lemma holds_bind_err:
  "holds P m R E' \<Longrightarrow> (\<And>e s. E' e s \<Longrightarrow> E e s) \<Longrightarrow> (\<And>x. holds (R x) (f x) Q E) \<Longrightarrow> holds P (abind m f) Q E"
  unfolding holds_def abind_def by (fastforce split: sum.splits prod.splits)

lemma holds_rescue: "holds P m Q R \<Longrightarrow> (\<And>e. holds (R e) (h e) Q E) \<Longrightarrow> holds P (arescue m h) Q E"
  unfolding holds_def arescue_def by (fastforce split: sum.splits prod.splits)

lemma holds_keeps: "keeps f m \<Longrightarrow> holds (\<lambda>s. P (f s)) m (\<lambda>_ s. P (f s)) (\<lambda>_ s. P (f s))"
  by (auto simp: holds_def keeps_def split: prod.splits sum.splits) (metis snd_conv)+

lemma holds_weaken:
  "holds P m Q E \<Longrightarrow> (\<And>s. P' s \<Longrightarrow> P s) \<Longrightarrow> (\<And>x s. Q x s \<Longrightarrow> Q' x s) \<Longrightarrow> (\<And>e s. E e s \<Longrightarrow> E' e s) \<Longrightarrow> holds P' m Q' E'"
  unfolding holds_def by (fastforce split: sum.splits prod.splits)

lemma holds_if: "(c \<Longrightarrow> holds P a Q E) \<Longrightarrow> (\<not> c \<Longrightarrow> holds P b Q E) \<Longrightarrow> holds P (if c then a else b) Q E"
  by simp

lemma holds_case_option:
  "(z = None \<Longrightarrow> holds P a Q E) \<Longrightarrow> (\<And>x. z = Some x \<Longrightarrow> holds P (b x) Q E)
    \<Longrightarrow> holds P (case z of None \<Rightarrow> a | Some x \<Rightarrow> b x) Q E"
  by (cases z) auto

lemma holds_when: "(A \<Longrightarrow> holds P m Q E) \<Longrightarrow> holds (\<lambda>s. P s \<and> A) m Q E"
  unfolding holds_def by auto

lemma holdsD:
  assumes "holds P m Q E" "P s"
  shows "m s = (Inr x, s') \<Longrightarrow> Q x s'" "m s = (Inl e, s') \<Longrightarrow> E e s'"
  using assms unfolding holds_def by fastforce+

lemma holds_snd: "holds P m (\<lambda>_. Q) (\<lambda>_. R) \<Longrightarrow> P s \<Longrightarrow> Q (snd (m s)) \<or> R (snd (m s))"
  by (cases "m s", cases "fst (m s)") (fastforce simp: holds_def)+

named_theorems keeps_rules

lemma keeps_ret [keeps_rules]: "keeps f (aret x)" "keeps f (afail e)" "keeps f (alift r)" "keeps f (areads g)"
    "keeps f (aguard b e)"
  by (simp_all add: keeps_def aret_def afail_def alift_def aguard_def)

lemma keeps_writes [keeps_rules]: "(\<And>s. f (g s) = f s) \<Longrightarrow> keeps f (awrites g)"
  by (simp add: keeps_def)

lemma keeps_bind [keeps_rules]: "keeps f m \<Longrightarrow> (\<And>x. keeps f (n x)) \<Longrightarrow> keeps f (abind m n)"
  unfolding keeps_def abind_def by (auto split: prod.splits sum.splits) (metis snd_conv)+

lemma keeps_rescue [keeps_rules]: "keeps f m \<Longrightarrow> (\<And>e. keeps f (h e)) \<Longrightarrow> keeps f (arescue m h)"
  unfolding keeps_def arescue_def by (auto split: prod.splits sum.splits) (metis snd_conv)+

lemma keeps_ignore [keeps_rules]: "keeps f m \<Longrightarrow> keeps f (aignore m)"
  by (simp add: keeps_def aignore_def)

lemma keeps_if [keeps_rules]: "keeps f a \<Longrightarrow> keeps f b \<Longrightarrow> keeps f (if c then a else b)"
  by simp


lemma keeps_case_option [keeps_rules]: "keeps f a \<Longrightarrow> (\<And>x. keeps f (b x)) \<Longrightarrow> keeps f (case z of None \<Rightarrow> a | Some x \<Rightarrow> b x)"
  by (cases z) auto

section \<open>Actions that may not end\<close>

text \<open>\<open>None\<close> is an action that has not come back.\<close>

type_synonym ('s, 'a) partial_action = "'s \<Rightarrow> ('a native_res \<times> 's) option"

definition total :: "('s, 'a) action \<Rightarrow> ('s, 'a) partial_action" where
  "total m s = Some (m s)"

definition pbind :: "('s, 'a) partial_action \<Rightarrow> ('a \<Rightarrow> ('s, 'b) partial_action) \<Rightarrow> ('s, 'b) partial_action" where
  "pbind m f s =
     (case m s of None \<Rightarrow> None | Some (Inl e, s') \<Rightarrow> Some (Inl e, s') | Some (Inr x, s') \<Rightarrow> f x s')"

text \<open>\<open>pholds P m Q E\<close>: what holds when \<open>m\<close> comes back; \<open>ends P m\<close>: that it does.\<close>

definition pholds ::
  "('s \<Rightarrow> bool) \<Rightarrow> ('s, 'a) partial_action \<Rightarrow> ('a \<Rightarrow> 's \<Rightarrow> bool) \<Rightarrow> (native_error \<Rightarrow> 's \<Rightarrow> bool) \<Rightarrow> bool" where
  "pholds P m Q E \<longleftrightarrow>
     (\<forall>s. P s \<longrightarrow> (case m s of None \<Rightarrow> True | Some (Inl e, s') \<Rightarrow> E e s' | Some (Inr x, s') \<Rightarrow> Q x s'))"

lemma pholds_total: "holds P m Q E \<Longrightarrow> pholds P (total m) Q E"
  by (auto simp: pholds_def holds_def total_def split: prod.splits sum.splits)

lemma pholds_bind: "pholds P m R E \<Longrightarrow> (\<And>x. pholds (R x) (f x) Q E) \<Longrightarrow> pholds P (pbind m f) Q E"
  unfolding pholds_def pbind_def by (fastforce split: option.splits prod.splits sum.splits)

lemma pholds_weaken:
  "pholds P m Q E \<Longrightarrow> (\<And>s. P' s \<Longrightarrow> P s) \<Longrightarrow> (\<And>x s. Q x s \<Longrightarrow> Q' x s) \<Longrightarrow> (\<And>e s. E e s \<Longrightarrow> E' e s) \<Longrightarrow> pholds P' m Q' E'"
  unfolding pholds_def by (fastforce split: option.splits sum.splits prod.splits)

lemma pholds_when: "(A \<Longrightarrow> pholds P m Q E) \<Longrightarrow> pholds (\<lambda>s. P s \<and> A) m Q E"
  unfolding pholds_def by auto

lemma pholds_if: "(c \<Longrightarrow> pholds P a Q E) \<Longrightarrow> (\<not> c \<Longrightarrow> pholds P b Q E) \<Longrightarrow> pholds P (if c then a else b) Q E"
  by simp

lemma pholds_case_option:
  "(z = None \<Longrightarrow> pholds P a Q E) \<Longrightarrow> (\<And>x. z = Some x \<Longrightarrow> pholds P (b x) Q E)
    \<Longrightarrow> pholds P (case z of None \<Rightarrow> a | Some x \<Rightarrow> b x) Q E"
  by (cases z) auto

lemma pholdsD:
  assumes "pholds P m Q E" "P s"
  shows "m s = Some (Inr x, s') \<Longrightarrow> Q x s'" "m s = Some (Inl e, s') \<Longrightarrow> E e s'"
  using assms unfolding pholds_def by fastforce+

definition ends :: "('s \<Rightarrow> bool) \<Rightarrow> ('s, 'a) partial_action \<Rightarrow> bool" where
  "ends P m \<longleftrightarrow> (\<forall>s. P s \<longrightarrow> m s \<noteq> None)"

lemma ends_total: "ends P (total m)"
  by (simp add: ends_def total_def)

lemma ends_bind: "ends P m \<Longrightarrow> pholds P m R E \<Longrightarrow> (\<And>x. ends (R x) (f x)) \<Longrightarrow> ends P (pbind m f)"
  unfolding ends_def pholds_def pbind_def by (fastforce split: option.splits prod.splits sum.splits)

lemma ends_if: "(c \<Longrightarrow> ends P a) \<Longrightarrow> (\<not> c \<Longrightarrow> ends P b) \<Longrightarrow> ends P (if c then a else b)"
  by simp

lemma ends_case_option:
  "(z = None \<Longrightarrow> ends P a) \<Longrightarrow> (\<And>x. z = Some x \<Longrightarrow> ends P (b x)) \<Longrightarrow> ends P (case z of None \<Rightarrow> a | Some x \<Rightarrow> b x)"
  by (cases z) auto

end
