(* ===== verification/Network_Profile.thy ===== *)
theory Network_Profile
  imports Backend_Settings Backend_Action
begin

text \<open>
  The VPN profiles of \<^verbatim>\<open>native_backend/network.rs\<close>: how a selected server becomes the settings of a NetworkManager
  connection, and what the agent reads back from such settings. A property map is an ordered association list. The crates
  for hashes, base64 and key files, the random generator and \<open>serde_json\<close>'s parser are arguments.
\<close>

unbundle bit_operations_syntax

section \<open>Session and client configuration\<close>

record vpn_certificate =
  vc_certificate :: string
  vc_client_key :: string
  vc_client_key_fingerprint :: string
  vc_expiration_time :: u64
  vc_refresh_time :: u64
  vc_server_public_key :: string
  vc_server_public_key_mode :: string
  vc_extra :: jobject

record vpn_location =
  vl_ip :: string
  vl_country :: string
  vl_isp :: string
  vl_lat :: "u64 option"
  vl_long :: "u64 option"

record vpn_session_data =
  vs_vpninfo :: json
  vs_certificate :: vpn_certificate
  vs_ed25519_privatekey :: string
  vs_location :: vpn_location

record session_data =
  sd_uid :: string
  sd_access_token :: string
  sd_refresh_token :: string
  sd_scopes :: "string list"
  sd_account_name :: string
  sd_credentialless :: bool
  sd_environment :: string
  sd_vpn :: vpn_session_data
  sd_extra :: jobject

definition is_authenticated :: "session_data \<Rightarrow> bool" where
  "is_authenticated s \<longleftrightarrow>
     sd_uid s \<noteq> [] \<and> sd_access_token s \<noteq> [] \<and> sd_refresh_token s \<noteq> [] \<and> sd_account_name s \<noteq> []"

definition session_tier :: "session_data \<Rightarrow> u8" where
  "session_tier s =
     unwrap_or 0
       (Option.bind (vget (vs_vpninfo (sd_vpn s)) ''VPN'') (\<lambda>v.
        Option.bind (as_object v) (\<lambda>vpn.
        Option.bind (obj_get vpn ''MaxTier'') (\<lambda>t.
        Option.bind (as_u64 t) (\<lambda>tier. if tier < 256 then Some (ucast tier) else None)))))"

record protocol_ports =
  po_udp :: "u16 list"
  po_tcp :: "u16 list"
  po_tls :: "u16 list"

record client_config =
  cc_wire_guard :: protocol_ports
  cc_open_vpn :: protocol_ports
  cc_smart_protocol :: json
  cc_extra :: jobject

section \<open>Settings of a connection\<close>

datatype dbus_value =
    DStr string
  | DBool bool
  | DI32 int
  | DI64 int
  | DU32 u32
  | DStrs "string list"
  | DDict "(string \<times> string) list"
  | DMaps "(string \<times> dbus_value) list list"

type_synonym prop_map = "(string \<times> dbus_value) list"
type_synonym connection_settings = "(string \<times> prop_map) list"

fun dbus_str :: "dbus_value \<Rightarrow> string option" where
  "dbus_str (DStr s) = Some s"
| "dbus_str _ = None"

fun dict_string :: "dbus_value \<Rightarrow> string \<Rightarrow> string option" where
  "dict_string (DDict m) key = obj_get m key"
| "dict_string _ key = None"

definition setting :: "connection_settings \<Rightarrow> string \<Rightarrow> string \<Rightarrow> dbus_value option" where
  "setting s part key = Option.bind (obj_get s part) (\<lambda>m. obj_get m key)"

definition address :: "string \<Rightarrow> u32 \<Rightarrow> prop_map" where
  "address ip prefix = obj_of [(''address'', DStr ip), (''prefix'', DU32 prefix)]"

definition PROTUN_SERVICE :: string where "PROTUN_SERVICE = ''org.freedesktop.NetworkManager.protun''"
definition OPENVPN_SERVICE :: string where "OPENVPN_SERVICE = ''org.freedesktop.NetworkManager.openvpn''"
definition PROTUN_INTERFACE :: string where "PROTUN_INTERFACE = ''proton0''"
definition PROTON_OMARCHY_OWNER_KEY :: string where "PROTON_OMARCHY_OWNER_KEY = ''proton-omarchy-owner''"
definition PROTON_OMARCHY_OWNER_VALUE :: string where "PROTON_OMARCHY_OWNER_VALUE = ''rust-v2''"
definition PROTON_OMARCHY_PROFILE_ID_KEY :: string where
  "PROTON_OMARCHY_PROFILE_ID_KEY = ''proton-omarchy-profile-id''"
definition GUEST_HOLE_PURPOSE :: string where "GUEST_HOLE_PURPOSE = ''proton-omarchy-guest-hole''"
definition PROTON_OMARCHY_STABLE_ID :: string where "PROTON_OMARCHY_STABLE_ID = ''proton-omarchy-rust-v2''"

lemmas nm_names = PROTUN_SERVICE_def OPENVPN_SERVICE_def PROTUN_INTERFACE_def PROTON_OMARCHY_OWNER_KEY_def
  PROTON_OMARCHY_OWNER_VALUE_def PROTON_OMARCHY_PROFILE_ID_KEY_def GUEST_HOLE_PURPOSE_def PROTON_OMARCHY_STABLE_ID_def

text \<open>The environment of the process: the user's name and number and the runtime directory.\<close>

record host_env =
  he_user :: "string option"
  he_uid :: u32
  he_runtime_dir :: "string option"

definition user_permission :: "host_env \<Rightarrow> dbus_value" where
  "user_permission env = DStrs [''user:'' @ unwrap_or ''user'' (he_user env) @ '':'']"

section \<open>Text of a JSON value\<close>

text \<open>\<open>Value::to_string\<close>: no blanks, members in the order of the map. \<open>fl\<close> prints a float.\<close>

fun compact :: "(u64 \<Rightarrow> string) \<Rightarrow> json \<Rightarrow> string" where
  "compact fl JNull = ''null''"
| "compact fl (JBool b) = (if b then ''true'' else ''false'')"
| "compact fl (JNum (PosInt n)) = dec (unat n)"
| "compact fl (JNum (NegInt i)) = (if i < 0 then CHR ''-'' # dec (nat (- i)) else dec (nat i))"
| "compact fl (JNum (Float b)) = fl b"
| "compact fl (JStr s) = json_text s"
| "compact fl (JArr vs) = ''['' @ join '','' (map (compact fl) vs) @ '']''"
| "compact fl (JObj m) = ''{'' @ join '','' (map (\<lambda>kv. json_text (fst kv) @ '':'' @ compact fl (snd kv)) m) @ ''}''"

text \<open>\<open>replace(',', r"\,")\<close> and the removal of every backslash.\<close>

definition escape_commas :: "string \<Rightarrow> string" where
  "escape_commas s = concat (map (\<lambda>c. if c = CHR '','' then [CHR 0x5C, CHR '',''] else [c]) s)"

definition strip_backslashes :: "string \<Rightarrow> string" where
  "strip_backslashes s = filter (\<lambda>c. c \<noteq> CHR 0x5C) s"

section \<open>Keys\<close>

record key_crypto =
  kc_base64_decode :: "string \<Rightarrow> string + string"
  kc_base64_encode :: "string \<Rightarrow> string"
  kc_sha512 :: "string \<Rightarrow> string"
  kc_encrypted_pem :: "string \<Rightarrow> string \<Rightarrow> string native_res"

abbreviation credentials_invalid :: "string \<Rightarrow> native_error" where
  "credentials_invalid \<equiv> native_error_new ''vpn_credentials_invalid''"

text \<open>The decoder's error text becomes the source of the error.\<close>

definition decoded_seed :: "key_crypto \<Rightarrow> string \<Rightarrow> string native_res" where
  "decoded_seed kc seed_b64 =
     (case kc_base64_decode kc seed_b64 of
        Inl text \<Rightarrow> Inl (with_source text (credentials_invalid ''The stored Proton VPN private key is not valid base64''))
      | Inr seed \<Rightarrow> Inr seed)"

definition byte_word :: "char \<Rightarrow> u8" where
  "byte_word c = of_nat (byte c)"

definition word_char :: "u8 \<Rightarrow> char" where
  "word_char w = char_of (unat w)"

text \<open>The first half of the digest with the bits of a Curve25519 scalar set.\<close>

definition clamp :: "u8 list \<Rightarrow> u8 list" where
  "clamp bs = (bs[0 := bs ! 0 AND 248])[31 := (bs ! 31 AND 127) OR 64]"

definition wireguard_private_key :: "key_crypto \<Rightarrow> string \<Rightarrow> string native_res" where
  "wireguard_private_key kc seed_b64 =
     rbind (decoded_seed kc seed_b64) (\<lambda>seed.
     if length seed \<noteq> 32
     then Inl (credentials_invalid ''The stored Proton VPN private key has an invalid length'')
     else Inr (kc_base64_encode kc (map word_char (clamp (map byte_word (take 32 (kc_sha512 kc seed)))))))"

definition encrypted_openvpn_private_key :: "key_crypto \<Rightarrow> string \<Rightarrow> string \<Rightarrow> string native_res" where
  "encrypted_openvpn_private_key kc seed_b64 passphrase =
     rbind (decoded_seed kc seed_b64) (\<lambda>seed.
     if length seed \<noteq> 32
     then Inl (credentials_invalid ''The stored Proton VPN private key must contain exactly 32 bytes'')
     else kc_encrypted_pem kc seed passphrase)"

definition hex_encode :: "string \<Rightarrow> string" where
  "hex_encode bytes = concat (map (\<lambda>c. [digit_char (byte c div 16), digit_char (byte c mod 16)]) bytes)"

section \<open>Name servers\<close>

definition dns_entry_value :: "json \<Rightarrow> bool \<times> string" where
  "dns_entry_value v =
     (case v of
        JStr s \<Rightarrow> (True, s)
      | JObj m \<Rightarrow>
          (unwrap_or True (Option.bind (obj_get m ''enabled'') as_bool),
           unwrap_or [] (Option.bind (case obj_get m ''ip'' of Some x \<Rightarrow> Some x | None \<Rightarrow> obj_get m ''address'') as_str))
      | _ \<Rightarrow> (False, []))"

definition enabled_dns :: "json list \<Rightarrow> string list \<times> string list" where
  "enabled_dns entries =
     (let values = map snd (filter (\<lambda>(on, v). on \<and> v \<noteq> []) (map dns_entry_value entries)) in
      (filter (\<lambda>v. case parse_ip v of Some a \<Rightarrow> is_v4 a | None \<Rightarrow> False) values,
       filter (\<lambda>v. case parse_ip v of Some a \<Rightarrow> \<not> is_v4 a | None \<Rightarrow> False) values))"

definition profile_dns :: "native_settings \<Rightarrow> string list \<times> string list" where
  "profile_dns settings =
     (if cu_enabled (ns_custom_dns settings) then enabled_dns (cu_ip_list (ns_custom_dns settings)) else ([], []))"

definition normalize_protocol :: "string \<Rightarrow> string" where
  "normalize_protocol p =
     (if p = ''smart'' then ''protun-smart''
      else if p = ''wireguard'' \<or> p = ''wireguard-udp'' then ''protun-udp''
      else if p = ''wireguard-tcp'' then ''protun-tcp''
      else if p = ''wireguard-tls'' \<or> p = ''stealth'' then ''protun-tls''
      else p)"

section \<open>ProTun profiles\<close>

record protun_profile =
  pp_id :: string
  pp_uuid :: string
  pp_protocol :: string
  pp_profile_id :: "string option"
  pp_settings_json :: string
  pp_private_key :: string
  pp_enable_ipv6 :: bool
  pp_custom_dns_v4 :: "string list"
  pp_custom_dns_v6 :: "string list"
  pp_guest_interface :: "string option"

abbreviation protocol_unavailable_for :: "string \<Rightarrow> native_error" where
  "protocol_unavailable_for \<equiv> native_error_new ''protocol_unavailable''"

definition protun_ports :: "string \<Rightarrow> client_config \<Rightarrow> (u16 list \<times> u16 list \<times> u16 list) native_res" where
  "protun_ports protocol config =
     (let ports = cc_wire_guard config in
      if protocol = ''protun-smart'' \<or> protocol = ''smart'' then Inr (po_udp ports, po_tcp ports, po_tls ports)
      else if protocol = ''wireguard'' \<or> protocol = ''wireguard-udp'' \<or> protocol = ''protun-udp''
      then Inr (po_udp ports, [], [])
      else if protocol = ''protun-tcp'' \<or> protocol = ''wireguard-tcp'' then Inr ([], po_tcp ports, [])
      else if protocol = ''protun-tls'' \<or> protocol = ''wireguard-tls'' \<or> protocol = ''stealth''
      then Inr ([], [], po_tls ports)
      else Inl (protocol_unavailable_for (''The Rust backend cannot create a ProTun profile for '' @ protocol)))"

definition ports_json :: "u16 list \<Rightarrow> json" where
  "ports_json ports = JArr (map (\<lambda>p. jnum (ucast p)) ports)"

definition peer_settings ::
  "string \<Rightarrow> string \<Rightarrow> string \<Rightarrow> u16 list \<Rightarrow> u16 list \<Rightarrow> u16 list \<Rightarrow> json" where
  "peer_settings name endpoint public_key udp tcp tls =
     jobj [(''version'', jnum 1),
       (''peers'', JArr [jobj [(''id'', JStr name), (''endpoint'', JStr endpoint), (''public-key'', JStr public_key),
          (''udp-ports'', ports_json udp), (''tcp-ports'', ports_json tcp), (''tls-ports'', ports_json tls),
          (''priority'', jnum 0)]]),
       (''pcap-file'', JNull)]"

definition uses_ipv6 :: "native_settings \<Rightarrow> connection_target \<Rightarrow> bool" where
  "uses_ipv6 settings target \<longleftrightarrow> ns_ipv6 settings \<and> has_feature FEATURE_IPV6 (ct_logical target)"

text \<open>\<open>fl\<close> prints floats, of which these settings have none; \<open>uuid\<close> is the fresh identifier.\<close>

definition protun_profile_new ::
  "crypto \<Rightarrow> key_crypto \<Rightarrow> (u64 \<Rightarrow> string) \<Rightarrow> string \<Rightarrow> connection_target \<Rightarrow> string \<Rightarrow> session_data \<Rightarrow> client_config
    \<Rightarrow> native_settings \<Rightarrow> string option \<Rightarrow> protun_profile native_res" where
  "protun_profile_new cy kc fl uuid target protocol session config settings profile_id =
     rbind (validate_with_key cy (ct_physical target)) (\<lambda>_.
     rbind (protun_ports protocol config) (\<lambda>(udp, tcp, tls).
     if udp = [] \<and> tcp = [] \<and> tls = []
     then Inl (protocol_unavailable_for ''The Proton client configuration provides no ports for this protocol'')
     else
     rbind (wireguard_private_key kc (vs_ed25519_privatekey (sd_vpn session))) (\<lambda>private_key.
     Inr \<lparr>pp_id = ''ProtonVPN '' @ lg_name (ct_logical target), pp_uuid = uuid, pp_protocol = normalize_protocol protocol,
       pp_profile_id = profile_id,
       pp_settings_json = escape_commas (compact fl (peer_settings (lg_name (ct_logical target))
          (ps_entry_ip (ct_physical target)) (ps_x25519_public_key (ct_physical target)) udp tcp tls)),
       pp_private_key = private_key, pp_enable_ipv6 = uses_ipv6 settings target,
       pp_custom_dns_v4 = fst (profile_dns settings), pp_custom_dns_v6 = snd (profile_dns settings),
       pp_guest_interface = None\<rparr>)))"

definition protun_ipv4 :: "protun_profile \<Rightarrow> prop_map" where
  "protun_ipv4 p =
     obj_of ([(''method'', DStr ''manual''), (''address-data'', DMaps [address ''10.2.0.2'' 32]),
       (''auto-route-ext-gw'', DI32 0), (''dns-priority'', DI32 (- 1500)), (''ignore-auto-dns'', DBool True)]
      @ (if pp_custom_dns_v4 p = [] then [(''dns-data'', DStrs [''10.2.0.1'']), (''dns-search'', DStrs [''~''])]
         else [(''dns-data'', DStrs (pp_custom_dns_v4 p))]))"

definition protun_ipv6 :: "protun_profile \<Rightarrow> prop_map" where
  "protun_ipv6 p =
     (if pp_enable_ipv6 p
      then obj_of ([(''method'', DStr ''manual''), (''address-data'', DMaps [address ''2a07:b944::2:2'' 128]),
         (''auto-route-ext-gw'', DI32 0), (''dns-priority'', DI32 (- 1500)), (''ignore-auto-dns'', DBool True)]
        @ (if pp_custom_dns_v6 p = [] then [(''dns-data'', DStrs [''2a07:b944::2:1'']), (''dns-search'', DStrs [''~''])]
           else [(''dns-data'', DStrs (pp_custom_dns_v6 p))]))
      else obj_of [(''method'', DStr ''disabled'')])"

definition protun_data :: "host_env \<Rightarrow> protun_profile \<Rightarrow> (string \<times> string) list" where
  "protun_data env p =
     obj_of ([(''settings'', pp_settings_json p), (''private-key-flags'', ''0''),
        (PROTON_OMARCHY_OWNER_KEY, PROTON_OMARCHY_OWNER_VALUE)]
      @ (case pp_profile_id p of None \<Rightarrow> [] | Some i \<Rightarrow> [(PROTON_OMARCHY_PROFILE_ID_KEY, i)])
      @ (if pp_guest_interface p = None then [] else [(GUEST_HOLE_PURPOSE, dec (unat (he_uid env)))]))"

definition protun_dbus_settings :: "host_env \<Rightarrow> protun_profile \<Rightarrow> connection_settings" where
  "protun_dbus_settings env p =
     obj_of [(''connection'',
         obj_of ([(''id'', DStr (pp_id p)), (''uuid'', DStr (pp_uuid p)), (''type'', DStr ''vpn''), (''llmnr'', DI32 0),
           (''stable-id'', DStr PROTON_OMARCHY_STABLE_ID),
           (''interface-name'', DStr (unwrap_or PROTUN_INTERFACE (pp_guest_interface p))),
           (''permissions'', user_permission env)]
          @ (if pp_guest_interface p = None then [] else [(''autoconnect'', DBool False)]))),
       (''ipv4'', protun_ipv4 p), (''ipv6'', protun_ipv6 p),
       (''vpn'', obj_of [(''service-type'', DStr PROTUN_SERVICE), (''data'', DDict (protun_data env p)),
          (''secrets'', DDict [(''private-key'', pp_private_key p)]), (''persistent'', DBool False)])]"

section \<open>OpenVPN profiles\<close>

record openvpn_profile =
  ov_id :: string
  ov_uuid :: string
  ov_protocol :: string
  ov_profile_id :: "string option"
  ov_remote :: string
  ov_domain :: string
  ov_passphrase :: string
  ov_credential_dir :: string
  ov_ca :: string
  ov_certificate :: string
  ov_private_key :: string
  ov_tls_crypt :: string
  ov_enable_ipv6 :: bool
  ov_custom_dns_v4 :: "string list"
  ov_custom_dns_v6 :: "string list"

text \<open>The checks before any credential is written; \<open>random\<close> are the bytes of the passphrase.\<close>

definition openvpn_ports :: "string \<Rightarrow> client_config \<Rightarrow> u16 list native_res" where
  "openvpn_ports protocol config =
     (if protocol = ''openvpn-udp'' then Inr (po_udp (cc_open_vpn config))
      else if protocol = ''openvpn-tcp'' then Inr (po_tcp (cc_open_vpn config))
      else Inl (protocol_unavailable_for (''The Rust backend cannot create an OpenVPN profile for '' @ protocol)))"

definition openvpn_checks ::
  "crypto \<Rightarrow> key_crypto \<Rightarrow> string \<Rightarrow> connection_target \<Rightarrow> string \<Rightarrow> session_data \<Rightarrow> client_config
    \<Rightarrow> (u16 list \<times> string) native_res" where
  "openvpn_checks cy kc passphrase target protocol session config =
     rbind (validate_with_key cy (ct_physical target)) (\<lambda>_.
     rbind (openvpn_ports protocol config) (\<lambda>ports.
     if ports = []
     then Inl (protocol_unavailable_for ''The Proton client configuration provides no ports for this OpenVPN protocol'')
     else if trim (lg_domain (ct_logical target)) = []
     then Inl (native_error_new ''server_invalid'' ''The selected Proton server has no certificate domain'')
     else if \<not> contains ''-----BEGIN CERTIFICATE-----'' (vc_certificate (vs_certificate (sd_vpn session)))
     then Inl (credentials_invalid ''The stored Proton VPN certificate is missing or invalid'')
     else
     rbind (encrypted_openvpn_private_key kc (vs_ed25519_privatekey (sd_vpn session)) passphrase) (\<lambda>private_key.
     Inr (ports, private_key))))"

definition openvpn_remote :: "string \<Rightarrow> u16 list \<Rightarrow> string" where
  "openvpn_remote ip ports = join '', '' (map (\<lambda>p. ip @ '':'' @ dec (unat p)) ports)"

definition openvpn_ip :: "string list \<Rightarrow> prop_map" where
  "openvpn_ip dns =
     obj_of ([(''method'', DStr ''auto''), (''dns-priority'', DI32 (- 1500))]
      @ (if dns = [] then [] else [(''dns-data'', DStrs dns), (''ignore-auto-dns'', DBool True)]))"

definition openvpn_data :: "openvpn_profile \<Rightarrow> (string \<times> string) list" where
  "openvpn_data p =
     obj_of ([(''ca'', ov_ca p), (''cert'', ov_certificate p), (''key'', ov_private_key p), (''tls-crypt'', ov_tls_crypt p),
        (''connection-type'', ''tls''), (''remote'', ov_remote p), (''remote-random'', ''yes''), (''cipher'', ''AES-256-GCM''),
        (''dev'', PROTUN_INTERFACE), (''dev-type'', ''tun''), (''mssfix'', ''0''), (''tunnel-mtu'', ''1500''),
        (''reneg-seconds'', ''0''), (''remote-cert-tls'', ''server''), (''verify-x509-name'', ''name:'' @ ov_domain p),
        (''cert-pass-flags'', ''0'')]
      @ (if ov_protocol p = ''openvpn-tcp'' then [(''proto-tcp'', ''yes'')] else [])
      @ (if ov_enable_ipv6 p then [(''push-peer-info'', ''yes''), (''tun-ipv6'', ''yes'')] else [])
      @ (case ov_profile_id p of None \<Rightarrow> [] | Some i \<Rightarrow> [(PROTON_OMARCHY_PROFILE_ID_KEY, i)]))"

definition openvpn_dbus_settings :: "host_env \<Rightarrow> openvpn_profile \<Rightarrow> connection_settings" where
  "openvpn_dbus_settings env p =
     obj_of [(''connection'',
         obj_of [(''id'', DStr (ov_id p)), (''uuid'', DStr (ov_uuid p)), (''type'', DStr ''vpn''), (''llmnr'', DI32 0),
           (''interface-name'', DStr PROTUN_INTERFACE), (''autoconnect'', DBool False),
           (''stable-id'', DStr PROTON_OMARCHY_STABLE_ID), (''permissions'', user_permission env)]),
       (''ipv4'', openvpn_ip (ov_custom_dns_v4 p)),
       (''ipv6'', if ov_enable_ipv6 p then openvpn_ip (ov_custom_dns_v6 p) else obj_of [(''method'', DStr ''disabled'')]),
       (''vpn'', obj_of [(''service-type'', DStr OPENVPN_SERVICE), (''data'', DDict (openvpn_data p)),
          (''secrets'', DDict [(''cert-pass'', ov_passphrase p)]), (''persistent'', DBool False)])]"

text \<open>The file-system calls for the credentials; an error is its text. \<open>cr_uuid_error\<close> is what the parser of identifiers
  has against one; the two texts are the certificates compiled into the program.\<close>

record 'w credential_io =
  cr_uuid_error :: "string \<Rightarrow> string option"
  cr_create_dir_all :: "string \<Rightarrow> 'w \<Rightarrow> (string + unit) \<times> 'w"
  cr_set_mode :: "string \<Rightarrow> nat \<Rightarrow> 'w \<Rightarrow> (string + unit) \<times> 'w"
  cr_create_dir :: "string \<Rightarrow> 'w \<Rightarrow> (string + unit) \<times> 'w"
  cr_create_new :: "string \<Rightarrow> nat \<Rightarrow> 'w \<Rightarrow> (string + unit) \<times> 'w"
  cr_write_all :: "string \<Rightarrow> string \<Rightarrow> 'w \<Rightarrow> (string + unit) \<times> 'w"
  cr_remove_dir_all :: "string \<Rightarrow> 'w \<Rightarrow> (string + unit) \<times> 'w"
  cr_openvpn_ca :: string
  cr_openvpn_tls_crypt :: string

definition fs_step :: "string \<Rightarrow> ('w \<Rightarrow> (string + unit) \<times> 'w) \<Rightarrow> ('w, unit) action" where
  "fs_step message m w =
     (case m w of
        (Inl text, w') \<Rightarrow> (Inl (with_source text (native_error_new ''vpn_credentials_unavailable'' message)), w')
      | (Inr _, w') \<Rightarrow> (Inr (), w'))"

definition openvpn_root :: "host_env \<Rightarrow> string native_res" where
  "openvpn_root env =
     rbind (ok_or (native_error_new ''environment_invalid''
              ''XDG_RUNTIME_DIR is required to protect temporary OpenVPN credentials'') (he_runtime_dir env)) (\<lambda>dir.
     Inr (dir @ ''/proton-omarchy/openvpn''))"

definition check_uuid :: "'w credential_io \<Rightarrow> string \<Rightarrow> unit native_res" where
  "check_uuid cr uuid =
     (case cr_uuid_error cr uuid of
        None \<Rightarrow> Inr ()
      | Some text \<Rightarrow> Inl (with_source text (native_error_new ''profile_invalid'' ''The OpenVPN profile UUID is invalid'')))"

definition openvpn_credential_dir :: "'w credential_io \<Rightarrow> host_env \<Rightarrow> string \<Rightarrow> ('w, string) action" where
  "openvpn_credential_dir cr env uuid =
     abind (alift (check_uuid cr uuid)) (\<lambda>_.
     abind (alift (openvpn_root env)) (\<lambda>base.
     let directory = base @ ''/'' @ uuid in
     abind (fs_step ''Unable to create the protected OpenVPN credential directory'' (cr_create_dir_all cr base)) (\<lambda>_.
     abind (fs_step ''Unable to protect the OpenVPN credential directory'' (cr_set_mode cr base 448)) (\<lambda>_.
     abind (fs_step ''Unable to create the temporary OpenVPN credential set'' (cr_create_dir cr directory)) (\<lambda>_.
     abind (fs_step ''Unable to protect the temporary OpenVPN credential set'' (cr_set_mode cr directory 448)) (\<lambda>_.
     aret directory))))))"

definition write_private_file :: "'w credential_io \<Rightarrow> string \<Rightarrow> string \<Rightarrow> ('w, unit) action" where
  "write_private_file cr path contents =
     abind (fs_step (''Unable to create protected VPN credential '' @ path) (cr_create_new cr path 384)) (\<lambda>_.
     fs_step (''Unable to write protected VPN credential '' @ path) (cr_write_all cr path contents))"

definition cleanup_openvpn_credentials :: "'w credential_io \<Rightarrow> host_env \<Rightarrow> string \<Rightarrow> 'w \<Rightarrow> 'w" where
  "cleanup_openvpn_credentials cr env uuid w =
     (if cr_uuid_error cr uuid \<noteq> None then w
      else case openvpn_root env of
             Inl _ \<Rightarrow> w
           | Inr base \<Rightarrow> snd (cr_remove_dir_all cr (base @ ''/'' @ uuid) w))"

definition write_credentials :: "'w credential_io \<Rightarrow> string \<Rightarrow> string \<Rightarrow> string \<Rightarrow> ('w, unit) action" where
  "write_credentials cr directory certificate private_key =
     arescue
       (abind (write_private_file cr (directory @ ''/ca.pem'') (cr_openvpn_ca cr)) (\<lambda>_.
        abind (write_private_file cr (directory @ ''/certificate.pem'') certificate) (\<lambda>_.
        abind (write_private_file cr (directory @ ''/private-key.pem'') private_key) (\<lambda>_.
        write_private_file cr (directory @ ''/tls-crypt.pem'') (cr_openvpn_tls_crypt cr)))))
       (\<lambda>e. abind (awrites (\<lambda>w. snd (cr_remove_dir_all cr directory w))) (\<lambda>_. afail e))"

definition openvpn_profile_new ::
  "crypto \<Rightarrow> key_crypto \<Rightarrow> 'w credential_io \<Rightarrow> host_env \<Rightarrow> string \<Rightarrow> string \<Rightarrow> connection_target \<Rightarrow> string \<Rightarrow> session_data
    \<Rightarrow> client_config \<Rightarrow> native_settings \<Rightarrow> string option \<Rightarrow> ('w, openvpn_profile) action" where
  "openvpn_profile_new cy kc cr env random uuid target protocol0 session config settings profile_id =
     (let protocol = normalize_protocol protocol0; passphrase = hex_encode random in
      abind (alift (openvpn_checks cy kc passphrase target protocol session config)) (\<lambda>(ports, private_key).
      abind (openvpn_credential_dir cr env uuid) (\<lambda>directory.
      abind (write_credentials cr directory (vc_certificate (vs_certificate (sd_vpn session))) private_key) (\<lambda>_.
      aret \<lparr>ov_id = ''ProtonVPN '' @ lg_name (ct_logical target), ov_uuid = uuid, ov_protocol = protocol,
        ov_profile_id = profile_id, ov_remote = openvpn_remote (ps_entry_ip (ct_physical target)) ports,
        ov_domain = lg_domain (ct_logical target), ov_passphrase = passphrase, ov_credential_dir = directory,
        ov_ca = directory @ ''/ca.pem'', ov_certificate = directory @ ''/certificate.pem'',
        ov_private_key = directory @ ''/private-key.pem'', ov_tls_crypt = directory @ ''/tls-crypt.pem'',
        ov_enable_ipv6 = uses_ipv6 settings target, ov_custom_dns_v4 = fst (profile_dns settings),
        ov_custom_dns_v6 = snd (profile_dns settings)\<rparr>))))"

section \<open>Profiles\<close>

datatype vpn_profile = Protun protun_profile | OpenVpn openvpn_profile

text \<open>What the construction of a profile takes from outside: the crates, the environment, the random bytes and the fresh
  identifier.\<close>

record 'w profile_io =
  pi_crypto :: crypto
  pi_keys :: key_crypto
  pi_float :: "u64 \<Rightarrow> string"
  pi_credentials :: "'w credential_io"
  pi_env :: host_env
  pi_random :: string
  pi_uuid :: string

definition vpn_profile_new ::
  "'w profile_io \<Rightarrow> connection_target \<Rightarrow> string \<Rightarrow> session_data \<Rightarrow> client_config \<Rightarrow> native_settings
    \<Rightarrow> string option \<Rightarrow> ('w, vpn_profile) action" where
  "vpn_profile_new host target protocol session config settings profile_id =
     (if normalize_protocol protocol = ''openvpn-udp'' \<or> normalize_protocol protocol = ''openvpn-tcp''
      then abind (openvpn_profile_new (pi_crypto host) (pi_keys host) (pi_credentials host) (pi_env host) (pi_random host) (pi_uuid host)
             target protocol session config settings profile_id) (\<lambda>p. aret (OpenVpn p))
      else abind (alift (protun_profile_new (pi_crypto host) (pi_keys host) (pi_float host) (pi_uuid host)
             target protocol session config settings profile_id)) (\<lambda>p. aret (Protun p)))"

fun profile_name :: "vpn_profile \<Rightarrow> string" where
  "profile_name (Protun p) = pp_id p"
| "profile_name (OpenVpn p) = ov_id p"

fun profile_uuid :: "vpn_profile \<Rightarrow> string" where
  "profile_uuid (Protun p) = pp_uuid p"
| "profile_uuid (OpenVpn p) = ov_uuid p"

fun profile_protocol_name :: "vpn_profile \<Rightarrow> string" where
  "profile_protocol_name (Protun p) = pp_protocol p"
| "profile_protocol_name (OpenVpn p) = ov_protocol p"

fun profile_profile_id :: "vpn_profile \<Rightarrow> string option" where
  "profile_profile_id (Protun p) = pp_profile_id p"
| "profile_profile_id (OpenVpn p) = ov_profile_id p"

fun dbus_settings :: "host_env \<Rightarrow> vpn_profile \<Rightarrow> connection_settings" where
  "dbus_settings env (Protun p) = protun_dbus_settings env p"
| "dbus_settings env (OpenVpn p) = openvpn_dbus_settings env p"

fun cleanup_credentials :: "'w credential_io \<Rightarrow> vpn_profile \<Rightarrow> 'w \<Rightarrow> 'w" where
  "cleanup_credentials cr (Protun p) w = w"
| "cleanup_credentials cr (OpenVpn p) w = snd (cr_remove_dir_all cr (ov_credential_dir p) w)"

section \<open>Reading settings back\<close>

definition service_type :: "connection_settings \<Rightarrow> string option" where
  "service_type s = Option.bind (setting s ''vpn'' ''service-type'') dbus_str"

definition connection_id :: "connection_settings \<Rightarrow> string option" where
  "connection_id s = Option.bind (setting s ''connection'' ''id'') dbus_str"

definition connection_uuid :: "connection_settings \<Rightarrow> string option" where
  "connection_uuid s = Option.bind (setting s ''connection'' ''uuid'') dbus_str"

definition vpn_data_string :: "connection_settings \<Rightarrow> string \<Rightarrow> string option" where
  "vpn_data_string s key = Option.bind (setting s ''vpn'' ''data'') (\<lambda>d. dict_string d key)"

definition nonempty_ports :: "json option \<Rightarrow> bool" where
  "nonempty_ports v = (case Option.bind v as_array of None \<Rightarrow> False | Some ports \<Rightarrow> ports \<noteq> [])"

text \<open>The first peer in the settings of a ProTun connection; \<open>parse\<close> is \<open>serde_json::from_str\<close>.\<close>

definition first_peer :: "(string \<Rightarrow> json option) \<Rightarrow> connection_settings \<Rightarrow> json option" where
  "first_peer parse s =
     Option.bind (vpn_data_string s ''settings'') (\<lambda>text.
     Option.bind (parse (strip_backslashes text)) (\<lambda>v.
     Option.bind (vget v ''peers'') (\<lambda>ps.
     Option.bind (as_array ps) (\<lambda>peers. case peers of [] \<Rightarrow> None | p # _ \<Rightarrow> Some p))))"

definition profile_protocol :: "(string \<Rightarrow> json option) \<Rightarrow> connection_settings \<Rightarrow> string option" where
  "profile_protocol parse s =
     (if service_type s = Some OPENVPN_SERVICE
      then Some (if vpn_data_string s ''proto-tcp'' = Some ''yes'' then ''openvpn-tcp'' else ''openvpn-udp'')
      else Option.bind (first_peer parse s) (\<lambda>peer.
           let udp = nonempty_ports (vget peer ''udp-ports''); tcp = nonempty_ports (vget peer ''tcp-ports'');
               tls = nonempty_ports (vget peer ''tls-ports'') in
           Some (if \<not> udp \<and> \<not> tcp \<and> tls then ''protun-tls''
                 else if \<not> udp \<and> tcp \<and> \<not> tls then ''protun-tcp''
                 else if udp \<and> \<not> tcp \<and> \<not> tls then ''protun-udp''
                 else ''protun-smart'')))"

text \<open>\<open>split([',', ' ', '\t'])\<close> and the first part that is not empty.\<close>

fun split_remotes :: "string \<Rightarrow> string list" where
  "split_remotes [] = [[]]"
| "split_remotes (c # s) =
     (if c = CHR '','' \<or> c = CHR '' '' \<or> c = CHR 0x09 then [] # split_remotes s
      else case split_remotes s of [] \<Rightarrow> [[c]] | p # ps \<Rightarrow> (c # p) # ps)"

definition remote_address :: "string \<Rightarrow> string option" where
  "remote_address first =
     (case first of
        c # bracketed \<Rightarrow>
          if c = CHR ''['' then (if CHR '']'' \<in> set bracketed then Some (takeWhile (\<lambda>d. d \<noteq> CHR '']'') bracketed) else None)
          else Some (hd (split_on (CHR '':'') first))
      | [] \<Rightarrow> Some (hd (split_on (CHR '':'') first)))"

definition profile_endpoint :: "(string \<Rightarrow> json option) \<Rightarrow> connection_settings \<Rightarrow> string option" where
  "profile_endpoint parse s =
     (if service_type s = Some OPENVPN_SERVICE
      then Option.bind (vpn_data_string s ''remote'') (\<lambda>remote.
           Option.bind (find (\<lambda>v. v \<noteq> []) (split_remotes remote)) remote_address)
      else Option.bind (first_peer parse s) (\<lambda>peer.
           Option.bind (vget peer ''endpoint'') as_str))"

definition profile_store_id :: "connection_settings \<Rightarrow> string option" where
  "profile_store_id s =
     opt_filter (\<lambda>v. v \<noteq> [] \<and> length v \<le> 128 \<and> \<not> has_control v) (vpn_data_string s PROTON_OMARCHY_PROFILE_ID_KEY)"

definition connection_owned :: "connection_settings \<Rightarrow> bool" where
  "connection_owned s \<longleftrightarrow> Option.bind (setting s ''connection'' ''stable-id'') dbus_str = Some PROTON_OMARCHY_STABLE_ID"

definition profile_owned :: "connection_settings \<Rightarrow> bool" where
  "profile_owned s \<longleftrightarrow>
     vpn_data_string s PROTON_OMARCHY_OWNER_KEY = Some PROTON_OMARCHY_OWNER_VALUE \<or> connection_owned s"

end
