(* ===== verification/Network_Manager.thy ===== *)
theory Network_Manager
  imports Network_Profile
begin

text \<open>
  The dialogue with NetworkManager of \<^verbatim>\<open>native_backend/network.rs\<close>: observing the tunnel, activating and removing it, and
  the kill switch. NetworkManager is a record of its methods and properties, each of which may fail or change the state \<open>'w\<close>.
  The loop that deactivates connections may run as long as NetworkManager lists one: it is given a number of rounds and
  \<open>None\<close> means that they did not suffice.
\<close>

section \<open>Methods and properties\<close>

type_synonym path = string
type_synonym ('w, 'a) dbus = "'w \<Rightarrow> (string + 'a) \<times> 'w"

record 'w nm =
  nm_system_bus :: "('w, unit) dbus"
  nm_active_connections :: "('w, path list) dbus"
  nm_active_id :: "path \<Rightarrow> ('w, string) dbus"
  nm_active_uuid :: "path \<Rightarrow> ('w, string) dbus"
  nm_active_type :: "path \<Rightarrow> ('w, string) dbus"
  nm_active_vpn :: "path \<Rightarrow> ('w, bool) dbus"
  nm_active_connection :: "path \<Rightarrow> ('w, path) dbus"
  nm_vpn_state :: "path \<Rightarrow> ('w, u32) dbus"
  nm_get_settings :: "path \<Rightarrow> ('w, connection_settings) dbus"
  nm_delete :: "path \<Rightarrow> ('w, unit) dbus"
  nm_list_connections :: "('w, path list) dbus"
  nm_add_connection :: "connection_settings \<Rightarrow> ('w, path) dbus"
  nm_add_connection_unsaved :: "connection_settings \<Rightarrow> ('w, path) dbus"
  nm_activate_connection :: "path \<Rightarrow> path \<Rightarrow> path \<Rightarrow> ('w, path) dbus"
  nm_deactivate_connection :: "path \<Rightarrow> ('w, unit) dbus"
  nm_primary_connection :: "('w, path) dbus"
  nm_connectivity_check_enabled :: "('w, bool) dbus"
  nm_set_connectivity_check_enabled :: "bool \<Rightarrow> ('w, unit) dbus"
  nm_devices :: "('w, path list) dbus"
  nm_device_state :: "path \<Rightarrow> ('w, u32) dbus"
  nm_device_type :: "path \<Rightarrow> ('w, u32) dbus"
  nm_device_interface :: "path \<Rightarrow> ('w, string) dbus"
  nm_device_ip4_config :: "path \<Rightarrow> ('w, path) dbus"
  nm_ip4_gateway :: "path \<Rightarrow> ('w, string) dbus"
  nm_modify_device :: "string \<Rightarrow> string \<Rightarrow> string \<Rightarrow> ('w, bool \<times> string) dbus"

text \<open>\<open>map_err(..)?\<close>, \<open>.ok()\<close> and \<open>.unwrap_or(..)\<close> on a call.\<close>

definition nm_error :: "string \<Rightarrow> string \<Rightarrow> native_error" where
  "nm_error action text =
     may_retry (with_source text (native_error_new ''networkmanager_error''
       (''Unable to '' @ action @ '' through NetworkManager'')))"

definition nm_try :: "string \<Rightarrow> ('w, 'a) dbus \<Rightarrow> ('w, 'a) action" where
  "nm_try action m w = (case m w of (Inl text, w') \<Rightarrow> (Inl (nm_error action text), w') | (Inr x, w') \<Rightarrow> (Inr x, w'))"

definition nm_ok :: "('w, 'a) dbus \<Rightarrow> ('w, 'a option) action" where
  "nm_ok m w = (case m w of (Inl _, w') \<Rightarrow> (Inr None, w') | (Inr x, w') \<Rightarrow> (Inr (Some x), w'))"

definition nm_or :: "'a \<Rightarrow> ('w, 'a) dbus \<Rightarrow> ('w, 'a) action" where
  "nm_or d m = abind (nm_ok m) (\<lambda>x. aret (unwrap_or d x))"

definition system_bus :: "'w nm \<Rightarrow> ('w, unit) action" where
  "system_bus nm = nm_try ''connect to NetworkManager'' (nm_system_bus nm)"

definition DBUS_ROOT :: path where "DBUS_ROOT = ''/''"

section \<open>Observing the tunnel\<close>

datatype tunnel_state = Disconnected | Connecting | Connected | TunnelError

record tunnel_observation =
  to_state :: tunnel_state
  to_active_path :: "string option"
  to_connection_path :: "string option"
  to_id :: "string option"
  to_uuid :: "string option"
  to_protocol :: "string option"
  to_endpoint :: "string option"
  to_profile_id :: "string option"
  to_owned :: bool

definition nothing_observed :: tunnel_observation where
  "nothing_observed =
     \<lparr>to_state = Disconnected, to_active_path = None, to_connection_path = None, to_id = None, to_uuid = None,
      to_protocol = None, to_endpoint = None, to_profile_id = None, to_owned = False\<rparr>"

definition VPN_STATE_PREPARE :: u32 where "VPN_STATE_PREPARE = 1"
definition VPN_STATE_NEED_AUTH :: u32 where "VPN_STATE_NEED_AUTH = 2"
definition VPN_STATE_CONNECT :: u32 where "VPN_STATE_CONNECT = 3"
definition VPN_STATE_IP_CONFIG_GET :: u32 where "VPN_STATE_IP_CONFIG_GET = 4"
definition VPN_STATE_ACTIVATED :: u32 where "VPN_STATE_ACTIVATED = 5"
definition VPN_STATE_FAILED :: u32 where "VPN_STATE_FAILED = 6"

definition tunnel_state_of :: "u32 \<Rightarrow> tunnel_state" where
  "tunnel_state_of v =
     (if v = VPN_STATE_ACTIVATED then Connected
      else if v \<in> set [VPN_STATE_PREPARE, VPN_STATE_NEED_AUTH, VPN_STATE_CONNECT, VPN_STATE_IP_CONFIG_GET] then Connecting
      else if v = VPN_STATE_FAILED then TunnelError
      else Disconnected)"

text \<open>The observation of an active connection that is one of ours.\<close>

definition observation_of ::
  "'w nm \<Rightarrow> (string \<Rightarrow> json option) \<Rightarrow> path \<Rightarrow> path \<Rightarrow> connection_settings \<Rightarrow> ('w, tunnel_observation) action" where
  "observation_of nm parse active profile settings =
     abind (nm_or 0 (nm_vpn_state nm active)) (\<lambda>state.
     abind (nm_ok (nm_active_id nm active)) (\<lambda>id.
     abind (nm_ok (nm_active_uuid nm active)) (\<lambda>uuid.
     aret \<lparr>to_state = tunnel_state_of state, to_active_path = Some active, to_connection_path = Some profile, to_id = id,
       to_uuid = uuid, to_protocol = profile_protocol parse settings, to_endpoint = profile_endpoint parse settings,
       to_profile_id = (if profile_owned settings then profile_store_id settings else None),
       to_owned = profile_owned settings\<rparr>)))"

text \<open>Whether an active VPN is passed over: another identifier than the one asked for, or a recovery tunnel.\<close>

definition passed_over :: "'w nm \<Rightarrow> string option \<Rightarrow> path \<Rightarrow> connection_settings \<Rightarrow> ('w, bool) action" where
  "passed_over nm wanted active settings =
     (case wanted of
        Some uuid \<Rightarrow> abind (nm_ok (nm_active_uuid nm active)) (\<lambda>u. aret (u \<noteq> Some uuid))
      | None \<Rightarrow> aret (vpn_data_string settings GUEST_HOLE_PURPOSE \<noteq> None))"

fun observe_paths ::
  "'w nm \<Rightarrow> (string \<Rightarrow> json option) \<Rightarrow> string option \<Rightarrow> path list \<Rightarrow> ('w, tunnel_observation) action" where
  "observe_paths nm parse wanted [] = aret nothing_observed"
| "observe_paths nm parse wanted (active # paths) =
     abind (nm_or False (nm_active_vpn nm active)) (\<lambda>vpn.
     if \<not> vpn then observe_paths nm parse wanted paths
     else
     abind (nm_ok (nm_active_connection nm active)) (\<lambda>profile.
     case profile of None \<Rightarrow> observe_paths nm parse wanted paths
     | Some profile \<Rightarrow>
     abind (nm_ok (nm_get_settings nm profile)) (\<lambda>settings.
     case settings of None \<Rightarrow> observe_paths nm parse wanted paths
     | Some settings \<Rightarrow>
     abind (passed_over nm wanted active settings) (\<lambda>skip.
     if skip \<or> service_type settings \<notin> {Some PROTUN_SERVICE, Some OPENVPN_SERVICE}
     then observe_paths nm parse wanted paths
     else observation_of nm parse active profile settings))))"

definition observe_matching ::
  "'w nm \<Rightarrow> (string \<Rightarrow> json option) \<Rightarrow> string option \<Rightarrow> ('w, tunnel_observation) action" where
  "observe_matching nm parse wanted =
     abind (system_bus nm) (\<lambda>_.
     abind (nm_try ''list active NetworkManager connections'' (nm_active_connections nm)) (\<lambda>paths.
     observe_paths nm parse wanted paths))"

section \<open>Activating and removing the tunnel\<close>

definition best_parent :: "'w nm \<Rightarrow> ('w, path option) action" where
  "best_parent nm =
     abind (nm_ok (nm_primary_connection nm)) (\<lambda>primary.
     case primary of None \<Rightarrow> aret None
     | Some p \<Rightarrow>
         if p = DBUS_ROOT then aret None
         else abind (nm_ok (nm_active_type nm p)) (\<lambda>kind.
              aret (if kind \<in> Some ` set [''802-3-ethernet'', ''802-11-wireless'', ''gsm'', ''cdma'', ''bridge'']
                    then Some p else None)))"

text \<open>An error after which something is undone before it is returned.\<close>

definition nm_connect :: "'w nm \<Rightarrow> 'w credential_io \<Rightarrow> host_env \<Rightarrow> vpn_profile \<Rightarrow> ('w, tunnel_observation) action" where
  "nm_connect nm cr env profile =
     abind (system_bus nm) (\<lambda>_.
     abind (arescue (nm_try ''create the temporary Proton VPN profile'' (nm_add_connection_unsaved nm (dbus_settings env profile)))
              (\<lambda>e. abind (awrites (cleanup_credentials cr profile)) (\<lambda>_. afail e))) (\<lambda>connection_path.
     abind (best_parent nm) (\<lambda>parent.
     abind (arescue (nm_try ''activate the Proton VPN profile''
              (nm_activate_connection nm connection_path DBUS_ROOT (unwrap_or DBUS_ROOT parent)))
              (\<lambda>e. abind (nm_ok (nm_delete nm connection_path)) (\<lambda>_.
                   abind (awrites (cleanup_credentials cr profile)) (\<lambda>_. afail e)))) (\<lambda>active_path.
     aret \<lparr>to_state = Connecting, to_active_path = Some active_path, to_connection_path = Some connection_path,
       to_id = Some (profile_name profile), to_uuid = Some (profile_uuid profile),
       to_protocol = Some (profile_protocol_name profile), to_endpoint = None,
       to_profile_id = profile_profile_id profile, to_owned = True\<rparr>))))"

definition disconnect_observation :: "'w nm \<Rightarrow> tunnel_observation \<Rightarrow> ('w, bool) action" where
  "disconnect_observation nm observation =
     (case to_active_path observation of
        None \<Rightarrow> aret False
      | Some active \<Rightarrow>
          abind (system_bus nm) (\<lambda>_.
          abind (nm_try ''deactivate the Proton VPN connection'' (nm_deactivate_connection nm active)) (\<lambda>_.
          case to_connection_path observation of
            None \<Rightarrow> aret True
          | Some profile \<Rightarrow> abind (nm_ok (nm_delete nm profile)) (\<lambda>_. aret True))))"

fun delete_profiles :: "'w nm \<Rightarrow> string \<Rightarrow> path list \<Rightarrow> ('w, unit) action" where
  "delete_profiles nm uuid [] = aret ()"
| "delete_profiles nm uuid (path # paths) =
     abind (nm_ok (nm_get_settings nm path)) (\<lambda>values.
     abind (case values of
              None \<Rightarrow> aret ()
            | Some s \<Rightarrow>
                if connection_uuid s = Some uuid \<and> profile_owned s
                then nm_try ''delete temporary profile'' (nm_delete nm path) else aret ()) (\<lambda>_.
     delete_profiles nm uuid paths))"

definition delete_inactive_owned_profile :: "'w nm \<Rightarrow> string \<Rightarrow> ('w, unit) action" where
  "delete_inactive_owned_profile nm uuid =
     abind (system_bus nm) (\<lambda>_.
     abind (nm_try ''list temporary profiles'' (nm_list_connections nm)) (\<lambda>paths.
     delete_profiles nm uuid paths))"

definition disconnect_uuid ::
  "'w nm \<Rightarrow> (string \<Rightarrow> json option) \<Rightarrow> 'w credential_io \<Rightarrow> host_env \<Rightarrow> string \<Rightarrow> ('w, bool) action" where
  "disconnect_uuid nm parse cr env uuid =
     abind (observe_matching nm parse (Some uuid)) (\<lambda>observation.
     abind (if to_uuid observation = Some uuid then disconnect_observation nm observation else aret False) (\<lambda>disconnected.
     abind (awrites (cleanup_openvpn_credentials cr env uuid)) (\<lambda>_.
     abind (delete_inactive_owned_profile nm uuid) (\<lambda>_.
     aret disconnected))))"

fun disconnect_guests ::
  "'w nm \<Rightarrow> (string \<Rightarrow> json option) \<Rightarrow> 'w credential_io \<Rightarrow> host_env \<Rightarrow> path list \<Rightarrow> ('w, unit) action" where
  "disconnect_guests nm parse cr env [] = aret ()"
| "disconnect_guests nm parse cr env (path # paths) =
     abind (nm_ok (nm_get_settings nm path)) (\<lambda>values.
     abind (case values of
              None \<Rightarrow> aret ()
            | Some s \<Rightarrow>
                if vpn_data_string s GUEST_HOLE_PURPOSE \<noteq> Some (dec (unat (he_uid env))) \<or> \<not> profile_owned s then aret ()
                else case connection_uuid s of
                       None \<Rightarrow> aret ()
                     | Some uuid \<Rightarrow> abind (disconnect_uuid nm parse cr env uuid) (\<lambda>_. aret ())) (\<lambda>_.
     disconnect_guests nm parse cr env paths))"

definition cleanup_guest_profiles ::
  "'w nm \<Rightarrow> (string \<Rightarrow> json option) \<Rightarrow> 'w credential_io \<Rightarrow> host_env \<Rightarrow> ('w, unit) action" where
  "cleanup_guest_profiles nm parse cr env =
     abind (system_bus nm) (\<lambda>_.
     abind (nm_try ''list recovery profiles'' (nm_list_connections nm)) (\<lambda>paths.
     disconnect_guests nm parse cr env paths))"

section \<open>The kill switch\<close>

definition IPV6_LEAK_CONNECTION_ID :: string where "IPV6_LEAK_CONNECTION_ID = ''pvpn-killswitch-ipv6''"
definition IPV6_LEAK_INTERFACE :: string where "IPV6_LEAK_INTERFACE = ''ipv6leakintrf0''"
definition KILL_SWITCH_CONNECTION_ID :: string where "KILL_SWITCH_CONNECTION_ID = ''pvpn-killswitch''"
definition KILL_SWITCH_PERMANENT_CONNECTION_ID :: string where
  "KILL_SWITCH_PERMANENT_CONNECTION_ID = ''pvpn-killswitch-perm''"
definition KILL_SWITCH_INTERFACE :: string where "KILL_SWITCH_INTERFACE = ''pvpnksintrf0''"
definition KILL_SWITCH_PERMANENT_INTERFACE :: string where "KILL_SWITCH_PERMANENT_INTERFACE = ''pvpnksintrf1''"

lemmas kill_switch_names = IPV6_LEAK_CONNECTION_ID_def IPV6_LEAK_INTERFACE_def KILL_SWITCH_CONNECTION_ID_def
  KILL_SWITCH_PERMANENT_CONNECTION_ID_def KILL_SWITCH_INTERFACE_def KILL_SWITCH_PERMANENT_INTERFACE_def

text \<open>A route that leads nowhere and wins over every other.\<close>

definition blocking_ipv6 :: prop_map where
  "blocking_ipv6 =
     obj_of [(''method'', DStr ''manual''), (''address-data'', DMaps [address ''fdeb:446c:912d:8da::'' 64]),
       (''dns-data'', DStrs [''::1'']), (''dns-priority'', DI32 (- 1400)), (''route-metric'', DI64 95),
       (''gateway'', DStr ''fdeb:446c:912d:8da::1''), (''ignore-auto-dns'', DBool True)]"

definition ipv6_leak_settings :: "host_env \<Rightarrow> string \<Rightarrow> connection_settings" where
  "ipv6_leak_settings env uuid =
     obj_of [(''connection'',
         obj_of [(''id'', DStr IPV6_LEAK_CONNECTION_ID), (''uuid'', DStr uuid), (''type'', DStr ''dummy''),
           (''interface-name'', DStr IPV6_LEAK_INTERFACE), (''autoconnect'', DBool True),
           (''permissions'', user_permission env), (''stable-id'', DStr PROTON_OMARCHY_STABLE_ID)]),
       (''dummy'', []), (''ipv4'', obj_of [(''method'', DStr ''disabled'')]), (''ipv6'', blocking_ipv6)]"

definition kill_switch_settings :: "host_env \<Rightarrow> string \<Rightarrow> string \<Rightarrow> string \<Rightarrow> bool \<Rightarrow> connection_settings" where
  "kill_switch_settings env uuid name interface permanent =
     obj_of [(''connection'',
         obj_of ([(''id'', DStr name), (''uuid'', DStr uuid), (''type'', DStr ''dummy''),
           (''interface-name'', DStr interface), (''autoconnect'', DBool permanent),
           (''stable-id'', DStr PROTON_OMARCHY_STABLE_ID)]
          @ (if permanent then [] else [(''permissions'', user_permission env)]))),
       (''dummy'', []),
       (''ipv4'', obj_of [(''method'', DStr ''manual''), (''address-data'', DMaps [address ''100.85.0.1'' 24]),
          (''dns-data'', DStrs [''0.0.0.0'']), (''dns-priority'', DI32 (- 1400)), (''route-metric'', DI64 98),
          (''gateway'', DStr ''100.85.0.1''), (''ignore-auto-dns'', DBool True)]),
       (''ipv6'', blocking_ipv6)]"

fun find_profile :: "'w nm \<Rightarrow> string \<Rightarrow> path list \<Rightarrow> ('w, path option) action" where
  "find_profile nm name [] = aret None"
| "find_profile nm name (path # paths) =
     abind (nm_ok (nm_get_settings nm path)) (\<lambda>values.
     case values of
       Some s \<Rightarrow>
         if connection_id s = Some name \<and> connection_owned s then aret (Some path) else find_profile nm name paths
     | None \<Rightarrow> find_profile nm name paths)"

definition settings_connection_by_id_owned :: "'w nm \<Rightarrow> string \<Rightarrow> ('w, path option) action" where
  "settings_connection_by_id_owned nm name =
     abind (nm_try ''list NetworkManager profiles'' (nm_list_connections nm)) (find_profile nm name)"

fun find_active_owned :: "'w nm \<Rightarrow> string \<Rightarrow> path list \<Rightarrow> ('w, path option) action" where
  "find_active_owned nm name [] = aret None"
| "find_active_owned nm name (path # paths) =
     abind (nm_ok (nm_active_id nm path)) (\<lambda>i.
     if i \<noteq> Some name then find_active_owned nm name paths
     else
     abind (nm_ok (nm_active_connection nm path)) (\<lambda>profile.
     case profile of
       None \<Rightarrow> find_active_owned nm name paths
     | Some profile \<Rightarrow>
         abind (nm_ok (nm_get_settings nm profile)) (\<lambda>values.
         if (case values of None \<Rightarrow> False | Some s \<Rightarrow> connection_owned s) then aret (Some path)
         else find_active_owned nm name paths)))"

definition active_owned_connection_by_id :: "'w nm \<Rightarrow> string \<Rightarrow> ('w, path option) action" where
  "active_owned_connection_by_id nm name =
     abind (nm_try ''list active NetworkManager connections'' (nm_active_connections nm)) (find_active_owned nm name)"

fun find_active :: "'w nm \<Rightarrow> string \<Rightarrow> path list \<Rightarrow> ('w, path option) action" where
  "find_active nm name [] = aret None"
| "find_active nm name (path # paths) =
     abind (nm_ok (nm_active_id nm path)) (\<lambda>i.
     if i = Some name then aret (Some path) else find_active nm name paths)"

definition active_connection_by_id :: "'w nm \<Rightarrow> string \<Rightarrow> ('w, path option) action" where
  "active_connection_by_id nm name =
     abind (nm_try ''list active NetworkManager connections'' (nm_active_connections nm)) (find_active nm name)"

text \<open>The \<open>while let\<close> loop of \<open>remove_owned_connections_by_id\<close> with \<open>rounds\<close> rounds.\<close>

fun deactivate_owned :: "'w nm \<Rightarrow> string \<Rightarrow> nat \<Rightarrow> bool \<Rightarrow> ('w, bool) partial_action" where
  "deactivate_owned nm name 0 removed = (\<lambda>w. None)"
| "deactivate_owned nm name (Suc rounds) removed =
     pbind (total (active_owned_connection_by_id nm name)) (\<lambda>active.
     case active of
       None \<Rightarrow> total (aret removed)
     | Some path \<Rightarrow>
         pbind (total (arescue
             (nm_try ''deactivate Proton protection connection'' (nm_deactivate_connection nm path))
             (\<lambda>e. abind (active_owned_connection_by_id nm name) (\<lambda>still. if still = None then aret () else afail e)))) (\<lambda>_.
         deactivate_owned nm name rounds True))"

fun delete_owned :: "'w nm \<Rightarrow> string \<Rightarrow> bool \<Rightarrow> path list \<Rightarrow> ('w, bool) action" where
  "delete_owned nm name removed [] = aret removed"
| "delete_owned nm name removed (path # paths) =
     abind (nm_ok (nm_get_settings nm path)) (\<lambda>values.
     if (case values of None \<Rightarrow> False | Some s \<Rightarrow> connection_id s = Some name \<and> connection_owned s)
     then abind (nm_try ''remove Proton protection connection'' (nm_delete nm path)) (\<lambda>_. delete_owned nm name True paths)
     else delete_owned nm name removed paths)"

definition remove_owned_connections_by_id :: "'w nm \<Rightarrow> nat \<Rightarrow> string \<Rightarrow> ('w, bool) partial_action" where
  "remove_owned_connections_by_id nm rounds name =
     pbind (total (system_bus nm)) (\<lambda>_.
     pbind (deactivate_owned nm name rounds False) (\<lambda>removed.
     total (abind (nm_try ''list NetworkManager profiles'' (nm_list_connections nm)) (\<lambda>paths.
            delete_owned nm name removed paths))))"

definition remove_ipv6_leak_protection :: "'w nm \<Rightarrow> nat \<Rightarrow> ('w, bool) partial_action" where
  "remove_ipv6_leak_protection nm rounds = remove_owned_connections_by_id nm rounds IPV6_LEAK_CONNECTION_ID"

definition disable_connectivity_check :: "'w nm \<Rightarrow> ('w, unit) action" where
  "disable_connectivity_check nm =
     abind (nm_or False (nm_connectivity_check_enabled nm)) (\<lambda>on.
     if on then nm_try ''disable NetworkManager connectivity checking'' (nm_set_connectivity_check_enabled nm False)
     else aret ())"

definition ensure_ipv6_leak_protection :: "'w nm \<Rightarrow> host_env \<Rightarrow> string \<Rightarrow> ('w, unit) action" where
  "ensure_ipv6_leak_protection nm env uuid =
     abind (system_bus nm) (\<lambda>_.
     abind (disable_connectivity_check nm) (\<lambda>_.
     abind (active_connection_by_id nm IPV6_LEAK_CONNECTION_ID) (\<lambda>active.
     if active \<noteq> None then aret ()
     else
     abind (settings_connection_by_id_owned nm IPV6_LEAK_CONNECTION_ID) (\<lambda>profile.
     abind (case profile of
              Some path \<Rightarrow> aret path
            | None \<Rightarrow> nm_try ''create IPv6 leak protection'' (nm_add_connection_unsaved nm (ipv6_leak_settings env uuid))) (\<lambda>path.
     abind (nm_try ''activate IPv6 leak protection'' (nm_activate_connection nm path DBUS_ROOT DBUS_ROOT)) (\<lambda>_. aret ()))))))"

text \<open>\<open>ensure_full_kill_switch\<close> up to the removal of the other profile.\<close>

definition activate_kill_switch :: "'w nm \<Rightarrow> host_env \<Rightarrow> string \<Rightarrow> bool \<Rightarrow> string \<Rightarrow> string \<Rightarrow> ('w, unit) action" where
  "activate_kill_switch nm env uuid permanent name interface =
     abind (active_connection_by_id nm name) (\<lambda>active.
     if active \<noteq> None then aret ()
     else
     abind (settings_connection_by_id_owned nm name) (\<lambda>profile.
     abind (case profile of
              Some path \<Rightarrow> aret path
            | None \<Rightarrow>
                if permanent
                then nm_try ''create permanent Kill Switch'' (nm_add_connection nm (kill_switch_settings env uuid name interface True))
                else nm_try ''create standard Kill Switch''
                       (nm_add_connection_unsaved nm (kill_switch_settings env uuid name interface False))) (\<lambda>path.
     abind (nm_try ''activate Kill Switch'' (nm_activate_connection nm path DBUS_ROOT DBUS_ROOT)) (\<lambda>_. aret ()))))"

definition ensure_full_kill_switch :: "'w nm \<Rightarrow> host_env \<Rightarrow> string \<Rightarrow> nat \<Rightarrow> bool \<Rightarrow> ('w, unit) partial_action" where
  "ensure_full_kill_switch nm env uuid rounds permanent =
     (let name = (if permanent then KILL_SWITCH_PERMANENT_CONNECTION_ID else KILL_SWITCH_CONNECTION_ID);
          interface = (if permanent then KILL_SWITCH_PERMANENT_INTERFACE else KILL_SWITCH_INTERFACE);
          opposite = (if permanent then KILL_SWITCH_CONNECTION_ID else KILL_SWITCH_PERMANENT_CONNECTION_ID) in
      pbind (total (system_bus nm)) (\<lambda>_.
      pbind (total (disable_connectivity_check nm)) (\<lambda>_.
      pbind (total (activate_kill_switch nm env uuid permanent name interface)) (\<lambda>_.
      pbind (remove_owned_connections_by_id nm rounds opposite) (\<lambda>_. total (aret ()))))))"

text \<open>The route to the server, on every connected Ethernet or Wi-Fi device with a gateway.\<close>

definition route_unavailable :: "string \<Rightarrow> native_error" where
  "route_unavailable = native_error_new ''kill_switch_route_unavailable''"

definition route_refused :: "string \<Rightarrow> native_error" where
  "route_refused details =
     route_unavailable (if details = [] then ''NetworkManager could not apply the VPN server bypass route''
       else ''NetworkManager could not apply the VPN server bypass route: '' @ details)"

definition modify_route :: "'w nm \<Rightarrow> string \<Rightarrow> bool \<Rightarrow> string \<Rightarrow> string \<Rightarrow> ('w, unit) action" where
  "modify_route nm server_ip add interface gateway w =
     (case nm_modify_device nm interface (if add then ''+ipv4.routes'' else ''-ipv4.routes'')
             (server_ip @ ''/32 '' @ gateway) w of
        (Inl text, w') \<Rightarrow> (Inl (route_unavailable (''Could not invoke NetworkManager: '' @ text)), w')
      | (Inr (ok, stderr), w') \<Rightarrow> (if ok then Inr () else Inl (route_refused (trim stderr)), w'))"

fun modify_devices :: "'w nm \<Rightarrow> string \<Rightarrow> bool \<Rightarrow> u32 \<Rightarrow> path list \<Rightarrow> ('w, u32) action" where
  "modify_devices nm server_ip add eligible [] = aret eligible"
| "modify_devices nm server_ip add eligible (device # devices) =
     abind (nm_or 0 (nm_device_state nm device)) (\<lambda>state.
     if state \<noteq> 100 then modify_devices nm server_ip add eligible devices
     else
     abind (nm_or 0 (nm_device_type nm device)) (\<lambda>kind.
     if kind \<noteq> 1 \<and> kind \<noteq> 2 then modify_devices nm server_ip add eligible devices
     else
     abind (nm_ok (nm_device_ip4_config nm device)) (\<lambda>config.
     if config = None \<or> config = Some DBUS_ROOT then modify_devices nm server_ip add eligible devices
     else
     abind (nm_or [] (nm_ip4_gateway nm (the config))) (\<lambda>gateway.
     if gateway = [] then modify_devices nm server_ip add eligible devices
     else
     abind (nm_try ''read the physical interface name'' (nm_device_interface nm device)) (\<lambda>interface.
     abind (modify_route nm server_ip add interface gateway) (\<lambda>_.
     modify_devices nm server_ip add (eligible + 1) devices))))))"

definition is_ipv4_text :: "string \<Rightarrow> bool" where
  "is_ipv4_text s \<longleftrightarrow> (case parse_ip s of Some a \<Rightarrow> is_v4 a | None \<Rightarrow> False)"

definition modify_server_route :: "'w nm \<Rightarrow> string \<Rightarrow> bool \<Rightarrow> ('w, unit) action" where
  "modify_server_route nm server_ip add =
     abind (aguard (is_ipv4_text server_ip) (native_error_new ''kill_switch_route_invalid''
              ''The VPN server has no valid IPv4 endpoint for Kill Switch'')) (\<lambda>_.
     abind (system_bus nm) (\<lambda>_.
     abind (nm_try ''list NetworkManager devices'' (nm_devices nm)) (\<lambda>devices.
     abind (modify_devices nm server_ip add 0 devices) (\<lambda>eligible.
     aguard (\<not> (add \<and> eligible = 0)) (may_retry (route_unavailable
       ''No active Ethernet or Wi-Fi gateway can reach the VPN server''))))))"

definition should_block :: "u8 \<Rightarrow> bool \<Rightarrow> bool" where
  "should_block mode tunnel_active \<longleftrightarrow> mode = 2 \<or> mode = 1 \<and> tunnel_active"

definition lift_blocking ::
  "'w nm \<Rightarrow> host_env \<Rightarrow> string \<Rightarrow> nat \<Rightarrow> u8 \<Rightarrow> bool \<Rightarrow> string option \<Rightarrow> bool \<Rightarrow> ('w, unit) partial_action" where
  "lift_blocking nm env uuid rounds mode tunnel_active server_ip leak_protection =
     pbind (remove_owned_connections_by_id nm rounds KILL_SWITCH_CONNECTION_ID) (\<lambda>_.
     pbind (remove_owned_connections_by_id nm rounds KILL_SWITCH_PERMANENT_CONNECTION_ID) (\<lambda>_.
     pbind (case server_ip of
              Some ip \<Rightarrow> if mode \<noteq> 0 then total (modify_server_route nm ip False) else total (aret ())
            | None \<Rightarrow> total (aret ())) (\<lambda>_.
     if tunnel_active \<and> leak_protection then total (ensure_ipv6_leak_protection nm env uuid)
     else pbind (remove_ipv6_leak_protection nm rounds) (\<lambda>_. total (aret ())))))"

definition nm_reconcile_kill_switch ::
  "'w nm \<Rightarrow> host_env \<Rightarrow> string \<Rightarrow> nat \<Rightarrow> u8 \<Rightarrow> bool \<Rightarrow> string option \<Rightarrow> bool \<Rightarrow> ('w, unit) partial_action" where
  "nm_reconcile_kill_switch nm env uuid rounds mode tunnel_active server_ip leak_protection =
     (if 2 < mode
      then total (afail (native_error_new ''invalid_kill_switch'' ''Kill Switch mode must be off, standard or advanced''))
      else if \<not> should_block mode tunnel_active
      then lift_blocking nm env uuid rounds mode tunnel_active server_ip leak_protection
      else
      pbind (ensure_full_kill_switch nm env uuid rounds (mode = 2)) (\<lambda>_.
      pbind (remove_ipv6_leak_protection nm rounds) (\<lambda>_.
      case server_ip of
        None \<Rightarrow> total (aret ())
      | Some ip \<Rightarrow> total (modify_server_route nm ip tunnel_active))))"

definition network_blocked :: "'w nm \<Rightarrow> (string \<Rightarrow> json option) \<Rightarrow> ('w, bool) action" where
  "network_blocked nm parse =
     abind (system_bus nm) (\<lambda>_.
     abind (active_connection_by_id nm KILL_SWITCH_CONNECTION_ID) (\<lambda>standard.
     abind (if standard \<noteq> None then aret True
            else abind (active_connection_by_id nm KILL_SWITCH_PERMANENT_CONNECTION_ID) (\<lambda>permanent. aret (permanent \<noteq> None))) (\<lambda>on.
     if \<not> on then aret False
     else abind (observe_matching nm parse None) (\<lambda>observation. aret (to_state observation \<noteq> Connected)))))"

end
