(* ===== verification/Backend_Runtime.thy ===== *)
theory Backend_Runtime
  imports Network_Manager
begin

text \<open>
  The handlers of the agent's backend that change settings and the protection of the network
  (\<^verbatim>\<open>native_backend/mod.rs\<close>): \<open>protocol_set\<close>, \<open>feature_set\<close>, \<open>dns_set\<close>, \<open>split_tunneling_set\<close>, the destination
  policy, the kill switch bypass and the orderly disconnect. A handler is an action on the runtime state; what
  NetworkManager, the split-tunneling daemon, the Local Agent and the file system do is a record of services on a world
  of any type, each of which may fail and may change the world when it does. The events a handler publishes are left out.
\<close>

section \<open>Services and state\<close>

record agent_features =
  af_netshield_level :: "u8 option"
  af_randomized_nat :: "bool option"
  af_split_tcp :: "bool option"
  af_port_forwarding :: "bool option"
  af_forwarded_port :: "u16 option"
  af_jail :: "bool option"
  af_bouncing :: "string option"

text \<open>What the Local Agent last reported.\<close>

record agent_snapshot =
  sn_connected :: bool
  sn_hard_jailed :: bool
  sn_reason_code :: "int option"
  sn_reason :: "string option"
  sn_forwarded_port :: "u16 option"
  sn_device_ip :: "string option"
  sn_device_country :: "string option"
  sn_server_ipv4 :: "string option"
  sn_server_ipv6 :: "string option"
  sn_netshield_malware :: "u32 option"
  sn_netshield_ads :: "u32 option"
  sn_netshield_trackers :: "u32 option"

definition agent_snapshot_default :: agent_snapshot where
  "agent_snapshot_default =
     \<lparr>sn_connected = False, sn_hard_jailed = False, sn_reason_code = None, sn_reason = None, sn_forwarded_port = None,
      sn_device_ip = None, sn_device_country = None, sn_server_ipv4 = None, sn_server_ipv6 = None,
      sn_netshield_malware = None, sn_netshield_ads = None, sn_netshield_trackers = None\<rparr>"

type_synonym default_route = "string \<times> string \<times> string"

record 'w services =
  io_installed :: "string \<Rightarrow> bool"
  io_crate :: ipnet_crate
  io_observe :: "('w, tunnel_observation) action"
  io_kill_switch :: "u8 \<Rightarrow> bool \<Rightarrow> string option \<Rightarrow> bool \<Rightarrow> ('w, unit) action"
  io_default_routes :: "('w, default_route list) action"
  io_dns_servers :: "('w, string list) action"
  io_disconnect_uuid :: "string \<Rightarrow> ('w, bool) action"
  io_split_apply :: "bool \<Rightarrow> split_tunneling_config \<Rightarrow> ('w, unit) action"
  io_split_bypass :: "bool \<Rightarrow> default_route list \<Rightarrow> ('w, unit) action"
  io_destination_policy :: "string list \<Rightarrow> ('w, unit) action"
  io_request_features :: "agent_features \<Rightarrow> ('w, unit) action"
  io_save_settings :: "native_settings \<Rightarrow> ('w, unit) action"
  io_clear_statistics :: "('w, unit) action"
  io_flush_statistics :: "('w, unit) action"
  io_alternative_routing :: "bool \<Rightarrow> ('w, unit) action"

record 'w runtime =
  rt_session_restore_pending :: bool
  rt_session :: "session_data option"
  rt_catalog :: "server_catalog option"
  rt_client_config :: "client_config option"
  rt_settings :: native_settings
  rt_selected :: "connection_target option"
  rt_trigger :: string
  rt_location_known :: bool
  rt_local_agent :: bool
  rt_snapshot :: agent_snapshot
  rt_attempt :: u64
  rt_owned_uuid :: "string option"
  rt_split_available :: bool
  rt_policy_available :: bool
  rt_policy_override :: "(bool \<times> bool) option"
  rt_bypass_active :: bool
  rt_world :: 'w

text \<open>A call of a service.\<close>

definition service_call :: "('w, 'a) action \<Rightarrow> ('w runtime, 'a) action" where
  "service_call m s = (case m (rt_world s) of (r, w) \<Rightarrow> (r, s\<lparr>rt_world := w\<rparr>))"

definition require_session :: "('w runtime, session_data \<times> u8) action" where
  "require_session s =
     (if rt_session_restore_pending s
      then afail (may_retry (native_error_new ''keyring_unavailable''
             ''Waiting for the desktop keyring to restore the saved Proton session'')) s
      else case rt_session s of
        None \<Rightarrow> afail (native_error_new ''not_authenticated'' ''Sign in to Proton before using VPN controls'') s
      | Some session \<Rightarrow> aret (session, session_tier session) s)"

definition persist_settings :: "'w services \<Rightarrow> native_settings \<Rightarrow> ('w runtime, unit) action" where
  "persist_settings io settings =
     abind (service_call (io_save_settings io settings)) (\<lambda>_. awrites (\<lambda>s. s\<lparr>rt_settings := settings\<rparr>))"

section \<open>Protection of the network\<close>

definition apply_destination_policy :: "'w services \<Rightarrow> native_settings \<Rightarrow> ('w runtime, unit) action" where
  "apply_destination_policy io settings =
     abind (areads rt_policy_available) (\<lambda>available.
     abind (aguard available (native_error_new ''destination_policy_unavailable''
              ''LAN and local DNS policy require the Proton Omarchy Rust split service'')) (\<lambda>_.
     abind (if ns_allow_local_dns settings
            then abind (service_call (io_dns_servers io)) (\<lambda>servers. alift (destination_ranges settings (Inr servers)))
            else alift (destination_ranges settings (Inr []))) (\<lambda>ranges.
     service_call (io_destination_policy io ranges))))"

definition apply_connection_destination_policy ::
  "'w services \<Rightarrow> native_settings \<Rightarrow> native_settings \<Rightarrow> ('w runtime, unit) action" where
  "apply_connection_destination_policy io global effective =
     (if ns_allow_lan_connections global = ns_allow_lan_connections effective
         \<and> ns_allow_local_dns global = ns_allow_local_dns effective
      then awrites (\<lambda>s. s\<lparr>rt_policy_override := None\<rparr>)
      else abind (apply_destination_policy io effective) (\<lambda>_.
           awrites (\<lambda>s. s\<lparr>rt_policy_override :=
             Some (ns_allow_lan_connections effective, ns_allow_local_dns effective)\<rparr>)))"

definition restore_global_destination_policy :: "'w services \<Rightarrow> ('w runtime, unit) action" where
  "restore_global_destination_policy io =
     abind (areads rt_policy_override) (\<lambda>override.
     if override = None then aret ()
     else abind (areads rt_settings) (\<lambda>global.
          abind (apply_destination_policy io global) (\<lambda>_.
          awrites (\<lambda>s. s\<lparr>rt_policy_override := None\<rparr>))))"

definition reconcile_kill_switch ::
  "'w services \<Rightarrow> u8 \<Rightarrow> bool \<Rightarrow> string option \<Rightarrow> bool \<Rightarrow> ('w runtime, unit) action" where
  "reconcile_kill_switch io mode tunnel_active server_ip leak_protection =
     service_call (io_kill_switch io mode tunnel_active server_ip leak_protection)"

definition bypass_configured :: "native_settings \<Rightarrow> bool" where
  "bypass_configured settings \<longleftrightarrow> ns_killswitch settings \<noteq> 0 \<and> ss_enabled (sf_split_tunneling (ns_features settings))"

definition reconcile_split_kill_switch_bypass ::
  "'w services \<Rightarrow> native_settings \<Rightarrow> bool \<Rightarrow> ('w runtime, unit) action" where
  "reconcile_split_kill_switch_bypass io settings tunnel_active =
     (let on = tunnel_active \<and> bypass_configured settings in
      abind (areads rt_bypass_active) (\<lambda>was_on.
      if \<not> on \<and> \<not> bypass_configured settings \<and> \<not> was_on then aret ()
      else
      abind (if on then service_call (io_default_routes io) else aret []) (\<lambda>routes.
      abind (service_call (io_split_bypass io on routes)) (\<lambda>_.
      awrites (\<lambda>s. s\<lparr>rt_bypass_active := on\<rparr>)))))"

section \<open>Features\<close>

definition requested_features :: "u8 \<Rightarrow> bool \<Rightarrow> bool \<Rightarrow> bool \<Rightarrow> string \<Rightarrow> agent_features" where
  "requested_features netshield moderate_nat vpn_accelerator port_forwarding bouncing =
     \<lparr>af_netshield_level = Some netshield, af_randomized_nat = Some (\<not> moderate_nat), af_split_tcp = Some vpn_accelerator,
      af_port_forwarding = Some port_forwarding, af_forwarded_port = None, af_jail = None,
      af_bouncing = (if bouncing = [] then None else Some bouncing)\<rparr>"

definition connection_agent_features :: "native_settings \<Rightarrow> connection_target \<Rightarrow> agent_features" where
  "connection_agent_features settings target =
     requested_features (sf_netshield (ns_features settings)) (sf_moderate_nat (ns_features settings))
       (sf_vpn_accelerator (ns_features settings)) (sf_port_forwarding (ns_features settings))
       (unwrap_or [] (ps_label (ct_physical target)))"

abbreviation on_features :: "(settings_features \<Rightarrow> settings_features) \<Rightarrow> native_settings \<Rightarrow> native_settings" where
  "on_features f s \<equiv> s\<lparr>ns_features := f (ns_features s)\<rparr>"

abbreviation setting_conflict :: "string \<Rightarrow> native_error" where
  "setting_conflict \<equiv> native_error_new ''setting_conflict''"

abbreviation "netshield_range \<equiv> ''netshield value must be an integer from 0 through 2''"

text \<open>The \<open>match\<close> on the feature's name: the settings it gives.\<close>

definition change_feature :: "json \<Rightarrow> string \<Rightarrow> u8 \<Rightarrow> native_settings \<Rightarrow> native_settings native_res" where
  "change_feature params feature tier s =
     (let flag = bool_feature_value params feature in
      if feature = ''anonymous_crash_reports''
      then Inl (native_error_new ''feature_unavailable'' ''Anonymous crash reports are unavailable in this build'')
      else if feature = ''anonymous_usage_statistics'' then rbind flag (\<lambda>b. Inr (s\<lparr>ns_share_statistics := b\<rparr>))
      else if feature = ''kill_switch''
      then rbind (ok_or (invalid_params ''kill_switch value must be off, standard or advanced'')
                    (Option.bind (vstr params ''value'') kill_switch_value)) (\<lambda>mode. Inr (s\<lparr>ns_killswitch := mode\<rparr>))
      else if feature = ''netshield''
      then rbind (require_paid_feature tier ''NetShield'') (\<lambda>_.
           rbind (ok_or (invalid_params netshield_range) (vu64 params ''value'')) (\<lambda>level.
           if 2 < level then Inl (invalid_params netshield_range)
           else if 0 < level \<and> cu_enabled (ns_custom_dns s)
           then Inl (setting_conflict ''Disable Custom DNS before enabling NetShield'')
           else Inr (on_features (\<lambda>f. f\<lparr>sf_netshield := ucast level\<rparr>) s)))
      else if feature = ''vpn_accelerator''
      then rbind (require_paid_feature tier ''VPN Accelerator'') (\<lambda>_.
           rbind flag (\<lambda>b. Inr (on_features (\<lambda>f. f\<lparr>sf_vpn_accelerator := b\<rparr>) s)))
      else if feature = ''moderate_nat''
      then rbind (require_paid_feature tier ''Moderate NAT'') (\<lambda>_.
           rbind flag (\<lambda>b.
           if b \<and> sf_port_forwarding (ns_features s)
           then Inl (setting_conflict ''Disable port forwarding before enabling Moderate NAT'')
           else Inr (on_features (\<lambda>f. f\<lparr>sf_moderate_nat := b\<rparr>) s)))
      else if feature = ''ipv6'' then rbind flag (\<lambda>b. Inr (s\<lparr>ns_ipv6 := b\<rparr>))
      else if feature = ''ipv6_leak_protection'' then rbind flag (\<lambda>b. Inr (s\<lparr>ns_ipv6_leak_protection := b\<rparr>))
      else if feature = ''alternative_routing'' then rbind flag (\<lambda>b. Inr (s\<lparr>ns_alternative_routing := b\<rparr>))
      else if feature = ''allow_lan_connections'' then rbind flag (\<lambda>b. Inr (s\<lparr>ns_allow_lan_connections := b\<rparr>))
      else if feature = ''allow_local_dns'' then rbind flag (\<lambda>b. Inr (s\<lparr>ns_allow_local_dns := b\<rparr>))
      else if feature = ''port_forwarding''
      then rbind (require_paid_feature tier ''Port forwarding'') (\<lambda>_.
           rbind flag (\<lambda>b.
           if b \<and> sf_moderate_nat (ns_features s)
           then Inl (setting_conflict ''Moderate NAT and port forwarding cannot be enabled together'')
           else Inr (on_features (\<lambda>f. f\<lparr>sf_port_forwarding := b\<rparr>) s)))
      else Inl (invalid_params ''Unknown feature''))"

abbreviation local_only :: "string \<Rightarrow> bool" where
  "local_only feature \<equiv>
     feature \<in> set [''anonymous_usage_statistics'', ''alternative_routing'', ''allow_lan_connections'', ''allow_local_dns'']"

abbreviation agent_feature :: "string \<Rightarrow> bool" where
  "agent_feature feature \<equiv> feature \<in> set [''netshield'', ''vpn_accelerator'', ''port_forwarding'', ''moderate_nat'']"

abbreviation policy_feature :: "string \<Rightarrow> bool" where
  "policy_feature feature \<equiv> feature \<in> set [''allow_lan_connections'', ''allow_local_dns'']"

text \<open>The protection of the previous settings is put back as far as it can be.\<close>

definition restore_protection ::
  "'w services \<Rightarrow> native_settings \<Rightarrow> bool \<Rightarrow> string option \<Rightarrow> ('w runtime, unit) action" where
  "restore_protection io previous active server_ip =
     abind (aignore (reconcile_kill_switch io (ns_killswitch previous) active server_ip (ns_ipv6_leak_protection previous))) (\<lambda>_.
     aignore (reconcile_split_kill_switch_bypass io previous active))"

definition apply_kill_switch ::
  "'w services \<Rightarrow> native_settings \<Rightarrow> native_settings \<Rightarrow> bool \<Rightarrow> string option \<Rightarrow> ('w runtime, unit) action" where
  "apply_kill_switch io previous settings active server_ip =
     abind (if ns_killswitch settings = 0 \<and> ns_killswitch previous \<noteq> 0
            then abind (reconcile_split_kill_switch_bypass io previous False) (\<lambda>_.
                 reconcile_kill_switch io (ns_killswitch previous) False server_ip (ns_ipv6_leak_protection previous))
            else aret ()) (\<lambda>_.
     arescue
       (abind (reconcile_kill_switch io (ns_killswitch settings) active server_ip (ns_ipv6_leak_protection settings)) (\<lambda>_.
        reconcile_split_kill_switch_bypass io settings active))
       (\<lambda>e. abind (restore_protection io previous active server_ip) (\<lambda>_. afail e)))"

definition apply_leak_protection ::
  "'w services \<Rightarrow> native_settings \<Rightarrow> native_settings \<Rightarrow> bool \<Rightarrow> string option \<Rightarrow> ('w runtime, unit) action" where
  "apply_leak_protection io previous settings active server_ip =
     arescue
       (reconcile_kill_switch io (ns_killswitch settings) active server_ip (ns_ipv6_leak_protection settings))
       (\<lambda>e. abind (restore_protection io previous active server_ip) (\<lambda>_. afail e))"

definition apply_agent_feature :: "'w services \<Rightarrow> native_settings \<Rightarrow> ('w runtime, unit) action" where
  "apply_agent_feature io settings =
     abind (areads rt_selected) (\<lambda>selected.
     abind (alift (ok_or (native_error_new ''connection_state_unknown''
              ''The active Proton server could not be identified'') selected)) (\<lambda>target.
     abind (areads rt_local_agent) (\<lambda>agent.
     abind (aguard agent (native_error_new ''connection_not_owned''
              ''Reconnect with the native backend before changing live connection features'')) (\<lambda>_.
     service_call (io_request_features io (connection_agent_features settings target))))))"

text \<open>The change of the running system, before the settings are saved: whether it took effect at once.\<close>

definition apply_feature ::
  "'w services \<Rightarrow> string \<Rightarrow> native_settings \<Rightarrow> native_settings \<Rightarrow> bool \<Rightarrow> string option \<Rightarrow> ('w runtime, bool) action" where
  "apply_feature io feature previous settings active server_ip =
     (if feature = ''kill_switch''
      then abind (apply_kill_switch io previous settings active server_ip) (\<lambda>_. aret (active \<or> ns_killswitch settings = 2))
      else if feature = ''ipv6_leak_protection''
      then abind (apply_leak_protection io previous settings active server_ip) (\<lambda>_. aret (active \<or> ns_killswitch settings = 2))
      else if active \<and> agent_feature feature then abind (apply_agent_feature io settings) (\<lambda>_. aret True)
      else if policy_feature feature
      then abind (areads rt_policy_override) (\<lambda>override.
           if override = None then abind (apply_destination_policy io settings) (\<lambda>_. aret True) else aret False)
      else aret False)"

text \<open>What is undone when the settings cannot be saved.\<close>

definition undo_feature ::
  "'w services \<Rightarrow> string \<Rightarrow> native_settings \<Rightarrow> bool \<Rightarrow> bool \<Rightarrow> string option \<Rightarrow> ('w runtime, unit) action" where
  "undo_feature io feature previous active live server_ip =
     (if feature = ''kill_switch'' \<or> feature = ''ipv6_leak_protection''
      then restore_protection io previous active server_ip
      else if policy_feature feature \<and> live then aignore (apply_destination_policy io previous)
      else if live
      then abind (areads (\<lambda>s. (rt_selected s, rt_local_agent s))) (\<lambda>(selected, agent).
           case selected of
             Some target \<Rightarrow>
               if agent then aignore (service_call (io_request_features io (connection_agent_features previous target)))
               else aret ()
           | None \<Rightarrow> aret ())
      else aret ())"

definition finish_feature :: "'w services \<Rightarrow> string \<Rightarrow> native_settings \<Rightarrow> ('w runtime, unit) action" where
  "finish_feature io feature settings =
     (if feature = ''anonymous_usage_statistics''
      then if ns_share_statistics settings then aignore (service_call (io_flush_statistics io)) else service_call (io_clear_statistics io)
      else if feature = ''alternative_routing'' then aignore (service_call (io_alternative_routing io (ns_alternative_routing settings)))
      else aret ())"

definition commit_feature ::
  "'w services \<Rightarrow> string \<Rightarrow> native_settings \<Rightarrow> native_settings \<Rightarrow> bool \<Rightarrow> bool \<Rightarrow> string option \<Rightarrow> ('w runtime, json) action" where
  "commit_feature io feature previous settings active live server_ip =
     abind (arescue (persist_settings io settings) (\<lambda>e.
              abind (undo_feature io feature previous active live server_ip) (\<lambda>_. afail e))) (\<lambda>_.
     abind (finish_feature io feature settings) (\<lambda>_.
     aret (jobj [(''applied'', JBool True), (''applied_live'', JBool live),
             (''reconnect_required'', JBool (feature = ''ipv6'' \<and> active))])))"

definition requested_feature :: "json \<Rightarrow> string" where
  "requested_feature params = to_ascii_lowercase (trim (unwrap_or [] (vstr params ''feature'')))"

definition feature_set :: "'w services \<Rightarrow> json \<Rightarrow> ('w runtime, json) action" where
  "feature_set io params =
     (let feature = requested_feature params in
      abind (areads (\<lambda>s. map_option session_tier (rt_session s))) (\<lambda>tier.
      abind (aguard (tier \<noteq> None \<or> feature = ''kill_switch'' \<or> feature = ''alternative_routing'')
               (native_error_new ''not_authenticated'' ''Sign in to Proton VPN first'')) (\<lambda>_.
      abind (aguard (feature \<noteq> ''split_tunneling'') (native_error_new ''invalid_method''
               ''Use split_tunneling.set so app lists and mode stay atomic'')) (\<lambda>_.
      abind (aguard (feature \<noteq> ''secure_core'') (native_error_new ''invalid_method''
               ''Secure Core is connection-derived; use connection.connect'')) (\<lambda>_.
      abind (areads rt_settings) (\<lambda>previous.
      abind (alift (change_feature params feature (unwrap_or 0 tier) previous)) (\<lambda>settings.
      abind (service_call (io_observe io)) (\<lambda>observation.
      let active = to_state observation = Connected in
      abind (aguard (\<not> active \<or> to_owned observation \<or> local_only feature) (native_error_new ''connection_not_owned''
               ''Reconnect with the native backend before changing live connection features'')) (\<lambda>_.
      abind (areads rt_selected) (\<lambda>selected.
      let server_ip = (if active then map_option (ps_entry_ip \<circ> ct_physical) selected else None) in
      abind (apply_feature io feature previous settings active server_ip) (\<lambda>live.
      commit_feature io feature previous settings active live server_ip)))))))))))"

section \<open>Protocol, DNS and split tunneling\<close>

definition protocol_set :: "'w services \<Rightarrow> json \<Rightarrow> ('w runtime, json) action" where
  "protocol_set io params =
     abind require_session (\<lambda>_.
     abind (alift (ok_or (invalid_params ''protocol value is required'')
              (opt_filter (\<lambda>v. v \<noteq> []) (map_option normalized_protocol (vstr params ''value''))))) (\<lambda>value.
     abind (aguard (available_protocol (io_installed io) value) (protocol_unavailable value)) (\<lambda>_.
     abind (service_call (io_observe io)) (\<lambda>observation.
     abind (aguard (to_state observation = Disconnected) (native_error_new ''connection_active''
              ''VPN protocol can only be changed while disconnected'')) (\<lambda>_.
     abind (areads rt_settings) (\<lambda>settings.
     abind (persist_settings io (settings\<lparr>ns_protocol := value\<rparr>)) (\<lambda>_.
     aret (jobj [(''applied'', JBool True), (''protocol'', JStr value)]))))))))"

abbreviation "dns_limit \<equiv> ''servers must be an array with at most 16 IP addresses''"

definition dns_set :: "'w services \<Rightarrow> json \<Rightarrow> ('w runtime, json) action" where
  "dns_set io params =
     abind require_session (\<lambda>_.
     abind (alift (ok_or (invalid_params ''enabled must be a boolean'') (vbool params ''enabled''))) (\<lambda>on.
     abind (alift (ok_or (invalid_params dns_limit) (varr params ''servers''))) (\<lambda>servers.
     abind (aguard (length servers \<le> 16) (invalid_params dns_limit)) (\<lambda>_.
     abind (alift (dns_addresses (invalid_params ''DNS servers must be strings'')
              (invalid_dns ''Invalid custom DNS IP'') [] servers)) (\<lambda>ips.
     abind (aguard (\<not> (on \<and> ips = [])) (invalid_dns
              ''At least one valid DNS IP is required when custom DNS is enabled'')) (\<lambda>_.
     abind (areads rt_settings) (\<lambda>settings.
     abind (persist_settings io (settings\<lparr>ns_custom_dns := (ns_custom_dns settings)\<lparr>cu_enabled := on,
              cu_ip_list := map dns_entry ips\<rparr>\<rparr>)) (\<lambda>_.
     aret (jobj [(''applied'', JBool True), (''enabled'', JBool on), (''servers'', JArr (map JStr ips))])))))))))"

definition split_mode_of :: "string \<Rightarrow> string native_res" where
  "split_mode_of mode_name =
     (if mode_name = ''standard'' then Inr ''exclude''
      else if mode_name = ''inverse'' then Inr ''include''
      else Inl (invalid_params ''mode must be standard or inverse''))"

definition rollback_split :: "'w services \<Rightarrow> native_settings \<Rightarrow> ('w runtime, unit) action" where
  "rollback_split io previous =
     (let rollback = sf_split_tunneling (ns_features previous) in
      aignore (service_call (io_split_apply io (ss_enabled rollback) (split_settings_config rollback (ss_mode rollback)))))"

definition with_split_rules ::
  "native_settings \<Rightarrow> bool \<Rightarrow> string \<Rightarrow> split_tunneling_config \<Rightarrow> split_tunneling_config \<Rightarrow> native_settings" where
  "with_split_rules s on mode standard_config inverse_config =
     on_features (\<lambda>f. f\<lparr>sf_split_tunneling := (sf_split_tunneling f)\<lparr>ss_enabled := on, ss_mode := mode,
       ss_config_by_mode := obj_insert ''include'' inverse_config
         (obj_insert ''exclude'' standard_config (ss_config_by_mode (sf_split_tunneling f)))\<rparr>\<rparr>) s"

definition commit_split ::
  "'w services \<Rightarrow> native_settings \<Rightarrow> native_settings \<Rightarrow> bool \<Rightarrow> bool \<Rightarrow> string \<Rightarrow> ('w runtime, json) action" where
  "commit_split io previous settings tunnel_active on mode_name =
     abind (arescue (persist_settings io settings)
              (\<lambda>e. abind (abind (aignore (reconcile_split_kill_switch_bypass io settings False)) (\<lambda>_.
                          abind (rollback_split io previous) (\<lambda>_.
                          aignore (reconcile_split_kill_switch_bypass io previous tunnel_active)))) (\<lambda>_. afail e))) (\<lambda>_.
     abind (areads rt_policy_available) (\<lambda>policy_available.
     aret (jobj [(''applied'', JBool True), (''enabled'', JBool on), (''mode'', JStr mode_name),
             (''app_paths_supported'', JBool True), (''ip_ranges_supported'', JBool policy_available)])))"

definition split_tunneling_set :: "'w services \<Rightarrow> json \<Rightarrow> ('w runtime, json) action" where
  "split_tunneling_set io params =
     abind require_session (\<lambda>_.
     abind (areads rt_split_available) (\<lambda>available.
     abind (aguard available (native_error_new ''split_tunneling_unavailable''
              ''Proton split tunneling service is unavailable on this system'')) (\<lambda>_.
     abind (alift (ok_or (invalid_params ''enabled must be a boolean'') (vbool params ''enabled''))) (\<lambda>on.
     let mode0 = to_ascii_lowercase (trim (unwrap_or ''standard'' (vstr params ''mode'')));
         mode_name = (if mode0 = ''off'' \<and> \<not> on then ''standard'' else mode0) in
     abind (alift (split_mode_of mode_name)) (\<lambda>mode.
     abind (areads rt_settings) (\<lambda>previous.
     let config = split_settings_config (sf_split_tunneling (ns_features previous)) in
     abind (alift (split_request_config (io_crate io) params ''standard'' ''exclude'' (config ''exclude''))) (\<lambda>standard_config.
     abind (alift (split_request_config (io_crate io) params ''inverse'' ''include'' (config ''include''))) (\<lambda>inverse_config.
     let active = (if mode = ''include'' then inverse_config else standard_config) in
     abind (aguard (\<not> (on \<and> sc_app_paths active = [] \<and> sc_ip_ranges active = []))
              (native_error_new ''split_tunneling_empty_selection''
                 ''The active Split Tunneling mode requires at least one application or IP range'')) (\<lambda>_.
     let settings = with_split_rules previous on mode standard_config inverse_config in
     abind (service_call (io_observe io)) (\<lambda>observation.
     let tunnel_active = to_state observation = Connected in
     abind (aguard (\<not> tunnel_active \<or> to_owned observation) (native_error_new ''connection_not_owned''
              ''Reconnect with the native backend before changing Split Tunneling'')) (\<lambda>_.
     abind (if tunnel_active \<and> bypass_configured previous
            then reconcile_split_kill_switch_bypass io previous False else aret ()) (\<lambda>_.
     abind (arescue (service_call (io_split_apply io on (split_settings_config (sf_split_tunneling (ns_features settings)) mode)))
              (\<lambda>e. abind (aignore (reconcile_split_kill_switch_bypass io previous tunnel_active)) (\<lambda>_. afail e))) (\<lambda>_.
     abind (arescue (reconcile_split_kill_switch_bypass io settings tunnel_active)
              (\<lambda>e. abind (rollback_split io previous) (\<lambda>_.
                   abind (aignore (reconcile_split_kill_switch_bypass io previous tunnel_active)) (\<lambda>_. afail e)))) (\<lambda>_.
     commit_split io previous settings tunnel_active on mode_name))))))))))))))"

section \<open>Showing the connection\<close>

text \<open>What \<open>emit_connection\<close> does to the state: a tunnel whose server is not known is looked up in the catalog by its name
  and endpoint, and the selection is forgotten when nothing is connected.\<close>

definition strip_prefix :: "string \<Rightarrow> string \<Rightarrow> string option" where
  "strip_prefix p s = (if take (length p) s = p then Some (drop (length p) s) else None)"

definition guess_target :: "server_catalog \<Rightarrow> tunnel_observation \<Rightarrow> connection_target option" where
  "guess_target catalog observation =
     Option.bind (to_id observation) (\<lambda>i.
     Option.bind (find (\<lambda>l. eq_ignore_ascii_case (lg_name l) (unwrap_or i (strip_prefix ''ProtonVPN '' i)))
                    (sv_logical_servers catalog)) (\<lambda>logical.
     let known = Option.bind (to_endpoint observation) (\<lambda>e.
                   find (\<lambda>p. ps_entry_ip p = e \<and> ps_status p = 1) (lg_servers logical)) in
     map_option (\<lambda>p. \<lparr>ct_logical = logical, ct_physical = p\<rparr>)
       (if known \<noteq> None then known else find (\<lambda>p. ps_status p = 1) (lg_servers logical))))"

definition emit_connection :: "tunnel_observation \<Rightarrow> 'w runtime \<Rightarrow> 'w runtime" where
  "emit_connection observation s =
     s\<lparr>rt_selected :=
       if to_state observation = Disconnected then None
       else if rt_selected s = None then Option.bind (rt_catalog s) (\<lambda>c. guess_target c observation)
       else rt_selected s\<rparr>"

section \<open>Disconnecting\<close>

definition stop_local_agent :: "('w runtime, unit) action" where
  "stop_local_agent = awrites (\<lambda>s. s\<lparr>rt_local_agent := False, rt_snapshot := agent_snapshot_default\<rparr>)"

text \<open>The part of \<open>disconnect_owned_inner\<close> that takes the tunnel down.\<close>

definition take_down :: "'w services \<Rightarrow> native_settings \<Rightarrow> string option \<Rightarrow> string \<Rightarrow> ('w runtime, unit) action" where
  "take_down io settings server_ip uuid =
     abind stop_local_agent (\<lambda>_.
     abind (service_call (io_disconnect_uuid io uuid)) (\<lambda>_.
     abind (service_call (io_kill_switch io (ns_killswitch settings) False server_ip (ns_ipv6_leak_protection settings))) (\<lambda>_.
     abind (awrites (\<lambda>s. s\<lparr>rt_owned_uuid := None, rt_selected := None\<rparr>)) (\<lambda>_.
     abind (service_call (io_observe io)) (\<lambda>observation.
     awrites (emit_connection observation))))))"

definition disconnect_owned_inner :: "'w services \<Rightarrow> string \<Rightarrow> ('w runtime, unit) action" where
  "disconnect_owned_inner io uuid =
     abind (areads (\<lambda>s. (rt_settings s, map_option (ps_entry_ip \<circ> ct_physical) (rt_selected s)))) (\<lambda>(settings, server_ip).
     abind (reconcile_split_kill_switch_bypass io settings False) (\<lambda>_.
     abind (restore_global_destination_policy io) (\<lambda>_.
     take_down io settings server_ip uuid)))"

definition connection_disconnect :: "'w services \<Rightarrow> ('w runtime, json) action" where
  "connection_disconnect io =
     abind (awrites (\<lambda>s. s\<lparr>rt_attempt := rt_attempt s + 1\<rparr>)) (\<lambda>_.
     abind (areads rt_owned_uuid) (\<lambda>owned.
     abind (alift (ok_or (native_error_new ''connection_not_owned''
              ''The active VPN connection belongs to another Proton client'') owned)) (\<lambda>uuid.
     abind (disconnect_owned_inner io uuid) (\<lambda>_.
     aret (jobj [(''accepted'', JBool True)])))))"

definition replacement_connection_uuid :: "tunnel_observation \<Rightarrow> string option \<Rightarrow> string option native_res" where
  "replacement_connection_uuid observation owned_uuid =
     (if to_state observation = Disconnected then Inr None
      else case (to_owned observation, to_uuid observation, owned_uuid) of
        (True, Some active_uuid, Some known_uuid) \<Rightarrow>
          if active_uuid = known_uuid then Inr (Some active_uuid)
          else Inl (native_error_new ''connection_active''
                 ''The active VPN connection belongs to another client and cannot be replaced'')
      | _ \<Rightarrow> Inl (native_error_new ''connection_active''
                 ''The active VPN connection belongs to another client and cannot be replaced''))"

end
