(* ===== verification/Backend_Settings_Laws.thy ===== *)
theory Backend_Settings_Laws
  imports Backend_Settings
begin

text \<open>
  Properties of the backend's settings: the settings of a connection are consistent, the split-tunneling rules the agent
  accepts are accepted by the daemon, and the ranges for the local network spare the tunnel's gateway.
\<close>


section \<open>Consistent settings\<close>

definition settings_ok :: "native_settings \<Rightarrow> bool" where
  "settings_ok s \<longleftrightarrow>
     ns_killswitch s \<le> 2 \<and> sf_netshield (ns_features s) \<le> 2
     \<and> \<not> (sf_moderate_nat (ns_features s) \<and> sf_port_forwarding (ns_features s))
     \<and> \<not> (0 < sf_netshield (ns_features s) \<and> cu_enabled (ns_custom_dns s))"

lemma settings_ok_default: "settings_ok native_settings_default"
  by (simp add: settings_ok_def native_settings_default_def settings_features_default_def custom_dns_default_def)

lemma settings_ok_migrate: "settings_ok s \<Longrightarrow> settings_ok (snd (migrate_legacy_privacy_defaults s))"
  by (simp add: settings_ok_def migrate_legacy_privacy_defaults_def)

lemma ucast_le_two: "(k :: u64) \<le> 2 \<Longrightarrow> (ucast k :: u8) \<le> 2"
  by (simp add: word_le_nat_alt unsigned_ucast_eq) (meson le_trans take_bit_nat_less_eq_self)

lemma profile_netshield_level_le: "profile_netshield_level m = Inr n \<Longrightarrow> n \<le> 2"
  by (auto simp: profile_netshield_level_def rbind_Inr ok_or_def opt_filter_def ucast_le_two split: option.splits if_splits)

lemma effective_cases:
  assumes "effective_connection_settings installed params global tier = Inr (s, protocol, from_profile)"
  obtains (global) "s = global" "\<not> from_profile" "available_protocol installed protocol"
  | (profile) shield level mnat forward dns lan ldns where
      "from_profile" "available_protocol installed protocol" "level \<le> 2"
      "check_profile tier shield mnat forward dns = Inr ()"
      "s = merge_profile global protocol shield level mnat forward dns lan ldns"
proof (cases "vget params ''profile_settings''")
  case None
  with assms global show thesis by (auto simp: effective_connection_settings_def Let_def split: if_splits)
next
  case (Some raw)
  with assms profile show thesis
    by (auto simp: effective_connection_settings_def rbind_Inr Let_def dest: profile_netshield_level_le split: if_splits)
qed

lemma merge_profile_ok:
  assumes "settings_ok global" "check_profile tier shield mnat forward dns = Inr ()" "level \<le> 2"
  shows "settings_ok (merge_profile global protocol shield level mnat forward dns lan ldns)"
  using assms by (auto simp: settings_ok_def check_profile_def merge_profile_def split: if_splits option.splits)



section \<open>Rules the daemon accepts\<close>

definition daemon_config :: "split_tunneling_config \<Rightarrow> split_config" where
  "daemon_config c =
     \<lparr>sp_mode = (if sc_mode c = ''include'' then ModeInclude else ModeExclude),
      sp_app_paths = sc_app_paths c, sp_ip_ranges = sc_ip_ranges c\<rparr>"

definition requested_ranges :: "json \<Rightarrow> string \<Rightarrow> split_tunneling_config \<Rightarrow> string set" where
  "requested_ranges params request_name previous =
     {trim s | s ranges. JStr s \<in> set ranges \<and>
        as_array (unwrap_or (JArr (map JStr (sc_ip_ranges previous)))
           (Option.bind (vget params request_name) (\<lambda>v. Option.bind (as_object v) (\<lambda>m. obj_get m ''ip_ranges'')))) = Some ranges}"

lemma split_app_paths_Cons:
  assumes "split_app_paths seen (v # vs) = Inr ps"
  obtains (skip) "split_app_paths seen vs = Inr ps"
  | (keep) p ps' where "split_app_paths (p # seen) vs = Inr ps'" "ps = p # ps'" "p \<notin> set seen" "p \<noteq> []" "trim p = p"
      "\<not> bad_value p"
  using assms
  by (auto simp: rbind_Inr Let_def ok_or_def bad_value_def MAX_PATH_BYTES_def MAX_SPLIT_APP_PATH_BYTES_def
      split: if_splits option.splits)

lemma split_app_paths_ok:
  "split_app_paths seen vs = Inr ps \<Longrightarrow>
     length ps \<le> length vs \<and> distinct ps \<and> set ps \<inter> set seen = {}
     \<and> (\<forall>p \<in> set ps. p \<noteq> [] \<and> trim p = p \<and> \<not> bad_value p)"
proof (induction vs arbitrary: seen ps)
  case (Cons v vs)
  from Cons.prems show ?case
  proof (cases rule: split_app_paths_Cons)
    case skip
    then show ?thesis using Cons.IH [OF skip] by simp
  next
    case (keep p ps')
    then show ?thesis using Cons.IH [OF keep(1)] by auto
  qed
qed simp

lemma split_network_canonical:
  assumes "split_network cr r = Inr n" "trim r = r" "canonical_range cr r"
  shows "canonical_ip_range cr n = Inr n \<and> trim n = n \<and> n \<noteq> [] \<and> \<not> bad_value n"
proof (rule canonical_range_fixed [OF assms(3)])
  show "canonical_ip_range cr r = Inr n"
    using assms(1,2) by (auto simp: split_network_def canonical_ip_range_def parse_ip_range_def Let_def split: option.splits)
qed

lemma split_ip_ranges_Cons:
  assumes "split_ip_ranges cr seen (v # vs) = Inr rs"
  obtains (skip) "split_ip_ranges cr seen vs = Inr rs"
  | (keep) s n rs' where "split_ip_ranges cr (n # seen) vs = Inr rs'" "rs = n # rs'" "n \<notin> set seen"
      "v = JStr s" "split_network cr (trim s) = Inr n"
  using assms by (auto simp: rbind_Inr Let_def ok_or_def as_str_Some split: if_splits option.splits)

lemma split_ip_ranges_ok:
  "split_ip_ranges cr seen vs = Inr rs \<Longrightarrow> \<forall>s. JStr s \<in> set vs \<longrightarrow> canonical_range cr (trim s) \<Longrightarrow>
     length rs \<le> length vs \<and> distinct rs \<and> set rs \<inter> set seen = {}
     \<and> (\<forall>r \<in> set rs. canonical_ip_range cr r = Inr r \<and> trim r = r \<and> r \<noteq> [] \<and> \<not> bad_value r)"
proof (induction vs arbitrary: seen rs)
  case (Cons v vs)
  from Cons.prems(1) show ?case
  proof (cases rule: split_ip_ranges_Cons)
    case skip
    then show ?thesis using Cons.IH [OF skip] Cons.prems(2) by simp
  next
    case (keep s n rs')
    then show ?thesis
      using Cons.IH [OF keep(1)] split_network_canonical [OF keep(5) trim_idem] Cons.prems(2) by auto
  qed
qed simp

text \<open>C38. Split-tunneling rules the agent accepts are accepted by the daemon, and unchanged: the agent's normalisation of
  paths and ranges is stricter than the validation of \<^verbatim>\<open>splitd\<close>. The hypothesis says that the \<open>ipnet\<close> crate prints a
  range so that it is read back.\<close>

theorem accepted_rules_pass_the_daemon:
  assumes "split_request_config cr params request_name mode previous = Inr c"
    and "\<forall>r \<in> requested_ranges params request_name previous. canonical_range cr r"
  shows "config_validate cr (daemon_config c) = Inr (daemon_config c) \<and> sc_mode c = mode"
proof -
  from assms(1) obtain m apps ranges where m: "as_object (unwrap_or (JObj []) (vget params request_name)) = Some m"
    and apps: "length apps \<le> MAX_SPLIT_APPS" "split_app_paths [] apps = Inr (sc_app_paths c)"
    and ranges: "as_array (unwrap_or (JArr (map JStr (sc_ip_ranges previous))) (obj_get m ''ip_ranges'')) = Some ranges"
      "length ranges \<le> MAX_SPLIT_IP_RANGES" "split_ip_ranges cr [] ranges = Inr (sc_ip_ranges c)"
    and mode: "sc_mode c = mode"
    by (auto simp: split_request_config_def rbind_Inr ok_or_def not_less split: option.splits if_splits)
  have m': "Option.bind (vget params request_name) (\<lambda>v. Option.bind (as_object v) (\<lambda>m. obj_get m ''ip_ranges'')) = obj_get m ''ip_ranges''"
    using m by (auto simp: unwrap_or_def split: option.splits)
  have "\<forall>s. JStr s \<in> set ranges \<longrightarrow> canonical_range cr (trim s)"
    using assms(2) ranges(1) by (force simp: requested_ranges_def m')
  note ip = split_ip_ranges_ok [OF ranges(3) this]
  note paths = split_app_paths_ok [OF apps(2)]
  have valid: "validate_ip_ranges cr (sc_ip_ranges c) = Inr (sc_ip_ranges c)"
    using ip ranges(2) by (intro validate_ranges_fixed) (simp_all add: MAX_IP_RANGES_def MAX_SPLIT_IP_RANGES_def)
  have "normalize_values (sc_app_paths c) = sc_app_paths c"
    using paths by (intro normalize_idem) auto
  then show ?thesis
    using ip paths apps(1) ranges(2) valid mode
    by (auto simp: config_validate_def daemon_config_def MAX_PATHS_def MAX_IP_RANGES_def MAX_SPLIT_APPS_def MAX_SPLIT_IP_RANGES_def)
qed

definition demo_rules_request :: json where
  "demo_rules_request =
     jobj [(''standard'', jobj [(''app_paths'', JArr [JStr '' /usr/bin/firefox'', JStr ''/usr/bin/firefox'']),
        (''ip_ranges'', JArr [JStr ''192.0.2.42/24'', JStr []])])]"

theorem accepted_rules_pass_the_daemon_witness:
  "config_validate sample_crate
     \<lparr>sp_mode = ModeExclude, sp_app_paths = [''/usr/bin/firefox''], sp_ip_ranges = [''192.0.2.0/24'']\<rparr>
   = Inr \<lparr>sp_mode = ModeExclude, sp_app_paths = [''/usr/bin/firefox''], sp_ip_ranges = [''192.0.2.0/24'']\<rparr>"
proof -
  have accepted: "split_request_config sample_crate demo_rules_request ''standard'' ''exclude'' (split_config_new ''exclude'')
      = Inr \<lparr>sc_mode = ''exclude'', sc_app_paths = [''/usr/bin/firefox''], sc_ip_ranges = [''192.0.2.0/24''], sc_extra = []\<rparr>"
    by code_simp
  have "canonical_range sample_crate ''192.0.2.42/24''" "canonical_range sample_crate []" by code_simp+
  moreover have "trim ''192.0.2.42/24'' = ''192.0.2.42/24''" by code_simp
  ultimately have "\<forall>r \<in> requested_ranges demo_rules_request ''standard'' (split_config_new ''exclude''). canonical_range sample_crate r"
    by (auto simp: requested_ranges_def demo_rules_request_def vget_def jobj_def obj_get_of unwrap_or_def)
  from accepted_rules_pass_the_daemon [OF accepted this] show ?thesis by (simp add: daemon_config_def)
qed



section \<open>The local network without the gateway\<close>

text \<open>An IPv4 address as a number, and the blocks of a list of ranges.\<close>

definition v4_value :: "nat list \<Rightarrow> nat" where
  "v4_value bs = foldl (\<lambda>n b. n * 256 + b) 0 bs"

definition v4_range :: "string \<Rightarrow> (nat \<times> nat) option" where
  "v4_range r =
     (case split_on (CHR ''/'') r of
        [a, p] \<Rightarrow> (case parse_ip a of Some (V4 bs) \<Rightarrow> Some (v4_value bs, undigits 8 p) | _ \<Rightarrow> None)
      | _ \<Rightarrow> None)"

definition in_v4_range :: "nat \<Rightarrow> string \<Rightarrow> bool" where
  "in_v4_range a r \<longleftrightarrow>
     (case v4_range r of None \<Rightarrow> False | Some (base, len) \<Rightarrow> a div 2 ^ (32 - len) = base div 2 ^ (32 - len))"

lemma bex_map_filter: "(\<exists>y \<in> set (List.map_filter f xs). P y) \<longleftrightarrow> (\<exists>x \<in> set xs. \<exists>y. f x = Some y \<and> P y)"
  by (force simp: List.map_filter_def)

lemma in_v4_range_iff: "in_v4_range a r \<longleftrightarrow> (\<exists>y. v4_range r = Some y \<and> a div 2 ^ (32 - snd y) = fst y div 2 ^ (32 - snd y))"
  by (auto simp: in_v4_range_def split: option.splits)

lemma in_lan_ranges:
  "(\<exists>r \<in> set LAN_BYPASS_RANGES. in_v4_range a r) \<longleftrightarrow>
     (\<exists>y \<in> set (List.map_filter v4_range LAN_BYPASS_RANGES). a div 2 ^ (32 - snd y) = fst y div 2 ^ (32 - snd y))"
  unfolding bex_map_filter in_v4_range_iff ..

text \<open>A block of addresses is split into its halves until one of them is a single address.\<close>

fun siblings :: "nat \<Rightarrow> nat \<Rightarrow> (nat \<times> nat) list" where
  "siblings 0 g = []"
| "siblings (Suc k) g = (k, let c = g div 2 ^ k in if even c then c + 1 else c - 1) # siblings k g"

lemma half_block: "(a :: nat) div 2 ^ Suc k = c \<longleftrightarrow> a div 2 ^ k = 2 * c \<or> a div 2 ^ k = 2 * c + 1"
proof -
  have "a div 2 ^ Suc k = a div 2 ^ k div 2" by (metis div_mult2_eq power_Suc2)
  then show ?thesis by auto
qed

lemma sibling_block:
  "(a :: nat) div 2 ^ Suc k = g div 2 ^ Suc k \<longleftrightarrow>
     a div 2 ^ k = g div 2 ^ k \<or> a div 2 ^ k = (let c = g div 2 ^ k in if even c then c + 1 else c - 1)"
proof -
  have g: "g div 2 ^ Suc k = g div 2 ^ k div 2" by (metis div_mult2_eq power_Suc2)
  show ?thesis
    unfolding g half_block [of a k "g div 2 ^ k div 2"] by (auto simp: Let_def elim!: evenE oddE)
qed

lemma sibling_other: "(let c = g div 2 ^ k in if even c then c + 1 else c - 1) \<noteq> (g :: nat) div 2 ^ k"
  by (auto simp: Let_def elim: oddE)

lemma siblings_cover:
  "(\<exists>(k, c) \<in> set (siblings n g). a div 2 ^ k = c) \<longleftrightarrow> a div 2 ^ n = g div 2 ^ n \<and> a \<noteq> g"
proof (induction n)
  case (Suc k)
  then show ?case
    using sibling_block [of a k g] sibling_other [of g k] by auto
qed simp

lemma lan_siblings:
  "set (List.map_filter v4_range LAN_BYPASS_RANGES) =
     (\<lambda>(k, c). (c * 2 ^ k, 32 - k)) ` set (siblings 24 (v4_value [10, 2, 0, 1]))
     \<union> {(v4_value [172, 16, 0, 0], 12), (v4_value [192, 168, 0, 0], 16), (v4_value [169, 254, 0, 0], 16)}"
  by code_simp


lemma siblings_depth: "(k, c) \<in> set (siblings n g) \<Longrightarrow> k < n"
  by (induction n) auto

text \<open>The ranges that let the local network bypass the tunnel are the private IPv4 blocks without the tunnel's gateway: an
  address is in one of them exactly when it is in 10.0.0.0/8 and not 10.2.0.1, in 172.16.0.0/12, in 192.168.0.0/16 or
  in 169.254.0.0/16.\<close>

theorem lan_bypass_spares_only_the_gateway:
  "(\<exists>r \<in> set LAN_BYPASS_RANGES. in_v4_range a r) \<longleftrightarrow>
     a div 2 ^ 24 = 10 \<and> a \<noteq> v4_value [10, 2, 0, 1]
     \<or> a div 2 ^ 20 = 172 * 16 + 1 \<or> a div 2 ^ 16 = 192 * 256 + 168 \<or> a div 2 ^ 16 = 169 * 256 + 254"
proof -
  let ?g = "v4_value [10, 2, 0, 1]"
  let ?in = "\<lambda>y. a div 2 ^ (32 - snd y) = fst y div 2 ^ (32 - snd y)"
  have ten: "(\<exists>y \<in> (\<lambda>(k, c). (c * 2 ^ k, 32 - k)) ` set (siblings 24 ?g). ?in y) \<longleftrightarrow> a div 2 ^ 24 = 10 \<and> a \<noteq> ?g"
  proof -
    have "?in ((\<lambda>(k, c). (c * 2 ^ k, 32 - k)) (k, c)) \<longleftrightarrow> a div 2 ^ k = c" if "(k, c) \<in> set (siblings 24 ?g)" for k c
      using siblings_depth [OF that] by simp
    then have "(\<exists>y \<in> (\<lambda>(k, c). (c * 2 ^ k, 32 - k)) ` set (siblings 24 ?g). ?in y)
        \<longleftrightarrow> (\<exists>(k, c) \<in> set (siblings 24 ?g). a div 2 ^ k = c)"
      by (fastforce simp: bex_simps)
    also have "\<dots> \<longleftrightarrow> a div 2 ^ 24 = ?g div 2 ^ 24 \<and> a \<noteq> ?g" by (rule siblings_cover)
    finally show ?thesis by (simp add: v4_value_def)
  qed
  have "(\<exists>y \<in> {(v4_value [172, 16, 0, 0], 12), (v4_value [192, 168, 0, 0], 16), (v4_value [169, 254, 0, 0], 16)}. ?in y)
      \<longleftrightarrow> a div 2 ^ 20 = 172 * 16 + 1 \<or> a div 2 ^ 16 = 192 * 256 + 168 \<or> a div 2 ^ 16 = 169 * 256 + 254"
    by (simp add: v4_value_def)
  with ten show ?thesis unfolding in_lan_ranges lan_siblings bex_Un by blast
qed

end
