(* ===== verification/Backend_Laws.thy ===== *)
theory Backend_Laws
  imports Backend_Runtime Backend_Settings_Laws Atomic_File
begin

text \<open>
  Properties of the backend's handlers. The locale \<open>settings_io\<close> is the contract between the handlers and the place where the settings
  are kept; it is interpreted on the file system model of \<open>Atomic_File\<close> and on no storage at all.
\<close>


lemma keeps_call:
  "keeps g m \<Longrightarrow> (\<And>s w. g w = g (rt_world s) \<Longrightarrow> f (s\<lparr>rt_world := w\<rparr>) = f s) \<Longrightarrow> keeps f (service_call m)"
  by (auto simp: keeps_def service_call_def split: prod.splits) (metis snd_conv)+

section \<open>Settings in memory and on disk\<close>

definition stored :: "('w \<Rightarrow> 'v) \<Rightarrow> 'w runtime \<Rightarrow> native_settings \<times> 'v" where
  "stored saved s = (rt_settings s, saved (rt_world s))"

definition settings_handler :: "string \<Rightarrow> ('w services \<Rightarrow> json \<Rightarrow> ('w runtime, json) action) option" where
  "settings_handler method =
     (if method = ''protocol.set'' then Some protocol_set
      else if method = ''feature.set'' then Some feature_set
      else if method = ''dns.set'' then Some dns_set
      else if method = ''split_tunneling.set'' then Some split_tunneling_set
      else None)"

fun run_requests :: "'w services \<Rightarrow> (string \<times> json) list \<Rightarrow> 'w runtime \<Rightarrow> 'w runtime" where
  "run_requests io [] s = s"
| "run_requests io ((method, params) # reqs) s =
     run_requests io reqs (case settings_handler method of None \<Rightarrow> s | Some h \<Rightarrow> snd (h io params s))"

text \<open>What the handlers need of the services: saving replaces the stored settings or, when it fails, leaves them; no
  other service touches them.\<close>

locale settings_io =
  fixes io :: "'w services" and saved :: "'w \<Rightarrow> 'v" and image :: "native_settings \<Rightarrow> 'v"
  assumes save_ok: "io_save_settings io t w = (Inr u, w') \<Longrightarrow> saved w' = image t"
    and save_err: "io_save_settings io t w = (Inl e, w') \<Longrightarrow> saved w' = saved w"
    and frame: "keeps saved (io_observe io)" "keeps saved (io_kill_switch io mode active ip leak)"
      "keeps saved (io_default_routes io)" "keeps saved (io_dns_servers io)" "keeps saved (io_disconnect_uuid io uuid)"
      "keeps saved (io_split_apply io on config)" "keeps saved (io_split_bypass io on routes)"
      "keeps saved (io_destination_policy io ranges)" "keeps saved (io_request_features io features)"
      "keeps saved (io_clear_statistics io)" "keeps saved (io_flush_statistics io)"
      "keeps saved (io_alternative_routing io on)"
begin

lemma keeps_call_stored: "keeps saved m \<Longrightarrow> keeps (stored saved) (service_call m)"
  by (erule keeps_call) (simp add: stored_def)

lemmas keeps_stored = keeps_rules frame [THEN keeps_call_stored]

lemma keeps_require_session [keeps_rules]: "keeps f require_session"
  by (simp add: keeps_def require_session_def afail_def aret_def split: option.splits)

lemma keeps_policy: "keeps (stored saved) (apply_destination_policy io t)"
  unfolding apply_destination_policy_def by (intro keeps_stored)

lemma keeps_reconcile: "keeps (stored saved) (reconcile_kill_switch io mode active ip leak)"
  unfolding reconcile_kill_switch_def by (intro keeps_stored)

lemma keeps_bypass: "keeps (stored saved) (reconcile_split_kill_switch_bypass io t active)"
  unfolding reconcile_split_kill_switch_bypass_def Let_def by (intro keeps_stored) (simp add: stored_def)

lemma keeps_restore_protection: "keeps (stored saved) (restore_protection io t active ip)"
  unfolding restore_protection_def by (intro keeps_stored keeps_reconcile keeps_bypass)

lemma keeps_apply_feature: "keeps (stored saved) (apply_feature io feature previous t active ip)"
  unfolding apply_feature_def apply_kill_switch_def apply_leak_protection_def apply_agent_feature_def
  by (intro keeps_stored keeps_reconcile keeps_bypass keeps_restore_protection keeps_policy)

lemma keeps_undo_feature: "keeps (stored saved) (undo_feature io feature previous active live ip)"
  unfolding undo_feature_def case_prod_beta
  by (intro keeps_stored keeps_restore_protection keeps_policy)

lemma keeps_finish_feature: "keeps (stored saved) (finish_feature io feature t)"
  unfolding finish_feature_def by (intro keeps_stored)

lemma keeps_rollback_split: "keeps (stored saved) (rollback_split io previous)"
  unfolding rollback_split_def Let_def by (intro keeps_stored)

lemma keeps_disconnect: "keeps (stored saved) (disconnect_owned_inner io uuid)"
  unfolding disconnect_owned_inner_def take_down_def restore_global_destination_policy_def stop_local_agent_def case_prod_beta
  by (intro keeps_stored keeps_bypass keeps_policy) (simp_all add: stored_def emit_connection_def)

lemma holds_persist:
  "holds (\<lambda>s. stored saved s = st) (persist_settings io t) (\<lambda>_ s. stored saved s = (t, image t)) (\<lambda>_ s. stored saved s = st)"
  unfolding persist_settings_def
proof (rule holds_bind)
  show "holds (\<lambda>s. stored saved s = st) (service_call (io_save_settings io t)) (\<lambda>_ s. saved (rt_world s) = image t) (\<lambda>_ s. stored saved s = st)"
    by (auto simp: holds_def service_call_def stored_def split: sum.splits prod.splits dest: save_ok save_err)
  show "holds (\<lambda>s. saved (rt_world s) = image t) (awrites (\<lambda>s. s\<lparr>rt_settings := t\<rparr>))
      (\<lambda>_ s. stored saved s = (t, image t)) (\<lambda>_ s. stored saved s = st)"
    by (rule holds_writes) (simp add: stored_def)
qed

text \<open>A step before the save keeps everything; a save that fails and is undone as well.\<close>

lemma holds_before:
  assumes "keeps (stored saved) m" "\<And>x. holds (\<lambda>s. stored saved s = st) (f x) Q E" "\<And>e s. stored saved s = st \<Longrightarrow> E e s"
  shows "holds (\<lambda>s. stored saved s = st) (abind m f) Q E"
  by (rule holds_bind [where R = "\<lambda>_ s. stored saved s = st"])
     (auto intro: holds_weaken [OF holds_keeps [OF assms(1), of "\<lambda>x. x = st"]] assms(2,3))

lemma holds_persist_undo:
  assumes "\<And>e. keeps (stored saved) (h e)"
  shows "holds (\<lambda>s. stored saved s = st) (arescue (persist_settings io t) (\<lambda>e. abind (h e) (\<lambda>_. afail e)))
     (\<lambda>_ s. stored saved s = (t, image t)) (\<lambda>_ s. stored saved s = st)"
  by (rule holds_rescue [OF holds_persist]) (auto intro!: holds_before assms action_rules)


lemma holds_previous:
  assumes "holds (\<lambda>s. stored saved s = st) (f (fst st)) Q E"
  shows "holds (\<lambda>s. stored saved s = st) (abind (areads rt_settings) f) Q E"
  by (rule holds_bind [where R = "\<lambda>x s. x = fst st \<and> stored saved s = st"])
     (use assms in \<open>auto simp: holds_def stored_def\<close>)

lemma holds_checked:
  assumes "\<And>x. r = Inr x \<Longrightarrow> holds (\<lambda>s. stored saved s = st) (f x) Q E" "\<And>e s. stored saved s = st \<Longrightarrow> E e s"
  shows "holds (\<lambda>s. stored saved s = st) (abind (alift r) f) Q E"
  using assms by (cases r) (auto simp: holds_def abind_def alift_def)

text \<open>The save, what is undone when it fails, and the steps after it, which may fail or not.\<close>

lemma holds_commit:
  assumes "\<And>e. keeps (stored saved) (h e)" "keeps (stored saved) m"
  shows "holds (\<lambda>s. stored saved s = st)
     (abind (arescue (persist_settings io t) (\<lambda>e. abind (h e) (\<lambda>_. afail e))) (\<lambda>_. m))
     (\<lambda>_ s. stored saved s = (t, image t)) (\<lambda>_ s. stored saved s = st \<or> (\<exists>s e. fst (m s) = Inl e) \<and> stored saved s = (t, image t))"
proof (rule holds_bind)
  show "holds (\<lambda>s. stored saved s = st) (arescue (persist_settings io t) (\<lambda>e. abind (h e) (\<lambda>_. afail e)))
      (\<lambda>_ s. stored saved s = (t, image t)) (\<lambda>_ s. stored saved s = st \<or> (\<exists>s e. fst (m s) = Inl e) \<and> stored saved s = (t, image t))"
    by (rule holds_weaken [OF holds_persist_undo [OF assms(1)]]) auto
  show "holds (\<lambda>s. stored saved s = (t, image t)) m (\<lambda>_ s. stored saved s = (t, image t))
      (\<lambda>_ s. stored saved s = st \<or> (\<exists>s e. fst (m s) = Inl e) \<and> stored saved s = (t, image t))"
    using assms(2) by (auto simp: holds_def keeps_def split: prod.splits sum.splits) (metis fst_conv snd_conv)+
qed

lemma finish_feature_fails:
  "fst (abind (finish_feature io feature t) (\<lambda>_. aret x) s) = Inl e \<Longrightarrow> feature = ''anonymous_usage_statistics''"
  by (simp add: finish_feature_def abind_def aignore_def aret_def split: if_splits)

lemma feature_set_stored:
  "holds (\<lambda>s. stored saved s = st) (feature_set io params)
     (\<lambda>_ s. \<exists>tier t. change_feature params (requested_feature params) tier (fst st) = Inr t \<and> stored saved s = (t, image t))
     (\<lambda>_ s. stored saved s = st \<or> requested_feature params = ''anonymous_usage_statistics''
        \<and> (\<exists>tier t. change_feature params (requested_feature params) tier (fst st) = Inr t \<and> stored saved s = (t, image t)))"
    (is "holds _ _ ?Q ?E")
proof -
  have "holds (\<lambda>s. stored saved s = st) (commit_feature io (requested_feature params) (fst st) t active live ip) ?Q ?E"
    if "change_feature params (requested_feature params) tier (fst st) = Inr t" for tier t active live ip
    unfolding commit_feature_def
    by (intro holds_weaken [OF holds_commit [OF keeps_undo_feature keeps_bind [OF keeps_finish_feature keeps_ret(1)]]])
       (use that in \<open>auto dest: finish_feature_fails\<close>)
  then show ?thesis
    unfolding feature_set_def Let_def
    by (intro holds_previous holds_checked holds_before keeps_stored keeps_apply_feature) auto
qed

lemma holds_save:
  assumes "\<And>s. stored saved s = (t, image t) \<Longrightarrow> Q x s" "\<And>e s. stored saved s = st \<Longrightarrow> E e s"
  shows "holds (\<lambda>s. stored saved s = st) (abind (persist_settings io t) (\<lambda>_. aret x)) Q E"
proof (rule holds_bind)
  show "holds (\<lambda>s. stored saved s = st) (persist_settings io t) (\<lambda>_ s. stored saved s = (t, image t)) E"
    by (rule holds_weaken [OF holds_persist]) (auto intro: assms(2))
qed (rule holds_ret, rule assms(1))

lemmas holds_handler = holds_save holds_previous holds_checked holds_before keeps_stored keeps_require_session

lemma dns_set_stored:
  "holds (\<lambda>s. stored saved s = st) (dns_set io params)
     (\<lambda>_ s. \<exists>d. stored saved s = (fst st\<lparr>ns_custom_dns := d\<rparr>, image (fst st\<lparr>ns_custom_dns := d\<rparr>))) (\<lambda>_ s. stored saved s = st)"
  unfolding dns_set_def by (intro holds_handler) auto

lemma protocol_set_stored:
  "holds (\<lambda>s. stored saved s = st) (protocol_set io params)
     (\<lambda>_ s. \<exists>p. stored saved s = (fst st\<lparr>ns_protocol := p\<rparr>, image (fst st\<lparr>ns_protocol := p\<rparr>))) (\<lambda>_ s. stored saved s = st)"
  unfolding protocol_set_def by (intro holds_handler) auto

lemma split_tunneling_set_stored:
  "holds (\<lambda>s. stored saved s = st) (split_tunneling_set io params)
     (\<lambda>_ s. \<exists>on mode c c'. stored saved s = (with_split_rules (fst st) on mode c c', image (with_split_rules (fst st) on mode c c')))
     (\<lambda>_ s. stored saved s = st)"
    (is "holds _ _ ?Q ?E")
proof -
  have "holds (\<lambda>s. stored saved s = st) (commit_split io (fst st) (with_split_rules (fst st) on mode c c') active on' name) ?Q ?E"
    for on mode c c' active on' name
    unfolding commit_split_def
    by (rule holds_weaken [OF holds_commit])
       (auto intro!: keeps_stored keeps_bypass keeps_rollback_split simp: abind_def aret_def)
  then show ?thesis
    unfolding split_tunneling_set_def Let_def
    by (intro holds_handler keeps_bypass keeps_rollback_split) auto
qed

lemma handler_stored:
  assumes "settings_handler method = Some h"
  shows "holds (\<lambda>s. stored saved s = st) (h io params)
     (\<lambda>_ s. \<exists>t. stored saved s = (t, image t))
     (\<lambda>_ s. stored saved s = st \<or> method = ''feature.set'' \<and> requested_feature params = ''anonymous_usage_statistics''
        \<and> (\<exists>t. stored saved s = (t, image t)))"
  using assms unfolding settings_handler_def
  by (auto split: if_splits intro: holds_weaken [OF protocol_set_stored] holds_weaken [OF feature_set_stored]
      holds_weaken [OF dns_set_stored] holds_weaken [OF split_tunneling_set_stored])

lemma run_requests_in_sync:
  "saved (rt_world s) = image (rt_settings s) \<Longrightarrow>
     saved (rt_world (run_requests io reqs s)) = image (rt_settings (run_requests io reqs s))"
proof (induction reqs arbitrary: s)
  case (Cons req reqs)
  obtain name params where req: "req = (name, params)" by fastforce
  show ?case
  proof (cases "settings_handler name :: ('w services \<Rightarrow> json \<Rightarrow> ('w runtime, json) action) option")
    case None
    then show ?thesis using Cons req by simp
  next
    case (Some h)
    have "saved (rt_world (snd (h io params s))) = image (rt_settings (snd (h io params s)))"
    proof (cases "h io params s")
      case (Pair r s')
      then show ?thesis
        using holdsD [OF handler_stored [OF Some, of "stored saved s" params], of s] Cons.prems
        by (cases r) (auto simp: stored_def)
    qed
    then show ?thesis using Cons.IH Some req by simp
  qed
qed simp

end

section \<open>Settings on the file system\<close>

text \<open>The services with the settings kept in a file, written by \<open>settings_store::save\<close>; \<open>encode\<close> is the JSON text.\<close>

abbreviation on_fst :: "('w, 'a) action \<Rightarrow> ('w \<times> 'v, 'a) action" where
  "on_fst m \<equiv> (\<lambda>(w, v). case m w of (r, w') \<Rightarrow> (r, (w', v)))"

definition temporary_path :: "string \<Rightarrow> string \<Rightarrow> nat \<Rightarrow> u64 \<Rightarrow> string" where
  "temporary_path dir name pid sequence = dir @ ''/.'' @ name @ ''.'' @ dec pid @ ''.'' @ dec (unat sequence) @ ''.tmp''"

text \<open>The temporary is named after the directory exists. The error's text names the call that failed; the file system
  only reports that one did, so the text here has no verb.\<close>

definition settings_save ::
  "string \<Rightarrow> string \<Rightarrow> nat \<Rightarrow> (native_settings \<Rightarrow> string) \<Rightarrow> native_settings \<Rightarrow> ('w \<times> world \<times> u64, unit) action" where
  "settings_save dir name pid encode t =
     (\<lambda>(w, fs, sequence).
        let path = dir @ ''/'' @ name in
        case save_serialized dir (temporary_path dir name pid sequence) path (encode t) fs of (fs', ok) \<Rightarrow>
        (if ok then Inr () else Inl (native_error_new ''settings_write_failed'' (''Proton settings at '' @ path)),
         (w, fs', if snd (perform (CreateDirAll dir) fs) then sequence + 1 else sequence)))"

definition file_services ::
  "string \<Rightarrow> string \<Rightarrow> nat \<Rightarrow> (native_settings \<Rightarrow> string) \<Rightarrow> 'w services \<Rightarrow> ('w \<times> world \<times> u64) services" where
  "file_services dir name pid encode io =
     \<lparr>io_installed = io_installed io, io_crate = io_crate io, io_observe = on_fst (io_observe io),
      io_kill_switch = (\<lambda>mode active ip leak. on_fst (io_kill_switch io mode active ip leak)),
      io_default_routes = on_fst (io_default_routes io), io_dns_servers = on_fst (io_dns_servers io),
      io_disconnect_uuid = (\<lambda>uuid. on_fst (io_disconnect_uuid io uuid)),
      io_split_apply = (\<lambda>on config. on_fst (io_split_apply io on config)),
      io_split_bypass = (\<lambda>on routes. on_fst (io_split_bypass io on routes)),
      io_destination_policy = (\<lambda>ranges. on_fst (io_destination_policy io ranges)),
      io_request_features = (\<lambda>features. on_fst (io_request_features io features)),
      io_save_settings = settings_save dir name pid encode,
      io_clear_statistics = on_fst (io_clear_statistics io), io_flush_statistics = on_fst (io_flush_statistics io),
      io_alternative_routing = (\<lambda>on. on_fst (io_alternative_routing io on))\<rparr>"

definition settings_content :: "string \<Rightarrow> string \<Rightarrow> 'w \<times> world \<times> u64 \<Rightarrow> string option" where
  "settings_content dir name w = content (fst (snd w)) (dir @ ''/'' @ name)"

lemma keeps_on_fst: "keeps (settings_content dir name) (on_fst m)"
  by (auto simp: keeps_def settings_content_def split: prod.splits)

lemma temporary_path_new: "temporary_path dir name pid sequence \<noteq> dir @ ''/'' @ name"
  by (simp add: temporary_path_def)

interpretation on_disk: settings_io "file_services dir name pid encode io" "settings_content dir name"
    "\<lambda>t. Some (encode t @ [CHR 0x0A])"
  for dir name pid encode io
proof
  let ?io = "file_services dir name pid encode io"
  note result = save_serialized_result [OF temporary_path_new [of dir name pid], simplified]
  show "settings_content dir name w' = Some (encode t @ [CHR 0x0A])"
    if "io_save_settings ?io t w = (Inr u, w')" for t w w' u
    using that by (auto simp: file_services_def settings_save_def settings_content_def Let_def dest!: result split: prod.splits if_splits)
  show "settings_content dir name w' = settings_content dir name w"
    if "io_save_settings ?io t w = (Inl e, w')" for t w w' e
    using that by (auto simp: file_services_def settings_save_def settings_content_def Let_def dest!: result split: prod.splits if_splits)
qed (simp_all add: file_services_def keeps_on_fst)


section \<open>Properties\<close>

text \<open>C14. The settings file always holds the settings in memory: whatever the requests, whatever fails (a service, a write,
  the rename), after any sequence of settings requests the file is the text of the settings in force.\<close>

theorem settings_file_follows_memory:
  assumes "settings_content dir name (rt_world s) = Some (encode (rt_settings s) @ [CHR 0x0A])"
  shows "settings_content dir name (rt_world (run_requests (file_services dir name pid encode io) reqs s))
    = Some (encode (rt_settings (run_requests (file_services dir name pid encode io) reqs s)) @ [CHR 0x0A])"
  using assms by (rule on_disk.run_requests_in_sync)

text \<open>C40. A settings request that reports an error has changed no setting, in memory or on disk, at whatever step it failed.
  The one exception is the switch for usage statistics, whose queue is cleared after the save.\<close>

theorem failed_request_changes_no_setting:
  assumes "settings_handler method = Some h"
    and "h (file_services dir name pid encode io) params s = (Inl e, s')"
    and "\<not> (method = ''feature.set'' \<and> requested_feature params = ''anonymous_usage_statistics'')"
  shows "rt_settings s' = rt_settings s \<and> settings_content dir name (rt_world s') = settings_content dir name (rt_world s)"
  using holdsD(2) [OF on_disk.handler_stored [OF assms(1)] refl assms(2)]
    assms(3) by (auto simp: stored_def)

interpretation in_memory: settings_io io "\<lambda>_. ()" "\<lambda>_. ()" for io
  by unfold_locales (simp_all add: keeps_def)

lemma kill_switch_value_le: "kill_switch_value v = Some m \<Longrightarrow> m \<le> 2"
  by (auto simp: kill_switch_value_def Let_def split: if_splits)

lemma change_feature_ok: "change_feature params feature tier s = Inr t \<Longrightarrow> settings_ok s \<Longrightarrow> settings_ok t"
  unfolding change_feature_def Let_def
  by (auto simp: settings_ok_def rbind_Inr ok_or_def bind_eq_Some_conv ucast_le_two not_less
      dest!: kill_switch_value_le split: if_split_asm option.splits)


lemma handler_ok:
  assumes "settings_handler method = Some h" "method \<noteq> ''dns.set''" "settings_ok (rt_settings s)"
  shows "settings_ok (rt_settings (snd (h io params s)))"
proof -
  have start: "stored (\<lambda>_. ()) s = (rt_settings s, ())" by (simp add: stored_def)
  have rules: "settings_ok (with_split_rules (rt_settings s) on mode c c')" "settings_ok (rt_settings s\<lparr>ns_protocol := p\<rparr>)"
    for on mode c c' p
    using assms(3) by (simp_all add: settings_ok_def with_split_rules_def)
  obtain r s' where r: "h io params s = (r, s')" by fastforce
  have "settings_ok (rt_settings s')"
    using r assms(1,2) change_feature_ok [OF _ assms(3)] rules assms(3)
      holdsD [OF in_memory.protocol_set_stored start, of io params _ s']
      holdsD [OF in_memory.feature_set_stored start, of io params _ s']
      holdsD [OF in_memory.split_tunneling_set_stored start, of io params _ s']
    by (cases r) (auto simp: settings_handler_def stored_def split: if_splits)
  then show ?thesis by (simp add: r)
qed



section \<open>Disconnecting without a leak\<close>

text \<open>What the services do to the tunnel and to the routes past the kill switch: only \<open>disconnect_uuid\<close> takes the tunnel
  down, only \<open>set_kill_switch_bypass\<close> changes the bypass, and when it reports success for \<open>false\<close> there is none.\<close>

definition tunnel_laws :: "'w services \<Rightarrow> ('w \<Rightarrow> bool) \<Rightarrow> ('w \<Rightarrow> bool) \<Rightarrow> bool" where
  "tunnel_laws io up bypassed \<longleftrightarrow>
     (\<forall>on routes. keeps up (io_split_bypass io on routes)) \<and> keeps up (io_dns_servers io)
     \<and> (\<forall>ranges. keeps up (io_destination_policy io ranges))
     \<and> keeps bypassed (io_dns_servers io) \<and> (\<forall>ranges. keeps bypassed (io_destination_policy io ranges))
     \<and> (\<forall>uuid. keeps bypassed (io_disconnect_uuid io uuid))
     \<and> (\<forall>mode active ip leak. keeps bypassed (io_kill_switch io mode active ip leak))
     \<and> keeps bypassed (io_observe io)
     \<and> (\<forall>routes w. isl (fst (io_split_bypass io False routes w)) \<or> \<not> bypassed (snd (io_split_bypass io False routes w)))"

abbreviation protected :: "('w \<Rightarrow> bool) \<Rightarrow> 'w runtime \<Rightarrow> bool" where
  "protected bypassed s \<equiv> \<not> bypassed (rt_world s) \<and> rt_policy_override s = None"

lemma keeps_call_world: "keeps f m \<Longrightarrow> keeps (\<lambda>s. (f (rt_world s), rt_policy_override s)) (service_call m)"
  by (erule keeps_call) simp

lemma holds_bypass_call:
  fixes io :: "'w services"
  assumes "tunnel_laws io up bypassed"
  shows "holds (\<lambda>s. up (rt_world s)) (service_call (io_split_bypass io False routes))
     (\<lambda>_ s. up (rt_world s) \<and> \<not> bypassed (rt_world s)) (\<lambda>_ s. up (rt_world s))"
  unfolding holds_def
proof (intro allI impI)
  fix s :: "'w runtime" assume s: "up (rt_world s)"
  obtain r w where c: "io_split_bypass io False routes (rt_world s) = (r, w)" by fastforce
  have "up w" using assms s c unfolding tunnel_laws_def keeps_def by (metis snd_conv)
  moreover have "isl r \<or> \<not> bypassed w" using assms c unfolding tunnel_laws_def by (metis fst_conv snd_conv)
  ultimately show "case service_call (io_split_bypass io False routes) s of (Inl e, s') \<Rightarrow> up (rt_world s')
      | (Inr x, s') \<Rightarrow> up (rt_world s') \<and> \<not> bypassed (rt_world s')"
    by (auto simp: service_call_def c isl_def split: sum.splits)
qed

lemma bypass_off:
  "reconcile_split_kill_switch_bypass io t False s =
     (if bypass_configured t \<or> rt_bypass_active s
      then abind (service_call (io_split_bypass io False [])) (\<lambda>_. awrites (\<lambda>s. s\<lparr>rt_bypass_active := False\<rparr>)) s
      else (Inr (), s))"
  by (simp add: reconcile_split_kill_switch_bypass_def abind_def aret_def)

lemma holds_bypass_off:
  assumes "tunnel_laws io up bypassed"
  shows "holds (\<lambda>s. up (rt_world s) \<and> (bypassed (rt_world s) \<longrightarrow> rt_bypass_active s \<or> bypass_configured t))
     (reconcile_split_kill_switch_bypass io t False)
     (\<lambda>_ s. up (rt_world s) \<and> \<not> bypassed (rt_world s)) (\<lambda>_ s. up (rt_world s))"
    (is "holds _ _ ?off ?E")
proof -
  have "holds (\<lambda>s. up (rt_world s)) (abind (service_call (io_split_bypass io False [])) (\<lambda>_. awrites (\<lambda>s. s\<lparr>rt_bypass_active := False\<rparr>))) ?off ?E"
    by (rule holds_bind [OF holds_bypass_call [OF assms]]) (rule holds_writes, simp)
  then show ?thesis by (auto simp: holds_def bypass_off)
qed

lemma holds_policy_restored:
  assumes "tunnel_laws io up bypassed"
  shows "holds (\<lambda>s. up (rt_world s) \<and> \<not> bypassed (rt_world s)) (restore_global_destination_policy io)
     (\<lambda>_. protected bypassed) (\<lambda>_ s. up (rt_world s))"
    (is "holds ?pre _ ?Q ?E")
proof -
  have "keeps (\<lambda>s. (up (rt_world s), bypassed (rt_world s))) (apply_destination_policy io t)" for t
    using assms unfolding tunnel_laws_def apply_destination_policy_def
    by (intro keeps_rules keeps_call [of "\<lambda>w. (up w, bypassed w)"]) (auto simp: keeps_def)
  then have policy: "holds ?pre (apply_destination_policy io t) (\<lambda>_. ?pre) ?E" for t
    by (intro holds_weaken [OF holds_keeps [of "\<lambda>s. (up (rt_world s), bypassed (rt_world s))" _ "\<lambda>(u, b). u \<and> \<not> b"]]) auto
  have "holds ?pre (abind (apply_destination_policy io t) (\<lambda>_. awrites (\<lambda>s. s\<lparr>rt_policy_override := None\<rparr>))) ?Q ?E" for t
    by (rule holds_bind [OF policy]) (rule holds_writes, simp)
  then show ?thesis
    unfolding restore_global_destination_policy_def holds_def
    by (auto simp: abind_def [of "areads _"] aret_def split: if_split)
qed

lemma holds_take_down:
  assumes "tunnel_laws io up bypassed"
  shows "holds (protected bypassed) (take_down io t ip uuid) (\<lambda>_. protected bypassed) (\<lambda>_. protected bypassed)"
proof -
  have "keeps (\<lambda>s. (bypassed (rt_world s), rt_policy_override s)) (take_down io t ip uuid)"
    using assms unfolding take_down_def stop_local_agent_def tunnel_laws_def
    by (intro keeps_rules keeps_call_world) (auto simp: emit_connection_def)
  from holds_keeps [OF this, of "\<lambda>(b, override). \<not> b \<and> override = None"] show ?thesis by simp
qed


section \<open>A small system\<close>

text \<open>Services on a world of two flags, the tunnel and the bypass, that never fail.\<close>

definition demo_io :: "(bool \<times> bool) services" where
  "demo_io =
     \<lparr>io_installed = (\<lambda>_. True), io_crate = sample_crate,
      io_observe = (\<lambda>w. (Inr \<lparr>to_state = (if fst w then Connected else Disconnected), to_active_path = None,
         to_connection_path = None, to_id = None, to_uuid = Some ''u1'', to_protocol = None, to_endpoint = None,
         to_profile_id = None, to_owned = True\<rparr>, w)),
      io_kill_switch = (\<lambda>_ _ _ _. aret ()), io_default_routes = aret [], io_dns_servers = aret [''192.168.1.1''],
      io_disconnect_uuid = (\<lambda>_ w. (Inr True, (False, snd w))), io_split_apply = (\<lambda>_ _. aret ()),
      io_split_bypass = (\<lambda>on _ w. (Inr (), (fst w, on))), io_destination_policy = (\<lambda>_. aret ()),
      io_request_features = (\<lambda>_. aret ()), io_save_settings = (\<lambda>_. aret ()), io_clear_statistics = aret (),
      io_flush_statistics = aret (), io_alternative_routing = (\<lambda>_. aret ())\<rparr>"

definition demo_session :: session_data where
  "demo_session =
     \<lparr>sd_uid = ''uid'', sd_access_token = ''a'', sd_refresh_token = ''r'', sd_scopes = [], sd_account_name = ''me'',
      sd_credentialless = False, sd_environment = ''prod'',
      sd_vpn = \<lparr>vs_vpninfo = jobj [(''VPN'', jobj [(''MaxTier'', jnum 2)])],
        vs_certificate = \<lparr>vc_certificate = ''-----BEGIN CERTIFICATE-----'', vc_client_key = [], vc_client_key_fingerprint = [],
          vc_expiration_time = 0, vc_refresh_time = 0, vc_server_public_key = [], vc_server_public_key_mode = [], vc_extra = []\<rparr>,
        vs_ed25519_privatekey = ''seed'',
        vs_location = \<lparr>vl_ip = [], vl_country = ''CH'', vl_isp = [], vl_lat = None, vl_long = None\<rparr>\<rparr>,
      sd_extra = []\<rparr>"

definition demo_runtime :: "'w \<Rightarrow> native_settings \<Rightarrow> 'w runtime" where
  "demo_runtime w t =
     \<lparr>rt_session_restore_pending = False, rt_session = Some demo_session, rt_catalog = None, rt_client_config = None,
      rt_settings = t, rt_selected = None, rt_trigger = [], rt_location_known = False, rt_local_agent = False,
      rt_snapshot = agent_snapshot_default, rt_attempt = 0,
      rt_owned_uuid = Some ''u1'', rt_split_available = True, rt_policy_available = True,
      rt_policy_override = Some (True, True), rt_bypass_active = True, rt_world = w\<rparr>"

definition demo_encode :: "native_settings \<Rightarrow> string" where
  "demo_encode t = ns_protocol t @ dec (unat (ns_killswitch t))"

definition demo_files :: world where
  "demo_files = \<lparr>w_files = [(''/c/s'', demo_encode native_settings_default @ [CHR 0x0A])], w_faults = [None, None, Some 3]\<rparr>"

definition demo_change :: "string \<Rightarrow> string \<Rightarrow> json" where
  "demo_change feature value = jobj [(''feature'', JStr feature), (''value'', JStr value)]"

theorem settings_file_follows_memory_witness:
  "settings_content ''/c'' ''s'' (rt_world (run_requests (file_services ''/c'' ''s'' 7 demo_encode demo_io)
       [(''feature.set'', demo_change ''kill_switch'' ''standard''), (''feature.set'', demo_change ''kill_switch'' ''advanced'')]
       (demo_runtime ((False, False), demo_files, 0) native_settings_default)))
   = Some (demo_encode (rt_settings (run_requests (file_services ''/c'' ''s'' 7 demo_encode demo_io)
       [(''feature.set'', demo_change ''kill_switch'' ''standard''), (''feature.set'', demo_change ''kill_switch'' ''advanced'')]
       (demo_runtime ((False, False), demo_files, 0) native_settings_default))) @ [CHR 0x0A])"
  by (rule settings_file_follows_memory) code_simp

theorem failed_request_changes_no_setting_witness:
  "settings_content ''/c'' ''s'' (rt_world (snd (feature_set (file_services ''/c'' ''s'' 7 demo_encode demo_io)
       (demo_change ''kill_switch'' ''standard'') (demo_runtime ((False, False), demo_files, 0) native_settings_default))))
   = Some (demo_encode native_settings_default @ [CHR 0x0A])"
proof -
  let ?io = "file_services ''/c'' ''s'' 7 demo_encode demo_io"
  let ?params = "demo_change ''kill_switch'' ''standard''"
  let ?s = "demo_runtime ((False, False), demo_files, 0) native_settings_default"
  have handler: "settings_handler ''feature.set'' = Some feature_set" by (simp add: settings_handler_def)
  have "isl (fst (feature_set ?io ?params ?s))" by code_simp
  then obtain e where "feature_set ?io ?params ?s = (Inl e, snd (feature_set ?io ?params ?s))"
    by (metis isl_def prod.collapse)
  moreover have "requested_feature ?params \<noteq> ''anonymous_usage_statistics''" by code_simp
  moreover have "settings_content ''/c'' ''s'' (rt_world ?s) = Some (demo_encode native_settings_default @ [CHR 0x0A])" by code_simp
  ultimately show ?thesis
    using failed_request_changes_no_setting [OF handler] by fastforce
qed



text \<open>\<open>dns_set\<close> does not look at NetShield: consistent settings with NetShield on become inconsistent.\<close>

lemma dns_set_allows_a_conflict:
  "let t = on_features (\<lambda>f. f\<lparr>sf_netshield := 2\<rparr>) native_settings_default;
       r = dns_set demo_io (jobj [(''enabled'', JBool True), (''servers'', JArr [JStr ''1.1.1.1''])]) (demo_runtime (False, False) t) in
   settings_ok t \<and> \<not> isl (fst r) \<and> \<not> settings_ok (rt_settings (snd r))"
  by code_simp

end
