(* ===== verification/Backend_Connection.thy ===== *)
theory Backend_Connection
  imports Backend_Runtime
begin

text \<open>
  Connecting (\<^verbatim>\<open>native_backend/mod.rs\<close>, \<^verbatim>\<open>native_backend/local_agent.rs\<close>): \<open>connection_connect\<close> from the choice of the server
  to the confirmation by Proton's Local Agent, \<open>connection_cancel\<close> and the supervision of the Local Agent. The attempt
  counter is an atomic number that other requests may raise at any time: \<open>co_arrivals\<close> says how many did since it was
  last looked at. A \<open>select!\<close> between an action and the wait for a cancellation polls the counter when \<open>co_polled\<close> says so.
  Times are in milliseconds. The polling loop is given a number of rounds; \<open>None\<close> means that they did not suffice.
\<close>

section \<open>Messages of the Local Agent\<close>

datatype agent_state = AgentConnected | AgentHardJailed

record agent_reason =
  re_code :: int
  re_final :: bool
  re_description :: string

record connection_details =
  cd_device_ip :: "string option"
  cd_device_country :: "string option"
  cd_server_ipv4 :: "string option"
  cd_server_ipv6 :: "string option"

record netshield_counts =
  nc_malware :: "u32 option"
  nc_ads :: "u32 option"
  nc_tracker :: "u32 option"

record features_statistics =
  fs_netshield_level :: "netshield_counts option"

record status_message =
  sm_state :: agent_state
  sm_reason :: "agent_reason option"
  sm_features :: "agent_features option"
  sm_details :: "connection_details option"
  sm_statistics :: "features_statistics option"

datatype agent_update = UpdateStatus status_message | UpdateError string | UpdateStopped

definition from_status :: "status_message \<Rightarrow> agent_snapshot" where
  "from_status status =
     (let details = sm_details status; counts = Option.bind (sm_statistics status) fs_netshield_level in
      \<lparr>sn_connected = (sm_state status = AgentConnected), sn_hard_jailed = (sm_state status = AgentHardJailed),
       sn_reason_code = map_option re_code (sm_reason status), sn_reason = map_option re_description (sm_reason status),
       sn_forwarded_port = Option.bind (sm_features status) af_forwarded_port,
       sn_device_ip = Option.bind details cd_device_ip, sn_device_country = Option.bind details cd_device_country,
       sn_server_ipv4 = Option.bind details cd_server_ipv4, sn_server_ipv6 = Option.bind details cd_server_ipv6,
       sn_netshield_malware = Option.bind counts nc_malware, sn_netshield_ads = Option.bind counts nc_ads,
       sn_netshield_trackers = Option.bind counts nc_tracker\<rparr>)"

definition local_agent_reason_code :: "int option \<Rightarrow> string" where
  "local_agent_reason_code reason =
     (case reason of
        None \<Rightarrow> ''local_agent_jailed''
      | Some code \<Rightarrow>
          if code = 86101 then ''vpn_certificate_expired''
          else if code \<in> {86120, 86121, 86122} then ''two_factor_required''
          else if code \<in> {86110, 86111, 86112, 86113, 86114, 86115} then ''maximum_sessions_reached''
          else if code = 86153 then ''p2p_not_allowed''
          else ''local_agent_jailed'')"

definition reason_json :: "int option \<Rightarrow> json" where
  "reason_json code = (case code of None \<Rightarrow> JNull | Some i \<Rightarrow> JNum (if i < 0 then NegInt i else PosInt (of_int i)))"

definition jailed_error :: "agent_snapshot \<Rightarrow> native_error" where
  "jailed_error snapshot =
     (native_error_new (local_agent_reason_code (sn_reason_code snapshot))
        (unwrap_or ''Proton restricted this VPN session'' (sn_reason snapshot)))
     \<lparr>ne_details := Some (jobj [(''reason_code'', reason_json (sn_reason_code snapshot))])\<rparr>"

definition agent_disconnected :: "string \<Rightarrow> native_error" where
  "agent_disconnected message = may_retry (native_error_new ''local_agent_disconnected'' message)"

text \<open>The updates that arrive; the end of the list is the end of the channel.\<close>

fun wait_for_local_agent_ready :: "agent_update list \<Rightarrow> agent_snapshot native_res \<times> agent_update list" where
  "wait_for_local_agent_ready [] =
     (Inl (agent_disconnected ''The Proton Local Agent connection closed unexpectedly''), [])"
| "wait_for_local_agent_ready (UpdateStatus status # updates) =
     (let snapshot = from_status status in
      if sn_connected snapshot then (Inr snapshot, updates)
      else if sn_hard_jailed snapshot then (Inl (jailed_error snapshot), updates)
      else wait_for_local_agent_ready updates)"
| "wait_for_local_agent_ready (UpdateError text # updates) =
     (Inl (may_retry (with_source text (native_error_new ''local_agent_failed''
        ''Proton rejected the requested VPN session features''))), updates)"
| "wait_for_local_agent_ready (UpdateStopped # updates) =
     (Inl (agent_disconnected ''The Proton Local Agent connection stopped before confirming the VPN session''), updates)"

section \<open>Services\<close>

text \<open>The channel to the Local Agent: \<open>ai_connect\<close> fails with a text and whether it was the time limit.\<close>

record 'w agent_io =
  ai_pem :: "string \<Rightarrow> string + string"
  ai_connect :: "string \<Rightarrow> string \<Rightarrow> string \<Rightarrow> 'w \<Rightarrow> ((bool \<times> string) + unit) \<times> 'w"
  ai_request_features :: "agent_features \<Rightarrow> 'w \<Rightarrow> (string + unit) \<times> 'w"

record 'w conn_io =
  co_services :: "'w services"
  co_profile :: "'w profile_io"
  co_connect :: "vpn_profile \<Rightarrow> ('w, tunnel_observation) action"
  co_conflicts :: "('w, string list) action"
  co_agent :: "'w agent_io"
  co_updates :: "'w \<Rightarrow> (agent_update list \<times> bool) \<times> 'w"
  co_excluded :: "'w \<Rightarrow> excluded_location list"
  co_draws :: "'w \<Rightarrow> nat list"
  co_names :: "string \<Rightarrow> string option"
  co_prepare :: "('w runtime, unit) action"
  co_arrivals :: "'w \<Rightarrow> nat \<times> 'w"
  co_polled :: "'w \<Rightarrow> bool \<times> 'w"
  co_expired :: "'w \<Rightarrow> bool \<times> 'w"
  co_now :: "'w \<Rightarrow> nat \<times> 'w"
  co_sleep :: "nat \<Rightarrow> 'w \<Rightarrow> 'w"

definition ask :: "('w \<Rightarrow> 'a \<times> 'w) \<Rightarrow> ('w runtime, 'a) action" where
  "ask f s = (case f (rt_world s) of (x, w) \<Rightarrow> (Inr x, s\<lparr>rt_world := w\<rparr>))"

text \<open>The result of an action as a value.\<close>

definition atry :: "('s, 'a) action \<Rightarrow> ('s, 'a native_res) action" where
  "atry m s = (case m s of (r, s') \<Rightarrow> (Inr r, s'))"

section \<open>The attempt counter\<close>

definition fetch_add :: "('w runtime, u64) action" where
  "fetch_add s = (Inr (rt_attempt s), s\<lparr>rt_attempt := rt_attempt s + 1\<rparr>)"

definition load_attempt :: "'w conn_io \<Rightarrow> ('w runtime, u64) action" where
  "load_attempt co =
     abind (ask (co_arrivals co)) (\<lambda>n.
     abind (awrites (\<lambda>s. s\<lparr>rt_attempt := rt_attempt s + of_nat n\<rparr>)) (\<lambda>_.
     areads rt_attempt))"

definition connection_cancelled :: native_error where
  "connection_cancelled = native_error_new ''connection_cancelled'' ''VPN connection attempt was cancelled''"

definition check_connection_attempt :: "'w conn_io \<Rightarrow> u64 \<Rightarrow> ('w runtime, unit) action" where
  "check_connection_attempt co attempt = abind (load_attempt co) (\<lambda>a. aguard (a = attempt) connection_cancelled)"

text \<open>\<open>select!\<close> with \<open>wait_for_connection_cancel\<close> first.\<close>

definition unless_cancelled :: "'w conn_io \<Rightarrow> u64 \<Rightarrow> ('w runtime, 'a) action \<Rightarrow> ('w runtime, 'a) action" where
  "unless_cancelled co attempt m =
     abind (ask (co_polled co)) (\<lambda>polled.
     if polled then abind (check_connection_attempt co attempt) (\<lambda>_. m) else m)"

section \<open>Starting the Local Agent\<close>

definition agent_error :: "string \<Rightarrow> native_error" where
  "agent_error text =
     may_retry (with_source text (native_error_new ''local_agent_failed'' ''The encrypted Proton Local Agent channel failed''))"

definition connect_error :: "bool \<times> string \<Rightarrow> native_error" where
  "connect_error e =
     (if fst e
      then may_retry (native_error_new ''local_agent_connect_timeout''
             ''The VPN tunnel has not made the Proton Local Agent reachable yet'')
      else agent_error (snd e))"

definition key_error :: "string \<Rightarrow> native_error" where
  "key_error = native_error_new ''vpn_private_key_invalid''"

definition private_key_pem :: "key_crypto \<Rightarrow> (string \<Rightarrow> string + string) \<Rightarrow> session_data \<Rightarrow> string native_res" where
  "private_key_pem kc pem session =
     (case kc_base64_decode kc (trim (vs_ed25519_privatekey (sd_vpn session))) of
        Inl text \<Rightarrow> Inl (with_source text (key_error ''The Proton VPN Ed25519 private key is invalid''))
      | Inr seed \<Rightarrow>
          if length seed \<noteq> 32 then Inl (key_error ''The Proton VPN Ed25519 private key has an invalid length'')
          else case pem seed of
                 Inl text \<Rightarrow> Inl (with_source text (key_error ''Unable to encode the Proton VPN private key for Local Agent''))
               | Inr text \<Rightarrow> Inr text)"

definition agent_call :: "('e \<Rightarrow> native_error) \<Rightarrow> ('w \<Rightarrow> ('e + 'a) \<times> 'w) \<Rightarrow> ('w, 'a) action" where
  "agent_call err m w = (case m w of (Inl e, w') \<Rightarrow> (Inl (err e), w') | (Inr x, w') \<Rightarrow> (Inr x, w'))"

definition local_agent_start ::
  "'w conn_io \<Rightarrow> string \<Rightarrow> session_data \<Rightarrow> agent_features option \<Rightarrow> ('w, unit) action" where
  "local_agent_start co domain session features =
     abind (aguard (trim domain \<noteq> []) (native_error_new ''local_agent_domain_missing''
              ''The selected Proton server has no Local Agent domain'')) (\<lambda>_.
     abind (alift (private_key_pem (pi_keys (co_profile co)) (ai_pem (co_agent co)) session)) (\<lambda>key.
     abind (agent_call connect_error (ai_connect (co_agent co) domain key
              (vc_certificate (vs_certificate (sd_vpn session))))) (\<lambda>_.
     case features of
       None \<Rightarrow> aret ()
     | Some fs \<Rightarrow> agent_call agent_error (ai_request_features (co_agent co) fs))))"

section \<open>Connecting\<close>

definition catalog_unavailable :: native_error where
  "catalog_unavailable = may_retry (native_error_new ''catalog_unavailable''
     ''The Proton server catalog is not available in the local cache'')"

definition client_config_unavailable :: native_error where
  "client_config_unavailable = may_retry (native_error_new ''client_config_unavailable''
     ''The Proton client configuration is not available in the local cache'')"

definition CONNECTION_TIMEOUT :: nat where "CONNECTION_TIMEOUT = 45000"
definition CONNECTION_POLL_INTERVAL :: nat where "CONNECTION_POLL_INTERVAL = 125"

definition observe_blocking :: "'w conn_io \<Rightarrow> ('w runtime, tunnel_observation) action" where
  "observe_blocking co = service_call (io_observe (co_services co))"

definition cleanup_owned_connection :: "'w conn_io \<Rightarrow> string \<Rightarrow> ('w runtime, unit) action" where
  "cleanup_owned_connection co uuid = aignore (disconnect_owned_inner (co_services co) uuid)"

text \<open>What a connection attempt has settled before it touches the network.\<close>

record connect_job =
  cj_attempt :: u64
  cj_session :: session_data
  cj_tier :: u8
  cj_profile_id :: "string option"
  cj_target :: connection_target
  cj_client_config :: client_config
  cj_global :: native_settings
  cj_settings :: native_settings
  cj_protocol :: string
  cj_applied :: bool

definition prepare_attempt ::
  "'w conn_io \<Rightarrow> u64 \<Rightarrow> json \<Rightarrow> ('w runtime, string option \<times> session_data \<times> u8) action" where
  "prepare_attempt co attempt params =
     abind (unless_cancelled co attempt (co_prepare co)) (\<lambda>_.
     abind (alift (connection_profile_id params)) (\<lambda>profile_id.
     abind (unless_cancelled co attempt (aret ())) (\<lambda>_.
     abind (unless_cancelled co attempt (aret ())) (\<lambda>_.
     abind require_session (\<lambda>(session, tier).
     abind (awrites (\<lambda>s. s\<lparr>rt_trigger := connection_trigger params\<rparr>)) (\<lambda>_.
     aret (profile_id, session, tier)))))))"

definition choose_connection ::
  "'w conn_io \<Rightarrow> u64 \<Rightarrow> json \<Rightarrow> string option \<times> session_data \<times> u8 \<Rightarrow> ('w runtime, connect_job) action" where
  "choose_connection co attempt params known =
     (case known of (profile_id, session, tier) \<Rightarrow>
      abind (areads (\<lambda>s. s)) (\<lambda>s.
      abind (alift (ok_or catalog_unavailable (rt_catalog s))) (\<lambda>catalog.
      abind (alift (ok_or client_config_unavailable (rt_client_config s))) (\<lambda>config.
      abind (alift (effective_connection_settings (io_installed (co_services co)) params (rt_settings s) tier))
        (\<lambda>(settings, protocol, applied).
      abind (alift (select (pi_crypto (co_profile co)) catalog params tier (co_excluded co (rt_world s))
               (if rt_location_known s then vl_country (vs_location (sd_vpn session)) else []) (co_draws co (rt_world s)))) (\<lambda>target.
      aret \<lparr>cj_attempt = attempt, cj_session = session, cj_tier = tier, cj_profile_id = profile_id, cj_target = target,
        cj_client_config = config, cj_global = rt_settings s, cj_settings = settings, cj_protocol = protocol,
        cj_applied = applied\<rparr>))))))"

text \<open>An owned tunnel is replaced, any other one refused.\<close>

definition replace_current :: "'w conn_io \<Rightarrow> u64 \<Rightarrow> ('w runtime, unit) action" where
  "replace_current co attempt =
     abind (observe_blocking co) (\<lambda>current.
     abind (check_connection_attempt co attempt) (\<lambda>_.
     abind (areads rt_owned_uuid) (\<lambda>owned.
     abind (alift (replacement_connection_uuid current owned)) (\<lambda>replaced.
     case replaced of
       None \<Rightarrow> aret ()
     | Some uuid \<Rightarrow>
         abind (disconnect_owned_inner (co_services co) uuid) (\<lambda>_.
         abind (observe_blocking co) (\<lambda>left.
         aguard (to_state left = Disconnected) (may_retry (native_error_new ''disconnect_failed''
           ''The active VPN connection did not stop before reconnecting''))))))))"

definition activate_tunnel ::
  "'w conn_io \<Rightarrow> connect_job \<Rightarrow> vpn_profile \<Rightarrow> string list \<Rightarrow> ('w runtime, tunnel_observation) action" where
  "activate_tunnel co job profile conflicts =
     (let io = co_services co; settings = cj_settings job; ip = Some (ps_entry_ip (ct_physical (cj_target job)));
          kill_switch = (\<lambda>on. service_call (io_kill_switch io (ns_killswitch settings) on ip (ns_ipv6_leak_protection settings))) in
      arescue
        (abind (kill_switch True) (\<lambda>_.
         arescue (service_call (co_connect co profile)) (\<lambda>e. abind (aignore (kill_switch False)) (\<lambda>_. afail e))))
        (\<lambda>e. abind (restore_global_destination_policy io) (\<lambda>_. afail (with_network_conflicts e conflicts))))"

text \<open>The tunnel is up: the bypass, then the Local Agent, whose confirmation ends the attempt. \<open>None\<close> polls again.\<close>

definition connect_answer :: "'w conn_io \<Rightarrow> connect_job \<Rightarrow> json" where
  "connect_answer co job =
     jobj [(''accepted'', JBool True), (''server'', serialized (co_names co) (ct_logical (cj_target job))),
       (''protocol'', JStr (cj_protocol job)), (''profile_settings_applied'', JBool (cj_applied job)),
       (''secure_core'', JBool (has_feature FEATURE_SECURE_CORE (ct_logical (cj_target job))))]"

definition fail_clean :: "'w conn_io \<Rightarrow> string \<Rightarrow> native_error \<Rightarrow> ('w runtime, 'a) action" where
  "fail_clean co uuid e = abind (cleanup_owned_connection co uuid) (\<lambda>_. afail e)"

definition connection_timeout :: native_error where
  "connection_timeout = may_retry (native_error_new ''connection_timeout''
     ''VPN connection timed out before the tunnel became ready'')"

definition start_agent :: "'w conn_io \<Rightarrow> connect_job \<Rightarrow> ('w runtime, unit) action" where
  "start_agent co job =
     unless_cancelled co (cj_attempt job)
       (abind (ask (co_expired co)) (\<lambda>expired.
        if expired then afail connection_timeout
        else service_call (local_agent_start co (lg_domain (ct_logical (cj_target job))) (cj_session job)
               (if 0 < cj_tier job then Some (connection_agent_features (cj_settings job) (cj_target job)) else None))))"

definition await_agent :: "'w conn_io \<Rightarrow> ('w runtime, agent_snapshot) action" where
  "await_agent co =
     abind (ask (co_updates co)) (\<lambda>(updates, late).
     if late
     then afail (may_retry (native_error_new ''local_agent_timeout''
            ''The Proton Local Agent did not confirm the VPN session in time''))
     else alift (fst (wait_for_local_agent_ready updates)))"

definition secure_session ::
  "'w conn_io \<Rightarrow> connect_job \<Rightarrow> string \<Rightarrow> nat \<Rightarrow> tunnel_observation \<Rightarrow> ('w runtime, json option) action" where
  "secure_session co job uuid deadline observation =
     abind (arescue (reconcile_split_kill_switch_bypass (co_services co) (cj_settings job) True) (fail_clean co uuid)) (\<lambda>_.
     abind (atry (start_agent co job)) (\<lambda>started.
     case started of
       Inl e \<Rightarrow>
         abind (ask (co_now co)) (\<lambda>now.
         if ne_code e = ''local_agent_connect_timeout'' \<and> now < deadline then aret None
         else fail_clean co uuid e)
     | Inr _ \<Rightarrow>
         abind (awrites (\<lambda>s. s\<lparr>rt_local_agent := True\<rparr>)) (\<lambda>_.
         abind (arescue (unless_cancelled co (cj_attempt job) (await_agent co)) (fail_clean co uuid)) (\<lambda>ready.
         abind (awrites (\<lambda>s. emit_connection observation (s\<lparr>rt_snapshot := ready\<rparr>))) (\<lambda>_.
         aret (Some (connect_answer co job)))))))"

definition connection_failed :: "connect_job \<Rightarrow> string \<Rightarrow> string \<Rightarrow> native_error" where
  "connection_failed job code message =
     may_retry ((native_error_new code message)\<lparr>ne_details := Some (jobj [(''protocol'', JStr (cj_protocol job))])\<rparr>)"

definition poll_tunnel ::
  "'w conn_io \<Rightarrow> connect_job \<Rightarrow> string \<Rightarrow> string list \<Rightarrow> nat \<Rightarrow> tunnel_observation \<Rightarrow> ('w runtime, json option) action" where
  "poll_tunnel co job uuid conflicts started observation =
     (let deadline = started + CONNECTION_TIMEOUT;
          waiting = abind (ask (co_now co)) (\<lambda>now.
            if deadline \<le> now
            then fail_clean co uuid (with_network_conflicts (connection_failed job ''connection_timeout''
                   ''VPN connection timed out before the tunnel became ready'') conflicts)
            else abind (ask (\<lambda>w. ((), co_sleep co CONNECTION_POLL_INTERVAL w))) (\<lambda>_. aret None)) in
      case to_state observation of
        Connected \<Rightarrow> secure_session co job uuid deadline observation
      | TunnelError \<Rightarrow>
          abind (awrites (emit_connection observation)) (\<lambda>_.
          fail_clean co uuid (with_network_conflicts (connection_failed job ''connection_failed''
            ''NetworkManager reported that the VPN tunnel failed'') conflicts))
      | Disconnected \<Rightarrow>
          abind (ask (co_now co)) (\<lambda>now.
          if 2000 \<le> now - started
          then fail_clean co uuid (with_network_conflicts (connection_failed job ''connection_failed''
                 ''The VPN service stopped before the tunnel became ready'') conflicts)
          else waiting)
      | Connecting \<Rightarrow> waiting)"

fun await_tunnel ::
  "'w conn_io \<Rightarrow> connect_job \<Rightarrow> string \<Rightarrow> string list \<Rightarrow> nat \<Rightarrow> nat \<Rightarrow> ('w runtime, json) partial_action" where
  "await_tunnel co job uuid conflicts started 0 = (\<lambda>s. None)"
| "await_tunnel co job uuid conflicts started (Suc rounds) =
     pbind (total (load_attempt co)) (\<lambda>a.
     if a \<noteq> cj_attempt job then total (fail_clean co uuid connection_cancelled)
     else
     pbind (total (observe_blocking co)) (\<lambda>observation.
     pbind (total (poll_tunnel co job uuid conflicts started observation)) (\<lambda>answer.
     case answer of
       None \<Rightarrow> await_tunnel co job uuid conflicts started rounds
     | Some a \<Rightarrow> total (aret a))))"

text \<open>From the choice to the activated tunnel: its profile and the time the wait began.\<close>

definition begin_connection ::
  "'w conn_io \<Rightarrow> connect_job \<Rightarrow> ('w runtime, vpn_profile \<times> string list \<times> nat) action" where
  "begin_connection co job =
     abind (replace_current co (cj_attempt job)) (\<lambda>_.
     abind (service_call (vpn_profile_new (co_profile co) (cj_target job) (cj_protocol job) (cj_session job)
              (cj_client_config job) (cj_settings job) (cj_profile_id job))) (\<lambda>profile.
     abind (arescue (service_call (co_conflicts co)) (\<lambda>_. aret [])) (\<lambda>conflicts.
     abind (apply_connection_destination_policy (co_services co) (cj_global job) (cj_settings job)) (\<lambda>_.
     abind (arescue (check_connection_attempt co (cj_attempt job))
              (\<lambda>e. abind (restore_global_destination_policy (co_services co)) (\<lambda>_. afail e))) (\<lambda>_.
     abind (activate_tunnel co job profile conflicts) (\<lambda>activation.
     abind (awrites (\<lambda>s. s\<lparr>rt_owned_uuid := to_uuid activation, rt_selected := Some (cj_target job)\<rparr>)) (\<lambda>_.
     abind (ask (co_now co)) (\<lambda>started.
     aret (profile, conflicts, started)))))))))"

definition connection_connect :: "'w conn_io \<Rightarrow> nat \<Rightarrow> json \<Rightarrow> ('w runtime, json) partial_action" where
  "connection_connect co rounds params =
     pbind (total fetch_add) (\<lambda>count.
     pbind (total (prepare_attempt co (count + 1) params)) (\<lambda>known.
     pbind (total (choose_connection co (count + 1) params known)) (\<lambda>job.
     pbind (total (begin_connection co job)) (\<lambda>(profile, conflicts, started).
     await_tunnel co job (profile_uuid profile) conflicts started rounds))))"

section \<open>Cancelling and observing\<close>

definition connection_cancel :: "'w conn_io \<Rightarrow> ('w runtime, json) action" where
  "connection_cancel co =
     abind fetch_add (\<lambda>count.
     abind (load_attempt co) (\<lambda>now.
     if now \<noteq> count + 1 then aret (jobj [(''accepted'', JBool True)])
     else
     abind (areads rt_owned_uuid) (\<lambda>owned.
     abind (case owned of None \<Rightarrow> aret () | Some uuid \<Rightarrow> disconnect_owned_inner (co_services co) uuid) (\<lambda>_.
     aret (jobj [(''accepted'', JBool True)])))))"

definition disconnect_after_local_agent_rejection :: "'w conn_io \<Rightarrow> ('w runtime, unit) action" where
  "disconnect_after_local_agent_rejection co =
     abind fetch_add (\<lambda>_.
     abind (areads rt_owned_uuid) (\<lambda>owned.
     case owned of None \<Rightarrow> aret () | Some uuid \<Rightarrow> aignore (disconnect_owned_inner (co_services co) uuid)))"

definition tunnel_state_name :: "tunnel_state \<Rightarrow> string" where
  "tunnel_state_name state =
     (case state of Disconnected \<Rightarrow> ''disconnected'' | Connecting \<Rightarrow> ''connecting'' | Connected \<Rightarrow> ''connected''
      | TunnelError \<Rightarrow> ''error'')"

definition connection_observe :: "'w conn_io \<Rightarrow> ('w runtime, json) action" where
  "connection_observe co =
     abind require_session (\<lambda>_.
     abind (observe_blocking co) (\<lambda>observation.
     abind (awrites (emit_connection observation)) (\<lambda>_.
     aret (jobj [(''observation_known'', JBool True), (''status'', JStr (tunnel_state_name (to_state observation))),
             (''owned'', JBool (to_owned observation)), (''connector_initialized'', JBool True)]))))"

end
