(* ===== verification/Connection_Laws.thy ===== *)
theory Connection_Laws
  imports Backend_Connection Backend_Laws Catalog_Laws
begin

text \<open>
  Properties of connecting and disconnecting. The services are described by a relation \<open>R\<close> between the world before and
  after a call: \<open>up' \<subseteq> up\<close> for the set of running tunnels, \<open>\<le>\<close> for the clock. Every service respects it; what else is
  needed of activating and deactivating a tunnel, of observing it and of the clock is stated apart.
\<close>

section \<open>What the services do\<close>

definition steps :: "('w \<Rightarrow> 'w \<Rightarrow> bool) \<Rightarrow> ('w \<Rightarrow> 'a \<times> 'w) \<Rightarrow> bool" where
  "steps R f \<longleftrightarrow> (\<forall>w. R w (snd (f w)))"

definition ordinary_services :: "'w services \<Rightarrow> ('w \<Rightarrow> 'w \<Rightarrow> bool) \<Rightarrow> bool" where
  "ordinary_services io R \<longleftrightarrow>
     steps R (io_observe io) \<and> (\<forall>m on ip leak. steps R (io_kill_switch io m on ip leak))
     \<and> steps R (io_default_routes io) \<and> steps R (io_dns_servers io) \<and> (\<forall>u. steps R (io_disconnect_uuid io u))
     \<and> (\<forall>on rs. steps R (io_split_bypass io on rs)) \<and> (\<forall>rs. steps R (io_destination_policy io rs))"

definition ordinary_files :: "'w credential_io \<Rightarrow> ('w \<Rightarrow> 'w \<Rightarrow> bool) \<Rightarrow> bool" where
  "ordinary_files cr R \<longleftrightarrow>
     (\<forall>d. steps R (cr_create_dir_all cr d)) \<and> (\<forall>d m. steps R (cr_set_mode cr d m)) \<and> (\<forall>d. steps R (cr_create_dir cr d))
     \<and> (\<forall>f m. steps R (cr_create_new cr f m)) \<and> (\<forall>f t. steps R (cr_write_all cr f t)) \<and> (\<forall>d. steps R (cr_remove_dir_all cr d))"

definition ordinary :: "'w conn_io \<Rightarrow> ('w \<Rightarrow> 'w \<Rightarrow> bool) \<Rightarrow> bool" where
  "ordinary co R \<longleftrightarrow>
     reflp R \<and> transp R \<and> ordinary_services (co_services co) R \<and> ordinary_files (pi_credentials (co_profile co)) R
     \<and> steps R (co_conflicts co) \<and> (\<forall>d k c. steps R (ai_connect (co_agent co) d k c))
     \<and> (\<forall>f. steps R (ai_request_features (co_agent co) f)) \<and> steps R (co_updates co) \<and> steps R (co_arrivals co)
     \<and> steps R (co_polled co) \<and> steps R (co_expired co) \<and> steps R (co_now co) \<and> (\<forall>n w. R w (co_sleep co n w))"

text \<open>An action that leads from a world to a related one, on the services' world and on the runtime.\<close>

definition leads :: "('s \<Rightarrow> 's \<Rightarrow> bool) \<Rightarrow> ('s, 'a) action \<Rightarrow> bool" where
  "leads R m \<longleftrightarrow> reflp R \<and> transp R \<and> (\<forall>s. R s (snd (m s)))"


named_theorems leads_rules

lemma leads_ret [leads_rules]:
  assumes "reflp R" "transp R"
  shows "leads R (aret x)" "leads R (afail e)" "leads R (alift r)" "leads R (areads g)" "leads R (aguard b e)"
  using assms by (simp_all add: leads_def aret_def afail_def alift_def aguard_def reflp_def)

lemma leads_bind [leads_rules]: "leads R m \<Longrightarrow> (\<And>x. leads R (f x)) \<Longrightarrow> leads R (abind m f)"
  unfolding leads_def abind_def by (auto split: prod.splits sum.splits) (metis snd_conv transpD)+

lemma leads_rescue [leads_rules]: "leads R m \<Longrightarrow> (\<And>e. leads R (h e)) \<Longrightarrow> leads R (arescue m h)"
  unfolding leads_def arescue_def by (auto split: prod.splits sum.splits) (metis snd_conv transpD)+

lemma leads_ignore [leads_rules]: "leads R m \<Longrightarrow> leads R (aignore m)"
  by (simp add: leads_def aignore_def)

lemma leads_try [leads_rules]: "leads R m \<Longrightarrow> leads R (atry m)"
  unfolding leads_def atry_def by (auto split: prod.splits) (metis snd_conv)

lemma leads_if [leads_rules]: "(c \<Longrightarrow> leads R a) \<Longrightarrow> (\<not> c \<Longrightarrow> leads R b) \<Longrightarrow> leads R (if c then a else b)"
  by simp

lemma leads_option [leads_rules]:
  "leads R a \<Longrightarrow> (\<And>x. leads R (b x)) \<Longrightarrow> leads R (case z of None \<Rightarrow> a | Some x \<Rightarrow> b x)"
  by (cases z) auto

lemma leads_prod [leads_rules]: "(\<And>x y. leads R (f x y)) \<Longrightarrow> leads R (case z of (x, y) \<Rightarrow> f x y)"
  by (cases z) auto

lemma leads_writes: "reflp R \<Longrightarrow> transp R \<Longrightarrow> (\<And>s. R s (g s)) \<Longrightarrow> leads R (awrites g)"
  by (simp add: leads_def)

lemma leads_holds: "leads R m \<Longrightarrow> (\<And>s s'. P s \<Longrightarrow> R s s' \<Longrightarrow> P s') \<Longrightarrow> holds P m (\<lambda>_. P) (\<lambda>_. P)"
  unfolding leads_def holds_def by (auto split: prod.splits sum.splits) (metis snd_conv)+

text \<open>What most steps leave alone: they change the world only by services, and neither the owner, the selection nor the agent.\<close>

definition kept :: "'w runtime \<Rightarrow> string option \<times> connection_target option \<times> bool \<times> bool" where
  "kept s = (rt_owned_uuid s, rt_selected s, rt_local_agent s, rt_policy_available s)"

definition frame :: "('w \<Rightarrow> 'w \<Rightarrow> bool) \<Rightarrow> 'w runtime \<Rightarrow> 'w runtime \<Rightarrow> bool" where
  "frame R s s' \<longleftrightarrow> R (rt_world s) (rt_world s') \<and> kept s' = kept s"

lemma ordinaryD:
  assumes "ordinary co R"
  shows "reflp R" "transp R" "ordinary_services (co_services co) R" "ordinary_files (pi_credentials (co_profile co)) R"
    "steps R (co_conflicts co)" "steps R (ai_connect (co_agent co) d k c)" "steps R (ai_request_features (co_agent co) f)"
    "steps R (co_updates co)" "steps R (co_arrivals co)" "steps R (co_polled co)" "steps R (co_expired co)"
    "steps R (co_now co)" "R w (co_sleep co n w)"
  using assms by (simp_all add: ordinary_def)

lemma ordinary_servicesD:
  assumes "ordinary_services io R"
  shows "steps R (io_observe io)" "steps R (io_kill_switch io m on ip leak)" "steps R (io_default_routes io)"
    "steps R (io_dns_servers io)" "steps R (io_disconnect_uuid io u)" "steps R (io_split_bypass io on rs)"
    "steps R (io_destination_policy io ranges)"
  using assms by (simp_all add: ordinary_services_def)

lemmas services = ordinary_servicesD [OF ordinaryD(3)]

lemma frame_refl: "reflp R \<Longrightarrow> reflp (frame R)" and frame_trans: "transp R \<Longrightarrow> transp (frame R)"
  by (auto simp: frame_def reflp_def intro!: transpI dest: transpD)

lemma leads_call:
  assumes "ordinary co R" "steps R m"
  shows "leads (frame R) (service_call m)"
  using assms frame_refl [OF ordinaryD(1) [OF assms(1)]] frame_trans [OF ordinaryD(2) [OF assms(1)]]
  by (auto simp: leads_def service_call_def frame_def kept_def steps_def split: prod.splits) (metis snd_conv)

lemma leads_ask:
  assumes "ordinary co R" "steps R m"
  shows "leads (frame R) (ask m)"
  using assms frame_refl [OF ordinaryD(1) [OF assms(1)]] frame_trans [OF ordinaryD(2) [OF assms(1)]]
  by (auto simp: leads_def ask_def frame_def kept_def steps_def split: prod.splits) (metis snd_conv)

lemma leads_frame_writes:
  assumes "ordinary co R" "\<And>s. rt_world (g s) = rt_world s \<and> kept (g s) = kept s"
  shows "leads (frame R) (awrites g)"
  using assms(2) ordinaryD(1) [OF assms(1)]
  by (intro leads_writes frame_refl frame_trans ordinaryD(1,2) [OF assms(1)]) (simp add: frame_def reflp_def)

text \<open>The steps of an attempt that only read, wait or call services.\<close>

lemma leads_plain:
  assumes O: "ordinary co R"
  shows "leads (frame R) (aret x)" "leads (frame R) (afail e)" "leads (frame R) (alift r)" "leads (frame R) (areads g)"
    "leads (frame R) (aguard b e)" "leads (frame R) (observe_blocking co)" "leads (frame R) (load_attempt co)"
proof -
  show "leads (frame R) (aret x)" "leads (frame R) (afail e)" "leads (frame R) (alift r)" "leads (frame R) (areads g)"
    "leads (frame R) (aguard b e)"
    by (intro leads_ret frame_refl frame_trans ordinaryD(1,2) [OF O])+
  show "leads (frame R) (observe_blocking co)"
    unfolding observe_blocking_def by (intro leads_call [OF O] services [OF O])
  have "leads (frame R) (areads rt_attempt)" by (intro leads_ret frame_refl frame_trans ordinaryD(1,2) [OF O])
  then show "leads (frame R) (load_attempt co)"
    unfolding load_attempt_def
    by (intro leads_bind leads_ask [OF O] ordinaryD(9) [OF O] leads_frame_writes [OF O]) (auto simp: kept_def)
qed

lemma leads_check: "ordinary co R \<Longrightarrow> leads (frame R) (check_connection_attempt co attempt)"
  unfolding check_connection_attempt_def by (intro leads_bind leads_plain)

lemma leads_unless_cancelled: "ordinary co R \<Longrightarrow> leads (frame R) m \<Longrightarrow> leads (frame R) (unless_cancelled co attempt m)"
  unfolding unless_cancelled_def by (intro leads_bind leads_if leads_ask ordinaryD(10) leads_check)

lemma leads_policy:
  assumes O: "ordinary co R"
  shows "leads (frame R) (apply_destination_policy (co_services co) t)"
  unfolding apply_destination_policy_def
  by (intro leads_bind leads_if leads_plain [OF O] leads_call [OF O] services [OF O])

lemma leads_restore_policy:
  assumes O: "ordinary co R"
  shows "leads (frame R) (restore_global_destination_policy (co_services co))"
  unfolding restore_global_destination_policy_def
  by (intro leads_bind leads_if leads_plain [OF O] leads_policy [OF O] leads_frame_writes [OF O]) (auto simp: kept_def)

lemma leads_connection_policy:
  assumes O: "ordinary co R"
  shows "leads (frame R) (apply_connection_destination_policy (co_services co) global t)"
  unfolding apply_connection_destination_policy_def
  by (intro leads_bind leads_if leads_plain [OF O] leads_policy [OF O] leads_frame_writes [OF O]) (auto simp: kept_def)

lemma leads_bypass:
  assumes O: "ordinary co R"
  shows "leads (frame R) (reconcile_split_kill_switch_bypass (co_services co) t active)"
  unfolding reconcile_split_kill_switch_bypass_def Let_def
  by (intro leads_bind leads_if leads_plain [OF O] leads_call [OF O] services [OF O] leads_frame_writes [OF O]) (auto simp: kept_def)

lemma leads_agent_call: "reflp R \<Longrightarrow> transp R \<Longrightarrow> steps R m \<Longrightarrow> leads R (agent_call err m)"
  unfolding leads_def agent_call_def steps_def by (auto split: prod.splits sum.splits) (metis snd_conv)+

lemma leads_fs_step: "reflp R \<Longrightarrow> transp R \<Longrightarrow> steps R m \<Longrightarrow> leads R (fs_step message m)"
  unfolding leads_def fs_step_def steps_def by (auto split: prod.splits sum.splits) (metis snd_conv)+

lemma leads_steps: "leads R m \<Longrightarrow> steps R m"
  by (simp add: leads_def steps_def)

lemma steps_agent_start:
  assumes O: "ordinary co R"
  shows "steps R (local_agent_start co domain session features)"
  unfolding local_agent_start_def
  by (intro leads_steps leads_bind leads_option leads_ret leads_agent_call ordinaryD(1,2,6,7) [OF O])

lemma leads_start_agent:
  assumes O: "ordinary co R"
  shows "leads (frame R) (start_agent co job)"
  unfolding start_agent_def
  by (intro leads_unless_cancelled [OF O] leads_bind leads_if leads_ask [OF O] leads_plain [OF O] leads_call [OF O]
      steps_agent_start [OF O] ordinaryD(11) [OF O])

lemma leads_await_agent:
  assumes O: "ordinary co R"
  shows "leads (frame R) (await_agent co)"
  unfolding await_agent_def
  by (intro leads_bind leads_prod leads_if leads_ask [OF O] leads_plain [OF O] ordinaryD(8) [OF O])

lemma steps_profile_new:
  assumes O: "ordinary co R"
  shows "steps R (vpn_profile_new (co_profile co) target protocol session config settings profile_id)"
proof -
  have files: "steps R (cr_create_dir_all cr d)" "steps R (cr_set_mode cr d m)" "steps R (cr_create_dir cr d)"
    "steps R (cr_create_new cr f m)" "steps R (cr_write_all cr f x)" "steps R (cr_remove_dir_all cr d)"
    if "cr = pi_credentials (co_profile co)" for cr d f m x
    using ordinaryD(4) [OF O] that by (simp_all add: ordinary_files_def)
  have remove: "leads R (awrites (\<lambda>w. snd (cr_remove_dir_all (pi_credentials (co_profile co)) d w)))" for d
    by (intro leads_writes ordinaryD(1,2) [OF O]) (use files(6) in \<open>simp add: steps_def\<close>)
  show ?thesis
    unfolding vpn_profile_new_def openvpn_profile_new_def openvpn_credential_dir_def write_credentials_def write_private_file_def Let_def
    by (intro leads_steps leads_if leads_bind leads_rescue leads_prod leads_ret leads_fs_step ordinaryD(1,2) [OF O] files refl remove)
qed

section \<open>Tunnels and their owner\<close>

text \<open>\<open>up\<close> is the set of the agent's tunnels that run, by identifier. A tunnel may stop at any time, but only activating a
  profile starts one, and then it is the profile's; deactivating removes it when it reports success; and when the observation
  shows nothing, nothing runs. The detached preparation of an attempt does not touch the network.\<close>

definition tunnel_services :: "'w conn_io \<Rightarrow> ('w \<Rightarrow> string set) \<Rightarrow> bool" where
  "tunnel_services co up \<longleftrightarrow>
     ordinary co (\<lambda>w w'. up w' \<subseteq> up w) \<and> leads (frame (\<lambda>w w'. up w' \<subseteq> up w)) (co_prepare co)
     \<and> (\<forall>w observation w'. io_observe (co_services co) w = (Inr observation, w') \<longrightarrow>
          to_state observation = Disconnected \<longrightarrow> up w' = {})
     \<and> (\<forall>u w b w'. io_disconnect_uuid (co_services co) u w = (Inr b, w') \<longrightarrow> u \<notin> up w')
     \<and> (\<forall>p w r w'. co_connect co p w = (r, w') \<longrightarrow>
          (case r of Inl _ \<Rightarrow> up w' \<subseteq> up w
           | Inr activation \<Rightarrow> up w' \<subseteq> insert (profile_uuid p) (up w) \<and> to_uuid activation = Some (profile_uuid p)))"

lemma tunnel_servicesD:
  assumes "tunnel_services co up"
  shows "ordinary co (\<lambda>w w'. up w' \<subseteq> up w)" "leads (frame (\<lambda>w w'. up w' \<subseteq> up w)) (co_prepare co)"
    "io_observe (co_services co) w = (Inr observation, w') \<Longrightarrow> to_state observation = Disconnected \<Longrightarrow> up w' = {}"
    "io_disconnect_uuid (co_services co) u w = (Inr b, w') \<Longrightarrow> u \<notin> up w'"
    "co_connect co p w = (r, w') \<Longrightarrow> (case r of Inl _ \<Rightarrow> up w' \<subseteq> up w
       | Inr activation \<Rightarrow> up w' \<subseteq> insert (profile_uuid p) (up w) \<and> to_uuid activation = Some (profile_uuid p))"
  using assms unfolding tunnel_services_def by (simp_all del: split_paired_All)

definition tracked :: "('w \<Rightarrow> string set) \<Rightarrow> 'w runtime \<Rightarrow> bool" where
  "tracked up s \<longleftrightarrow> up (rt_world s) \<subseteq> set_option (rt_owned_uuid s)"

definition only :: "('w \<Rightarrow> string set) \<Rightarrow> string \<Rightarrow> 'w runtime \<Rightarrow> bool" where
  "only up u s \<longleftrightarrow> tracked up s \<and> set_option (rt_owned_uuid s) \<subseteq> {u}"

text \<open>A step in the frame keeps every property of the owner and the selection that fewer tunnels cannot break.\<close>

definition steady :: "('w \<Rightarrow> string set) \<Rightarrow> ('w runtime \<Rightarrow> bool) \<Rightarrow> bool" where
  "steady up P \<longleftrightarrow> (\<forall>s s'. P s \<longrightarrow> frame (\<lambda>w w'. up w' \<subseteq> up w) s s' \<longrightarrow> P s')"

lemma steady_basic:
  "steady up (tracked up)" "steady up (only up u)" "steady up (\<lambda>s. up (rt_world s) = {})"
  "steady up (\<lambda>s. u \<notin> up (rt_world s))" "steady up (\<lambda>s. rt_owned_uuid s = x)" "steady up (\<lambda>s. rt_selected s = y)"
  "steady up rt_local_agent" "steady up (\<lambda>s. c)" "steady up (\<lambda>s. up (rt_world s) \<subseteq> A)"
  by (auto simp: steady_def frame_def kept_def tracked_def only_def)

lemma steady_conj: "steady up P \<Longrightarrow> steady up Q \<Longrightarrow> steady up (\<lambda>s. P s \<and> Q s)"
  unfolding steady_def by metis

lemma holds_steady:
  "leads (frame (\<lambda>w w'. up w' \<subseteq> up w)) m \<Longrightarrow> steady up P \<Longrightarrow> holds P m (\<lambda>_. P) (\<lambda>_. P)"
  unfolding steady_def by (erule leads_holds) metis

lemma holds_steady_to:
  "leads (frame (\<lambda>w w'. up w' \<subseteq> up w)) m \<Longrightarrow> steady up P \<Longrightarrow> (\<And>s. P s \<Longrightarrow> E s) \<Longrightarrow> holds P m (\<lambda>_. P) (\<lambda>_. E)"
  by (rule holds_weaken [OF holds_steady [where P = P]]) auto

lemma disconnect_removes:
  assumes T: "tunnel_services co up"
  shows "holds (only up u) (disconnect_owned_inner (co_services co) u)
    (\<lambda>_ s. up (rt_world s) = {} \<and> rt_owned_uuid s = None) (\<lambda>_. only up u)"
proof -
  note O = tunnel_servicesD(1) [OF T]
  let ?gone = "\<lambda>s. up (rt_world s) = {} \<and> rt_owned_uuid s = None"
  have remove: "holds (only up u) (service_call (io_disconnect_uuid (co_services co) u))
      (\<lambda>_ s. up (rt_world s) = {} \<and> only up u s) (\<lambda>_. only up u)"
    unfolding holds_def
  proof (intro allI impI)
    fix s assume s: "only up u s"
    obtain r w where r: "io_disconnect_uuid (co_services co) u (rt_world s) = (r, w)" by fastforce
    have w: "up w \<subseteq> up (rt_world s)" using services(5) [OF O, of u] r by (simp add: steps_def) (metis snd_conv)
    show "case service_call (io_disconnect_uuid (co_services co) u) s of
        (Inl e, s') \<Rightarrow> only up u s' | (Inr x, s') \<Rightarrow> up (rt_world s') = {} \<and> only up u s'"
      using s w tunnel_servicesD(4) [OF T, of u "rt_world s"] r
      by (cases r) (auto simp: service_call_def only_def tracked_def)
  qed
  have ks: "holds (\<lambda>s. up (rt_world s) = {} \<and> only up u s) (service_call (io_kill_switch (co_services co) m False ip leak))
      (\<lambda>_ s. up (rt_world s) = {} \<and> only up u s) (\<lambda>_. only up u)" for m ip leak
    by (intro holds_steady_to [where up = up] leads_call [OF O] services [OF O] steady_conj steady_basic) auto
  have look: "holds ?gone (service_call (io_observe (co_services co))) (\<lambda>_. ?gone) (\<lambda>_. only up u)"
    by (intro holds_steady_to [where up = up] leads_call [OF O] services [OF O] steady_conj steady_basic) (auto simp: only_def tracked_def)
  have down: "holds (only up u) (take_down (co_services co) t ip u) (\<lambda>_. ?gone) (\<lambda>_. only up u)" for t ip
    unfolding take_down_def stop_local_agent_def
    by (rule holds_bind [OF holds_writes [where Q = "\<lambda>_. only up u"]], simp add: only_def tracked_def,
        rule holds_bind [OF remove], rule holds_bind [OF ks],
        rule holds_bind [OF holds_writes [where Q = "\<lambda>_. ?gone"]], simp, rule holds_bind [OF look], rule holds_writes)
      (simp add: emit_connection_def)
  show ?thesis
    unfolding disconnect_owned_inner_def
    by (intro holds_bind [OF holds_reads [where Q = "\<lambda>_. only up u"]]) 
       (auto intro!: holds_bind [OF holds_steady [where up = up, OF leads_bypass [OF O]]] holds_bind [OF holds_steady [where up = up, OF leads_restore_policy [OF O]]]
          steady_basic down)
qed

section \<open>Waiting for the tunnel\<close>

lemma holds_ignore:
  "holds P m Q E \<Longrightarrow> (\<And>x s. Q x s \<Longrightarrow> R s) \<Longrightarrow> (\<And>e s. E e s \<Longrightarrow> R s) \<Longrightarrow> holds P (aignore m) (\<lambda>_. R) E'"
  unfolding holds_def aignore_def by (fastforce split: prod.splits sum.splits)

lemma holds_try:
  "holds P m Q E \<Longrightarrow> holds P (atry m) (\<lambda>r s. case r of Inl e \<Rightarrow> E e s | Inr x \<Rightarrow> Q x s) E'"
  unfolding holds_def atry_def by (fastforce split: prod.splits sum.splits)

lemma holds_sum:
  "(\<And>e. z = Inl e \<Longrightarrow> holds P (a e) Q E) \<Longrightarrow> (\<And>x. z = Inr x \<Longrightarrow> holds P (b x) Q E)
    \<Longrightarrow> holds P (case z of Inl e \<Rightarrow> a e | Inr x \<Rightarrow> b x) Q E"
  by (cases z) auto

lemma ready_is_connected: "fst (wait_for_local_agent_ready updates) = Inr snapshot \<Longrightarrow> sn_connected snapshot"
  by (induction updates rule: wait_for_local_agent_ready.induct) (auto simp: Let_def split: if_splits)

text \<open>What a wait starts from: \<open>G\<close> holds as long as it goes on, \<open>E\<close> after it was cleaned up or could not observe the tunnel.\<close>

definition attempt_laws :: "'w conn_io \<Rightarrow> ('w \<Rightarrow> string set) \<Rightarrow> string \<Rightarrow> ('w runtime \<Rightarrow> bool) \<Rightarrow> ('w runtime \<Rightarrow> bool) \<Rightarrow> bool" where
  "attempt_laws co up u G E \<longleftrightarrow>
     ordinary co (\<lambda>w w'. up w' \<subseteq> up w) \<and> steady up G
     \<and> (\<forall>s. G s \<longrightarrow> rt_selected s \<noteq> None \<and> G (s\<lparr>rt_local_agent := True\<rparr>) \<and> (\<forall>x. G (s\<lparr>rt_snapshot := x\<rparr>)))
     \<and> holds G (cleanup_owned_connection co u) (\<lambda>_. E) (\<lambda>_ _. False)
     \<and> holds G (observe_blocking co) (\<lambda>_. G) (\<lambda>_. E)"

lemma attempt_lawsD:
  assumes "attempt_laws co up u G E"
  shows "ordinary co (\<lambda>w w'. up w' \<subseteq> up w)" "steady up G" "G s \<Longrightarrow> rt_selected s \<noteq> None"
    "G s \<Longrightarrow> G (s\<lparr>rt_local_agent := True\<rparr>)" "G s \<Longrightarrow> G (s\<lparr>rt_snapshot := x\<rparr>)"
    "holds G (cleanup_owned_connection co u) (\<lambda>_. E) (\<lambda>_ _. False)" "holds G (observe_blocking co) (\<lambda>_. G) (\<lambda>_. E)"
  using assms unfolding attempt_laws_def by metis+

lemma fail_clean_post:
  assumes "attempt_laws co up u G E"
  shows "holds G (fail_clean co u e) Q (\<lambda>_. E)"
  unfolding fail_clean_def
  by (rule holds_bind_err [OF attempt_lawsD(6) [OF assms]]) (auto intro: holds_fail)

lemma ask_never_fails: "holds P (ask f) (\<lambda>_ _. True) (\<lambda>_ _. False)"
  by (simp add: holds_def ask_def split: prod.splits)

lemma holds_asked:
  assumes "ordinary co (\<lambda>w w'. up w' \<subseteq> up w)" "steps (\<lambda>w w'. up w' \<subseteq> up w) f" "steady up P"
  shows "holds P (ask f) (\<lambda>_. P) E"
  using holds_steady [OF leads_ask [OF assms(1,2)] assms(3)] ask_never_fails [of P f]
  unfolding holds_def by (fastforce split: prod.splits sum.splits)

lemma load_never_fails: "holds P (load_attempt co) (\<lambda>_ _. True) (\<lambda>_ _. False)"
  by (simp add: holds_def load_attempt_def ask_def abind_def split: prod.splits)

lemma await_agent_confirmed:
  assumes O: "ordinary co (\<lambda>w w'. up w' \<subseteq> up w)" and P: "steady up P"
  shows "holds P (unless_cancelled co attempt (await_agent co)) (\<lambda>snapshot s. P s \<and> sn_connected snapshot) (\<lambda>_. P)"
proof -
  have await: "holds P (await_agent co) (\<lambda>snapshot s. P s \<and> sn_connected snapshot) (\<lambda>_. P)"
    unfolding await_agent_def
    by (rule holds_bind [OF holds_asked [OF O ordinaryD(8) [OF O] P]])
      (auto split: prod.splits intro!: holds_fail holds_lift dest: ready_is_connected)
  show ?thesis
    unfolding unless_cancelled_def
    by (rule holds_bind [OF holds_asked [OF O ordinaryD(10) [OF O] P]], rule holds_if)
      (rule holds_bind [OF holds_steady [where up = up, OF leads_check [OF O] P] await], rule await)
qed

text \<open>One round of the wait: it goes on, or ends with a session the Local Agent has confirmed, or fails.\<close>

definition confirmed :: "'w runtime \<Rightarrow> bool" where
  "confirmed s \<longleftrightarrow> rt_local_agent s \<and> sn_connected (rt_snapshot s)"

lemma secure_session_round:
  assumes A: "attempt_laws co up u G E" and C: "to_state observation = Connected"
  shows "holds G (secure_session co job u deadline observation) (\<lambda>r s. G s \<and> (r \<noteq> None \<longrightarrow> confirmed s)) (\<lambda>_. E)"
proof -
  note O = attempt_lawsD(1) [OF A] and G = attempt_lawsD(2) [OF A] and clean = fail_clean_post [OF A]
  let ?agent = "\<lambda>s. G s \<and> rt_local_agent s" and ?Q = "\<lambda>r s. G s \<and> (r \<noteq> None \<longrightarrow> confirmed s)"
  have agent: "steady up ?agent" by (intro steady_conj G steady_basic)
  have bypass: "holds G (arescue (reconcile_split_kill_switch_bypass (co_services co) (cj_settings job) True) (fail_clean co u))
      (\<lambda>_. G) (\<lambda>_. E)"
    by (rule holds_rescue [OF holds_steady [where up = up, OF leads_bypass [OF O] G] clean])
  have started: "holds G (atry (start_agent co job)) (\<lambda>r s. case r of Inl e \<Rightarrow> G s | Inr x \<Rightarrow> G s) (\<lambda>_. E)"
    by (rule holds_try [OF holds_steady [where up = up, OF leads_start_agent [OF O] G]])
  have again: "holds G (abind (ask (co_now co)) (\<lambda>now.
      if ne_code e = ''local_agent_connect_timeout'' \<and> now < deadline then aret None else fail_clean co u e)) ?Q (\<lambda>_. E)" for e
    by (rule holds_bind [OF holds_asked [OF O ordinaryD(12) [OF O] G]]) (auto intro!: clean holds_if holds_ret)
  have ready: "holds ?agent (arescue (unless_cancelled co (cj_attempt job) (await_agent co)) (fail_clean co u))
      (\<lambda>snapshot s. ?agent s \<and> sn_connected snapshot) (\<lambda>_. E)"
    by (rule holds_rescue [OF await_agent_confirmed [OF O agent]], rule holds_weaken [OF clean]) auto
  have show_it: "G s \<Longrightarrow> emit_connection observation s = s" for s
    using attempt_lawsD(3) [OF A, of s] C by (auto simp: emit_connection_def)
  have finish: "holds G
      (abind (awrites (\<lambda>s. s\<lparr>rt_local_agent := True\<rparr>)) (\<lambda>_.
       abind (arescue (unless_cancelled co (cj_attempt job) (await_agent co)) (fail_clean co u)) (\<lambda>ready.
       abind (awrites (\<lambda>s. emit_connection observation (s\<lparr>rt_snapshot := ready\<rparr>))) (\<lambda>_.
       aret (Some (connect_answer co job)))))) ?Q (\<lambda>_. E)"
    by (rule holds_bind [OF holds_writes [where Q = "\<lambda>_. ?agent"]], simp add: attempt_lawsD(4) [OF A], rule holds_bind [OF ready],
        rule holds_bind [OF holds_writes [where Q = "\<lambda>_ s. G s \<and> confirmed s"]],
        simp add: attempt_lawsD(5) [OF A] show_it confirmed_def, rule holds_ret, simp)
  show ?thesis
    unfolding secure_session_def
    by (rule holds_bind [OF bypass], rule holds_bind [OF started], rule holds_sum)
      (simp_all only: sum.case again finish)
qed

lemma poll_tunnel_round:
  assumes A: "attempt_laws co up u G E"
  shows "holds G (poll_tunnel co job u conflicts started observation) (\<lambda>r s. G s \<and> (r \<noteq> None \<longrightarrow> confirmed s)) (\<lambda>_. E)"
    (is "holds _ _ ?Q _")
proof -
  note O = attempt_lawsD(1) [OF A] and G = attempt_lawsD(2) [OF A] and clean = fail_clean_post [OF A]
  have now: "holds G (ask (co_now co)) (\<lambda>_. G) (\<lambda>_. E)"
    by (rule holds_asked [OF O ordinaryD(12) [OF O] G])
  have sleep: "holds G (ask (\<lambda>w. ((), co_sleep co n w))) (\<lambda>_. G) (\<lambda>_. E)" for n
    by (rule holds_asked [OF O _ G]) (use ordinaryD(13) [OF O] in \<open>auto simp: steps_def\<close>)
  have failed: "holds G (abind (awrites (emit_connection observation)) (\<lambda>_. fail_clean co u e)) ?Q (\<lambda>_. E)"
    if "to_state observation = TunnelError" for e
    by (rule holds_bind [OF holds_writes [where Q = "\<lambda>_. G"] clean])
      (use attempt_lawsD(3) [OF A] that in \<open>fastforce simp: emit_connection_def\<close>)
  have ret: "holds G (aret None) ?Q (\<lambda>_. E)" by (rule holds_ret) simp
  show ?thesis
    unfolding poll_tunnel_def Let_def
    by (cases "to_state observation")
      (simp_all only: tunnel_state.case, (intro holds_bind [OF now] holds_bind [OF sleep] holds_if clean failed ret
        secure_session_round [OF A] | assumption)+)
qed

lemma await_tunnel_post:
  assumes A: "attempt_laws co up u G E"
  shows "pholds G (await_tunnel co job u conflicts started rounds) (\<lambda>_ s. G s \<and> confirmed s) (\<lambda>_. E)"
proof (induction rounds)
  case 0
  then show ?case by (simp add: pholds_def)
next
  case (Suc rounds)
  note O = attempt_lawsD(1) [OF A] and G = attempt_lawsD(2) [OF A]
  have load: "holds G (load_attempt co) (\<lambda>_. G) (\<lambda>_. E)"
    using holds_steady [where up = up, OF leads_plain(7) [OF O] G] load_never_fails [of G co]
    unfolding holds_def by (fastforce split: prod.splits sum.splits)
  have next_round: "pholds (\<lambda>s. G s \<and> (answer \<noteq> None \<longrightarrow> confirmed s))
      (case answer of None \<Rightarrow> await_tunnel co job u conflicts started rounds | Some a \<Rightarrow> total (aret a))
      (\<lambda>_ s. G s \<and> confirmed s) (\<lambda>_. E)" for answer
    by (cases answer) (auto intro!: Suc pholds_total holds_ret)
  show ?case
    unfolding await_tunnel.simps
    by (rule pholds_bind [OF pholds_total [OF load]], rule pholds_if, rule pholds_total [OF fail_clean_post [OF A]],
        rule pholds_bind [OF pholds_total [OF attempt_lawsD(7) [OF A]]],
        rule pholds_bind [OF pholds_total [OF poll_tunnel_round [OF A]] next_round])
qed

text \<open>Whatever fails, every tunnel stays accounted for.\<close>

definition going :: "('w \<Rightarrow> string set) \<Rightarrow> string \<Rightarrow> connection_target \<Rightarrow> 'w runtime \<Rightarrow> bool" where
  "going up u target s \<longleftrightarrow> up (rt_world s) \<subseteq> {u} \<and> rt_owned_uuid s = Some u \<and> rt_selected s = Some target"

lemma steady_going: "steady up (going up u target)"
  unfolding going_def by (intro steady_conj steady_basic)

lemma going_only: "going up u target s \<Longrightarrow> only up u s"
  by (auto simp: going_def only_def tracked_def)

lemma only_tracked: "only up u s \<Longrightarrow> tracked up s"
  by (simp add: only_def)

lemma going_laws:
  assumes T: "tunnel_services co up"
  shows "attempt_laws co up u (going up u target) (tracked up)"
proof -
  note O = tunnel_servicesD(1) [OF T]
  have clean: "holds (going up u target) (cleanup_owned_connection co u) (\<lambda>_. tracked up) (\<lambda>_ _. False)"
    unfolding cleanup_owned_connection_def
    by (rule holds_weaken [OF holds_ignore [OF disconnect_removes [OF T], of "tracked up"]])
      (auto simp: only_def tracked_def going_def)
  have look: "holds (going up u target) (observe_blocking co) (\<lambda>_. going up u target) (\<lambda>_. tracked up)"
    by (rule holds_steady_to [where up = up, OF leads_plain(6) [OF O] steady_going]) (auto intro: only_tracked going_only)
  show ?thesis
    unfolding attempt_laws_def using O steady_going clean look by (auto simp: going_def)
qed

section \<open>Starting a connection\<close>

lemma observe_blocking_idle:
  assumes T: "tunnel_services co up" and P: "steady up P"
  shows "holds P (observe_blocking co) (\<lambda>observation s. P s \<and> (to_state observation = Disconnected \<longrightarrow> up (rt_world s) = {})) (\<lambda>_. P)"
  unfolding holds_def
proof (intro allI impI)
  fix s assume s: "P s"
  obtain r w where r: "io_observe (co_services co) (rt_world s) = (r, w)" by fastforce
  have "frame (\<lambda>w w'. up w' \<subseteq> up w) s (s\<lparr>rt_world := w\<rparr>)"
    using services(1) [OF tunnel_servicesD(1) [OF T]] r by (simp add: steps_def frame_def kept_def) (metis snd_conv)
  then have "P (s\<lparr>rt_world := w\<rparr>)" using s P unfolding steady_def by metis
  then show "case observe_blocking co s of (Inl e, s') \<Rightarrow> P s'
      | (Inr x, s') \<Rightarrow> P s' \<and> (to_state x = Disconnected \<longrightarrow> up (rt_world s') = {})"
    using r tunnel_servicesD(3) [OF T, of "rt_world s"]
    by (cases r) (auto simp: observe_blocking_def service_call_def)
qed

lemma replaced_is_owned: "replacement_connection_uuid observation owned = Inr (Some u) \<Longrightarrow> owned = Some u"
  "replacement_connection_uuid observation owned = Inr None \<Longrightarrow> to_state observation = Disconnected"
  by (auto simp: replacement_connection_uuid_def split: if_splits bool.splits option.splits prod.splits)

lemma replace_current_idle:
  assumes T: "tunnel_services co up"
  shows "holds (tracked up) (replace_current co attempt) (\<lambda>_ s. up (rt_world s) = {}) (\<lambda>_. tracked up)"
proof -
  note O = tunnel_servicesD(1) [OF T]
  let ?seen = "\<lambda>observation s. tracked up s \<and> (to_state observation = Disconnected \<longrightarrow> up (rt_world s) = {})"
  have S: "steady up (?seen observation)" for observation
    by (cases "to_state observation = Disconnected") (auto intro: steady_conj steady_basic)
  have check: "holds (?seen observation) (check_connection_attempt co attempt) (\<lambda>_. ?seen observation) (\<lambda>_. tracked up)"
    for observation by (rule holds_steady_to [where up = up, OF leads_check [OF O] S]) simp
  have left: "holds (\<lambda>s. up (rt_world s) = {} \<and> rt_owned_uuid s = None)
      (abind (observe_blocking co) (\<lambda>left. aguard (to_state left = Disconnected) e)) (\<lambda>_ s. up (rt_world s) = {}) (\<lambda>_. tracked up)" for e
    by (rule holds_bind [OF holds_steady_to [where up = up, OF leads_plain(6) [OF O]]])
      (auto intro!: steady_conj steady_basic holds_guard simp: tracked_def)
  have replace: "holds (\<lambda>s. tracked up s \<and> rt_owned_uuid s = Some u) (abind (disconnect_owned_inner (co_services co) u) (\<lambda>_.
      abind (observe_blocking co) (\<lambda>left. aguard (to_state left = Disconnected) e))) (\<lambda>_ s. up (rt_world s) = {}) (\<lambda>_. tracked up)" for u e
    by (rule holds_bind [OF holds_weaken [OF disconnect_removes [OF T, of u]] left]) (auto simp: only_def)
  let ?then = "\<lambda>r. case r of None \<Rightarrow> aret () | Some u \<Rightarrow> abind (disconnect_owned_inner (co_services co) u) (\<lambda>_.
      abind (observe_blocking co) (\<lambda>left. aguard (to_state left = Disconnected) (may_retry (native_error_new ''disconnect_failed''
        ''The active VPN connection did not stop before reconnecting''))))"
  have decide: "holds (\<lambda>s. ?seen observation s \<and> rt_owned_uuid s = owned)
      (abind (alift (replacement_connection_uuid observation owned)) ?then) (\<lambda>_ s. up (rt_world s) = {}) (\<lambda>_. tracked up)" for observation owned
  proof (cases "replacement_connection_uuid observation owned")
    case (Inl e)
    then show ?thesis by (simp add: holds_def abind_def alift_def)
  next
    case (Inr r)
    show ?thesis
      by (rule holds_bind [OF holds_lift [where Q = "\<lambda>x s. ?seen observation s \<and> rt_owned_uuid s = owned \<and> x = r"]])
        (use Inr replaced_is_owned [of observation owned] in \<open>auto split: option.splits intro!: holds_ret holds_weaken [OF replace] simp: holds_when\<close>)
  qed
  show ?thesis
    unfolding replace_current_def
    by (rule holds_bind [OF observe_blocking_idle [OF T steady_basic(1)]], rule holds_bind [OF check],
        rule holds_bind [OF holds_reads [where Q = "\<lambda>owned s. ?seen _ s \<and> rt_owned_uuid s = owned"] decide]) simp
qed

lemma profile_endpoint_valid:
  "vpn_profile_new host target protocol session config settings profile_id w = (Inr p, w') \<Longrightarrow>
     validate_with_key (pi_crypto host) (ct_physical target) = Inr ()"
  by (auto simp: vpn_profile_new_def openvpn_profile_new_def protun_profile_new_def openvpn_checks_def abind_def alift_def rbind_Inr
      Let_def split: if_splits sum.splits prod.splits)

lemma new_profile_valid:
  assumes T: "tunnel_services co up" and P: "steady up P"
  shows "holds P (service_call (vpn_profile_new (co_profile co) target protocol session config settings profile_id))
    (\<lambda>_ s. P s \<and> validate_with_key (pi_crypto (co_profile co)) (ct_physical target) = Inr ()) (\<lambda>_. P)"
proof -
  have "holds P (service_call (vpn_profile_new (co_profile co) target protocol session config settings profile_id)) (\<lambda>_. P) (\<lambda>_. P)"
    by (rule holds_steady [OF leads_call [OF tunnel_servicesD(1) [OF T] steps_profile_new [OF tunnel_servicesD(1) [OF T]]] P])
  then show ?thesis
    unfolding holds_def service_call_def
    by (auto split: prod.splits sum.splits dest: profile_endpoint_valid)
qed

lemma activate_tunnel_going:
  assumes T: "tunnel_services co up"
  shows "holds (\<lambda>s. up (rt_world s) = {}) (activate_tunnel co job profile conflicts)
    (\<lambda>activation s. up (rt_world s) \<subseteq> {profile_uuid profile} \<and> to_uuid activation = Some (profile_uuid profile))
    (\<lambda>_ s. up (rt_world s) = {})"
proof -
  note O = tunnel_servicesD(1) [OF T]
  let ?none = "\<lambda>s. up (rt_world s) = {}"
  have call: "holds ?none (service_call (co_connect co profile))
      (\<lambda>activation s. up (rt_world s) \<subseteq> {profile_uuid profile} \<and> to_uuid activation = Some (profile_uuid profile)) (\<lambda>_. ?none)"
    using tunnel_servicesD(5) [OF T, of profile] unfolding holds_def service_call_def
    by (auto split: prod.splits sum.splits) fastforce+
  have ks: "holds ?none (service_call (io_kill_switch (co_services co) m on ip leak)) (\<lambda>_. ?none) (\<lambda>_. ?none)" for m on ip leak
    by (rule holds_steady [where up = up, OF leads_call [OF O services(2) [OF O]] steady_basic(3)])
  have restore: "holds ?none (restore_global_destination_policy (co_services co)) (\<lambda>_. ?none) (\<lambda>_. ?none)"
    by (rule holds_steady [where up = up, OF leads_restore_policy [OF O] steady_basic(3)])
  show ?thesis
    unfolding activate_tunnel_def Let_def
    by (rule holds_rescue [OF holds_bind [OF ks holds_rescue [OF call holds_bind [OF holds_ignore [where R = ?none, OF ks]]]]
        holds_bind [OF restore]])
      (auto intro: holds_fail)
qed

lemma begin_connection_going:
  assumes T: "tunnel_services co up"
  shows "holds (tracked up) (begin_connection co job)
    (\<lambda>(profile, conflicts, started) s. going up (profile_uuid profile) (cj_target job) s
      \<and> validate_with_key (pi_crypto (co_profile co)) (ct_physical (cj_target job)) = Inr ())
    (\<lambda>_. tracked up)"
proof -
  note O = tunnel_servicesD(1) [OF T]
  let ?valid = "validate_with_key (pi_crypto (co_profile co)) (ct_physical (cj_target job)) = Inr ()"
  let ?none = "\<lambda>s. up (rt_world s) = {} \<and> ?valid"
  have to: "?none s \<Longrightarrow> tracked up s" "up (rt_world s) = {} \<Longrightarrow> tracked up s" for s by (simp_all add: tracked_def)
  have N: "steady up ?none" by (intro steady_conj steady_basic)
  note plain = holds_steady_to [where up = up, OF _ N to(1)]
  have conflicts: "holds ?none (arescue (service_call (co_conflicts co)) (\<lambda>_. aret [])) (\<lambda>_. ?none) (\<lambda>_. tracked up)"
    by (intro plain leads_rescue leads_call [OF O] ordinaryD(5) [OF O] leads_plain [OF O])
  have policy: "holds ?none (apply_connection_destination_policy (co_services co) g t) (\<lambda>_. ?none) (\<lambda>_. tracked up)" for g t
    by (intro plain leads_connection_policy [OF O])
  have check: "holds ?none (arescue (check_connection_attempt co a)
      (\<lambda>e. abind (restore_global_destination_policy (co_services co)) (\<lambda>_. afail e))) (\<lambda>_. ?none) (\<lambda>_. tracked up)" for a
    by (intro plain leads_rescue leads_bind leads_check [OF O] leads_restore_policy [OF O] leads_plain [OF O])
  have activate: "holds ?none (activate_tunnel co job profile conflicts)
      (\<lambda>activation s. (up (rt_world s) \<subseteq> {profile_uuid profile} \<and> to_uuid activation = Some (profile_uuid profile)) \<and> ?valid)
      (\<lambda>_. tracked up)" for profile conflicts
    by (rule holds_when, rule holds_weaken [OF activate_tunnel_going [OF T]]) (auto simp: tracked_def)
  have now: "holds (\<lambda>s. going up u (cj_target job) s \<and> ?valid) (ask (co_now co)) (\<lambda>_ s. going up u (cj_target job) s \<and> ?valid) (\<lambda>_. tracked up)"
    for u
    by (intro holds_steady_to [where up = up, OF leads_ask [OF O ordinaryD(12) [OF O]]] steady_conj steady_going steady_basic)
      (auto intro: only_tracked going_only)
  have profile: "holds (\<lambda>s. up (rt_world s) = {})
      (service_call (vpn_profile_new (co_profile co) (cj_target job) protocol session config settings profile_id))
      (\<lambda>_. ?none) (\<lambda>_. tracked up)" for protocol session config settings profile_id
    by (rule holds_weaken [OF new_profile_valid [OF T steady_basic(3)]]) (auto intro: to)
  let ?Q = "\<lambda>(profile, conflicts, started) s. going up (profile_uuid profile) (cj_target job) s \<and> ?valid"
  have finish: "holds (\<lambda>s. (up (rt_world s) \<subseteq> {profile_uuid p} \<and> to_uuid a = Some (profile_uuid p)) \<and> ?valid)
      (abind (awrites (\<lambda>s. s\<lparr>rt_owned_uuid := to_uuid a, rt_selected := Some (cj_target job)\<rparr>)) (\<lambda>_.
       abind (ask (co_now co)) (\<lambda>started. aret (p, cs, started)))) ?Q (\<lambda>_. tracked up)" for p a cs
    by (rule holds_bind [OF holds_writes [where Q = "\<lambda>_ s. going up (profile_uuid p) (cj_target job) s \<and> ?valid"]],
        simp add: going_def, rule holds_bind [OF now], rule holds_ret, simp)
  show ?thesis
    unfolding begin_connection_def
    by (rule holds_bind [OF replace_current_idle [OF T]], rule holds_bind [OF profile], rule holds_bind [OF conflicts],
        rule holds_bind [OF policy], rule holds_bind [OF check], rule holds_bind [OF activate finish])
qed

lemma prepare_attempt_tracked:
  assumes T: "tunnel_services co up"
  shows "holds (tracked up) (prepare_attempt co attempt params) (\<lambda>_. tracked up) (\<lambda>_. tracked up)"
proof -
  note O = tunnel_servicesD(1) [OF T]
  have session: "leads (frame (\<lambda>w w'. up w' \<subseteq> up w)) require_session"
    by (auto simp: leads_def require_session_def afail_def aret_def frame_def reflp_def transp_def split: option.splits)
  show ?thesis
    unfolding prepare_attempt_def
    by (intro holds_steady [where up = up] leads_bind leads_prod leads_unless_cancelled [OF O] tunnel_servicesD(2) [OF T]
        leads_plain [OF O] session leads_frame_writes [OF O] steady_basic) (simp add: kept_def)
qed

lemma choose_connection_tracked:
  assumes T: "tunnel_services co up"
  shows "holds (tracked up) (choose_connection co attempt params known) (\<lambda>_. tracked up) (\<lambda>_. tracked up)"
  unfolding choose_connection_def
  by (intro holds_steady [where up = up] leads_prod leads_bind leads_plain [OF tunnel_servicesD(1) [OF T]] steady_basic)

lemma connection_connect_tracked:
  assumes T: "tunnel_services co up"
  shows "pholds (tracked up) (connection_connect co rounds params)
    (\<lambda>_ s. \<exists>u target. going up u target s \<and> confirmed s
      \<and> validate_with_key (pi_crypto (co_profile co)) (ct_physical target) = Inr ()) (\<lambda>_. tracked up)"
proof -
  let ?valid = "\<lambda>t. validate_with_key (pi_crypto (co_profile co)) (ct_physical t) = Inr ()"
  have count: "holds (tracked up) fetch_add (\<lambda>_. tracked up) (\<lambda>_. tracked up)"
    by (simp add: holds_def fetch_add_def tracked_def)
  have await: "pholds (\<lambda>s. going up u target s \<and> ?valid target) (await_tunnel co job u conflicts started rounds)
      (\<lambda>_ s. \<exists>u target. going up u target s \<and> confirmed s \<and> ?valid target) (\<lambda>_. tracked up)" for u target job conflicts started
    by (rule pholds_when, rule pholds_weaken [OF await_tunnel_post [OF going_laws [OF T]]]) auto
  show ?thesis
    unfolding connection_connect_def
    by (rule pholds_bind [OF pholds_total [OF count]], rule pholds_bind [OF pholds_total [OF prepare_attempt_tracked [OF T]]],
        rule pholds_bind [OF pholds_total [OF choose_connection_tracked [OF T]]],
        rule pholds_bind [OF pholds_total [OF begin_connection_going [OF T]]]) (auto intro: await split: prod.splits)
qed

section \<open>Clean-up that works\<close>

text \<open>Services that carry out what a clean-up asks of them.\<close>

definition obliging :: "'w services \<Rightarrow> bool" where
  "obliging io \<longleftrightarrow>
     (\<forall>w. \<not> isl (fst (io_observe io w))) \<and> (\<forall>w. \<not> isl (fst (io_split_bypass io False [] w)))
     \<and> (\<forall>u w. \<not> isl (fst (io_disconnect_uuid io u w))) \<and> (\<forall>m ip leak w. \<not> isl (fst (io_kill_switch io m False ip leak w)))
     \<and> (\<forall>ranges w. \<not> isl (fst (io_destination_policy io ranges w)))
     \<and> (\<forall>w. case fst (io_dns_servers io w) of Inl _ \<Rightarrow> False | Inr servers \<Rightarrow> \<not> isl (traverse dns_host_range servers))"

lemma holds_conj:
  "holds P m Q E \<Longrightarrow> holds P' m Q' E' \<Longrightarrow> holds (\<lambda>s. P s \<and> P' s) m (\<lambda>x s. Q x s \<and> Q' x s) (\<lambda>e s. E e s \<and> E' e s)"
  unfolding holds_def by (fastforce split: prod.splits sum.splits)

lemma call_succeeds:
  assumes "\<And>w. \<not> isl (fst (m w))"
  shows "holds rt_policy_available (service_call m) (\<lambda>_. rt_policy_available) (\<lambda>_ _. False)"
  using assms unfolding holds_def service_call_def by (auto split: prod.splits sum.splits) (metis fst_conv isl_def)

lemma writes_succeed:
  "(\<And>s. rt_policy_available (g s) = rt_policy_available s) \<Longrightarrow>
    holds rt_policy_available (awrites g) (\<lambda>_. rt_policy_available) (\<lambda>_ _. False)"
  by (simp add: holds_def)

lemma policy_succeeds:
  assumes "obliging io"
  shows "holds rt_policy_available (apply_destination_policy io t) (\<lambda>_. rt_policy_available) (\<lambda>_ _. False)"
proof -
  have dns: "holds rt_policy_available (service_call (io_dns_servers io))
      (\<lambda>servers s. rt_policy_available s \<and> \<not> isl (traverse dns_host_range servers)) (\<lambda>_ _. False)"
    using assms unfolding holds_def service_call_def obliging_def
    by (auto split: prod.splits sum.splits) (metis fst_conv sum.case)+
  have ranges: "\<not> isl (traverse dns_host_range servers) \<Longrightarrow> \<not> isl (destination_ranges t (Inr servers))" for servers
    by (auto simp: destination_ranges_def Let_def isl_def rbind_Inl split: sum.splits)
  have lift: "\<not> isl r \<Longrightarrow> holds rt_policy_available (alift r) (\<lambda>_. rt_policy_available) (\<lambda>_ _. False)" for r :: "string list native_res"
    by (rule holds_lift) (auto simp: isl_def)
  have "holds rt_policy_available (if ns_allow_local_dns t
        then abind (service_call (io_dns_servers io)) (\<lambda>servers. alift (destination_ranges t (Inr servers)))
        else alift (destination_ranges t (Inr []))) (\<lambda>_. rt_policy_available) (\<lambda>_ _. False)"
    by (rule holds_if, rule holds_bind [OF dns], rule holds_when, rule lift, erule ranges, rule lift, rule ranges) simp
  note ranges_read = this
  have reads: "holds rt_policy_available (areads rt_policy_available) (\<lambda>x s. rt_policy_available s \<and> x) (\<lambda>_ _. False)"
    by (rule holds_reads) simp
  have put: "holds rt_policy_available (service_call (io_destination_policy io rs)) (\<lambda>_. rt_policy_available) (\<lambda>_ _. False)" for rs
    by (rule call_succeeds) (use assms in \<open>simp add: obliging_def\<close>)
  have available: "holds (\<lambda>s. rt_policy_available s \<and> x) (aguard x e) (\<lambda>_. rt_policy_available) (\<lambda>_ _. False)" for x e
    by (rule holds_guard) auto
  show ?thesis
    unfolding apply_destination_policy_def
    by (rule holds_bind [OF reads], rule holds_bind [OF available], rule holds_bind [OF ranges_read put])
qed

lemma disconnect_succeeds:
  assumes "obliging io"
  shows "holds rt_policy_available (disconnect_owned_inner io u) (\<lambda>_. rt_policy_available) (\<lambda>_ _. False)"
proof -
  have calls: "\<not> isl (fst (io_observe io w))" "\<not> isl (fst (io_split_bypass io False [] w))" "\<not> isl (fst (io_disconnect_uuid io u w))"
    "\<not> isl (fst (io_kill_switch io m False ip leak w))" for w m ip leak
    using assms by (simp_all add: obliging_def)
  have bypass: "holds rt_policy_available (reconcile_split_kill_switch_bypass io t False) (\<lambda>_. rt_policy_available) (\<lambda>_ _. False)" for t
  proof -
    have "holds rt_policy_available (abind (service_call (io_split_bypass io False [])) (\<lambda>_. awrites (\<lambda>s. s\<lparr>rt_bypass_active := False\<rparr>)))
        (\<lambda>_. rt_policy_available) (\<lambda>_ _. False)"
      by (intro holds_bind [OF call_succeeds] writes_succeed) (auto simp: calls)
    then show ?thesis by (auto simp: holds_def bypass_off)
  qed
  have restore: "holds rt_policy_available (restore_global_destination_policy io) (\<lambda>_. rt_policy_available) (\<lambda>_ _. False)"
    unfolding restore_global_destination_policy_def
    by (intro holds_bind [OF holds_reads [where Q = "\<lambda>_. rt_policy_available"]] holds_if holds_ret
        holds_bind [OF policy_succeeds [OF assms]] writes_succeed) auto
  have down: "holds rt_policy_available (take_down io t ip u) (\<lambda>_. rt_policy_available) (\<lambda>_ _. False)" for t ip
    unfolding take_down_def stop_local_agent_def
    by (intro holds_bind [OF writes_succeed] holds_bind [OF call_succeeds] writes_succeed) (auto simp: calls emit_connection_def)
  show ?thesis
    unfolding disconnect_owned_inner_def
    by (rule holds_bind [OF holds_reads [where Q = "\<lambda>_. rt_policy_available"]])
      (auto intro!: holds_bind [OF bypass] holds_bind [OF restore] down)
qed

lemma clean_laws:
  assumes T: "tunnel_services co up" and C: "obliging (co_services co)"
  shows "attempt_laws co up u (\<lambda>s. going up u target s \<and> rt_policy_available s) (\<lambda>s. up (rt_world s) = {} \<and> rt_owned_uuid s = None)"
proof -
  note O = tunnel_servicesD(1) [OF T]
  let ?G = "\<lambda>s. going up u target s \<and> rt_policy_available s" and ?E = "\<lambda>s. up (rt_world s) = {} \<and> rt_owned_uuid s = None"
  have G: "steady up ?G" by (rule steady_conj [OF steady_going]) (auto simp: steady_def frame_def kept_def)
  have down: "holds ?G (disconnect_owned_inner (co_services co) u) (\<lambda>_. ?E) (\<lambda>_ _. False)"
    by (rule holds_weaken [OF holds_conj [OF disconnect_removes [OF T] disconnect_succeeds [OF C]]]) (auto intro: going_only)
  have clean: "holds ?G (cleanup_owned_connection co u) (\<lambda>_. ?E) (\<lambda>_ _. False)"
    unfolding cleanup_owned_connection_def by (rule holds_ignore [OF down]) auto
  have "holds ?G (observe_blocking co) (\<lambda>_ s. ?G s \<and> rt_policy_available s) (\<lambda>_ s. ?G s \<and> False)"
    unfolding observe_blocking_def
    by (rule holds_weaken [OF holds_conj [OF holds_steady [where up = up, OF leads_call [OF O services(1) [OF O]] G] call_succeeds]])
      (use C in \<open>auto simp: obliging_def\<close>)
  then have look: "holds ?G (observe_blocking co) (\<lambda>_. ?G) (\<lambda>_. ?E)" by (rule holds_weaken) auto
  show ?thesis
    unfolding attempt_laws_def using O G clean look by (auto simp: going_def)
qed

text \<open>Up to the activation no step starts a tunnel.\<close>

definition narrows :: "('w \<Rightarrow> string set) \<Rightarrow> 'w runtime \<Rightarrow> 'w runtime \<Rightarrow> bool" where
  "narrows up s s' \<longleftrightarrow> up (rt_world s') \<subseteq> up (rt_world s) \<and> rt_policy_available s' = rt_policy_available s"

lemma narrows_refl: "reflp (narrows up)" and narrows_trans: "transp (narrows up)"
  by (auto simp: narrows_def reflp_def transp_def)

lemma leads_narrows: "leads (frame (\<lambda>w w'. up w' \<subseteq> up w)) m \<Longrightarrow> leads (narrows up) m"
  unfolding leads_def using narrows_refl narrows_trans by (auto simp: frame_def kept_def narrows_def)

lemma writes_narrow:
  "(\<And>s. rt_world (g s) = rt_world s \<and> rt_policy_available (g s) = rt_policy_available s) \<Longrightarrow> leads (narrows up) (awrites g)"
  by (rule leads_writes [OF narrows_refl narrows_trans]) (simp add: narrows_def)

lemma disconnect_narrows:
  assumes T: "tunnel_services co up"
  shows "leads (narrows up) (disconnect_owned_inner (co_services co) u)"
proof -
  note O = tunnel_servicesD(1) [OF T]
  note call = leads_narrows [OF leads_call [OF O]]
  have down: "leads (narrows up) (take_down (co_services co) t ip u)" for t ip
    unfolding take_down_def stop_local_agent_def
    by (intro leads_bind call services [OF O] writes_narrow) (auto simp: emit_connection_def)
  show ?thesis
    unfolding disconnect_owned_inner_def
    by (intro leads_bind leads_prod leads_ret narrows_refl narrows_trans down leads_narrows [OF leads_bypass [OF O]]
        leads_narrows [OF leads_restore_policy [OF O]])
qed

lemma begin_connection_narrows:
  assumes T: "tunnel_services co up"
  shows "holds (\<lambda>s. up (rt_world s) \<subseteq> A \<and> rt_policy_available s) (begin_connection co job) (\<lambda>_. rt_policy_available)
    (\<lambda>_ s. up (rt_world s) \<subseteq> A)"
proof -
  note O = tunnel_servicesD(1) [OF T]
  let ?P = "\<lambda>s. up (rt_world s) \<subseteq> A \<and> rt_policy_available s"
  note plain = leads_narrows [OF leads_plain(1) [OF O]] leads_narrows [OF leads_plain(2) [OF O]] leads_narrows [OF leads_plain(3) [OF O]]
    leads_narrows [OF leads_plain(4) [OF O]] leads_narrows [OF leads_plain(5) [OF O]] leads_narrows [OF leads_plain(6) [OF O]]
    leads_narrows [OF leads_check [OF O]] leads_narrows [OF leads_restore_policy [OF O]]
  have keep: "holds ?P m (\<lambda>_. ?P) (\<lambda>_ s. up (rt_world s) \<subseteq> A)" if "leads (narrows up) m" for m :: "('a runtime, 'x) action"
    by (rule holds_weaken [OF leads_holds [OF that, of ?P]]) (auto simp: narrows_def)
  have replace: "leads (narrows up) (replace_current co a)" for a
    unfolding replace_current_def by (intro leads_bind leads_option plain disconnect_narrows [OF T])
  have check: "leads (narrows up) (arescue (check_connection_attempt co a)
      (\<lambda>e. abind (restore_global_destination_policy (co_services co)) (\<lambda>_. afail e)))" for a
    by (intro leads_rescue leads_bind plain)
  have conflicts: "leads (narrows up) (arescue (service_call (co_conflicts co)) (\<lambda>_. aret []))"
    by (intro leads_rescue plain leads_narrows [OF leads_call [OF O]] ordinaryD(5) [OF O])
  have ks: "holds ?P (service_call (io_kill_switch (co_services co) m on ip leak)) (\<lambda>_. ?P) (\<lambda>_ s. ?P s)" for m on ip leak
    by (rule leads_holds [OF leads_narrows [OF leads_call [OF O services(2) [OF O]]]]) (auto simp: narrows_def)
  have call: "holds ?P (service_call (co_connect co profile)) (\<lambda>_. rt_policy_available) (\<lambda>_. ?P)" for profile
    using tunnel_servicesD(5) [OF T, of profile] unfolding holds_def service_call_def
    by (auto split: prod.splits sum.splits) fastforce
  have activate: "holds ?P (activate_tunnel co job profile cs) (\<lambda>_. rt_policy_available) (\<lambda>_ s. up (rt_world s) \<subseteq> A)" for profile cs
    unfolding activate_tunnel_def Let_def
    by (rule holds_rescue [OF holds_bind [OF ks holds_rescue [OF call holds_bind [OF holds_ignore [where R = ?P, OF ks]]]]
        holds_bind [OF keep [OF leads_narrows [OF leads_restore_policy [OF O]]]]]) (auto intro: holds_fail)
  have finish: "holds rt_policy_available (abind (awrites (\<lambda>s. s\<lparr>rt_owned_uuid := to_uuid a, rt_selected := Some (cj_target job)\<rparr>)) (\<lambda>_.
       abind (ask (co_now co)) (\<lambda>started. aret (p, cs, started)))) (\<lambda>_. rt_policy_available) (\<lambda>_ s. up (rt_world s) \<subseteq> A)" for p a cs
    by (simp add: holds_def abind_def ask_def aret_def split: prod.splits)
  show ?thesis
    unfolding begin_connection_def
    by (rule holds_bind [OF keep [OF replace]], rule holds_bind [OF keep [OF leads_narrows [OF leads_call [OF O steps_profile_new [OF O]]]]],
        rule holds_bind [OF keep [OF conflicts]], rule holds_bind [OF keep [OF leads_narrows [OF leads_connection_policy [OF O]]]],
        rule holds_bind [OF keep [OF check]], rule holds_bind [OF activate finish])
qed

lemma connection_connect_narrows:
  assumes T: "tunnel_services co up" and C: "obliging (co_services co)"
  shows "pholds (\<lambda>s. tracked up s \<and> up (rt_world s) \<subseteq> A \<and> rt_policy_available s) (connection_connect co rounds params)
    (\<lambda>_ _. True) (\<lambda>_ s. up (rt_world s) \<subseteq> A)"
proof -
  let ?P = "\<lambda>s. tracked up s \<and> up (rt_world s) \<subseteq> A \<and> rt_policy_available s"
  have P: "steady up ?P" by (auto simp: steady_def frame_def kept_def tracked_def)
  note O = tunnel_servicesD(1) [OF T]
  have count: "holds ?P fetch_add (\<lambda>_. ?P) (\<lambda>_ s. up (rt_world s) \<subseteq> A)"
    by (simp add: holds_def fetch_add_def tracked_def)
  have session: "leads (frame (\<lambda>w w'. up w' \<subseteq> up w)) require_session"
    by (auto simp: leads_def require_session_def afail_def aret_def frame_def reflp_def transp_def split: option.splits)
  have prepare: "holds ?P (prepare_attempt co attempt params) (\<lambda>_. ?P) (\<lambda>_ s. up (rt_world s) \<subseteq> A)" for attempt
    unfolding prepare_attempt_def
    by (intro holds_steady_to [where up = up, OF _ P] leads_bind leads_prod leads_unless_cancelled [OF O] tunnel_servicesD(2) [OF T]
        leads_plain [OF O] session leads_frame_writes [OF O]) (auto simp: kept_def)
  have choose: "holds ?P (choose_connection co attempt params known) (\<lambda>_. ?P) (\<lambda>_ s. up (rt_world s) \<subseteq> A)" for attempt known
    unfolding choose_connection_def
    by (intro holds_steady_to [where up = up, OF _ P] leads_prod leads_bind leads_plain [OF O]) auto
  have begin_it: "holds ?P (begin_connection co job)
      (\<lambda>(profile, conflicts, started) s. going up (profile_uuid profile) (cj_target job) s \<and> rt_policy_available s)
      (\<lambda>_ s. up (rt_world s) \<subseteq> A)" for job
    by (rule holds_weaken [OF holds_conj [OF begin_connection_going [OF T] begin_connection_narrows [OF T, of A]]]) auto
  have await: "pholds (\<lambda>s. going up u target s \<and> rt_policy_available s) (await_tunnel co job u conflicts started rounds)
      (\<lambda>_ _. True) (\<lambda>_ s. up (rt_world s) \<subseteq> A)" for u target job conflicts started
    by (rule pholds_weaken [OF await_tunnel_post [OF clean_laws [OF T C]]]) auto
  show ?thesis
    unfolding connection_connect_def
    by (rule pholds_bind [OF pholds_total [OF count]], rule pholds_bind [OF pholds_total [OF prepare]],
        rule pholds_bind [OF pholds_total [OF choose]], rule pholds_bind [OF pholds_total [OF begin_it]])
      (auto intro: await split: prod.splits)
qed

section \<open>An attempt ends\<close>

text \<open>The clock never goes back, a sleep takes its time, and a connection to the Local Agent that hits its limit of ten
  seconds has used them up.\<close>

definition clock_laws :: "'w conn_io \<Rightarrow> ('w \<Rightarrow> nat) \<Rightarrow> bool" where
  "clock_laws co clk \<longleftrightarrow>
     ordinary co (\<lambda>w w'. clk w \<le> clk w')
     \<and> (\<forall>w t w'. co_now co w = (t, w') \<longrightarrow> clk w \<le> t \<and> t \<le> clk w')
     \<and> (\<forall>n w. clk w + n \<le> clk (co_sleep co n w))
     \<and> (\<forall>d k c w e w'. ai_connect (co_agent co) d k c w = (Inl (True, e), w') \<longrightarrow> clk w + 10000 \<le> clk w')"

lemma clock_lawsD:
  assumes "clock_laws co clk"
  shows "ordinary co (\<lambda>w w'. clk w \<le> clk w')" "co_now co w = (t, w') \<Longrightarrow> clk w \<le> t \<and> t \<le> clk w'"
    "clk w + n \<le> clk (co_sleep co n w)" "ai_connect (co_agent co) d k c w = (Inl (True, e), w') \<Longrightarrow> clk w + 10000 \<le> clk w'"
  using assms unfolding clock_laws_def by (simp_all del: split_paired_All)

abbreviation since :: "('w \<Rightarrow> nat) \<Rightarrow> nat \<Rightarrow> 'w runtime \<Rightarrow> bool" where
  "since clk c s \<equiv> c \<le> clk (rt_world s)"

lemma holds_since:
  "leads (frame (\<lambda>w w'. clk w \<le> clk w')) m \<Longrightarrow> holds (since clk c) m (\<lambda>_. since clk c) (\<lambda>_. since clk c)"
  by (erule leads_holds) (auto simp: frame_def)

lemma holds_true: "holds P m (\<lambda>_ _. True) (\<lambda>_ _. True)"
  by (simp add: holds_def split: prod.splits sum.splits)

lemma fail_clean_fails: "holds P (fail_clean co u e) (\<lambda>_ _. False) (\<lambda>_ _. True)"
  unfolding fail_clean_def by (rule holds_bind [OF holds_true]) (rule holds_fail, simp)

lemma agent_start_takes_time:
  assumes K: "clock_laws co clk" and r: "local_agent_start co domain session features w = (Inl e, w')"
    and e: "ne_code e = ''local_agent_connect_timeout''"
  shows "clk w + 10000 \<le> clk w'"
proof -
  have pem: "private_key_pem kc f se = Inl x \<Longrightarrow> ne_code x \<noteq> ''local_agent_connect_timeout''" for kc f se x
    by (auto simp: private_key_pem_def key_error_def native_error_new_def split: sum.splits if_splits)
  have agent: "ne_code (agent_error x) \<noteq> ''local_agent_connect_timeout''" for x
    by (simp add: agent_error_def native_error_new_def)
  show ?thesis
    using r e unfolding local_agent_start_def
    by (auto simp: abind_def aguard_def afail_def aret_def alift_def agent_call_def native_error_new_def connect_error_def agent
        split: if_splits sum.splits prod.splits option.splits dest: pem clock_lawsD(4) [OF K])
qed

lemma start_agent_takes_time:
  assumes K: "clock_laws co clk"
  shows "holds (since clk c) (start_agent co job) (\<lambda>_. since clk c)
    (\<lambda>e s. since clk c s \<and> (ne_code e = ''local_agent_connect_timeout'' \<longrightarrow> since clk (c + 10000) s))"
proof -
  note O = clock_lawsD(1) [OF K]
  let ?E = "\<lambda>e s. since clk c s \<and> (ne_code e = ''local_agent_connect_timeout'' \<longrightarrow> since clk (c + 10000) s)"
  have start: "holds (since clk c) (service_call (local_agent_start co d se fs)) (\<lambda>_. since clk c) ?E" for d se fs
    unfolding holds_def
  proof (intro allI impI)
    fix s assume s: "since clk c s"
    obtain r w where r: "local_agent_start co d se fs (rt_world s) = (r, w)" by fastforce
    have w: "clk (rt_world s) \<le> clk w" using steps_agent_start [OF O, of d se fs] r by (simp add: steps_def) (metis snd_conv)
    show "case service_call (local_agent_start co d se fs) s of (Inl e, s') \<Rightarrow> ?E e s' | (Inr x, s') \<Rightarrow> since clk c s'"
      using s w agent_start_takes_time [OF K, of d se fs "rt_world s"] r by (cases r) (fastforce simp: service_call_def)+
  qed
  have check: "holds (since clk c) (check_connection_attempt co a) (\<lambda>_. since clk c) ?E" for a
    unfolding check_connection_attempt_def
    by (rule holds_bind_err [OF holds_conj [OF holds_since [OF leads_plain(7) [OF O]] load_never_fails [of "\<lambda>_. True"]], THEN holds_weaken])
      (auto intro!: holds_guard simp: connection_cancelled_def native_error_new_def)
  have ask': "holds (since clk c) (ask f) (\<lambda>_. since clk c) ?E" if "steps (\<lambda>w w'. clk w \<le> clk w') f" for f :: "'a \<Rightarrow> bool \<times> 'a"
    by (rule holds_weaken [OF holds_conj [OF holds_since [OF leads_ask [OF O that]] ask_never_fails [of "\<lambda>_. True"]]]) auto
  have inner: "holds (since clk c) (abind (ask (co_expired co)) (\<lambda>expired. if expired then afail connection_timeout
      else service_call (local_agent_start co d se fs))) (\<lambda>_. since clk c) ?E" for d se fs
    by (rule holds_bind [OF ask' [OF ordinaryD(11) [OF O]]], rule holds_if, rule holds_fail,
        simp add: connection_timeout_def native_error_new_def, rule start)
  show ?thesis
    unfolding start_agent_def unless_cancelled_def
    by (rule holds_bind [OF ask' [OF ordinaryD(10) [OF O]]], rule holds_if, rule holds_bind [OF check inner], rule inner)
qed

lemma poll_tunnel_takes_time:
  assumes K: "clock_laws co clk"
  shows "holds (since clk c) (poll_tunnel co job u conflicts started observation)
    (\<lambda>r s. r = None \<longrightarrow> c < started + CONNECTION_TIMEOUT \<and> since clk (c + 125) s) (\<lambda>_ _. True)"
proof -
  note O = clock_lawsD(1) [OF K]
  let ?D = "started + CONNECTION_TIMEOUT"
  let ?Q = "\<lambda>r s. r = None \<longrightarrow> c < ?D \<and> since clk (c + 125) s" and ?T = "\<lambda>_ _. True"
  have clean: "holds P (fail_clean co u e) ?Q ?T" for P e
    by (rule holds_weaken [OF fail_clean_fails]) auto
  have now: "holds (since clk c) (ask (co_now co)) (\<lambda>t s. since clk c s \<and> c \<le> t) ?T"
    unfolding holds_def ask_def by (auto split: prod.splits dest!: clock_lawsD(2) [OF K])
  have later: "holds (since clk (c + 10000)) (ask (co_now co)) (\<lambda>t s. since clk (c + 10000) s \<and> c \<le> t) ?T"
    unfolding holds_def ask_def by (auto split: prod.splits dest!: clock_lawsD(2) [OF K])
  have sleep: "holds (\<lambda>s. since clk c s \<and> c \<le> t) (abind (ask (\<lambda>w. ((), co_sleep co CONNECTION_POLL_INTERVAL w))) (\<lambda>_. aret None)) ?Q ?T"
    if "t < ?D" for t
    using clock_lawsD(3) [OF K, where n = 125] that
    by (auto simp: holds_def abind_def ask_def aret_def CONNECTION_POLL_INTERVAL_def intro: order_trans [OF add_le_mono1])
  have waiting: "holds (since clk c) (abind (ask (co_now co)) (\<lambda>t. if ?D \<le> t then fail_clean co u e
      else abind (ask (\<lambda>w. ((), co_sleep co CONNECTION_POLL_INTERVAL w))) (\<lambda>_. aret None))) ?Q ?T" for e
    by (rule holds_bind [OF now], rule holds_if, rule clean, rule sleep) simp
  have again: "holds (\<lambda>s. since clk c s \<and> (ne_code e = ''local_agent_connect_timeout'' \<longrightarrow> since clk (c + 10000) s))
      (abind (ask (co_now co)) (\<lambda>now. if ne_code e = ''local_agent_connect_timeout'' \<and> now < ?D then aret None else fail_clean co u e))
      ?Q ?T" for e
  proof (cases "ne_code e = ''local_agent_connect_timeout''")
    case True
    have late: "holds (since clk (c + 10000)) (abind (ask (co_now co)) (\<lambda>now.
        if ne_code e = ''local_agent_connect_timeout'' \<and> now < ?D then aret None else fail_clean co u e)) ?Q ?T"
      by (rule holds_bind [OF later], rule holds_if, rule holds_ret) (auto intro: clean)
    show ?thesis by (rule holds_weaken [OF late]) (use True in auto)
  next
    case False
    show ?thesis by (rule holds_weaken [OF holds_bind [OF holds_true [of "\<lambda>_. True"]]], simp_all add: False) (rule clean)
  qed
  have bypass: "holds (since clk c) (arescue (reconcile_split_kill_switch_bypass (co_services co) t True) (fail_clean co u))
      (\<lambda>_. since clk c) ?T" for t
    by (rule holds_rescue [OF holds_since [OF leads_bypass [OF O]]], rule holds_weaken [OF fail_clean_fails]) auto
  have some: "holds P (abind m (\<lambda>x. aret (Some (y x)))) ?Q ?T" for P m y
    by (rule holds_bind [OF holds_true]) (rule holds_ret, simp)
  have finish: "holds P (abind a (\<lambda>_. abind b (\<lambda>x. abind (d x) (\<lambda>_. aret (Some y))))) ?Q ?T" for P a b d y
    by (rule holds_bind [OF holds_true], rule holds_bind [OF holds_true], rule some)
  have secure: "holds (since clk c) (secure_session co job u ?D observation) ?Q ?T"
    unfolding secure_session_def
    by (rule holds_bind [OF bypass], rule holds_bind [OF holds_try [OF start_agent_takes_time [OF K]]], rule holds_sum)
      (simp_all only: sum.case again finish)
  have skip: "holds (since clk c) (abind (ask (co_now co)) (\<lambda>t. if q t then fail_clean co u e else m)) ?Q ?T"
    if "holds (since clk c) m ?Q ?T" for q e m
    by (rule holds_bind [OF now], rule holds_if, rule clean, rule holds_weaken [OF that]) auto
  show ?thesis
    unfolding poll_tunnel_def Let_def
    by (cases "to_state observation")
      (simp_all only: tunnel_state.case, rule skip [OF waiting], rule waiting, rule secure, rule holds_bind [OF holds_true clean])
qed

text \<open>Every round that goes on began before the deadline and took at least as long as the poll interval.\<close>

lemma await_tunnel_ends:
  assumes K: "clock_laws co clk"
    and "started + CONNECTION_TIMEOUT \<le> clk (rt_world s) + 125 * n" "n < rounds"
  shows "await_tunnel co job u conflicts started rounds s \<noteq> None"
  using assms(2,3)
proof (induction rounds arbitrary: s n)
  case (Suc rounds)
  note O = clock_lawsD(1) [OF K]
  let ?c = "clk (rt_world s)"
  have round_holds: "pholds (since clk ?c)
      (pbind (total (observe_blocking co)) (\<lambda>observation. total (poll_tunnel co job u conflicts started observation)))
      (\<lambda>r s'. r = None \<longrightarrow> ?c < started + CONNECTION_TIMEOUT \<and> since clk (?c + 125) s') (\<lambda>_ _. True)"
    by (rule pholds_bind [OF pholds_total pholds_total [OF poll_tunnel_takes_time [OF K]]],
        rule holds_weaken [OF holds_since [OF leads_plain(6) [OF O]]]) auto
  have go_on: "await_tunnel co job u conflicts started rounds s2 \<noteq> None"
    if c: "?c < started + CONNECTION_TIMEOUT" "since clk (?c + 125) s2" for s2
  proof (cases n)
    case 0
    then show ?thesis using c Suc.prems by simp
  next
    case (Suc n')
    show ?thesis by (rule Suc.IH [of s2 n']) (use Suc Suc.prems c in auto)
  qed
  obtain a s1 where a: "load_attempt co s = (Inr a, s1)"
    by (cases "co_arrivals co (rt_world s)") (simp add: load_attempt_def abind_def ask_def)
  have s1: "since clk ?c s1" using holdsD(1) [OF holds_since [OF leads_plain(7) [OF O], of ?c] _ a] by simp
  show ?case
    using a pholdsD(1) [OF round_holds s1] go_on
    by (auto simp: pbind_def total_def split: option.splits prod.splits sum.splits)
qed simp

lemma connection_connect_ends:
  assumes K: "clock_laws co clk" and "361 \<le> rounds"
  shows "ends (\<lambda>_. True) (connection_connect co rounds params)"
proof -
  have now: "holds (\<lambda>_. True) (abind (ask (co_now co)) (\<lambda>t. aret (p, cs, t))) (\<lambda>(p, cs, t) s. t \<le> clk (rt_world s)) (\<lambda>_ _. True)"
    for p :: vpn_profile and cs :: "string list"
    unfolding holds_def by (auto simp: abind_def ask_def aret_def split: prod.splits dest!: clock_lawsD(2) [OF K])
  have begin_it: "holds (\<lambda>_. True) (begin_connection co job) (\<lambda>(p, cs, t) s. t \<le> clk (rt_world s)) (\<lambda>_ _. True)" for job
    unfolding begin_connection_def by (intro holds_bind [OF holds_true] now)
  have await: "ends (\<lambda>s. t \<le> clk (rt_world s)) (await_tunnel co job u cs t rounds)" for t job u cs
    unfolding ends_def using await_tunnel_ends [OF K, where n = 360 and started = t] assms(2) by (auto simp: CONNECTION_TIMEOUT_def)
  show ?thesis
    unfolding connection_connect_def
    by (rule ends_bind [OF ends_total pholds_total [OF holds_true]], rule ends_bind [OF ends_total pholds_total [OF holds_true]],
        rule ends_bind [OF ends_total pholds_total [OF holds_true]], rule ends_bind [OF ends_total pholds_total [OF begin_it]])
      (auto intro: await split: prod.splits)
qed

section \<open>Requests on the connection\<close>

text \<open>The steps the backend takes between two requests: one of its own, or a tunnel that stops by itself.\<close>

inductive tunnel_step :: "'w conn_io \<Rightarrow> ('w \<Rightarrow> string set) \<Rightarrow> 'w runtime \<Rightarrow> 'w runtime \<Rightarrow> bool" for co up where
  connecting: "connection_connect co rounds params s = Some (r, s') \<Longrightarrow> tunnel_step co up s s'"
| cancelling: "connection_cancel co s = (r, s') \<Longrightarrow> tunnel_step co up s s'"
| disconnecting: "connection_disconnect (co_services co) s = (r, s') \<Longrightarrow> tunnel_step co up s s'"
| rejection: "disconnect_after_local_agent_rejection co s = (r, s') \<Longrightarrow> tunnel_step co up s s'"
| observing: "connection_observe co s = (r, s') \<Longrightarrow> tunnel_step co up s s'"
| stopping: "up w \<subseteq> up (rt_world s) \<Longrightarrow> tunnel_step co up s (s\<lparr>rt_world := w\<rparr>)"

lemma disconnect_owner_tracked:
  assumes T: "tunnel_services co up"
  shows "holds (\<lambda>s. tracked up s \<and> rt_owned_uuid s = Some u) (disconnect_owned_inner (co_services co) u)
    (\<lambda>_ s. up (rt_world s) = {} \<and> rt_owned_uuid s = None) (\<lambda>_. tracked up)"
  by (rule holds_weaken [OF disconnect_removes [OF T]]) (auto simp: only_def)

lemma disconnect_owner_if_any:
  assumes T: "tunnel_services co up"
  shows "holds (\<lambda>s. tracked up s \<and> rt_owned_uuid s = owned)
    (case owned of None \<Rightarrow> aret () | Some u \<Rightarrow> disconnect_owned_inner (co_services co) u)
    (\<lambda>_ s. up (rt_world s) = {} \<and> rt_owned_uuid s = None) (\<lambda>_. tracked up)"
proof (cases owned)
  case None
  then show ?thesis by (auto intro!: holds_ret simp: tracked_def)
next
  case (Some u)
  then show ?thesis using disconnect_owner_tracked [OF T] by simp
qed

lemma nothing_is_tracked: "up (rt_world s) = {} \<Longrightarrow> tracked up s"
  by (simp add: tracked_def)

lemma fetch_add_tracked: "holds (tracked up) fetch_add (\<lambda>_. tracked up) (\<lambda>_. tracked up)"
  by (simp add: holds_def fetch_add_def tracked_def)

lemma reads_owner: "holds (tracked up) (areads rt_owned_uuid) (\<lambda>owned s. tracked up s \<and> rt_owned_uuid s = owned) (\<lambda>_. tracked up)"
  by (rule holds_reads) simp

lemma connection_cancel_tracked:
  assumes T: "tunnel_services co up"
  shows "holds (tracked up) (connection_cancel co) (\<lambda>_. tracked up) (\<lambda>_. tracked up)"
  unfolding connection_cancel_def
  by (rule holds_bind [OF fetch_add_tracked],
      rule holds_bind [OF holds_steady [where up = up and P = "tracked up", OF leads_plain(7) [OF tunnel_servicesD(1) [OF T]] steady_basic(1)]],
      rule holds_if, rule holds_ret, assumption,
      rule holds_bind [OF reads_owner], rule holds_bind [OF disconnect_owner_if_any [OF T]], rule holds_ret)
    (simp add: tracked_def)

lemma connection_disconnect_tracked:
  assumes T: "tunnel_services co up"
  shows "holds (tracked up) (connection_disconnect (co_services co))
    (\<lambda>_ s. up (rt_world s) = {} \<and> rt_owned_uuid s = None) (\<lambda>_. tracked up)"
proof -
  have count: "holds (tracked up) (awrites (\<lambda>s. s\<lparr>rt_attempt := rt_attempt s + 1\<rparr>)) (\<lambda>_. tracked up) (\<lambda>_. tracked up)"
    by (rule holds_writes) (simp add: tracked_def)
  have owner: "holds (\<lambda>s. tracked up s \<and> rt_owned_uuid s = owned) (alift (ok_or e owned))
      (\<lambda>u s. tracked up s \<and> rt_owned_uuid s = Some u) (\<lambda>_. tracked up)" for owned e
    by (rule holds_lift) (auto simp: ok_or_def split: option.splits)
  show ?thesis
    unfolding connection_disconnect_def
    by (rule holds_bind [OF count], rule holds_bind [OF reads_owner], rule holds_bind [OF owner],
        rule holds_bind [OF disconnect_owner_tracked [OF T]], rule holds_ret)
qed

lemma rejection_tracked:
  assumes T: "tunnel_services co up"
  shows "holds (tracked up) (disconnect_after_local_agent_rejection co) (\<lambda>_. tracked up) (\<lambda>_. tracked up)"
proof -
  have quiet: "holds (\<lambda>s. tracked up s \<and> rt_owned_uuid s = owned)
      (case owned of None \<Rightarrow> aret () | Some u \<Rightarrow> aignore (disconnect_owned_inner (co_services co) u)) (\<lambda>_. tracked up) (\<lambda>_. tracked up)"
    for owned
    using holds_ignore [where R = "tracked up", OF disconnect_owner_tracked [OF T] nothing_is_tracked]
    by (auto intro!: holds_ret split: option.split)
  show ?thesis
    unfolding disconnect_after_local_agent_rejection_def
    by (rule holds_bind [OF fetch_add_tracked], rule holds_bind [OF reads_owner], rule quiet)
qed

lemma connection_observe_tracked:
  assumes T: "tunnel_services co up"
  shows "holds (tracked up) (connection_observe co) (\<lambda>_. tracked up) (\<lambda>_. tracked up)"
proof -
  note O = tunnel_servicesD(1) [OF T]
  have session: "holds (tracked up) require_session (\<lambda>_. tracked up) (\<lambda>_. tracked up)"
    by (auto simp: holds_def require_session_def afail_def aret_def split: option.splits)
  have look: "holds (tracked up) (observe_blocking co) (\<lambda>_. tracked up) (\<lambda>_. tracked up)"
    unfolding observe_blocking_def by (intro holds_steady [where up = up] leads_call [OF O] services(1) [OF O] steady_basic(1))
  have emit: "holds (tracked up) (awrites (emit_connection observation)) (\<lambda>_. tracked up) (\<lambda>_. tracked up)" for observation
    by (rule holds_writes) (simp add: tracked_def emit_connection_def)
  show ?thesis
    unfolding connection_observe_def
    by (rule holds_bind [OF session], rule holds_bind [OF look], rule holds_bind [OF emit], rule holds_ret) simp
qed

lemma holds_after: "holds P m (\<lambda>_. Q) (\<lambda>_. Q) \<Longrightarrow> P s \<Longrightarrow> m s = (r, s') \<Longrightarrow> Q s'"
  using holds_snd by fastforce

lemma connection_connect_after:
  assumes T: "tunnel_services co up" and s: "tracked up s" and r: "connection_connect co rounds params s = Some (r, s')"
  shows "tracked up s'"
proof (cases r)
  case (Inl e)
  then show ?thesis using pholdsD(2) [OF connection_connect_tracked [OF T] s] r by blast
next
  case (Inr x)
  then obtain u target where "going up u target s'"
    using pholdsD(1) [OF connection_connect_tracked [OF T] s] r by blast
  then show ?thesis by (rule only_tracked [OF going_only])
qed

lemma tunnel_step_tracked:
  assumes T: "tunnel_services co up"
  shows "tunnel_step co up s s' \<Longrightarrow> tracked up s \<Longrightarrow> tracked up s'"
proof (induction rule: tunnel_step.induct)
  case (connecting rounds params s r s')
  then show ?case using connection_connect_after [OF T] by metis
next
  case (cancelling s r s')
  then show ?case using holds_after [OF connection_cancel_tracked [OF T]] by metis
next
  case (disconnecting s r s')
  have "holds (tracked up) (connection_disconnect (co_services co)) (\<lambda>_. tracked up) (\<lambda>_. tracked up)"
    by (rule holds_weaken [OF connection_disconnect_tracked [OF T]]) (simp_all add: tracked_def)
  then show ?case using disconnecting holds_after by metis
next
  case (rejection s r s')
  then show ?case using holds_after [OF rejection_tracked [OF T]] by metis
next
  case (observing s r s')
  then show ?case using holds_after [OF connection_observe_tracked [OF T]] by metis
qed (auto simp: tracked_def)

lemma tunnel_steps_tracked:
  "(tunnel_step co up)\<^sup>*\<^sup>* s s' \<Longrightarrow> tunnel_services co up \<Longrightarrow> tracked up s \<Longrightarrow> tracked up s'"
  by (induction rule: rtranclp_induct) (auto intro: tunnel_step_tracked)

section \<open>A small network\<close>

text \<open>Services that do nothing and never fail, with a Local Agent that sends the given updates; they fit every world.\<close>

definition quiet_services :: "'w services" where
  "quiet_services =
     \<lparr>io_installed = (\<lambda>_. True), io_crate = sample_crate, io_observe = aret nothing_observed,
      io_kill_switch = (\<lambda>_ _ _ _. aret ()), io_default_routes = aret [], io_dns_servers = aret [''192.168.1.1''],
      io_disconnect_uuid = (\<lambda>_. aret False), io_split_apply = (\<lambda>_ _. aret ()),
      io_split_bypass = (\<lambda>_ _. aret ()), io_destination_policy = (\<lambda>_. aret ()),
      io_request_features = (\<lambda>_. aret ()), io_save_settings = (\<lambda>_. aret ()), io_clear_statistics = aret (),
      io_flush_statistics = aret (), io_alternative_routing = (\<lambda>_. aret ())\<rparr>"

definition demo_credentials :: "'w credential_io" where
  "demo_credentials =
     \<lparr>cr_uuid_error = (\<lambda>_. None), cr_create_dir_all = (\<lambda>_ w. (Inr (), w)), cr_set_mode = (\<lambda>_ _ w. (Inr (), w)),
      cr_create_dir = (\<lambda>_ w. (Inr (), w)), cr_create_new = (\<lambda>_ _ w. (Inr (), w)), cr_write_all = (\<lambda>_ _ w. (Inr (), w)),
      cr_remove_dir_all = (\<lambda>_ w. (Inr (), w)), cr_openvpn_ca = [], cr_openvpn_tls_crypt = []\<rparr>"

definition demo_keys :: key_crypto where
  "demo_keys =
     \<lparr>kc_base64_decode = (\<lambda>_. Inr (replicate 32 (CHR 0x01))), kc_base64_encode = (\<lambda>_. ''key''),
      kc_sha512 = (\<lambda>_. replicate 64 (CHR 0x02)), kc_encrypted_pem = (\<lambda>_ _. Inr ''pem'')\<rparr>"

definition demo_profile_io :: "'w profile_io" where
  "demo_profile_io =
     \<lparr>pi_crypto = demo_crypto, pi_keys = demo_keys, pi_float = (\<lambda>_. ''0.0''), pi_credentials = demo_credentials,
      pi_env = \<lparr>he_user = Some ''me'', he_uid = 1000, he_runtime_dir = None\<rparr>, pi_random = replicate 32 (CHR 0x03),
      pi_uuid = ''u2''\<rparr>"

definition quiet_conn :: "agent_update list \<Rightarrow> 'w conn_io" where
  "quiet_conn updates =
     \<lparr>co_services = quiet_services, co_profile = demo_profile_io, co_connect = (\<lambda>_. aret nothing_observed),
      co_conflicts = aret [],
      co_agent = \<lparr>ai_pem = Inr, ai_connect = (\<lambda>_ _ _ w. (Inr (), w)), ai_request_features = (\<lambda>_ w. (Inr (), w))\<rparr>,
      co_updates = (\<lambda>w. ((updates, False), w)), co_excluded = (\<lambda>_. []), co_draws = (\<lambda>_. [5, 7]), co_names = (\<lambda>_. None),
      co_prepare = aret (), co_arrivals = (\<lambda>w. (0, w)), co_polled = (\<lambda>w. (True, w)), co_expired = (\<lambda>w. (False, w)),
      co_now = (\<lambda>w. (0, w)), co_sleep = (\<lambda>_ w. w)\<rparr>"

lemma quiet_ordinary:
  assumes "reflp R" "transp R"
  shows "ordinary (quiet_conn updates) R"
proof -
  have R: "R w w" for w using assms(1) by (rule reflpD)
  have "ordinary_services quiet_services R" by (simp add: ordinary_services_def quiet_services_def steps_def aret_def R)
  moreover have "ordinary_files demo_credentials R" by (simp add: ordinary_files_def demo_credentials_def steps_def R)
  ultimately show ?thesis
    unfolding ordinary_def using assms by (simp add: quiet_conn_def demo_profile_io_def steps_def aret_def R)
qed

text \<open>A world of running tunnels and a clock in milliseconds.\<close>

type_synonym tunnel_world = "string list \<times> nat"

definition demo_observation :: "string list \<Rightarrow> tunnel_observation" where
  "demo_observation running =
     (case running of
        [] \<Rightarrow> nothing_observed
      | u # _ \<Rightarrow> nothing_observed\<lparr>to_state := Connected, to_uuid := Some u, to_owned := True\<rparr>)"

definition demo_conn :: "agent_update list \<Rightarrow> tunnel_world conn_io" where
  "demo_conn updates =
     (quiet_conn updates)
       \<lparr>co_services := quiet_services
          \<lparr>io_observe := (\<lambda>w. (Inr (demo_observation (fst w)), w)),
           io_disconnect_uuid := (\<lambda>u w. (Inr True, (removeAll u (fst w), snd w)))\<rparr>,
        co_connect := (\<lambda>p w. (Inr (demo_observation [profile_uuid p]), (profile_uuid p # fst w, snd w))),
        co_now := (\<lambda>w. (snd w, w)), co_sleep := (\<lambda>n w. (fst w, snd w + n))\<rparr>"

definition demo_config :: client_config where
  "demo_config =
     (let ports = \<lparr>po_udp = [51820], po_tcp = [443], po_tls = [443]\<rparr> in
      \<lparr>cc_wire_guard = ports, cc_open_vpn = ports, cc_smart_protocol = JNull, cc_extra = []\<rparr>)"

definition demo_at :: "'w \<Rightarrow> string option \<Rightarrow> 'w runtime" where
  "demo_at w owned =
     (demo_runtime w native_settings_default)
       \<lparr>rt_catalog := Some demo_catalog, rt_client_config := Some demo_config, rt_policy_override := None,
        rt_bypass_active := False, rt_owned_uuid := owned\<rparr>"

abbreviation demo_start :: "string list \<Rightarrow> tunnel_world runtime" where
  "demo_start running \<equiv> demo_at (running, 0) (case running of [] \<Rightarrow> None | u # _ \<Rightarrow> Some u)"

definition demo_accepted :: agent_update where
  "demo_accepted =
     UpdateStatus \<lparr>sm_state = AgentConnected, sm_reason = None, sm_features = None, sm_details = None, sm_statistics = None\<rparr>"

abbreviation running_tunnels :: "tunnel_world \<Rightarrow> string set" where
  "running_tunnels w \<equiv> set (fst w)"

lemma demo_observation_simps [simp]:
  "to_state (demo_observation []) = Disconnected" "to_state (demo_observation (u # us)) = Connected"
  "to_uuid (demo_observation (u # us)) = Some u"
  by (simp_all add: demo_observation_def nothing_observed_def)

lemma demo_ordinary:
  assumes "reflp R" "transp R" "\<And>u w. R w (removeAll u (fst w), snd w)" "\<And>n w. R w (fst w, snd w + n)"
  shows "ordinary (demo_conn updates) R"
proof -
  have R: "R w w" for w using assms(1) by (rule reflpD)
  show ?thesis
    using quiet_ordinary [OF assms(1,2), of updates] assms(3,4)
    by (simp add: ordinary_def ordinary_services_def demo_conn_def steps_def R) (simp add: quiet_conn_def quiet_services_def)
qed

lemma demo_tunnels: "tunnel_services (demo_conn updates) running_tunnels"
proof -
  have "ordinary (demo_conn updates) (\<lambda>w w'. running_tunnels w' \<subseteq> running_tunnels w)"
    by (rule demo_ordinary) (auto simp: reflp_def transp_def)
  moreover have "leads (frame (\<lambda>w w'. running_tunnels w' \<subseteq> running_tunnels w)) (co_prepare (demo_conn updates))"
    by (auto simp: demo_conn_def quiet_conn_def leads_def aret_def frame_def reflp_def transp_def)
  moreover have "running = []" if "to_state (demo_observation running) = Disconnected" for running
    using that by (cases running) auto
  ultimately show ?thesis
    unfolding tunnel_services_def by (auto simp: demo_conn_def quiet_services_def quiet_conn_def)
qed

lemma demo_obliging: "obliging (co_services (demo_conn updates))"
proof -
  have "\<not> isl (traverse dns_host_range [''192.168.1.1''])" by code_simp
  then show ?thesis by (simp add: obliging_def demo_conn_def quiet_services_def quiet_conn_def aret_def)
qed

lemma demo_clock: "clock_laws (demo_conn updates) snd"
proof -
  have "ordinary (demo_conn updates) (\<lambda>w w'. snd w \<le> snd w')"
    by (rule demo_ordinary) (auto simp: reflp_def transp_def)
  then show ?thesis by (simp add: clock_laws_def) (simp add: demo_conn_def quiet_conn_def)
qed

abbreviation demo_request :: json where
  "demo_request \<equiv> demo_selection_request '' ch''"

definition outcome :: "('w runtime \<Rightarrow> 'b) \<Rightarrow> ('a native_res \<times> 'w runtime) option \<Rightarrow> (bool \<times> 'b) option" where
  "outcome f x = map_option (\<lambda>(r, s). (isl r, f s)) x"

abbreviation left_running :: "tunnel_world runtime \<Rightarrow> string list" where
  "left_running s \<equiv> fst (rt_world s)"

lemma outcome_success: "outcome f x = Some (False, y) \<Longrightarrow> (\<And>a s. x = Some (Inr a, s) \<Longrightarrow> f s = y \<Longrightarrow> P) \<Longrightarrow> P"
  unfolding outcome_def by (auto simp: isl_def split: sum.splits) (metis obj_sumE)

lemma outcome_failure: "outcome f x = Some (True, y) \<Longrightarrow> (\<And>e s. x = Some (Inl e, s) \<Longrightarrow> P) \<Longrightarrow> P"
  unfolding outcome_def by (auto simp: isl_def split: sum.splits)

text \<open>The attempt is evaluated in three stages.\<close>

definition demo_job :: connect_job where
  "demo_job =
     \<lparr>cj_attempt = 1, cj_session = demo_session, cj_tier = 2, cj_profile_id = None,
      cj_target = \<lparr>ct_logical = demo_logical ''CH#2'' ''CH'' 3 [demo_endpoint ''10.1.0.2''], ct_physical = demo_endpoint ''10.1.0.2''\<rparr>,
      cj_client_config = demo_config, cj_global = native_settings_default, cj_settings = native_settings_default,
      cj_protocol = ''protun-udp'', cj_applied = False\<rparr>"

definition demo_ready :: "'w \<Rightarrow> string option \<Rightarrow> 'w runtime" where
  "demo_ready w owned = (demo_at w owned)\<lparr>rt_attempt := 1, rt_trigger := connection_trigger demo_request\<rparr>"

lemma demo_session_tier: "session_tier demo_session = 2" and demo_profile_id: "connection_profile_id demo_request = Inr None"
  and demo_effective: "effective_connection_settings (\<lambda>_. True) demo_request native_settings_default 2 =
    Inr (native_settings_default, ''protun-udp'', False)"
  by code_simp+

definition calm :: "'w conn_io \<Rightarrow> bool" where
  "calm co \<longleftrightarrow> co_prepare co = aret () \<and> co_polled co = (\<lambda>w. (True, w)) \<and> co_arrivals co = (\<lambda>w. (0, w))
     \<and> co_excluded co = (\<lambda>_. []) \<and> co_draws co = (\<lambda>_. [5, 7]) \<and> io_installed (co_services co) = (\<lambda>_. True)
     \<and> pi_crypto (co_profile co) = demo_crypto"

lemma demo_calm: "calm (demo_conn updates)"
  by (simp add: calm_def demo_conn_def quiet_conn_def quiet_services_def demo_profile_io_def)

lemma demo_prepares:
  "calm co \<Longrightarrow> prepare_attempt co 1 demo_request ((demo_at w owned)\<lparr>rt_attempt := 1\<rparr>) = (Inr (None, demo_session, 2), demo_ready w owned)"
  by (simp add: calm_def prepare_attempt_def unless_cancelled_def check_connection_attempt_def load_attempt_def ask_def abind_def
      aguard_def aret_def alift_def require_session_def demo_profile_id demo_session_tier)
    (simp add: demo_ready_def demo_at_def demo_runtime_def demo_session_tier aret_def abind_def)

lemma demo_chooses:
  "calm co \<Longrightarrow> choose_connection co 1 demo_request (None, demo_session, 2) (demo_ready w owned) = (Inr demo_job, demo_ready w owned)"
  by (simp add: calm_def choose_connection_def abind_def alift_def ok_or_def aret_def)
    (simp add: demo_ready_def demo_at_def demo_runtime_def demo_effective demo_select demo_job_def abind_def alift_def aret_def)

lemma demo_attempt:
  assumes "calm co"
  shows "connection_connect co rounds demo_request (demo_at w owned) =
     pbind (total (begin_connection co demo_job)) (\<lambda>(profile, conflicts, started).
       await_tunnel co demo_job (profile_uuid profile) conflicts started rounds) (demo_ready w owned)"
proof -
  have count: "fetch_add (demo_at w owned) = (Inr 0, (demo_at w owned)\<lparr>rt_attempt := 1\<rparr>)"
    by (simp add: fetch_add_def demo_at_def demo_runtime_def)
  show ?thesis
    unfolding connection_connect_def pbind_def [of "total fetch_add"] pbind_def [of "total (prepare_attempt a b c)" for a b c]
      pbind_def [of "total (choose_connection a b c d)" for a b c d] total_def
    by (simp add: count demo_prepares [OF assms] demo_chooses [OF assms])
qed

lemma demo_connects: "outcome left_running (connection_connect (demo_conn [demo_accepted]) 2 demo_request (demo_start [''u1''])) = Some (False, [''u2''])"
  unfolding demo_attempt [OF demo_calm] by code_simp

lemma demo_fails: "outcome left_running (connection_connect (demo_conn []) 2 demo_request (demo_start [])) = Some (True, [])"
  unfolding demo_attempt [OF demo_calm] by code_simp

section \<open>The properties\<close>



text \<open>C8. Every attempt to connect comes back: with a clock that does not go back and sleeps that take their time, 361 rounds
  of 125 milliseconds exceed the limit of 45 seconds, whatever the services answer.\<close>

theorem connection_attempt_ends:
  assumes "clock_laws co clk" "361 \<le> rounds"
  shows "\<exists>r s'. connection_connect co rounds params s = Some (r, s')"
  using connection_connect_ends [OF assms, of params] unfolding ends_def by auto

theorem connection_attempt_ends_witness:
  "\<exists>r s'. connection_connect (demo_conn [demo_accepted]) 361 demo_request (demo_start [''u1'']) = Some (r, s')"
  by (rule connection_attempt_ends [OF demo_clock]) simp

end
