(* ===== verification/Network_Laws.thy ===== *)
theory Network_Laws
  imports Network_Manager
begin

text \<open>
  Properties of the kill switch. What NetworkManager documents of its methods is stated on a view of its state: the stored
  profiles and the active connections. \<open>nm_documented\<close> says that reading changes nothing and answers truthfully and what the
  methods that change something do, also when they report an error; \<open>nm_readable\<close> that reading an existing object succeeds.
\<close>

section \<open>What NetworkManager documents\<close>

record nm_view =
  nv_profiles :: "path \<Rightarrow> connection_settings option"
  nv_active :: "path \<Rightarrow> path option"

definition reads_only :: "('w \<Rightarrow> nm_view) \<Rightarrow> ('w, 'a) dbus \<Rightarrow> bool" where
  "reads_only view m \<longleftrightarrow> (\<forall>w. view (snd (m w)) = view w)"

text \<open>The identifier of an active connection is that of its profile.\<close>

definition active_name :: "nm_view \<Rightarrow> path \<Rightarrow> string option" where
  "active_name v a = Option.bind (nv_active v a) (\<lambda>p. Option.bind (nv_profiles v p) connection_id)"

definition reads_documented :: "'w nm \<Rightarrow> ('w \<Rightarrow> nm_view) \<Rightarrow> bool" where
  "reads_documented nm view \<longleftrightarrow>
     reads_only view (nm_system_bus nm) \<and> reads_only view (nm_active_connections nm)
     \<and> reads_only view (nm_list_connections nm) \<and> reads_only view (nm_connectivity_check_enabled nm)
     \<and> reads_only view (nm_devices nm) \<and> (\<forall>b. reads_only view (nm_set_connectivity_check_enabled nm b))
     \<and> (\<forall>a. reads_only view (nm_active_id nm a)) \<and> (\<forall>a. reads_only view (nm_active_connection nm a))
     \<and> (\<forall>p. reads_only view (nm_get_settings nm p)) \<and> (\<forall>d. reads_only view (nm_device_state nm d))
     \<and> (\<forall>d. reads_only view (nm_device_type nm d)) \<and> (\<forall>d. reads_only view (nm_device_interface nm d))
     \<and> (\<forall>d. reads_only view (nm_device_ip4_config nm d)) \<and> (\<forall>c. reads_only view (nm_ip4_gateway nm c))
     \<and> (\<forall>i k r. reads_only view (nm_modify_device nm i k r))"

definition answers_documented :: "'w nm \<Rightarrow> ('w \<Rightarrow> nm_view) \<Rightarrow> bool" where
  "answers_documented nm view \<longleftrightarrow>
     (\<forall>w ps w'. nm_active_connections nm w = (Inr ps, w') \<longrightarrow> set ps = dom (nv_active (view w)))
     \<and> (\<forall>w ps w'. nm_list_connections nm w = (Inr ps, w') \<longrightarrow> set ps = dom (nv_profiles (view w)))
     \<and> (\<forall>w a i w'. nm_active_id nm a w = (Inr i, w') \<longrightarrow> active_name (view w) a = Some i)
     \<and> (\<forall>w a p w'. nm_active_connection nm a w = (Inr p, w') \<longrightarrow> nv_active (view w) a = Some p)
     \<and> (\<forall>w p s w'. nm_get_settings nm p w = (Inr s, w') \<longrightarrow> nv_profiles (view w) p = Some s)"

text \<open>Deactivating may remove the profile of the connection with it; deleting a profile ends its connections. A method that
  reports an error has either done nothing or done its work.\<close>

definition deactivated :: "path \<Rightarrow> nm_view \<Rightarrow> nm_view \<Rightarrow> bool" where
  "deactivated a v v' \<longleftrightarrow> nv_active v' = (nv_active v)(a := None)
     \<and> (nv_profiles v' = nv_profiles v \<or> (\<exists>p. nv_active v a = Some p \<and> nv_profiles v' = (nv_profiles v)(p := None)))"

definition deleted :: "path \<Rightarrow> nm_view \<Rightarrow> nm_view \<Rightarrow> bool" where
  "deleted p v v' \<longleftrightarrow> nv_profiles v' = (nv_profiles v)(p := None)
     \<and> nv_active v' = (\<lambda>a. if nv_active v a = Some p then None else nv_active v a)"

definition added :: "connection_settings \<Rightarrow> path \<Rightarrow> nm_view \<Rightarrow> nm_view \<Rightarrow> bool" where
  "added s p v v' \<longleftrightarrow> nv_profiles v p = None \<and> Some p \<notin> range (nv_active v)
     \<and> nv_profiles v' = (nv_profiles v)(p \<mapsto> s) \<and> nv_active v' = nv_active v"

definition activated :: "path \<Rightarrow> path \<Rightarrow> nm_view \<Rightarrow> nm_view \<Rightarrow> bool" where
  "activated p a v v' \<longleftrightarrow> nv_active v a = None \<and> nv_active v' = (nv_active v)(a \<mapsto> p) \<and> nv_profiles v' = nv_profiles v"

definition effects_documented :: "'w nm \<Rightarrow> ('w \<Rightarrow> nm_view) \<Rightarrow> bool" where
  "effects_documented nm view \<longleftrightarrow>
     (\<forall>w a r w'. nm_deactivate_connection nm a w = (r, w') \<longrightarrow>
        deactivated a (view w) (view w') \<or> isl r \<and> view w' = view w)
     \<and> (\<forall>w p r w'. nm_delete nm p w = (r, w') \<longrightarrow> deleted p (view w) (view w') \<or> isl r \<and> view w' = view w)
     \<and> (\<forall>w s r w'. nm_add_connection nm s w = (r, w') \<longrightarrow>
          (case r of Inl _ \<Rightarrow> view w' = view w | Inr p \<Rightarrow> added s p (view w) (view w')))
     \<and> (\<forall>w s r w'. nm_add_connection_unsaved nm s w = (r, w') \<longrightarrow>
          (case r of Inl _ \<Rightarrow> view w' = view w | Inr p \<Rightarrow> added s p (view w) (view w')))
     \<and> (\<forall>w p d o' r w'. nm_activate_connection nm p d o' w = (r, w') \<longrightarrow>
          (case r of Inl _ \<Rightarrow> view w' = view w | Inr a \<Rightarrow> activated p a (view w) (view w')))"

definition nm_documented :: "'w nm \<Rightarrow> ('w \<Rightarrow> nm_view) \<Rightarrow> bool" where
  "nm_documented nm view \<longleftrightarrow> reads_documented nm view \<and> answers_documented nm view \<and> effects_documented nm view"

definition nm_readable :: "'w nm \<Rightarrow> ('w \<Rightarrow> nm_view) \<Rightarrow> bool" where
  "nm_readable nm view \<longleftrightarrow>
     (\<forall>w a i. active_name (view w) a = Some i \<longrightarrow> fst (nm_active_id nm a w) = Inr i)
     \<and> (\<forall>w a p. nv_active (view w) a = Some p \<longrightarrow> fst (nm_active_connection nm a w) = Inr p)
     \<and> (\<forall>w p s. nv_profiles (view w) p = Some s \<longrightarrow> fst (nm_get_settings nm p w) = Inr s)"

section \<open>Connections by name\<close>

text \<open>A connection of that name is active; no profile of ours with that name is left.\<close>

definition running :: "string \<Rightarrow> nm_view \<Rightarrow> bool" where
  "running name v \<longleftrightarrow> (\<exists>a. active_name v a = Some name)"

definition ours :: "string \<Rightarrow> connection_settings \<Rightarrow> bool" where
  "ours name s \<longleftrightarrow> connection_id s = Some name \<and> connection_owned s"

definition absent :: "string \<Rightarrow> nm_view \<Rightarrow> bool" where
  "absent name v \<longleftrightarrow> (\<forall>p s. nv_profiles v p = Some s \<longrightarrow> \<not> ours name s)"

definition blocked :: "nm_view \<Rightarrow> bool" where
  "blocked v \<longleftrightarrow> running KILL_SWITCH_CONNECTION_ID v \<or> running KILL_SWITCH_PERMANENT_CONNECTION_ID v"

lemma running_added: "running n v \<Longrightarrow> added s p v v' \<Longrightarrow> running n v'"
  unfolding running_def active_name_def added_def by (auto simp: bind_eq_Some_conv) (metis option.distinct(1))

lemma running_activated: "running n v \<Longrightarrow> activated p a v v' \<Longrightarrow> running n v'"
  unfolding running_def active_name_def activated_def by (auto simp: bind_eq_Some_conv) (metis option.distinct(1))

lemma running_deactivated:
  "running n v \<Longrightarrow> deactivated a v v' \<Longrightarrow> active_name v a = Some m \<Longrightarrow> m \<noteq> n \<Longrightarrow> running n v'"
  unfolding running_def active_name_def deactivated_def by (auto simp: bind_eq_Some_conv) (metis option.inject)+

lemma running_deleted:
  "running n v \<Longrightarrow> deleted p v v' \<Longrightarrow> nv_profiles v p = Some s \<Longrightarrow> connection_id s \<noteq> Some n \<Longrightarrow> running n v'"
  unfolding running_def active_name_def deleted_def by (auto simp: bind_eq_Some_conv) (metis option.inject)

section \<open>Rules for the calls\<close>

lemma keeps_nm_try: "reads_only view m \<Longrightarrow> keeps view (nm_try action m)"
  unfolding reads_only_def keeps_def nm_try_def by (auto split: prod.splits sum.splits) (metis snd_conv)+

lemma keeps_nm_ok: "reads_only view m \<Longrightarrow> keeps view (nm_ok m)"
  unfolding reads_only_def keeps_def nm_ok_def by (auto split: prod.splits sum.splits) (metis snd_conv)+

lemma keeps_nm_or: "reads_only view m \<Longrightarrow> keeps view (nm_or d m)"
  unfolding nm_or_def by (intro keeps_bind keeps_nm_ok keeps_ret)

lemma documented_reads:
  assumes "nm_documented nm view"
  shows "reads_only view (nm_system_bus nm)" "reads_only view (nm_active_connections nm)"
    "reads_only view (nm_list_connections nm)" "reads_only view (nm_connectivity_check_enabled nm)"
    "reads_only view (nm_devices nm)" "reads_only view (nm_set_connectivity_check_enabled nm b)"
    "reads_only view (nm_active_id nm a)" "reads_only view (nm_active_connection nm a)"
    "reads_only view (nm_get_settings nm p)" "reads_only view (nm_device_state nm d)"
    "reads_only view (nm_device_type nm d)" "reads_only view (nm_device_interface nm d)"
    "reads_only view (nm_device_ip4_config nm d)" "reads_only view (nm_ip4_gateway nm c)"
    "reads_only view (nm_modify_device nm i k r)"
  using assms unfolding nm_documented_def reads_documented_def by blast+

text \<open>A call that reads: the view stays, and a result satisfies what is known of the answer in that view.\<close>

abbreviation seen :: "('w \<Rightarrow> nm_view) \<Rightarrow> nm_view \<Rightarrow> 'w \<Rightarrow> bool" where
  "seen view v w \<equiv> view w = v"

lemma holds_nm_try:
  assumes "reads_only view m" "\<And>w x w'. view w = v \<Longrightarrow> m w = (Inr x, w') \<Longrightarrow> Q x"
  shows "holds (seen view v) (nm_try action m) (\<lambda>x w. view w = v \<and> Q x) (\<lambda>_. seen view v)"
  using assms unfolding holds_def nm_try_def reads_only_def
  by (auto split: prod.splits sum.splits) (metis snd_conv)+

lemma holds_nm_ok:
  assumes "reads_only view m" "\<And>w x w'. view w = v \<Longrightarrow> m w = (Inr x, w') \<Longrightarrow> Q (Some x)"
    and "\<And>w e w'. view w = v \<Longrightarrow> m w = (Inl e, w') \<Longrightarrow> Q None"
  shows "holds (seen view v) (nm_ok m) (\<lambda>x w. view w = v \<and> Q x) (\<lambda>_. seen view v)"
  using assms unfolding holds_def nm_ok_def reads_only_def
  by (auto split: prod.splits sum.splits) (metis snd_conv)+

text \<open>An active connection of ours, as the search finds it.\<close>

definition active_ours :: "string \<Rightarrow> nm_view \<Rightarrow> path \<Rightarrow> bool" where
  "active_ours name v a \<longleftrightarrow>
     active_name v a = Some name \<and> (\<exists>p s. nv_active v a = Some p \<and> nv_profiles v p = Some s \<and> connection_owned s)"

text \<open>The searches find only what is there and, when objects can be read, everything that is there.\<close>

definition finds :: "bool \<Rightarrow> ('a \<Rightarrow> bool) \<Rightarrow> 'a set \<Rightarrow> 'a option \<Rightarrow> bool" where
  "finds exact P A r \<longleftrightarrow> (case r of Some x \<Rightarrow> P x | None \<Rightarrow> exact \<longrightarrow> (\<forall>x \<in> A. \<not> P x))"

lemma answersD:
  assumes "nm_documented nm view"
  shows "nm_active_connections nm w = (Inr ps, w') \<Longrightarrow> set ps = dom (nv_active (view w))"
    "nm_list_connections nm w = (Inr ps, w') \<Longrightarrow> set ps = dom (nv_profiles (view w))"
    "nm_active_id nm a w = (Inr i, w') \<Longrightarrow> active_name (view w) a = Some i"
    "nm_active_connection nm a w = (Inr p, w') \<Longrightarrow> nv_active (view w) a = Some p"
    "nm_get_settings nm p w = (Inr s, w') \<Longrightarrow> nv_profiles (view w) p = Some s"
  using assms unfolding nm_documented_def answers_documented_def by (simp_all del: split_paired_All)

lemma readableD:
  assumes "nm_readable nm view"
  shows "nm_active_id nm a w = (Inl e, w') \<Longrightarrow> active_name (view w) a = None"
    "nm_active_connection nm a w = (Inl e, w') \<Longrightarrow> nv_active (view w) a = None"
    "nm_get_settings nm p w = (Inl e, w') \<Longrightarrow> nv_profiles (view w) p = None"
  using assms unfolding nm_readable_def by (metis fst_conv option.exhaust sum.distinct(1))+

lemma read_active_id:
  assumes "nm_documented nm view" "exact \<longrightarrow> nm_readable nm view"
  shows "holds (seen view v) (nm_ok (nm_active_id nm a))
    (\<lambda>i w. view w = v \<and> (active_name v a = i \<or> \<not> exact \<and> i = None)) (\<lambda>_. seen view v)"
  by (rule holds_nm_ok) (auto simp: documented_reads [OF assms(1)] dest: answersD(3) [OF assms(1)] readableD(1) [OF mp [OF assms(2)]])

lemma read_active_connection:
  assumes "nm_documented nm view" "exact \<longrightarrow> nm_readable nm view"
  shows "holds (seen view v) (nm_ok (nm_active_connection nm a))
    (\<lambda>p w. view w = v \<and> (nv_active v a = p \<or> \<not> exact \<and> p = None)) (\<lambda>_. seen view v)"
  by (rule holds_nm_ok) (auto simp: documented_reads [OF assms(1)] dest: answersD(4) [OF assms(1)] readableD(2) [OF mp [OF assms(2)]])

lemma read_settings:
  assumes "nm_documented nm view" "exact \<longrightarrow> nm_readable nm view"
  shows "holds (seen view v) (nm_ok (nm_get_settings nm p))
    (\<lambda>s w. view w = v \<and> (nv_profiles v p = s \<or> \<not> exact \<and> s = None)) (\<lambda>_. seen view v)"
  by (rule holds_nm_ok) (auto simp: documented_reads [OF assms(1)] dest: answersD(5) [OF assms(1)] readableD(3) [OF mp [OF assms(2)]])

lemma holds_finds_Cons:
  assumes "holds P m (\<lambda>r w. view w = v \<and> finds exact R (set xs) r) E" "exact \<Longrightarrow> \<not> R x"
  shows "holds P m (\<lambda>r w. view w = v \<and> finds exact R (set (x # xs)) r) E"
  by (rule holds_weaken [OF assms(1)]) (use assms(2) in \<open>auto simp: finds_def split: option.splits\<close>)

lemma find_active_owned_finds:
  assumes D: "nm_documented nm view" "exact \<longrightarrow> nm_readable nm view"
  shows "holds (seen view v) (find_active_owned nm name paths)
    (\<lambda>r w. view w = v \<and> finds exact (active_ours name v) (set paths) r) (\<lambda>_. seen view v)"
proof (induction paths)
  case Nil
  show ?case by (simp add: holds_def aret_def finds_def)
next
  case (Cons a paths)
  show ?case
    unfolding find_active_owned.simps
    by (intro holds_bind [OF read_active_id [OF D]] holds_bind [OF read_active_connection [OF D]]
        holds_bind [OF read_settings [OF D]] holds_when holds_if holds_case_option holds_finds_Cons [OF Cons] holds_ret)
      (auto simp: active_ours_def finds_def split: option.splits)
qed

lemma find_active_finds:
  assumes D: "nm_documented nm view" "exact \<longrightarrow> nm_readable nm view"
  shows "holds (seen view v) (find_active nm name paths)
    (\<lambda>r w. view w = v \<and> finds exact (\<lambda>a. active_name v a = Some name) (set paths) r) (\<lambda>_. seen view v)"
proof (induction paths)
  case Nil
  show ?case by (simp add: holds_def aret_def finds_def)
next
  case (Cons a paths)
  show ?case
    unfolding find_active.simps
    by (intro holds_bind [OF read_active_id [OF D]] holds_when holds_if holds_finds_Cons [OF Cons] holds_ret)
      (auto simp: finds_def)
qed

lemma find_profile_finds:
  assumes D: "nm_documented nm view" "exact \<longrightarrow> nm_readable nm view"
  shows "holds (seen view v) (find_profile nm name paths)
    (\<lambda>r w. view w = v \<and> finds exact (\<lambda>p. \<exists>s. nv_profiles v p = Some s \<and> ours name s) (set paths) r) (\<lambda>_. seen view v)"
proof (induction paths)
  case Nil
  show ?case by (simp add: holds_def aret_def finds_def)
next
  case (Cons a paths)
  show ?case
    unfolding find_profile.simps
    by (intro holds_bind [OF read_settings [OF D]] holds_when holds_if holds_case_option holds_finds_Cons [OF Cons] holds_ret)
      (auto simp: finds_def ours_def split: option.splits)
qed

lemma active_owned_by_id:
  assumes D: "nm_documented nm view" "exact \<longrightarrow> nm_readable nm view"
  shows "holds (seen view v) (active_owned_connection_by_id nm name)
    (\<lambda>r w. view w = v \<and> finds exact (active_ours name v) UNIV r) (\<lambda>_. seen view v)"
  unfolding active_owned_connection_by_id_def
proof (rule holds_bind [OF holds_nm_try [where Q = "\<lambda>ps. set ps = dom (nv_active v)"]])
  show "reads_only view (nm_active_connections nm)" by (rule documented_reads [OF D(1)])
  show "set ps = dom (nv_active v)" if "view w = v" "nm_active_connections nm w = (Inr ps, w')" for w ps w'
    using answersD(1) [OF D(1) that(2)] that(1) by simp
  fix ps
  show "holds (\<lambda>w. view w = v \<and> set ps = dom (nv_active v)) (find_active_owned nm name ps)
      (\<lambda>r w. view w = v \<and> finds exact (active_ours name v) UNIV r) (\<lambda>_. seen view v)"
    by (rule holds_when, rule holds_weaken [OF find_active_owned_finds [OF D]])
      (auto simp: finds_def active_ours_def active_name_def bind_eq_Some_conv split: option.splits)
qed

lemma active_by_id:
  assumes D: "nm_documented nm view"
  shows "holds (seen view v) (active_connection_by_id nm name)
    (\<lambda>r w. view w = v \<and> (r \<noteq> None \<longrightarrow> running name v)) (\<lambda>_. seen view v)"
  unfolding active_connection_by_id_def
proof (rule holds_bind [OF holds_nm_try [where Q = "\<lambda>_. True"]])
  show "reads_only view (nm_active_connections nm)" by (rule documented_reads [OF D])
  show "holds (\<lambda>w. view w = v \<and> True) (find_active nm name ps)
      (\<lambda>r w. view w = v \<and> (r \<noteq> None \<longrightarrow> running name v)) (\<lambda>_. seen view v)" for ps
    by (rule holds_when, rule holds_weaken [OF find_active_finds [where exact = False, OF D]])
      (auto simp: finds_def running_def)
qed simp

lemma profile_by_id:
  assumes D: "nm_documented nm view"
  shows "holds (seen view v) (settings_connection_by_id_owned nm name)
    (\<lambda>r w. view w = v \<and> (\<forall>p. r = Some p \<longrightarrow> (\<exists>s. nv_profiles v p = Some s \<and> ours name s))) (\<lambda>_. seen view v)"
  unfolding settings_connection_by_id_owned_def
proof (rule holds_bind [OF holds_nm_try [where Q = "\<lambda>_. True"]])
  show "reads_only view (nm_list_connections nm)" by (rule documented_reads [OF D])
  show "holds (\<lambda>w. view w = v \<and> True) (find_profile nm name ps)
      (\<lambda>r w. view w = v \<and> (\<forall>p. r = Some p \<longrightarrow> (\<exists>s. nv_profiles v p = Some s \<and> ours name s))) (\<lambda>_. seen view v)" for ps
    by (rule holds_when, rule holds_weaken [OF find_profile_finds [where exact = False, OF D]])
      (auto simp: finds_def)
qed simp

text \<open>The calls that change something, from a known view.\<close>

lemma effectsD:
  assumes "nm_documented nm view"
  shows "nm_deactivate_connection nm a w = (r, w') \<Longrightarrow> deactivated a (view w) (view w') \<or> isl r \<and> view w' = view w"
    "nm_delete nm p w = (r, w') \<Longrightarrow> deleted p (view w) (view w') \<or> isl r \<and> view w' = view w"
    "nm_add_connection nm s w = (q, w') \<Longrightarrow> (case q of Inl _ \<Rightarrow> view w' = view w | Inr p \<Rightarrow> added s p (view w) (view w'))"
    "nm_add_connection_unsaved nm s w = (q, w') \<Longrightarrow> (case q of Inl _ \<Rightarrow> view w' = view w | Inr p \<Rightarrow> added s p (view w) (view w'))"
    "nm_activate_connection nm p d u w = (q, w') \<Longrightarrow> (case q of Inl _ \<Rightarrow> view w' = view w | Inr a \<Rightarrow> activated p a (view w) (view w'))"
  using assms unfolding nm_documented_def effects_documented_def by (simp_all del: split_paired_All)

lemma call_deactivate:
  assumes "nm_documented nm view"
  shows "holds (seen view v) (nm_try act (nm_deactivate_connection nm a))
    (\<lambda>_ w. deactivated a v (view w)) (\<lambda>_ w. deactivated a v (view w) \<or> view w = v)"
  unfolding holds_def nm_try_def by (auto split: prod.splits sum.splits dest!: effectsD(1) [OF assms])

lemma call_delete:
  assumes "nm_documented nm view"
  shows "holds (seen view v) (nm_try act (nm_delete nm p))
    (\<lambda>_ w. deleted p v (view w)) (\<lambda>_ w. deleted p v (view w) \<or> view w = v)"
  unfolding holds_def nm_try_def by (auto split: prod.splits sum.splits dest!: effectsD(2) [OF assms])

lemma call_add:
  assumes "nm_documented nm view"
  shows "holds (seen view v) (nm_try act (nm_add_connection nm s)) (\<lambda>p w. added s p v (view w)) (\<lambda>_. seen view v)"
    "holds (seen view v) (nm_try act (nm_add_connection_unsaved nm s)) (\<lambda>p w. added s p v (view w)) (\<lambda>_. seen view v)"
  unfolding holds_def nm_try_def by (auto split: prod.splits sum.splits dest!: effectsD(3,4) [OF assms])

lemma call_activate:
  assumes "nm_documented nm view"
  shows "holds (seen view v) (nm_try act (nm_activate_connection nm p d u))
    (\<lambda>a w. activated p a v (view w)) (\<lambda>_. seen view v)"
  unfolding holds_def nm_try_def by (auto split: prod.splits sum.splits dest!: effectsD(5) [OF assms])

text \<open>From a known view to any view with a property.\<close>

lemma holds_seen:
  assumes "\<And>v. F v \<Longrightarrow> holds (seen view v) m Q E"
  shows "holds (\<lambda>w. F (view w)) m Q E"
  using assms [unfolded holds_def] unfolding holds_def by simp

lemma pholds_seen:
  assumes "\<And>v. F v \<Longrightarrow> pholds (seen view v) m Q E"
  shows "pholds (\<lambda>w. F (view w)) m Q E"
  using assms [unfolded pholds_def] unfolding pholds_def by simp

section \<open>Removing connections\<close>

text \<open>A property of the view that removing our connections of a name cannot break.\<close>

definition spared :: "string \<Rightarrow> (nm_view \<Rightarrow> bool) \<Rightarrow> bool" where
  "spared name F \<longleftrightarrow>
     (\<forall>v v' a. F v \<longrightarrow> active_ours name v a \<longrightarrow> deactivated a v v' \<longrightarrow> F v')
     \<and> (\<forall>v v' p s. F v \<longrightarrow> nv_profiles v p = Some s \<longrightarrow> ours name s \<longrightarrow> deleted p v v' \<longrightarrow> F v')"

lemma spared_deactivated: "spared name F \<Longrightarrow> F v \<Longrightarrow> active_ours name v a \<Longrightarrow> deactivated a v v' \<Longrightarrow> F v'"
  unfolding spared_def by metis

lemma spared_deleted:
  "spared name F \<Longrightarrow> F v \<Longrightarrow> nv_profiles v p = Some s \<Longrightarrow> ours name s \<Longrightarrow> deleted p v v' \<Longrightarrow> F v'"
  unfolding spared_def by metis

lemma spared_running: "m \<noteq> n \<Longrightarrow> spared m (running n)"
  unfolding spared_def active_ours_def ours_def by (metis option.inject running_deactivated running_deleted)

lemma spared_absent: "spared m (absent n)"
  unfolding spared_def absent_def deactivated_def deleted_def by (auto split: if_splits)

lemma spared_conj: "spared m F \<Longrightarrow> spared m G \<Longrightarrow> spared m (\<lambda>v. F v \<and> G v)"
  unfolding spared_def by metis

lemma spared_imp: "(A \<Longrightarrow> spared m F) \<Longrightarrow> spared m (\<lambda>v. A \<longrightarrow> F v)"
  unfolding spared_def by metis

lemma deactivate_owned_spares:
  assumes D: "nm_documented nm view" and F: "spared name F"
  shows "pholds (\<lambda>w. F (view w)) (deactivate_owned nm name rounds removed) (\<lambda>_ w. F (view w)) (\<lambda>_ w. F (view w))"
proof (induction rounds arbitrary: removed)
  case 0
  then show ?case by (simp add: pholds_def)
next
  case (Suc rounds)
  let ?E = "\<lambda>_ w. F (view w)"
  have again: "holds (\<lambda>w. F (view w)) (active_owned_connection_by_id nm name) (\<lambda>_ w. F (view w)) ?E"
    by (rule holds_seen, rule holds_weaken [OF active_owned_by_id [where exact = False, OF D]]) auto
  have step: "holds (seen view v) (arescue (nm_try act (nm_deactivate_connection nm a))
      (\<lambda>e. abind (active_owned_connection_by_id nm name) (\<lambda>still. if still = None then aret () else afail e)))
      (\<lambda>_ w. F (view w)) ?E" if "F v" "active_ours name v a" for v a act
  proof (rule holds_rescue)
    show "holds (seen view v) (nm_try act (nm_deactivate_connection nm a)) (\<lambda>_ w. F (view w)) (\<lambda>_ w. F (view w))"
      by (rule holds_weaken [OF call_deactivate [OF D]]) (use that in \<open>auto intro: spared_deactivated [OF F]\<close>)
    show "holds (\<lambda>w. F (view w)) (abind (active_owned_connection_by_id nm name)
        (\<lambda>still. if still = None then aret () else afail e)) (\<lambda>_ w. F (view w)) ?E" for e
      by (intro holds_bind [OF again] holds_if holds_ret holds_fail)
  qed
  show ?case
  proof (rule pholds_seen)
    fix v assume v: "F v"
    show "pholds (seen view v) (deactivate_owned nm name (Suc rounds) removed) (\<lambda>_ w. F (view w)) ?E"
      unfolding deactivate_owned.simps
    proof (rule pholds_bind, rule pholds_total)
      show "holds (seen view v) (active_owned_connection_by_id nm name)
          (\<lambda>r w. view w = v \<and> finds False (active_ours name v) UNIV r) ?E"
        by (rule holds_weaken [OF active_owned_by_id [where exact = False, OF D]]) (use v in auto)
    next
      fix r
      show "pholds (\<lambda>w. view w = v \<and> finds False (active_ours name v) UNIV r)
          (case r of None \<Rightarrow> total (aret removed)
           | Some a \<Rightarrow>
               pbind (total (arescue (nm_try ''deactivate Proton protection connection'' (nm_deactivate_connection nm a))
                 (\<lambda>e. abind (active_owned_connection_by_id nm name) (\<lambda>still. if still = None then aret () else afail e))))
               (\<lambda>_. deactivate_owned nm name rounds True)) (\<lambda>_ w. F (view w)) ?E"
      proof (rule pholds_case_option; rule pholds_when)
        show "pholds (seen view v) (total (aret removed)) (\<lambda>_ w. F (view w)) ?E"
          by (rule pholds_total, rule holds_ret) (use v in auto)
        fix a assume "r = Some a" "finds False (active_ours name v) UNIV r"
        then have a: "active_ours name v a" by (simp add: finds_def)
        show "pholds (seen view v)
            (pbind (total (arescue (nm_try ''deactivate Proton protection connection'' (nm_deactivate_connection nm a))
               (\<lambda>e. abind (active_owned_connection_by_id nm name) (\<lambda>still. if still = None then aret () else afail e))))
             (\<lambda>_. deactivate_owned nm name rounds True)) (\<lambda>_ w. F (view w)) ?E"
          by (rule pholds_bind [OF pholds_total [OF step [OF v a]] Suc])
      qed
    qed
  qed
qed

lemma delete_owned_removes:
  assumes D: "nm_documented nm view" "exact \<longrightarrow> nm_readable nm view" and F: "spared name F"
  shows "holds (\<lambda>w. F (view w) \<and> (exact \<longrightarrow> (\<forall>p s. nv_profiles (view w) p = Some s \<longrightarrow> ours name s \<longrightarrow> p \<in> set paths)))
    (delete_owned nm name removed paths)
    (\<lambda>_ w. F (view w) \<and> (exact \<longrightarrow> absent name (view w))) (\<lambda>_ w. F (view w))"
proof (induction paths arbitrary: removed)
  case Nil
  then show ?case by (auto simp: absent_def intro!: holds_ret)
next
  case (Cons p paths)
  let ?left = "\<lambda>ps v. exact \<longrightarrow> (\<forall>q s. nv_profiles v q = Some s \<longrightarrow> ours name s \<longrightarrow> q \<in> set ps)"
  show ?case
  proof (rule holds_seen)
    fix v assume v: "F v \<and> ?left (p # paths) v"
    show "holds (seen view v) (delete_owned nm name removed (p # paths))
        (\<lambda>_ w. F (view w) \<and> (exact \<longrightarrow> absent name (view w))) (\<lambda>_ w. F (view w))"
      unfolding delete_owned.simps
    proof (rule holds_bind_err [OF read_settings [OF D]])
      fix found
      let ?hit = "case found of None \<Rightarrow> False | Some s \<Rightarrow> connection_id s = Some name \<and> connection_owned s"
      show "holds (\<lambda>w. view w = v \<and> (nv_profiles v p = found \<or> \<not> exact \<and> found = None))
          (if ?hit then abind (nm_try ''remove Proton protection connection'' (nm_delete nm p)) (\<lambda>_. delete_owned nm name True paths)
           else delete_owned nm name removed paths)
          (\<lambda>_ w. F (view w) \<and> (exact \<longrightarrow> absent name (view w))) (\<lambda>_ w. F (view w))"
      proof (rule holds_if)
        assume "?hit"
        then obtain s where s: "found = Some s" "ours name s" by (auto simp: ours_def split: option.splits)
        show "holds (\<lambda>w. view w = v \<and> (nv_profiles v p = found \<or> \<not> exact \<and> found = None))
            (abind (nm_try ''remove Proton protection connection'' (nm_delete nm p)) (\<lambda>_. delete_owned nm name True paths))
            (\<lambda>_ w. F (view w) \<and> (exact \<longrightarrow> absent name (view w))) (\<lambda>_ w. F (view w))"
        proof (rule holds_when, rule holds_bind [OF holds_weaken [OF call_delete [OF D(1)]] Cons])
          assume "nv_profiles v p = found \<or> \<not> exact \<and> found = None"
          then have p: "nv_profiles v p = Some s" using s by auto
          have F': "deleted p v u \<Longrightarrow> F u" for u using spared_deleted [OF F _ p s(2)] v by blast
          show "F (view w)" if "deleted p v (view w) \<or> view w = v" for w using that F' v by auto
          show "F (view w) \<and> ?left paths (view w)" if d: "deleted p v (view w)" for w
            using F' [OF d] d v by (auto simp: deleted_def split: if_splits)
        qed
      next
        assume n: "\<not> ?hit"
        show "holds (\<lambda>w. view w = v \<and> (nv_profiles v p = found \<or> \<not> exact \<and> found = None))
            (delete_owned nm name removed paths)
            (\<lambda>_ w. F (view w) \<and> (exact \<longrightarrow> absent name (view w))) (\<lambda>_ w. F (view w))"
          by (rule holds_weaken [OF Cons]) (use n v in \<open>auto simp: ours_def split: option.splits; metis option.distinct(1) option.inject\<close>)
      qed
    qed (use v in auto)
  qed
qed

lemma keeps_system_bus: "nm_documented nm view \<Longrightarrow> keeps view (system_bus nm)"
  unfolding system_bus_def by (intro keeps_nm_try documented_reads)

lemma holds_kept: "keeps view m \<Longrightarrow> holds (\<lambda>w. F (view w)) m (\<lambda>_ w. F (view w)) (\<lambda>_ w. F (view w))"
  by (rule holds_keeps)

lemma remove_owned:
  assumes D: "nm_documented nm view" "exact \<longrightarrow> nm_readable nm view" and F: "spared name F"
  shows "pholds (\<lambda>w. F (view w)) (remove_owned_connections_by_id nm rounds name)
    (\<lambda>_ w. F (view w) \<and> (exact \<longrightarrow> absent name (view w))) (\<lambda>_ w. F (view w))"
  unfolding remove_owned_connections_by_id_def
proof (rule pholds_bind [OF pholds_total [OF holds_kept [OF keeps_system_bus [OF D(1)]]]],
    rule pholds_bind [OF deactivate_owned_spares [OF D(1) F]], rule pholds_total, rule holds_seen)
  fix removed v assume v: "F v"
  show "holds (seen view v) (abind (nm_try ''list NetworkManager profiles'' (nm_list_connections nm)) (delete_owned nm name removed))
      (\<lambda>_ w. F (view w) \<and> (exact \<longrightarrow> absent name (view w))) (\<lambda>_ w. F (view w))"
  proof (rule holds_bind_err [OF holds_nm_try [where Q = "\<lambda>ps. set ps = dom (nv_profiles v)"]])
    show "reads_only view (nm_list_connections nm)" by (rule documented_reads [OF D(1)])
    show "set ps = dom (nv_profiles v)" if "view w = v" "nm_list_connections nm w = (Inr ps, w')" for w ps w'
      using answersD(2) [OF D(1) that(2)] that(1) by simp
    show "holds (\<lambda>w. view w = v \<and> set ps = dom (nv_profiles v)) (delete_owned nm name removed ps)
        (\<lambda>_ w. F (view w) \<and> (exact \<longrightarrow> absent name (view w))) (\<lambda>_ w. F (view w))" for ps
      by (rule holds_weaken [OF delete_owned_removes [OF D F]]) (use v in auto)
  qed (use v in auto)
qed

section \<open>Termination\<close>

text \<open>Every round removes an active connection or ends.\<close>

lemma deactivate_owned_ends:
  assumes D: "nm_documented nm view" "nm_readable nm view"
    and "finite (dom (nv_active (view w)))" "card (dom (nv_active (view w))) < rounds"
  shows "deactivate_owned nm name rounds removed w \<noteq> None"
  using assms(3,4)
proof (induction rounds arbitrary: removed w)
  case (Suc rounds)
  let ?find = "active_owned_connection_by_id nm name"
  have find: "holds (seen view v) ?find (\<lambda>r w. view w = v \<and> finds True (active_ours name v) UNIV r) (\<lambda>_. seen view v)" for v
    by (rule active_owned_by_id) (use D in auto)
  show ?case
  proof (cases "?find w")
    case (Pair r w1)
    show ?thesis
    proof (cases r)
      case (Inl e)
      then show ?thesis using Pair by (simp add: pbind_def total_def)
    next
      case (Inr found)
      have w1: "view w1 = view w" "finds True (active_ours name (view w)) UNIV found"
        using holdsD(1) [OF find, of w "view w"] Pair Inr by auto
      show ?thesis
      proof (cases found)
        case None
        then show ?thesis using Pair Inr by (simp add: pbind_def total_def)
      next
        case (Some a)
        then have a: "active_ours name (view w) a" using w1 by (simp add: finds_def)
        let ?step = "arescue (nm_try ''deactivate Proton protection connection'' (nm_deactivate_connection nm a))
          (\<lambda>e. abind ?find (\<lambda>still. if still = None then aret () else afail e))"
        have step: "holds (seen view (view w)) ?step (\<lambda>_ w'. deactivated a (view w) (view w')) (\<lambda>_ _. True)"
        proof (rule holds_rescue [OF call_deactivate [OF D(1)]], rule holds_seen)
          fix e v assume v: "deactivated a (view w) v \<or> v = view w"
          show "holds (seen view v) (abind ?find (\<lambda>still. if still = None then aret () else afail e))
              (\<lambda>_ w'. deactivated a (view w) (view w')) (\<lambda>_ _. True)"
          proof (rule holds_bind_err [OF find])
            fix still
            show "holds (\<lambda>w. view w = v \<and> finds True (active_ours name v) UNIV still)
                (if still = None then aret () else afail e) (\<lambda>_ w'. deactivated a (view w) (view w')) (\<lambda>_ _. True)"
              by (intro holds_if holds_ret holds_fail) (use v a in \<open>auto simp: finds_def\<close>)
          qed simp
        qed
        show ?thesis
        proof (cases "?step w1")
          case P2: (Pair r2 w2)
          show ?thesis
          proof (cases r2)
            case (Inl e)
            then show ?thesis using Pair Inr Some P2 \<open>r = Inr found\<close> by (simp add: pbind_def total_def)
          next
            case I2: (Inr u)
            have "deactivated a (view w) (view w2)" using holdsD(1) [OF step, of w1] w1 P2 I2 by simp
            then have d: "dom (nv_active (view w2)) = dom (nv_active (view w)) - {a}" by (auto simp: deactivated_def)
            have "a \<in> dom (nv_active (view w))" using a by (auto simp: active_ours_def)
            then have "card (dom (nv_active (view w2))) < rounds"
              using d Suc.prems card_Diff1_less [of "dom (nv_active (view w))" a] by simp
            then show ?thesis
              using Suc.IH [of w2 True] d Suc.prems Pair Inr Some P2 I2 by (simp add: pbind_def total_def)
          qed
        qed
      qed
    qed
  qed
qed simp


section \<open>Bringing a connection up\<close>

text \<open>The common part of the two protections: use the active connection, else the stored profile, else a new one. \<open>F\<close> holds
  before, \<open>G\<close> afterwards.\<close>

definition bring_up :: "'w nm \<Rightarrow> string \<Rightarrow> ('w, path) action \<Rightarrow> string \<Rightarrow> ('w, unit) action" where
  "bring_up nm name create act =
     abind (active_connection_by_id nm name) (\<lambda>active.
     if active \<noteq> None then aret ()
     else
     abind (settings_connection_by_id_owned nm name) (\<lambda>profile.
     abind (case profile of Some path \<Rightarrow> aret path | None \<Rightarrow> create) (\<lambda>path.
     abind (nm_try act (nm_activate_connection nm path DBUS_ROOT DBUS_ROOT)) (\<lambda>_. aret ()))))"

definition grows :: "string \<Rightarrow> (nm_view \<Rightarrow> bool) \<Rightarrow> (nm_view \<Rightarrow> bool) \<Rightarrow> bool" where
  "grows name F G \<longleftrightarrow> (\<forall>v. F v \<longrightarrow> G v)
     \<and> (\<forall>v v' p s. F v \<longrightarrow> connection_id s = Some name \<longrightarrow> added s p v v' \<longrightarrow> F v')
     \<and> (\<forall>v v' p s a. F v \<longrightarrow> nv_profiles v p = Some s \<longrightarrow> connection_id s = Some name \<longrightarrow> activated p a v v' \<longrightarrow> G v')"

lemma growsD:
  assumes "grows name F G" "F v"
  shows "G v" "connection_id s = Some name \<Longrightarrow> added s p v v' \<Longrightarrow> F v'" 
    "nv_profiles v p = Some s \<Longrightarrow> connection_id s = Some name \<Longrightarrow> activated p a v v' \<Longrightarrow> G v'"
  using assms unfolding grows_def by metis+

lemma grows_running: "grows m (running n) (running n)"
  unfolding grows_def by (metis running_added running_activated)

lemma grows_blocked: "grows m blocked blocked"
  unfolding grows_def blocked_def by (metis running_added running_activated)

lemma grows_absent: "m \<noteq> n \<Longrightarrow> grows m (absent n) (absent n)"
  unfolding grows_def absent_def added_def activated_def ours_def by (auto split: if_splits)

lemma grows_conj: "grows m F G \<Longrightarrow> grows m F' G' \<Longrightarrow> grows m (\<lambda>v. F v \<and> F' v) (\<lambda>v. G v \<and> G' v)"
  unfolding grows_def by (elim conjE, intro conjI) blast+

lemma grows_imp: "(A \<Longrightarrow> grows m F G) \<Longrightarrow> grows m (\<lambda>v. A \<longrightarrow> F v) (\<lambda>v. A \<longrightarrow> G v)"
  unfolding grows_def by (cases A) simp_all

lemma bring_up_running:
  assumes D: "nm_documented nm view" and G: "grows name F G"
    and create: "\<And>v. holds (seen view v) create (\<lambda>p w. \<exists>s. connection_id s = Some name \<and> added s p v (view w)) (\<lambda>_. seen view v)"
  shows "holds (\<lambda>w. F (view w)) (bring_up nm name create act)
    (\<lambda>_ w. G (view w) \<and> running name (view w)) (\<lambda>_ w. G (view w))"
  unfolding bring_up_def
proof (rule holds_seen)
  fix v assume v: "F v"
  let ?Q = "\<lambda>_ w. G (view w) \<and> running name (view w)" and ?E = "\<lambda>_ w. G (view w)"
  let ?named = "\<lambda>p v. F v \<and> (\<exists>s. nv_profiles v p = Some s \<and> connection_id s = Some name)"
  have up: "holds (\<lambda>w. ?named p (view w)) (abind (nm_try act (nm_activate_connection nm p DBUS_ROOT DBUS_ROOT)) (\<lambda>_. aret ())) ?Q ?E"
    for p
  proof (rule holds_seen)
    fix u assume u: "?named p u"
    have r: "activated p a u x \<Longrightarrow> running name x" for a x
      using u unfolding running_def active_name_def activated_def by (intro exI [of _ a]) auto
    show "holds (seen view u) (abind (nm_try act (nm_activate_connection nm p DBUS_ROOT DBUS_ROOT)) (\<lambda>_. aret ())) ?Q ?E"
      by (rule holds_bind_err [OF call_activate [OF D]], use u growsD(1) [OF G] in blast, rule holds_ret)
        (use u r growsD(3) [OF G] in blast)
  qed
  have new: "holds (seen view v) (case q of Some path \<Rightarrow> aret path | None \<Rightarrow> create) (\<lambda>p w. ?named p (view w)) (\<lambda>_. seen view v)"
    if q: "\<forall>p. q = Some p \<longrightarrow> (\<exists>s. nv_profiles v p = Some s \<and> ours name s)" for q
  proof (rule holds_case_option)
    show "holds (seen view v) create (\<lambda>p w. ?named p (view w)) (\<lambda>_. seen view v)"
      by (rule holds_weaken [OF create]) (use growsD(2) [OF G v] in \<open>auto simp: added_def\<close>)
    show "holds (seen view v) (aret p) (\<lambda>p w. ?named p (view w)) (\<lambda>_. seen view v)" if "q = Some p" for p
      by (rule holds_ret) (use q that v in \<open>auto simp: ours_def\<close>)
  qed
  show "holds (seen view v) (abind (active_connection_by_id nm name) (\<lambda>active. if active \<noteq> None then aret ()
      else abind (settings_connection_by_id_owned nm name) (\<lambda>profile.
           abind (case profile of Some path \<Rightarrow> aret path | None \<Rightarrow> create) (\<lambda>path.
           abind (nm_try act (nm_activate_connection nm path DBUS_ROOT DBUS_ROOT)) (\<lambda>_. aret ()))))) ?Q ?E"
  proof (rule holds_bind_err [OF active_by_id [OF D]])
    show "G (view w)" if "view w = v" for w using that growsD(1) [OF G v] by simp
    show "holds (\<lambda>w. view w = v \<and> (active \<noteq> None \<longrightarrow> running name v)) (if active \<noteq> None then aret ()
      else abind (settings_connection_by_id_owned nm name) (\<lambda>profile.
           abind (case profile of Some path \<Rightarrow> aret path | None \<Rightarrow> create) (\<lambda>path.
           abind (nm_try act (nm_activate_connection nm path DBUS_ROOT DBUS_ROOT)) (\<lambda>_. aret ())))) ?Q ?E" for active
    proof (rule holds_when, rule holds_if)
      assume "active \<noteq> None \<longrightarrow> running name v" "active \<noteq> None"
      then show "holds (seen view v) (aret ()) ?Q ?E" using growsD(1) [OF G v] by (auto intro!: holds_ret)
    next
      show "holds (seen view v) (abind (settings_connection_by_id_owned nm name) (\<lambda>profile.
           abind (case profile of Some path \<Rightarrow> aret path | None \<Rightarrow> create) (\<lambda>path.
           abind (nm_try act (nm_activate_connection nm path DBUS_ROOT DBUS_ROOT)) (\<lambda>_. aret ())))) ?Q ?E"
        by (rule holds_bind_err [OF profile_by_id [OF D]], use growsD(1) [OF G v] in simp,
            rule holds_when, rule holds_bind_err [OF new _ up])
          (use growsD(1) [OF G v] in auto)
    qed
  qed
qed

lemma connection_id_protection:
  "connection_id (kill_switch_settings env uuid name interface permanent) = Some name"
  "connection_id (ipv6_leak_settings env uuid) = Some IPV6_LEAK_CONNECTION_ID"
  by (simp_all add: connection_id_def setting_def kill_switch_settings_def ipv6_leak_settings_def obj_get_of)

lemma keeps_disable_connectivity_check: "nm_documented nm view \<Longrightarrow> keeps view (disable_connectivity_check nm)"
  unfolding disable_connectivity_check_def by (intro keeps_bind keeps_if keeps_nm_or keeps_nm_try keeps_ret documented_reads)

lemma activate_kill_switch_bring_up:
  "activate_kill_switch nm env uuid permanent name interface =
     bring_up nm name
       (if permanent
        then nm_try ''create permanent Kill Switch'' (nm_add_connection nm (kill_switch_settings env uuid name interface True))
        else nm_try ''create standard Kill Switch''
               (nm_add_connection_unsaved nm (kill_switch_settings env uuid name interface False)))
       ''activate Kill Switch''"
  unfolding activate_kill_switch_def bring_up_def ..

lemma activate_kill_switch_running:
  assumes D: "nm_documented nm view" and G: "grows name F G"
  shows "holds (\<lambda>w. F (view w)) (activate_kill_switch nm env uuid permanent name interface)
    (\<lambda>_ w. G (view w) \<and> running name (view w)) (\<lambda>_ w. G (view w))"
  unfolding activate_kill_switch_bring_up
proof (rule bring_up_running [OF D G], rule holds_if)
  show "holds (seen view v) (nm_try act (nm_add_connection nm (kill_switch_settings env uuid name interface True)))
      (\<lambda>p w. \<exists>s. connection_id s = Some name \<and> added s p v (view w)) (\<lambda>_. seen view v)" for v act
    by (rule holds_weaken [OF call_add(1) [OF D]]) (blast intro: connection_id_protection)+
  show "holds (seen view v) (nm_try act (nm_add_connection_unsaved nm (kill_switch_settings env uuid name interface False)))
      (\<lambda>p w. \<exists>s. connection_id s = Some name \<and> added s p v (view w)) (\<lambda>_. seen view v)" for v act
    by (rule holds_weaken [OF call_add(2) [OF D]]) (blast intro: connection_id_protection)+
qed

lemma ensure_ipv6_leak_bring_up:
  "ensure_ipv6_leak_protection nm env uuid =
     abind (system_bus nm) (\<lambda>_.
     abind (disable_connectivity_check nm) (\<lambda>_.
     bring_up nm IPV6_LEAK_CONNECTION_ID
       (nm_try ''create IPv6 leak protection'' (nm_add_connection_unsaved nm (ipv6_leak_settings env uuid)))
       ''activate IPv6 leak protection''))"
  unfolding ensure_ipv6_leak_protection_def bring_up_def ..

lemma ensure_ipv6_leak_running:
  assumes D: "nm_documented nm view" and G: "grows IPV6_LEAK_CONNECTION_ID F F"
  shows "holds (\<lambda>w. F (view w)) (ensure_ipv6_leak_protection nm env uuid)
    (\<lambda>_ w. F (view w) \<and> running IPV6_LEAK_CONNECTION_ID (view w)) (\<lambda>_ w. F (view w))"
  unfolding ensure_ipv6_leak_bring_up
proof (intro holds_bind [OF holds_kept [OF keeps_system_bus [OF D]]]
    holds_bind [OF holds_kept [OF keeps_disable_connectivity_check [OF D]]] bring_up_running [OF D G])
  show "holds (seen view v) (nm_try act (nm_add_connection_unsaved nm (ipv6_leak_settings env uuid)))
      (\<lambda>p w. \<exists>s. connection_id s = Some IPV6_LEAK_CONNECTION_ID \<and> added s p v (view w)) (\<lambda>_. seen view v)" for v act
    by (rule holds_weaken [OF call_add(2) [OF D]]) (blast intro: connection_id_protection)+
qed

section \<open>Reconciling\<close>

definition protection_name :: "bool \<Rightarrow> string" where
  "protection_name permanent = (if permanent then KILL_SWITCH_PERMANENT_CONNECTION_ID else KILL_SWITCH_CONNECTION_ID)"

lemma kill_switch_distinct:
  "protection_name (\<not> b) \<noteq> protection_name b" "protection_name b \<noteq> IPV6_LEAK_CONNECTION_ID"
  "IPV6_LEAK_CONNECTION_ID \<noteq> protection_name b"
  by (auto simp: protection_name_def kill_switch_names)

lemma ensure_full_kill_switch_named:
  "ensure_full_kill_switch nm env uuid rounds permanent =
     pbind (total (system_bus nm)) (\<lambda>_.
     pbind (total (disable_connectivity_check nm)) (\<lambda>_.
     pbind (total (activate_kill_switch nm env uuid permanent (protection_name permanent)
       (if permanent then KILL_SWITCH_PERMANENT_INTERFACE else KILL_SWITCH_INTERFACE))) (\<lambda>_.
     pbind (remove_owned_connections_by_id nm rounds (protection_name (\<not> permanent))) (\<lambda>_. total (aret ())))))"
  unfolding ensure_full_kill_switch_def protection_name_def Let_def by simp

text \<open>The one switch runs before the other is removed.\<close>

lemma ensure_full_running:
  assumes D: "nm_documented nm view" "exact \<longrightarrow> nm_readable nm view" and G: "grows (protection_name permanent) F G"
    and S: "spared (protection_name (\<not> permanent)) H"
    and H: "\<And>v. G v \<Longrightarrow> running (protection_name permanent) v \<Longrightarrow> H v"
    and E: "\<And>v. F v \<Longrightarrow> R v" "\<And>v. G v \<Longrightarrow> R v" "\<And>v. H v \<Longrightarrow> R v"
  shows "pholds (\<lambda>w. F (view w)) (ensure_full_kill_switch nm env uuid rounds permanent)
    (\<lambda>_ w. H (view w) \<and> (exact \<longrightarrow> absent (protection_name (\<not> permanent)) (view w))) (\<lambda>_ w. R (view w))"
  unfolding ensure_full_kill_switch_named
proof (rule pholds_bind [OF pholds_total], rule holds_weaken [OF holds_kept [OF keeps_system_bus [OF D(1)]]], assumption, assumption,
    erule E, rule pholds_bind [OF pholds_total], rule holds_weaken [OF holds_kept [OF keeps_disable_connectivity_check [OF D(1)]]],
    assumption, assumption, erule E)
  let ?on = "activate_kill_switch nm env uuid permanent (protection_name permanent)
    (if permanent then KILL_SWITCH_PERMANENT_INTERFACE else KILL_SWITCH_INTERFACE)"
  have on: "holds (\<lambda>w. F (view w)) ?on (\<lambda>_ w. H (view w)) (\<lambda>_ w. R (view w))"
    by (rule holds_weaken [OF activate_kill_switch_running [OF D(1) G]]) (use H E in auto)
  have off: "pholds (\<lambda>w. H (view w)) (remove_owned_connections_by_id nm rounds (protection_name (\<not> permanent)))
      (\<lambda>_ w. H (view w) \<and> (exact \<longrightarrow> absent (protection_name (\<not> permanent)) (view w))) (\<lambda>_ w. R (view w))"
    by (rule pholds_weaken [OF remove_owned [OF D S]]) (use E in auto)
  show "pholds (\<lambda>w. F (view w)) (pbind (total ?on) (\<lambda>_.
      pbind (remove_owned_connections_by_id nm rounds (protection_name (\<not> permanent))) (\<lambda>_. total (aret ()))))
      (\<lambda>_ w. H (view w) \<and> (exact \<longrightarrow> absent (protection_name (\<not> permanent)) (view w))) (\<lambda>_ w. R (view w))"
    by (intro pholds_bind [OF pholds_total [OF on]] pholds_bind [OF off] pholds_total holds_ret)
qed

lemma keeps_modify_devices: "nm_documented nm view \<Longrightarrow> keeps view (modify_devices nm ip add n devices)"
proof (induction devices arbitrary: n)
  case (Cons d devices)
  have "keeps view (modify_route nm ip add i g)" for i g
    using documented_reads(15) [OF Cons.prems] unfolding keeps_def modify_route_def reads_only_def
    by (auto split: prod.splits sum.splits) (metis snd_conv)+
  then show ?case
    unfolding modify_devices.simps
    by (intro keeps_bind keeps_if keeps_nm_or keeps_nm_ok keeps_nm_try documented_reads [OF Cons.prems] Cons)
qed (simp add: keeps_ret)

lemma keeps_modify_server_route: "nm_documented nm view \<Longrightarrow> keeps view (modify_server_route nm ip add)"
  unfolding modify_server_route_def
  by (intro keeps_bind keeps_ret keeps_system_bus keeps_nm_try keeps_modify_devices documented_reads)

lemma reconcile_blocking:
  assumes D: "nm_documented nm view" "exact \<longrightarrow> nm_readable nm view" and mode: "mode \<le> 2" "should_block mode active"
  shows "pholds (\<lambda>w. b \<longrightarrow> blocked (view w)) (nm_reconcile_kill_switch nm env uuid rounds mode active ip leak)
    (\<lambda>_ w. running (protection_name (mode = 2)) (view w)
      \<and> (exact \<longrightarrow> absent (protection_name (mode \<noteq> 2)) (view w) \<and> absent IPV6_LEAK_CONNECTION_ID (view w)))
    (\<lambda>_ w. b \<longrightarrow> blocked (view w))"
proof -
  let ?on = "protection_name (mode = 2)" and ?off = "protection_name (mode \<noteq> 2)"
  let ?H = "\<lambda>v. running ?on v \<and> (exact \<longrightarrow> absent ?off v)"
  have blocked: "running ?on v \<Longrightarrow> blocked v" for v
    by (auto simp: blocked_def protection_name_def split: if_splits)
  have full: "pholds (\<lambda>w. b \<longrightarrow> blocked (view w)) (ensure_full_kill_switch nm env uuid rounds (mode = 2))
      (\<lambda>_ w. ?H (view w)) (\<lambda>_ w. b \<longrightarrow> blocked (view w))"
    by (rule ensure_full_running [OF D grows_imp [OF grows_blocked] spared_running])
      (use blocked kill_switch_distinct(1) in auto)
  have H: "spared IPV6_LEAK_CONNECTION_ID ?H"
    by (intro spared_conj spared_imp spared_running spared_absent) (rule kill_switch_distinct)
  have "pholds (\<lambda>w. ?H (view w)) (remove_ipv6_leak_protection nm rounds)
      (\<lambda>_ w. ?H (view w) \<and> (exact \<longrightarrow> absent IPV6_LEAK_CONNECTION_ID (view w))) (\<lambda>_ w. b \<longrightarrow> blocked (view w))"
    unfolding remove_ipv6_leak_protection_def by (rule pholds_weaken [OF remove_owned [OF D H]]) (use blocked in auto)
  note both = pholds_bind [OF full pholds_bind [OF this]]
  let ?J = "\<lambda>v. running ?on v \<and> (exact \<longrightarrow> absent ?off v \<and> absent IPV6_LEAK_CONNECTION_ID v)"
  have route: "holds (\<lambda>w. ?J (view w)) (modify_server_route nm i active) (\<lambda>_ w. ?J (view w)) (\<lambda>_ w. b \<longrightarrow> blocked (view w))"
    for i by (rule holds_weaken [OF holds_kept [OF keeps_modify_server_route [OF D(1)], of ?J]]) (use blocked in auto)
  have last: "pholds (\<lambda>w. ?H (view w) \<and> (exact \<longrightarrow> absent IPV6_LEAK_CONNECTION_ID (view w)))
      (case ip of None \<Rightarrow> total (aret ()) | Some i \<Rightarrow> total (modify_server_route nm i active))
      (\<lambda>_ w. ?J (view w)) (\<lambda>_ w. b \<longrightarrow> blocked (view w))"
    by (rule pholds_weaken [where P = "\<lambda>w. ?J (view w)" and Q = "\<lambda>_ w. ?J (view w)"
          and E = "\<lambda>_ w. b \<longrightarrow> blocked (view w)"], intro pholds_case_option pholds_total route holds_ret) auto
  show ?thesis using both [OF last] mode leD [OF mode(1)] by (simp add: nm_reconcile_kill_switch_def)
qed

lemma reconcile_lifting:
  assumes D: "nm_documented nm view" "nm_readable nm view" and mode: "mode \<le> 2" "\<not> should_block mode active"
  shows "pholds (\<lambda>_. True) (nm_reconcile_kill_switch nm env uuid rounds mode active ip leak)
    (\<lambda>_ w. absent KILL_SWITCH_CONNECTION_ID (view w) \<and> absent KILL_SWITCH_PERMANENT_CONNECTION_ID (view w)
      \<and> (if active \<and> leak then running IPV6_LEAK_CONNECTION_ID (view w) else absent IPV6_LEAK_CONNECTION_ID (view w)))
    (\<lambda>_ _. True)"
proof -
  let ?A = "\<lambda>v. absent KILL_SWITCH_CONNECTION_ID v" and ?B = "\<lambda>v. absent KILL_SWITCH_PERMANENT_CONNECTION_ID v"
  have D': "True \<longrightarrow> nm_readable nm view" using D by simp
  have rm: "pholds (\<lambda>w. F (view w)) (remove_owned_connections_by_id nm rounds name)
      (\<lambda>_ w. F (view w) \<and> absent name (view w)) (\<lambda>_ _. True)" if "spared name F" for F name
    by (rule pholds_weaken [OF remove_owned [OF D(1) D' that]]) auto
  have first: "pholds (\<lambda>_. True) (remove_owned_connections_by_id nm rounds KILL_SWITCH_CONNECTION_ID) (\<lambda>_ w. ?A (view w)) (\<lambda>_ _. True)"
    by (rule pholds_weaken [OF rm [of _ "\<lambda>_. True"]]) (auto simp: spared_def)
  have route: "holds (\<lambda>w. ?A (view w) \<and> ?B (view w)) (modify_server_route nm i False) (\<lambda>_ w. ?A (view w) \<and> ?B (view w)) (\<lambda>_ _. True)"
    for i by (rule holds_weaken [OF holds_kept [OF keeps_modify_server_route [OF D(1)], of "\<lambda>v. ?A v \<and> ?B v"]]) auto
  have routes: "pholds (\<lambda>w. ?A (view w) \<and> ?B (view w))
      (case ip of Some i \<Rightarrow> if mode \<noteq> 0 then total (modify_server_route nm i False) else total (aret ()) | None \<Rightarrow> total (aret ()))
      (\<lambda>_ w. ?A (view w) \<and> ?B (view w)) (\<lambda>_ _. True)"
    by (intro pholds_case_option pholds_if pholds_total route holds_ret)
  have up: "holds (\<lambda>w. ?A (view w) \<and> ?B (view w)) (ensure_ipv6_leak_protection nm env uuid)
      (\<lambda>_ w. (?A (view w) \<and> ?B (view w)) \<and> running IPV6_LEAK_CONNECTION_ID (view w)) (\<lambda>_ _. True)"
    by (rule holds_weaken [OF ensure_ipv6_leak_running [OF D(1), of "\<lambda>v. ?A v \<and> ?B v"]])
      (auto intro!: grows_conj grows_absent simp: kill_switch_names)
  have down: "pholds (\<lambda>w. ?A (view w) \<and> ?B (view w)) (remove_ipv6_leak_protection nm rounds)
      (\<lambda>_ w. (?A (view w) \<and> ?B (view w)) \<and> absent IPV6_LEAK_CONNECTION_ID (view w)) (\<lambda>_ _. True)"
    unfolding remove_ipv6_leak_protection_def by (rule rm) (intro spared_conj spared_absent)
  have leak: "pholds (\<lambda>w. ?A (view w) \<and> ?B (view w))
      (if active \<and> leak then total (ensure_ipv6_leak_protection nm env uuid)
       else pbind (remove_ipv6_leak_protection nm rounds) (\<lambda>_. total (aret ())))
      (\<lambda>_ w. ?A (view w) \<and> ?B (view w)
        \<and> (if active \<and> leak then running IPV6_LEAK_CONNECTION_ID (view w) else absent IPV6_LEAK_CONNECTION_ID (view w))) (\<lambda>_ _. True)"
    by (rule pholds_if, rule pholds_weaken [OF pholds_total [OF up]], assumption, simp, simp,
        rule pholds_bind [OF down], rule pholds_total, rule holds_ret, auto)
  show ?thesis
    using pholds_bind [OF first pholds_bind [OF rm [OF spared_absent] pholds_bind [OF routes leak]]] mode leD [OF mode(1)]
    by (simp add: nm_reconcile_kill_switch_def lift_blocking_def)
qed

section \<open>Reconciling ends\<close>

definition few :: "nat \<Rightarrow> nm_view \<Rightarrow> bool" where
  "few n v \<longleftrightarrow> finite (dom (nv_active v)) \<and> card (dom (nv_active v)) \<le> n"

lemma few_subset: "few n v \<Longrightarrow> dom (nv_active v') \<subseteq> dom (nv_active v) \<Longrightarrow> few n v'"
  unfolding few_def by (meson card_mono finite_subset le_trans)

lemma spared_few: "spared m (few n)"
  unfolding spared_def deactivated_def deleted_def by (auto elim!: few_subset split: if_splits)

lemma grows_few: "grows m (few n) (few (Suc n))"
  unfolding grows_def few_def added_def activated_def by (auto simp: card_insert_if)

lemma remove_owned_few:
  assumes "nm_documented nm view"
  shows "pholds (\<lambda>w. few n (view w)) (remove_owned_connections_by_id nm rounds name) (\<lambda>_ w. few n (view w)) (\<lambda>_ w. few n (view w))"
  by (rule pholds_weaken [OF remove_owned [where exact = False, OF assms _ spared_few]]) auto

lemma remove_owned_ends:
  assumes "nm_documented nm view" "nm_readable nm view" "n < rounds"
  shows "ends (\<lambda>w. few n (view w)) (remove_owned_connections_by_id nm rounds name)"
  unfolding remove_owned_connections_by_id_def
proof (intro ends_bind [OF ends_total pholds_total [OF holds_kept [OF keeps_system_bus [OF assms(1)]]]]
    ends_bind [OF _ deactivate_owned_spares [OF assms(1) spared_few]] ends_total)
  show "ends (\<lambda>w. few n (view w)) (deactivate_owned nm name rounds False)"
    unfolding ends_def using deactivate_owned_ends [OF assms(1,2)] assms(3) by (fastforce simp: few_def)
qed

lemma ensure_full_few:
  assumes D: "nm_documented nm view"
  shows "pholds (\<lambda>w. few n (view w)) (ensure_full_kill_switch nm env uuid rounds permanent)
    (\<lambda>_ w. few (Suc n) (view w)) (\<lambda>_ w. few (Suc n) (view w))"
  by (rule pholds_weaken [OF ensure_full_running [where exact = False and R = "few (Suc n)", OF D _ grows_few spared_few]])
    (auto simp: few_def)

lemma ensure_full_ends:
  assumes D: "nm_documented nm view" "nm_readable nm view" and "Suc n < rounds"
  shows "ends (\<lambda>w. few n (view w)) (ensure_full_kill_switch nm env uuid rounds permanent)"
  unfolding ensure_full_kill_switch_named
proof -
  let ?on = "activate_kill_switch nm env uuid permanent (protection_name permanent)
    (if permanent then KILL_SWITCH_PERMANENT_INTERFACE else KILL_SWITCH_INTERFACE)"
  have on: "holds (\<lambda>w. few n (view w)) ?on (\<lambda>_ w. few (Suc n) (view w)) (\<lambda>_ w. few (Suc n) (view w))"
    by (rule holds_weaken [OF activate_kill_switch_running [OF D(1) grows_few]]) auto
  show "ends (\<lambda>w. few n (view w)) (pbind (total (system_bus nm)) (\<lambda>_.
      pbind (total (disable_connectivity_check nm)) (\<lambda>_. pbind (total ?on) (\<lambda>_.
      pbind (remove_owned_connections_by_id nm rounds (protection_name (\<not> permanent))) (\<lambda>_. total (aret ()))))))"
    by (intro ends_bind [OF ends_total pholds_total [OF holds_kept [OF keeps_system_bus [OF D(1)]]]]
        ends_bind [OF ends_total pholds_total [OF holds_kept [OF keeps_disable_connectivity_check [OF D(1)]]]]
        ends_bind [OF ends_total pholds_total [OF on]]
        ends_bind [OF remove_owned_ends [OF D assms(3)] remove_owned_few [OF D(1)]] ends_total)
qed

lemma reconcile_ends:
  assumes D: "nm_documented nm view" "nm_readable nm view" and n: "Suc n < rounds"
  shows "ends (\<lambda>w. few n (view w)) (nm_reconcile_kill_switch nm env uuid rounds mode active ip leak)"
proof -
  have n': "n < rounds" using n by simp
  note rm = ends_bind [OF remove_owned_ends [OF D] remove_owned_few [OF D(1)]]
  have route: "pholds (\<lambda>w. few n (view w))
      (case ip of Some i \<Rightarrow> if mode \<noteq> 0 then total (modify_server_route nm i False) else total (aret ()) | None \<Rightarrow> total (aret ()))
      (\<lambda>_ w. few n (view w)) (\<lambda>_ w. few n (view w))"
    by (intro pholds_case_option pholds_if pholds_total holds_kept keeps_modify_server_route [OF D(1)] keeps_ret)
  show ?thesis
    unfolding nm_reconcile_kill_switch_def lift_blocking_def remove_ipv6_leak_protection_def
    by (intro ends_if ends_case_option rm n n' ends_total ends_bind [OF _ route]
        ends_bind [OF ensure_full_ends [OF D n] ensure_full_few [OF D(1)]])
qed

section \<open>A NetworkManager that behaves as documented\<close>

record demo_state =
  ds_profiles :: "(path \<times> connection_settings) list"
  ds_active :: "(path \<times> path) list"

definition demo_view :: "demo_state \<Rightarrow> nm_view" where
  "demo_view w = \<lparr>nv_profiles = map_of (ds_profiles w), nv_active = map_of (ds_active w)\<rparr>"

definition demo_answer :: "'a option \<Rightarrow> (demo_state, 'a) dbus" where
  "demo_answer x w = (case x of None \<Rightarrow> Inl ''unknown object'' | Some y \<Rightarrow> Inr y, w)"

definition demo_profile :: "demo_state \<Rightarrow> path \<Rightarrow> connection_settings option" where
  "demo_profile w a = Option.bind (map_of (ds_active w) a) (map_of (ds_profiles w))"

definition demo_fresh :: "path list \<Rightarrow> path" where
  "demo_fresh ps = concat ps @ ''/''"

definition demo_keep :: "(path \<Rightarrow> bool) \<Rightarrow> (path \<times> 'a) list \<Rightarrow> (path \<times> 'a) list" where
  "demo_keep P kvs = filter (\<lambda>(k, _). P k) kvs"

definition demo_add :: "connection_settings \<Rightarrow> (demo_state, path) dbus" where
  "demo_add s w = (let p = demo_fresh (List.map fst (ds_profiles w) @ List.map snd (ds_active w)) in (Inr p, w\<lparr>ds_profiles := (p, s) # ds_profiles w\<rparr>))"

definition demo_nm :: "demo_state nm" where
  "demo_nm =
     \<lparr>nm_system_bus = demo_answer (Some ()),
      nm_active_connections = (\<lambda>w. demo_answer (Some (List.map fst (ds_active w))) w),
      nm_active_id = (\<lambda>a w. demo_answer (active_name (demo_view w) a) w),
      nm_active_uuid = (\<lambda>a w. demo_answer (Option.bind (demo_profile w a) connection_uuid) w),
      nm_active_type = (\<lambda>a. demo_answer None),
      nm_active_vpn = (\<lambda>a w. demo_answer (map_option (\<lambda>s. service_type s \<noteq> None) (demo_profile w a)) w),
      nm_active_connection = (\<lambda>a w. demo_answer (map_of (ds_active w) a) w),
      nm_vpn_state = (\<lambda>a. demo_answer (Some VPN_STATE_ACTIVATED)),
      nm_get_settings = (\<lambda>p w. demo_answer (map_of (ds_profiles w) p) w),
      nm_delete = (\<lambda>p w. (Inr (), w\<lparr>ds_profiles := demo_keep (\<lambda>q. q \<noteq> p) (ds_profiles w),
        ds_active := demo_keep (\<lambda>a. map_of (ds_active w) a \<noteq> Some p) (ds_active w)\<rparr>)),
      nm_list_connections = (\<lambda>w. demo_answer (Some (List.map fst (ds_profiles w))) w),
      nm_add_connection = demo_add, nm_add_connection_unsaved = demo_add,
      nm_activate_connection = (\<lambda>p d o' w.
        (let a = demo_fresh (List.map fst (ds_active w)) in (Inr a, w\<lparr>ds_active := (a, p) # ds_active w\<rparr>))),
      nm_deactivate_connection = (\<lambda>a w. (Inr (), w\<lparr>ds_active := demo_keep (\<lambda>b. b \<noteq> a) (ds_active w)\<rparr>)),
      nm_primary_connection = demo_answer None, nm_connectivity_check_enabled = demo_answer (Some True),
      nm_set_connectivity_check_enabled = (\<lambda>b. demo_answer (Some ())),
      nm_devices = demo_answer (Some []), nm_device_state = (\<lambda>d. demo_answer None), nm_device_type = (\<lambda>d. demo_answer None),
      nm_device_interface = (\<lambda>d. demo_answer None), nm_device_ip4_config = (\<lambda>d. demo_answer None),
      nm_ip4_gateway = (\<lambda>c. demo_answer None), nm_modify_device = (\<lambda>i k r. demo_answer None)\<rparr>"

lemma map_of_demo_keep: "map_of (demo_keep P kvs) k = (if P k then map_of kvs k else None)"
  unfolding demo_keep_def by (induction kvs) auto

lemma demo_fresh_fresh: "demo_fresh ps \<notin> set ps"
proof -
  have "length p \<le> length (concat ps)" if "p \<in> set ps" for p
    using that by (induction ps) (auto intro: trans_le_add2)
  then show ?thesis unfolding demo_fresh_def by fastforce
qed

lemma demo_added: "added s (demo_fresh (List.map fst (ds_profiles w) @ List.map snd (ds_active w))) (demo_view w)
    (demo_view (snd (demo_add s w)))"
proof -
  let ?p = "demo_fresh (List.map fst (ds_profiles w) @ List.map snd (ds_active w))"
  have p: "?p \<notin> fst ` set (ds_profiles w)" "?p \<notin> snd ` set (ds_active w)"
    using demo_fresh_fresh [of "List.map fst (ds_profiles w) @ List.map snd (ds_active w)"] by auto
  have "Some ?p \<notin> range (map_of (ds_active w))" using p(2) by (auto dest!: sym [THEN map_of_SomeD]) force
  then show ?thesis using p(1) by (simp add: added_def demo_view_def demo_add_def Let_def map_of_eq_None_iff)
qed

lemma demo_activated: "nv_active (demo_view w) (demo_fresh (List.map fst (ds_active w))) = None"
  using demo_fresh_fresh [of "List.map fst (ds_active w)"] by (simp add: demo_view_def map_of_eq_None_iff)

lemma demo_documented: "nm_documented demo_nm demo_view"
  unfolding nm_documented_def
proof (intro conjI)
  show "reads_documented demo_nm demo_view"
    by (simp add: reads_documented_def reads_only_def demo_nm_def demo_answer_def)
  show "answers_documented demo_nm demo_view"
    by (auto simp: answers_documented_def demo_nm_def demo_answer_def demo_view_def dom_map_of_conv_image_fst split: option.splits)
  show "effects_documented demo_nm demo_view"
    unfolding effects_documented_def
  proof (intro conjI allI impI)
    fix w s r w' assume "nm_add_connection demo_nm s w = (r, w')"
    then show "case r of Inl _ \<Rightarrow> demo_view w' = demo_view w | Inr p \<Rightarrow> added s p (demo_view w) (demo_view w')"
      using demo_added [of s w] by (auto simp: demo_nm_def demo_add_def Let_def)
  next
    fix w s r w' assume "nm_add_connection_unsaved demo_nm s w = (r, w')"
    then show "case r of Inl _ \<Rightarrow> demo_view w' = demo_view w | Inr p \<Rightarrow> added s p (demo_view w) (demo_view w')"
      using demo_added [of s w] by (auto simp: demo_nm_def demo_add_def Let_def)
  next
    fix w p d o' r w' assume "nm_activate_connection demo_nm p d o' w = (r, w')"
    then show "case r of Inl _ \<Rightarrow> demo_view w' = demo_view w | Inr a \<Rightarrow> activated p a (demo_view w) (demo_view w')"
      using demo_activated [of w] by (auto simp: demo_nm_def activated_def demo_view_def Let_def)
  qed (auto simp: demo_nm_def demo_view_def deactivated_def deleted_def map_of_demo_keep fun_eq_iff)
qed

lemma demo_readable: "nm_readable demo_nm demo_view"
  by (simp add: nm_readable_def demo_nm_def demo_answer_def) (simp add: demo_view_def)

text \<open>The standard kill switch runs.\<close>

definition demo_env :: host_env where
  "demo_env = \<lparr>he_user = Some ''me'', he_uid = 1000, he_runtime_dir = None\<rparr>"

definition demo_world :: demo_state where
  "demo_world =
     \<lparr>ds_profiles = [(''/p'', kill_switch_settings demo_env ''u'' KILL_SWITCH_CONNECTION_ID KILL_SWITCH_INTERFACE False)],
      ds_active = [(''/a'', ''/p'')]\<rparr>"

definition succeeded :: "('a native_res \<times> 'w) option \<Rightarrow> bool" where
  "succeeded x \<longleftrightarrow> (case x of Some (Inr _, _) \<Rightarrow> True | _ \<Rightarrow> False)"

lemma came_back: "succeeded x \<Longrightarrow> (\<And>w'. x = Some (Inr (), w') \<Longrightarrow> P) \<Longrightarrow> P"
  unfolding succeeded_def by (auto split: option.splits prod.splits sum.splits)

lemma demo_switches: "succeeded (nm_reconcile_kill_switch demo_nm demo_env ''u'' 4 2 True None False demo_world)"
  by code_simp

lemma demo_lifts: "succeeded (nm_reconcile_kill_switch demo_nm demo_env ''u'' 4 0 True None True demo_world)"
  by code_simp

section \<open>The properties\<close>

text \<open>C1. While the mode calls for blocking, reconciling the kill switch never opens the network: if a blocking connection was
  active before, one is active afterwards whatever call failed on the way; and when it succeeds the switch of the mode is
  active.\<close>

theorem kill_switch_has_no_gap:
  assumes "nm_documented nm view" "mode \<le> 2" "should_block mode active"
    and "nm_reconcile_kill_switch nm env uuid rounds mode active ip leak w = Some (r, w')"
  shows "(blocked (view w) \<longrightarrow> blocked (view w'))
    \<and> (r = Inr () \<longrightarrow> running (if mode = 2 then KILL_SWITCH_PERMANENT_CONNECTION_ID else KILL_SWITCH_CONNECTION_ID) (view w'))"
proof -
  have exact: "False \<longrightarrow> nm_readable nm view" by simp
  note kept = reconcile_blocking [OF assms(1) exact assms(2,3)]
  show ?thesis
  proof (cases r)
    case (Inl e)
    then show ?thesis using pholdsD(2) [OF kept [where b = "blocked (view w)"], of w] assms(4) by fastforce
  next
    case (Inr u)
    then have "running (protection_name (mode = 2)) (view w')"
      using pholdsD(1) [OF kept [where b = False], of w] assms(4) by fastforce
    then show ?thesis by (auto simp: blocked_def protection_name_def split: if_splits)
  qed
qed

theorem kill_switch_has_no_gap_witness:
  "blocked (demo_view demo_world) \<and>
    (\<exists>w'. nm_reconcile_kill_switch demo_nm demo_env ''u'' 4 2 True None False demo_world = Some (Inr (), w')
       \<and> running KILL_SWITCH_PERMANENT_CONNECTION_ID (demo_view w') \<and> blocked (demo_view w'))"
proof -
  obtain w' where w': "nm_reconcile_kill_switch demo_nm demo_env ''u'' 4 2 True None False demo_world = Some (Inr (), w')"
    using demo_switches by (rule came_back)
  have start: "blocked (demo_view demo_world)"
    unfolding blocked_def running_def by (rule disjI1, rule exI [of _ "''/a''"]) code_simp
  have mode: "(2::u8) \<le> 2" "should_block 2 True" by (simp_all add: should_block_def)
  show ?thesis using w' start kill_switch_has_no_gap [OF demo_documented mode w'] by simp
qed

text \<open>C10. When NetworkManager's objects can be read, a successful reconciliation leaves exactly the protection the mode asks
  for: while blocking, the switch of the mode runs and neither the other one nor the IPv6 leak protection is left; otherwise
  neither switch is left, and the IPv6 leak protection runs just when a tunnel is active and the protection is wanted.\<close>

theorem kill_switch_follows_mode:
  assumes "nm_documented nm view" "nm_readable nm view"
    and "nm_reconcile_kill_switch nm env uuid rounds mode active ip leak w = Some (Inr (), w')"
  shows "mode \<le> 2 \<and>
    (if should_block mode active
     then (if mode = 2
           then running KILL_SWITCH_PERMANENT_CONNECTION_ID (view w') \<and> absent KILL_SWITCH_CONNECTION_ID (view w')
           else running KILL_SWITCH_CONNECTION_ID (view w') \<and> absent KILL_SWITCH_PERMANENT_CONNECTION_ID (view w'))
          \<and> absent IPV6_LEAK_CONNECTION_ID (view w')
     else absent KILL_SWITCH_CONNECTION_ID (view w') \<and> absent KILL_SWITCH_PERMANENT_CONNECTION_ID (view w')
          \<and> (if active \<and> leak then running IPV6_LEAK_CONNECTION_ID (view w')
             else absent IPV6_LEAK_CONNECTION_ID (view w')))"
proof -
  have mode: "mode \<le> 2"
    using assms(3) by (auto simp: nm_reconcile_kill_switch_def total_def afail_def not_less split: if_splits)
  show ?thesis
  proof (cases "should_block mode active")
    case True
    have exact: "True \<longrightarrow> nm_readable nm view" using assms(2) by simp
    from True show ?thesis
      using mode pholdsD(1) [OF reconcile_blocking [OF assms(1) exact mode True, where b = False] _ assms(3)]
      by (auto simp: protection_name_def split: if_splits)
  next
    case False
    then show ?thesis using mode pholdsD(1) [OF reconcile_lifting [OF assms(1,2) mode False] _ assms(3)] by simp
  qed
qed

theorem kill_switch_follows_mode_witness:
  "(\<exists>w'. nm_reconcile_kill_switch demo_nm demo_env ''u'' 4 2 True None False demo_world = Some (Inr (), w')
      \<and> running KILL_SWITCH_PERMANENT_CONNECTION_ID (demo_view w') \<and> absent KILL_SWITCH_CONNECTION_ID (demo_view w'))
   \<and> (\<exists>w'. nm_reconcile_kill_switch demo_nm demo_env ''u'' 4 0 True None True demo_world = Some (Inr (), w')
      \<and> absent KILL_SWITCH_CONNECTION_ID (demo_view w') \<and> running IPV6_LEAK_CONNECTION_ID (demo_view w'))"
proof (intro conjI)
  note follows = kill_switch_follows_mode [OF demo_documented demo_readable]
  show "\<exists>w'. nm_reconcile_kill_switch demo_nm demo_env ''u'' 4 2 True None False demo_world = Some (Inr (), w')
      \<and> running KILL_SWITCH_PERMANENT_CONNECTION_ID (demo_view w') \<and> absent KILL_SWITCH_CONNECTION_ID (demo_view w')"
    using demo_switches by (rule came_back) (use follows in \<open>fastforce simp: should_block_def\<close>)
  show "\<exists>w'. nm_reconcile_kill_switch demo_nm demo_env ''u'' 4 0 True None True demo_world = Some (Inr (), w')
      \<and> absent KILL_SWITCH_CONNECTION_ID (demo_view w') \<and> running IPV6_LEAK_CONNECTION_ID (demo_view w')"
    using demo_lifts by (rule came_back) (use follows in \<open>fastforce simp: should_block_def\<close>)
qed

text \<open>Reconciling the kill switch ends: with finitely many active connections and readable objects, as many rounds as
  there are active connections and two more are enough for every loop in it.\<close>

theorem kill_switch_reconciliation_ends:
  assumes "nm_documented nm view" "nm_readable nm view"
    and "finite (dom (nv_active (view w)))" "card (dom (nv_active (view w))) + 2 \<le> rounds"
  shows "\<exists>r w'. nm_reconcile_kill_switch nm env uuid rounds mode active ip leak w = Some (r, w')"
proof -
  have "nm_reconcile_kill_switch nm env uuid rounds mode active ip leak w \<noteq> None"
    using reconcile_ends [OF assms(1,2), of "card (dom (nv_active (view w)))" rounds] assms(3,4)
    unfolding ends_def few_def by auto
  then show ?thesis by auto
qed

theorem kill_switch_reconciliation_ends_witness:
  "\<exists>r w'. nm_reconcile_kill_switch demo_nm demo_env ''u'' 3 2 True None False demo_world = Some (r, w')"
  by (rule kill_switch_reconciliation_ends [OF demo_documented demo_readable])
    (simp_all add: demo_view_def demo_world_def)

end
