(* ===== verification/Connection_Network.thy ===== *)
theory Connection_Network
  imports Connection_Laws Network_Laws
begin

text \<open>
  Connecting over NetworkManager: the services of a connection that \<^verbatim>\<open>native_backend/network.rs\<close> provides are put in their
  place, and what the connection relies on follows from what NetworkManager documents. The tunnels are the active
  connections of VPN profiles of this client.
\<close>

section \<open>The tunnels NetworkManager runs\<close>

abbreviation tunnel_service :: "connection_settings \<Rightarrow> bool" where
  "tunnel_service s \<equiv> service_type s \<in> {Some PROTUN_SERVICE, Some OPENVPN_SERVICE}"

abbreviation protection_names :: "string set" where
  "protection_names \<equiv> {IPV6_LEAK_CONNECTION_ID, KILL_SWITCH_CONNECTION_ID, KILL_SWITCH_PERMANENT_CONNECTION_ID}"

text \<open>A VPN profile of this client, apart from those of recovery tunnels.\<close>

definition own_tunnel :: "connection_settings \<Rightarrow> bool" where
  "own_tunnel s \<longleftrightarrow> profile_owned s \<and> tunnel_service s \<and> vpn_data_string s GUEST_HOLE_PURPOSE = None
     \<and> connection_id s \<notin> Some ` protection_names"

definition own_tunnels :: "nm_view \<Rightarrow> string set" where
  "own_tunnels v = {u. \<exists>a p s. nv_active v a = Some p \<and> nv_profiles v p = Some s \<and> own_tunnel s \<and> connection_uuid s = Some u}"

lemma own_tunnels_deactivated: "deactivated a v v' \<Longrightarrow> own_tunnels v' \<subseteq> own_tunnels v"
  unfolding deactivated_def own_tunnels_def by (fastforce split: if_splits)

lemma own_tunnels_deleted: "deleted p v v' \<Longrightarrow> own_tunnels v' \<subseteq> own_tunnels v"
  unfolding deleted_def own_tunnels_def by (fastforce split: if_splits)

lemma own_tunnels_added: "added s p v v' \<Longrightarrow> own_tunnels v' \<subseteq> own_tunnels v"
  unfolding added_def own_tunnels_def by (auto split: if_splits) (metis rangeI)+

lemma own_tunnels_activated:
  "activated p a v v' \<Longrightarrow> nv_profiles v p = Some s
    \<Longrightarrow> own_tunnels v' \<subseteq> own_tunnels v \<union> (if own_tunnel s then set_option (connection_uuid s) else {})"
  unfolding activated_def own_tunnels_def by (fastforce split: if_splits)

lemma spared_tunnels: "spared name (\<lambda>v. own_tunnels v \<subseteq> A)"
  unfolding spared_def by (meson own_tunnels_deactivated own_tunnels_deleted subset_trans)

lemma grows_tunnels: "name \<in> protection_names \<Longrightarrow> grows name (\<lambda>v. own_tunnels v \<subseteq> A) (\<lambda>v. own_tunnels v \<subseteq> A)"
proof -
  assume name: "name \<in> protection_names"
  have "own_tunnels v' \<subseteq> own_tunnels v" if "nv_profiles v p = Some s" "connection_id s = Some name" "activated p a v v'" for v v' p s a
    using own_tunnels_activated [OF that(3,1)] that(2) name by (auto simp: own_tunnel_def split: if_splits)
  then show ?thesis unfolding grows_def using own_tunnels_added by (meson subset_trans)
qed

text \<open>What NetworkManager documents of VPN connections: reading them changes nothing, and an active connection of a VPN
  service is shown as one, in a state from preparation to failure.\<close>

definition vpn_documented :: "'w nm \<Rightarrow> ('w \<Rightarrow> nm_view) \<Rightarrow> bool" where
  "vpn_documented nm view \<longleftrightarrow>
     (\<forall>a. reads_only view (nm_active_uuid nm a)) \<and> (\<forall>a. reads_only view (nm_active_vpn nm a))
     \<and> (\<forall>a. reads_only view (nm_vpn_state nm a)) \<and> (\<forall>a. reads_only view (nm_active_type nm a))
     \<and> reads_only view (nm_primary_connection nm)
     \<and> (\<forall>w a p s. nv_active (view w) a = Some p \<longrightarrow> nv_profiles (view w) p = Some s \<longrightarrow> tunnel_service s \<longrightarrow>
          fst (nm_active_vpn nm a w) = Inr True
          \<and> (\<exists>state. fst (nm_vpn_state nm a w) = Inr state \<and> VPN_STATE_PREPARE \<le> state \<and> state \<le> VPN_STATE_FAILED))"

section \<open>The kill switch\<close>

lemma kill_switch_keeps_tunnels:
  assumes D: "nm_documented nm view"
  shows "pholds (\<lambda>w. own_tunnels (view w) \<subseteq> A) (nm_reconcile_kill_switch nm env uuid rounds mode active ip leak)
    (\<lambda>_ w. own_tunnels (view w) \<subseteq> A) (\<lambda>_ w. own_tunnels (view w) \<subseteq> A)"
proof -
  let ?F = "\<lambda>v. own_tunnels v \<subseteq> A" and ?P = "\<lambda>w. own_tunnels (view w) \<subseteq> A"
  have D': "False \<longrightarrow> nm_readable nm view" by simp
  have rm: "pholds ?P (remove_owned_connections_by_id nm rounds name) (\<lambda>_. ?P) (\<lambda>_. ?P)" for name
    by (rule pholds_weaken [OF remove_owned [OF D D' spared_tunnels]]) auto
  have leak_on: "holds ?P (ensure_ipv6_leak_protection nm env uuid) (\<lambda>_. ?P) (\<lambda>_. ?P)"
    by (rule holds_weaken [OF ensure_ipv6_leak_running [OF D grows_tunnels]]) auto
  have full: "pholds ?P (ensure_full_kill_switch nm env uuid rounds permanent) (\<lambda>_. ?P) (\<lambda>_. ?P)" for permanent
    by (rule pholds_weaken [OF ensure_full_running [OF D D' grows_tunnels spared_tunnels, where R = ?F]])
      (auto simp: protection_name_def)
  have route: "pholds ?P (total (modify_server_route nm i on)) (\<lambda>_. ?P) (\<lambda>_. ?P)" for i on
    by (rule pholds_total [OF holds_kept [OF keeps_modify_server_route [OF D]]])
  have finish: "pholds ?P (total (aret ())) (\<lambda>_. ?P) (\<lambda>_. ?P)" by (rule pholds_total [OF holds_ret])
  have routes: "pholds ?P (case ip of Some i \<Rightarrow> if mode \<noteq> 0 then total (modify_server_route nm i False) else total (aret ())
      | None \<Rightarrow> total (aret ())) (\<lambda>_. ?P) (\<lambda>_. ?P)"
    by (intro pholds_case_option pholds_if route finish)
  show ?thesis
    unfolding nm_reconcile_kill_switch_def lift_blocking_def remove_ipv6_leak_protection_def
    by (intro pholds_if pholds_case_option pholds_bind [OF rm] pholds_bind [OF full] pholds_bind [OF routes] pholds_total [OF leak_on]
        route finish pholds_total [OF holds_fail])
qed

section \<open>Observing, activating and removing the tunnel\<close>

definition fewer :: "('w \<Rightarrow> nm_view) \<Rightarrow> 'w \<Rightarrow> 'w \<Rightarrow> bool" where
  "fewer view w w' \<longleftrightarrow> own_tunnels (view w') \<subseteq> own_tunnels (view w)"

lemma fewer_refl: "reflp (fewer view)" and fewer_trans: "transp (fewer view)"
  by (auto simp: fewer_def reflp_def transp_def)

lemma keeps_fewer: "keeps view m \<Longrightarrow> leads (fewer view) m"
  by (simp add: leads_def fewer_refl fewer_trans) (simp add: keeps_def fewer_def)

lemma calls_fewer:
  assumes D: "nm_documented nm view"
  shows "leads (fewer view) (nm_try act (nm_deactivate_connection nm a))" "leads (fewer view) (nm_try act (nm_delete nm p))"
    "leads (fewer view) (nm_ok (nm_delete nm p))"
proof -
  have "fewer view w w'" if "nm_deactivate_connection nm a w = (r, w')" for w r w'
    using effectsD(1) [OF D that] own_tunnels_deactivated by (auto simp: fewer_def)
  then show "leads (fewer view) (nm_try act (nm_deactivate_connection nm a))"
    by (auto simp: leads_def fewer_refl fewer_trans nm_try_def split: prod.splits sum.splits)
  have "fewer view w w'" if "nm_delete nm p w = (r, w')" for w r w'
    using effectsD(2) [OF D that] own_tunnels_deleted by (auto simp: fewer_def)
  then show "leads (fewer view) (nm_try act (nm_delete nm p))" "leads (fewer view) (nm_ok (nm_delete nm p))"
    by (auto simp: leads_def fewer_refl fewer_trans nm_try_def nm_ok_def split: prod.splits sum.splits)
qed

lemma vpn_reads:
  assumes "vpn_documented nm view"
  shows "reads_only view (nm_active_uuid nm a)" "reads_only view (nm_active_vpn nm a)" "reads_only view (nm_vpn_state nm a)"
    "reads_only view (nm_active_type nm a)" "reads_only view (nm_primary_connection nm)"
  using assms unfolding vpn_documented_def by blast+

lemma keeps_observation_of:
  "nm_documented nm view \<Longrightarrow> vpn_documented nm view \<Longrightarrow> keeps view (observation_of nm parse a p s)"
  unfolding observation_of_def by (intro keeps_bind keeps_nm_or keeps_nm_ok keeps_ret vpn_reads documented_reads)

lemma keeps_passed_over: "vpn_documented nm view \<Longrightarrow> keeps view (passed_over nm wanted a s)"
  unfolding passed_over_def by (intro keeps_case_option keeps_bind keeps_nm_ok keeps_ret vpn_reads)

lemma keeps_observe_paths:
  assumes D: "nm_documented nm view" and V: "vpn_documented nm view"
  shows "keeps view (observe_paths nm parse wanted paths)"
  by (induction paths)
    (auto intro!: keeps_bind keeps_if keeps_case_option keeps_ret keeps_nm_or keeps_nm_ok keeps_passed_over [OF V]
      keeps_observation_of [OF D V] vpn_reads [OF V] documented_reads [OF D])

lemma keeps_observe_matching:
  "nm_documented nm view \<Longrightarrow> vpn_documented nm view \<Longrightarrow> keeps view (observe_matching nm parse wanted)"
  unfolding observe_matching_def by (intro keeps_bind keeps_system_bus keeps_nm_try documented_reads keeps_observe_paths)

text \<open>The observation shows nothing only when no tunnel of ours is active.\<close>

definition shows_tunnel :: "nm_view \<Rightarrow> path \<Rightarrow> bool" where
  "shows_tunnel v a \<longleftrightarrow> (\<exists>p s. nv_active v a = Some p \<and> nv_profiles v p = Some s \<and> own_tunnel s)"

definition sees_tunnels :: "nm_view \<Rightarrow> path list \<Rightarrow> tunnel_observation \<Rightarrow> bool" where
  "sees_tunnels v paths observation \<longleftrightarrow> (to_state observation = Disconnected \<longrightarrow> (\<forall>a \<in> set paths. \<not> shows_tunnel v a))"

lemma holds_nm_or:
  assumes "reads_only view m" "\<And>w x w'. view w = v \<Longrightarrow> m w = (Inr x, w') \<Longrightarrow> Q x"
    and "\<And>w e w'. view w = v \<Longrightarrow> m w = (Inl e, w') \<Longrightarrow> Q d"
  shows "holds (seen view v) (nm_or d m) (\<lambda>x w. view w = v \<and> Q x) (\<lambda>_. seen view v)"
  unfolding nm_or_def
  by (rule holds_bind [OF holds_nm_ok [where Q = "\<lambda>x. Q (unwrap_or d x)"]]) (auto intro!: holds_ret simp: assms)

lemma vpnD:
  assumes "vpn_documented nm view" "nv_active (view w) a = Some p" "nv_profiles (view w) p = Some s" "tunnel_service s"
  shows "nm_active_vpn nm a w = (Inr x, w') \<Longrightarrow> x" "nm_active_vpn nm a w \<noteq> (Inl e, w')"
    "nm_vpn_state nm a w = (Inr y, w') \<Longrightarrow> tunnel_state_of y \<noteq> Disconnected" "nm_vpn_state nm a w \<noteq> (Inl e, w')"
proof -
  have facts: "fst (nm_active_vpn nm a w) = Inr True"
    "\<exists>state. fst (nm_vpn_state nm a w) = Inr state \<and> VPN_STATE_PREPARE \<le> state \<and> state \<le> VPN_STATE_FAILED"
    using assms unfolding vpn_documented_def by blast+
  show "nm_active_vpn nm a w = (Inr x, w') \<Longrightarrow> x" "nm_active_vpn nm a w \<noteq> (Inl e, w')" "nm_vpn_state nm a w \<noteq> (Inl e, w')"
    using facts by auto
  assume "nm_vpn_state nm a w = (Inr y, w')"
  then have "1 \<le> y" "y \<le> 6" using facts(2) by (auto simp: VPN_STATE_PREPARE_def VPN_STATE_FAILED_def)
  then have "unat y \<in> {1 .. 6}" by (simp add: word_le_nat_alt)
  then have "unat y = 1 \<or> unat y = 2 \<or> unat y = 3 \<or> unat y = 4 \<or> unat y = 5 \<or> unat y = 6" by auto
  then have "y = 1 \<or> y = 2 \<or> y = 3 \<or> y = 4 \<or> y = 5 \<or> y = 6" by (simp add: word_unat_eq_iff)
  then show "tunnel_state_of y \<noteq> Disconnected"
    by (auto simp: tunnel_state_of_def VPN_STATE_PREPARE_def VPN_STATE_NEED_AUTH_def VPN_STATE_CONNECT_def
        VPN_STATE_IP_CONFIG_GET_def VPN_STATE_ACTIVATED_def VPN_STATE_FAILED_def)
qed

lemma observation_of_shows:
  assumes D: "nm_documented nm view" and V: "vpn_documented nm view"
    and a: "nv_active v a = Some p" "nv_profiles v p = Some s" "tunnel_service s"
  shows "holds (seen view v) (observation_of nm parse a p s)
    (\<lambda>observation w. view w = v \<and> to_state observation \<noteq> Disconnected) (\<lambda>_. seen view v)"
proof -
  have state: "holds (seen view v) (nm_or 0 (nm_vpn_state nm a)) (\<lambda>x w. view w = v \<and> tunnel_state_of x \<noteq> Disconnected) (\<lambda>_. seen view v)"
    by (rule holds_nm_or) (use vpn_reads [OF V] a vpnD(3,4) [OF V] in blast)+
  have name: "holds (\<lambda>w. view w = v \<and> c) (nm_ok m) (\<lambda>_ w. view w = v \<and> c) (\<lambda>_. seen view v)" if "reads_only view m" for m :: "('a, string) dbus" and c
    by (rule holds_weaken [OF holds_keeps [OF keeps_nm_ok [OF that], where P = "\<lambda>u. u = v \<and> c"]]) auto
  show ?thesis
    unfolding observation_of_def
    by (intro holds_bind [OF state] holds_bind [OF name] documented_reads [OF D] vpn_reads [OF V] holds_ret) simp
qed

lemma abind_ret: "abind (aret x) f = f x"
  by (simp add: abind_def aret_def fun_eq_iff)

lemma observe_paths_sees:
  assumes D: "nm_documented nm view" "nm_readable nm view" and V: "vpn_documented nm view"
  shows "holds (seen view v) (observe_paths nm parse None paths)
    (\<lambda>observation w. view w = v \<and> sees_tunnels v paths observation) (\<lambda>_. seen view v)"
proof (induction paths)
  case Nil
  show ?case by (simp add: holds_def aret_def sees_tunnels_def)
next
  case (Cons a paths)
  let ?Q = "\<lambda>observation w. view w = v \<and> sees_tunnels v (a # paths) observation"
  have D': "True \<longrightarrow> nm_readable nm view" using D(2) by simp
  have on: "holds (seen view v) (observe_paths nm parse None paths) ?Q (\<lambda>_. seen view v)" if "\<not> shows_tunnel v a"
    by (rule holds_weaken [OF Cons]) (use that in \<open>auto simp: sees_tunnels_def\<close>)
  have vpn: "holds (seen view v) (nm_or False (nm_active_vpn nm a)) (\<lambda>x w. view w = v \<and> (shows_tunnel v a \<longrightarrow> x)) (\<lambda>_. seen view v)"
    by (rule holds_nm_or) (use vpn_reads [OF V] vpnD(1,2) [OF V] in \<open>fastforce simp: shows_tunnel_def own_tunnel_def\<close>)+
  have found: "holds (seen view v) (observation_of nm parse a p s) ?Q (\<lambda>_. seen view v)"
    if "nv_active v a = Some p" "nv_profiles v p = Some s" "tunnel_service s" for p s
    by (rule holds_weaken [OF observation_of_shows [OF D(1) V that]]) (auto simp: sees_tunnels_def)
  show ?case
    unfolding observe_paths.simps passed_over_def option.case abind_ret
    by (intro holds_bind [OF vpn] holds_when holds_if holds_bind [OF read_active_connection [OF D(1) D']] holds_case_option
        holds_bind [OF read_settings [OF D(1) D']] on found)
      (auto simp: shows_tunnel_def own_tunnel_def)
qed

lemma observe_matching_sees:
  assumes D: "nm_documented nm view" "nm_readable nm view" and V: "vpn_documented nm view"
  shows "holds (seen view v) (observe_matching nm parse None)
    (\<lambda>observation w. view w = v \<and> (to_state observation = Disconnected \<longrightarrow> own_tunnels v = {})) (\<lambda>_. seen view v)"
proof -
  have bus: "holds (seen view v) (system_bus nm) (\<lambda>_. seen view v) (\<lambda>_. seen view v)"
    by (rule holds_keeps [OF keeps_system_bus [OF D(1)], where P = "\<lambda>u. u = v"])
  have list: "holds (seen view v) (nm_try act (nm_active_connections nm)) (\<lambda>ps w. view w = v \<and> set ps = dom (nv_active v)) (\<lambda>_. seen view v)"
    for act by (rule holds_nm_try) (use documented_reads [OF D(1)] answersD(1) [OF D(1)] in auto)
  have all: "holds (seen view v) (observe_paths nm parse None ps)
      (\<lambda>observation w. view w = v \<and> (to_state observation = Disconnected \<longrightarrow> own_tunnels v = {})) (\<lambda>_. seen view v)"
    if "set ps = dom (nv_active v)" for ps
    by (rule holds_weaken [OF observe_paths_sees [OF D V]])
      (use that in \<open>auto simp: sees_tunnels_def shows_tunnel_def own_tunnels_def dom_def\<close>)
  show ?thesis
    unfolding observe_matching_def by (rule holds_bind [OF bus], rule holds_bind [OF list], rule holds_when, rule all)
qed

text \<open>Removing by identifier: what is left has no profile of ours with it.\<close>

definition no_profile :: "string \<Rightarrow> path set \<Rightarrow> nm_view \<Rightarrow> bool" where
  "no_profile u P v \<longleftrightarrow> (\<forall>p \<in> P. \<forall>s. nv_profiles v p = Some s \<longrightarrow> connection_uuid s = Some u \<longrightarrow> \<not> profile_owned s)"

lemma no_profile_deleted: "deleted p v v' \<Longrightarrow> no_profile u P v \<Longrightarrow> no_profile u (insert p P) v'"
  unfolding deleted_def no_profile_def by (auto split: if_splits)

lemma no_profile_mono: "no_profile u P v \<Longrightarrow> Q \<subseteq> P \<Longrightarrow> no_profile u Q v"
  by (auto simp: no_profile_def)

lemma delete_profiles_removes:
  assumes D: "nm_documented nm view" "nm_readable nm view"
  shows "holds (\<lambda>w. no_profile u (- set paths) (view w)) (delete_profiles nm u paths) (\<lambda>_ w. no_profile u UNIV (view w)) (\<lambda>_ _. True)"
proof (induction paths)
  case Nil
  show ?case by (simp add: holds_def aret_def)
next
  case (Cons p paths)
  let ?left = "\<lambda>w. no_profile u (- set paths) (view w)"
  have D': "True \<longrightarrow> nm_readable nm view" using D(2) by simp
  have one: "holds (\<lambda>w. no_profile u (- set (p # paths)) (view w)) (abind (nm_ok (nm_get_settings nm p)) (\<lambda>values.
      case values of None \<Rightarrow> aret () | Some s \<Rightarrow> if connection_uuid s = Some u \<and> profile_owned s
        then nm_try act (nm_delete nm p) else aret ())) (\<lambda>_. ?left) (\<lambda>_ _. True)" for act
  proof (rule holds_seen)
    fix v assume v: "no_profile u (- set (p # paths)) v"
    have skip: "holds (seen view v) (aret ()) (\<lambda>_. ?left) (\<lambda>_ _. True)"
      if "\<And>s. nv_profiles v p = Some s \<Longrightarrow> connection_uuid s = Some u \<Longrightarrow> \<not> profile_owned s"
      by (rule holds_ret) (use v that in \<open>auto simp: no_profile_def\<close>)
    have left: "no_profile u (- set paths) v'" if "deleted p v v'" for v'
      by (rule no_profile_mono [OF no_profile_deleted [OF that v]]) auto
    have remove: "holds (seen view v) (nm_try act (nm_delete nm p)) (\<lambda>_. ?left) (\<lambda>_ _. True)"
      by (rule holds_weaken [OF call_delete [OF D(1)]]) (auto intro: left)
    show "holds (seen view v) (abind (nm_ok (nm_get_settings nm p)) (\<lambda>values.
      case values of None \<Rightarrow> aret () | Some s \<Rightarrow> if connection_uuid s = Some u \<and> profile_owned s
        then nm_try act (nm_delete nm p) else aret ())) (\<lambda>_. ?left) (\<lambda>_ _. True)"
      by (rule holds_bind_err [OF read_settings [OF D(1) D']], simp, rule holds_when, rule holds_case_option)
        (auto intro!: holds_if remove skip)
  qed
  have "delete_profiles nm u (p # paths) = abind (abind (nm_ok (nm_get_settings nm p)) (\<lambda>values.
      case values of None \<Rightarrow> aret () | Some s \<Rightarrow> if connection_uuid s = Some u \<and> profile_owned s
        then nm_try ''delete temporary profile'' (nm_delete nm p) else aret ())) (\<lambda>_. delete_profiles nm u paths)"
    by (simp add: abind_def fun_eq_iff split: prod.splits sum.splits)
  then show ?case by (simp only:) (rule holds_bind [OF one Cons])
qed

lemma delete_inactive_removes:
  assumes D: "nm_documented nm view" "nm_readable nm view"
  shows "holds (\<lambda>_. True) (delete_inactive_owned_profile nm u) (\<lambda>_ w. u \<notin> own_tunnels (view w)) (\<lambda>_ _. True)"
proof -
  have list: "holds (seen view v) (nm_try act (nm_list_connections nm)) (\<lambda>ps w. no_profile u (- set ps) (view w)) (\<lambda>_ _. True)" for act v
    by (rule holds_weaken [OF holds_nm_try [where view = view and v = v and Q = "\<lambda>ps. set ps = dom (nv_profiles v)", OF documented_reads(3) [OF D(1)]]])
      (auto simp: no_profile_def dest!: answersD(2) [OF D(1)])
  have gone: "no_profile u UNIV v \<Longrightarrow> u \<notin> own_tunnels v" for v
    by (auto simp: no_profile_def own_tunnels_def own_tunnel_def)
  have listed: "holds (\<lambda>_. True) (nm_try act (nm_list_connections nm)) (\<lambda>ps w. no_profile u (- set ps) (view w)) (\<lambda>_ _. True)" for act
    using holds_seen [where F = "\<lambda>_. True", OF list] by simp
  show ?thesis
    unfolding delete_inactive_owned_profile_def
    by (rule holds_bind [OF holds_true], rule holds_bind [OF listed], rule holds_weaken [OF delete_profiles_removes [OF D]])
      (auto dest: gone)
qed

lemma disconnect_uuid_removes:
  assumes D: "nm_documented nm view" "nm_readable nm view"
  shows "disconnect_uuid nm parse cr env u w = (Inr b, w') \<Longrightarrow> u \<notin> own_tunnels (view w')"
proof -
  have "holds (\<lambda>_. True) (disconnect_uuid nm parse cr env u) (\<lambda>_ w. u \<notin> own_tunnels (view w)) (\<lambda>_ _. True)"
    unfolding disconnect_uuid_def
    by (rule holds_bind [OF holds_true], rule holds_bind [OF holds_true], rule holds_bind [OF holds_true],
        rule holds_bind [OF delete_inactive_removes [OF D]], rule holds_ret)
  then show "disconnect_uuid nm parse cr env u w = (Inr b, w') \<Longrightarrow> u \<notin> own_tunnels (view w')"
    by (rule holdsD(1)) simp
qed

lemma keeps_best_parent: "vpn_documented nm view \<Longrightarrow> keeps view (best_parent nm)"
  unfolding best_parent_def by (intro keeps_bind keeps_case_option keeps_if keeps_nm_ok keeps_ret vpn_reads)

lemma uuid_of_profile: "connection_uuid (dbus_settings env p) = Some (profile_uuid p)"
proof (cases p)
  case (Protun x)
  then show ?thesis by (simp add: connection_uuid_def setting_def protun_dbus_settings_def obj_get_of)
next
  case (OpenVpn x)
  then show ?thesis by (simp add: connection_uuid_def setting_def openvpn_dbus_settings_def obj_get_of)
qed

lemma keeps_cleanup:
  assumes "ordinary_files cr (\<lambda>w w'. view w' = view w)"
  shows "keeps view (awrites (cleanup_credentials cr p))" "keeps view (awrites (cleanup_openvpn_credentials cr env u))"
proof -
  have gone: "view (snd (cr_remove_dir_all cr d w)) = view w" for d w
    using assms by (simp add: ordinary_files_def steps_def)
  show "keeps view (awrites (cleanup_credentials cr p))" by (cases p) (simp_all add: keeps_def gone)
  show "keeps view (awrites (cleanup_openvpn_credentials cr env u))"
    using gone by (simp add: keeps_def cleanup_openvpn_credentials_def split: sum.splits)
qed

lemma nm_connect_holds:
  assumes D: "nm_documented nm view" and V: "vpn_documented nm view" and F: "ordinary_files cr (\<lambda>w w'. view w' = view w)"
  shows "holds (\<lambda>w. own_tunnels (view w) \<subseteq> A) (nm_connect nm cr env p)
    (\<lambda>activation w. own_tunnels (view w) \<subseteq> insert (profile_uuid p) A \<and> to_uuid activation = Some (profile_uuid p))
    (\<lambda>_ w. own_tunnels (view w) \<subseteq> A)"
proof -
  let ?P = "\<lambda>w. own_tunnels (view w) \<subseteq> A" and ?s = "dbus_settings env p"
  let ?new = "\<lambda>path w. own_tunnels (view w) \<subseteq> A \<and> nv_profiles (view w) path = Some ?s"
  note kept = holds_kept [where view = view and F = "\<lambda>v. own_tunnels v \<subseteq> A"]
  have fewer: "holds ?P m (\<lambda>_. ?P) (\<lambda>_. ?P)" if "leads (fewer view) m" for m :: "('a, 'b) action"
    by (rule leads_holds [OF that]) (auto simp: fewer_def)
  have clean: "holds ?P (abind (awrites (cleanup_credentials cr p)) (\<lambda>_. afail e)) Q (\<lambda>_. ?P)" for e and Q :: "'b \<Rightarrow> _"
    by (rule holds_bind [OF kept [OF keeps_cleanup(1) [OF F]]], rule holds_fail)
  have add: "holds ?P (nm_try act (nm_add_connection_unsaved nm ?s)) ?new (\<lambda>_. ?P)" for act
  proof (rule holds_seen [where F = "\<lambda>v. own_tunnels v \<subseteq> A"])
    fix v assume "own_tunnels v \<subseteq> A"
    then have "own_tunnels v' \<subseteq> A \<and> nv_profiles v' path = Some ?s" if "added ?s path v v'" for path v'
      using own_tunnels_added [OF that] that by (auto simp: added_def)
    then show "holds (seen view v) (nm_try act (nm_add_connection_unsaved nm ?s)) ?new (\<lambda>_. ?P)"
      using \<open>own_tunnels v \<subseteq> A\<close> by (intro holds_weaken [OF call_add(2) [OF D]]) auto
  qed
  have parent: "holds (?new path) (best_parent nm) (\<lambda>_. ?new path) (\<lambda>_. ?P)" for path
    by (rule holds_weaken [OF holds_kept [OF keeps_best_parent [OF V], where F = "\<lambda>v. own_tunnels v \<subseteq> A \<and> nv_profiles v path = Some ?s"]]) auto
  have activate: "holds (?new path) (nm_try act (nm_activate_connection nm path d u))
      (\<lambda>_ w. own_tunnels (view w) \<subseteq> insert (profile_uuid p) A) (\<lambda>_. ?P)" for act path d u
  proof (rule holds_seen [where F = "\<lambda>v. own_tunnels v \<subseteq> A \<and> nv_profiles v path = Some ?s"])
    fix v assume v: "own_tunnels v \<subseteq> A \<and> nv_profiles v path = Some ?s"
    have "own_tunnels v' \<subseteq> insert (profile_uuid p) A" if "activated path a v v'" for a v'
      using own_tunnels_activated [OF that] v uuid_of_profile [of env p] by (fastforce split: if_splits)
    then show "holds (seen view v) (nm_try act (nm_activate_connection nm path d u))
        (\<lambda>_ w. own_tunnels (view w) \<subseteq> insert (profile_uuid p) A) (\<lambda>_. ?P)"
      by (intro holds_weaken [OF call_activate [OF D]]) (use v in auto)
  qed
  show ?thesis
    unfolding nm_connect_def
    by (rule holds_bind [OF kept [OF keeps_system_bus [OF D]]], rule holds_bind [OF holds_rescue [OF add clean]],
        rule holds_bind [OF parent],
        rule holds_bind [OF holds_rescue [OF activate holds_bind [OF fewer [OF calls_fewer(3) [OF D]] clean]]], rule holds_ret) simp
qed

lemma disconnect_uuid_fewer:
  assumes D: "nm_documented nm view" and V: "vpn_documented nm view" and F: "ordinary_files cr (\<lambda>w w'. view w' = view w)"
  shows "leads (fewer view) (disconnect_uuid nm parse cr env u)"
proof -
  note R = fewer_refl [of view] fewer_trans [of view]
  have take: "leads (fewer view) (disconnect_observation nm observation)" for observation
    unfolding disconnect_observation_def
    by (intro leads_option leads_bind leads_ret R calls_fewer [OF D] keeps_fewer keeps_system_bus [OF D])
  have profiles: "leads (fewer view) (delete_profiles nm u paths)" for paths
    by (induction paths) (auto intro!: leads_bind leads_option leads_if leads_ret R calls_fewer [OF D]
        keeps_fewer [OF keeps_nm_ok [OF documented_reads(9) [OF D]]])
  show ?thesis
    unfolding disconnect_uuid_def delete_inactive_owned_profile_def
    by (intro leads_bind leads_if leads_ret R take profiles keeps_fewer keeps_observe_matching [OF D V] keeps_cleanup(2) [OF F]
        keeps_system_bus [OF D] keeps_nm_try documented_reads [OF D])
qed

section \<open>The network in its place\<close>

text \<open>The part of a connection's services that \<^verbatim>\<open>network.rs\<close> provides: observing, activating and removing the tunnel, and the
  kill switch, whose loops are given \<open>rounds\<close> that are enough for them.\<close>

definition with_network ::
  "'w nm \<Rightarrow> (string \<Rightarrow> json option) \<Rightarrow> string \<Rightarrow> ('w \<Rightarrow> nat) \<Rightarrow> 'w conn_io \<Rightarrow> 'w conn_io" where
  "with_network nm parse uuid rounds co =
     (let cr = pi_credentials (co_profile co); env = pi_env (co_profile co) in
      co\<lparr>co_connect := nm_connect nm cr env,
         co_services := (co_services co)
           \<lparr>io_observe := observe_matching nm parse None,
            io_disconnect_uuid := disconnect_uuid nm parse cr env,
            io_kill_switch := (\<lambda>mode on ip leak w. the (nm_reconcile_kill_switch nm env uuid (rounds w) mode on ip leak w))\<rparr>\<rparr>)"

text \<open>NetworkManager behaves as documented, and nothing else the backend calls touches its connections.\<close>

definition network_documented :: "'w nm \<Rightarrow> ('w \<Rightarrow> nm_view) \<Rightarrow> ('w \<Rightarrow> nat) \<Rightarrow> 'w conn_io \<Rightarrow> bool" where
  "network_documented nm view rounds co \<longleftrightarrow>
     nm_documented nm view \<and> nm_readable nm view \<and> vpn_documented nm view
     \<and> ordinary co (\<lambda>w w'. view w' = view w) \<and> leads (frame (\<lambda>w w'. view w' = view w)) (co_prepare co)
     \<and> (\<forall>w. finite (dom (nv_active (view w))) \<and> card (dom (nv_active (view w))) + 2 \<le> rounds w)"

lemma kill_switch_fewer:
  assumes "nm_documented nm view" "nm_readable nm view"
    and "finite (dom (nv_active (view w)))" "card (dom (nv_active (view w))) + 2 \<le> rounds"
  shows "fewer view w (snd (the (nm_reconcile_kill_switch nm env uuid rounds mode on ip leak w)))"
proof -
  have "nm_reconcile_kill_switch nm env uuid rounds mode on ip leak w \<noteq> None"
    using reconcile_ends [OF assms(1,2), of "card (dom (nv_active (view w)))" rounds] assms(3,4)
    unfolding ends_def few_def by auto
  then obtain r w' where r: "nm_reconcile_kill_switch nm env uuid rounds mode on ip leak w = Some (r, w')" by fastforce
  note keep = kill_switch_keeps_tunnels [OF assms(1), of "own_tunnels (view w)" env uuid rounds mode on ip leak]
  show ?thesis using r pholdsD [OF keep, of w] by (cases r) (auto simp: fewer_def)
qed

lemma ordinary_fewer:
  assumes N: "network_documented nm view rounds co"
  shows "ordinary (with_network nm parse uuid rounds co) (fewer view)"
proof -
  have D: "nm_documented nm view" "nm_readable nm view" "vpn_documented nm view" and O: "ordinary co (\<lambda>w w'. view w' = view w)"
    and rounds: "finite (dom (nv_active (view w)))" "card (dom (nv_active (view w))) + 2 \<le> rounds w" for w
    using N unfolding network_documented_def by simp_all
  have F: "ordinary_files (pi_credentials (co_profile co)) (\<lambda>w w'. view w' = view w)" using O by (simp add: ordinary_def)
  have steps: "steps (fewer view) f" if "steps (\<lambda>w w'. view w' = view w) f" for f :: "'a \<Rightarrow> 'x \<times> 'a"
    using that by (simp add: steps_def fewer_def)
  have network: "steps (fewer view) (observe_matching nm parse None)"
      "steps (fewer view) (disconnect_uuid nm parse (pi_credentials (co_profile co)) env u)"
      "steps (fewer view) (\<lambda>w. the (nm_reconcile_kill_switch nm env uuid (rounds w) mode on ip leak w))" for env u mode on ip leak
    by (intro leads_steps keeps_fewer keeps_observe_matching [OF D(1,3)],
        intro leads_steps disconnect_uuid_fewer [OF D(1,3) F],
        simp add: steps_def kill_switch_fewer [OF D(1,2) rounds])
  show ?thesis
    using O network
    by (simp add: ordinary_def ordinary_services_def ordinary_files_def with_network_def Let_def fewer_refl fewer_trans steps)
       (simp add: fewer_def)
qed

lemma network_tunnels:
  assumes N: "network_documented nm view rounds co"
  shows "tunnel_services (with_network nm parse uuid rounds co) (\<lambda>w. own_tunnels (view w))"
proof -
  have D: "nm_documented nm view" "nm_readable nm view" "vpn_documented nm view" and O: "ordinary co (\<lambda>w w'. view w' = view w)"
    and prepare: "leads (frame (\<lambda>w w'. view w' = view w)) (co_prepare co)"
    using N unfolding network_documented_def by simp_all
  have F: "ordinary_files (pi_credentials (co_profile co)) (\<lambda>w w'. view w' = view w)" using O by (simp add: ordinary_def)
  let ?R = "\<lambda>w w'. own_tunnels (view w') \<subseteq> own_tunnels (view w)"
  have R: "?R = fewer view" by (simp add: fewer_def fun_eq_iff)
  have "reflp (frame ?R)" "transp (frame ?R)" by (simp_all add: R frame_refl fewer_refl frame_trans fewer_trans)
  then have "leads (frame ?R) (co_prepare co)" using prepare by (simp add: leads_def frame_def)
  moreover have "ordinary (with_network nm parse uuid rounds co) ?R" unfolding R by (rule ordinary_fewer [OF N])
  moreover have "own_tunnels (view w') = {}" if "observe_matching nm parse None w = (Inr observation, w')"
      "to_state observation = Disconnected" for w observation w'
    using holdsD(1) [OF observe_matching_sees [OF D] refl that(1)] that(2) by simp
  moreover have "case r of Inl _ \<Rightarrow> own_tunnels (view w') \<subseteq> own_tunnels (view w)
      | Inr activation \<Rightarrow> own_tunnels (view w') \<subseteq> insert (profile_uuid p) (own_tunnels (view w)) \<and> to_uuid activation = Some (profile_uuid p)"
    if "nm_connect nm (pi_credentials (co_profile co)) env p w = (r, w')" for env p w r w'
    using holdsD [OF nm_connect_holds [OF D(1,3) F, of "own_tunnels (view w)"] subset_refl] that by (cases r) fastforce+
  ultimately show ?thesis
    unfolding tunnel_services_def using disconnect_uuid_removes [OF D(1,2)]
    by (simp add: with_network_def Let_def)
qed

section \<open>A small NetworkManager\<close>

abbreviation demo_rounds :: "demo_state \<Rightarrow> nat" where
  "demo_rounds w \<equiv> length (ds_active w) + 2"

abbreviation demo_network :: "demo_state conn_io" where
  "demo_network \<equiv> with_network demo_nm (\<lambda>_. None) ''k'' demo_rounds (quiet_conn [demo_accepted])"

abbreviation demo_idle :: "demo_state runtime" where
  "demo_idle \<equiv> demo_at \<lparr>ds_profiles = [], ds_active = []\<rparr> None"

lemma demo_vpn: "vpn_documented demo_nm demo_view"
proof -
  have state: "VPN_STATE_PREPARE \<le> VPN_STATE_ACTIVATED" "VPN_STATE_ACTIVATED \<le> VPN_STATE_FAILED"
    by (simp_all add: VPN_STATE_PREPARE_def VPN_STATE_ACTIVATED_def VPN_STATE_FAILED_def)
  show ?thesis
    unfolding vpn_documented_def using state
    by (auto simp: reads_only_def demo_nm_def demo_answer_def demo_view_def demo_profile_def)
qed

lemma demo_network_documented: "network_documented demo_nm demo_view demo_rounds (quiet_conn updates)"
proof -
  have "ordinary (quiet_conn updates) (\<lambda>w w'. demo_view w' = demo_view w)"
    by (rule quiet_ordinary) (auto simp: reflp_def transp_def)
  moreover have "leads (frame (\<lambda>w w'. demo_view w' = demo_view w)) (co_prepare (quiet_conn updates))"
    by (auto simp: quiet_conn_def leads_def aret_def frame_def reflp_def transp_def)
  moreover have "finite (dom (nv_active (demo_view w))) \<and> card (dom (nv_active (demo_view w))) + 2 \<le> demo_rounds w" for w
    by (simp add: demo_view_def finite_dom_map_of dom_map_of_conv_image_fst)
       (metis card_image_le card_length finite_set le_trans)
  ultimately show ?thesis
    by (simp add: network_documented_def demo_documented demo_readable demo_vpn)
qed

lemma demo_network_calm: "calm demo_network"
  by (simp add: calm_def with_network_def Let_def quiet_conn_def quiet_services_def demo_profile_io_def)

abbreviation active_uuids :: "demo_state runtime \<Rightarrow> string option list" where
  "active_uuids s \<equiv> List.map (\<lambda>(a, p). Option.bind (map_of (ds_profiles (rt_world s)) p) connection_uuid) (ds_active (rt_world s))"

lemma demo_network_connects:
  "outcome active_uuids (connection_connect demo_network 2 demo_request demo_idle) = Some (False, [Some ''u2'', Some ''k''])"
  unfolding demo_attempt [OF demo_network_calm] by code_simp

section \<open>The properties\<close>

text \<open>C5. No tunnel is lost: when NetworkManager behaves as documented, then through every sequence of attempts to connect,
  cancellations, disconnections, rejections by the Local Agent and observations, whatever call fails in them, and while
  tunnels may stop by themselves, every tunnel of this client that NetworkManager runs is the one the backend has recorded as
  its own.\<close>

theorem tunnels_stay_tracked:
  assumes "network_documented nm view rounds co"
    and "(tunnel_step (with_network nm parse uuid rounds co) (\<lambda>w. own_tunnels (view w)))\<^sup>*\<^sup>* s s'"
    and "own_tunnels (view (rt_world s)) \<subseteq> set_option (rt_owned_uuid s)"
  shows "own_tunnels (view (rt_world s')) \<subseteq> set_option (rt_owned_uuid s')"
  using tunnel_steps_tracked [OF assms(2) network_tunnels [OF assms(1)]] assms(3) by (simp add: tracked_def)

theorem tunnels_stay_tracked_witness:
  "\<exists>a s b s'. connection_connect demo_network 2 demo_request demo_idle = Some (Inr a, s)
     \<and> Some ''u2'' \<in> set (active_uuids s) \<and> connection_cancel demo_network s = (b, s')
     \<and> own_tunnels (demo_view (rt_world s')) \<subseteq> set_option (rt_owned_uuid s')"
  using demo_network_connects
proof (rule outcome_success)
  fix a s
  assume s: "connection_connect demo_network 2 demo_request demo_idle = Some (Inr a, s)"
    and up: "active_uuids s = [Some ''u2'', Some ''k'']"
  obtain b s' where s': "connection_cancel demo_network s = (b, s')" by fastforce
  have "tunnel_step demo_network (\<lambda>w. own_tunnels (demo_view w)) demo_idle s" using s by (rule connecting)
  moreover have "tunnel_step demo_network (\<lambda>w. own_tunnels (demo_view w)) s s'" using s' by (rule cancelling)
  ultimately have both: "(tunnel_step demo_network (\<lambda>w. own_tunnels (demo_view w)))\<^sup>*\<^sup>* demo_idle s'" by auto
  have start: "own_tunnels (demo_view (rt_world demo_idle)) \<subseteq> set_option (rt_owned_uuid demo_idle)"
    by (simp add: own_tunnels_def demo_view_def demo_at_def demo_runtime_def)
  show ?thesis using s s' up tunnels_stay_tracked [OF demo_network_documented both start] by auto
qed

text \<open>C7. A successful attempt to connect over NetworkManager leaves at most one tunnel of this client, that of the profile it
  made, recorded as owned; its server is selected, the server's endpoint carries a valid signature, and the Local Agent runs
  and has confirmed the session.\<close>

theorem successful_connect_is_confirmed:
  assumes "network_documented nm view rounds co" "own_tunnels (view (rt_world s)) \<subseteq> set_option (rt_owned_uuid s)"
    and "connection_connect (with_network nm parse uuid rounds co) polls params s = Some (Inr answer, s')"
  shows "\<exists>u target. rt_owned_uuid s' = Some u \<and> own_tunnels (view (rt_world s')) \<subseteq> {u} \<and> rt_selected s' = Some target
    \<and> validate_with_key (pi_crypto (co_profile co)) (ct_physical target) = Inr ()
    \<and> rt_local_agent s' \<and> sn_connected (rt_snapshot s')"
proof -
  have "tracked (\<lambda>w. own_tunnels (view w)) s" using assms(2) by (simp add: tracked_def)
  from pholdsD(1) [OF connection_connect_tracked [OF network_tunnels [OF assms(1)]] this assms(3)]
  show ?thesis unfolding going_def confirmed_def by (auto simp: with_network_def Let_def)
qed

theorem successful_connect_is_confirmed_witness:
  "\<exists>a s u target. connection_connect demo_network 2 demo_request demo_idle = Some (Inr a, s)
     \<and> rt_owned_uuid s = Some u \<and> own_tunnels (demo_view (rt_world s)) \<subseteq> {u} \<and> Some ''u2'' \<in> set (active_uuids s)
     \<and> rt_selected s = Some target \<and> validate_with_key demo_crypto (ct_physical target) = Inr () \<and> sn_connected (rt_snapshot s)"
  using demo_network_connects
proof (rule outcome_success)
  fix a s
  assume s: "connection_connect demo_network 2 demo_request demo_idle = Some (Inr a, s)"
    and up: "active_uuids s = [Some ''u2'', Some ''k'']"
  have "own_tunnels (demo_view (rt_world demo_idle)) \<subseteq> set_option (rt_owned_uuid demo_idle)"
    by (simp add: own_tunnels_def demo_view_def demo_at_def demo_runtime_def)
  from successful_connect_is_confirmed [OF demo_network_documented this s]
  show ?thesis using s up by (auto simp: quiet_conn_def demo_profile_io_def)
qed

end
