(* ===== verification/Client_Session.thy ===== *)
theory Client_Session
  imports Protocol "HOL-Library.Multiset"
begin

text \<open>
  The session with one client of the agent (\<^verbatim>\<open>agent/src/session.rs\<close>): the handshake, the checks of a frame, the requests that
  run at the same time and their answers. One turn of the \<open>select!\<close> loop is one step on the input that became ready: a line
  with the state at that time, a finished task, a new state, or the end of a channel. Parsing and encoding are arguments; writing
  to the socket may fail at any time, as the list \<open>cl_faults\<close> says.
\<close>

section \<open>The backend's methods\<close>

definition NATIVE_METHODS :: "string list" where
  "NATIVE_METHODS =
     [''account.get'', ''account.retry_restore'', ''account.refresh'', ''guest_hole.cancel'',
      ''account.upgrade_url'', ''report_issue.categories.get'', ''report_issue.submit'', ''diagnostics.get'',
      ''account.login'', ''account.submit_2fa'', ''account.authenticate_fido2'', ''account.submit_fido2_pin'',
      ''account.cancel_fido2'', ''account.logout'', ''locations.get'', ''servers.get'', ''servers.lookup'',
      ''feature.set'', ''protocol.set'', ''dns.set'', ''apps.get'', ''system.launch'', ''split_tunneling.set'',
      ''connection.observe'', ''connection.network_conflict_detection'', ''connection.connect'',
      ''connection.cancel'', ''connection.disconnect'', ''connection.feedback'', ''netshield.stats.get'',
      ''traffic.get'']"

definition NATIVE_CAPABILITIES :: "string list" where
  "NATIVE_CAPABILITIES =
     [''state.push'', ''operations.push'', ''operations.conflicts'', ''requests.concurrent'',
      ''device_location.read'', ''account.session'', ''account.refresh'', ''api.guest_hole.stealth'',
      ''account.login'', ''account.sso'', ''account.human_verification'', ''account.2fa'',
      ''account.2fa.security_key'', ''account.2fa.security_key_pin'', ''account.2fa.security_key_cancel'',
      ''account.web_upgrade'', ''report_issue.categories'', ''report_issue.submit'', ''servers.page'',
      ''servers.remote_lookup'', ''connection.observe'', ''connection.fastest'', ''connection.country'',
      ''connection.state'', ''connection.city'', ''connection.random_country'', ''connection.server'',
      ''connection.gateway'', ''connection.gateway_server'', ''connection.secure_core'',
      ''connection.secure_core_entry_country'', ''connection.p2p'', ''connection.tor'', ''feature.kill_switch'',
      ''feature.kill_switch_split_tunneling'', ''feature.netshield'', ''feature.vpn_accelerator'',
      ''feature.port_forwarding'', ''feature.anonymous_usage_statistics'', ''feature.moderate_nat'',
      ''feature.ipv6'', ''feature.ipv6_leak_protection'', ''feature.alternative_routing'', ''connection.feedback'',
      ''netshield.statistics'', ''protocol.settings'', ''dns.custom'', ''apps.catalog'', ''profiles.connect_and_go'',
      ''profiles.custom_dns'', ''profiles.lan_policy'', ''system.private_browsing'', ''split_tunneling.apps'',
      ''store.canonical'', ''store.migration.qt'', ''profiles.crud'', ''profiles.duplicate'', ''recents.canonical'',
      ''default_connection.canonical'', ''onboarding.preferences'', ''notifications.freedesktop'',
      ''network.insecure_wifi'', ''lifecycle.resume_reconnect'']"

section \<open>State\<close>

text \<open>A spawned request: of the backend or of the store, with the client it is made for.\<close>

record session_task =
  ta_id :: string
  ta_client :: string
  ta_store :: bool
  ta_method :: string
  ta_params :: json

record client_session =
  cl_hello :: bool
  cl_session_id :: u64
  cl_client :: string
  cl_pending :: "session_task list"
  cl_pending_ids :: "string set"
  cl_sent :: "server_message list"
  cl_faults :: "bool list"
  cl_open :: bool

definition MAX_PENDING_REQUESTS_PER_CLIENT :: nat where "MAX_PENDING_REQUESTS_PER_CLIENT = 32"

definition session_new :: "u64 \<Rightarrow> bool list \<Rightarrow> client_session" where
  "session_new session_id faults =
     \<lparr>cl_hello = False, cl_session_id = session_id, cl_client = ''anonymous-session-'' @ dec (unat session_id), cl_pending = [],
      cl_pending_ids = {}, cl_sent = [], cl_faults = faults, cl_open = True\<rparr>"

text \<open>What the session takes from outside: the JSON codec.\<close>

record session_codec =
  sc_request :: "string \<Rightarrow> string + request_envelope"
  sc_hello :: "json \<Rightarrow> string + hello_params"
  sc_snapshot :: "state_snapshot \<Rightarrow> json"
  sc_line :: "server_message \<Rightarrow> string"

section \<open>Sending\<close>

definition session_send :: "session_codec \<Rightarrow> server_message \<Rightarrow> client_session \<Rightarrow> client_session" where
  "session_send sc message s =
     (if \<not> cl_open s then s
      else if MAX_FRAME_BYTES < length (sc_line sc message) then s\<lparr>cl_open := False\<rparr>
      else if cl_faults s \<noteq> [] \<and> hd (cl_faults s) then s\<lparr>cl_open := False\<rparr>
      else s\<lparr>cl_sent := cl_sent s @ [message], cl_faults := tl (cl_faults s)\<rparr>)"

section \<open>A line from the client\<close>

definition hello_char :: "char \<Rightarrow> bool" where
  "hello_char c \<longleftrightarrow> is_ascii_alphanumeric c \<or> c \<in> set [CHR ''.'', CHR ''_'', CHR '':'', CHR ''-'']"

definition hello_valid :: "hello_params \<Rightarrow> bool" where
  "hello_valid p \<longleftrightarrow>
     trim (hp_client p) \<noteq> [] \<and> length (hp_client p) \<le> 64 \<and> length (hp_client_version p) \<le> 64
     \<and> length (hp_client_instance_id p) \<le> 128 \<and> list_all hello_char (hp_client_instance_id p)"

definition instance_id :: "hello_params \<Rightarrow> u64 \<Rightarrow> string" where
  "instance_id p session_id =
     (if trim (hp_client_instance_id p) = [] then trim (hp_client p) @ ''-session-'' @ dec (unat session_id)
      else trim (hp_client_instance_id p))"

definition hello_answer :: "hello_params \<Rightarrow> string \<Rightarrow> json" where
  "hello_answer p client =
     jobj [(''protocol_version'', jnum (ucast PROTOCOL_VERSION)), (''server'', JStr ''proton-omarchy-agent''),
       (''mock_backend'', JBool False), (''backend'', JStr ''proton_rust''), (''client'', JStr (hp_client p)),
       (''client_instance_id'', JStr client), (''request_methods'', JArr (map JStr (NATIVE_METHODS @ STORE_METHODS))),
       (''capabilities'', JArr (map JStr NATIVE_CAPABILITIES))]"

definition handle_hello ::
  "session_codec \<Rightarrow> state_snapshot \<Rightarrow> request_envelope \<Rightarrow> client_session \<Rightarrow> client_session" where
  "handle_hello sc snapshot request s =
     (if cl_hello s
      then session_send sc (msg_error (Some (rq_id request)) ''hello_already_completed''
             ''hello may only be sent once per socket session'') s
      else case sc_hello sc (rq_params request) of
        Inl text \<Rightarrow> session_send sc (msg_error (Some (rq_id request)) ''invalid_params'' text) s
      | Inr params \<Rightarrow>
          if \<not> hello_valid params
          then session_send sc (msg_error (Some (rq_id request)) ''invalid_params''
                 ''hello client fields have an invalid length'') s
          else
          let client = instance_id params (cl_session_id s);
              s1 = session_send sc (msg_ok (rq_id request) (hello_answer params client)) (s\<lparr>cl_client := client, cl_hello := True\<rparr>)
          in session_send sc (msg_event ''state.snapshot'' (sc_snapshot sc snapshot)) s1)"

definition spawn_request :: "session_codec \<Rightarrow> bool \<Rightarrow> request_envelope \<Rightarrow> client_session \<Rightarrow> client_session" where
  "spawn_request sc store request s =
     (if MAX_PENDING_REQUESTS_PER_CLIENT \<le> length (cl_pending s)
      then session_send sc (msg_error_with_details (Some (rq_id request)) ''too_many_pending_requests''
             ''too many requests are pending for this client''
             (Some (jobj [(''limit'', jnum (of_nat MAX_PENDING_REQUESTS_PER_CLIENT))])) True) s
      else if rq_id request \<in> cl_pending_ids s
      then session_send sc (msg_error (Some (rq_id request)) ''duplicate_request_id'' ''request id is already pending'') s
      else s\<lparr>cl_pending := cl_pending s @ [\<lparr>ta_id = rq_id request, ta_client = cl_client s, ta_store = store,
               ta_method = rq_method request, ta_params = rq_params request\<rparr>],
             cl_pending_ids := insert (rq_id request) (cl_pending_ids s)\<rparr>)"

definition handle_method ::
  "session_codec \<Rightarrow> state_snapshot \<Rightarrow> request_envelope \<Rightarrow> client_session \<Rightarrow> client_session" where
  "handle_method sc snapshot request s =
     (if rq_method request = ''hello'' then handle_hello sc snapshot request s
      else if rq_method request = ''state.get'' then session_send sc (msg_ok (rq_id request) (sc_snapshot sc snapshot)) s
      else if rq_method request \<in> set NATIVE_METHODS then spawn_request sc False request s
      else if rq_method request \<in> set STORE_METHODS then spawn_request sc True request s
      else session_send sc (msg_error (Some (rq_id request)) ''method_not_found'' ''unknown request method'') s)"

definition valid_id :: "string \<Rightarrow> bool" where
  "valid_id i \<longleftrightarrow> trim i \<noteq> [] \<and> length i \<le> 128"

definition handle_request ::
  "session_codec \<Rightarrow> state_snapshot \<Rightarrow> request_envelope \<Rightarrow> client_session \<Rightarrow> client_session" where
  "handle_request sc snapshot request s =
     (if rq_message_type request \<noteq> ''request''
      then session_send sc (msg_error (Some (rq_id request)) ''invalid_type'' ''client frames must use type=request'') s
      else if rq_v request \<noteq> PROTOCOL_VERSION
      then session_send sc (msg_error (Some (rq_id request)) ''unsupported_version''
             (''protocol version '' @ dec (unat PROTOCOL_VERSION) @ '' is required'')) s
      else if \<not> valid_id (rq_id request)
      then session_send sc (msg_error None ''invalid_request_id'' ''request id must contain between 1 and 128 characters'') s
      else if \<not> cl_hello s \<and> rq_method request \<noteq> ''hello''
      then session_send sc (msg_error (Some (rq_id request)) ''hello_required'' ''send hello before other requests'') s
      else handle_method sc snapshot request s)"

definition handle_line :: "session_codec \<Rightarrow> state_snapshot \<Rightarrow> string \<Rightarrow> client_session \<Rightarrow> client_session" where
  "handle_line sc snapshot line s =
     (case sc_request sc line of
        Inl text \<Rightarrow> session_send sc (msg_error None ''invalid_json'' text) s
      | Inr request \<Rightarrow> handle_request sc snapshot request s)"

section \<open>The loop\<close>

text \<open>\<open>Completed k r\<close>: the task at that place has finished; \<open>None\<close> is a task that panicked.\<close>

datatype session_input =
    Line string state_snapshot
  | BadLine
  | Hangup
  | Completed nat "json backend_res option"
  | StateChanged state_snapshot
  | StateClosed

definition completed_message :: "string \<Rightarrow> json backend_res \<Rightarrow> server_message" where
  "completed_message i r =
     (case r of
        Inr result \<Rightarrow> msg_ok i result
      | Inl e \<Rightarrow> msg_error_with_details (Some i) (be_code e) (be_message e) (be_details e) (be_retryable e))"

definition handle_completed ::
  "session_codec \<Rightarrow> nat \<Rightarrow> json backend_res option \<Rightarrow> client_session \<Rightarrow> client_session" where
  "handle_completed sc k r s =
     (if length (cl_pending s) \<le> k then s
      else
      let i = ta_id (cl_pending s ! k); s1 = s\<lparr>cl_pending := remove_at k (cl_pending s)\<rparr> in
      case r of
        None \<Rightarrow> s1
      | Some result \<Rightarrow>
          session_send sc (completed_message i result) (s1\<lparr>cl_pending_ids := cl_pending_ids s1 - {i}\<rparr>))"

fun session_step :: "session_codec \<Rightarrow> session_input \<Rightarrow> client_session \<Rightarrow> client_session" where
  "session_step sc (Line line snapshot) s = (if cl_open s then handle_line sc snapshot line s else s)"
| "session_step sc BadLine s = s\<lparr>cl_open := False\<rparr>"
| "session_step sc Hangup s = s\<lparr>cl_open := False\<rparr>"
| "session_step sc (Completed k r) s = (if cl_open s then handle_completed sc k r s else s)"
| "session_step sc (StateChanged snapshot) s =
     (if cl_open s \<and> cl_hello s then session_send sc (msg_event ''state.changed'' (sc_snapshot sc snapshot)) s else s)"
| "session_step sc StateClosed s = (if cl_hello s then s\<lparr>cl_open := False\<rparr> else s)"

section \<open>Questions and answers\<close>

text \<open>The identifier a line is answered under, and the identifiers of the lines, of the answers and of the requests that run.\<close>

definition frame_key :: "session_codec \<Rightarrow> string \<Rightarrow> string option" where
  "frame_key sc line =
     (case sc_request sc line of
        Inl _ \<Rightarrow> None
      | Inr request \<Rightarrow>
          if rq_message_type request = ''request'' \<and> rq_v request = PROTOCOL_VERSION \<and> \<not> valid_id (rq_id request)
          then None else Some (rq_id request))"

fun asked_by :: "session_codec \<Rightarrow> session_input \<Rightarrow> string option list" where
  "asked_by sc (Line line snapshot) = [frame_key sc line]"
| "asked_by sc x = []"

abbreviation asked_keys :: "session_codec \<Rightarrow> session_input list \<Rightarrow> string option list" where
  "asked_keys sc inputs \<equiv> concat (map (asked_by sc) inputs)"

fun answers :: "server_message \<Rightarrow> string option list" where
  "answers (Response v i ok result e) = [i]"
| "answers (Event v name data) = []"

abbreviation answered :: "client_session \<Rightarrow> string option list" where
  "answered s \<equiv> concat (map answers (cl_sent s))"

abbreviation waiting :: "client_session \<Rightarrow> string option list" where
  "waiting s \<equiv> map (\<lambda>t. Some (ta_id t)) (cl_pending s)"

definition accounts :: "client_session \<Rightarrow> string option multiset" where
  "accounts s = mset (answered s) + mset (waiting s)"

lemmas message_defs = msg_ok_def msg_error_def msg_error_with_details_def msg_event_def

lemma answers_message [simp]:
  "answers (msg_ok i r) = [Some i]" "answers (msg_error k c m) = [k]" "answers (msg_error_with_details k c m d b) = [k]"
  "answers (msg_event n x) = []" "answers (completed_message i r') = [Some i]"
  by (simp_all add: message_defs completed_message_def split: sum.split)

lemma session_send_open:
  assumes "cl_open (session_send sc m s)"
  shows "cl_open s" "session_send sc m s = s\<lparr>cl_sent := cl_sent s @ [m], cl_faults := tl (cl_faults s)\<rparr>"
  using assms by (auto simp: session_send_def split: if_splits)

lemma session_send_keeps [simp]:
  "cl_hello (session_send sc m s) = cl_hello s" "cl_pending (session_send sc m s) = cl_pending s"
  "cl_pending_ids (session_send sc m s) = cl_pending_ids s" "cl_client (session_send sc m s) = cl_client s"
  by (simp_all add: session_send_def)

lemma accounts_send: "cl_open (session_send sc m s) \<Longrightarrow> accounts (session_send sc m s) = accounts s + mset (answers m)"
  by (drule session_send_open(2)) (simp add: accounts_def)

lemma accounts_update [simp]:
  "accounts (s\<lparr>cl_client := c, cl_hello := h\<rparr>) = accounts s" "accounts (s\<lparr>cl_pending_ids := p\<rparr>) = accounts s"
  by (simp_all add: accounts_def)

lemma mset_remove_at: "k < length xs \<Longrightarrow> mset (remove_at k xs) + {#xs ! k#} = mset xs"
proof -
  assume "k < length xs"
  then have "mset xs = mset (take k xs @ xs ! k # drop (Suc k) xs)" by (rule arg_cong [OF id_take_nth_drop])
  then show ?thesis by (simp add: remove_at_def)
qed

lemma accounts_send_both:
  "cl_open (session_send sc m (session_send sc m' s)) \<Longrightarrow>
    accounts (session_send sc m (session_send sc m' s)) = accounts s + mset (answers m') + mset (answers m)"
  using accounts_send [of sc m "session_send sc m' s"] accounts_send [of sc m' s] session_send_open(1) [of sc m "session_send sc m' s"]
  by simp

lemma accounts_hello:
  "cl_open (handle_hello sc snapshot request s) \<Longrightarrow> accounts (handle_hello sc snapshot request s) = add_mset (Some (rq_id request)) (accounts s)"
  unfolding handle_hello_def Let_def
  by (auto simp: accounts_send_both accounts_send [of _ _ s] split: if_splits sum.splits)

lemma accounts_spawn:
  "cl_open (spawn_request sc store request s) \<Longrightarrow> accounts (spawn_request sc store request s) = add_mset (Some (rq_id request)) (accounts s)"
  by (auto simp: spawn_request_def accounts_send split: if_splits) (simp add: accounts_def)

lemma accounts_method:
  "cl_open (handle_method sc snapshot request s) \<Longrightarrow> accounts (handle_method sc snapshot request s) = add_mset (Some (rq_id request)) (accounts s)"
  unfolding handle_method_def by (simp add: accounts_send accounts_hello accounts_spawn split: if_splits)

lemma accounts_line:
  assumes "cl_open (handle_line sc snapshot line s)"
  shows "accounts (handle_line sc snapshot line s) = accounts s + {#frame_key sc line#}"
proof (cases "sc_request sc line")
  case (Inl e)
  then show ?thesis using assms by (simp add: handle_line_def frame_key_def accounts_send)
next
  case (Inr request)
  then show ?thesis
    using assms by (auto simp: handle_line_def handle_request_def frame_key_def accounts_send accounts_method split: if_splits)
qed

lemma accounts_completed:
  assumes "cl_open (handle_completed sc k (Some r) s)"
  shows "accounts (handle_completed sc k (Some r) s) = accounts s"
proof (cases "k < length (cl_pending s)")
  case True
  have "mset (waiting s) = mset (map (\<lambda>t. Some (ta_id t)) (remove_at k (cl_pending s))) + {#Some (ta_id (cl_pending s ! k))#}"
    using mset_remove_at [of k "waiting s"] True by (simp add: map_remove_at)
  then show ?thesis
    using assms True by (simp add: handle_completed_def Let_def accounts_send not_le) (simp add: accounts_def)
qed (simp add: handle_completed_def)

lemma accounts_step:
  "cl_open (session_step sc x s) \<Longrightarrow> (\<And>k. x \<noteq> Completed k None) \<Longrightarrow> accounts (session_step sc x s) = accounts s + mset (asked_by sc x)"
proof (cases x)
  case (Completed k r)
  assume "cl_open (session_step sc x s)" "\<And>k. x \<noteq> Completed k None"
  with Completed show ?thesis by (cases r) (auto simp: accounts_completed split: if_splits)
qed (auto simp: accounts_line accounts_send split: if_splits)

lemma step_open: "cl_open (session_step sc x s) \<Longrightarrow> cl_open s"
  by (cases x) (auto split: if_splits)

lemma run_open: "cl_open (fold (session_step sc) inputs s) \<Longrightarrow> cl_open s"
  by (induction inputs arbitrary: s) (auto dest: step_open)

lemma accounts_run:
  "cl_open (fold (session_step sc) inputs s) \<Longrightarrow> \<forall>k. Completed k None \<notin> set inputs
    \<Longrightarrow> accounts (fold (session_step sc) inputs s) = accounts s + mset (asked_keys sc inputs)"
proof (induction inputs arbitrary: s)
  case (Cons x inputs)
  have "cl_open (session_step sc x s)" using Cons.prems(1) by (auto dest: run_open)
  then have "accounts (session_step sc x s) = accounts s + mset (asked_by sc x)" using Cons.prems(2) by (intro accounts_step) auto
  then show ?case using Cons by simp
qed simp

section \<open>Limits\<close>

definition task_ok :: "client_session \<Rightarrow> session_task \<Rightarrow> bool" where
  "task_ok s t \<longleftrightarrow> cl_hello s \<and> ta_client t = cl_client s \<and> ta_method t \<in> set (if ta_store t then STORE_METHODS else NATIVE_METHODS)"

lemma task_ok_update [simp]:
  "task_ok (s\<lparr>cl_pending := ts\<rparr>) = task_ok s" "task_ok (s\<lparr>cl_pending_ids := p\<rparr>) = task_ok s" "task_ok (s\<lparr>cl_open := b\<rparr>) = task_ok s"
  "task_ok (session_send sc m s) = task_ok s"
  by (simp_all add: task_ok_def fun_eq_iff)

definition session_inv :: "client_session \<Rightarrow> bool" where
  "session_inv s \<longleftrightarrow>
     distinct (map ta_id (cl_pending s)) \<and> set (map ta_id (cl_pending s)) \<subseteq> cl_pending_ids s
     \<and> length (cl_pending s) \<le> MAX_PENDING_REQUESTS_PER_CLIENT
     \<and> (\<forall>t \<in> set (cl_pending s). task_ok s t)"

lemma session_inv_send [simp]: "session_inv (session_send sc m s) = session_inv s"
  by (simp add: session_inv_def)

lemma session_inv_hello: "session_inv s \<Longrightarrow> session_inv (handle_hello sc snapshot request s)"
  unfolding handle_hello_def Let_def by (auto simp: session_inv_def task_ok_def split: sum.splits)

lemma session_inv_spawn:
  assumes "session_inv s" "cl_hello s" "rq_method request \<in> set (if store then STORE_METHODS else NATIVE_METHODS)"
  shows "session_inv (spawn_request sc store request s)"
  using assms by (auto simp: spawn_request_def session_inv_def) (simp add: task_ok_def)

lemma session_inv_request: "session_inv s \<Longrightarrow> session_inv (handle_request sc snapshot request s)"
  unfolding handle_request_def handle_method_def by (simp add: session_inv_hello session_inv_spawn)

lemma session_inv_fewer:
  assumes "session_inv s" "set ts \<subseteq> set (cl_pending s)" "length ts \<le> length (cl_pending s)" "distinct (map ta_id ts)"
  shows "session_inv (s\<lparr>cl_pending := ts\<rparr>)"
proof -
  have "ta_id ` set ts \<subseteq> cl_pending_ids s" using assms(1,2) by (simp add: session_inv_def) (meson image_mono order_trans)
  then show ?thesis using assms by (simp add: session_inv_def) (meson subsetD)
qed

lemma session_inv_completed: "session_inv s \<Longrightarrow> session_inv (handle_completed sc k r s)"
proof (cases "k < length (cl_pending s)")
  case True
  let ?left = "remove_at k (cl_pending s)" and ?i = "ta_id (cl_pending s ! k)"
  assume inv: "session_inv s"
  then have ids: "distinct (map ta_id (cl_pending s))" by (simp add: session_inv_def)
  have split: "cl_pending s = take k (cl_pending s) @ cl_pending s ! k # drop (Suc k) (cl_pending s)"
    using True by (rule id_take_nth_drop)
  have fresh: "?i \<notin> ta_id ` set ?left"
    using ids by (subst (asm) split) (auto simp: remove_at_def)
  have left: "set ?left \<subseteq> set (cl_pending s)" "length ?left \<le> length (cl_pending s)" "distinct (map ta_id ?left)"
    by (rule set_remove_at, simp add: remove_at_def, unfold map_remove_at, rule distinct_remove_at [OF ids])
  have rest: "session_inv (s\<lparr>cl_pending := ?left\<rparr>)"
    by (rule session_inv_fewer [OF inv left])
  then have "session_inv (s\<lparr>cl_pending := ?left, cl_pending_ids := cl_pending_ids s - {?i}\<rparr>)"
    using fresh by (simp add: session_inv_def subset_Diff_insert)
  with rest show ?thesis
    using True by (cases r) (simp_all add: handle_completed_def Let_def not_le)
qed (simp add: handle_completed_def)

interpretation session: step_system "session_step sc" session_inv for sc
proof
  show "session_inv s \<Longrightarrow> session_inv (session_step sc x s)" for s x
  proof (induction sc x s rule: session_step.induct)
    case (1 sc line snapshot s)
    then show ?case by (simp add: handle_line_def session_inv_request split: sum.split)
  next
    case (4 sc k r s)
    then show ?case by (simp add: session_inv_completed)
  next
    case (6 sc s)
    then show ?case by (cases "cl_hello s") (simp_all add: session_inv_def)
  qed (simp_all add: session_inv_def)
qed

lemma session_inv_new: "session_inv (session_new n faults)"
  by (simp add: session_inv_def session_new_def)

section \<open>The properties\<close>

text \<open>C21. Every line of a client is answered exactly once: as long as the session is open and no task has panicked, the
  identifiers of the lines read (none for a line that is not a request) are, each as often as it was sent, those of the answers
  written and of the requests still running.\<close>

theorem every_request_is_answered_once:
  assumes "cl_open (fold (session_step sc) inputs (session_new n faults))" "\<forall>k. Completed k None \<notin> set inputs"
  shows "mset (asked_keys sc inputs) =
    mset (answered (fold (session_step sc) inputs (session_new n faults)))
    + mset (waiting (fold (session_step sc) inputs (session_new n faults)))"
  using accounts_run [OF assms] by (simp add: accounts_def session_new_def)

text \<open>C33. Whatever a client sends and whenever its requests finish or panic, at most 32 of them run at a time, under distinct
  identifiers; none runs before the handshake, each runs under the identity the handshake gave and calls a method the agent
  offers.\<close>

theorem client_requests_are_limited:
  "let s = fold (session_step sc) inputs (session_new n faults) in
   length (cl_pending s) \<le> 32 \<and> distinct (map ta_id (cl_pending s)) \<and> (cl_pending s = [] \<or> cl_hello s)
   \<and> list_all (\<lambda>t. ta_client t = cl_client s \<and> ta_method t \<in> set (NATIVE_METHODS @ STORE_METHODS)) (cl_pending s)"
proof -
  let ?s = "fold (session_step sc) inputs (session_new n faults)"
  have "session_inv ?s" by (rule session.run_inv [OF session_inv_new])
  then show ?thesis
    by (auto simp: session_inv_def task_ok_def Let_def list_all_iff MAX_PENDING_REQUESTS_PER_CLIENT_def neq_Nil_conv split: if_splits)
qed

text \<open>A client that greets, asks twice under one identifier and sends a line that is no request; one answer is out.\<close>

definition demo_codec :: session_codec where
  "demo_codec =
     \<lparr>sc_request = (\<lambda>line. if line = [] then Inl ''expected value''
        else Inr \<lparr>rq_v = 1, rq_id = [hd line], rq_message_type = ''request'', rq_method = tl line, rq_params = JNull\<rparr>),
      sc_hello = (\<lambda>_. Inr \<lparr>hp_client = ''panel'', hp_client_version = ''1'', hp_client_instance_id = ''panel-1''\<rparr>),
      sc_snapshot = (\<lambda>_. JNull), sc_line = (\<lambda>_. [])\<rparr>"

definition demo_inputs :: "session_input list" where
  "demo_inputs =
     [Line ''1traffic.get'' state_snapshot_default, Line ''2hello'' state_snapshot_default, Line ''3traffic.get'' state_snapshot_default,
      Line ''3store.get'' state_snapshot_default, Line [] state_snapshot_default, Line ''4store.get'' state_snapshot_default,
      Completed 1 (Some (Inr JNull))]"

theorem every_request_is_answered_once_witness:
  "mset [Some ''1'', Some ''2'', Some ''3'', Some ''3'', None, Some ''4''] =
    mset (answered (fold (session_step demo_codec) demo_inputs (session_new 7 [])))
    + mset (waiting (fold (session_step demo_codec) demo_inputs (session_new 7 [])))
   \<and> waiting (fold (session_step demo_codec) demo_inputs (session_new 7 [])) = [Some ''3'']"
proof -
  have is_open: "cl_open (fold (session_step demo_codec) demo_inputs (session_new 7 []))" by code_simp
  have panics: "\<forall>k. Completed k None \<notin> set demo_inputs" by (simp add: demo_inputs_def)
  have keys: "asked_keys demo_codec demo_inputs = [Some ''1'', Some ''2'', Some ''3'', Some ''3'', None, Some ''4'']" by code_simp
  have "waiting (fold (session_step demo_codec) demo_inputs (session_new 7 [])) = [Some ''3'']" by code_simp
  then show ?thesis using every_request_is_answered_once [OF is_open panics] unfolding keys by simp
qed

end
