(* ===== verification/Auto_Connect.thy ===== *)
theory Auto_Connect
  imports Operations
begin

text \<open>
  Connections the agent makes by itself: at start and sign-in (\<^verbatim>\<open>agent/src/autoconnect.rs\<close>), after a suspend and when a tunnel
  of its own is lost (\<^verbatim>\<open>native_backend/lifecycle.rs\<close>). The published state, the preference and the answers of the backend and
  the store may change whenever they are looked at, so each look is a call on the world \<open>'w\<close>. The loops that wait for a timer
  while the state changes are given a number of rounds; \<open>None\<close> means that they did not suffice.
\<close>

section \<open>Services\<close>

datatype wakeup = StateMoved | StateGone | TimeUp

record 'w auto_io =
  au_state :: "'w \<Rightarrow> state_snapshot \<times> 'w"
  au_enabled :: "'w \<Rightarrow> bool \<times> 'w"
  au_backend :: "string \<Rightarrow> string \<Rightarrow> json \<Rightarrow> 'w \<Rightarrow> json backend_res \<times> 'w"
  au_store :: "string \<Rightarrow> string \<Rightarrow> json \<Rightarrow> 'w \<Rightarrow> json backend_res \<times> 'w"
  au_sleep :: "nat \<Rightarrow> 'w \<Rightarrow> 'w"
  au_wait :: "'w \<Rightarrow> wakeup \<times> 'w"

definition recent_operation_ids :: "state_snapshot \<Rightarrow> string set" where
  "recent_operation_ids s = set (map op_id (os_recent (sn_operations s)))"

definition vpn_is_active :: "state_snapshot \<Rightarrow> bool" where
  "vpn_is_active s \<longleftrightarrow> cn_status (sn_connection s) = Connecting \<or> cn_status (sn_connection s) = Connected"

text \<open>What follows a successful resolution: the request to connect, and the entry among the recent ones.\<close>

definition connect_params :: "json \<Rightarrow> json" where
  "connect_params resolved = unwrap_or (jobj []) (vget resolved ''connect_params'')"

definition record_connected :: "'w auto_io \<Rightarrow> string \<Rightarrow> json \<Rightarrow> 'w \<Rightarrow> 'w" where
  "record_connected io client resolved w =
     (case vget resolved ''recent'' of
        None \<Rightarrow> w
      | Some recent \<Rightarrow> snd (au_store io client ''recents.record'' (jobj [(''recent'', recent)]) w))"

text \<open>\<open>True\<close> in an error: the connection itself was asked for.\<close>

definition resolve_and_connect :: "'w auto_io \<Rightarrow> string \<Rightarrow> json \<Rightarrow> 'w \<Rightarrow> ((bool \<times> backend_error) + unit) \<times> 'w" where
  "resolve_and_connect io client selection w =
     (case au_store io client ''connection.resolve'' selection w of
        (Inl e, w1) \<Rightarrow> (Inl (False, e), w1)
      | (Inr resolved, w1) \<Rightarrow>
      case au_backend io client ''connection.connect'' (connect_params resolved) w1 of
        (Inl e, w2) \<Rightarrow> (Inl (True, e), w2)
      | (Inr _, w2) \<Rightarrow> (Inr (), record_connected io client resolved w2))"

section \<open>Connecting at start\<close>

definition AUTOCONNECT_CLIENT_ID :: string where "AUTOCONNECT_CLIENT_ID = ''agent-autoconnect''"
definition MAX_ATTEMPTS :: nat where "MAX_ATTEMPTS = 8"

datatype attempt_outcome = WaitingForAccount | Finished | Interrupted

definition user_interrupted :: "state_snapshot \<Rightarrow> string set \<Rightarrow> bool" where
  "user_interrupted s initial \<longleftrightarrow> connection_sequence_interrupted s initial AUTOCONNECT_CLIENT_ID"

definition logged_in :: "json \<Rightarrow> bool" where
  "logged_in account = unwrap_or False (vbool account ''logged_in'')"

text \<open>\<open>attempt_once\<close> after the account is known to be signed in.\<close>

definition connect_once :: "'w auto_io \<Rightarrow> string set \<Rightarrow> 'w \<Rightarrow> unit backend_res \<times> 'w" where
  "connect_once io initial w =
     (let client = AUTOCONNECT_CLIENT_ID in
      case au_backend io client ''connection.observe'' (jobj []) w of
        (Inl e, w1) \<Rightarrow> (Inl e, w1)
      | (Inr _, w1) \<Rightarrow>
      case au_state io w1 of (s, w2) \<Rightarrow>
      if vpn_is_active s then (Inr (), w2)
      else case au_enabled io w2 of (on, w3) \<Rightarrow>
      if \<not> on then (Inr (), w3)
      else case au_state io w3 of (s', w4) \<Rightarrow>
      if user_interrupted s' initial then (Inr (), w4)
      else case resolve_and_connect io client (jobj []) w4 of
        (Inl (_, e), w5) \<Rightarrow> (Inl e, w5)
      | (Inr _, w5) \<Rightarrow> (Inr (), w5))"

definition attempt_once :: "'w auto_io \<Rightarrow> string set \<Rightarrow> bool \<Rightarrow> 'w \<Rightarrow> (unit backend_res \<times> bool) \<times> 'w" where
  "attempt_once io initial authenticated w =
     (case au_enabled io w of (on, w1) \<Rightarrow>
      if \<not> on then ((Inr (), authenticated), w1)
      else case au_backend io AUTOCONNECT_CLIENT_ID ''account.get'' (jobj []) w1 of
        (Inl e, w2) \<Rightarrow> ((Inl e, authenticated), w2)
      | (Inr account, w2) \<Rightarrow>
      if \<not> logged_in account then ((Inr (), authenticated), w2)
      else case connect_once io initial w2 of (r, w3) \<Rightarrow> ((r, True), w3))"

text \<open>The pause between two attempts; \<open>None\<close> inside: the time is up.\<close>

fun back_off :: "'w auto_io \<Rightarrow> string set \<Rightarrow> nat \<Rightarrow> 'w \<Rightarrow> (attempt_outcome option \<times> 'w) option" where
  "back_off io initial 0 w = None"
| "back_off io initial (Suc rounds) w =
     (case au_state io w of (s, w1) \<Rightarrow>
      if user_interrupted s initial then Some (Some Interrupted, w1)
      else case au_enabled io w1 of (on, w2) \<Rightarrow>
      if \<not> on then Some (Some Finished, w2)
      else case au_state io w2 of (s', w3) \<Rightarrow>
      if cn_status (sn_connection s') = Connected then Some (Some Finished, w3)
      else case au_wait io w3 of
        (StateGone, w4) \<Rightarrow> Some (Some Finished, w4)
      | (TimeUp, w4) \<Rightarrow> Some (None, w4)
      | (StateMoved, w4) \<Rightarrow> back_off io initial rounds w4)"

definition retry_delay :: "nat \<Rightarrow> nat" where
  "retry_delay index = min (push_bit index 5) 60"

definition attempt_end :: "bool \<Rightarrow> attempt_outcome" where
  "attempt_end authenticated = (if authenticated then Finished else WaitingForAccount)"

text \<open>The attempts from \<open>index\<close> on, of which \<open>left\<close> are left.\<close>

fun attempts_from ::
  "'w auto_io \<Rightarrow> string set \<Rightarrow> nat \<Rightarrow> nat \<Rightarrow> nat \<Rightarrow> bool \<Rightarrow> 'w \<Rightarrow> (attempt_outcome \<times> 'w) option" where
  "attempts_from io initial rounds index 0 authenticated w = Some (attempt_end authenticated, w)"
| "attempts_from io initial rounds index (Suc left) authenticated w =
     (case au_state io w of (s, w1) \<Rightarrow>
      if user_interrupted s initial then Some (Interrupted, w1)
      else case au_enabled io w1 of (on, w2) \<Rightarrow>
      if \<not> on then Some (attempt_end authenticated, w2)
      else case attempt_once io initial authenticated w2 of ((r, known), w3) \<Rightarrow>
      case au_state io w3 of (s', w4) \<Rightarrow>
      if user_interrupted s' initial then Some (Interrupted, w4)
      else case r of
        Inr _ \<Rightarrow> Some (attempt_end known, w4)
      | Inl e \<Rightarrow>
          if is_cancelled_error (be_code e) then Some (Interrupted, w4)
          else if \<not> be_retryable e \<or> left = 0 then Some (attempt_end known, w4)
          else case back_off io initial rounds (au_sleep io (retry_delay index) w4) of
            None \<Rightarrow> None
          | Some (Some stop, w5) \<Rightarrow> Some (stop, w5)
          | Some (None, w5) \<Rightarrow> attempts_from io initial rounds (Suc index) left known w5)"

definition auto_attempt :: "'w auto_io \<Rightarrow> string set \<Rightarrow> nat \<Rightarrow> 'w \<Rightarrow> (attempt_outcome \<times> 'w) option" where
  "auto_attempt io initial rounds = attempts_from io initial rounds 0 MAX_ATTEMPTS False"

section \<open>The watcher\<close>

record auto_state =
  as_auto_connect :: bool
  as_account :: account_status
  as_stopped :: bool
  as_initial :: "string set"

text \<open>The decision on a new state: what is remembered, and whether an attempt starts.\<close>

definition decide :: "state_snapshot \<Rightarrow> auto_state \<Rightarrow> auto_state \<times> bool" where
  "decide snapshot st =
     (let on = cs_auto_connect (sn_store snapshot); account = acc_status (sn_account snapshot);
          enabled_now = on \<and> \<not> as_auto_connect st;
          became_ready = on \<and> account = SignedIn \<and> as_account st \<noteq> SignedIn;
          stopped = \<not> enabled_now \<and> (as_stopped st \<or> user_interrupted snapshot (as_initial st));
          initial = (if enabled_now then recent_operation_ids snapshot else as_initial st) in
      (\<lparr>as_auto_connect = on, as_account = account, as_stopped = stopped, as_initial = initial\<rparr>,
       enabled_now \<or> became_ready \<and> \<not> stopped))"

definition auto_turn :: "'w auto_io \<Rightarrow> nat \<Rightarrow> auto_state \<Rightarrow> 'w \<Rightarrow> (auto_state \<times> 'w) option" where
  "auto_turn io rounds st w =
     (case au_state io w of (snapshot, w1) \<Rightarrow>
      case decide snapshot st of (st1, start) \<Rightarrow>
      if \<not> start then Some (st1, w1)
      else case auto_attempt io (as_initial st1) rounds w1 of
        None \<Rightarrow> None
      | Some (outcome, w2) \<Rightarrow>
      case au_enabled io w2 of (on, w3) \<Rightarrow>
      case au_state io w3 of (s, w4) \<Rightarrow>
      Some (st1\<lparr>as_stopped := as_stopped st1 \<or> outcome = Interrupted, as_auto_connect := on,
        as_account := acc_status (sn_account s)\<rparr>, w4))"

definition auto_start :: "'w auto_io \<Rightarrow> nat \<Rightarrow> 'w \<Rightarrow> (auto_state \<times> 'w) option" where
  "auto_start io rounds w =
     (case au_enabled io w of (previous, w1) \<Rightarrow>
      case au_state io w1 of (s, w2) \<Rightarrow>
      case au_state io w2 of (s', w3) \<Rightarrow>
      let st = \<lparr>as_auto_connect = previous, as_account = acc_status (sn_account s), as_stopped = False,
                as_initial = recent_operation_ids s'\<rparr> in
      case au_enabled io w3 of (on, w4) \<Rightarrow>
      if \<not> on then Some (st, w4)
      else case auto_attempt io (as_initial st) rounds w4 of
        None \<Rightarrow> None
      | Some (Finished, w5) \<Rightarrow> (case au_state io w5 of (s'', w6) \<Rightarrow> Some (st\<lparr>as_account := acc_status (sn_account s'')\<rparr>, w6))
      | Some (Interrupted, w5) \<Rightarrow> Some (st\<lparr>as_stopped := True\<rparr>, w5)
      | Some (WaitingForAccount, w5) \<Rightarrow> Some (st, w5))"

section \<open>Reconnecting\<close>

definition LIFECYCLE_CLIENT_ID :: string where "LIFECYCLE_CLIENT_ID = ''agent-lifecycle''"
definition RESUME_RETRY_DELAYS :: "nat list" where "RESUME_RETRY_DELAYS = [0, 1, 2, 4, 8, 15]"

definition should_reconnect :: "bool \<Rightarrow> bool \<Rightarrow> bool" where
  "should_reconnect was_active auto_connect \<longleftrightarrow> was_active \<or> auto_connect"

text \<open>\<open>!was_active && !store.auto_connect_enabled()\<close>: the preference is read only when it matters.\<close>

definition unwanted :: "'w auto_io \<Rightarrow> bool \<Rightarrow> 'w \<Rightarrow> bool \<times> 'w" where
  "unwanted io was_active w = (if was_active then (False, w) else case au_enabled io w of (on, w1) \<Rightarrow> (\<not> on, w1))"

definition resume_interrupted :: "state_snapshot \<Rightarrow> string set \<Rightarrow> bool" where
  "resume_interrupted s initial \<longleftrightarrow> connection_sequence_interrupted s initial LIFECYCLE_CLIENT_ID"

fun resume_wait :: "'w auto_io \<Rightarrow> string set \<Rightarrow> bool \<Rightarrow> nat \<Rightarrow> 'w \<Rightarrow> (bool \<times> 'w) option" where
  "resume_wait io initial was_active 0 w = None"
| "resume_wait io initial was_active (Suc rounds) w =
     (case au_state io w of (s, w1) \<Rightarrow>
      if resume_interrupted s initial then Some (False, w1)
      else case unwanted io was_active w1 of (stop, w2) \<Rightarrow>
      if stop then Some (False, w2)
      else case au_wait io w2 of
        (StateGone, w3) \<Rightarrow> Some (False, w3)
      | (TimeUp, w3) \<Rightarrow> Some (True, w3)
      | (StateMoved, w3) \<Rightarrow> resume_wait io initial was_active rounds w3)"

text \<open>One attempt after the pause: whether the sequence goes on. First the part after the observation.\<close>

definition resume_connect :: "'w auto_io \<Rightarrow> string set \<Rightarrow> bool \<Rightarrow> 'w \<Rightarrow> bool \<times> 'w" where
  "resume_connect io initial was_active w =
     (case au_state io w of (s, w1) \<Rightarrow>
      if vpn_is_active s then (False, w1)
      else case au_state io w1 of (s', w2) \<Rightarrow>
      if resume_interrupted s' initial then (False, w2)
      else case unwanted io was_active w2 of (stop, w3) \<Rightarrow>
      if stop then (False, w3)
      else case resolve_and_connect io LIFECYCLE_CLIENT_ID
             (if was_active then jobj [(''selection'', jobj [(''type'', JStr ''last'')])] else jobj []) w3 of
        (Inr _, w4) \<Rightarrow> (False, w4)
      | (Inl (tried, e), w4) \<Rightarrow> (\<not> tried \<or> be_retryable e \<and> \<not> is_cancelled_error (be_code e), w4))"

definition resume_once :: "'w auto_io \<Rightarrow> string set \<Rightarrow> bool \<Rightarrow> 'w \<Rightarrow> bool \<times> 'w" where
  "resume_once io initial was_active w =
     (case au_state io w of (s, w1) \<Rightarrow>
      if resume_interrupted s initial then (False, w1)
      else case au_state io w1 of (s1, w2) \<Rightarrow>
      if acc_status (sn_account s1) \<noteq> SignedIn then (True, w2)
      else case unwanted io was_active w2 of (stop, w3) \<Rightarrow>
      if stop then (False, w3)
      else case au_backend io LIFECYCLE_CLIENT_ID ''connection.observe'' (jobj []) w3 of
        (Inl _, w4) \<Rightarrow> (True, w4)
      | (Inr _, w4) \<Rightarrow> resume_connect io initial was_active w4)"

fun resume_attempts :: "'w auto_io \<Rightarrow> string set \<Rightarrow> bool \<Rightarrow> nat \<Rightarrow> nat list \<Rightarrow> 'w \<Rightarrow> (unit \<times> 'w) option" where
  "resume_attempts io initial was_active rounds [] w = Some ((), w)"
| "resume_attempts io initial was_active rounds (delay # delays) w =
     (case (if delay = 0 then Some (True, w) else resume_wait io initial was_active rounds (au_sleep io delay w)) of
        None \<Rightarrow> None
      | Some (False, w1) \<Rightarrow> Some ((), w1)
      | Some (True, w1) \<Rightarrow>
          case resume_once io initial was_active w1 of
            (False, w2) \<Rightarrow> Some ((), w2)
          | (True, w2) \<Rightarrow> resume_attempts io initial was_active rounds delays w2)"

definition reconnect_after_resume :: "'w auto_io \<Rightarrow> nat \<Rightarrow> bool \<Rightarrow> 'w \<Rightarrow> (unit \<times> 'w) option" where
  "reconnect_after_resume io rounds was_active w =
     (case au_enabled io w of (on, w1) \<Rightarrow>
      if \<not> should_reconnect was_active on
      then Some ((), snd (au_backend io LIFECYCLE_CLIENT_ID ''connection.observe'' (jobj []) w1))
      else case au_state io w1 of (s, w2) \<Rightarrow>
           resume_attempts io (recent_operation_ids s) was_active rounds RESUME_RETRY_DELAYS w2)"

text \<open>One tick of \<open>monitor_connection\<close>: the baseline kept while a tunnel of ours is up.\<close>

definition monitor_tick ::
  "'w auto_io \<Rightarrow> nat \<Rightarrow> string set option \<Rightarrow> 'w \<Rightarrow> (string set option \<times> 'w) option" where
  "monitor_tick io rounds owned w =
     (case au_state io w of (prior, w1) \<Rightarrow>
      if acc_status (sn_account prior) \<noteq> SignedIn then Some (None, w1)
      else if os_active (sn_operations prior) \<noteq> [] then Some (owned, w1)
      else case au_backend io LIFECYCLE_CLIENT_ID ''connection.observe'' (jobj []) w1 of
        (Inl _, w2) \<Rightarrow> Some (owned, w2)
      | (Inr observed, w2) \<Rightarrow>
          let status = vstr observed ''status'' in
          if status = Some ''connected''
          then Some (if vbool observed ''owned'' = Some True then Some (recent_operation_ids prior) else None, w2)
          else if status = Some ''disconnected'' \<or> status = Some ''error''
          then (case owned of
                  None \<Rightarrow> Some (None, w2)
                | Some baseline \<Rightarrow>
                    case au_state io w2 of (s, w3) \<Rightarrow>
                    if resume_interrupted s baseline then Some (None, w3)
                    else case reconnect_after_resume io rounds True w3 of
                      None \<Rightarrow> None
                    | Some (_, w4) \<Rightarrow> Some (None, w4))
          else Some (owned, w2))"

text \<open>A signal of \<open>PrepareForSleep\<close>.\<close>

definition sleep_signal :: "'w auto_io \<Rightarrow> nat \<Rightarrow> bool \<Rightarrow> bool option \<Rightarrow> 'w \<Rightarrow> (bool option \<times> 'w) option" where
  "sleep_signal io rounds sleeping active w =
     (if sleeping then (case au_state io w of (s, w1) \<Rightarrow> Some (Some (vpn_is_active s), w1))
      else case active of
        None \<Rightarrow> Some (None, w)
      | Some was_active \<Rightarrow>
          case reconnect_after_resume io rounds was_active w of
            None \<Rightarrow> None
          | Some (_, w1) \<Rightarrow> Some (None, w1))"

section \<open>Traces\<close>

text \<open>The same services, with a record of everything seen and asked, the latest first.\<close>

datatype auto_event =
    SawState state_snapshot
  | SawEnabled bool
  | AskedBackend string string json
  | AskedStore string string json
  | Slept nat
  | Woke wakeup

definition noted :: "('a \<Rightarrow> auto_event) \<Rightarrow> ('w \<Rightarrow> 'a \<times> 'w) \<Rightarrow> 'w \<times> auto_event list \<Rightarrow> 'a \<times> ('w \<times> auto_event list)" where
  "noted e f wl = (case wl of (w, l) \<Rightarrow> case f w of (x, w') \<Rightarrow> (x, (w', e x # l)))"

definition traced :: "'w auto_io \<Rightarrow> ('w \<times> auto_event list) auto_io" where
  "traced io =
     \<lparr>au_state = noted SawState (au_state io), au_enabled = noted SawEnabled (au_enabled io),
      au_backend = (\<lambda>c m p. noted (\<lambda>_. AskedBackend c m p) (au_backend io c m p)),
      au_store = (\<lambda>c m p. noted (\<lambda>_. AskedStore c m p) (au_store io c m p)),
      au_sleep = (\<lambda>n (w, l). (au_sleep io n w, Slept n # l)), au_wait = noted Woke (au_wait io)\<rparr>"

fun connects :: "auto_event \<Rightarrow> bool" where
  "connects (AskedBackend c m p) \<longleftrightarrow> m = ''connection.connect''"
| "connects _ \<longleftrightarrow> False"

fun observes :: "auto_event \<Rightarrow> bool" where
  "observes (AskedBackend c m p) \<longleftrightarrow> m = ''connection.observe''"
| "observes _ \<longleftrightarrow> False"

fun slept :: "auto_event \<Rightarrow> nat" where
  "slept (Slept n) = n"
| "slept _ = 0"

text \<open>A request to connect is in order when, after the tunnel was last observed, the state was seen without an active tunnel and
  without an intervention of the user, and, where it depends on the preference, the preference was seen to be on.\<close>

definition in_order :: "(state_snapshot \<Rightarrow> bool) \<Rightarrow> bool \<Rightarrow> auto_event list \<Rightarrow> bool" where
  "in_order stopped needs_preference l \<longleftrightarrow>
     (let recent = takeWhile (\<lambda>e. \<not> observes e) l in
      length recent < length l \<and> (\<exists>s. SawState s \<in> set recent \<and> \<not> vpn_is_active s)
      \<and> (\<exists>s. SawState s \<in> set recent \<and> \<not> stopped s) \<and> (needs_preference \<longrightarrow> SawEnabled True \<in> set recent))"

fun orderly :: "(state_snapshot \<Rightarrow> bool) \<Rightarrow> bool \<Rightarrow> auto_event list \<Rightarrow> bool" where
  "orderly stopped pref [] \<longleftrightarrow> True"
| "orderly stopped pref (e # l) \<longleftrightarrow> orderly stopped pref l \<and> (connects e \<longrightarrow> in_order stopped pref l)"

text \<open>What a run adds to a trace: a bound on the requests to connect and on the time slept, and order.\<close>

definition within :: "(state_snapshot \<Rightarrow> bool) \<Rightarrow> bool \<Rightarrow> nat \<Rightarrow> nat \<Rightarrow> auto_event list \<Rightarrow> auto_event list \<Rightarrow> bool" where
  "within stopped pref n t l l' \<longleftrightarrow>
     (\<exists>new. l' = new @ l) \<and> (orderly stopped pref l \<longrightarrow> orderly stopped pref l')
     \<and> length (filter connects l') \<le> length (filter connects l) + n
     \<and> sum_list (map slept l') \<le> sum_list (map slept l) + t"

lemma within_refl [simp]: "within P b n t l l"
  by (simp add: within_def)

lemma within_trans: "within P b n t l l' \<Longrightarrow> within P b m u l' l'' \<Longrightarrow> n + m \<le> k \<Longrightarrow> t + u \<le> v \<Longrightarrow> within P b k v l l''"
  by (auto simp: within_def)

lemma within_mono: "within P b n t l l' \<Longrightarrow> n \<le> m \<Longrightarrow> t \<le> u \<Longrightarrow> within P b m u l l'"
  by (auto simp: within_def)

lemma within_event [simp]: "\<not> connects e \<Longrightarrow> slept e = 0 \<Longrightarrow> within P b n t l l' \<Longrightarrow> within P b n t l (e # l')"
  by (auto simp: within_def intro: exI [of _ "e # new" for new])

lemma within_sleep: "within P b n t l l' \<Longrightarrow> within P b n (t + d) l (Slept d # l')"
  by (auto simp: within_def)

text \<open>The calls on a traced world.\<close>

lemma traced_calls:
  "au_state (traced io) (w, l) = (case au_state io w of (s, w') \<Rightarrow> (s, (w', SawState s # l)))"
  "au_enabled (traced io) (w, l) = (case au_enabled io w of (b, w') \<Rightarrow> (b, (w', SawEnabled b # l)))"
  "au_backend (traced io) c m p (w, l) = (case au_backend io c m p w of (r, w') \<Rightarrow> (r, (w', AskedBackend c m p # l)))"
  "au_store (traced io) c m p (w, l) = (case au_store io c m p w of (r, w') \<Rightarrow> (r, (w', AskedStore c m p # l)))"
  "au_sleep (traced io) n (w, l) = (au_sleep io n w, Slept n # l)"
  "au_wait (traced io) (w, l) = (case au_wait io w of (u, w') \<Rightarrow> (u, (w', Woke u # l)))"
  by (simp_all add: traced_def noted_def)

lemma in_order_seen:
  "\<not> vpn_is_active s \<Longrightarrow> \<not> P s' \<Longrightarrow>
    in_order P b (SawState s' # SawEnabled True # SawState s # AskedBackend c ''connection.observe'' p # l)"
  "\<not> vpn_is_active s \<Longrightarrow> \<not> P s' \<Longrightarrow>
    in_order P b (SawEnabled True # SawState s' # SawState s # AskedBackend c ''connection.observe'' p # l)"
  "\<not> vpn_is_active s \<Longrightarrow> \<not> P s' \<Longrightarrow>
    in_order P False (SawState s' # SawState s # AskedBackend c ''connection.observe'' p # l)"
  by (auto simp: in_order_def)

lemma resolve_and_connect_within:
  assumes "in_order P b l"
  shows "within P b 1 0 l (snd (snd (resolve_and_connect (traced io) c selection (w, l))))"
proof -
  have order: "in_order P b (AskedStore c m p # l)" for m p using assms by (auto simp: in_order_def Let_def)
  have asks: "within P b 1 0 l (AskedBackend c ''connection.connect'' q # AskedStore c m p # l)" for q m p
    using order by (auto simp: within_def)
  have last: "within P b 1 0 l (snd (record_connected (traced io) c resolved (w', AskedBackend c ''connection.connect'' q # AskedStore c m p # l)))"
    for resolved w' q m p
    using asks by (auto simp: record_connected_def traced_calls split: option.split prod.split)
  show ?thesis
    unfolding resolve_and_connect_def using asks last by (auto simp: traced_calls split: prod.split sum.split)
qed

lemma connect_once_within:
  assumes "connect_once (traced io) initial (w, l) = (r, (w', l'))"
  shows "within (\<lambda>s. user_interrupted s initial) True 1 0 l l'"
proof -
  let ?P = "\<lambda>s. user_interrupted s initial" and ?seen = "\<lambda>s. SawState s # AskedBackend AUTOCONNECT_CLIENT_ID ''connection.observe'' (jobj []) # l"
  have go: "within ?P True 1 0 l l2"
    if "resolve_and_connect (traced io) AUTOCONNECT_CLIENT_ID sel (w1, SawState s' # SawEnabled True # ?seen s) = (x, (w2, l2))"
      "\<not> vpn_is_active s" "\<not> user_interrupted s' initial" for sel w1 s' s x w2 l2
  proof (rule within_trans)
    show "within ?P True 0 0 l (SawState s' # SawEnabled True # ?seen s)" by simp
    have "in_order ?P True (SawState s' # SawEnabled True # ?seen s)" using that(2,3) by (intro in_order_seen)
    from resolve_and_connect_within [OF this, of io AUTOCONNECT_CLIENT_ID sel w1]
    show "within ?P True 1 0 (SawState s' # SawEnabled True # ?seen s) l2" by (simp add: that(1))
  qed simp_all
  show ?thesis
    using assms unfolding connect_once_def Let_def
    by (auto simp: traced_calls split: prod.splits sum.splits if_splits dest!: go)
qed

lemma attempt_once_within:
  assumes "attempt_once (traced io) initial known (w, l) = (r, (w', l'))"
  shows "within (\<lambda>s. user_interrupted s initial) True 1 0 l l'"
proof -
  let ?P = "\<lambda>s. user_interrupted s initial"
  let ?start = "\<lambda>b. AskedBackend AUTOCONNECT_CLIENT_ID ''account.get'' (jobj []) # SawEnabled b # l"
  have "within ?P True 1 0 l l1" if "connect_once (traced io) initial (v, ?start b) = (x, (w1, l1))" for v b x w1 l1
    by (rule within_trans [OF _ connect_once_within [OF that], where n = 0 and t = 0]) simp_all
  then show ?thesis
    using assms unfolding attempt_once_def by (auto simp: traced_calls split: prod.splits sum.splits if_splits)
qed

lemma back_off_within:
  "back_off (traced io) initial rounds (w, l) = Some (x, (w', l')) \<Longrightarrow> within P b 0 0 l l'"
proof (induction rounds arbitrary: w l)
  case (Suc rounds)
  have again: "within P b 0 0 l l'" if "back_off (traced io) initial rounds (v, Woke u # SawState s # SawEnabled e # SawState s' # l) = Some (x, (w', l'))"
    for v u s e s'
    by (rule within_trans [OF _ Suc.IH [OF that], where n = 0 and t = 0]) simp_all
  from Suc.prems show ?case
    by (auto simp: traced_calls split: prod.splits if_splits wakeup.splits dest: again)
qed simp

abbreviation pauses :: "nat \<Rightarrow> nat \<Rightarrow> nat" where
  "pauses index left \<equiv> sum_list (map retry_delay [index ..< index + (left - 1)])"

lemma pauses_Suc: "0 < left \<Longrightarrow> pauses index (Suc left) = retry_delay index + pauses (Suc index) left"
  by (simp add: upt_conv_Cons [of index "index + left"])

lemma attempts_from_within:
  "attempts_from (traced io) initial rounds index left known (w, l) = Some (outcome, (w', l'))
    \<Longrightarrow> within (\<lambda>s. user_interrupted s initial) True left (pauses index left) l l'"
proof (induction left arbitrary: index known w l)
  case (Suc left)
  let ?P = "\<lambda>s. user_interrupted s initial"
  have once: "within ?P True (Suc n) t l (SawState s # l1)"
    if "attempt_once (traced io) initial known (v, SawEnabled e # SawState s' # l) = (r, (w1, l1))" for v e s' r w1 l1 s n t
    by (rule within_trans [OF _ within_event [OF _ _ attempt_once_within [OF that]], where n = 0 and t = 0]) simp_all
  have paused: "within ?P True 1 (retry_delay index) l l2"
    if "attempt_once (traced io) initial known (v, SawEnabled e # SawState s' # l) = (r, (w1, l1))"
      "back_off (traced io) initial rounds (w2, Slept (retry_delay index) # SawState s # l1) = Some (x, (w3, l2))"
    for v e s' r w1 l1 w2 s x w3 l2
  proof -
    have "within ?P True 1 0 l (SawState s # l1)" using once [OF that(1), of 0] by simp
    then have "within ?P True 1 (0 + retry_delay index) l (Slept (retry_delay index) # SawState s # l1)" by (rule within_sleep)
    then show ?thesis by (rule within_trans [OF _ back_off_within [OF that(2)]]) simp_all
  qed
  have stop: "within ?P True (Suc left) (pauses index (Suc left)) l l2"
    if "attempt_once (traced io) initial known (v, SawEnabled e # SawState s' # l) = (r, (w1, l1))" "left \<noteq> 0"
      "back_off (traced io) initial rounds (w2, Slept (retry_delay index) # SawState s # l1) = Some (x, (w3, l2))"
    for v e s' r w1 l1 w2 s x w3 l2
    by (rule within_mono [OF paused [OF that(1,3)]]) (use pauses_Suc [of left index] that(2) in linarith)+
  have again: "within ?P True (Suc left) (pauses index (Suc left)) l l'"
    if "attempt_once (traced io) initial known (v, SawEnabled e # SawState s' # l) = (r, (w1, l1))" "left \<noteq> 0"
      "back_off (traced io) initial rounds (w2, Slept (retry_delay index) # SawState s # l1) = Some (x, (w3, l2))"
      "attempts_from (traced io) initial rounds (Suc index) left known' (w3, l2) = Some (outcome, (w', l'))"
    for v e s' r w1 l1 w2 s x w3 l2 known'
    by (rule within_trans [OF paused [OF that(1,3)] Suc.IH [OF that(4)]]) (use pauses_Suc [of left index] that(2) in linarith)+
  from Suc.prems show ?case
    by (auto simp: traced_calls split: prod.splits if_splits sum.splits option.splits
        intro: once stop [simplified] again [simplified])
qed simp

lemma unwanted_within: "unwanted (traced io) was_active (w, l) = (stop, (w', l')) \<Longrightarrow> within P b 0 0 l l'"
  by (auto simp: unwanted_def traced_calls split: if_splits prod.splits)

lemma resume_wait_within:
  "resume_wait (traced io) initial was_active rounds (w, l) = Some (x, (w', l')) \<Longrightarrow> within P b 0 0 l l'"
proof (induction rounds arbitrary: w l)
  case (Suc rounds)
  have seen: "within P b 0 0 l l1" if "unwanted (traced io) was_active (v, SawState s # l) = (stop, (w1, l1))" for v s stop w1 l1
    by (rule within_trans [OF _ unwanted_within [OF that], where n = 0 and t = 0]) simp_all
  have woke: "within P b 0 0 l (Woke u # l1)" if "unwanted (traced io) was_active (v, SawState s # l) = (stop, (w1, l1))" for v s stop w1 l1 u
    by (rule within_event [OF _ _ seen [OF that]]) simp_all
  have again: "within P b 0 0 l l'" if "unwanted (traced io) was_active (v, SawState s # l) = (stop, (w1, l1))"
      "resume_wait (traced io) initial was_active rounds (v', Woke u # l1) = Some (x, (w', l'))" for v s stop w1 l1 v' u
    by (rule within_trans [OF within_event [OF _ _ seen [OF that(1)]] Suc.IH [OF that(2)]]) simp_all
  from Suc.prems show ?case
    by (auto simp: traced_calls split: prod.splits if_splits wakeup.splits dest: seen woke again)
qed simp

lemma resume_connect_within:
  assumes r: "resume_connect (traced io) initial was_active (w, l) = (r, (w', l'))"
    and l: "l = AskedBackend LIFECYCLE_CLIENT_ID ''connection.observe'' (jobj []) # l0"
  shows "within (\<lambda>s. resume_interrupted s initial) (\<not> was_active) 1 0 l l'"
proof -
  let ?P = "\<lambda>s. resume_interrupted s initial" and ?b = "\<not> was_active"
  have go: "within ?P ?b 1 0 l l3" if "in_order ?P ?b l2" "within ?P ?b 0 0 l l2"
      "resolve_and_connect (traced io) LIFECYCLE_CLIENT_ID sel (w2, l2) = (x, (w3, l3))" for l2 sel w2 x w3 l3
    using resolve_and_connect_within [OF that(1), of io LIFECYCLE_CLIENT_ID sel w2] that(3)
    by (intro within_trans [OF that(2)]) auto
  have asks: "within ?P ?b 1 0 l l3" if "resolve_and_connect (traced io) LIFECYCLE_CLIENT_ID sel (w2, SawState s' # SawState s # l) = (x, (w3, l3))"
      "was_active" "\<not> vpn_is_active s" "\<not> resume_interrupted s' initial" for s s' sel w2 x w3 l3
    by (rule go [OF _ _ that(1)]) (use that in \<open>simp_all add: l in_order_seen\<close>)
  have preferred: "within ?P ?b 1 0 l l3"
    if "resolve_and_connect (traced io) LIFECYCLE_CLIENT_ID sel (w2, SawEnabled True # SawState s' # SawState s # l) = (x, (w3, l3))"
      "\<not> vpn_is_active s" "\<not> resume_interrupted s' initial" for s s' sel w2 x w3 l3
    by (rule go [OF _ _ that(1)]) (use that in \<open>simp_all add: l in_order_seen\<close>)
  show ?thesis
  proof (cases was_active)
    case True
    then have on: "was_active = True" by simp
    note asks = asks [unfolded on not_True_eq_False One_nat_def, OF _ TrueI]
    show ?thesis
      using r unfolding on resume_connect_def unwanted_def
      by (auto simp: traced_calls split: prod.splits if_splits sum.splits dest!: asks)
  next
    case False
    then have off: "was_active = False" by simp
    note preferred = preferred [unfolded off not_False_eq_True One_nat_def]
    show ?thesis
      using r unfolding off resume_connect_def unwanted_def
      by (auto simp: traced_calls split: prod.splits if_splits sum.splits dest!: preferred)
  qed
qed

lemma resume_once_within:
  "resume_once (traced io) initial was_active (w, l) = (r, (w', l')) \<Longrightarrow> within (\<lambda>s. resume_interrupted s initial) (\<not> was_active) 1 0 l l'"
proof -
  let ?P = "\<lambda>s. resume_interrupted s initial" and ?b = "\<not> was_active"
  let ?observe = "AskedBackend LIFECYCLE_CLIENT_ID ''connection.observe'' (jobj [])"
  have go: "within ?P ?b 1 0 l l'" if "within ?P ?b 0 0 l l1" "resume_connect (traced io) initial was_active (w1, ?observe # l1) = (r, (w', l'))"
    for w1 l1
    by (rule within_trans [OF _ resume_connect_within [OF that(2) refl], where n = 0 and t = 0]) (simp_all add: that(1))
  have looked: "within ?P ?b 0 0 l l1" if "unwanted (traced io) was_active (w1, SawState s1 # SawState s # l) = (stop, (w2, l1))" for s s1 w1 w2 stop l1
    by (rule within_trans [OF _ unwanted_within [OF that], where n = 0 and t = 0]) simp_all
  assume "resume_once (traced io) initial was_active (w, l) = (r, (w', l'))"
  then show ?thesis
    unfolding resume_once_def
    by (auto simp: traced_calls split: prod.splits if_splits sum.splits dest: go [OF looked, unfolded One_nat_def] intro!: within_event intro: within_mono [OF looked])
qed

lemma resume_attempts_within:
  "resume_attempts (traced io) initial was_active rounds delays (w, l) = Some (u, (w', l'))
    \<Longrightarrow> within (\<lambda>s. resume_interrupted s initial) (\<not> was_active) (length delays) (sum_list delays) l l'"
proof (induction delays arbitrary: w l)
  case (Cons delay delays)
  let ?P = "\<lambda>s. resume_interrupted s initial" and ?b = "\<not> was_active"
  let ?n = "length (delay # delays)" and ?t = "sum_list (delay # delays)"
  let ?pause = "if delay = 0 then Some (True, (w, l)) else resume_wait (traced io) initial was_active rounds (au_sleep (traced io) delay (w, l))"
  have pause: "within ?P ?b 0 delay l l1" if "?pause = Some (go, (w1, l1))" for go w1 l1
  proof (cases "delay = 0")
    case False
    have "within ?P ?b 0 (0 + delay) l (Slept delay # l)" by (rule within_sleep) simp
    moreover have "resume_wait (traced io) initial was_active rounds (au_sleep io delay w, Slept delay # l) = Some (go, (w1, l1))"
      using that False by (simp add: traced_calls)
    ultimately show ?thesis by (rule within_trans [OF _ resume_wait_within]) simp_all
  qed (use that in simp)
  have once: "within ?P ?b 1 delay l l2" if "?pause = Some (go, (w1, l1))"
      "resume_once (traced io) initial was_active (w1, l1) = (r, (w2, l2))" for go w1 l1 r w2 l2
    by (rule within_trans [OF pause [OF that(1)] resume_once_within [OF that(2)]]) simp_all
  obtain go w1 l1 where p: "?pause = Some (go, (w1, l1))" using Cons.prems by (cases ?pause) auto
  show ?case
  proof (cases go)
    case False
    then have "l' = l1" using Cons.prems p by simp
    then show ?thesis using within_mono [OF pause [OF p], of ?n ?t] by simp
  next
    case True
    obtain r w2 l2 where r: "resume_once (traced io) initial was_active (w1, l1) = (r, (w2, l2))" by (metis prod.exhaust)
    show ?thesis
    proof (cases r)
      case True
      then have "resume_attempts (traced io) initial was_active rounds delays (w2, l2) = Some (u, (w', l'))"
        using Cons.prems p r \<open>go\<close> by simp
      from Cons.IH [OF this] show ?thesis by (rule within_trans [OF once [OF p r]]) simp_all
    next
      case False
      then have "l' = l2" using Cons.prems p r \<open>go\<close> by simp
      then show ?thesis using within_mono [OF once [OF p r], of ?n ?t] by simp
    qed
  qed
qed simp

lemma within_start: "within P b n t [] l \<Longrightarrow> orderly P b l \<and> length (filter connects l) \<le> n \<and> sum_list (map slept l) \<le> t"
  by (simp add: within_def)

lemma delays [simp]: "length RESUME_RETRY_DELAYS = 6" "sum_list RESUME_RETRY_DELAYS = 30" "pauses 0 MAX_ATTEMPTS = 255"
  by (simp_all add: RESUME_RETRY_DELAYS_def MAX_ATTEMPTS_def retry_delay_def upt_rec push_bit_eq_mult)

text \<open>The operations that were recent when the state was first seen.\<close>

definition seen :: "auto_event list \<Rightarrow> state_snapshot list" where
  "seen l = [s. SawState s \<leftarrow> l]"

lemma seen_simps [simp]: "seen [] = []" "seen (SawState s # l) = s # seen l" "seen (SawEnabled b # l) = seen l" "seen (l @ k) = seen l @ seen k"
  by (simp_all add: seen_def)

definition baseline :: "auto_event list \<Rightarrow> string set" where
  "baseline l = (if seen l = [] then {} else recent_operation_ids (last (seen l)))"

lemma baseline_first: "baseline (l @ [SawState s, SawEnabled on]) = recent_operation_ids s"
  by (simp add: baseline_def)

lemma reconnect_within:
  assumes "reconnect_after_resume (traced io) rounds was_active (w, []) = Some (u, (w', l))"
  shows "orderly (\<lambda>s. resume_interrupted s (baseline l)) (\<not> was_active) l \<and> length (filter connects l) \<le> 6 \<and> sum_list (map slept l) \<le> 30"
proof (cases "should_reconnect was_active (fst (au_enabled io w))")
  case True
  obtain on w1 s w2 where run: "au_enabled io w = (on, w1)" "au_state io w1 = (s, w2)" by (metis prod.exhaust)
  let ?l = "[SawState s, SawEnabled on]" and ?P = "\<lambda>s'. resume_interrupted s' (recent_operation_ids s)"
  have "resume_attempts (traced io) (recent_operation_ids s) was_active rounds RESUME_RETRY_DELAYS (w2, ?l) = Some (u, (w', l))"
    using assms True by (simp add: reconnect_after_resume_def traced_calls run)
  from resume_attempts_within [OF this] have l: "within ?P (\<not> was_active) 6 30 ?l l" by simp
  then obtain new where "l = new @ ?l" by (auto simp: within_def)
  then have "baseline l = recent_operation_ids s" using baseline_first by metis
  then show ?thesis using l by (simp add: within_def)
next
  case False
  then show ?thesis using assms by (auto simp: reconnect_after_resume_def traced_calls split: prod.splits)
qed

section \<open>Returning\<close>

text \<open>The pending changes of the state: a wakeup by one of them uses it up, a look at the state or the preference makes no more of
  them, and fewer than \<open>rounds\<close> of them come before a timer fires.\<close>

definition timer_fires :: "'w auto_io \<Rightarrow> ('w \<Rightarrow> nat) \<Rightarrow> nat \<Rightarrow> bool" where
  "timer_fires io pending rounds \<longleftrightarrow>
     (\<forall>w w'. au_wait io w = (StateMoved, w') \<longrightarrow> pending w' < pending w)
     \<and> (\<forall>w. pending (snd (au_state io w)) \<le> pending w \<and> pending (snd (au_enabled io w)) \<le> pending w)
     \<and> (\<forall>n w. pending (au_sleep io n w) < rounds)"

lemma timer_firesD:
  assumes "timer_fires io pending rounds"
  shows "au_wait io w = (StateMoved, w') \<Longrightarrow> pending w' < pending w"
    and "au_state io w = (s, w') \<Longrightarrow> pending w' \<le> pending w"
    and "au_enabled io w = (b, w') \<Longrightarrow> pending w' \<le> pending w"
    and "pending (au_sleep io n w) < rounds"
  using assms by (auto simp: timer_fires_def dest: spec [of _ w])

lemma back_off_returns:
  assumes fires: "timer_fires io pending limit" shows "pending w < rounds \<Longrightarrow> back_off io initial rounds w \<noteq> None"
proof (induction rounds arbitrary: w)
  case (Suc rounds)
  have "back_off io initial rounds w4 \<noteq> None"
    if "au_state io w = (s, w1)" "au_enabled io w1 = (b, w2)" "au_state io w2 = (s', w3)" "au_wait io w3 = (StateMoved, w4)" for s b s' w1 w2 w3 w4
    using timer_firesD [OF fires] that Suc.prems by (intro Suc.IH) (metis leD less_Suc_eq_le linorder_not_le order.trans)
  then show ?case by (auto split: prod.split wakeup.split)
qed simp

lemma resume_wait_returns:
  assumes fires: "timer_fires io pending limit" shows "pending w < rounds \<Longrightarrow> resume_wait io initial was_active rounds w \<noteq> None"
proof (induction rounds arbitrary: w)
  case (Suc rounds)
  have look: "unwanted io was_active w1 = (stop, w2) \<Longrightarrow> pending w2 \<le> pending w1" for w1 w2 stop
    using timer_firesD(3) [OF fires] by (auto simp: unwanted_def split: if_splits prod.splits)
  have "resume_wait io initial was_active rounds w3 \<noteq> None"
    if "au_state io w = (s, w1)" "unwanted io was_active w1 = (stop, w2)" "au_wait io w2 = (StateMoved, w3)" for s stop w1 w2 w3
    using timer_firesD(1,2) [OF fires] look that Suc.prems by (intro Suc.IH) (metis leD less_Suc_eq_le linorder_not_le order.trans)
  then show ?case by (auto split: prod.split wakeup.split)
qed simp

lemma attempts_from_returns:
  assumes fires: "timer_fires io pending rounds" shows "attempts_from io initial rounds index left known w \<noteq> None"
proof (induction left arbitrary: index known w)
  case (Suc left)
  have "back_off io initial rounds (au_sleep io (retry_delay index) w4) \<noteq> None" for w4
    by (rule back_off_returns [OF fires timer_firesD(4) [OF fires]])
  note this [simp]
  show ?case using Suc.IH by (auto split: prod.split sum.split option.split)
qed simp

lemma resume_attempts_returns:
  assumes fires: "timer_fires io pending rounds" shows "resume_attempts io initial was_active rounds delays w \<noteq> None"
proof (induction delays arbitrary: w)
  case (Cons delay delays)
  have "resume_wait io initial was_active rounds (au_sleep io delay w) \<noteq> None"
    by (rule resume_wait_returns [OF fires timer_firesD(4) [OF fires]])
  then show ?case using Cons.IH by (auto split: prod.split bool.split option.split)
qed simp

lemma auto_attempt_returns: "timer_fires io pending rounds \<Longrightarrow> auto_attempt io initial rounds w \<noteq> None"
  by (simp add: auto_attempt_def attempts_from_returns)

lemma reconnect_returns: "timer_fires io pending rounds \<Longrightarrow> reconnect_after_resume io rounds was_active w \<noteq> None"
  by (simp add: reconnect_after_resume_def resume_attempts_returns del: not_None_eq split: prod.split)

section \<open>Stopping\<close>

text \<open>The watcher after a number of changes of the state.\<close>

fun auto_turns :: "'w auto_io \<Rightarrow> nat \<Rightarrow> nat \<Rightarrow> auto_state \<Rightarrow> 'w \<Rightarrow> (auto_state \<times> 'w) option" where
  "auto_turns io rounds 0 st w = Some (st, w)"
| "auto_turns io rounds (Suc n) st w =
     (case auto_turn io rounds st w of None \<Rightarrow> None | Some (st', w') \<Rightarrow> auto_turns io rounds n st' w')"

lemma auto_turns_returns: "timer_fires io pending rounds \<Longrightarrow> auto_turns io rounds n st w \<noteq> None"
proof (induction n arbitrary: st w)
  case (Suc n)
  have "auto_turn io rounds st w \<noteq> None"
    by (auto simp: auto_turn_def auto_attempt_returns [OF Suc.prems] split: prod.split option.split)
  then show ?case using Suc by (auto split: option.split)
qed simp

text \<open>The preference goes from off to on in a sequence of states, the oldest first.\<close>

fun switched_on :: "bool \<Rightarrow> state_snapshot list \<Rightarrow> bool" where
  "switched_on on [] \<longleftrightarrow> False"
| "switched_on on (s # ss) \<longleftrightarrow> cs_auto_connect (sn_store s) \<and> \<not> on \<or> switched_on (cs_auto_connect (sn_store s)) ss"

fun asks :: "auto_event \<Rightarrow> bool" where
  "asks (AskedBackend c m p) \<longleftrightarrow> True"
| "asks (AskedStore c m p) \<longleftrightarrow> True"
| "asks _ \<longleftrightarrow> False"

lemma auto_attempt_within:
  "auto_attempt (traced io) initial rounds (w, l) = Some (outcome, (w', l')) \<Longrightarrow> within (\<lambda>s. user_interrupted s initial) True 8 255 l l'"
  using attempts_from_within [of io initial rounds 0 MAX_ATTEMPTS False w l outcome w' l'] unfolding delays(3) auto_attempt_def
  by (simp add: MAX_ATTEMPTS_def)

lemma auto_turn_extends:
  assumes "auto_turn (traced io) rounds st (w, l) = Some (st', (w', l'))" shows "\<exists>new. l' = new @ SawState (fst (au_state io w)) # l"
proof -
  have "\<exists>new. l1 = new @ k" if "auto_attempt (traced io) initial rounds (v, k) = Some (outcome, (v', l1))" for initial v k outcome v' l1
    using auto_attempt_within [OF that] by (simp add: within_def)
  then show ?thesis using assms by (fastforce simp: auto_turn_def traced_calls split: prod.splits if_splits option.splits)
qed

lemma auto_turns_extends: "auto_turns (traced io) rounds n st (w, l) = Some (st', (w', l')) \<Longrightarrow> \<exists>new. l' = new @ l"
proof (induction n arbitrary: st w l)
  case (Suc n)
  then obtain st1 w1 l1 where "auto_turn (traced io) rounds st (w, l) = Some (st1, (w1, l1))"
      "auto_turns (traced io) rounds n st1 (w1, l1) = Some (st', (w', l'))"
    by (auto split: option.splits)
  then show ?case using Suc.IH auto_turn_extends by (metis append_assoc append_Cons append_Nil)
qed simp

lemma decide_stopped:
  assumes "as_stopped st" "decide s st = (st1, start)"
  shows "start \<longleftrightarrow> cs_auto_connect (sn_store s) \<and> \<not> as_auto_connect st"
    and "\<not> start \<Longrightarrow> as_stopped st1 \<and> as_auto_connect st1 = cs_auto_connect (sn_store s)"
  using assms by (auto simp: decide_def Let_def)

lemma stopped_stays:
  "auto_turns (traced io) rounds n st (w, l) = Some (st', (w', l')) \<Longrightarrow> as_stopped st
    \<Longrightarrow> \<exists>new. l' = new @ l \<and> (\<not> switched_on (as_auto_connect st) (rev (seen new)) \<longrightarrow> as_stopped st' \<and> (\<forall>e \<in> set new. \<not> asks e))"
proof (induction n arbitrary: st w l)
  case (Suc n)
  then obtain st1 w1 l1 where turn: "auto_turn (traced io) rounds st (w, l) = Some (st1, (w1, l1))"
      and rest: "auto_turns (traced io) rounds n st1 (w1, l1) = Some (st', (w', l'))"
    by (auto split: option.splits)
  obtain s w0 st0 start where s: "au_state io w = (s, w0)" "decide s st = (st0, start)" by (metis prod.exhaust)
  show ?case
  proof (cases start)
    case True
    from turn s obtain new where "l' = new @ SawState s # l"
      using auto_turn_extends [OF turn] auto_turns_extends [OF rest] by auto
    moreover have "switched_on (as_auto_connect st) (rev (seen (new @ [SawState s])))"
      using decide_stopped(1) [OF Suc.prems(2) s(2)] True by simp
    ultimately show ?thesis by (intro exI [of _ "new @ [SawState s]"]) simp
  next
    case False
    then have st1: "st1 = st0" "l1 = SawState s # l" using turn s by (auto simp: auto_turn_def traced_calls)
    have stop: "as_stopped st0" "as_auto_connect st0 = cs_auto_connect (sn_store s)" using decide_stopped(2) [OF Suc.prems(2) s(2) False] by auto
    from Suc.IH [OF rest [unfolded st1] stop(1)] obtain new where "l' = new @ SawState s # l"
      "\<not> switched_on (as_auto_connect st0) (rev (seen new)) \<longrightarrow> as_stopped st' \<and> (\<forall>e \<in> set new. \<not> asks e)" by auto
    then show ?thesis using stop(2) by (intro exI [of _ "new @ [SawState s]"]) auto
  qed
qed simp

section \<open>Properties\<close>

text \<open>A world with a signed-in account, the preference on and a server that refuses every connection, for now or for good; the state changes twice
  during every pause.\<close>

definition refusing_state :: state_snapshot where
  "refusing_state = state_snapshot_default
     \<lparr>sn_account := account_state_default\<lparr>acc_status := SignedIn\<rparr>, sn_store := canonical_store_state_default\<lparr>cs_auto_connect := True\<rparr>\<rparr>"

definition refusing_io :: "bool \<Rightarrow> nat auto_io" where
  "refusing_io later =
     \<lparr>au_state = (\<lambda>w. (refusing_state, w)), au_enabled = (\<lambda>w. (True, w)),
      au_backend = (\<lambda>c m p w.
        (if m = ''connection.connect''
         then Inl \<lparr>be_code = ''network'', be_message = ''no answer'', be_details = None, be_retryable = later\<rparr>
         else Inr (jobj [(''logged_in'', JBool True)]), w)),
      au_store = (\<lambda>c m p w. (Inr (jobj []), w)), au_sleep = (\<lambda>n w. 2),
      au_wait = (\<lambda>w. if w = 0 then (TimeUp, 0) else (StateMoved, w - 1))\<rparr>"

lemma refusing_timer: "timer_fires (refusing_io later) (\<lambda>w. w) 3"
  by (auto simp: timer_fires_def refusing_io_def split: if_splits)


lemma refused_for_good:
  "\<exists>w log. auto_attempt (traced (refusing_io False)) {} 3 (0, []) = Some (Finished, (w, log)) \<and> length (filter connects log) = 1"
proof -
  have "(case auto_attempt (traced (refusing_io False)) {} 3 (0, []) of None \<Rightarrow> False
      | Some (outcome, (w, log)) \<Rightarrow> outcome = Finished \<and> length (filter connects log) = 1)"
    by code_simp
  then show ?thesis by (auto split: option.splits prod.splits)
qed



lemma resumed_and_refused:
  "\<exists>w log. reconnect_after_resume (traced (refusing_io False)) 3 True (0, []) = Some ((), (w, log)) \<and> length (filter connects log) = 1"
proof -
  have "(case reconnect_after_resume (traced (refusing_io False)) 3 True (0, []) of None \<Rightarrow> False
      | Some (_, (w, log)) \<Rightarrow> length (filter connects log) = 1)"
    by code_simp
  then show ?thesis by (auto split: option.splits prod.splits)
qed


text \<open>C34. Fewer than \<open>rounds\<close> changes of the state before a timer fires suffice for everything that connects by itself to return:
  the start, every turn of the watcher, every reconnection, every tick of the monitor and every sleep signal.\<close>

theorem automatic_connections_return:
  assumes "timer_fires io pending rounds"
  shows "auto_start io rounds w \<noteq> None \<and> auto_turns io rounds n st w \<noteq> None
    \<and> monitor_tick io rounds owned w \<noteq> None \<and> sleep_signal io rounds sleeping active w \<noteq> None"
proof (intro conjI)
  show "auto_turns io rounds n st w \<noteq> None" by (rule auto_turns_returns [OF assms])
  show "auto_start io rounds w \<noteq> None"
    by (auto simp: auto_start_def Let_def auto_attempt_returns [OF assms] split: prod.split option.split attempt_outcome.split)
  show "monitor_tick io rounds owned w \<noteq> None"
    by (auto simp: monitor_tick_def Let_def reconnect_returns [OF assms] split: prod.split sum.split option.split)
  show "sleep_signal io rounds sleeping active w \<noteq> None"
    by (auto simp: sleep_signal_def reconnect_returns [OF assms] split: prod.split option.split)
qed

theorem automatic_connections_return_witness:
  "timer_fires (refusing_io True) (\<lambda>w. w) 3 \<and> (\<exists>st w. auto_start (refusing_io True) 3 0 = Some (st, w))"
  using automatic_connections_return [OF refusing_timer, of True 0] refusing_timer by auto

text \<open>C35. Once the user has stopped the automatic connection, the watcher asks nothing of the backend or the store and stays stopped,
  over any number of changes, until the preference has gone from off to on.\<close>

theorem a_stopped_watcher_stays_stopped:
  assumes "auto_turns (traced io) rounds n st (w, []) = Some (st', (w', log))" "as_stopped st"
    and "\<not> switched_on (as_auto_connect st) (rev (seen log))"
  shows "as_stopped st' \<and> (\<forall>e \<in> set log. \<not> asks e)"
  using stopped_stays [OF assms(1,2)] assms(3) by auto

theorem a_stopped_watcher_stays_stopped_witness:
  "\<exists>st' w' log. auto_turns (traced (refusing_io True)) 3 2
      \<lparr>as_auto_connect = True, as_account = SignedOut, as_stopped = True, as_initial = {}\<rparr> (0, []) = Some (st', (w', log))
    \<and> seen log = [refusing_state, refusing_state] \<and> as_stopped st' \<and> (\<forall>e \<in> set log. \<not> asks e)"
proof -
  let ?st = "\<lambda>a. \<lparr>as_auto_connect = True, as_account = a, as_stopped = True, as_initial = {}\<rparr>"
  have "auto_turns (traced (refusing_io True)) 3 2 (?st SignedOut) (0, []) = Some (?st SignedIn, (0, [SawState refusing_state, SawState refusing_state]))"
    by (simp add: eval_nat_numeral auto_turn_def decide_def Let_def traced_calls refusing_io_def refusing_state_def)
  from a_stopped_watcher_stays_stopped [OF this] this show ?thesis by (auto simp: refusing_state_def)
qed

end
