(* ===== verification/Wifi_Monitor.thy ===== *)
theory Wifi_Monitor
  imports Network_Manager
begin

text \<open>
  The watch over the wireless network: \<open>wifi_security\<close> of \<^verbatim>\<open>native_backend/network.rs\<close> reads the active association from
  NetworkManager, \<open>monitor_wifi\<close> of \<^verbatim>\<open>native_backend/lifecycle.rs\<close> publishes what it means for the user.
\<close>

section \<open>Reading the association\<close>

record 'w wireless =
  wl_system_bus :: "('w, unit) dbus"
  wl_devices :: "('w, path list) dbus"
  wl_state :: "path \<Rightarrow> ('w, u32) dbus"
  wl_device_type :: "path \<Rightarrow> ('w, u32) dbus"
  wl_active_access_point :: "path \<Rightarrow> ('w, path) dbus"
  wl_interface :: "path \<Rightarrow> ('w, string) dbus"
  wl_ssid :: "path \<Rightarrow> ('w, string) dbus"
  wl_wpa_flags :: "path \<Rightarrow> ('w, u32) dbus"
  wl_rsn_flags :: "path \<Rightarrow> ('w, u32) dbus"

record wifi_security_observation =
  ws_identity :: string
  ws_secure :: bool

definition wifi_is_secure :: "u32 \<Rightarrow> u32 \<Rightarrow> bool" where
  "wifi_is_secure wpa_flags rsn_flags \<longleftrightarrow> wpa_flags \<noteq> 0 \<or> rsn_flags \<noteq> 0"

definition read_access_point :: "'w wireless \<Rightarrow> path \<Rightarrow> path \<Rightarrow> ('w, wifi_security_observation) action" where
  "read_access_point nm device access_point =
     abind (nm_try ''read the active Wi-Fi interface'' (wl_interface nm device)) (\<lambda>interface.
     abind (nm_try ''read the active Wi-Fi identity'' (wl_ssid nm access_point)) (\<lambda>ssid.
     abind (nm_try ''read Wi-Fi WPA capabilities'' (wl_wpa_flags nm access_point)) (\<lambda>wpa_flags.
     abind (nm_try ''read Wi-Fi RSN capabilities'' (wl_rsn_flags nm access_point)) (\<lambda>rsn_flags.
     aret \<lparr>ws_identity = interface @ [CHR 0x00] @ ssid, ws_secure = wifi_is_secure wpa_flags rsn_flags\<rparr>))))"

text \<open>State 100 is an activated device, type 2 a wireless one; the type is read only of an activated device.\<close>

definition read_device :: "'w wireless \<Rightarrow> path \<Rightarrow> ('w, wifi_security_observation option) action" where
  "read_device nm device =
     abind (nm_or 0 (wl_state nm device)) (\<lambda>state.
     if state \<noteq> 100 then aret None
     else abind (nm_or 0 (wl_device_type nm device)) (\<lambda>device_type.
     if device_type \<noteq> 2 then aret None
     else abind (nm_ok (wl_active_access_point nm device)) (\<lambda>access_point.
     case access_point of
       None \<Rightarrow> aret None
     | Some p \<Rightarrow> if p = DBUS_ROOT then aret None else abind (read_access_point nm device p) (\<lambda>ob. aret (Some ob)))))"

fun read_devices :: "'w wireless \<Rightarrow> path list \<Rightarrow> ('w, wifi_security_observation list) action" where
  "read_devices nm [] = aret []"
| "read_devices nm (device # devices) =
     abind (read_device nm device) (\<lambda>ob.
     abind (read_devices nm devices) (\<lambda>obs. aret (case ob of None \<Rightarrow> obs | Some x \<Rightarrow> x # obs)))"

definition first_observation :: "wifi_security_observation list \<Rightarrow> wifi_security_observation option" where
  "first_observation obs = (case sort_key ws_identity obs of [] \<Rightarrow> None | ob # _ \<Rightarrow> Some ob)"

definition wifi_security :: "'w wireless \<Rightarrow> ('w, wifi_security_observation option) action" where
  "wifi_security nm =
     abind (nm_try ''connect to NetworkManager'' (wl_system_bus nm)) (\<lambda>_.
     abind (nm_try ''list NetworkManager devices'' (wl_devices nm)) (\<lambda>devices.
     abind (read_devices nm devices) (\<lambda>obs. aret (first_observation obs))))"

section \<open>Publishing it\<close>

definition wifi_insecure :: "wifi_security_observation option \<Rightarrow> bool" where
  "wifi_insecure current = (case current of None \<Rightarrow> False | Some ob \<Rightarrow> \<not> ws_secure ob)"

definition wifi_publish :: "wifi_security_observation option \<Rightarrow> bool \<Rightarrow> state_snapshot \<Rightarrow> state_snapshot" where
  "wifi_publish current changed s =
     (let ns = sn_network_security s in
      s\<lparr>sn_network_security := \<lparr>ns_known = True, ns_wifi_connected = current \<noteq> None, ns_insecure_wifi = wifi_insecure current,
          ns_generation = (if changed then ns_generation ns + 1 else ns_generation ns)\<rparr>,
        sn_revision := sn_revision s + 1\<rparr>)"

text \<open>One tick: the outcome of a reading, the observation before it and the published state.\<close>

definition wifi_tick ::
  "wifi_security_observation option native_res \<Rightarrow> wifi_security_observation option \<times> state_snapshot
    \<Rightarrow> wifi_security_observation option \<times> state_snapshot" where
  "wifi_tick outcome st =
     (case st of (previous, s) \<Rightarrow>
      let ns = sn_network_security s in
      case outcome of
        Inr current \<Rightarrow>
          let changed = current \<noteq> previous;
              publish = (\<not> ns_known ns \<or> ns_wifi_connected ns \<noteq> (current \<noteq> None)
                \<or> ns_insecure_wifi ns \<noteq> wifi_insecure current \<or> changed) in
          (current, if publish then wifi_publish current changed s else s)
      | Inl _ \<Rightarrow>
          (previous,
           if ns_known ns then s\<lparr>sn_network_security := ns\<lparr>ns_known := False\<rparr>, sn_revision := sn_revision s + 1\<rparr> else s))"

section \<open>Laws\<close>

text \<open>What the published section says of the last observation.\<close>

definition wifi_agrees :: "wifi_security_observation option \<Rightarrow> network_security_state \<Rightarrow> bool" where
  "wifi_agrees previous ns \<longleftrightarrow> ns_wifi_connected ns = (previous \<noteq> None) \<and> ns_insecure_wifi ns = wifi_insecure previous"

lemma wifi_tick_success:
  assumes "wifi_tick (Inr current) (previous, s) = (previous', s')"
  shows "previous' = current" and "ns_known (sn_network_security s')" and "wifi_agrees current (sn_network_security s')"
    and "ns_generation (sn_network_security s')
      = (if current = previous then ns_generation (sn_network_security s) else ns_generation (sn_network_security s) + 1)"
  using assms by (auto simp: wifi_tick_def wifi_publish_def wifi_agrees_def Let_def split: if_splits)

lemma wifi_tick_failure:
  assumes "wifi_tick (Inl e) (previous, s) = (previous', s')"
  shows "previous' = previous" and "sn_network_security s' = (sn_network_security s)\<lparr>ns_known := False\<rparr>"
  using assms by (auto simp: wifi_tick_def Let_def split: if_splits)

text \<open>The revision moves exactly with what is published.\<close>

lemma wifi_tick_quiet:
  "wifi_tick outcome (previous, s) = (previous', s') \<Longrightarrow> s' = s \<longleftrightarrow> sn_revision s' = sn_revision s"
  by (cases outcome) (auto simp: wifi_tick_def wifi_publish_def Let_def split: if_splits)

text \<open>The observation is of an activated wireless device, the one with the least identity.\<close>

lemma first_observation_least:
  "first_observation obs = Some ob \<Longrightarrow> ob \<in> set obs \<and> (\<forall>x \<in> set obs. ws_identity ob \<le> ws_identity x)"
proof -
  assume "first_observation obs = Some ob"
  then obtain rest where s: "sort_key ws_identity obs = ob # rest" by (auto simp: first_observation_def split: list.splits)
  have "set (ob # rest) = set obs" "sorted (map ws_identity (ob # rest))" unfolding s [symmetric] by simp_all
  then show ?thesis by auto
qed

end
