(* ===== verification/Notifications.thy ===== *)
theory Notifications
  imports Wifi_Monitor Split_Proc
begin

text \<open>
  The notifications of \<^verbatim>\<open>agent/src/notifications.rs\<close>: what the user is told when the published state changes. The program that
  shows a notification is an argument: it is given its arguments and answers with success and its output, or cannot be run.
\<close>

section \<open>Texts\<close>

record notification_texts =
  nc_insecure_wifi_summary :: string
  nc_insecure_wifi_body :: string
  nc_port_forwarding_summary :: string
  nc_port_forwarding_body :: string
  nc_p2p_detected_summary :: string
  nc_p2p_detected_body :: string
  nc_connecting_summary :: string
  nc_connecting_body :: string
  nc_connected_summary :: string
  nc_connected_body :: string
  nc_disconnected_summary :: string
  nc_disconnected_body :: string
  nc_connection_error_summary :: string
  nc_connection_error_body :: string
  nc_two_factor_summary :: string
  nc_two_factor_body :: string
  nc_security_key_pin_summary :: string
  nc_security_key_pin_body :: string
  nc_touch_security_key_summary :: string
  nc_touch_security_key_body :: string
  nc_attention_summary :: string
  nc_attention_body :: string
  nc_operation_failed_summary :: string
  nc_operation_failed_body :: string
  nc_secure_server :: string

definition ENGLISH_NOTIFICATIONS :: notification_texts where
  "ENGLISH_NOTIFICATIONS =
     \<lparr>nc_insecure_wifi_summary = ''The Wi-Fi network is not secure'',
      nc_insecure_wifi_body = ''This network does not use WPA encryption. Connect to Proton VPN to protect your traffic.'',
      nc_port_forwarding_summary = ''Port forwarding is active'',
      nc_port_forwarding_body = ''Proton VPN assigned port {port}.'',
      nc_p2p_detected_summary = ''P2P traffic detected'',
      nc_p2p_detected_body = ''This server does not allow P2P for your plan. Connect to a P2P server.'',
      nc_connecting_summary = ''Proton VPN is connecting'',
      nc_connecting_body = ''Preparing a secure connection'' @ [CHR 0xE2, CHR 0x80, CHR 0xA6],
      nc_connected_summary = ''Proton VPN is connected'',
      nc_connected_body = ''Connected to {destination}'',
      nc_disconnected_summary = ''Proton VPN is disconnected'',
      nc_disconnected_body = ''Traffic is no longer using the VPN tunnel.'',
      nc_connection_error_summary = ''Proton VPN connection error'',
      nc_connection_error_body = ''Open the panel to review the error and try again.'',
      nc_two_factor_summary = ''Two-factor authentication'',
      nc_two_factor_body = ''Proton VPN is waiting for your code in the panel.'',
      nc_security_key_pin_summary = ''Your security key needs a PIN'',
      nc_security_key_pin_body = ''Return to the Proton VPN panel to enter it.'',
      nc_touch_security_key_summary = ''Touch your security key'',
      nc_touch_security_key_body = ''Authentication is continuing in the Proton VPN panel.'',
      nc_attention_summary = ''Proton VPN needs your attention'',
      nc_attention_body = ''Open the panel to continue authentication.'',
      nc_operation_failed_summary = ''Proton VPN operation failed'',
      nc_operation_failed_body = ''Open the panel to review the error and try again.'',
      nc_secure_server = ''a secure server''\<rparr>"

definition SPANISH_NOTIFICATIONS :: notification_texts where
  "SPANISH_NOTIFICATIONS =
     \<lparr>nc_insecure_wifi_summary = ''La red Wi-Fi no es segura'',
      nc_insecure_wifi_body = ''Esta red no usa cifrado WPA. Con'' @ [CHR 0xC3, CHR 0xA9] @ ''ctate a Proton VPN para proteger tu tr'' @ [CHR 0xC3, CHR 0xA1] @ ''fico.'',
      nc_port_forwarding_summary = ''Reenv'' @ [CHR 0xC3, CHR 0xAD] @ ''o de puertos activo'',
      nc_port_forwarding_body = ''Proton VPN asign'' @ [CHR 0xC3, CHR 0xB3] @ '' el puerto {port}.'',
      nc_p2p_detected_summary = ''Tr'' @ [CHR 0xC3, CHR 0xA1] @ ''fico P2P detectado'',
      nc_p2p_detected_body = ''Este servidor no permite P2P para tu plan. Con'' @ [CHR 0xC3, CHR 0xA9] @ ''ctate a un servidor P2P.'',
      nc_connecting_summary = ''Proton VPN est'' @ [CHR 0xC3, CHR 0xA1] @ '' conectando'',
      nc_connecting_body = ''Preparando una conexi'' @ [CHR 0xC3, CHR 0xB3] @ ''n segura'' @ [CHR 0xE2, CHR 0x80, CHR 0xA6],
      nc_connected_summary = ''Proton VPN est'' @ [CHR 0xC3, CHR 0xA1] @ '' conectado'',
      nc_connected_body = ''Conectado a {destination}'',
      nc_disconnected_summary = ''Proton VPN est'' @ [CHR 0xC3, CHR 0xA1] @ '' desconectado'',
      nc_disconnected_body = ''El tr'' @ [CHR 0xC3, CHR 0xA1] @ ''fico ya no usa el t'' @ [CHR 0xC3, CHR 0xBA] @ ''nel VPN.'',
      nc_connection_error_summary = ''Error de conexi'' @ [CHR 0xC3, CHR 0xB3] @ ''n de Proton VPN'',
      nc_connection_error_body = ''Abre el panel para ver el error y volver a intentarlo.'',
      nc_two_factor_summary = ''Verificaci'' @ [CHR 0xC3, CHR 0xB3] @ ''n en dos pasos'',
      nc_two_factor_body = ''Proton VPN est'' @ [CHR 0xC3, CHR 0xA1] @ '' esperando tu c'' @ [CHR 0xC3, CHR 0xB3] @ ''digo en el panel.'',
      nc_security_key_pin_summary = ''Tu llave necesita un PIN'',
      nc_security_key_pin_body = ''Vuelve al panel de Proton VPN para ingresarlo.'',
      nc_touch_security_key_summary = ''Toca tu llave de seguridad'',
      nc_touch_security_key_body = ''La autenticaci'' @ [CHR 0xC3, CHR 0xB3] @ ''n contin'' @ [CHR 0xC3, CHR 0xBA] @ ''a en el panel de Proton VPN.'',
      nc_attention_summary = ''Proton VPN necesita tu atenci'' @ [CHR 0xC3, CHR 0xB3] @ ''n'',
      nc_attention_body = ''Abre el panel para continuar la autenticaci'' @ [CHR 0xC3, CHR 0xB3] @ ''n.'',
      nc_operation_failed_summary = ''La operaci'' @ [CHR 0xC3, CHR 0xB3] @ ''n de Proton VPN fall'' @ [CHR 0xC3, CHR 0xB3],
      nc_operation_failed_body = ''Abre el panel para revisar el error y volver a intentarlo.'',
      nc_secure_server = ''un servidor seguro''\<rparr>"

definition notification_catalog :: "string \<Rightarrow> notification_texts" where
  "notification_catalog locale =
     (if to_ascii_lowercase (takeWhile (\<lambda>c. c \<noteq> CHR ''-'' \<and> c \<noteq> CHR ''_'') locale) = ''es''
      then SPANISH_NOTIFICATIONS else ENGLISH_NOTIFICATIONS)"

text \<open>\<open>str::replace\<close> with a pattern that is not empty.\<close>

fun replace_all :: "string \<Rightarrow> string \<Rightarrow> string \<Rightarrow> string" where
  "replace_all p r [] = []"
| "replace_all p r (c # s) =
     (if starts_with p (c # s) then r @ replace_all p r (drop (length p - 1) s) else c # replace_all p r s)"

section \<open>Showing a notification\<close>

datatype status_icon = IconInformation | IconDisconnected | IconConnecting | IconConnected

fun icon_file_name :: "status_icon \<Rightarrow> string" where
  "icon_file_name IconInformation = ''ic_vpn_status_information.webp''"
| "icon_file_name IconDisconnected = ''ic_vpn_status_disconnected.webp''"
| "icon_file_name IconConnecting = ''ic_vpn_status_connecting.webp''"
| "icon_file_name IconConnected = ''ic_vpn_status_connected.webp''"

record notification_message =
  nm_icon :: status_icon
  nm_urgency :: string
  nm_summary :: string
  nm_body :: string

definition NOTIFICATION_OPEN_ACTION :: string where
  "NOTIFICATION_OPEN_ACTION = ''omarchy-shell shell summon proton.omarchy '' @ [CHR 0x27] @ ''{}'' @ [CHR 0x27]"

definition path_join :: "string \<Rightarrow> string \<Rightarrow> string" where
  "path_join dir name = (if dir = [] then name else if last dir = CHR ''/'' then dir @ name else dir @ ''/'' @ name)"

definition notification_args :: "string \<Rightarrow> u32 option \<Rightarrow> notification_message \<Rightarrow> string list" where
  "notification_args icon_dir replacement_id message =
     [''--app-name'', ''Proton VPN'', ''--image'', path_join icon_dir (icon_file_name (nm_icon message)),
      ''--urgency'', nm_urgency message, ''--exec'', NOTIFICATION_OPEN_ACTION, nm_summary message, nm_body message,
      ''-p'', ''-t'', ''7000'']
     @ (case replacement_id of None \<Rightarrow> [] | Some n \<Rightarrow> [''-r'', dec (unat n)])"

text \<open>The program: \<open>None\<close> when it cannot be run, else whether it succeeded and what it printed.\<close>

type_synonym 'w show_program = "string \<Rightarrow> string list \<Rightarrow> 'w \<Rightarrow> (bool \<times> string) option \<times> 'w"

definition send_notification ::
  "'w show_program \<Rightarrow> string \<Rightarrow> string \<Rightarrow> u32 option \<Rightarrow> notification_message \<Rightarrow> 'w \<Rightarrow> u32 option \<times> 'w" where
  "send_notification show_it command_path icon_dir replacement_id message w =
     (case show_it command_path (notification_args icon_dir replacement_id message) w of
        (None, w') \<Rightarrow> (None, w')
      | (Some (success, stdout), w') \<Rightarrow> (if success then parse_u32 (trim stdout) else None, w'))"

section \<open>The emitter\<close>

record notification_emitter =
  em_command :: string
  em_icon_dir :: string
  em_connection_id :: "u32 option"
  em_general_id :: "u32 option"
  em_last_connection_status :: connection_status
  em_last_connection_signature :: string
  em_last_connection_error_code :: string
  em_last_forwarded_port :: "u16 option"
  em_last_network_generation :: u64
  em_last_operation_id :: string
  em_last_attention_stage :: string

definition connection_signature :: "state_snapshot \<Rightarrow> string" where
  "connection_signature snapshot =
     (let c = sn_connection snapshot in
      unwrap_or [] (cn_country_code c) @ '':'' @ unwrap_or [] (cn_server_name c) @ '':'' @ unwrap_or [] (cn_protocol c))"

definition emitter_new :: "string \<Rightarrow> string \<Rightarrow> state_snapshot \<Rightarrow> notification_emitter" where
  "emitter_new command icon_dir initial =
     \<lparr>em_command = command, em_icon_dir = icon_dir, em_connection_id = None, em_general_id = None,
      em_last_connection_status = cn_status (sn_connection initial),
      em_last_connection_signature = connection_signature initial,
      em_last_connection_error_code = unwrap_or [] (cn_error_code (sn_connection initial)),
      em_last_forwarded_port = pf_active_port (ft_port_forwarding (sn_features initial)),
      em_last_network_generation = ns_generation (sn_network_security initial),
      em_last_operation_id = (case os_recent (sn_operations initial) of [] \<Rightarrow> [] | r # _ \<Rightarrow> op_id r),
      em_last_attention_stage = []\<rparr>"

definition or_else :: "'a option \<Rightarrow> 'a option \<Rightarrow> 'a option" where
  "or_else a b = (case a of None \<Rightarrow> b | Some _ \<Rightarrow> a)"

definition filled :: "string option \<Rightarrow> string option" where
  "filled v = (case v of None \<Rightarrow> None | Some s \<Rightarrow> if s = [] then None else v)"

definition connection_destination :: "state_snapshot \<Rightarrow> notification_texts \<Rightarrow> string" where
  "connection_destination snapshot texts =
     (let c = sn_connection snapshot in
      unwrap_or (nc_secure_server texts)
        (or_else (filled (cn_country_name c)) (or_else (filled (cn_country_code c)) (filled (cn_server_name c)))))"

definition is_connection_operation :: "operation_record \<Rightarrow> bool" where
  "is_connection_operation operation \<longleftrightarrow> op_domain operation = TunnelConfiguration \<and> starts_with ''connection.'' (op_kind operation)"

text \<open>A notification in the place of the last one of its group.\<close>

definition notify_general ::
  "'w show_program \<Rightarrow> notification_message \<Rightarrow> notification_emitter \<times> 'w \<Rightarrow> notification_emitter \<times> 'w" where
  "notify_general show_it message ew =
     (case ew of (em, w) \<Rightarrow>
      case send_notification show_it (em_command em) (em_icon_dir em) (em_general_id em) message w of (sent, w') \<Rightarrow>
      (em\<lparr>em_general_id := or_else sent (em_general_id em)\<rparr>, w'))"

definition notify_connection ::
  "'w show_program \<Rightarrow> notification_message \<Rightarrow> notification_emitter \<times> 'w \<Rightarrow> notification_emitter \<times> 'w" where
  "notify_connection show_it message ew =
     (case ew of (em, w) \<Rightarrow>
      case send_notification show_it (em_command em) (em_icon_dir em) (em_connection_id em) message w of (sent, w') \<Rightarrow>
      (em\<lparr>em_connection_id := or_else sent (em_connection_id em)\<rparr>, w'))"

definition unprotected :: "state_snapshot \<Rightarrow> bool" where
  "unprotected s \<longleftrightarrow> cn_status (sn_connection s) \<noteq> connection_status.Connecting \<and> cn_status (sn_connection s) \<noteq> connection_status.Connected"

definition observe_network_security ::
  "'w show_program \<Rightarrow> state_snapshot \<Rightarrow> string \<Rightarrow> bool \<Rightarrow> notification_emitter \<times> 'w \<Rightarrow> notification_emitter \<times> 'w" where
  "observe_network_security show_it snapshot locale is_enabled ew =
     (case ew of (em, w) \<Rightarrow>
      let ns = sn_network_security snapshot; generation = ns_generation ns;
          changed = generation \<noteq> em_last_network_generation em in
      if \<not> changed \<or> \<not> is_enabled \<or> \<not> ns_known ns \<or> \<not> ns_wifi_connected ns \<or> \<not> ns_insecure_wifi ns
      then (if changed \<and> (\<not> ns_wifi_connected ns \<or> \<not> ns_insecure_wifi ns)
            then (em\<lparr>em_last_network_generation := generation\<rparr>, w) else (em, w))
      else if \<not> unprotected snapshot then (em, w)
      else
        let texts = notification_catalog locale in
        notify_general show_it
          \<lparr>nm_icon = IconInformation, nm_urgency = ''critical'', nm_summary = nc_insecure_wifi_summary texts,
           nm_body = nc_insecure_wifi_body texts\<rparr>
          (em\<lparr>em_last_network_generation := generation\<rparr>, w))"

definition observe_port_forwarding ::
  "'w show_program \<Rightarrow> state_snapshot \<Rightarrow> string \<Rightarrow> bool \<Rightarrow> notification_emitter \<times> 'w \<Rightarrow> notification_emitter \<times> 'w" where
  "observe_port_forwarding show_it snapshot locale is_enabled ew =
     (case ew of (em, w) \<Rightarrow>
      let active = pf_active_port (ft_port_forwarding (sn_features snapshot)); changed = active \<noteq> em_last_forwarded_port em;
          em' = em\<lparr>em_last_forwarded_port := active\<rparr>; texts = notification_catalog locale in
      case active of
        None \<Rightarrow> (em', w)
      | Some port \<Rightarrow>
          if \<not> (changed \<and> is_enabled) then (em', w)
          else notify_general show_it
            \<lparr>nm_icon = IconInformation, nm_urgency = ''normal'', nm_summary = nc_port_forwarding_summary texts,
             nm_body = replace_all ''{port}'' (dec (unat port)) (nc_port_forwarding_body texts)\<rparr>
            (em', w))"

text \<open>The message of a change of the connection: before and after the change, and what else is new.\<close>

definition connection_message ::
  "notification_texts \<Rightarrow> state_snapshot \<Rightarrow> connection_status \<Rightarrow> bool \<Rightarrow> bool \<Rightarrow> notification_message option" where
  "connection_message texts snapshot previous details_changed restriction_changed =
     (let status = cn_status (sn_connection snapshot); changed = status \<noteq> previous in
      if unwrap_or [] (cn_error_code (sn_connection snapshot)) = ''p2p_not_allowed'' \<and> restriction_changed
      then Some \<lparr>nm_icon = IconInformation, nm_urgency = ''critical'', nm_summary = nc_p2p_detected_summary texts,
        nm_body = nc_p2p_detected_body texts\<rparr>
      else case status of
        connection_status.Connecting \<Rightarrow>
          if changed
          then Some \<lparr>nm_icon = IconConnecting, nm_urgency = ''normal'', nm_summary = nc_connecting_summary texts,
            nm_body = nc_connecting_body texts\<rparr>
          else None
      | connection_status.Connected \<Rightarrow>
          if changed \<or> details_changed
          then Some \<lparr>nm_icon = IconConnected, nm_urgency = ''normal'', nm_summary = nc_connected_summary texts,
            nm_body = replace_all ''{destination}'' (connection_destination snapshot texts) (nc_connected_body texts)\<rparr>
          else None
      | connection_status.Disconnected \<Rightarrow>
          if changed \<and> previous \<in> {connection_status.Connecting, connection_status.Connected, ConnError}
          then Some \<lparr>nm_icon = IconDisconnected, nm_urgency = ''normal'', nm_summary = nc_disconnected_summary texts,
            nm_body = nc_disconnected_body texts\<rparr>
          else None
      | ConnError \<Rightarrow>
          if changed
          then Some \<lparr>nm_icon = IconDisconnected, nm_urgency = ''critical'', nm_summary = nc_connection_error_summary texts,
            nm_body = nc_connection_error_body texts\<rparr>
          else None
      | ConnUnknown \<Rightarrow> None)"

definition observe_connection ::
  "'w show_program \<Rightarrow> state_snapshot \<Rightarrow> string \<Rightarrow> bool \<Rightarrow> notification_emitter \<times> 'w \<Rightarrow> notification_emitter \<times> 'w" where
  "observe_connection show_it snapshot locale is_enabled ew =
     (case ew of (em, w) \<Rightarrow>
      let signature = connection_signature snapshot; error_code = unwrap_or [] (cn_error_code (sn_connection snapshot));
          em' = em\<lparr>em_last_connection_status := cn_status (sn_connection snapshot), em_last_connection_signature := signature,
            em_last_connection_error_code := error_code\<rparr>;
          message = connection_message (notification_catalog locale) snapshot (em_last_connection_status em)
            (signature \<noteq> em_last_connection_signature em) (error_code \<noteq> em_last_connection_error_code em) in
      case message of
        Some m \<Rightarrow> if is_enabled then notify_connection show_it m (em', w) else (em', w)
      | None \<Rightarrow> (em', w))"

definition attention_stages :: "string list" where
  "attention_stages = [''auth.waiting_for_two_factor'', ''auth.security_key_pin_required'', ''auth.touch_security_key'',
     ''auth.waiting_for_human_verification'', ''auth.waiting_for_sso'']"

definition attention_texts :: "notification_texts \<Rightarrow> string \<Rightarrow> string \<times> string" where
  "attention_texts texts stage =
     (if stage = ''auth.waiting_for_two_factor'' then (nc_two_factor_summary texts, nc_two_factor_body texts)
      else if stage = ''auth.security_key_pin_required'' then (nc_security_key_pin_summary texts, nc_security_key_pin_body texts)
      else if stage = ''auth.touch_security_key'' then (nc_touch_security_key_summary texts, nc_touch_security_key_body texts)
      else (nc_attention_summary texts, nc_attention_body texts))"

definition observe_attention_operation ::
  "'w show_program \<Rightarrow> state_snapshot \<Rightarrow> string \<Rightarrow> bool \<Rightarrow> notification_emitter \<times> 'w \<Rightarrow> notification_emitter \<times> 'w" where
  "observe_attention_operation show_it snapshot locale is_enabled ew =
     (case ew of (em, w) \<Rightarrow>
      case find (\<lambda>r. op_stage r \<in> set attention_stages) (os_active (sn_operations snapshot)) of
        None \<Rightarrow> (em\<lparr>em_last_attention_stage := []\<rparr>, w)
      | Some operation \<Rightarrow>
          let key = op_id operation @ '':'' @ op_stage operation; em' = em\<lparr>em_last_attention_stage := key\<rparr> in
          if key = em_last_attention_stage em then (em, w)
          else if \<not> is_enabled then (em', w)
          else case attention_texts (notification_catalog locale) (op_stage operation) of (summary, body) \<Rightarrow>
            notify_general show_it
              \<lparr>nm_icon = IconInformation, nm_urgency = ''normal'', nm_summary = summary, nm_body = body\<rparr> (em', w))"

definition observe_failed_operation ::
  "'w show_program \<Rightarrow> state_snapshot \<Rightarrow> string \<Rightarrow> bool \<Rightarrow> notification_emitter \<times> 'w \<Rightarrow> notification_emitter \<times> 'w" where
  "observe_failed_operation show_it snapshot locale is_enabled ew =
     (case ew of (em, w) \<Rightarrow>
      case os_recent (sn_operations snapshot) of
        [] \<Rightarrow> (em, w)
      | operation # _ \<Rightarrow>
          let em' = em\<lparr>em_last_operation_id := op_id operation\<rparr>; texts = notification_catalog locale in
          if op_id operation = em_last_operation_id em then (em, w)
          else if \<not> is_enabled \<or> op_state operation \<noteq> Failed \<or> is_connection_operation operation \<or> op_error operation = None
          then (em', w)
          else notify_general show_it
            \<lparr>nm_icon = IconInformation, nm_urgency = ''critical'', nm_summary = nc_operation_failed_summary texts,
             nm_body = nc_operation_failed_body texts\<rparr> (em', w))"

definition emitter_observe ::
  "'w show_program \<Rightarrow> state_snapshot \<Rightarrow> string \<Rightarrow> bool \<Rightarrow> bool \<Rightarrow> notification_emitter \<times> 'w \<Rightarrow> notification_emitter \<times> 'w" where
  "emitter_observe show_it snapshot locale is_enabled port_forwarding_enabled ew =
     observe_failed_operation show_it snapshot locale is_enabled
       (observe_attention_operation show_it snapshot locale is_enabled
         (observe_network_security show_it snapshot locale is_enabled
           (observe_port_forwarding show_it snapshot locale (is_enabled \<and> port_forwarding_enabled)
             (observe_connection show_it snapshot locale is_enabled ew))))"

section \<open>What was shown\<close>

text \<open>The program with a record of the arguments it was given, the latest first.\<close>

definition recorded :: "'w show_program \<Rightarrow> ('w \<times> string list list) show_program" where
  "recorded show_it command args wl = (case wl of (w, l) \<Rightarrow> case show_it command args w of (r, w') \<Rightarrow> (r, (w', args # l)))"

definition shown_summary :: "string list \<Rightarrow> string" where
  "shown_summary args = args ! 8"

definition is_wifi_warning :: "string list \<Rightarrow> bool" where
  "is_wifi_warning args \<longleftrightarrow>
     shown_summary args \<in> {nc_insecure_wifi_summary ENGLISH_NOTIFICATIONS, nc_insecure_wifi_summary SPANISH_NOTIFICATIONS}"

definition wifi_warnings :: "string list list \<Rightarrow> nat" where
  "wifi_warnings l = length (filter is_wifi_warning l)"

lemma wifi_warnings_simps [simp]:
  "wifi_warnings [] = 0" "wifi_warnings (args # l) = (if is_wifi_warning args then Suc (wifi_warnings l) else wifi_warnings l)"
  by (simp_all add: wifi_warnings_def)

lemma summary_of_args [simp]: "shown_summary (notification_args dir r m) = nm_summary m"
  by (simp add: shown_summary_def notification_args_def)

text \<open>Two ways to send, one effect on the record.\<close>

lemma notify_records:
  "notify_general (recorded show_it) m (em, (w, l)) = (em', (w', l')) \<Longrightarrow>
    wifi_warnings l' = wifi_warnings l + (if nm_summary m \<in> {nc_insecure_wifi_summary ENGLISH_NOTIFICATIONS, nc_insecure_wifi_summary SPANISH_NOTIFICATIONS} then 1 else 0)
    \<and> em_last_network_generation em' = em_last_network_generation em"
  "notify_connection (recorded show_it) m (em, (w, l)) = (em', (w', l')) \<Longrightarrow>
    wifi_warnings l' = wifi_warnings l + (if nm_summary m \<in> {nc_insecure_wifi_summary ENGLISH_NOTIFICATIONS, nc_insecure_wifi_summary SPANISH_NOTIFICATIONS} then 1 else 0)
    \<and> em_last_network_generation em' = em_last_network_generation em"
  by (auto simp: notify_general_def notify_connection_def send_notification_def recorded_def is_wifi_warning_def
      split: prod.splits option.splits)

lemma catalog_cases: "notification_catalog lang = ENGLISH_NOTIFICATIONS \<or> notification_catalog lang = SPANISH_NOTIFICATIONS"
  by (simp add: notification_catalog_def)

text \<open>No other summary reads like the warning.\<close>

definition other_summaries :: "notification_texts \<Rightarrow> string list" where
  "other_summaries texts =
     [nc_port_forwarding_summary texts, nc_p2p_detected_summary texts, nc_connecting_summary texts, nc_connected_summary texts,
      nc_disconnected_summary texts, nc_connection_error_summary texts, nc_two_factor_summary texts,
      nc_security_key_pin_summary texts, nc_touch_security_key_summary texts, nc_attention_summary texts,
      nc_operation_failed_summary texts]"

lemma other_summaries_checked:
  "\<forall>texts \<in> set [ENGLISH_NOTIFICATIONS, SPANISH_NOTIFICATIONS]. list_all
     (\<lambda>x. x \<noteq> nc_insecure_wifi_summary ENGLISH_NOTIFICATIONS \<and> x \<noteq> nc_insecure_wifi_summary SPANISH_NOTIFICATIONS) (other_summaries texts)"
  by code_simp

lemma other_summaries_differ:
  assumes "x \<in> set (other_summaries (notification_catalog lang))"
  shows "x \<noteq> nc_insecure_wifi_summary ENGLISH_NOTIFICATIONS" and "x \<noteq> nc_insecure_wifi_summary SPANISH_NOTIFICATIONS"
  using assms other_summaries_checked catalog_cases [of lang] unfolding list_all_iff by fastforce+

text \<open>An observation that sends no warning and keeps the generation.\<close>

definition quiet :: "notification_emitter \<times> ('w \<times> string list list) \<Rightarrow> notification_emitter \<times> ('w \<times> string list list) \<Rightarrow> bool" where
  "quiet a b \<longleftrightarrow> wifi_warnings (snd (snd b)) = wifi_warnings (snd (snd a))
     \<and> em_last_network_generation (fst b) = em_last_network_generation (fst a)"

lemma quiet_refl [simp]: "quiet a a"
  and quiet_keeps: "em_last_network_generation em' = em_last_network_generation em \<Longrightarrow> quiet (em, wl) (em', wl)"
  by (simp_all add: quiet_def)

lemma quiet_notify:
  assumes "nm_summary m \<in> set (other_summaries (notification_catalog lang))"
    and "em_last_network_generation em' = em_last_network_generation em"
  shows "quiet (em, wl) (notify_general (recorded show_it) m (em', wl))"
    and "quiet (em, wl) (notify_connection (recorded show_it) m (em', wl))"
  using other_summaries_differ [OF assms(1)] assms(2) notify_records [of show_it m em' "fst wl" "snd wl"]
  by (cases "notify_general (recorded show_it) m (em', wl)"; cases "notify_connection (recorded show_it) m (em', wl)"; force simp: quiet_def)+

lemma connection_message_summary:
  "connection_message (notification_catalog lang) s previous d r = Some m \<Longrightarrow> nm_summary m \<in> set (other_summaries (notification_catalog lang))"
  by (auto simp: connection_message_def Let_def other_summaries_def split: if_splits connection_status.splits)

lemma attention_summary: "fst (attention_texts texts stage) \<in> set (other_summaries texts)"
  by (auto simp: attention_texts_def other_summaries_def)

lemma observe_quiet:
  "quiet ew (observe_connection (recorded show_it) s lang on ew)"
  "quiet ew (observe_port_forwarding (recorded show_it) s lang on ew)"
  "quiet ew (observe_attention_operation (recorded show_it) s lang on ew)"
  "quiet ew (observe_failed_operation (recorded show_it) s lang on ew)"
proof -
  obtain em wl where ew: "ew = (em, wl)" by (rule prod.exhaust)
  show "quiet ew (observe_connection (recorded show_it) s lang on ew)"
    by (auto simp: ew observe_connection_def Let_def quiet_keeps split: option.split intro!: quiet_notify(2) dest: connection_message_summary)
  show "quiet ew (observe_port_forwarding (recorded show_it) s lang on ew)"
    by (auto simp: ew observe_port_forwarding_def Let_def quiet_keeps other_summaries_def split: option.split intro!: quiet_notify(1) [where lang = lang])
  have attention: "attention_texts t stage = (a, b) \<Longrightarrow> a \<in> set (other_summaries t)" for a b t stage
    using attention_summary [of t stage] by simp
  show "quiet ew (observe_attention_operation (recorded show_it) s lang on ew)"
    by (auto simp: ew observe_attention_operation_def Let_def quiet_keeps split: option.split prod.split
        intro!: quiet_notify(1) [where lang = lang] attention)
  show "quiet ew (observe_failed_operation (recorded show_it) s lang on ew)"
    by (auto simp: ew observe_failed_operation_def Let_def quiet_keeps other_summaries_def split: list.split
        intro!: quiet_notify(1) [where lang = lang])
qed

section \<open>Warnings about the wireless network\<close>

definition exposed :: "state_snapshot \<Rightarrow> bool" where
  "exposed s \<longleftrightarrow> ns_known (sn_network_security s) \<and> ns_wifi_connected (sn_network_security s)
     \<and> ns_insecure_wifi (sn_network_security s) \<and> unprotected s"

definition unreported :: "state_snapshot \<Rightarrow> notification_emitter \<Rightarrow> bool" where
  "unreported s em \<longleftrightarrow> ns_generation (sn_network_security s) \<noteq> em_last_network_generation em"

lemma observe_network_security_warns:
  assumes "observe_network_security (recorded show_it) s lang on (em, (w, l)) = (em', (w', l'))"
  shows "wifi_warnings l' = wifi_warnings l + (if on \<and> exposed s \<and> unreported s em then 1 else 0)"
    and "unreported s em' \<longrightarrow> unreported s em" and "on \<Longrightarrow> exposed s \<Longrightarrow> \<not> unreported s em'"
proof -
  have warning: "nc_insecure_wifi_summary (notification_catalog lang)
      \<in> {nc_insecure_wifi_summary ENGLISH_NOTIFICATIONS, nc_insecure_wifi_summary SPANISH_NOTIFICATIONS}"
    using catalog_cases [of lang] by auto
  show "wifi_warnings l' = wifi_warnings l + (if on \<and> exposed s \<and> unreported s em then 1 else 0)"
    and "unreported s em' \<longrightarrow> unreported s em" and "on \<Longrightarrow> exposed s \<Longrightarrow> \<not> unreported s em'"
    using assms warning
    by (auto simp: observe_network_security_def Let_def exposed_def unreported_def split: if_splits dest!: notify_records(1))
qed

lemma emitter_observe_warns:
  assumes "emitter_observe (recorded show_it) s lang on pf (em, (w, l)) = (em', (w', l'))"
  shows "wifi_warnings l' = wifi_warnings l + (if on \<and> exposed s \<and> unreported s em then 1 else 0)"
    and "unreported s em' \<longrightarrow> unreported s em" and "on \<Longrightarrow> exposed s \<Longrightarrow> \<not> unreported s em'"
proof -
  let ?show = "recorded show_it"
  define a where "a = observe_port_forwarding ?show s lang (on \<and> pf) (observe_connection ?show s lang on (em, (w, l)))"
  define b where "b = observe_network_security ?show s lang on a"
  have a: "quiet (em, (w, l)) a"
    using observe_quiet(1) [of "(em, (w, l))" show_it s lang on] observe_quiet(2) [of "observe_connection ?show s lang on (em, (w, l))" show_it s lang "on \<and> pf"]
    by (simp add: a_def quiet_def)
  have b: "quiet b (em', (w', l'))"
    using assms observe_quiet(3) [of b show_it s lang on] observe_quiet(4) [of "observe_attention_operation ?show s lang on b" show_it s lang on]
    by (simp add: emitter_observe_def quiet_def flip: a_def b_def)
  obtain em1 w1 l1 em2 w2 l2 where ab: "a = (em1, (w1, l1))" "b = (em2, (w2, l2))" by (metis prod.exhaust)
  note look = observe_network_security_warns [OF b_def [symmetric, unfolded ab]]
  have same: "unreported s em1 = unreported s em" "unreported s em2 = unreported s em'"
    using a b by (simp_all add: ab quiet_def unreported_def)
  show "wifi_warnings l' = wifi_warnings l + (if on \<and> exposed s \<and> unreported s em then 1 else 0)"
    using look(1) a b by (simp add: ab quiet_def same)
  show "unreported s em' \<longrightarrow> unreported s em" using look(2) by (simp add: same)
  show "on \<Longrightarrow> exposed s \<Longrightarrow> \<not> unreported s em'" using look(3) by (simp add: same)
qed

text \<open>The monitor, everything else that changes the state, and the emitter, in any order.\<close>

datatype desk_event =
    WifiTick "wifi_security_observation option native_res"
  | ElsewhereChanged state_snapshot
  | Looked string bool bool

record 'w desk =
  dk_previous :: "wifi_security_observation option"
  dk_state :: state_snapshot
  dk_emitter :: notification_emitter
  dk_world :: 'w
  dk_shown :: "string list list"

fun desk_step :: "'w show_program \<Rightarrow> desk_event \<Rightarrow> 'w desk \<Rightarrow> 'w desk" where
  "desk_step show_it (WifiTick outcome) d =
     (case wifi_tick outcome (dk_previous d, dk_state d) of (previous, s) \<Rightarrow> d\<lparr>dk_previous := previous, dk_state := s\<rparr>)"
| "desk_step show_it (ElsewhereChanged s) d = d\<lparr>dk_state := s\<lparr>sn_network_security := sn_network_security (dk_state d)\<rparr>\<rparr>"
| "desk_step show_it (Looked lang on pf) d =
     (case emitter_observe (recorded show_it) (dk_state d) lang on pf (dk_emitter d, (dk_world d, dk_shown d)) of
        (em, (w, l)) \<Rightarrow> d\<lparr>dk_emitter := em, dk_world := w, dk_shown := l\<rparr>)"

definition desk_start :: "string \<Rightarrow> string \<Rightarrow> state_snapshot \<Rightarrow> 'w \<Rightarrow> 'w desk" where
  "desk_start command icon_dir s w =
     \<lparr>dk_previous = None, dk_state = s, dk_emitter = emitter_new command icon_dir s, dk_world = w, dk_shown = []\<rparr>"

definition desk_run :: "'w show_program \<Rightarrow> desk_event list \<Rightarrow> 'w desk \<Rightarrow> 'w desk" where
  "desk_run show_it es d = fold (desk_step show_it) es d"

text \<open>How often the observed association changes.\<close>

fun association_changes :: "wifi_security_observation option \<Rightarrow> desk_event list \<Rightarrow> nat" where
  "association_changes previous [] = 0"
| "association_changes previous (WifiTick (Inr current) # es) = (if current \<noteq> previous then 1 else 0) + association_changes current es"
| "association_changes previous (_ # es) = association_changes previous es"

definition owed :: "'w desk \<Rightarrow> nat" where
  "owed d = (if unreported (dk_state d) (dk_emitter d) then 1 else 0)"

lemma desk_step_owes:
  "wifi_warnings (dk_shown (desk_step show_it e d)) + owed (desk_step show_it e d) + association_changes (dk_previous (desk_step show_it e d)) es
    \<le> wifi_warnings (dk_shown d) + owed d + association_changes (dk_previous d) (e # es)"
proof (cases e)
  case (WifiTick outcome)
  obtain p s where t: "wifi_tick outcome (dk_previous d, dk_state d) = (p, s)" by fastforce
  show ?thesis
  proof (cases outcome)
    case (Inl e')
    note t = t [unfolded Inl]
    show ?thesis using wifi_tick_failure [OF t] by (simp add: WifiTick Inl t owed_def unreported_def)
  next
    case (Inr current)
    note t = t [unfolded Inr]
    show ?thesis using wifi_tick_success [OF t] by (auto simp: WifiTick Inr t owed_def unreported_def)
  qed
next
  case (ElsewhereChanged s)
  then show ?thesis by (simp add: owed_def unreported_def)
next
  case (Looked lang on pf)
  obtain em w l where o: "emitter_observe (recorded show_it) (dk_state d) lang on pf (dk_emitter d, (dk_world d, dk_shown d)) = (em, (w, l))"
    by (metis prod.exhaust)
  show ?thesis using emitter_observe_warns [OF o] by (auto simp: Looked o owed_def)
qed

lemma desk_run_owes:
  "wifi_warnings (dk_shown (desk_run show_it es d)) \<le> wifi_warnings (dk_shown d) + owed d + association_changes (dk_previous d) es"
proof (induction es arbitrary: d)
  case (Cons e es)
  from Cons.IH [of "desk_step show_it e d"] desk_step_owes [of show_it e d es] show ?case by (simp add: desk_run_def)
qed (simp add: desk_run_def)


end
