(* ===== verification/Spec2Isabelle.thy ===== *)
theory Spec2Isabelle
  imports Store_Handle Store_Defaults Split_Policy Split_Service_Laws Catalog_Laws Catalog_Pages Backend_Laws Connection_Network Client_Session Auto_Connect Notifications
begin

text \<open>
  \<^bold>\<open>Proton VPN for Omarchy: agent core and split-tunneling daemon\<close>

  The repository holds two Rust programs. The \<^emph>\<open>agent\<close> (\<^verbatim>\<open>agent/src\<close>) runs as the user: it speaks a JSON Lines protocol
  with the user interface, runs one operation per conflict domain at a time, folds backend events into one state
  snapshot and keeps the user's profiles, recents and preferences in a file. The \<^emph>\<open>split-tunneling daemon\<close>
  (\<^verbatim>\<open>splitd/src\<close>) runs as root: it takes per-user rules over D-Bus, follows the processes they name, and makes the kernel
  mark the sockets that must bypass the tunnel, with eBPF programs it assembles itself and policy routes it installs with
  the \<open>ip\<close> tool.

  \<^bold>\<open>Library\<close>
  \<^item> \<open>Prelude\<close>: results (\<open>'e + 'a\<close> with \<open>rbind\<close> for \<open>?\<close>), byte strings with Rust's \<open>trim\<close>, \<open>split\<close>, case and number
    formatting, list helpers, and the locale \<open>step_system\<close> (an invariant of a step function holds in every run).
  \<^item> \<open>Json\<close>: \<open>serde_json::Value\<close> and ordered maps, with the locale \<open>object_map\<close> interpreted on sorted association lists.
  \<^item> \<open>Net_Addr\<close>, \<open>Net_Roundtrip\<close>: \<open>std::net\<close> address parsing and printing; printing then parsing is the identity
    for IPv4 and IPv6 (\<open>parse_show_ip\<close>).
  \<^item> \<open>Atomic_File\<close>: the three functions that replace a file, over a file system with a script of failing calls.

  \<^bold>\<open>Agent\<close>
  \<^item> \<open>Protocol\<close>: frames, operation records and the state snapshot of \<^verbatim>\<open>protocol/src/lib.rs\<close>.
  \<^item> \<open>Operations\<close>: the coordinator of \<^verbatim>\<open>agent/src/operations.rs\<close> as a state machine; running operations never conflict,
    identifiers are distinct, the published state shows the registry, cancellation reaches the running attempt.
  \<^item> \<open>Reducer\<close>: \<^verbatim>\<open>agent/src/state_reducer.rs\<close>; every event sequence leaves a consistent snapshot, replay is harmless,
    an event changes only its own section.
  \<^item> \<open>Store_Values\<close>, \<open>Store_Core\<close>, \<open>Store_Seed\<close>, \<open>Store_Handle\<close>: \<^verbatim>\<open>agent/src/store.rs\<close> from single values up to the
    handle that mutates, saves and publishes; \<open>Store_Laws\<close> and \<open>Store_Defaults\<close> hold the laws: saved profiles
    resolve, the default connection does not dangle, recents are trimmed by policy, defaults are seeded once, and a
    change is in memory, on disk and announced, or reported as failed.
  \<^item> \<open>Catalog\<close>, \<open>Catalog_Pages\<close>: \<^verbatim>\<open>native_backend/catalog.rs\<close>, \<^verbatim>\<open>server_validation.rs\<close> and the server types of
    \<^verbatim>\<open>models.rs\<close>: which server and endpoint a connection gets, search pages and the location overview. \<open>Catalog_Laws\<close>:
    the loop ends with a verified, eligible server of the best score exactly when there is one, and the endpoint was signed.
  \<^item> \<open>Backend_Settings\<close>: the settings of \<^verbatim>\<open>models.rs\<close> and the pure functions of \<^verbatim>\<open>native_backend/mod.rs\<close> on them;
    \<open>Backend_Settings_Laws\<close>: the settings of a connection are consistent, accepted rules pass the daemon's validation,
    the LAN ranges spare exactly the tunnel gateway.
  \<^item> \<open>Backend_Action\<close>: actions that may fail (\<open>abind\<close> for \<open>?\<close>, \<open>arescue\<close> for a handled error) or not end, with a calculus of
    triples (\<open>holds\<close>, \<open>pholds\<close>) and of termination (\<open>ends\<close>). \<open>Backend_Runtime\<close>: the handlers of \<^verbatim>\<open>native_backend/mod.rs\<close> that
    change settings, protection and the tunnel, over a record of the services they call. \<open>Backend_Laws\<close>: the locale
    \<open>settings_io\<close> of a settings store, interpreted on the file writer; the file follows the memory, a failed request changes
    no setting, and disconnecting never opens a leak.
  \<^item> \<open>Network_Profile\<close>, \<open>Network_Manager\<close>: \<^verbatim>\<open>native_backend/network.rs\<close>, the profiles with their keys, credential files and
    settings, and the dialogue with NetworkManager: observing, activating and removing the tunnel, the kill switch, the IPv6
    leak protection and the routes to the server. \<open>Network_Laws\<close>: while the mode calls for blocking, reconciling never
    opens the network whatever fails, leaves exactly the protection the mode asks for, and ends.
  \<^item> \<open>Backend_Connection\<close>: \<open>connection_connect\<close> from the choice of the server to the confirmation by the Local Agent
    (\<^verbatim>\<open>local_agent.rs\<close>), cancellation, rejection and observation. \<open>Connection_Laws\<close>: a failed attempt leaves no tunnel behind,
    every attempt ends, whatever the services answer. \<open>Connection_Network\<close> puts \<open>Network_Manager\<close> in the place of the
    services: no tunnel is ever lost from sight and a successful attempt is confirmed and verified.
  \<^item> \<open>Client_Session\<close>: \<^verbatim>\<open>agent/src/session.rs\<close>, one connection of a client as a state machine over its inputs (lines, finished
    requests, published states); every request is answered once and at most 32 run at a time.
  \<^item> \<open>Auto_Connect\<close>: \<^verbatim>\<open>agent/src/autoconnect.rs\<close> and the reconnections of \<^verbatim>\<open>native_backend/lifecycle.rs\<close>. The world is looked at
    through services that may answer differently each time; the laws speak of the trace of looks and requests: a connection is
    asked for only after looks that allow it, a bounded number of times, everything ends, and a stop by the user lasts.
  \<^item> \<open>Wifi_Monitor\<close>, \<open>Notifications\<close>: \<open>wifi_security\<close> and \<open>monitor_wifi\<close>, and \<^verbatim>\<open>agent/src/notifications.rs\<close>; an insecure
    network is reported once per association, exactly while nothing protects the user.

  \<^bold>\<open>Split-tunneling daemon\<close>
  \<^item> \<open>Bpf\<close>, \<open>Bpf_Exec\<close>: the instruction encoding, assembler and both programs of \<^verbatim>\<open>splitd/src/bpf.rs\<close>, run by the
    interpreter of its tests (\<^verbatim>\<open>splitd/src/bpf/execution_tests.rs\<close>), with bounds checks and a budget of 199 steps; the
    proofs show that 199 steps are enough for every input.
  \<^item> \<open>Split_Model\<close> (\<^verbatim>\<open>model.rs\<close>), \<open>Split_Proc\<close> (\<^verbatim>\<open>procfs.rs\<close>, \<^verbatim>\<open>proc_events.rs\<close>), \<open>Split_Tracking\<close> (\<open>build_tracking\<close>
    of \<^verbatim>\<open>engine.rs\<close>): configurations, process inspection, and which processes belong to a configured application; as many
    rounds as there are processes compute exactly the descent relation.
  \<^item> \<open>Split_Marker\<close>: the kernel maps of \<open>SocketMarker\<close>, call by call, with the roll back of a failed synchronisation;
    \<open>Split_Policy\<close> joins it with \<open>Bpf_Exec\<close>: what the program decides is what the configuration says.
  \<^item> \<open>Split_Routing\<close> (\<^verbatim>\<open>routing.rs\<close>), \<open>Split_Store\<close> (\<^verbatim>\<open>store.rs\<close>): bypass routes and the state file.
  \<^item> \<open>Split_Engine\<close> (\<^verbatim>\<open>engine.rs\<close>), \<open>Split_Service\<close> (\<^verbatim>\<open>main.rs\<close> and the background tasks): every operation with every
    failure branch, the bus methods with authorisation, the bounded event queue and the timer; \<open>Split_Engine_Laws\<close>
    and \<open>Split_Service_Laws\<close> hold their invariants.
  \<^item> This theory: properties of the whole daemon.

  \<^bold>\<open>Conventions\<close>
  A string is its list of UTF-8 bytes. A critical section under a lock is one step. Machine integers are words where the
  code computes with them. Failing calls are scripts: a list that says for each coming call whether it fails, so theorems
  quantify over all failures. Error texts of the operating system are dropped, error codes and texts the code makes itself
  are kept. Arguments of the model, with what the code relies on as named hypotheses: the \<open>ipnet\<close> crate (\<open>canonical_range\<close>,
  \<open>crate_ok\<close>), \<open>serde_json\<close> as a codec (\<open>codec_round_trip\<close>), the \<open>ip\<close> tool (\<open>ip_documented\<close>, \<open>ip_deletes\<close>), the kernel's
  helper calls and longest-prefix maps, clocks (\<open>clock_laws\<close>) and scans of \<^verbatim>\<open>/proc\<close>, signature checks and key derivation,
  NetworkManager as a record of its methods and properties (\<open>nm_documented\<close>, \<open>nm_readable\<close>, \<open>vpn_documented\<close>), the TLS channel to
  the Local Agent, and the refresh of the session before an attempt. The counter of connection attempts may be raised by other
  requests whenever it is looked at (\<open>co_arrivals\<close>). Fuel occurs where a loop searches a finite set (unused identifiers, copy
  names: the number of taken ones plus one is enough), in the loops over NetworkManager's connections (two rounds more than
  there are active connections are enough) and in the polling of a starting tunnel (361 rounds of 125 milliseconds exceed the
  limit of 45 seconds); the lemmas show it, and \<open>None\<close> stands for a loop that needed more. The pauses between automatic attempts
  are woken by every change of the state: they get more rounds than there are changes before the timer fires (\<open>timer_fires\<close>).

  \<^bold>\<open>Not modelled\<close>
  Of \<^verbatim>\<open>native_backend\<close>: the web API with its retries, alternative routing and the guest hole, login, two-factor and FIDO2
  dialogues, the keyring, token and certificate refresh, telemetry, support reports and diagnostics, the desktop application
  list and the subscription to the sleep signal; they are sequences of calls into crates, D-Bus services and HTTP endpoints outside the
  repository. The background watch of the Local Agent after a connection, its recovery when the agent starts, and the functions
  of \<^verbatim>\<open>network.rs\<close> that only read devices (default routes, name servers, conflicting interfaces). Events sent to the user
  interface are modelled where the reducer folds them, not where the backend sends them. The accepting socket,
  the program that shows notifications and the command-line entry points are input and output. In the daemon, the layouts of the \<open>bpf\<close> system call, opening the netlink
  socket, signal handling and the kernel self test.
\<close>

section \<open>The split-tunneling daemon\<close>

text \<open>C4. From its start, whatever requests, process events, lost events and timer ticks arrive, and however
  saving the state or changing the routing tables fails, as long as the \<open>bpf\<close> calls succeed the kernel is in
  step with memory after every input: marked are exactly the tracked processes to be excluded, the range and mode maps
  mirror the configurations and policies, and nothing is attached when there is no rule.\<close>

theorem kernel_stays_in_step:
  assumes "daemon_start es readable d = Some s" "en_faults d = []" "crate_ok (es_crate es)"
    and "state_load (es_crate es) (es_store es) readable (en_world d) = Inr l"
    and "rules_ok (es_crate es) (ld_configs l) (ld_policies l)"
  shows "let d' = dm_engine (fold (daemon_step es) inputs s) in
    case en_marker d' of
      None \<Rightarrow> \<not> has_policy d' \<and> en_tracked d' = []
    | Some mk \<Rightarrow> mirrors (es_crate es) (en_configs d') (en_policies d') mk
        \<and> set (mk_pid_map mk) = excluded_pids (en_tracked d')"
proof -
  have "daemon_ok es (fold (daemon_step es) inputs s)"
    using started(2) [OF assms(1,3-5,2)] by (rule kernel.run_inv)
  then show ?thesis by (auto simp: daemon_ok_def synced_def marks_ok_def Let_def split: option.splits)
qed


text \<open>C17. An accepted change of the rules survives a restart: when the service answers \<open>Done\<close> to a request that
  sets or clears a configuration or sets a destination policy, memory holds exactly the rules asked for, and reading the
  state file gives them back, with the bypass routes, unchanged.\<close>

theorem accepted_rules_survive_restart:
  assumes "daemon_start es readable d = Some s" "crate_ok (es_crate es)"
    and "state_load (es_crate es) (es_store es) readable (en_world d) = Inr l"
    and "rules_ok (es_crate es) (ld_configs l) (ld_policies l)"
    and "before = dm_engine (fold (daemon_step es) inputs s)" "serve es who req before = (after, Inr Done)"
    and "req \<in> {SetConfig uid vs, ClearConfig uid, SetDestinationPolicy uid ranges}"
    and store: "ss_path (es_store es) = Some path" "ss_tmp (es_store es) \<noteq> path"
    and codec: "codec_round_trip (ss_codec (es_store es)) (stored_of (en_configs after) (en_policies after) (en_bypass after))"
    and size: "length (sk_encode (ss_codec (es_store es)) (stored_of (en_configs after) (en_policies after) (en_bypass after)))
      < MAX_STATE_BYTES"
  shows "(en_configs after, en_policies after) = asked (es_crate es) req before
    \<and> state_load (es_crate es) (es_store es) True (en_world after)
      = Inr \<lparr>ld_configs = en_configs after, ld_policies = en_policies after, ld_bypass = en_bypass after\<rparr>"
proof -
  have inv: "rules_inv es (fold (daemon_step es) inputs s)"
    using started(1) [OF assms(1-4)] by (rule rules.run_inv)
  then have ok: "service_ok es before" "crate_ok (es_crate es)" using assms(5) by (simp_all add: rules_inv_def)
  have u: "subject req = Some uid" "\<forall>u e rs. req \<noteq> SetKillSwitchBypass u e rs" using assms(7) by auto
  have e: "effect es uid (fst (asked (es_crate es) req before)) (snd (asked (es_crate es) req before)) before (after, True)"
    using serve_effect [OF ok u(1), of who] assms(6) by simp
  obtain w where "state_save (es_store es) (en_configs after) (en_policies after) (en_bypass after) w = (en_world after, True)"
    using serve_saved [OF ok assms(6) u] by (auto simp: saved_def)
  moreover have "loadable (es_crate es) (en_configs after) (en_policies after) (en_bypass after)"
    using e service_loadable [of es after] by (simp add: effect_def)
  ultimately show ?thesis using e saved_state_loads [OF store _ _ codec size] by (auto simp: effect_def)
qed

text \<open>A daemon for the witnesses: a crate that knows one range, a user with a configuration and one process of the
  application.\<close>

definition one_range_crate :: ipnet_crate where
  "one_range_crate =
     (let n = \<lparr>net_address = V4 [192, 0, 2, 0], net_prefix = 24\<rparr> in
      \<lparr>ipnet_from_str = (\<lambda>s. if s = ''192.0.2.0/24'' then Some n else None),
       ipnet_trunc = (\<lambda>_. n), ipnet_to_string = (\<lambda>_. ''192.0.2.0/24'')\<rparr>)"

definition demo_rules :: split_config where
  "demo_rules = \<lparr>sp_mode = ModeExclude, sp_app_paths = [''/usr/bin/firefox''], sp_ip_ranges = [''192.0.2.0/24'']\<rparr>"

definition demo_codec :: state_codec where
  "demo_codec = \<lparr>sk_encode = (\<lambda>_. ''{}''), sk_decode = (\<lambda>_. Some (stored_of [(1000, demo_rules)] [] []))\<rparr>"

definition demo_setup :: "(string list list) engine_setup" where
  "demo_setup =
     \<lparr>es_crate = one_range_crate,
      es_store = \<lparr>ss_path = Some ''/s/state'', ss_dir = ''/s'', ss_tmp = ''/s/state.tmp'', ss_codec = demo_codec\<rparr>,
      es_tools = sample_ip, es_routing = True\<rparr>"

definition demo_scan :: "process_info list" where
  "demo_scan = [\<lparr>pi_uid = 1000, pi_pid = 4242, pi_ppid = 1, pi_identities = [''/usr/bin/firefox'']\<rparr>]"

definition demo_engine :: "(string list list) engine" where
  "demo_engine =
     \<lparr>en_configs = [], en_policies = [], en_marker = None, en_tracked = [], en_bypass = [],
      en_world = \<lparr>w_files = [], w_faults = []\<rparr>, en_faults = [], en_scans = [Some demo_scan, Some demo_scan], en_net = []\<rparr>"

definition demo_daemon :: "(string list list) daemon" where
  "demo_daemon = \<lparr>dm_engine = demo_engine, dm_queue = [], dm_dirty = False, dm_ticks = 0\<rparr>"

definition demo_request :: input where
  "demo_request = Request (User 1000) (SetConfig 1000 (config_to_dbus demo_rules))"

lemma one_range_crate_ok: "crate_ok one_range_crate"
proof -
  have t: "trimmed ''192.0.2.0/24''" "\<not> bad_value ''192.0.2.0/24''" by code_simp+
  show ?thesis
    by (auto simp: crate_ok_def canonical_range_def parse_ip_range_def one_range_crate_def Let_def t split: option.splits sum.splits)
qed

lemma demo_started: "daemon_start demo_setup True demo_engine = Some demo_daemon"
  by code_simp

lemma demo_loads: "state_load (es_crate demo_setup) (es_store demo_setup) True (en_world demo_engine) = Inr empty_state"
  by code_simp

lemma demo_hyps:
  "crate_ok (es_crate demo_setup)" "rules_ok (es_crate demo_setup) (ld_configs empty_state) (ld_policies empty_state)"
  "en_faults demo_engine = []"
  using one_range_crate_ok by (simp_all add: demo_setup_def empty_state_def rules_ok_def demo_engine_def)

theorem kernel_stays_in_step_witness:
  "\<exists>mk. en_marker (dm_engine (fold (daemon_step demo_setup) [demo_request] demo_daemon)) = Some mk
   \<and> set (mk_pid_map mk) = excluded_pids [(4242, \<lparr>tp_uid = 1000, tp_matched = True, tp_excluded = True\<rparr>)]"
proof -
  let ?d = "dm_engine (fold (daemon_step demo_setup) [demo_request] demo_daemon)"
  have "en_marker ?d \<noteq> None" "en_tracked ?d = [(4242, \<lparr>tp_uid = 1000, tp_matched = True, tp_excluded = True\<rparr>)]"
    by code_simp+
  then show ?thesis
    using kernel_stays_in_step [OF demo_started demo_hyps(3,1) demo_loads demo_hyps(2), of "[demo_request]"]
    by (auto simp: Let_def)
qed


theorem accepted_rules_survive_restart_witness:
  "\<exists>after. serve demo_setup (User 1000) (SetConfig 1000 (config_to_dbus demo_rules)) demo_engine = (after, Inr Done)
    \<and> state_load one_range_crate (es_store demo_setup) True (en_world after)
      = Inr \<lparr>ld_configs = [(1000, demo_rules)], ld_policies = [], ld_bypass = []\<rparr>"
proof -
  let ?req = "SetConfig 1000 (config_to_dbus demo_rules)"
  obtain after answer where r: "serve demo_setup (User 1000) ?req demo_engine = (after, answer)" by force
  have a: "snd (serve demo_setup (User 1000) ?req demo_engine) = Inr Done" by code_simp
  have "(let d = fst (serve demo_setup (User 1000) ?req demo_engine) in en_configs d = [(1000, demo_rules)]
      \<and> en_policies d = [] \<and> en_bypass d = [])" by code_simp
  then have d: "en_configs after = [(1000, demo_rules)]" "en_policies after = []" "en_bypass after = []"
    using r by (simp_all add: Let_def)
  have "demo_engine = dm_engine (fold (daemon_step demo_setup) [] demo_daemon)" by (simp add: demo_daemon_def)
  from accepted_rules_survive_restart [OF demo_started demo_hyps(1) demo_loads demo_hyps(2) this, of "User 1000" ?req after
      1000 "config_to_dbus demo_rules" "[]" "''/s/state''"] r a d
  show ?thesis
    by (auto simp: demo_setup_def demo_codec_def codec_round_trip_def MAX_STATE_BYTES_def)
qed

text \<open>C18. Lost process events are repaired in time. Every reception either queues all the events of the datagram or
  asks for a reconciliation. A daemon that was asked reconciles at its next timer tick, any daemon at one of its next six
  ticks, whatever happens in between; and that tick leaves the table of tracked processes equal to the one computed
  from a fresh scan, with exactly its excluded processes marked.\<close>

theorem lost_events_are_repaired:
  assumes "daemon_start es readable d = Some s" "en_faults d = []" "crate_ok (es_crate es)"
    and "state_load (es_crate es) (es_store es) readable (en_world d) = Inr l"
    and "rules_ok (es_crate es) (ld_configs l) (ld_policies l)"
    and "now = fold (daemon_step es) history s"
    and "6 \<le> ticks future \<or> dm_dirty now \<and> 0 < ticks future"
  shows "(\<forall>r. dm_dirty (receive r now) \<or> dm_queue (receive r now) = dm_queue now @ reported r)
    \<and> (\<exists>pre post. future = pre @ Tick # post
      \<and> (let d = dm_engine (fold (daemon_step es) pre now); d' = dm_engine (fold (daemon_step es) (pre @ [Tick]) now) in
         \<forall>ps. (\<exists>(uid, c) \<in> set (en_configs d). needs_process_tracking c) \<and> snd (next_scan d) = Some ps \<longrightarrow>
           en_tracked d' = build_tracking (en_configs d) ps
           \<and> (\<exists>mk. en_marker d' = Some mk \<and> set (mk_pid_map mk) = excluded_pids (build_tracking (en_configs d) ps))))"
proof -
  obtain pre post where f: "future = pre @ Tick # post" "tick_due (fold (daemon_step es) pre now)"
    using some_tick_due [OF assms(7), of es] by blast
  let ?s = "fold (daemon_step es) pre now"
  have now: "daemon_ok es now" using started(2) [OF assms(1,3-5,2)] kernel.run_inv assms(6) by blast
  then have s: "daemon_ok es ?s" by (rule kernel.run_inv)
  have s': "daemon_ok es (daemon_step es Tick ?s)" using s by (rule daemon_ok_step)
  have rules: "rules_ok (es_crate es) (en_configs (dm_engine ?s)) (en_policies (dm_engine ?s))"
    using s by (simp add: daemon_ok_def rules_inv_def service_ok_def)
  have fresh: "en_tracked (dm_engine (daemon_step es Tick ?s)) = build_tracking (en_configs (dm_engine ?s)) ps
      \<and> (\<exists>mk. en_marker (dm_engine (daemon_step es Tick ?s)) = Some mk
          \<and> set (mk_pid_map mk) = excluded_pids (build_tracking (en_configs (dm_engine ?s)) ps))"
    if n: "\<exists>(uid, c) \<in> set (en_configs (dm_engine ?s)). needs_process_tracking c" and p: "snd (next_scan (dm_engine ?s)) = Some ps" for ps
  proof -
    have t: "en_tracked (dm_engine (daemon_step es Tick ?s)) = build_tracking (en_configs (dm_engine ?s)) ps"
      using reconcile_fresh [OF _ _ _ rules_parse [OF assms(3) rules] n p] s rules f(2)
      by (simp add: daemon_step_def tick_engine daemon_ok_def rules_ok_def)
    have "en_configs (dm_engine (daemon_step es Tick ?s)) = en_configs (dm_engine ?s)"
      by (simp add: daemon_step_def tick_engine reconcile_frame)
    then have "has_policy (dm_engine (daemon_step es Tick ?s))"
      using n by (auto simp: has_policy_def needs_process_tracking_def has_rules_def)
    then show ?thesis using s' t by (auto simp: daemon_ok_def synced_def marks_ok_def split: option.splits)
  qed
  show ?thesis
    using f(1) fresh receive_reports by (intro conjI exI [of _ pre] exI [of _ post]) (auto simp: Let_def)
qed

theorem lost_events_are_repaired_witness:
  "\<exists>pre post. [Tick] = pre @ Tick # post
    \<and> en_tracked (dm_engine (fold (daemon_step demo_setup) (pre @ [Tick])
        (fold (daemon_step demo_setup) [demo_request, Receive RecvFails] demo_daemon)))
      = build_tracking [(1000, demo_rules)] demo_scan"
proof -
  let ?now = "fold (daemon_step demo_setup) [demo_request, Receive RecvFails] demo_daemon"
  have "dm_dirty ?now" by code_simp
  then have d: "6 \<le> ticks [Tick] \<or> dm_dirty ?now \<and> 0 < ticks [Tick]" by simp
  have c: "en_configs (dm_engine ?now) = [(1000, demo_rules)]" "needs_process_tracking demo_rules"
    "snd (next_scan (dm_engine ?now)) = Some demo_scan" by code_simp+
  obtain pre post where f: "[Tick] = pre @ Tick # post"
    and r: "let d = dm_engine (fold (daemon_step demo_setup) pre ?now);
              d' = dm_engine (fold (daemon_step demo_setup) (pre @ [Tick]) ?now) in
         \<forall>ps. (\<exists>(uid, c) \<in> set (en_configs d). needs_process_tracking c) \<and> snd (next_scan d) = Some ps \<longrightarrow>
           en_tracked d' = build_tracking (en_configs d) ps
           \<and> (\<exists>mk. en_marker d' = Some mk \<and> set (mk_pid_map mk) = excluded_pids (build_tracking (en_configs d) ps))"
    using lost_events_are_repaired [OF demo_started demo_hyps(3,1) demo_loads demo_hyps(2) refl d] by blast
  have "pre = []" using f by (cases pre) auto
  then show ?thesis using f r c by (intro exI [of _ pre] exI [of _ post]) (auto simp: Let_def)
qed

end
